(* ===== verification/Prelude.thy ===== *)
theory Prelude
  imports Main "HOL-Library.Word" "HOL-Library.Multiset"
begin

text \<open>
  The vocabulary shared by all components: machine types, the ways in which the C++ code can
  stop (\<open>fault\<close>), and programs over an explicit state that either fault or return a value
  and a new state.  A program is a function \<open>'s \<Rightarrow> fault + 'a \<times> 's\<close>; \<open>bnd\<close> runs one program
  and hands its result to the next, as the \<open>;\<close> of the source does.  The weakest-precondition
  operator \<open>wp\<close> is total: \<open>wp m Q s\<close> says that \<open>m\<close> run in \<open>s\<close> does return, and
  that \<open>Q\<close> holds of what it returns.  Its rules are collected in \<open>wp_simps\<close> (equations)
  and \<open>wp_intros\<close> (rules for the operations of the components).
\<close>

named_theorems wp_simps \<open>equations of the weakest precondition\<close>
named_theorems run_simps \<open>equations that run a program in a state\<close>
named_theorems wlp_simps \<open>equations of the weakest liberal precondition\<close>
named_theorems wlp_intros \<open>rules of the operations for the well-formedness of the state\<close>
named_theorems wp_intros \<open>weakest-precondition rules of the components' operations\<close>

type_synonym byte = "8 word"
type_synonym u16 = "16 word"
type_synonym u32 = "32 word"
type_synonym u64 = "64 word"
type_synonym mem = "nat \<Rightarrow> byte"

text \<open>How a run of the C++ code can end other than by returning.\<close>

datatype fault =
    NullDeref        \<comment> \<open>a pointer that is NULL is dereferenced\<close>
  | DanglingPtr      \<comment> \<open>a pointer to a deleted object is dereferenced\<close>
  | OutOfBounds      \<comment> \<open>an access outside the bytes of an object\<close>
  | Aborted          \<comment> \<open>\<open>abort ()\<close> is called\<close>
  | Blocked          \<comment> \<open>the code still waits for its environment\<close>
  | Endless          \<comment> \<open>the code never leaves a loop\<close>

type_synonym ('s, 'a) prog = "'s \<Rightarrow> fault + 'a \<times> 's"

definition ret :: "'a \<Rightarrow> ('s, 'a) prog" where
  "ret x = (\<lambda>s. Inr (x, s))"

definition fail :: "fault \<Rightarrow> ('s, 'a) prog" where
  "fail e = (\<lambda>s. Inl e)"

definition bnd :: "('s, 'a) prog \<Rightarrow> ('a \<Rightarrow> ('s, 'b) prog) \<Rightarrow> ('s, 'b) prog" where
  "bnd m f = (\<lambda>s. case m s of Inl e \<Rightarrow> Inl e | Inr (x, t) \<Rightarrow> f x t)"

definition sq :: "('s, 'a) prog \<Rightarrow> ('s, 'b) prog \<Rightarrow> ('s, 'b) prog" where
  "sq m n = bnd m (\<lambda>_. n)"

definition gets :: "('s \<Rightarrow> 'a) \<Rightarrow> ('s, 'a) prog" where
  "gets f = (\<lambda>s. Inr (f s, s))"

definition modify :: "('s \<Rightarrow> 's) \<Rightarrow> ('s, unit) prog" where
  "modify f = (\<lambda>s. Inr ((), f s))"

definition check :: "bool \<Rightarrow> fault \<Rightarrow> ('s, unit) prog" where
  "check b e = (if b then ret () else fail e)"

text \<open>A \<open>for\<close> loop over the elements of a container, in their order.\<close>

fun for_each :: "'x list \<Rightarrow> ('x \<Rightarrow> ('s, unit) prog) \<Rightarrow> ('s, unit) prog" where
  "for_each [] f = ret ()"
| "for_each (x # xs) f = sq (f x) (for_each xs f)"

text \<open>A loop whose body may leave the loop early with \<open>return\<close>: the body says whether to go on.\<close>

fun for_while :: "'x list \<Rightarrow> ('x \<Rightarrow> ('s, bool) prog) \<Rightarrow> ('s, bool) prog" where
  "for_while [] f = ret True"
| "for_while (x # xs) f = bnd (f x) (\<lambda>go. if go then for_while xs f else ret False)"

section \<open>Weakest preconditions\<close>

definition wp :: "('s, 'a) prog \<Rightarrow> ('a \<Rightarrow> 's \<Rightarrow> bool) \<Rightarrow> 's \<Rightarrow> bool" where
  "wp m Q s = (case m s of Inl e \<Rightarrow> False | Inr (x, t) \<Rightarrow> Q x t)"

lemma wp_ret [wp_simps]: "wp (ret x) Q s = Q x s"
  by (simp add: wp_def ret_def)

lemma wp_fail [wp_simps]: "wp (fail e) Q s = False"
  by (simp add: wp_def fail_def)

lemma wp_bnd [wp_simps]: "wp (bnd m f) Q s = wp m (\<lambda>x. wp (f x) Q) s"
  by (auto simp: wp_def bnd_def split: sum.splits prod.splits)

lemma wp_sq [wp_simps]: "wp (sq m n) Q s = wp m (\<lambda>x. wp n Q) s"
  by (simp add: sq_def wp_bnd)

lemma wp_gets [wp_simps]: "wp (gets f) Q s = Q (f s) s"
  by (simp add: wp_def gets_def)

lemma wp_modify [wp_simps]: "wp (modify f) Q s = Q () (f s)"
  by (simp add: wp_def modify_def)

lemma wp_check [wp_simps]: "wp (check b e) Q s = (b \<and> Q () s)"
  by (simp add: check_def wp_ret wp_fail)

lemma wp_if [wp_simps]: "wp (if b then m else n) Q s = (if b then wp m Q s else wp n Q s)"
  by simp

lemma wp_let [wp_simps]: "wp (let x = a in m x) Q s = wp (m a) Q s"
  by simp

lemma wp_case_option [wp_simps]:
  "wp (case x of None \<Rightarrow> m | Some y \<Rightarrow> n y) Q s
   = (case x of None \<Rightarrow> wp m Q s | Some y \<Rightarrow> wp (n y) Q s)"
  by (simp split: option.split)

lemma wp_mono: "wp m Q s \<Longrightarrow> (\<And>x t. Q x t \<Longrightarrow> R x t) \<Longrightarrow> wp m R s"
  by (auto simp: wp_def split: sum.splits)

lemma wp_conj: "wp m Q s \<Longrightarrow> wp m R s \<Longrightarrow> wp m (\<lambda>x t. Q x t \<and> R x t) s"
  by (auto simp: wp_def split: sum.splits)

lemma wpD: "wp m Q s \<Longrightarrow> \<exists>x t. m s = Inr (x, t) \<and> Q x t"
  by (auto simp: wp_def split: sum.splits)

lemma wpI: "m s = Inr (x, t) \<Longrightarrow> Q x t \<Longrightarrow> wp m Q s"
  by (simp add: wp_def)

lemma wp_Inr: "wp m Q s \<Longrightarrow> m s = Inr (x, t) \<Longrightarrow> Q x t"
  by (simp add: wp_def)

text \<open>The loop rule: an invariant indexed by the part of the list that is still to come.\<close>

lemma wp_for_each:
  assumes "I xs s"
    and "\<And>x ys t. I (x # ys) t \<Longrightarrow> x \<in> set xs \<Longrightarrow> wp (f x) (\<lambda>_. I ys) t"
  shows "wp (for_each xs f) (\<lambda>_. I []) s"
  using assms
proof (induction xs arbitrary: s)
  case Nil
  then show ?case by (simp add: wp_simps)
next
  case (Cons x xs)
  have step: "wp (f y) (\<lambda>_. I ys) t" if "I (y # ys) t" "y \<in> set xs" for y ys t
    using that by (intro Cons.prems(2)) simp_all
  have "wp (f x) (\<lambda>_. I xs) s"
    using Cons.prems(1) by (rule Cons.prems(2)) simp
  then have "wp (f x) (\<lambda>_. wp (for_each xs f) (\<lambda>_. I [])) s"
    by (rule wp_mono) (rule Cons.IH [OF _ step])
  then show ?case by (simp add: wp_simps)
qed

lemma run_bnd_Inr [run_simps]: "m s = Inr (x, t) \<Longrightarrow> bnd m f s = f x t"
  by (simp add: bnd_def)

lemma run_bnd_Inl [run_simps]: "m s = Inl e \<Longrightarrow> bnd m f s = Inl e"
  by (simp add: bnd_def)

lemma run_sq_Inr [run_simps]: "m s = Inr (x, t) \<Longrightarrow> sq m n s = n t"
  by (simp add: sq_def run_bnd_Inr)

lemma run_sq_Inl [run_simps]: "m s = Inl e \<Longrightarrow> sq m n s = Inl e"
  by (simp add: sq_def run_bnd_Inl)

lemma run_ret [run_simps]: "ret x s = Inr (x, s)"
  by (simp add: ret_def)

lemma run_fail [run_simps]: "fail e s = Inl e"
  by (simp add: fail_def)

lemma run_gets [run_simps]: "gets f s = Inr (f s, s)"
  by (simp add: gets_def)

lemma run_modify [run_simps]: "modify f s = Inr ((), f s)"
  by (simp add: modify_def)

lemma run_check [run_simps]: "check b e s = (if b then Inr ((), s) else Inl e)"
  by (simp add: check_def run_ret run_fail)

section \<open>Weakest liberal preconditions\<close>

text \<open>
  \<open>wlp m Q s\<close> is the partial form: \<open>Q\<close> holds of what \<open>m\<close> returns, if it does return.  It is what
  an invariant of the state needs: whatever a packet makes the code do, a run that does not end in
  a fault leaves the state well formed.
\<close>

definition wlp :: "('s, 'a) prog \<Rightarrow> ('a \<Rightarrow> 's \<Rightarrow> bool) \<Rightarrow> 's \<Rightarrow> bool" where
  "wlp m Q s = (case m s of Inl e \<Rightarrow> True | Inr (x, t) \<Rightarrow> Q x t)"

lemma wlp_ret [wlp_simps]: "wlp (ret x) Q = Q x"
  by (simp add: wlp_def ret_def fun_eq_iff)

lemma wlp_fail [wlp_simps]: "wlp (fail e) Q s"
  by (simp add: wlp_def fail_def)

lemma wlp_bnd [wlp_simps]: "wlp (bnd m f) Q = wlp m (\<lambda>x. wlp (f x) Q)"
  by (auto simp: wlp_def bnd_def fun_eq_iff split: sum.splits prod.splits)

lemma wlp_sq [wlp_simps]: "wlp (sq m n) Q = wlp m (\<lambda>_. wlp n Q)"
  by (simp add: sq_def wlp_bnd)

lemma wlp_gets [wlp_simps]: "wlp (gets f) Q s = Q (f s) s"
  by (simp add: wlp_def gets_def)

lemma wlp_modify [wlp_simps]: "wlp (modify f) Q s = Q () (f s)"
  by (simp add: wlp_def modify_def)

lemma wlp_check [wlp_simps]: "wlp (check b e) Q s = (b \<longrightarrow> Q () s)"
  by (simp add: check_def wlp_ret wlp_fail)

lemma wlp_if [wlp_simps]: "wlp (if b then m else n) Q s = ((b \<longrightarrow> wlp m Q s) \<and> (\<not> b \<longrightarrow> wlp n Q s))"
  by simp

lemma wlp_let [wlp_simps]: "wlp (let x = a in m x) Q s = wlp (m a) Q s"
  by simp

lemma wlp_case_option [wlp_simps]:
  "wlp (case x of None \<Rightarrow> m | Some y \<Rightarrow> n y) Q s
   = ((x = None \<longrightarrow> wlp m Q s) \<and> (\<forall>y. x = Some y \<longrightarrow> wlp (n y) Q s))"
  by (simp split: option.split)

lemma wlp_case_prod [wlp_simps]: "wlp (case x of (a, b) \<Rightarrow> n a b) Q s = wlp (n (fst x) (snd x)) Q s"
  by (simp split: prod.split)

lemma wlp_mono: "wlp m Q s \<Longrightarrow> (\<And>x t. Q x t \<Longrightarrow> R x t) \<Longrightarrow> wlp m R s"
  by (auto simp: wlp_def split: sum.splits)

lemma wlpI: "(\<And>x t. m s = Inr (x, t) \<Longrightarrow> Q x t) \<Longrightarrow> wlp m Q s"
  by (auto simp: wlp_def split: sum.splits)

lemma wlpD: "wlp m Q s \<Longrightarrow> m s = Inr (x, t) \<Longrightarrow> Q x t"
  by (simp add: wlp_def)

lemma wlp_true [simp]: "wlp m (\<lambda>_ _. True) s"
  by (rule wlpI) simp

lemma wlp_for_each_loop:
  assumes "I xs s"
    and "\<And>x ys t. I (x # ys) t \<Longrightarrow> x \<in> set xs \<Longrightarrow> wlp (f x) (\<lambda>_. I ys) t"
  shows "wlp (for_each xs f) (\<lambda>_. I []) s"
  using assms
proof (induction xs arbitrary: s)
  case (Cons x xs)
  have "wlp (f x) (\<lambda>_. I xs) s"
    using Cons.prems(1) by (rule Cons.prems(2)) simp
  then have "wlp (f x) (\<lambda>_. wlp (for_each xs f) (\<lambda>_. I [])) s"
    by (rule wlp_mono) (rule Cons.IH, simp_all add: Cons.prems(2))
  then show ?case by (simp add: wlp_simps)
qed (simp add: wlp_simps)

lemma wlp_for_while_loop:
  assumes "I s" and "\<And>x t. I t \<Longrightarrow> x \<in> set xs \<Longrightarrow> wlp (f x) (\<lambda>_. I) t"
  shows "wlp (for_while xs f) (\<lambda>_. I) s"
  using assms
proof (induction xs arbitrary: s)
  case (Cons x xs)
  have "wlp (f x) (\<lambda>_. I) s"
    using Cons.prems(1) by (rule Cons.prems(2)) simp
  then have "wlp (f x) (\<lambda>go. wlp (if go then for_while xs f else ret False) (\<lambda>_. I)) s"
    by (rule wlp_mono) (simp add: wlp_simps Cons.IH Cons.prems(2))
  then show ?case by (simp add: wlp_simps)
qed (simp add: wlp_simps)

end
