(* ===== verification/Bytes.thy ===== *)
theory Bytes
  imports Prelude
begin

text \<open>
  Memory as the code sees it through its casts: a buffer is a function from offsets to bytes.
  \<open>*(unsigned int*) (p + o)\<close> on the little-endian machine the server is built for is
  \<open>get32 m o\<close>, the assignment through the same cast is \<open>put32 m o v\<close>, \<open>memcpy\<close> is
  \<open>copy_mem\<close>, and a C string is read up to its terminating zero by \<open>cstr\<close>.  The lemmas are
  the round trips and the frame rules: a write changes only the bytes it covers.
\<close>

unbundle bit_operations_syntax

definition get32 :: "mem \<Rightarrow> nat \<Rightarrow> u32" where
  "get32 m a = ucast (m a) OR push_bit 8 (ucast (m (a + 1)))
     OR push_bit 16 (ucast (m (a + 2))) OR push_bit 24 (ucast (m (a + 3)))"

definition byte_of :: "nat \<Rightarrow> u32 \<Rightarrow> byte" where
  "byte_of k v = ucast (drop_bit (8 * k) v)"

definition put32 :: "mem \<Rightarrow> nat \<Rightarrow> u32 \<Rightarrow> mem" where
  "put32 m a v = m(a := byte_of 0 v, a + 1 := byte_of 1 v, a + 2 := byte_of 2 v, a + 3 := byte_of 3 v)"

text \<open>A 64-bit value is stored low word first.\<close>

definition get64 :: "mem \<Rightarrow> nat \<Rightarrow> u64" where
  "get64 m a = ucast (get32 m a) OR push_bit 32 (ucast (get32 m (a + 4)))"

definition put64 :: "mem \<Rightarrow> nat \<Rightarrow> u64 \<Rightarrow> mem" where
  "put64 m a v = put32 (put32 m a (ucast v)) (a + 4) (ucast (drop_bit 32 v))"

text \<open>\<open>memcpy (dst + d, src + o, n)\<close>, and the same from a list of bytes.\<close>

definition copy_mem :: "mem \<Rightarrow> nat \<Rightarrow> mem \<Rightarrow> nat \<Rightarrow> nat \<Rightarrow> mem" where
  "copy_mem dst d src a n = (\<lambda>i. if d \<le> i \<and> i < d + n then src (a + (i - d)) else dst i)"

definition copy_list :: "mem \<Rightarrow> nat \<Rightarrow> byte list \<Rightarrow> mem" where
  "copy_list dst d bs = (\<lambda>i. if d \<le> i \<and> i < d + length bs then bs ! (i - d) else dst i)"

definition bytes_at :: "mem \<Rightarrow> nat \<Rightarrow> nat \<Rightarrow> byte list" where
  "bytes_at m a n = map m [a ..< a + n]"

text \<open>The four bytes of a word, in memory order.\<close>

definition le32 :: "u32 \<Rightarrow> byte list" where
  "le32 v = [byte_of 0 v, byte_of 1 v, byte_of 2 v, byte_of 3 v]"

text \<open>A C string that starts at \<open>a\<close> in an object that ends at \<open>e\<close>: the bytes before the first
  zero, or \<open>None\<close> when the object holds no zero from there on (the code then reads past it).\<close>

function cstr :: "mem \<Rightarrow> nat \<Rightarrow> nat \<Rightarrow> byte list option" where
  "cstr m a e = (if a < e then if m a = 0 then Some [] else map_option (Cons (m a)) (cstr m (a + 1) e)
                 else None)"
  by pat_completeness auto
termination by (relation "measure (\<lambda>(m, a, e). e - a)") auto

declare cstr.simps [simp del]

definition chars :: "string \<Rightarrow> byte list" where
  "chars s = map of_char s"

text \<open>\<open>strcpy\<close> into a zeroed \<open>char[n]\<close>: the whole field, or \<open>None\<close> when the string and its
  terminating zero do not fit.\<close>

definition strcpy_field :: "nat \<Rightarrow> byte list \<Rightarrow> byte list option" where
  "strcpy_field n s = (if length s < n then Some (s @ replicate (n - length s) 0) else None)"

section \<open>Round trips and frames\<close>

lemma get32_put32: "get32 (put32 m a v) a = v"
proof (rule bit_word_eqI)
  fix n assume "n < LENGTH(32)"
  then have "n < 8 \<or> 8 \<le> n \<and> n < 16 \<or> 16 \<le> n \<and> n < 24 \<or> 24 \<le> n \<and> n < 32" by auto
  then show "bit (get32 (put32 m a v) a) n = bit v n"
    by (elim disjE)
       (auto simp: get32_def put32_def byte_of_def bit_or_iff bit_push_bit_iff bit_unsigned_iff
          bit_drop_bit_eq)
qed

lemma put32_other: "i < a \<or> a + 4 \<le> i \<Longrightarrow> put32 m a v i = m i"
  by (auto simp: put32_def)

lemma get32_cong: "(\<And>i. a \<le> i \<Longrightarrow> i < a + 4 \<Longrightarrow> m i = n i) \<Longrightarrow> get32 m a = get32 n a"
  by (simp add: get32_def)

lemma get32_put32_other: "b + 4 \<le> a \<or> a + 4 \<le> b \<Longrightarrow> get32 (put32 m a v) b = get32 m b"
  by (rule get32_cong) (rule put32_other, auto)

lemma put32_put32: "put32 (put32 m a v) a w = put32 m a w"
  by (auto simp: put32_def fun_eq_iff)

lemma get64_put64: "get64 (put64 m a v) a = v"
proof -
  have "get64 (put64 m a v) a = ucast (ucast v :: u32) OR push_bit 32 (ucast (ucast (drop_bit 32 v) :: u32))"
    by (simp add: get64_def put64_def get32_put32 get32_put32_other)
  also have "\<dots> = v"
    by (rule bit_word_eqI)
       (auto simp: bit_or_iff bit_push_bit_iff bit_unsigned_iff bit_drop_bit_eq)
  finally show ?thesis .
qed

lemma put64_other: "i < a \<or> a + 8 \<le> i \<Longrightarrow> put64 m a v i = m i"
  by (auto simp: put64_def put32_other)

lemma get32_put64_other: "b + 4 \<le> a \<or> a + 8 \<le> b \<Longrightarrow> get32 (put64 m a v) b = get32 m b"
  by (rule get32_cong) (rule put64_other, auto)

lemma get64_cong: "(\<And>i. a \<le> i \<Longrightarrow> i < a + 8 \<Longrightarrow> m i = n i) \<Longrightarrow> get64 m a = get64 n a"
  unfolding get64_def by (intro arg_cong2 [where f = "(OR)"] arg_cong [where f = "push_bit 32"]
      arg_cong [where f = ucast] get32_cong) auto

lemma get64_put64_other: "b + 8 \<le> a \<or> a + 8 \<le> b \<Longrightarrow> get64 (put64 m a v) b = get64 m b"
  by (rule get64_cong) (rule put64_other, auto)

lemma get64_put32_other: "b + 8 \<le> a \<or> a + 4 \<le> b \<Longrightarrow> get64 (put32 m a v) b = get64 m b"
  by (rule get64_cong) (rule put32_other, auto)

lemma copy_mem_in: "d \<le> i \<Longrightarrow> i < d + n \<Longrightarrow> copy_mem dst d src a n i = src (a + (i - d))"
  by (simp add: copy_mem_def)

lemma copy_mem_other: "i < d \<or> d + n \<le> i \<Longrightarrow> copy_mem dst d src a n i = dst i"
  by (auto simp: copy_mem_def)

lemma get32_copy_mem_other:
  "b + 4 \<le> d \<or> d + n \<le> b \<Longrightarrow> get32 (copy_mem dst d src a n) b = get32 dst b"
  by (rule get32_cong) (rule copy_mem_other, auto)

lemma get32_copy_mem:
  "d \<le> b \<Longrightarrow> b + 4 \<le> d + n \<Longrightarrow> get32 (copy_mem dst d src a n) b = get32 src (a + (b - d))"
  by (simp add: get32_def copy_mem_def Suc_diff_le add.assoc)

lemma bytes_at_copy_mem: "bytes_at (copy_mem dst d src a n) d n = bytes_at src a n"
  by (auto simp: bytes_at_def copy_mem_def intro!: nth_equalityI)

lemma bytes_at_copy_list: "bytes_at (copy_list dst d bs) d (length bs) = bs"
  by (auto simp: bytes_at_def copy_list_def intro!: nth_equalityI)

lemma copy_list_other: "i < d \<or> d + length bs \<le> i \<Longrightarrow> copy_list dst d bs i = dst i"
  by (auto simp: copy_list_def)

lemma get32_copy_list_other:
  "b + 4 \<le> d \<or> d + length bs \<le> b \<Longrightarrow> get32 (copy_list dst d bs) b = get32 dst b"
  by (rule get32_cong) (rule copy_list_other, auto)

lemma bytes_at_cong:
  "(\<And>i. a \<le> i \<Longrightarrow> i < a + n \<Longrightarrow> m i = m' i) \<Longrightarrow> bytes_at m a n = bytes_at m' a n"
  by (simp add: bytes_at_def)

lemma bytes_at_put32_other: "b + n \<le> a \<or> a + 4 \<le> b \<Longrightarrow> bytes_at (put32 m a v) b n = bytes_at m b n"
  by (rule bytes_at_cong) (rule put32_other, auto)

lemma length_bytes_at [simp]: "length (bytes_at m a n) = n"
  by (simp add: bytes_at_def)

lemma length_le32 [simp]: "length (le32 v) = 4"
  by (simp add: le32_def)

lemma copy_list_le32: "copy_list m a (le32 v) = put32 m a v"
proof
  fix i
  consider "i < a" | "i = a" | "i = a + 1" | "i = a + 2" | "i = a + 3" | "a + 4 \<le> i" by linarith
  then show "copy_list m a (le32 v) i = put32 m a v i"
    by cases (simp_all add: copy_list_def le32_def put32_def)
qed

lemma get32_copy_list:
  "length pre + 4 + length post = length bs \<Longrightarrow> bs = pre @ le32 v @ post \<Longrightarrow>
   get32 (copy_list m d bs) (d + length pre) = v"
proof -
  assume bs: "bs = pre @ le32 v @ post"
  have "get32 (copy_list m d bs) (d + length pre) = get32 (put32 m (d + length pre) v) (d + length pre)"
  proof (rule get32_cong)
    fix i assume "d + length pre \<le> i" "i < d + length pre + 4"
    then consider "i = d + length pre" | "i = d + length pre + 1" | "i = d + length pre + 2"
      | "i = d + length pre + 3" by linarith
    then show "copy_list m d bs i = put32 m (d + length pre) v i"
      by cases (simp_all add: copy_list_def bs nth_append le32_def put32_def)
  qed
  then show ?thesis by (simp add: get32_put32)
qed

lemma length_strcpy_field: "strcpy_field n s = Some f \<Longrightarrow> length f = n"
  by (auto simp: strcpy_field_def split: if_splits)

lemma cstr_bound: "cstr m a e = Some s \<Longrightarrow> a + length s < e"
proof (induction m a e arbitrary: s rule: cstr.induct)
  case (1 m a e)
  show ?case
  proof (cases "a < e \<and> m a \<noteq> 0")
    case True
    with "1.prems" obtain t where t: "cstr m (a + 1) e = Some t" "s = m a # t"
      by (subst (asm) cstr.simps) auto
    then have "a + 1 + length t < e" using True "1.IH" by simp
    with t show ?thesis by simp
  next
    case False
    with "1.prems" show ?thesis by (subst (asm) cstr.simps) (auto split: if_splits)
  qed
qed

text \<open>What \<open>strcpy\<close> stores is what a C string read of the field gives back.\<close>

lemma cstr_append_zero:
  assumes "0 \<notin> set s" and "\<And>i. i < length s \<Longrightarrow> m (a + i) = s ! i"
    and "m (a + length s) = 0" and "a + length s < e"
  shows "cstr m a e = Some s"
  using assms
proof (induction s arbitrary: a)
  case Nil
  then show ?case by (simp add: cstr.simps [of m a e])
next
  case (Cons x s)
  have "cstr m (a + 1) e = Some s"
  proof (rule Cons.IH)
    show "0 \<notin> set s" using Cons.prems(1) by simp
    show "m (a + 1 + length s) = 0" "a + 1 + length s < e" using Cons.prems(3,4) by simp_all
    fix i assume "i < length s"
    then show "m (a + 1 + i) = s ! i" using Cons.prems(2) [of "Suc i"] by simp
  qed
  moreover have "m a = x" "x \<noteq> 0" "a < e" using Cons.prems(1,4) Cons.prems(2) [of 0] by auto
  ultimately show ?case by (simp add: cstr.simps [of m a e])
qed

lemma cstr_strcpy_field:
  assumes "strcpy_field n s = Some f" and "0 \<notin> set s" and "a + n \<le> e"
  shows "cstr (copy_list m a f) a e = Some s"
proof (rule cstr_append_zero)
  from assms(1) have f: "f = s @ replicate (n - length s) 0" "length s < n"
    by (auto simp: strcpy_field_def split: if_splits)
  show "copy_list m a f (a + length s) = 0"
    using f by (simp add: copy_list_def nth_append)
  show "a + length s < e" using f assms(3) by simp
  fix i assume "i < length s"
  then show "copy_list m a f (a + i) = s ! i" using f by (simp add: copy_list_def nth_append)
qed (rule assms(2))

end
