(* ===== verification/Protocol.thy ===== *)
theory Protocol
  imports Bytes
begin

text \<open>
  \<open>protocol.h\<close>: the numbering of the message types, the other enumerations, and the layout
  of the packed structures.  Each enumerator is a constant with its number.  \<open>command_enum\<close>
  lists the enumerators of \<open>CommandType\<close> as they are declared, in two parts, with the explicit values;
  \<open>enum_values\<close> is C's rule for numbering them, and \<open>command_values\<close> shows that the rule
  gives exactly the numbers of the constants.  A structure is a list of named fields; under
  \<open>#pragma pack(1)\<close> the offset of a field is the sum of the sizes before it.
\<close>

section \<open>Message types\<close>

fun enum_values :: "u32 \<Rightarrow> u32 option list \<Rightarrow> u32 list" where
  "enum_values nxt [] = []"
| "enum_values nxt (None # xs) = nxt # enum_values (nxt + 1) xs"
| "enum_values nxt (Some v # xs) = v # enum_values (v + 1) xs"

definition CT_Test :: u32 where "CT_Test = 1"
definition CT_ChangeScene :: u32 where "CT_ChangeScene = 100"
definition ST_ChangeScene :: u32 where "ST_ChangeScene = 101"
definition CT_ControlChangeScene :: u32 where "CT_ControlChangeScene = 102"
definition ST_ControlChangeScene :: u32 where "ST_ControlChangeScene = 103"
definition CT_InitSceneFinished :: u32 where "CT_InitSceneFinished = 104"
definition ST_InitSceneFinished :: u32 where "ST_InitSceneFinished = 105"
definition ST_ConfirmIntoClassRoom :: u32 where "ST_ConfirmIntoClassRoom = 106"
definition CT_ConfirmIntoClassRoom :: u32 where "CT_ConfirmIntoClassRoom = 107"
definition ST_GetStudentCount :: u32 where "ST_GetStudentCount = 108"
definition CT_GetCurrentScene :: u32 where "CT_GetCurrentScene = 109"
definition ST_GetCurrentScene :: u32 where "ST_GetCurrentScene = 110"
definition CT_Login :: u32 where "CT_Login = 150"
definition CT_LoginResult :: u32 where "CT_LoginResult = 151"
definition CT_GetCourseDBCount :: u32 where "CT_GetCourseDBCount = 152"
definition CT_GetCourseDB :: u32 where "CT_GetCourseDB = 153"
definition CT_SetCourseGroup :: u32 where "CT_SetCourseGroup = 154"
definition CT_GetCourseGroup :: u32 where "CT_GetCourseGroup = 155"
definition ST_GetCourseGroup :: u32 where "ST_GetCourseGroup = 156"
definition CT_GetCourseItemCount :: u32 where "CT_GetCourseItemCount = 157"
definition CT_GetCourseItem :: u32 where "CT_GetCourseItem = 158"
definition CT_Logout :: u32 where "CT_Logout = 159"
definition CT_LogoutReuslt :: u32 where "CT_LogoutReuslt = 160"
definition CT_GetClassRoomDBCount :: u32 where "CT_GetClassRoomDBCount = 161"
definition CT_GetClassRoomDB :: u32 where "CT_GetClassRoomDB = 162"
definition CT_GetGradeDBCount :: u32 where "CT_GetGradeDBCount = 163"
definition CT_GetGradeDB :: u32 where "CT_GetGradeDB = 164"
definition CT_GetClassDBCount :: u32 where "CT_GetClassDBCount = 165"
definition CT_GetClassDB :: u32 where "CT_GetClassDB = 166"
definition CT_LoginClassRoom :: u32 where "CT_LoginClassRoom = 167"
definition CT_LogoutClassRoom :: u32 where "CT_LogoutClassRoom = 168"
definition CT_GetStudentDetailInfo :: u32 where "CT_GetStudentDetailInfo = 169"
definition ST_GetStudentDetailInfo :: u32 where "ST_GetStudentDetailInfo = 170"
definition CT_GetAllStudentInfoCount :: u32 where "CT_GetAllStudentInfoCount = 171"
definition CT_GetAllStudentInfo :: u32 where "CT_GetAllStudentInfo = 172"
definition CT_LeaveEarly :: u32 where "CT_LeaveEarly = 173"
definition ST_LeaveEarly :: u32 where "ST_LeaveEarly = 174"
definition CT_ConfirmLeaveEarly :: u32 where "CT_ConfirmLeaveEarly = 175"
definition CT_GetTeacherInfo :: u32 where "CT_GetTeacherInfo = 176"
definition ST_GetTeacherInfo :: u32 where "ST_GetTeacherInfo = 177"
definition CT_LockStudent :: u32 where "CT_LockStudent = 178"
definition ST_LockStudent :: u32 where "ST_LockStudent = 179"
definition CT_SelectedClassRoom :: u32 where "CT_SelectedClassRoom = 180"
definition CT_CourseFinished :: u32 where "CT_CourseFinished = 181"
definition ST_CourseFinished :: u32 where "ST_CourseFinished = 182"
definition CT_GetDBRecordFinished :: u32 where "CT_GetDBRecordFinished = 183"
definition ST_GetDBRecordFinished :: u32 where "ST_GetDBRecordFinished = 184"
definition CT_GetCourseItemKeyInfoReq :: u32 where "CT_GetCourseItemKeyInfoReq = 185"
definition CT_GetCourseItemKeyInfoRsp :: u32 where "CT_GetCourseItemKeyInfoRsp = 186"
definition ST_SendStudentStatus :: u32 where "ST_SendStudentStatus = 187"
definition CT_Common_PlayorPause :: u32 where "CT_Common_PlayorPause = 188"
definition ST_Common_PlayorPause :: u32 where "ST_Common_PlayorPause = 189"
definition CT_Common_Resume :: u32 where "CT_Common_Resume = 190"
definition ST_Common_Resume :: u32 where "ST_Common_Resume = 191"
definition CT_Common_Stop :: u32 where "CT_Common_Stop = 192"
definition ST_Common_Stop :: u32 where "ST_Common_Stop = 193"
definition CT_ShowSpriteAnimation :: u32 where "CT_ShowSpriteAnimation = 200"
definition ST_ShowSpriteAnimation :: u32 where "ST_ShowSpriteAnimation = 201"
definition CT_ShowSpriteControl :: u32 where "CT_ShowSpriteControl = 300"
definition ST_ShowSpriteControl :: u32 where "ST_ShowSpriteControl = 301"
definition CT_ControlLevel :: u32 where "CT_ControlLevel = 302"
definition ST_ControlLevel :: u32 where "ST_ControlLevel = 303"
definition CT_Exercise_GameStart :: u32 where "CT_Exercise_GameStart = 400"
definition ST_Exercise_GameStart :: u32 where "ST_Exercise_GameStart = 401"
definition CT_Exercise_Play :: u32 where "CT_Exercise_Play = 402"
definition ST_Exercise_Play :: u32 where "ST_Exercise_Play = 403"
definition CT_Exercise_Pause :: u32 where "CT_Exercise_Pause = 404"
definition ST_Exercise_Pause :: u32 where "ST_Exercise_Pause = 405"
definition CT_Exercise_Stop :: u32 where "CT_Exercise_Stop = 406"
definition ST_Exercise_Stop :: u32 where "ST_Exercise_Stop = 407"
definition CT_Exercise_GameEnd :: u32 where "CT_Exercise_GameEnd = 408"
definition ST_Exercise_GameEnd :: u32 where "ST_Exercise_GameEnd = 409"
definition CT_Cartoon_GameStart :: u32 where "CT_Cartoon_GameStart = 500"
definition ST_Cartoon_GameStart :: u32 where "ST_Cartoon_GameStart = 501"
definition CT_Cartoon_Play :: u32 where "CT_Cartoon_Play = 502"
definition ST_Cartoon_Play :: u32 where "ST_Cartoon_Play = 503"
definition CT_Cartoon_Pause :: u32 where "CT_Cartoon_Pause = 504"
definition ST_Cartoon_Pause :: u32 where "ST_Cartoon_Pause = 505"
definition CT_Cartoon_Stop :: u32 where "CT_Cartoon_Stop = 506"
definition ST_Cartoon_Stop :: u32 where "ST_Cartoon_Stop = 507"
definition CT_Cartoon_GameEnd :: u32 where "CT_Cartoon_GameEnd = 508"
definition ST_Cartoon_GameEnd :: u32 where "ST_Cartoon_GameEnd = 509"
definition CT_BuildHouse_CaiHongXiaoWu :: u32 where "CT_BuildHouse_CaiHongXiaoWu = 600"
definition ST_BuildHouse_CaiHongXiaoWu :: u32 where "ST_BuildHouse_CaiHongXiaoWu = 601"
definition CT_BuildHouse_CaiHongGu :: u32 where "CT_BuildHouse_CaiHongGu = 602"
definition ST_BuildHouse_CaiHongGu :: u32 where "ST_BuildHouse_CaiHongGu = 603"
definition CT_BuildHouse_XiaoGuaiWu :: u32 where "CT_BuildHouse_XiaoGuaiWu = 604"
definition ST_BuildHouse_XiaoGuaiWu :: u32 where "ST_BuildHouse_XiaoGuaiWu = 605"
definition CT_BuildHouse_MuBu :: u32 where "CT_BuildHouse_MuBu = 606"
definition ST_BuildHouse_MuBu :: u32 where "ST_BuildHouse_MuBu = 607"
definition CT_BuildHouse_OperatorDemo :: u32 where "CT_BuildHouse_OperatorDemo = 608"
definition ST_BuildHouse_OperatorDemo :: u32 where "ST_BuildHouse_OperatorDemo = 609"
definition CT_BuildHouse_SingleMode :: u32 where "CT_BuildHouse_SingleMode = 610"
definition ST_BuildHouse_SingleMode :: u32 where "ST_BuildHouse_SingleMode = 611"
definition CT_BuildHouse_GroupMode :: u32 where "CT_BuildHouse_GroupMode = 612"
definition ST_BuildHouse_GroupMode :: u32 where "ST_BuildHouse_GroupMode = 613"
definition CT_BuildHouse_SetStuGroupCount :: u32 where "CT_BuildHouse_SetStuGroupCount = 614"
definition CT_BuildHouse_SetStuGroup :: u32 where "CT_BuildHouse_SetStuGroup = 615"
definition CT_BuildHouse_GetStuGroupCount :: u32 where "CT_BuildHouse_GetStuGroupCount = 616"
definition CT_BuildHouse_GetStuGroup :: u32 where "CT_BuildHouse_GetStuGroup = 617"
definition CT_BuildHouse_GameStart :: u32 where "CT_BuildHouse_GameStart = 618"
definition ST_BuildHouse_GameStart :: u32 where "ST_BuildHouse_GameStart = 619"
definition CT_BuildHouse_UpdatePos :: u32 where "CT_BuildHouse_UpdatePos = 620"
definition ST_BuildHouse_UpdatePos :: u32 where "ST_BuildHouse_UpdatePos = 621"
definition CT_BuildHouse_GameEnd :: u32 where "CT_BuildHouse_GameEnd = 622"
definition ST_BuildHouse_GameEnd :: u32 where "ST_BuildHouse_GameEnd = 623"
definition CT_BuildHouse_Save :: u32 where "CT_BuildHouse_Save = 624"
definition ST_BuildHouse_Show :: u32 where "ST_BuildHouse_Show = 625"
definition CT_BuildHouse_EmailTibet :: u32 where "CT_BuildHouse_EmailTibet = 626"
definition ST_BuildHouse_EmailTibet :: u32 where "ST_BuildHouse_EmailTibet = 627"
definition CT_BuildHouse_EmailAmerica :: u32 where "CT_BuildHouse_EmailAmerica = 628"
definition ST_BuildHouse_EmailAmerica :: u32 where "ST_BuildHouse_EmailAmerica = 629"
definition CT_BuildHouse_Move :: u32 where "CT_BuildHouse_Move = 630"
definition ST_BuildHouse_Move :: u32 where "ST_BuildHouse_Move = 631"
definition CT_BuildHouse_Angle :: u32 where "CT_BuildHouse_Angle = 632"
definition ST_BuildHouse_Angle :: u32 where "ST_BuildHouse_Angle = 633"
definition CT_BuildHouse_Scale :: u32 where "CT_BuildHouse_Scale = 634"
definition ST_BuildHouse_Scale :: u32 where "ST_BuildHouse_Scale = 635"
definition CT_BuildHouse_Update :: u32 where "CT_BuildHouse_Update = 636"
definition ST_BuildHouse_Update :: u32 where "ST_BuildHouse_Update = 637"
definition CT_BuildHouse_Change_Layer :: u32 where "CT_BuildHouse_Change_Layer = 638"
definition ST_BuildHouse_Change_Layer :: u32 where "ST_BuildHouse_Change_Layer = 639"
definition CT_BuildHouse_Add_Pic :: u32 where "CT_BuildHouse_Add_Pic = 640"
definition ST_BuildHouse_Add_Pic :: u32 where "ST_BuildHouse_Add_Pic = 641"
definition CT_BuildHouse_Del_Pic :: u32 where "CT_BuildHouse_Del_Pic = 642"
definition ST_BuildHouse_Del_Pic :: u32 where "ST_BuildHouse_Del_Pic = 643"
definition CT_BuildHouse_Activation :: u32 where "CT_BuildHouse_Activation = 644"
definition ST_BuildHouse_Activation :: u32 where "ST_BuildHouse_Activation = 645"
definition CT_BuildHouse_Role :: u32 where "CT_BuildHouse_Role = 646"
definition ST_BuildHouse_Role :: u32 where "ST_BuildHouse_Role = 647"
definition CT_BuildHouse_Stamp :: u32 where "CT_BuildHouse_Stamp = 648"
definition ST_BuildHouse_Stamp :: u32 where "ST_BuildHouse_Stamp = 649"
definition CT_BuildHouse_SaveHouse :: u32 where "CT_BuildHouse_SaveHouse = 650"
definition CT_BuildHouse_ScreenShot :: u32 where "CT_BuildHouse_ScreenShot = 651"
definition ST_BuildHouse_Screenshot :: u32 where "ST_BuildHouse_Screenshot = 652"
definition CT_Puzzle_GameStart :: u32 where "CT_Puzzle_GameStart = 700"
definition ST_Puzzle_GameStart :: u32 where "ST_Puzzle_GameStart = 701"
definition CT_Puzzle_GetPic :: u32 where "CT_Puzzle_GetPic = 702"
definition ST_Puzzle_GetPic :: u32 where "ST_Puzzle_GetPic = 703"
definition CT_Puzzle_UpdatePic :: u32 where "CT_Puzzle_UpdatePic = 704"
definition ST_Puzzle_UpdatePic :: u32 where "ST_Puzzle_UpdatePic = 705"
definition CT_Puzzle_IconStatus :: u32 where "CT_Puzzle_IconStatus = 706"
definition ST_Puzzle_IconStatus :: u32 where "ST_Puzzle_IconStatus = 707"
definition CT_Puzzle_Play :: u32 where "CT_Puzzle_Play = 708"
definition ST_Puzzle_Play :: u32 where "ST_Puzzle_Play = 709"
definition CT_Puzzle_Pause :: u32 where "CT_Puzzle_Pause = 710"
definition ST_Puzzle_Pause :: u32 where "ST_Puzzle_Pause = 711"
definition CT_Puzzle_MovePic :: u32 where "CT_Puzzle_MovePic = 712"
definition ST_Puzzle_MovePic :: u32 where "ST_Puzzle_MovePic = 713"
definition CT_Puzzle_DeletePic :: u32 where "CT_Puzzle_DeletePic = 714"
definition ST_Puzzle_DeletePic :: u32 where "ST_Puzzle_DeletePic = 715"
definition CT_Puzzle_AddPic :: u32 where "CT_Puzzle_AddPic = 716"
definition ST_Puzzle_AddPic :: u32 where "ST_Puzzle_AddPic = 717"
definition CT_Puzzle_CalcScore :: u32 where "CT_Puzzle_CalcScore = 718"
definition CT_Puzzle_EndGame :: u32 where "CT_Puzzle_EndGame = 719"
definition ST_Puzzle_EndGame :: u32 where "ST_Puzzle_EndGame = 720"
definition CT_Puzzle_SelectedType :: u32 where "CT_Puzzle_SelectedType = 721"
definition ST_Puzzle_SelectedType :: u32 where "ST_Puzzle_SelectedType = 722"
definition CT_Puzzle_SelectedSize :: u32 where "CT_Puzzle_SelectedSize = 723"
definition ST_Puzzle_SelectedSize :: u32 where "ST_Puzzle_SelectedSize = 724"
definition CT_Scene_End :: u32 where "CT_Scene_End = 725"
definition ST_Scene_End :: u32 where "ST_Scene_End = 726"
definition CT_RainbowValley_HouseNum :: u32 where "CT_RainbowValley_HouseNum = 800"
definition ST_RainbowValley_HouseNum :: u32 where "ST_RainbowValley_HouseNum = 801"
definition CT_RainbowValley_HouseInfo :: u32 where "CT_RainbowValley_HouseInfo = 802"
definition ST_RainbowValley_HouseInfo :: u32 where "ST_RainbowValley_HouseInfo = 803"
definition ST_Dynamic_MessageType :: u32 where "ST_Dynamic_MessageType = 10000"

lemmas cmd_defs =
  CT_Test_def CT_ChangeScene_def ST_ChangeScene_def CT_ControlChangeScene_def
  ST_ControlChangeScene_def CT_InitSceneFinished_def ST_InitSceneFinished_def ST_ConfirmIntoClassRoom_def
  CT_ConfirmIntoClassRoom_def ST_GetStudentCount_def CT_GetCurrentScene_def ST_GetCurrentScene_def
  CT_Login_def CT_LoginResult_def CT_GetCourseDBCount_def CT_GetCourseDB_def
  CT_SetCourseGroup_def CT_GetCourseGroup_def ST_GetCourseGroup_def CT_GetCourseItemCount_def
  CT_GetCourseItem_def CT_Logout_def CT_LogoutReuslt_def CT_GetClassRoomDBCount_def
  CT_GetClassRoomDB_def CT_GetGradeDBCount_def CT_GetGradeDB_def CT_GetClassDBCount_def
  CT_GetClassDB_def CT_LoginClassRoom_def CT_LogoutClassRoom_def CT_GetStudentDetailInfo_def
  ST_GetStudentDetailInfo_def CT_GetAllStudentInfoCount_def CT_GetAllStudentInfo_def CT_LeaveEarly_def
  ST_LeaveEarly_def CT_ConfirmLeaveEarly_def CT_GetTeacherInfo_def ST_GetTeacherInfo_def
  CT_LockStudent_def ST_LockStudent_def CT_SelectedClassRoom_def CT_CourseFinished_def
  ST_CourseFinished_def CT_GetDBRecordFinished_def ST_GetDBRecordFinished_def CT_GetCourseItemKeyInfoReq_def
  CT_GetCourseItemKeyInfoRsp_def ST_SendStudentStatus_def CT_Common_PlayorPause_def ST_Common_PlayorPause_def
  CT_Common_Resume_def ST_Common_Resume_def CT_Common_Stop_def ST_Common_Stop_def
  CT_ShowSpriteAnimation_def ST_ShowSpriteAnimation_def CT_ShowSpriteControl_def ST_ShowSpriteControl_def
  CT_ControlLevel_def ST_ControlLevel_def CT_Exercise_GameStart_def ST_Exercise_GameStart_def
  CT_Exercise_Play_def ST_Exercise_Play_def CT_Exercise_Pause_def ST_Exercise_Pause_def
  CT_Exercise_Stop_def ST_Exercise_Stop_def CT_Exercise_GameEnd_def ST_Exercise_GameEnd_def
  CT_Cartoon_GameStart_def ST_Cartoon_GameStart_def CT_Cartoon_Play_def ST_Cartoon_Play_def
  CT_Cartoon_Pause_def ST_Cartoon_Pause_def CT_Cartoon_Stop_def ST_Cartoon_Stop_def
  CT_Cartoon_GameEnd_def ST_Cartoon_GameEnd_def CT_BuildHouse_CaiHongXiaoWu_def ST_BuildHouse_CaiHongXiaoWu_def
  CT_BuildHouse_CaiHongGu_def ST_BuildHouse_CaiHongGu_def CT_BuildHouse_XiaoGuaiWu_def ST_BuildHouse_XiaoGuaiWu_def
  CT_BuildHouse_MuBu_def ST_BuildHouse_MuBu_def CT_BuildHouse_OperatorDemo_def ST_BuildHouse_OperatorDemo_def
  CT_BuildHouse_SingleMode_def ST_BuildHouse_SingleMode_def CT_BuildHouse_GroupMode_def ST_BuildHouse_GroupMode_def
  CT_BuildHouse_SetStuGroupCount_def CT_BuildHouse_SetStuGroup_def CT_BuildHouse_GetStuGroupCount_def CT_BuildHouse_GetStuGroup_def
  CT_BuildHouse_GameStart_def ST_BuildHouse_GameStart_def CT_BuildHouse_UpdatePos_def ST_BuildHouse_UpdatePos_def
  CT_BuildHouse_GameEnd_def ST_BuildHouse_GameEnd_def CT_BuildHouse_Save_def ST_BuildHouse_Show_def
  CT_BuildHouse_EmailTibet_def ST_BuildHouse_EmailTibet_def CT_BuildHouse_EmailAmerica_def ST_BuildHouse_EmailAmerica_def
  CT_BuildHouse_Move_def ST_BuildHouse_Move_def CT_BuildHouse_Angle_def ST_BuildHouse_Angle_def
  CT_BuildHouse_Scale_def ST_BuildHouse_Scale_def CT_BuildHouse_Update_def ST_BuildHouse_Update_def
  CT_BuildHouse_Change_Layer_def ST_BuildHouse_Change_Layer_def CT_BuildHouse_Add_Pic_def ST_BuildHouse_Add_Pic_def
  CT_BuildHouse_Del_Pic_def ST_BuildHouse_Del_Pic_def CT_BuildHouse_Activation_def ST_BuildHouse_Activation_def
  CT_BuildHouse_Role_def ST_BuildHouse_Role_def CT_BuildHouse_Stamp_def ST_BuildHouse_Stamp_def
  CT_BuildHouse_SaveHouse_def CT_BuildHouse_ScreenShot_def ST_BuildHouse_Screenshot_def CT_Puzzle_GameStart_def
  ST_Puzzle_GameStart_def CT_Puzzle_GetPic_def ST_Puzzle_GetPic_def CT_Puzzle_UpdatePic_def
  ST_Puzzle_UpdatePic_def CT_Puzzle_IconStatus_def ST_Puzzle_IconStatus_def CT_Puzzle_Play_def
  ST_Puzzle_Play_def CT_Puzzle_Pause_def ST_Puzzle_Pause_def CT_Puzzle_MovePic_def
  ST_Puzzle_MovePic_def CT_Puzzle_DeletePic_def ST_Puzzle_DeletePic_def CT_Puzzle_AddPic_def
  ST_Puzzle_AddPic_def CT_Puzzle_CalcScore_def CT_Puzzle_EndGame_def ST_Puzzle_EndGame_def
  CT_Puzzle_SelectedType_def ST_Puzzle_SelectedType_def CT_Puzzle_SelectedSize_def ST_Puzzle_SelectedSize_def
  CT_Scene_End_def ST_Scene_End_def CT_RainbowValley_HouseNum_def ST_RainbowValley_HouseNum_def
  CT_RainbowValley_HouseInfo_def ST_RainbowValley_HouseInfo_def ST_Dynamic_MessageType_def

definition command_enum_first :: "(u32 \<times> u32 option) list" where
  "command_enum_first = [
     (CT_Test, Some 1),
     (CT_ChangeScene, Some 100),
     (ST_ChangeScene, None),
     (CT_ControlChangeScene, None),
     (ST_ControlChangeScene, None),
     (CT_InitSceneFinished, None),
     (ST_InitSceneFinished, None),
     (ST_ConfirmIntoClassRoom, None),
     (CT_ConfirmIntoClassRoom, None),
     (ST_GetStudentCount, None),
     (CT_GetCurrentScene, None),
     (ST_GetCurrentScene, None),
     (CT_Login, Some 150),
     (CT_LoginResult, None),
     (CT_GetCourseDBCount, None),
     (CT_GetCourseDB, None),
     (CT_SetCourseGroup, None),
     (CT_GetCourseGroup, None),
     (ST_GetCourseGroup, None),
     (CT_GetCourseItemCount, None),
     (CT_GetCourseItem, None),
     (CT_Logout, None),
     (CT_LogoutReuslt, None),
     (CT_GetClassRoomDBCount, None),
     (CT_GetClassRoomDB, None),
     (CT_GetGradeDBCount, None),
     (CT_GetGradeDB, None),
     (CT_GetClassDBCount, None),
     (CT_GetClassDB, None),
     (CT_LoginClassRoom, None),
     (CT_LogoutClassRoom, None),
     (CT_GetStudentDetailInfo, None),
     (ST_GetStudentDetailInfo, None),
     (CT_GetAllStudentInfoCount, None),
     (CT_GetAllStudentInfo, None),
     (CT_LeaveEarly, None),
     (ST_LeaveEarly, None),
     (CT_ConfirmLeaveEarly, None),
     (CT_GetTeacherInfo, None),
     (ST_GetTeacherInfo, None),
     (CT_LockStudent, None),
     (ST_LockStudent, None),
     (CT_SelectedClassRoom, None),
     (CT_CourseFinished, None),
     (ST_CourseFinished, None),
     (CT_GetDBRecordFinished, None),
     (ST_GetDBRecordFinished, None),
     (CT_GetCourseItemKeyInfoReq, None),
     (CT_GetCourseItemKeyInfoRsp, None),
     (ST_SendStudentStatus, None),
     (CT_Common_PlayorPause, None),
     (ST_Common_PlayorPause, None),
     (CT_Common_Resume, None),
     (ST_Common_Resume, None),
     (CT_Common_Stop, None),
     (ST_Common_Stop, None),
     (CT_ShowSpriteAnimation, Some 200),
     (ST_ShowSpriteAnimation, None),
     (CT_ShowSpriteControl, Some 300),
     (ST_ShowSpriteControl, None),
     (CT_ControlLevel, None),
     (ST_ControlLevel, None),
     (CT_Exercise_GameStart, Some 400),
     (ST_Exercise_GameStart, None),
     (CT_Exercise_Play, None),
     (ST_Exercise_Play, None),
     (CT_Exercise_Pause, None),
     (ST_Exercise_Pause, None),
     (CT_Exercise_Stop, None),
     (ST_Exercise_Stop, None),
     (CT_Exercise_GameEnd, None),
     (ST_Exercise_GameEnd, None),
     (CT_Cartoon_GameStart, Some 500),
     (ST_Cartoon_GameStart, None),
     (CT_Cartoon_Play, None),
     (ST_Cartoon_Play, None),
     (CT_Cartoon_Pause, None),
     (ST_Cartoon_Pause, None),
     (CT_Cartoon_Stop, None),
     (ST_Cartoon_Stop, None),
     (CT_Cartoon_GameEnd, None),
     (ST_Cartoon_GameEnd, None)]"

definition command_enum_rest :: "(u32 \<times> u32 option) list" where
  "command_enum_rest = [
     (CT_BuildHouse_CaiHongXiaoWu, Some 600),
     (ST_BuildHouse_CaiHongXiaoWu, None),
     (CT_BuildHouse_CaiHongGu, None),
     (ST_BuildHouse_CaiHongGu, None),
     (CT_BuildHouse_XiaoGuaiWu, None),
     (ST_BuildHouse_XiaoGuaiWu, None),
     (CT_BuildHouse_MuBu, None),
     (ST_BuildHouse_MuBu, None),
     (CT_BuildHouse_OperatorDemo, None),
     (ST_BuildHouse_OperatorDemo, None),
     (CT_BuildHouse_SingleMode, None),
     (ST_BuildHouse_SingleMode, None),
     (CT_BuildHouse_GroupMode, None),
     (ST_BuildHouse_GroupMode, None),
     (CT_BuildHouse_SetStuGroupCount, None),
     (CT_BuildHouse_SetStuGroup, None),
     (CT_BuildHouse_GetStuGroupCount, None),
     (CT_BuildHouse_GetStuGroup, None),
     (CT_BuildHouse_GameStart, None),
     (ST_BuildHouse_GameStart, None),
     (CT_BuildHouse_UpdatePos, None),
     (ST_BuildHouse_UpdatePos, None),
     (CT_BuildHouse_GameEnd, None),
     (ST_BuildHouse_GameEnd, None),
     (CT_BuildHouse_Save, None),
     (ST_BuildHouse_Show, None),
     (CT_BuildHouse_EmailTibet, None),
     (ST_BuildHouse_EmailTibet, None),
     (CT_BuildHouse_EmailAmerica, None),
     (ST_BuildHouse_EmailAmerica, None),
     (CT_BuildHouse_Move, None),
     (ST_BuildHouse_Move, None),
     (CT_BuildHouse_Angle, None),
     (ST_BuildHouse_Angle, None),
     (CT_BuildHouse_Scale, None),
     (ST_BuildHouse_Scale, None),
     (CT_BuildHouse_Update, None),
     (ST_BuildHouse_Update, None),
     (CT_BuildHouse_Change_Layer, None),
     (ST_BuildHouse_Change_Layer, None),
     (CT_BuildHouse_Add_Pic, None),
     (ST_BuildHouse_Add_Pic, None),
     (CT_BuildHouse_Del_Pic, None),
     (ST_BuildHouse_Del_Pic, None),
     (CT_BuildHouse_Activation, None),
     (ST_BuildHouse_Activation, None),
     (CT_BuildHouse_Role, None),
     (ST_BuildHouse_Role, None),
     (CT_BuildHouse_Stamp, None),
     (ST_BuildHouse_Stamp, None),
     (CT_BuildHouse_SaveHouse, None),
     (CT_BuildHouse_ScreenShot, None),
     (ST_BuildHouse_Screenshot, None),
     (CT_Puzzle_GameStart, Some 700),
     (ST_Puzzle_GameStart, None),
     (CT_Puzzle_GetPic, None),
     (ST_Puzzle_GetPic, None),
     (CT_Puzzle_UpdatePic, None),
     (ST_Puzzle_UpdatePic, None),
     (CT_Puzzle_IconStatus, None),
     (ST_Puzzle_IconStatus, None),
     (CT_Puzzle_Play, None),
     (ST_Puzzle_Play, None),
     (CT_Puzzle_Pause, None),
     (ST_Puzzle_Pause, None),
     (CT_Puzzle_MovePic, None),
     (ST_Puzzle_MovePic, None),
     (CT_Puzzle_DeletePic, None),
     (ST_Puzzle_DeletePic, None),
     (CT_Puzzle_AddPic, None),
     (ST_Puzzle_AddPic, None),
     (CT_Puzzle_CalcScore, None),
     (CT_Puzzle_EndGame, None),
     (ST_Puzzle_EndGame, None),
     (CT_Puzzle_SelectedType, None),
     (ST_Puzzle_SelectedType, None),
     (CT_Puzzle_SelectedSize, None),
     (ST_Puzzle_SelectedSize, None),
     (CT_Scene_End, None),
     (ST_Scene_End, None),
     (CT_RainbowValley_HouseNum, Some 800),
     (ST_RainbowValley_HouseNum, None),
     (CT_RainbowValley_HouseInfo, None),
     (ST_RainbowValley_HouseInfo, None),
     (ST_Dynamic_MessageType, Some 10000)]"

definition command_enum :: "(u32 \<times> u32 option) list" where
  "command_enum = command_enum_first @ command_enum_rest"

lemmas command_enum_defs = command_enum_def command_enum_first_def command_enum_rest_def

lemma command_values: "enum_values 0 (map snd command_enum) = map fst command_enum"
  by (simp add: command_enum_defs cmd_defs)

section \<open>The other enumerations\<close>

definition MCT_STUDENT :: u32 where "MCT_STUDENT = 1"
definition MCT_TEACHER :: u32 where "MCT_TEACHER = 2"
definition MCT_WHITEBOARD :: u32 where "MCT_WHITEBOARD = 3"
definition TT_LOGIN_CLASSROOM :: u32 where "TT_LOGIN_CLASSROOM = 1"
definition TT_LOGOUT_CLASSROOM :: u32 where "TT_LOGOUT_CLASSROOM = 2"
definition eCS_ONLINE :: u32 where "eCS_ONLINE = 1"
definition eCS_OFFLINE :: u32 where "eCS_OFFLINE = 2"
definition eCS_LEAVEEARLY :: u32 where "eCS_LEAVEEARLY = 3"
definition eCS_NOLOGIN :: u32 where "eCS_NOLOGIN = 4"
definition RES_SUCCEED :: u32 where "RES_SUCCEED = 1"
definition RES_FAIL :: u32 where "RES_FAIL = 2"
definition PT_SQUARE :: u32 where "PT_SQUARE = 1"
definition PT_CIRCLE :: u32 where "PT_CIRCLE = 2"
definition PIS_OK :: u32 where "PIS_OK = 1"
definition PIS_ERR :: u32 where "PIS_ERR = 2"
definition PIS_WAIT :: u32 where "PIS_WAIT = 3"
definition AP_MOVE :: u32 where "AP_MOVE = 1"
definition AP_DELETE :: u32 where "AP_DELETE = 2"
definition AP_ADD :: u32 where "AP_ADD = 3"

lemmas enum_defs =
  MCT_STUDENT_def MCT_TEACHER_def MCT_WHITEBOARD_def TT_LOGIN_CLASSROOM_def TT_LOGOUT_CLASSROOM_def
  eCS_ONLINE_def eCS_OFFLINE_def eCS_LEAVEEARLY_def eCS_NOLOGIN_def RES_SUCCEED_def
  RES_FAIL_def PT_SQUARE_def PT_CIRCLE_def PIS_OK_def PIS_ERR_def
  PIS_WAIT_def AP_MOVE_def AP_DELETE_def AP_ADD_def

definition mClientType :: "(u32 \<times> u32 option) list" where
  "mClientType = [(MCT_STUDENT, Some 1), (MCT_TEACHER, None), (MCT_WHITEBOARD, None)]"

definition eTeacherIntoRoomType :: "(u32 \<times> u32 option) list" where
  "eTeacherIntoRoomType = [(TT_LOGIN_CLASSROOM, Some 1), (TT_LOGOUT_CLASSROOM, Some 2)]"

definition eClientStatus :: "(u32 \<times> u32 option) list" where
  "eClientStatus = [(eCS_ONLINE, Some 1), (eCS_OFFLINE, Some 2), (eCS_LEAVEEARLY, Some 3), (eCS_NOLOGIN, Some 4)]"

definition mLoginOutResult :: "(u32 \<times> u32 option) list" where
  "mLoginOutResult = [(RES_SUCCEED, Some 1), (RES_FAIL, None)]"

definition ePuzzleType :: "(u32 \<times> u32 option) list" where
  "ePuzzleType = [(PT_SQUARE, Some 1), (PT_CIRCLE, None)]"

definition ePuzzleIconStatus :: "(u32 \<times> u32 option) list" where
  "ePuzzleIconStatus = [(PIS_OK, Some 1), (PIS_ERR, None), (PIS_WAIT, None)]"

definition ePuzzleActionTypePic :: "(u32 \<times> u32 option) list" where
  "ePuzzleActionTypePic = [(AP_MOVE, Some 1), (AP_DELETE, None), (AP_ADD, None)]"

lemma other_enum_values:
  "\<forall>en \<in> {mClientType, eTeacherIntoRoomType, eClientStatus, mLoginOutResult, ePuzzleType, ePuzzleIconStatus,
      ePuzzleActionTypePic}. enum_values 0 (map snd en) = map fst en"
  by (simp add: mClientType_def eTeacherIntoRoomType_def eClientStatus_def mLoginOutResult_def ePuzzleType_def
      ePuzzleIconStatus_def ePuzzleActionTypePic_def enum_defs)

section \<open>Structures\<close>

datatype ctype = TInt | TUInt | TFloat | TShort | TEnum | TChar nat

fun sizeof_type :: "ctype \<Rightarrow> nat" where
  "sizeof_type TInt = 4"
| "sizeof_type TUInt = 4"
| "sizeof_type TFloat = 4"
| "sizeof_type TEnum = 4"
| "sizeof_type TShort = 2"
| "sizeof_type (TChar n) = n"

type_synonym layout = "(string \<times> ctype) list"

fun sizeof :: "layout \<Rightarrow> nat" where
  "sizeof [] = 0"
| "sizeof ((n, t) # fs) = sizeof_type t + sizeof fs"

fun offsetof :: "layout \<Rightarrow> string \<Rightarrow> nat" where
  "offsetof [] f = 0"
| "offsetof ((n, t) # fs) f = (if n = f then 0 else sizeof_type t + offsetof fs f)"

definition sCommonStruct :: layout where
  "sCommonStruct = [(''iValue'', TUInt)]"

definition sDBRecordFinished :: layout where
  "sDBRecordFinished = [(''iFlagFinished'', TUInt)]"

definition sSceneEnd :: layout where
  "sSceneEnd = [(''type'', TInt)]"

definition sDBCount :: layout where
  "sDBCount = [(''count'', TInt)]"

definition sLogin :: layout where
  "sLogin = [(''type'', TInt), (''username'', TChar 20), (''password'', TChar 20)]"

definition sLoginOutResult :: layout where
  "sLoginOutResult = [(''succeed'', TInt), (''message'', TChar 50)]"

definition sLogout :: layout where
  "sLogout = [(''type'', TInt)]"

definition sCourseGroup :: layout where
  "sCourseGroup = [(''sGradeName'', TChar 20), (''sCourseGroupName'', TChar 20)]"

definition sGetCourseGroup :: layout where
  "sGetCourseGroup = [(''sCourseList'', TChar 128)]"

definition sGetCourseDB :: layout where
  "sGetCourseDB = [(''sGradeName'', TChar 20), (''sGroupName'', TChar 20), (''sCourseName'', TChar 20), (''iLanguage'', TInt), (''iArt'', TInt), (''iCommunity'', TInt), (''iHealth'', TInt), (''iScience'', TInt)]"

definition sGetGradeDB :: layout where
  "sGetGradeDB = [(''sGradeName'', TChar 20)]"

definition sGetClassDB :: layout where
  "sGetClassDB = [(''sClassName'', TChar 20)]"

definition sGetClassRoomDB :: layout where
  "sGetClassRoomDB = [(''sClassRoomName'', TChar 20)]"

definition sSelectedClassRoom :: layout where
  "sSelectedClassRoom = [(''classroom_id'', TUInt), (''client_type'', TEnum)]"

definition sGetCourseItem :: layout where
  "sGetCourseItem = [(''sCourseName'', TChar 20)]"

definition ST_SendStudentStatusReq :: layout where
  "ST_SendStudentStatusReq = [(''student_id'', TUInt), (''status'', TUInt)]"

definition sCourseItem :: layout where
  "sCourseItem = [(''sCourseName'', TChar 20), (''sItemName'', TChar 20), (''sDesc'', TChar 512), (''iId'', TInt)]"

definition sLoginOutClassRoom :: layout where
  "sLoginOutClassRoom = [(''type'', TInt), (''sTeacherName'', TChar 20), (''sClassName'', TChar 20), (''sClassRoomName'', TChar 20)]"

definition sStudentDetail :: layout where
  "sStudentDetail = [(''iStudentId'', TInt), (''sStudentName'', TChar 20)]"

definition sGetStudentDetailInfo :: layout where
  "sGetStudentDetailInfo = [(''sNumber'', TChar 20), (''sFirstName'', TChar 20), (''sLastName'', TChar 20), (''sSex'', TChar 10), (''sSchoolName'', TChar 20), (''sGradeName'', TChar 20), (''sClassName'', TChar 20), (''sAccount'', TChar 20), (''birthday'', TChar 20), (''stFirstName'', TChar 20), (''stLastName'', TChar 20), (''iPicture_id'', TInt)]"

definition sGetAllStudentInfo :: layout where
  "sGetAllStudentInfo = [(''iStudentId'', TInt), (''sPicName'', TChar 128), (''sStudentName'', TChar 20)]"

definition sLeaveEarly :: layout where
  "sLeaveEarly = [(''student_id'', TInt)]"

definition sPuzzleType :: layout where
  "sPuzzleType = [(''type'', TUInt)]"

definition sPuzzleSize :: layout where
  "sPuzzleSize = [(''rowCount'', TUInt), (''columnCount'', TUInt)]"

definition sGetTeacherInfo :: layout where
  "sGetTeacherInfo = [(''sTeacherName'', TChar 20), (''sPicName'', TChar 128)]"

definition sControlLevel :: layout where
  "sControlLevel = [(''level'', TInt)]"

definition sBuildHouseCaiHongXiaoWu :: layout where
  "sBuildHouseCaiHongXiaoWu = [(''sText'', TChar 12)]"

definition sBuildHouseSetStuGroup :: layout where
  "sBuildHouseSetStuGroup = [(''iGroupIndex'', TInt), (''iStudentCount'', TInt)]"

definition sBuildHouseStudentList :: layout where
  "sBuildHouseStudentList = [(''sStudentName'', TChar 10)]"

definition sPuzzleIconStatus :: layout where
  "sPuzzleIconStatus = [(''status'', TInt)]"

definition sPuzzleUpdatePic :: layout where
  "sPuzzleUpdatePic = [(''student_id'', TInt), (''pic_idx'', TInt)]"

definition sJigsawInitData :: layout where
  "sJigsawInitData = [(''picturePath'', TChar 512), (''stencilId'', TInt), (''rowCount'', TInt), (''columnCount'', TInt)]"

definition sSubmitData :: layout where
  "sSubmitData = [(''cLen'', TUInt), (''cType'', TEnum)]"

definition GetCourseItemKeyInfoReq :: layout where
  "GetCourseItemKeyInfoReq = [(''course_item'', TChar 64)]"

definition GetCourseItemKeyInfoRsp :: layout where
  "GetCourseItemKeyInfoRsp = [(''keys'', TChar 512)]"

definition Make_House_Update :: layout where
  "Make_House_Update = [(''node_id'', TInt), (''x'', TFloat), (''y'', TFloat), (''zoom'', TFloat), (''angle'', TFloat)]"

definition Make_House_Change_Layer :: layout where
  "Make_House_Change_Layer = [(''node_id'', TInt), (''layer'', TInt)]"

definition Make_House_Add_Pic :: layout where
  "Make_House_Add_Pic = [(''node_id'', TInt), (''x'', TFloat), (''y'', TFloat), (''picture_name'', TChar 40)]"

definition Make_House_Del_Pic :: layout where
  "Make_House_Del_Pic = [(''node_id'', TInt), (''picture_name'', TChar 40)]"

definition sRainbowValley_House_Num :: layout where
  "sRainbowValley_House_Num = [(''num'', TInt)]"

definition sRainbowValley_HouseItem_Info :: layout where
  "sRainbowValley_HouseItem_Info = [(''layer'', TInt), (''x'', TFloat), (''y'', TFloat), (''zoom'', TFloat), (''angle'', TFloat), (''picture_name'', TChar 40)]"

definition AddPic :: layout where
  "AddPic = [(''studentId'', TInt), (''x'', TFloat), (''y'', TFloat), (''picName'', TShort)]"

definition movePic :: layout where
  "movePic = [(''layer'', TInt), (''toX'', TFloat), (''toY'', TFloat)]"

definition scalePic :: layout where
  "scalePic = [(''layer'', TInt), (''toScale'', TFloat)]"

definition rotatePic :: layout where
  "rotatePic = [(''layer'', TInt), (''toAngle'', TFloat)]"

definition putLayerPic :: layout where
  "putLayerPic = [(''layer'', TInt), (''toLayer'', TInt)]"

definition deletePic :: layout where
  "deletePic = [(''layer'', TInt)]"

lemmas layout_defs =
  sCommonStruct_def sDBRecordFinished_def sSceneEnd_def sDBCount_def
  sLogin_def sLoginOutResult_def sLogout_def sCourseGroup_def
  sGetCourseGroup_def sGetCourseDB_def sGetGradeDB_def sGetClassDB_def
  sGetClassRoomDB_def sSelectedClassRoom_def sGetCourseItem_def ST_SendStudentStatusReq_def
  sCourseItem_def sLoginOutClassRoom_def sStudentDetail_def sGetStudentDetailInfo_def
  sGetAllStudentInfo_def sLeaveEarly_def sPuzzleType_def sPuzzleSize_def
  sGetTeacherInfo_def sControlLevel_def sBuildHouseCaiHongXiaoWu_def sBuildHouseSetStuGroup_def
  sBuildHouseStudentList_def sPuzzleIconStatus_def sPuzzleUpdatePic_def sJigsawInitData_def
  sSubmitData_def GetCourseItemKeyInfoReq_def GetCourseItemKeyInfoRsp_def Make_House_Update_def
  Make_House_Change_Layer_def Make_House_Add_Pic_def Make_House_Del_Pic_def sRainbowValley_House_Num_def
  sRainbowValley_HouseItem_Info_def AddPic_def movePic_def scalePic_def
  rotatePic_def putLayerPic_def deletePic_def

definition MSG_HEAD_LEN :: nat where
  "MSG_HEAD_LEN = sizeof sSubmitData"

lemma sizeofs [simp]:
  "sizeof sCommonStruct = 4"
  "sizeof sDBRecordFinished = 4"
  "sizeof sSceneEnd = 4"
  "sizeof sDBCount = 4"
  "sizeof sLogin = 44"
  "sizeof sLoginOutResult = 54"
  "sizeof sLogout = 4"
  "sizeof sCourseGroup = 40"
  "sizeof sGetCourseGroup = 128"
  "sizeof sGetCourseDB = 80"
  "sizeof sGetGradeDB = 20"
  "sizeof sGetClassDB = 20"
  "sizeof sGetClassRoomDB = 20"
  "sizeof sSelectedClassRoom = 8"
  "sizeof sGetCourseItem = 20"
  "sizeof ST_SendStudentStatusReq = 8"
  "sizeof sCourseItem = 556"
  "sizeof sLoginOutClassRoom = 64"
  "sizeof sStudentDetail = 24"
  "sizeof sGetStudentDetailInfo = 214"
  "sizeof sGetAllStudentInfo = 152"
  "sizeof sLeaveEarly = 4"
  "sizeof sPuzzleType = 4"
  "sizeof sPuzzleSize = 8"
  "sizeof sGetTeacherInfo = 148"
  "sizeof sControlLevel = 4"
  "sizeof sBuildHouseCaiHongXiaoWu = 12"
  "sizeof sBuildHouseSetStuGroup = 8"
  "sizeof sBuildHouseStudentList = 10"
  "sizeof sPuzzleIconStatus = 4"
  "sizeof sPuzzleUpdatePic = 8"
  "sizeof sJigsawInitData = 524"
  "sizeof sSubmitData = 8"
  "sizeof GetCourseItemKeyInfoReq = 64"
  "sizeof GetCourseItemKeyInfoRsp = 512"
  "sizeof Make_House_Update = 20"
  "sizeof Make_House_Change_Layer = 8"
  "sizeof Make_House_Add_Pic = 52"
  "sizeof Make_House_Del_Pic = 44"
  "sizeof sRainbowValley_House_Num = 4"
  "sizeof sRainbowValley_HouseItem_Info = 60"
  "sizeof AddPic = 14"
  "sizeof movePic = 12"
  "sizeof scalePic = 8"
  "sizeof rotatePic = 8"
  "sizeof putLayerPic = 8"
  "sizeof deletePic = 4"
  "MSG_HEAD_LEN = 8"
  by (simp_all add: layout_defs MSG_HEAD_LEN_def)

lemma offsetofs [simp]:
  "offsetof sCommonStruct ''iValue'' = 0"
  "offsetof sDBRecordFinished ''iFlagFinished'' = 0"
  "offsetof sSceneEnd ''type'' = 0"
  "offsetof sDBCount ''count'' = 0"
  "offsetof sLogin ''type'' = 0"
  "offsetof sLogin ''username'' = 4"
  "offsetof sLogin ''password'' = 24"
  "offsetof sLoginOutResult ''succeed'' = 0"
  "offsetof sLoginOutResult ''message'' = 4"
  "offsetof sLogout ''type'' = 0"
  "offsetof sCourseGroup ''sGradeName'' = 0"
  "offsetof sCourseGroup ''sCourseGroupName'' = 20"
  "offsetof sGetCourseGroup ''sCourseList'' = 0"
  "offsetof sGetCourseDB ''sGradeName'' = 0"
  "offsetof sGetCourseDB ''sGroupName'' = 20"
  "offsetof sGetCourseDB ''sCourseName'' = 40"
  "offsetof sGetCourseDB ''iLanguage'' = 60"
  "offsetof sGetCourseDB ''iArt'' = 64"
  "offsetof sGetCourseDB ''iCommunity'' = 68"
  "offsetof sGetCourseDB ''iHealth'' = 72"
  "offsetof sGetCourseDB ''iScience'' = 76"
  "offsetof sGetGradeDB ''sGradeName'' = 0"
  "offsetof sGetClassDB ''sClassName'' = 0"
  "offsetof sGetClassRoomDB ''sClassRoomName'' = 0"
  "offsetof sSelectedClassRoom ''classroom_id'' = 0"
  "offsetof sSelectedClassRoom ''client_type'' = 4"
  "offsetof sGetCourseItem ''sCourseName'' = 0"
  "offsetof ST_SendStudentStatusReq ''student_id'' = 0"
  "offsetof ST_SendStudentStatusReq ''status'' = 4"
  "offsetof sCourseItem ''sCourseName'' = 0"
  "offsetof sCourseItem ''sItemName'' = 20"
  "offsetof sCourseItem ''sDesc'' = 40"
  "offsetof sCourseItem ''iId'' = 552"
  "offsetof sLoginOutClassRoom ''type'' = 0"
  "offsetof sLoginOutClassRoom ''sTeacherName'' = 4"
  "offsetof sLoginOutClassRoom ''sClassName'' = 24"
  "offsetof sLoginOutClassRoom ''sClassRoomName'' = 44"
  "offsetof sStudentDetail ''iStudentId'' = 0"
  "offsetof sStudentDetail ''sStudentName'' = 4"
  "offsetof sGetStudentDetailInfo ''sNumber'' = 0"
  "offsetof sGetStudentDetailInfo ''sFirstName'' = 20"
  "offsetof sGetStudentDetailInfo ''sLastName'' = 40"
  "offsetof sGetStudentDetailInfo ''sSex'' = 60"
  "offsetof sGetStudentDetailInfo ''sSchoolName'' = 70"
  "offsetof sGetStudentDetailInfo ''sGradeName'' = 90"
  "offsetof sGetStudentDetailInfo ''sClassName'' = 110"
  "offsetof sGetStudentDetailInfo ''sAccount'' = 130"
  "offsetof sGetStudentDetailInfo ''birthday'' = 150"
  "offsetof sGetStudentDetailInfo ''stFirstName'' = 170"
  "offsetof sGetStudentDetailInfo ''stLastName'' = 190"
  "offsetof sGetStudentDetailInfo ''iPicture_id'' = 210"
  "offsetof sGetAllStudentInfo ''iStudentId'' = 0"
  "offsetof sGetAllStudentInfo ''sPicName'' = 4"
  "offsetof sGetAllStudentInfo ''sStudentName'' = 132"
  "offsetof sLeaveEarly ''student_id'' = 0"
  "offsetof sPuzzleType ''type'' = 0"
  "offsetof sPuzzleSize ''rowCount'' = 0"
  "offsetof sPuzzleSize ''columnCount'' = 4"
  "offsetof sGetTeacherInfo ''sTeacherName'' = 0"
  "offsetof sGetTeacherInfo ''sPicName'' = 20"
  "offsetof sControlLevel ''level'' = 0"
  "offsetof sBuildHouseCaiHongXiaoWu ''sText'' = 0"
  "offsetof sBuildHouseSetStuGroup ''iGroupIndex'' = 0"
  "offsetof sBuildHouseSetStuGroup ''iStudentCount'' = 4"
  "offsetof sBuildHouseStudentList ''sStudentName'' = 0"
  "offsetof sPuzzleIconStatus ''status'' = 0"
  "offsetof sPuzzleUpdatePic ''student_id'' = 0"
  "offsetof sPuzzleUpdatePic ''pic_idx'' = 4"
  "offsetof sJigsawInitData ''picturePath'' = 0"
  "offsetof sJigsawInitData ''stencilId'' = 512"
  "offsetof sJigsawInitData ''rowCount'' = 516"
  "offsetof sJigsawInitData ''columnCount'' = 520"
  "offsetof sSubmitData ''cLen'' = 0"
  "offsetof sSubmitData ''cType'' = 4"
  "offsetof GetCourseItemKeyInfoReq ''course_item'' = 0"
  "offsetof GetCourseItemKeyInfoRsp ''keys'' = 0"
  "offsetof Make_House_Update ''node_id'' = 0"
  "offsetof Make_House_Update ''x'' = 4"
  "offsetof Make_House_Update ''y'' = 8"
  "offsetof Make_House_Update ''zoom'' = 12"
  "offsetof Make_House_Update ''angle'' = 16"
  "offsetof Make_House_Change_Layer ''node_id'' = 0"
  "offsetof Make_House_Change_Layer ''layer'' = 4"
  "offsetof Make_House_Add_Pic ''node_id'' = 0"
  "offsetof Make_House_Add_Pic ''x'' = 4"
  "offsetof Make_House_Add_Pic ''y'' = 8"
  "offsetof Make_House_Add_Pic ''picture_name'' = 12"
  "offsetof Make_House_Del_Pic ''node_id'' = 0"
  "offsetof Make_House_Del_Pic ''picture_name'' = 4"
  "offsetof sRainbowValley_House_Num ''num'' = 0"
  "offsetof sRainbowValley_HouseItem_Info ''layer'' = 0"
  "offsetof sRainbowValley_HouseItem_Info ''x'' = 4"
  "offsetof sRainbowValley_HouseItem_Info ''y'' = 8"
  "offsetof sRainbowValley_HouseItem_Info ''zoom'' = 12"
  "offsetof sRainbowValley_HouseItem_Info ''angle'' = 16"
  "offsetof sRainbowValley_HouseItem_Info ''picture_name'' = 20"
  "offsetof AddPic ''studentId'' = 0"
  "offsetof AddPic ''x'' = 4"
  "offsetof AddPic ''y'' = 8"
  "offsetof AddPic ''picName'' = 12"
  "offsetof movePic ''layer'' = 0"
  "offsetof movePic ''toX'' = 4"
  "offsetof movePic ''toY'' = 8"
  "offsetof scalePic ''layer'' = 0"
  "offsetof scalePic ''toScale'' = 4"
  "offsetof rotatePic ''layer'' = 0"
  "offsetof rotatePic ''toAngle'' = 4"
  "offsetof putLayerPic ''layer'' = 0"
  "offsetof putLayerPic ''toLayer'' = 4"
  "offsetof deletePic ''layer'' = 0"
  by (simp_all add: layout_defs)

section \<open>Properties of the numbering\<close>

lemma increasing_distinct: "successively (<) (xs :: u32 list) \<Longrightarrow> distinct xs"
  by (metis order_less_trans strict_sorted_iff successively_conv_sorted_wrt transpI)

lemma distinct_command_values: "distinct (map fst command_enum)"
  by (rule increasing_distinct) (simp add: command_enum_defs cmd_defs)

end
