(* ===== verification/Buffers.thy ===== *)
theory Buffers
  imports Protocol
begin

text \<open>
  \<open>Buf.h\<close>, \<open>QueueT.h\<close>, \<open>PoolT.h\<close> and \<open>AtomicT.h\<close>: the packet buffer, the blocking queue,
  the object pool and the counter.  Every method body of the source runs under one mutex, so a
  method is one atomic function here; \<open>Locks\<close> shows that this is what its threads observe, and the
  interleaving of the blocked and woken threads of the queue is the subject of \<open>Queue_Steps\<close>.  A queue is the list of its elements, front first.
  \<open>fifo\<close> and \<open>allocator\<close> are the contracts the server relies on.
\<close>

section \<open>Buf\<close>

definition MAX_BUF :: nat where "MAX_BUF = 5120"

record Buf =
  m_ptr :: mem        \<comment> \<open>the bytes; only those below \<open>m_size\<close> belong to the object\<close>
  m_size :: nat
  m_used :: nat
  m_fd :: int
  m_id :: int

text \<open>The constructor leaves the bytes and \<open>m_used\<close> as \<open>malloc\<close> delivers them (\<open>g\<close>, \<open>u\<close>).\<close>

definition Buf_new :: "mem \<Rightarrow> nat \<Rightarrow> nat \<Rightarrow> Buf" where
  "Buf_new g u inSize = \<lparr>m_ptr = g, m_size = inSize, m_used = u, m_fd = 0, m_id = 0\<rparr>"

text \<open>The copy constructor copies the bytes; the other members stay uninitialised (\<open>u\<close>, \<open>f\<close>, \<open>i\<close>).\<close>

definition Buf_copy :: "mem \<Rightarrow> nat \<Rightarrow> int \<Rightarrow> int \<Rightarrow> Buf \<Rightarrow> Buf" where
  "Buf_copy g u f i b =
     \<lparr>m_ptr = copy_mem g 0 (m_ptr b) 0 (m_size b), m_size = m_size b, m_used = u, m_fd = f, m_id = i\<rparr>"

definition Buf_assign :: "Buf \<Rightarrow> Buf \<Rightarrow> fault + Buf" where
  "Buf_assign a b = (if m_size b < m_size a then Inl OutOfBounds
     else Inr (a\<lparr>m_ptr := copy_mem (m_ptr a) 0 (m_ptr b) 0 (m_size a)\<rparr>))"

definition Buf_setsize :: "nat \<Rightarrow> Buf \<Rightarrow> Buf" where
  "Buf_setsize n b = b\<lparr>m_used := n\<rparr>"

definition Buf_setfd :: "int \<Rightarrow> Buf \<Rightarrow> Buf" where
  "Buf_setfd f b = b\<lparr>m_fd := f\<rparr>"

definition Buf_setid :: "int \<Rightarrow> Buf \<Rightarrow> Buf" where
  "Buf_setid i b = b\<lparr>m_id := i\<rparr>"

definition Buf_reset :: "Buf \<Rightarrow> Buf" where
  "Buf_reset b = b\<lparr>m_ptr := (\<lambda>i. if i < m_size b then 0 else m_ptr b i)\<rparr>"

lemma Buf_assign_content:
  "Buf_assign a b = Inr c \<Longrightarrow> bytes_at (m_ptr c) 0 (m_size a) = bytes_at (m_ptr b) 0 (m_size a)"
  by (auto simp: Buf_assign_def bytes_at_copy_mem split: if_splits)

section \<open>QueueT\<close>

definition QueueT_enqueue :: "'a \<Rightarrow> 'a list \<Rightarrow> 'a list" where
  "QueueT_enqueue t q = q @ [t]"

text \<open>\<open>None\<close> is the return value -1: the queue stayed empty until the timeout.\<close>

definition QueueT_dequeue :: "'a list \<Rightarrow> ('a \<times> 'a list) option" where
  "QueueT_dequeue q = (case q of [] \<Rightarrow> None | x # r \<Rightarrow> Some (x, r))"

definition QueueT_size :: "'a list \<Rightarrow> nat" where
  "QueueT_size q = length q"

locale fifo =
  fixes enq :: "'a \<Rightarrow> 'q \<Rightarrow> 'q"
    and deq :: "'q \<Rightarrow> ('a \<times> 'q) option"
    and items :: "'q \<Rightarrow> 'a list"
  assumes items_enq: "items (enq x q) = items q @ [x]"
    and deq_None: "deq q = None \<longleftrightarrow> items q = []"
    and deq_Some: "deq q = Some (x, r) \<Longrightarrow> items q = x # items r"
begin

fun drain :: "nat \<Rightarrow> 'q \<Rightarrow> 'a list" where
  "drain 0 q = []"
| "drain (Suc n) q = (case deq q of None \<Rightarrow> [] | Some (x, r) \<Rightarrow> x # drain n r)"

lemma drain_items: "drain n q = take n (items q)"
  by (induction n arbitrary: q)
     (auto simp: deq_None dest: deq_Some split: option.split)

lemma enq_all: "items (fold enq xs q) = items q @ xs"
  by (induction xs arbitrary: q) (simp_all add: items_enq)

text \<open>What several producers put in comes out completely and in the order it went in.\<close>

lemma fifo_order: "items q = [] \<Longrightarrow> drain (length xs) (fold enq xs q) = xs"
  by (simp add: drain_items enq_all)

end

section \<open>PoolT\<close>

definition MAX_POOL_BUF :: nat where "MAX_POOL_BUF = 20000"

record 'a pool =
  pool_queue :: "'a list"
  pool_size :: nat

text \<open>The constructor fills the pool with \<open>n\<close> new objects (\<open>ps\<close> are their addresses).\<close>

definition PoolT_new :: "'a list \<Rightarrow> 'a pool" where
  "PoolT_new ps = \<lparr>pool_queue = ps, pool_size = length ps\<rparr>"

definition PoolT_malloc :: "'a pool \<Rightarrow> ('a \<times> 'a pool) option" where
  "PoolT_malloc p = (case pool_queue p of [] \<Rightarrow> None | x # r \<Rightarrow> Some (x, p\<lparr>pool_queue := r\<rparr>))"

definition PoolT_free :: "'a \<Rightarrow> 'a pool \<Rightarrow> 'a pool" where
  "PoolT_free i p = p\<lparr>pool_queue := pool_queue p @ [i]\<rparr>"

text \<open>\<open>size\<close> reads the capacity, without the lock.\<close>

definition PoolT_size :: "'a pool \<Rightarrow> nat" where
  "PoolT_size p = pool_size p"

text \<open>\<open>m_size - m_queue.size ()\<close>, computed in \<open>size_t\<close> and returned as \<open>int\<close>.\<close>

definition PoolT_used :: "'a pool \<Rightarrow> int" where
  "PoolT_used p = sint (ucast (of_nat (pool_size p) - of_nat (length (pool_queue p)) :: u64) :: u32)"

locale allocator =
  fixes alloc :: "'p \<Rightarrow> ('a \<times> 'p) option"
    and release :: "'a \<Rightarrow> 'p \<Rightarrow> 'p"
    and avail :: "'p \<Rightarrow> 'a multiset"
  assumes alloc_None: "alloc p = None \<longleftrightarrow> avail p = {#}"
    and alloc_Some: "alloc p = Some (x, q) \<Longrightarrow> avail p = add_mset x (avail q)"
    and avail_release: "avail (release x p) = add_mset x (avail p)"
begin

fun alloc_n :: "nat \<Rightarrow> 'p \<Rightarrow> ('a list \<times> 'p) option" where
  "alloc_n 0 p = Some ([], p)"
| "alloc_n (Suc n) p = (case alloc p of None \<Rightarrow> None
     | Some (x, q) \<Rightarrow> map_option (\<lambda>(xs, r). (x # xs, r)) (alloc_n n q))"

lemma alloc_n_avail: "alloc_n n p = Some (xs, q) \<Longrightarrow> avail p = mset xs + avail q \<and> length xs = n"
  by (induction n arbitrary: p xs) (fastforce dest: alloc_Some split: option.splits)+

lemma alloc_n_None: "alloc_n n p = None \<longleftrightarrow> size (avail p) < n"
proof (induction n arbitrary: p)
  case (Suc n)
  show ?case
  proof (cases "alloc p")
    case None
    then show ?thesis using alloc_None [of p] by simp
  next
    case (Some a)
    then obtain x q where "alloc p = Some (x, q)" by (cases a) auto
    then show ?thesis using Suc.IH [of q] alloc_Some [of p x q] by (auto split: option.splits)
  qed
qed simp

lemma release_all: "avail (fold release xs p) = mset xs + avail p"
  by (induction xs arbitrary: p) (simp_all add: avail_release)

text \<open>Objects that are given back can all be allocated again: nothing is lost in the pool.\<close>

lemma alloc_release: "alloc_n n p = Some (xs, q) \<Longrightarrow> avail (fold release xs q) = avail p"
  by (simp add: release_all alloc_n_avail)

end

text \<open>A queue of free objects is an allocator: taking the oldest out and putting one back in.\<close>

sublocale fifo \<subseteq> allocator deq enq "\<lambda>q. mset (items q)"
  by unfold_locales (auto simp: deq_None items_enq dest: deq_Some)

interpretation qt: fifo QueueT_enqueue QueueT_dequeue "\<lambda>q. q"
  by unfold_locales (auto simp: QueueT_enqueue_def QueueT_dequeue_def split: list.splits)

interpretation pt: fifo PoolT_free PoolT_malloc pool_queue
  by unfold_locales (auto simp: PoolT_malloc_def PoolT_free_def split: list.splits)

lemma PoolT_free_size [simp]: "pool_size (PoolT_free x p) = pool_size p"
  by (simp add: PoolT_free_def)

lemma PoolT_malloc_size: "PoolT_malloc p = Some (x, q) \<Longrightarrow> pool_size q = pool_size p"
  by (auto simp: PoolT_malloc_def split: list.splits)

section \<open>AtomicT<int>\<close>

text \<open>An operation on the counter returns its value and the new counter; \<open>int\<close> wraps.\<close>

definition AtomicT_add :: "u32 \<Rightarrow> u32 \<Rightarrow> u32 \<times> u32" where
  "AtomicT_add a v = (v + a, v + a)"

definition AtomicT_sub :: "u32 \<Rightarrow> u32 \<Rightarrow> u32 \<times> u32" where
  "AtomicT_sub a v = (v - a, v - a)"

definition AtomicT_preinc :: "u32 \<Rightarrow> u32 \<times> u32" where
  "AtomicT_preinc v = (v + 1, v + 1)"

definition AtomicT_postinc :: "u32 \<Rightarrow> u32 \<times> u32" where
  "AtomicT_postinc v = (v, v + 1)"

definition AtomicT_predec :: "u32 \<Rightarrow> u32 \<times> u32" where
  "AtomicT_predec v = (v - 1, v - 1)"

definition AtomicT_postdec :: "u32 \<Rightarrow> u32 \<times> u32" where
  "AtomicT_postdec v = (v, v - 1)"

definition AtomicT_assign :: "u32 \<Rightarrow> u32 \<Rightarrow> u32" where
  "AtomicT_assign a v = a"

definition AtomicT_new :: u32 where
  "AtomicT_new = 0"

definition AtomicT_of :: "u32 \<Rightarrow> u32" where
  "AtomicT_of a = a"

definition AtomicT_value :: "u32 \<Rightarrow> u32 \<times> u32" where
  "AtomicT_value v = (v, v)"

text \<open>The comparisons are those of \<open>int\<close>, with sign.\<close>

definition AtomicT_eq :: "u32 \<Rightarrow> u32 \<Rightarrow> bool" where
  "AtomicT_eq a v \<longleftrightarrow> v = a"

definition AtomicT_ne :: "u32 \<Rightarrow> u32 \<Rightarrow> bool" where
  "AtomicT_ne a v \<longleftrightarrow> v \<noteq> a"

definition AtomicT_gt :: "u32 \<Rightarrow> u32 \<Rightarrow> bool" where
  "AtomicT_gt a v \<longleftrightarrow> sint a < sint v"

definition AtomicT_ge :: "u32 \<Rightarrow> u32 \<Rightarrow> bool" where
  "AtomicT_ge a v \<longleftrightarrow> sint a \<le> sint v"

definition AtomicT_lt :: "u32 \<Rightarrow> u32 \<Rightarrow> bool" where
  "AtomicT_lt a v \<longleftrightarrow> sint v < sint a"

definition AtomicT_le :: "u32 \<Rightarrow> u32 \<Rightarrow> bool" where
  "AtomicT_le a v \<longleftrightarrow> sint v \<le> sint a"

lemmas AtomicT_defs = AtomicT_add_def AtomicT_sub_def AtomicT_preinc_def AtomicT_postinc_def
  AtomicT_predec_def AtomicT_postdec_def AtomicT_assign_def AtomicT_new_def AtomicT_of_def AtomicT_value_def

lemmas AtomicT_compare_defs = AtomicT_eq_def AtomicT_ne_def AtomicT_gt_def AtomicT_ge_def AtomicT_lt_def AtomicT_le_def

end
