(* ===== verification/Std_Map.thy ===== *)
theory Std_Map
  imports Prelude
begin

text \<open>
  \<open>std::map\<close> as the code uses it: a list of key/value pairs in strictly increasing key order,
  which is also the order in which the code's iterators visit it.  \<open>smap_insert\<close> is
  \<open>map::insert\<close> (a key that is present keeps its value), \<open>smap_set\<close> is the assignment
  \<open>m[k] = v\<close>, \<open>smap_erase\<close> is \<open>map::erase\<close>.  The locale \<open>ordered_map\<close> states what the
  rest of the development relies on; it is interpreted on these definitions.
\<close>

type_synonym ('k, 'v) smap = "('k \<times> 'v) list"

fun smap_find :: "('k::linorder, 'v) smap \<Rightarrow> 'k \<Rightarrow> 'v option" where
  "smap_find [] k = None"
| "smap_find ((a, b) # m) k = (if k = a then Some b else smap_find m k)"

fun smap_insert :: "'k::linorder \<Rightarrow> 'v \<Rightarrow> ('k, 'v) smap \<Rightarrow> ('k, 'v) smap" where
  "smap_insert k v [] = [(k, v)]"
| "smap_insert k v ((a, b) # m) =
     (if k < a then (k, v) # (a, b) # m
      else if k = a then (a, b) # m
      else (a, b) # smap_insert k v m)"

fun smap_set :: "'k::linorder \<Rightarrow> 'v \<Rightarrow> ('k, 'v) smap \<Rightarrow> ('k, 'v) smap" where
  "smap_set k v [] = [(k, v)]"
| "smap_set k v ((a, b) # m) =
     (if k < a then (k, v) # (a, b) # m
      else if k = a then (k, v) # m
      else (a, b) # smap_set k v m)"

fun smap_erase :: "'k::linorder \<Rightarrow> ('k, 'v) smap \<Rightarrow> ('k, 'v) smap" where
  "smap_erase k [] = []"
| "smap_erase k ((a, b) # m) = (if k = a then m else (a, b) # smap_erase k m)"

definition smap_inv :: "('k::linorder, 'v) smap \<Rightarrow> bool" where
  "smap_inv m = sorted_wrt (<) (map fst m)"

lemma smap_inv_Nil [simp]: "smap_inv []"
  by (simp add: smap_inv_def)

lemma smap_inv_Cons [simp]:
  "smap_inv ((a, b) # m) = ((\<forall>k \<in> fst ` set m. a < k) \<and> smap_inv m)"
  by (simp add: smap_inv_def)

lemma smap_find_None: "smap_find m k = None \<longleftrightarrow> k \<notin> fst ` set m"
  by (induction m k rule: smap_find.induct) simp_all

lemma smap_find_in: "smap_find m k = Some v \<Longrightarrow> (k, v) \<in> set m"
  by (induction m) (auto split: if_splits)

lemma smap_find_Some: "smap_inv m \<Longrightarrow> smap_find m k = Some v \<longleftrightarrow> (k, v) \<in> set m"
proof (induction m k rule: smap_find.induct)
  case (2 a b m k)
  from "2.prems" have "(a, v) \<notin> set m" by (force dest: bspec)
  with 2 show ?case by auto
qed simp

lemma keys_smap_insert: "fst ` set (smap_insert k v m) = insert k (fst ` set m)"
  by (induction k v m rule: smap_insert.induct) (simp_all add: insert_commute)

lemma keys_smap_set: "fst ` set (smap_set k v m) = insert k (fst ` set m)"
  by (induction k v m rule: smap_set.induct) (simp_all add: insert_commute)

lemma keys_smap_erase: "smap_inv m \<Longrightarrow> fst ` set (smap_erase k m) = fst ` set m - {k}"
proof (induction k m rule: smap_erase.induct)
  case (2 k a b m)
  from "2.prems" have "a \<notin> fst ` set m" by auto
  with 2 show ?case by (cases "k = a") (simp_all add: insert_Diff_if)
qed simp

lemma set_smap_erase: "set (smap_erase k m) \<subseteq> set m"
  by (induction k m rule: smap_erase.induct) (simp_all add: subset_insertI2)

lemma find_smap_insert:
  "smap_inv m \<Longrightarrow> smap_find (smap_insert k v m)
   = (smap_find m)(k := Some (case smap_find m k of None \<Rightarrow> v | Some w \<Rightarrow> w))"
proof (induction m)
  case (Cons p m)
  obtain a b where p: "p = (a, b)" by (cases p)
  show ?case
  proof (cases "k < a")
    case True
    with Cons.prems have "smap_find (p # m) k = None"
      by (fastforce simp: p smap_find_None)
    with True show ?thesis by (simp add: p fun_eq_iff)
  next
    case False
    with Cons show ?thesis by (simp add: p fun_eq_iff)
  qed
qed (simp add: fun_eq_iff)

lemma find_smap_set: "smap_find (smap_set k v m) = (smap_find m)(k := Some v)"
  by (induction k v m rule: smap_set.induct) (simp_all add: fun_eq_iff)

lemma find_smap_erase: "smap_inv m \<Longrightarrow> smap_find (smap_erase k m) = (smap_find m)(k := None)"
proof (induction m)
  case (Cons p m)
  obtain a b where p: "p = (a, b)" by (cases p)
  from Cons.prems have "smap_find m a = None" by (auto simp: p smap_find_None)
  with Cons show ?case by (simp add: p fun_eq_iff)
qed (simp add: fun_eq_iff)

lemma smap_inv_insert [simp]: "smap_inv m \<Longrightarrow> smap_inv (smap_insert k v m)"
  by (induction k v m rule: smap_insert.induct) (auto simp: keys_smap_insert)

lemma smap_inv_set [simp]: "smap_inv m \<Longrightarrow> smap_inv (smap_set k v m)"
  by (induction k v m rule: smap_set.induct) (auto simp: keys_smap_set)

lemma smap_inv_erase [simp]: "smap_inv m \<Longrightarrow> smap_inv (smap_erase k m)"
  by (induction k m rule: smap_erase.induct) (auto simp: keys_smap_erase)

section \<open>The contract of an ordered map\<close>

locale ordered_map =
  fixes find :: "'m \<Rightarrow> 'k::linorder \<Rightarrow> 'v option"
    and insert' :: "'k \<Rightarrow> 'v \<Rightarrow> 'm \<Rightarrow> 'm"
    and erase :: "'k \<Rightarrow> 'm \<Rightarrow> 'm"
    and keys :: "'m \<Rightarrow> 'k list"
    and invar :: "'m \<Rightarrow> bool"
  assumes find_keys: "invar m \<Longrightarrow> find m k \<noteq> None \<longleftrightarrow> k \<in> set (keys m)"
    and sorted_keys: "invar m \<Longrightarrow> sorted_wrt (<) (keys m)"
    and find_insert: "invar m \<Longrightarrow> find (insert' k v m) j
          = (if j = k \<and> find m k = None then Some v else find m j)"
    and find_erase: "invar m \<Longrightarrow> find (erase k m) j = (if j = k then None else find m j)"
    and invar_insert: "invar m \<Longrightarrow> invar (insert' k v m)"
    and invar_erase: "invar m \<Longrightarrow> invar (erase k m)"
begin

lemma distinct_keys: "invar m \<Longrightarrow> distinct (keys m)"
  using sorted_keys strict_sorted_iff by blast

lemma set_keys_insert: "invar m \<Longrightarrow> set (keys (insert' k v m)) = insert k (set (keys m))"
  by (auto simp: find_keys [symmetric] find_insert invar_insert split: if_splits)

lemma set_keys_erase: "invar m \<Longrightarrow> set (keys (erase k m)) = set (keys m) - {k}"
  by (auto simp: find_keys [symmetric] find_erase invar_erase split: if_splits)

lemma keys_insert_present: "invar m \<Longrightarrow> k \<in> set (keys m) \<Longrightarrow> keys (insert' k v m) = keys m"
  by (rule strict_sorted_equal)
     (simp_all add: sorted_keys invar_insert set_keys_insert insert_absorb)

lemma erase_insert:
  "invar m \<Longrightarrow> find m k = None \<Longrightarrow> find (erase k (insert' k v m)) = find m"
  by (auto simp: fun_eq_iff find_erase find_insert invar_insert)

lemma replace:
  "invar m \<Longrightarrow> find (insert' k v (erase k m)) = (find m)(k := Some v)"
  by (auto simp: fun_eq_iff find_erase find_insert invar_erase)

end

interpretation smap: ordered_map smap_find smap_insert smap_erase "map fst" smap_inv
proof (unfold_locales, goal_cases)
  case (1 m k) then show ?case using smap_find_None [of m k] by auto
next
  case (2 m) then show ?case by (simp add: smap_inv_def)
next
  case (3 m k v j) then show ?case by (simp add: find_smap_insert split: option.split)
next
  case (4 m k j) then show ?case by (simp add: find_smap_erase)
qed simp_all

end
