(* ===== verification/Objects.thy ===== *)
theory Objects
  imports Buffers Std_Map
begin

text \<open>
  The classes of \<open>content/\<close> as records, with their accessors: students, teachers, courses,
  puzzles, games, the picture nodes and houses of the build-a-house game, groups and rooms.
  A pointer is an address (\<open>ptr\<close>), 0 is \<open>NULL\<close>.  A \<open>float\<close> that the code only stores is its
  32-bit pattern.  A member that a constructor leaves uninitialised takes its value from the
  argument \<open>g\<close>, the previous contents of the memory.
\<close>

type_synonym ptr = nat
type_synonym cstring = "byte list"
type_synonym garbage = "nat \<Rightarrow> u32"

definition NULL :: ptr where "NULL = 0"

section \<open>Students and teachers\<close>

record CStudent =
  m_current_status :: u32
  m_StuName :: cstring
  m_AccountName :: cstring
  m_onLine :: bool
  m_Id :: u32
  m_Socket :: int
  m_picture_name :: cstring
  isBuildHouseFinished :: int

definition CStudent_new :: "garbage \<Rightarrow> CStudent" where
  "CStudent_new g = \<lparr>m_current_status = g 0, m_StuName = [], m_AccountName = [], m_onLine = (g 1 \<noteq> 0),
     m_Id = g 2, m_Socket = sint (g 3), m_picture_name = [], isBuildHouseFinished = 0\<rparr>"

definition CStudent_setName :: "cstring \<Rightarrow> cstring \<Rightarrow> CStudent \<Rightarrow> CStudent" where
  "CStudent_setName s1 s2 st = st\<lparr>m_StuName := s1 @ s2\<rparr>"

definition CStudent_setAccount :: "cstring \<Rightarrow> CStudent \<Rightarrow> CStudent" where
  "CStudent_setAccount acc st = st\<lparr>m_AccountName := acc\<rparr>"

definition CStudent_setOnLine :: "bool \<Rightarrow> CStudent \<Rightarrow> CStudent" where
  "CStudent_setOnLine b st = st\<lparr>m_onLine := b\<rparr>"

definition CStudent_setId :: "u32 \<Rightarrow> CStudent \<Rightarrow> CStudent" where
  "CStudent_setId i st = st\<lparr>m_Id := i\<rparr>"

definition CStudent_setSocket :: "int \<Rightarrow> CStudent \<Rightarrow> CStudent" where
  "CStudent_setSocket sock st = st\<lparr>m_Socket := sock\<rparr>"

definition CStudent_setPictureName :: "cstring \<Rightarrow> CStudent \<Rightarrow> CStudent" where
  "CStudent_setPictureName n st = st\<lparr>m_picture_name := n\<rparr>"

definition CStudent_setStudentStatus :: "u32 \<Rightarrow> CStudent \<Rightarrow> CStudent" where
  "CStudent_setStudentStatus ess st = st\<lparr>m_current_status := ess\<rparr>"

lemmas CStudent_defs = CStudent_new_def CStudent_setName_def CStudent_setAccount_def
  CStudent_setOnLine_def CStudent_setId_def CStudent_setSocket_def CStudent_setPictureName_def
  CStudent_setStudentStatus_def

record CTeacher =
  m_TeacherName :: cstring
  m_Account :: cstring
  m_SocketFd :: int

definition CTeacher_setSocket :: "int \<Rightarrow> CTeacher \<Rightarrow> CTeacher" where
  "CTeacher_setSocket fd t = t\<lparr>m_SocketFd := fd\<rparr>"

definition CTeacher_setAccount :: "cstring \<Rightarrow> CTeacher \<Rightarrow> CTeacher" where
  "CTeacher_setAccount a t = t\<lparr>m_Account := a\<rparr>"

definition CTeacher_setName :: "cstring \<Rightarrow> cstring \<Rightarrow> CTeacher \<Rightarrow> CTeacher" where
  "CTeacher_setName f l t = t\<lparr>m_TeacherName := f @ l\<rparr>"

section \<open>Courses\<close>

record CCourseItem =
  m_ItemId :: u32
  m_itemName :: cstring

record CCourse =
  m_name :: cstring
  m_course_id :: u32
  m_courseList :: "CCourseItem list"

definition CCourse_new :: "garbage \<Rightarrow> CCourse" where
  "CCourse_new g = \<lparr>m_name = [], m_course_id = g 0, m_courseList = []\<rparr>"

definition CCourse_setName :: "cstring \<Rightarrow> CCourse \<Rightarrow> CCourse" where
  "CCourse_setName n c = c\<lparr>m_name := n\<rparr>"

definition CCourse_setId :: "u32 \<Rightarrow> CCourse \<Rightarrow> CCourse" where
  "CCourse_setId i c = c\<lparr>m_course_id := i\<rparr>"

definition CCourse_get_item_by_id :: "u32 \<Rightarrow> CCourse \<Rightarrow> CCourseItem option" where
  "CCourse_get_item_by_id i c = List.find (\<lambda>x. m_ItemId x = i) (m_courseList c)"

definition CCourse_get_item_by_name :: "cstring \<Rightarrow> CCourse \<Rightarrow> CCourseItem option" where
  "CCourse_get_item_by_name n c = List.find (\<lambda>x. m_itemName x = n) (m_courseList c)"

text \<open>A \<open>NULL\<close> item is ignored.\<close>

definition CCourse_add_item :: "CCourseItem option \<Rightarrow> CCourse \<Rightarrow> CCourse" where
  "CCourse_add_item p c = (case p of None \<Rightarrow> c | Some x \<Rightarrow> c\<lparr>m_courseList := m_courseList c @ [x]\<rparr>)"

lemma course_item_lookup:
  "CCourse_get_item_by_id (m_ItemId x) (CCourse_add_item (Some x) c)
   = (case CCourse_get_item_by_id (m_ItemId x) c of None \<Rightarrow> Some x | Some y \<Rightarrow> Some y)"
proof -
  have "List.find P (xs @ [x]) = (case List.find P xs of None \<Rightarrow> if P x then Some x else None | Some y \<Rightarrow> Some y)"
    for P and xs :: "CCourseItem list"
    by (induction xs) auto
  then show ?thesis by (simp add: CCourse_get_item_by_id_def CCourse_add_item_def)
qed

definition CCourseItem_setId :: "u32 \<Rightarrow> CCourseItem \<Rightarrow> CCourseItem" where
  "CCourseItem_setId i it = it\<lparr>m_ItemId := i\<rparr>"

definition CCourseItem_setName :: "cstring \<Rightarrow> CCourseItem \<Rightarrow> CCourseItem" where
  "CCourseItem_setName n it = it\<lparr>m_itemName := n\<rparr>"

section \<open>Games and grades\<close>

text \<open>Two small classes that the server does not use.\<close>

record CGame =
  m_current_scence :: int

definition CGame_set_current_scence :: "int \<Rightarrow> CGame \<Rightarrow> CGame" where
  "CGame_set_current_scence scence g = g\<lparr>m_current_scence := scence\<rparr>"

record cGrade =
  m_grade_name :: cstring

definition cGrade_setName :: "cstring \<Rightarrow> cGrade \<Rightarrow> cGrade" where
  "cGrade_setName n g = g\<lparr>m_grade_name := n\<rparr>"

section \<open>Puzzle timer\<close>

record CPuzzle =
  m_start_time :: int
  m_end_time :: int

definition CPuzzle_new :: CPuzzle where
  "CPuzzle_new = \<lparr>m_start_time = 0, m_end_time = 0\<rparr>"

definition CPuzzle_start :: "int \<Rightarrow> CPuzzle \<Rightarrow> CPuzzle" where
  "CPuzzle_start now p = (if m_start_time p = 0 then p\<lparr>m_start_time := now\<rparr> else p)"

definition CPuzzle_end :: "int \<Rightarrow> CPuzzle \<Rightarrow> CPuzzle" where
  "CPuzzle_end now p = (if m_end_time p = 0 then p\<lparr>m_end_time := now\<rparr> else p)"

definition CPuzzle_get_time :: "CPuzzle \<Rightarrow> int" where
  "CPuzzle_get_time p = m_end_time p - m_start_time p"

text \<open>Starting and ending are idempotent, and the time measured is the one at the first end.\<close>

lemma puzzle_time:
  assumes "0 < t0" "t0 \<le> t1" "t1 \<le> t2"
  shows "CPuzzle_get_time (CPuzzle_end t2 (CPuzzle_end t1 (CPuzzle_start t0 CPuzzle_new))) = t1 - t0"
  using assms by (simp add: CPuzzle_get_time_def CPuzzle_end_def CPuzzle_start_def CPuzzle_new_def)

section \<open>Build-a-house: nodes, houses, groups\<close>

record CNode =
  m_position_x :: u32
  m_position_y :: u32
  m_layer :: u32
  m_client_fd :: int
  m_node_id :: u32
  m_angle :: u32
  m_scale :: u32
  n_name :: cstring
  m_sname :: u16
  m_student_id :: u32

text \<open>The constructors from a client; \<open>g\<close> stands for the uninitialised members.\<close>

definition CNode_new_client :: "garbage \<Rightarrow> int \<Rightarrow> CNode" where
  "CNode_new_client g fd = \<lparr>m_position_x = 0, m_position_y = 0, m_layer = g 0, m_client_fd = fd,
     m_node_id = g 1, m_angle = 0, m_scale = 0, n_name = [], m_sname = ucast (g 4), m_student_id = g 5\<rparr>"

definition CNode_new :: "garbage \<Rightarrow> int \<Rightarrow> u32 \<Rightarrow> u32 \<Rightarrow> CNode" where
  "CNode_new g fd x y = \<lparr>m_position_x = x, m_position_y = y, m_layer = g 0, m_client_fd = fd,
     m_node_id = g 1, m_angle = g 2, m_scale = g 3, n_name = [], m_sname = ucast (g 4),
     m_student_id = g 5\<rparr>"

definition CNode_new_angle :: "garbage \<Rightarrow> int \<Rightarrow> u32 \<Rightarrow> u32 \<Rightarrow> u32 \<Rightarrow> CNode" where
  "CNode_new_angle g fd x y angle = (CNode_new g fd x y)\<lparr>m_angle := angle\<rparr>"

definition CNode_new_scale :: "garbage \<Rightarrow> int \<Rightarrow> u32 \<Rightarrow> u32 \<Rightarrow> u32 \<Rightarrow> u32 \<Rightarrow> CNode" where
  "CNode_new_scale g fd x y angle scale = (CNode_new g fd x y)\<lparr>m_angle := angle, m_scale := scale\<rparr>"

definition CNode_modifyScale :: "u32 \<Rightarrow> CNode \<Rightarrow> CNode" where
  "CNode_modifyScale v n = n\<lparr>m_scale := v\<rparr>"

definition CNode_modifyAngle :: "u32 \<Rightarrow> CNode \<Rightarrow> CNode" where
  "CNode_modifyAngle v n = n\<lparr>m_angle := v\<rparr>"

definition CNode_modifyMove :: "u32 \<Rightarrow> u32 \<Rightarrow> CNode \<Rightarrow> CNode" where
  "CNode_modifyMove x y n = n\<lparr>m_position_x := x, m_position_y := y\<rparr>"

definition CNode_lock :: "int \<Rightarrow> CNode \<Rightarrow> bool \<times> CNode" where
  "CNode_lock fd n = (if m_client_fd n = 0 then (True, n\<lparr>m_client_fd := fd\<rparr>) else (False, n))"

definition CNode_unlock :: "int \<Rightarrow> CNode \<Rightarrow> bool \<times> CNode" where
  "CNode_unlock fd n = (if m_client_fd n \<noteq> 0 then (True, n\<lparr>m_client_fd := 0\<rparr>) else (False, n))"

definition CNode_set_fd :: "int \<Rightarrow> CNode \<Rightarrow> CNode" where
  "CNode_set_fd fd n = (if 0 < fd then n\<lparr>m_client_fd := fd\<rparr> else n)"

text \<open>A node that is locked cannot be locked again, but anyone can unlock it.\<close>

lemma CNode_lock_exclusive: "0 \<noteq> fd \<Longrightarrow> \<not> fst (CNode_lock fd' (snd (CNode_lock fd n)))"
  by (simp add: CNode_lock_def)

lemma CNode_unlock_any: "m_client_fd n \<noteq> 0 \<Longrightarrow> m_client_fd (snd (CNode_unlock fd n)) = 0"
  by (simp add: CNode_unlock_def)

record CMakeHouse =
  m_node_map :: "(int, ptr) smap"
  m_node_layer_list :: "ptr list"
  m_current_layer :: u32
  longlong_data :: "nat \<Rightarrow> mem"      \<comment> \<open>\<open>char [36][1024]\<close>\<close>

text \<open>The constructor clears rows 0 to 34 of the table, not row 35 (\<open>g\<close>).\<close>

definition CMakeHouse_new :: "mem \<Rightarrow> CMakeHouse" where
  "CMakeHouse_new g = \<lparr>m_node_map = [], m_node_layer_list = [], m_current_layer = 1,
     longlong_data = (\<lambda>i. if i < 35 then (\<lambda>_. 0) else g)\<rparr>"

record CGroup =
  m_group_name :: cstring
  m_make_house :: CMakeHouse
  g_student_map :: "(int, ptr) smap"
  m_auto_nodeid :: u32
  m_auto_layer :: u32

definition CGroup_new :: "garbage \<Rightarrow> mem \<Rightarrow> cstring \<Rightarrow> CGroup" where
  "CGroup_new g gm name = \<lparr>m_group_name = name, m_make_house = CMakeHouse_new gm, g_student_map = [],
     m_auto_nodeid = 1, m_auto_layer = g 0\<rparr>"

definition CGroup_default :: "garbage \<Rightarrow> mem \<Rightarrow> CGroup" where
  "CGroup_default g gm = \<lparr>m_group_name = [], m_make_house = CMakeHouse_new gm, g_student_map = [],
     m_auto_nodeid = 1, m_auto_layer = g 0\<rparr>"

section \<open>Rooms\<close>

definition NUMS_STU_OF_GROUP :: nat where "NUMS_STU_OF_GROUP = 5"

record CRoom =
  m_isUsed :: int
  m_teacher :: CTeacher
  m_room_id :: int
  m_teacher_fd :: int
  m_white_fd :: int
  m_room_name :: cstring
  m_class_name :: cstring
  m_teacher_name :: cstring
  m_white_board :: cstring
  m_student_map :: "(int, ptr) smap"
  m_course_list :: "CCourse list"
  m_game_list :: "int list"
  m_current_st :: u32
  m_current_ss :: u32
  r_node_id :: u32
  m_is_show :: int
  m_current_scene :: u32
  m_buildhouse_groups :: "(int, ptr) smap"
  m_puzzle_map :: "(int, ptr) smap"

definition CRoom_new :: "garbage \<Rightarrow> int \<Rightarrow> cstring \<Rightarrow> cstring \<Rightarrow> CRoom" where
  "CRoom_new g rid class_name white_board = \<lparr>m_isUsed = 0,
     m_teacher = \<lparr>m_TeacherName = [], m_Account = [], m_SocketFd = sint (g 0)\<rparr>,
     m_room_id = rid, m_teacher_fd = -1, m_white_fd = -1, m_room_name = class_name, m_class_name = [],
     m_teacher_name = [], m_white_board = white_board, m_student_map = [], m_course_list = [],
     m_game_list = [], m_current_st = g 1, m_current_ss = g 2, r_node_id = 1, m_is_show = 0,
     m_current_scene = 100, m_buildhouse_groups = [], m_puzzle_map = []\<rparr>"

text \<open>The scene type and state, which the server itself never sets.\<close>

definition CRoom_set_current_st :: "u32 \<Rightarrow> CRoom \<Rightarrow> CRoom" where
  "CRoom_set_current_st st r = r\<lparr>m_current_st := st\<rparr>"

definition CRoom_set_current_ss :: "u32 \<Rightarrow> CRoom \<Rightarrow> CRoom" where
  "CRoom_set_current_ss ss r = r\<lparr>m_current_ss := ss\<rparr>"

definition SceneType :: "(u32 \<times> u32 option) list" where
  "SceneType = [(1, Some 1), (2, Some 2), (3, Some 3), (4, Some 4)]"

definition SceneState :: "(u32 \<times> u32 option) list" where
  "SceneState = [(1, Some 1), (2, Some 2), (3, Some 3)]"

end
