(* ===== verification/Server_State.thy ===== *)
theory Server_State
  imports Objects
begin

text \<open>
  The state of the running server (\<open>Single.h\<close>, the singletons and the heap) and the primitive
  steps that every handler is made of: following a pointer, reading and writing a field of a
  packet through a cast, taking a buffer from the pool, giving it back, queueing it for sending.

  \<open>bal U S s\<close> is the ownership discipline of the packet buffers: \<open>U\<close> are all buffers of the
  server, \<open>S\<close> the ones the running code holds, and every other one is exactly once in the pool,
  in the receive queue or in the send queue.  A buffer that is freed twice, or queued and
  freed, breaks it; a buffer that is forgotten stays in \<open>S\<close>.
\<close>

section \<open>State\<close>

record srv =
  bufs :: "ptr \<Rightarrow> Buf option"
  bufpool :: "ptr pool"
  recvqueue :: "ptr list"
  sendqueue :: "ptr list"
  students :: "ptr \<Rightarrow> CStudent option"
  nodes :: "ptr \<Rightarrow> CNode option"
  groups :: "ptr \<Rightarrow> CGroup option"
  puzzles :: "ptr \<Rightarrow> CPuzzle option"
  rooms :: "(int, CRoom) smap"
  test_white_fd :: int
  next_addr :: ptr
  fresh_mem :: "ptr \<Rightarrow> garbage"      \<comment> \<open>what \<open>new\<close> finds in the memory it hands out\<close>

type_synonym 'a act = "(srv, 'a) prog"

text \<open>The static object \<open>CHandleMessage::test_group\<close> lives at a fixed address.\<close>

definition TEST_GROUP :: ptr where "TEST_GROUP = 1"

section \<open>Pointers\<close>

definition deref :: "(srv \<Rightarrow> ptr \<Rightarrow> 'o option) \<Rightarrow> ptr \<Rightarrow> 'o act" where
  "deref heap p = (\<lambda>s. if p = NULL then Inl NullDeref
     else case heap s p of None \<Rightarrow> Inl DanglingPtr | Some x \<Rightarrow> Inr (x, s))"

lemma deref_Inr: "p \<noteq> NULL \<Longrightarrow> heap s p = Some x \<Longrightarrow> deref heap p s = Inr (x, s)"
  by (simp add: deref_def)

lemma wp_deref [wp_simps]:
  "wp (deref heap p) Q s = (p \<noteq> NULL \<and> (case heap s p of None \<Rightarrow> False | Some x \<Rightarrow> Q x s))"
  by (simp add: wp_def deref_def split: option.split)

definition new_addr :: "ptr act" where
  "new_addr = (\<lambda>s. Inr (next_addr s, s\<lparr>next_addr := next_addr s + 1\<rparr>))"

lemma wp_new_addr [wp_simps]: "wp new_addr Q s = Q (next_addr s) (s\<lparr>next_addr := next_addr s + 1\<rparr>)"
  by (simp add: wp_def new_addr_def)

definition set_student :: "ptr \<Rightarrow> CStudent option \<Rightarrow> srv \<Rightarrow> srv" where
  "set_student p x s = s\<lparr>students := (students s)(p := x)\<rparr>"

definition set_node :: "ptr \<Rightarrow> CNode option \<Rightarrow> srv \<Rightarrow> srv" where
  "set_node p x s = s\<lparr>nodes := (nodes s)(p := x)\<rparr>"

definition set_group :: "ptr \<Rightarrow> CGroup option \<Rightarrow> srv \<Rightarrow> srv" where
  "set_group p x s = s\<lparr>groups := (groups s)(p := x)\<rparr>"

definition set_puzzle :: "ptr \<Rightarrow> CPuzzle option \<Rightarrow> srv \<Rightarrow> srv" where
  "set_puzzle p x s = s\<lparr>puzzles := (puzzles s)(p := x)\<rparr>"

definition set_buf :: "ptr \<Rightarrow> Buf \<Rightarrow> srv \<Rightarrow> srv" where
  "set_buf p b s = s\<lparr>bufs := (bufs s)(p := Some b)\<rparr>"

definition set_room :: "int \<Rightarrow> CRoom \<Rightarrow> srv \<Rightarrow> srv" where
  "set_room rid r s = s\<lparr>rooms := smap_set rid r (rooms s)\<rparr>"

text \<open>A member call that changes an object: follow the pointer, apply, store back.\<close>

definition upd_student :: "ptr \<Rightarrow> (CStudent \<Rightarrow> CStudent) \<Rightarrow> unit act" where
  "upd_student p f = bnd (deref students p) (\<lambda>x. modify (set_student p (Some (f x))))"

definition upd_node :: "ptr \<Rightarrow> (CNode \<Rightarrow> CNode) \<Rightarrow> unit act" where
  "upd_node p f = bnd (deref nodes p) (\<lambda>x. modify (set_node p (Some (f x))))"

definition upd_group :: "ptr \<Rightarrow> (CGroup \<Rightarrow> CGroup) \<Rightarrow> unit act" where
  "upd_group p f = bnd (deref groups p) (\<lambda>x. modify (set_group p (Some (f x))))"

definition upd_puzzle :: "ptr \<Rightarrow> (CPuzzle \<Rightarrow> CPuzzle) \<Rightarrow> unit act" where
  "upd_puzzle p f = bnd (deref puzzles p) (\<lambda>x. modify (set_puzzle p (Some (f x))))"

definition upd_buf :: "ptr \<Rightarrow> (Buf \<Rightarrow> Buf) \<Rightarrow> unit act" where
  "upd_buf p f = bnd (deref bufs p) (\<lambda>b. modify (set_buf p (f b)))"

text \<open>\<open>new T (\<dots>)\<close> and \<open>delete p\<close>: deleting \<open>NULL\<close> does nothing, deleting twice is a fault.\<close>

definition new_obj :: "(ptr \<Rightarrow> 'o option \<Rightarrow> srv \<Rightarrow> srv) \<Rightarrow> (garbage \<Rightarrow> 'o) \<Rightarrow> ptr act" where
  "new_obj put mk = bnd new_addr (\<lambda>a.
     sq (modify (\<lambda>s. put a (Some (mk (fresh_mem s a))) s)) (ret a))"

definition delete_obj :: "(srv \<Rightarrow> ptr \<Rightarrow> 'o option) \<Rightarrow> (ptr \<Rightarrow> 'o option \<Rightarrow> srv \<Rightarrow> srv) \<Rightarrow> ptr \<Rightarrow> unit act" where
  "delete_obj heap put p = (if p = NULL then ret () else sq (deref heap p) (modify (put p None)))"

text \<open>Rooms are never deleted, so a room pointer is its key in the room map, \<open>None\<close> for \<open>NULL\<close>.\<close>

definition deref_room :: "int option \<Rightarrow> CRoom act" where
  "deref_room rp = (\<lambda>s. case rp of None \<Rightarrow> Inl NullDeref
     | Some rid \<Rightarrow> (case smap_find (rooms s) rid of None \<Rightarrow> Inl DanglingPtr | Some r \<Rightarrow> Inr (r, s)))"

definition upd_room :: "int option \<Rightarrow> (CRoom \<Rightarrow> CRoom) \<Rightarrow> unit act" where
  "upd_room rp f = bnd (deref_room rp) (\<lambda>r.
     case rp of None \<Rightarrow> fail NullDeref | Some rid \<Rightarrow> modify (set_room rid (f r)))"

lemma wp_deref_room [wp_simps]:
  "wp (deref_room rp) Q s = (case rp of None \<Rightarrow> False
     | Some rid \<Rightarrow> (case smap_find (rooms s) rid of None \<Rightarrow> False | Some r \<Rightarrow> Q r s))"
  by (simp add: wp_def deref_room_def split: option.split)

lemmas upd_defs = upd_student_def upd_node_def upd_group_def upd_puzzle_def upd_buf_def upd_room_def
lemmas set_defs = set_student_def set_node_def set_group_def set_puzzle_def set_buf_def set_room_def

section \<open>Packets\<close>

text \<open>A read or a write through a cast of the buffer's pointer; the access must stay inside the
  \<open>m_size\<close> bytes of the buffer.\<close>

definition rd32 :: "ptr \<Rightarrow> nat \<Rightarrow> u32 act" where
  "rd32 p a = bnd (deref bufs p) (\<lambda>b.
     sq (check (a + 4 \<le> m_size b) OutOfBounds) (ret (get32 (m_ptr b) a)))"

definition rd64 :: "ptr \<Rightarrow> nat \<Rightarrow> u64 act" where
  "rd64 p a = bnd (deref bufs p) (\<lambda>b.
     sq (check (a + 8 \<le> m_size b) OutOfBounds) (ret (get64 (m_ptr b) a)))"

definition wr32 :: "ptr \<Rightarrow> nat \<Rightarrow> u32 \<Rightarrow> unit act" where
  "wr32 p a v = bnd (deref bufs p) (\<lambda>b.
     sq (check (a + 4 \<le> m_size b) OutOfBounds)
        (modify (set_buf p (b\<lparr>m_ptr := put32 (m_ptr b) a v\<rparr>))))"

definition wr64 :: "ptr \<Rightarrow> nat \<Rightarrow> u64 \<Rightarrow> unit act" where
  "wr64 p a v = bnd (deref bufs p) (\<lambda>b.
     sq (check (a + 8 \<le> m_size b) OutOfBounds)
        (modify (set_buf p (b\<lparr>m_ptr := put64 (m_ptr b) a v\<rparr>))))"

definition wr_bytes :: "ptr \<Rightarrow> nat \<Rightarrow> byte list \<Rightarrow> unit act" where
  "wr_bytes p a bs = bnd (deref bufs p) (\<lambda>b.
     sq (check (a + length bs \<le> m_size b) OutOfBounds)
        (modify (set_buf p (b\<lparr>m_ptr := copy_list (m_ptr b) a bs\<rparr>))))"

text \<open>\<open>memcpy (p->ptr () + a, q->ptr () + c, n)\<close>.\<close>

definition memcpy_buf :: "ptr \<Rightarrow> nat \<Rightarrow> ptr \<Rightarrow> nat \<Rightarrow> nat \<Rightarrow> unit act" where
  "memcpy_buf p a q c n = bnd (deref bufs p) (\<lambda>b. bnd (deref bufs q) (\<lambda>d.
     sq (check (a + n \<le> m_size b \<and> c + n \<le> m_size d) OutOfBounds)
        (modify (set_buf p (b\<lparr>m_ptr := copy_mem (m_ptr b) a (m_ptr d) c n\<rparr>)))))"

text \<open>The header fields \<open>cLen\<close> and \<open>cType\<close>.\<close>

definition head_cLen :: "ptr \<Rightarrow> u32 act" where "head_cLen p = rd32 p (offsetof sSubmitData ''cLen'')"
definition head_cType :: "ptr \<Rightarrow> u32 act" where "head_cType p = rd32 p (offsetof sSubmitData ''cType'')"
definition set_cLen :: "ptr \<Rightarrow> u32 \<Rightarrow> unit act" where
  "set_cLen p v = wr32 p (offsetof sSubmitData ''cLen'') v"
definition set_cType :: "ptr \<Rightarrow> u32 \<Rightarrow> unit act" where
  "set_cType p v = wr32 p (offsetof sSubmitData ''cType'') v"

lemmas head_defs = head_cLen_def head_cType_def set_cLen_def set_cType_def

definition get_fd :: "ptr \<Rightarrow> int act" where "get_fd p = bnd (deref bufs p) (\<lambda>b. ret (m_fd b))"
definition get_size :: "ptr \<Rightarrow> nat act" where "get_size p = bnd (deref bufs p) (\<lambda>b. ret (m_used b))"
definition set_fd :: "ptr \<Rightarrow> int \<Rightarrow> unit act" where "set_fd p fd = upd_buf p (Buf_setfd fd)"
definition set_size :: "ptr \<Rightarrow> nat \<Rightarrow> unit act" where "set_size p n = upd_buf p (Buf_setsize n)"
definition buf_reset :: "ptr \<Rightarrow> unit act" where "buf_reset p = upd_buf p Buf_reset"

text \<open>\<open>SINGLE->bufpool\<close> and \<open>SINGLE->sendqueue\<close>.\<close>

definition pool_malloc :: "ptr act" where
  "pool_malloc = (\<lambda>s. case PoolT_malloc (bufpool s) of None \<Rightarrow> Inr (NULL, s)
     | Some (p, q) \<Rightarrow> Inr (p, s\<lparr>bufpool := q\<rparr>))"

definition pool_free :: "ptr \<Rightarrow> unit act" where
  "pool_free p = modify (\<lambda>s. s\<lparr>bufpool := PoolT_free p (bufpool s)\<rparr>)"

definition send_enqueue :: "ptr \<Rightarrow> unit act" where
  "send_enqueue p = modify (\<lambda>s. s\<lparr>sendqueue := QueueT_enqueue p (sendqueue s)\<rparr>)"

definition recv_enqueue :: "ptr \<Rightarrow> unit act" where
  "recv_enqueue p = modify (\<lambda>s. s\<lparr>recvqueue := QueueT_enqueue p (recvqueue s)\<rparr>)"

section \<open>Ownership of the buffers\<close>

definition inflight :: "srv \<Rightarrow> ptr list" where
  "inflight s = pool_queue (bufpool s) @ recvqueue s @ sendqueue s"

definition live_buf :: "srv \<Rightarrow> ptr \<Rightarrow> bool" where
  "live_buf s p \<longleftrightarrow> p \<noteq> NULL \<and> (case bufs s p of None \<Rightarrow> False | Some b \<Rightarrow> m_size b = MAX_BUF)"

definition bal :: "ptr multiset \<Rightarrow> ptr list \<Rightarrow> srv \<Rightarrow> bool" where
  "bal U S s \<longleftrightarrow> mset (inflight s) + mset S = U \<and> (\<forall>p \<in># U. live_buf s p)"

definition world :: "srv \<Rightarrow> _" where
  "world s = (students s, nodes s, groups s, puzzles s, rooms s, test_white_fd s, next_addr s)"

lemma world_eqs:
  "world s = world t \<Longrightarrow> students s = students t \<and> nodes s = nodes t \<and> groups s = groups t
     \<and> puzzles s = puzzles t \<and> rooms s = rooms t \<and> test_white_fd s = test_white_fd t
     \<and> next_addr s = next_addr t"
  by (simp add: world_def)

lemma bal_held: "bal U S s \<Longrightarrow> p \<in> set S \<Longrightarrow> live_buf s p"
  by (auto simp: bal_def)

lemma live_bufD: "live_buf s p \<Longrightarrow> p \<noteq> NULL \<and> (\<exists>b. bufs s p = Some b \<and> m_size b = MAX_BUF)"
  by (auto simp: live_buf_def split: option.splits)

text \<open>No buffer is twice in flight, and none that is held is in flight.\<close>

lemma bal_distinct: "bal U S s \<Longrightarrow> (\<And>p. count U p \<le> 1) \<Longrightarrow> distinct (inflight s @ S)"
proof -
  assume "bal U S s" and U: "\<And>p. count U p \<le> 1"
  then have "mset (inflight s @ S) = U" by (simp add: bal_def)
  then have "\<And>p. count (mset (inflight s @ S)) p \<le> 1" using U by simp
  moreover have "distinct xs" if "\<And>p. count (mset xs) p \<le> 1" for xs :: "ptr list"
  proof -
    have "count (mset xs) a = (if a \<in> set xs then 1 else 0)" for a
      using that [of a] count_mset_0_iff [of xs a] by (cases "a \<in> set xs") (auto simp: le_Suc_eq)
    then show ?thesis by (simp add: distinct_count_atmost_1)
  qed
  ultimately show ?thesis by blast
qed

lemma bal_rotate: "bal U (p # S) s = bal U (S @ [p]) s"
  by (simp add: bal_def)

lemma bal_swap: "bal U (p # q # S) s = bal U (q # p # S) s"
  by (simp add: bal_def add_mset_commute)

text \<open>Steps that do not touch the pool, the queues or the buffers keep the balance.\<close>

lemma bal_cong:
  "bufpool t = bufpool s \<Longrightarrow> recvqueue t = recvqueue s \<Longrightarrow> sendqueue t = sendqueue s
   \<Longrightarrow> bufs t = bufs s \<Longrightarrow> bal U S t = bal U S s"
  by (simp add: bal_def inflight_def live_buf_def)

lemma bal_set_buf: "bal U S s \<Longrightarrow> m_size b = MAX_BUF \<Longrightarrow> bal U S (set_buf p b s)"
  by (auto simp: bal_def inflight_def live_buf_def set_buf_def split: option.splits)

lemma bal_free: "bal U (p # S) s \<Longrightarrow> bal U S (s\<lparr>bufpool := PoolT_free p (bufpool s)\<rparr>)"
  by (auto simp: bal_def inflight_def live_buf_def pt.items_enq)

lemma bal_send: "bal U (p # S) s \<Longrightarrow> bal U S (s\<lparr>sendqueue := QueueT_enqueue p (sendqueue s)\<rparr>)"
  by (auto simp: bal_def inflight_def live_buf_def qt.items_enq)

lemma bal_recv: "bal U (p # S) s \<Longrightarrow> bal U S (s\<lparr>recvqueue := QueueT_enqueue p (recvqueue s)\<rparr>)"
  by (auto simp: bal_def inflight_def live_buf_def qt.items_enq)

lemma bal_malloc:
  "bal U S s \<Longrightarrow> PoolT_malloc (bufpool s) = Some (p, q) \<Longrightarrow> bal U (p # S) (s\<lparr>bufpool := q\<rparr>)"
  by (auto simp: bal_def inflight_def live_buf_def dest: pt.deq_Some)

section \<open>Rules of the primitive steps\<close>

text \<open>\<open>held U S w s\<close> adds to the balance that everything but the buffers is still \<open>w\<close>.\<close>

definition held :: "ptr multiset \<Rightarrow> ptr list \<Rightarrow> _ \<Rightarrow> srv \<Rightarrow> bool" where
  "held U S w s \<longleftrightarrow> bal U S s \<and> world s = w"

lemma world_set_buf [simp]: "world (set_buf p b s) = world s"
  by (simp add: world_def set_buf_def)

lemma held_set_buf: "held U S w s \<Longrightarrow> m_size b = MAX_BUF \<Longrightarrow> held U S w (set_buf p b s)"
  by (simp add: held_def bal_set_buf)

lemma held_buf:
  "held U S w s \<Longrightarrow> p \<in> set S \<Longrightarrow> p \<noteq> NULL \<and> (\<exists>b. bufs s p = Some b \<and> m_size b = MAX_BUF)"
  unfolding held_def by (elim conjE) (rule live_bufD, rule bal_held)

lemma wp_rd32 [wp_intros]:
  assumes "held U S w s" "p \<in> set S" "a + 4 \<le> MAX_BUF"
    and "\<And>b. bufs s p = Some b \<Longrightarrow> Q (get32 (m_ptr b) a) s"
  shows "wp (rd32 p a) Q s"
  using held_buf [OF assms(1,2)] assms(3,4) by (auto simp: rd32_def wp_simps)

lemma wp_rd64 [wp_intros]:
  assumes "held U S w s" "p \<in> set S" "a + 8 \<le> MAX_BUF"
    and "\<And>b. bufs s p = Some b \<Longrightarrow> Q (get64 (m_ptr b) a) s"
  shows "wp (rd64 p a) Q s"
  using held_buf [OF assms(1,2)] assms(3,4) by (auto simp: rd64_def wp_simps)

lemma wp_wr32 [wp_intros]:
  assumes "held U S w s" "p \<in> set S" "a + 4 \<le> MAX_BUF" and "\<And>t. held U S w t \<Longrightarrow> Q () t"
  shows "wp (wr32 p a v) Q s"
  using held_buf [OF assms(1,2)] assms
  by (auto simp: wr32_def wp_simps intro!: assms(4) held_set_buf)

lemma wp_wr64 [wp_intros]:
  assumes "held U S w s" "p \<in> set S" "a + 8 \<le> MAX_BUF" and "\<And>t. held U S w t \<Longrightarrow> Q () t"
  shows "wp (wr64 p a v) Q s"
  using held_buf [OF assms(1,2)] assms
  by (auto simp: wr64_def wp_simps intro!: assms(4) held_set_buf)

lemma wp_wr_bytes [wp_intros]:
  assumes "held U S w s" "p \<in> set S" "a + length bs \<le> MAX_BUF" and "\<And>t. held U S w t \<Longrightarrow> Q () t"
  shows "wp (wr_bytes p a bs) Q s"
  using held_buf [OF assms(1,2)] assms
  by (auto simp: wr_bytes_def wp_simps intro!: assms(4) held_set_buf)

lemma wp_memcpy_buf [wp_intros]:
  assumes "held U S w s" "p \<in> set S" "q \<in> set S" "a + n \<le> MAX_BUF" "c + n \<le> MAX_BUF"
    and "\<And>t. held U S w t \<Longrightarrow> Q () t"
  shows "wp (memcpy_buf p a q c n) Q s"
  using held_buf [OF assms(1,2)] held_buf [OF assms(1,3)] assms
  by (auto simp: memcpy_buf_def wp_simps intro!: assms(6) held_set_buf)

lemma wp_head_cLen [wp_intros]:
  assumes "held U S w s" "p \<in> set S" and "\<And>b. bufs s p = Some b \<Longrightarrow> Q (get32 (m_ptr b) 0) s"
  shows "wp (head_cLen p) Q s"
  unfolding head_cLen_def using assms by (auto simp: MAX_BUF_def intro!: wp_rd32)

lemma wp_head_cType [wp_intros]:
  assumes "held U S w s" "p \<in> set S" and "\<And>b. bufs s p = Some b \<Longrightarrow> Q (get32 (m_ptr b) 4) s"
  shows "wp (head_cType p) Q s"
  unfolding head_cType_def using assms by (auto simp: MAX_BUF_def intro!: wp_rd32)

lemma wp_set_cLen [wp_intros]:
  assumes "held U S w s" "p \<in> set S" and "\<And>t. held U S w t \<Longrightarrow> Q () t"
  shows "wp (set_cLen p v) Q s"
  unfolding set_cLen_def by (rule wp_wr32 [OF assms(1,2)]) (simp_all add: MAX_BUF_def assms(3))

lemma wp_set_cType [wp_intros]:
  assumes "held U S w s" "p \<in> set S" and "\<And>t. held U S w t \<Longrightarrow> Q () t"
  shows "wp (set_cType p v) Q s"
  unfolding set_cType_def by (rule wp_wr32 [OF assms(1,2)]) (simp_all add: MAX_BUF_def assms(3))

lemma wp_get_fd [wp_intros]:
  assumes "held U S w s" "p \<in> set S" and "\<And>b. bufs s p = Some b \<Longrightarrow> Q (m_fd b) s"
  shows "wp (get_fd p) Q s"
  using held_buf [OF assms(1,2)] assms(3) by (auto simp: get_fd_def wp_simps)

lemma wp_get_size [wp_intros]:
  assumes "held U S w s" "p \<in> set S" and "\<And>b. bufs s p = Some b \<Longrightarrow> Q (m_used b) s"
  shows "wp (get_size p) Q s"
  using held_buf [OF assms(1,2)] assms(3) by (auto simp: get_size_def wp_simps)

lemma wp_upd_buf:
  assumes "held U S w s" "p \<in> set S" "\<And>b. m_size (f b) = m_size b" and "\<And>t. held U S w t \<Longrightarrow> Q () t"
  shows "wp (upd_buf p f) Q s"
  using held_buf [OF assms(1,2)] assms
  by (auto simp: upd_buf_def wp_simps intro!: assms(4) held_set_buf)

lemma wp_set_fd [wp_intros]:
  assumes "held U S w s" "p \<in> set S" and "\<And>t. held U S w t \<Longrightarrow> Q () t"
  shows "wp (set_fd p fd) Q s"
  unfolding set_fd_def by (rule wp_upd_buf [OF assms(1,2)]) (simp_all add: Buf_setfd_def assms(3))

lemma wp_set_size [wp_intros]:
  assumes "held U S w s" "p \<in> set S" and "\<And>t. held U S w t \<Longrightarrow> Q () t"
  shows "wp (set_size p n) Q s"
  unfolding set_size_def by (rule wp_upd_buf [OF assms(1,2)]) (simp_all add: Buf_setsize_def assms(3))

lemma wp_buf_reset [wp_intros]:
  assumes "held U S w s" "p \<in> set S" and "\<And>t. held U S w t \<Longrightarrow> Q () t"
  shows "wp (buf_reset p) Q s"
  unfolding buf_reset_def by (rule wp_upd_buf [OF assms(1,2)]) (simp_all add: Buf_reset_def assms(3))

lemma wp_pool_malloc [wp_intros]:
  assumes "held U S w s" and "pool_queue (bufpool s) = [] \<Longrightarrow> Q NULL s"
    and "\<And>p t. held U (p # S) w t \<Longrightarrow> p \<noteq> NULL \<Longrightarrow>
           pool_queue (bufpool s) = p # pool_queue (bufpool t) \<Longrightarrow> Q p t"
  shows "wp pool_malloc Q s"
proof (cases "PoolT_malloc (bufpool s)")
  case None
  then show ?thesis using assms(2) by (simp add: pool_malloc_def wp_def PoolT_malloc_def split: list.splits)
next
  case (Some a)
  then obtain p q where pq: "PoolT_malloc (bufpool s) = Some (p, q)" by (cases a) auto
  then have h: "held U (p # S) w (s\<lparr>bufpool := q\<rparr>)"
    using assms(1) by (auto simp: held_def bal_malloc world_def)
  then have "p \<noteq> NULL" by (auto dest: held_buf)
  moreover have "pool_queue (bufpool s) = p # pool_queue q"
    using pq by (auto simp: PoolT_malloc_def split: list.splits)
  ultimately show ?thesis using assms(3) [OF h] pq by (simp add: pool_malloc_def wp_def)
qed

lemma wp_pool_free [wp_intros]:
  assumes "held U (p # S) w s" and "\<And>t. held U S w t \<Longrightarrow> Q () t"
  shows "wp (pool_free p) Q s"
  using assms by (auto simp: pool_free_def wp_simps held_def world_def intro!: assms(2) bal_free)

lemma wp_send_enqueue [wp_intros]:
  assumes "held U (p # S) w s" and "\<And>t. held U S w t \<Longrightarrow> Q () t"
  shows "wp (send_enqueue p) Q s"
  using assms by (auto simp: send_enqueue_def wp_simps held_def world_def intro!: assms(2) bal_send)

section \<open>The environment\<close>

text \<open>
  What the code asks of the outside: the database (each SQL constant is a constructor, with its text in \<open>Sql\<close>; a query
  yields its rows, or \<open>None\<close> when the library throws \<open>SQLException\<close>), the clock, and the
  one file the puzzle handler opens.  All of it is an argument of the model.
\<close>

datatype sql = SQL_SELECT_STU | SQL_SELECT_TEACHER | SQL_SELECT_CLASSROOM1 | SQL_SELECT_USED_COURSE
  | SQL_SELECT_COURSE_DB | SQL_SELECT_GRADE_DB | SQL_SELECT_CLASS_DB | SQL_SELECT_CLASSROOM_DB
  | SQL_SELECT_STUDENT_DB | SQL_SELECT_COURSEITEM_DB | SQL_SELECT_ROOM | SQL_SELECT_ITEM_KEYS
  | SQL_SELECT_STUDENT_DETAILINFO | SQL_SELECT_TEACHER_DETAILINFO | SQL_SELECT_COURSE | SQL_SELECT_CLASS
  | SQL_SELECT_CLASSROOM | SQL_SELECT_GRADE | SQL_SELECT_ALLSTU
  | SQL_COUNT string   \<comment> \<open>\<open>SELECT count(*) AS ccount FROM \<dots>\<close>\<close>

datatype dbarg = ArgString cstring | ArgInt u32

record row =
  getString :: "string \<Rightarrow> cstring"
  getInt :: "string \<Rightarrow> u32"

record env =
  db_query :: "sql \<Rightarrow> dbarg list \<Rightarrow> row list option"
  time_now :: int
  can_open_picture :: bool
  swap_right_first :: bool     \<comment> \<open>the compiler evaluates the second argument of a call first\<close>

end
