(* ===== verification/Delivery.thy ===== *)
theory Delivery
  imports Server_State
begin

text \<open>
  What the server hands to its sending thread.  \<open>sent s\<close> is the content of the send queue:
  for every queued packet the descriptor it goes to and the bytes that will be written to it.
  \<open>own U n C X w s\<close> is the assertion the delivery properties are stated with: the running code
  holds exactly the buffers in \<open>C\<close> with the contents recorded there, the send queue holds the
  packets \<open>X\<close>, at least \<open>n\<close> buffers are free, every buffer of \<open>U\<close> is in exactly one place,
  and the rest of the state is \<open>w\<close>.  The rules of \<open>own_intros\<close> run the primitive steps.
\<close>

named_theorems own_intros \<open>rules of the primitive steps for the delivery assertion\<close>

section \<open>Definition\<close>

definition packet :: "srv \<Rightarrow> ptr \<Rightarrow> Buf" where
  "packet s p = (case bufs s p of Some b \<Rightarrow> b | None \<Rightarrow> Buf_new (\<lambda>_. 0) 0 0)"

lemma packet_frame [simp]:
  "packet (s\<lparr>sendqueue := x\<rparr>) = packet s" "packet (s\<lparr>bufpool := y\<rparr>) = packet s"
  by (simp_all add: packet_def fun_eq_iff)

text \<open>What goes out on the wire for a buffer: the descriptor and the first \<open>m_used\<close> bytes.\<close>

definition view :: "Buf \<Rightarrow> int \<times> byte list" where
  "view b = (m_fd b, bytes_at (m_ptr b) 0 (m_used b))"

definition sent :: "srv \<Rightarrow> (int \<times> byte list) list" where
  "sent s = map (\<lambda>p. view (packet s p)) (sendqueue s)"

definition avail :: "srv \<Rightarrow> nat" where
  "avail s = length (pool_queue (bufpool s))"

definition own :: "ptr multiset \<Rightarrow> nat \<Rightarrow> (ptr \<times> Buf) list \<Rightarrow> (int \<times> byte list) list \<Rightarrow> _ \<Rightarrow> srv \<Rightarrow> bool" where
  "own U n C X w s \<longleftrightarrow> held U (map fst C) w s \<and> (\<forall>p. count U p \<le> 1) \<and> n \<le> avail s \<and> sent s = X
     \<and> (\<forall>(p, b) \<in> set C. bufs s p = Some b)"

lemma own_held: "own U n C X w s \<Longrightarrow> held U (map fst C) w s"
  by (simp add: own_def)

lemma own_world: "own U n C X w s \<Longrightarrow> world s = w"
  by (simp add: own_def held_def)

lemma own_sent: "own U n C X w s \<Longrightarrow> sent s = X"
  by (simp add: own_def)

lemma own_mono: "own U n C X w s \<Longrightarrow> m \<le> n \<Longrightarrow> own U m C X w s"
  by (simp add: own_def)

lemma own_distinct: "own U n C X w s \<Longrightarrow> distinct (inflight s @ map fst C)"
  by (auto simp only: own_def held_def intro: bal_distinct)

lemma own_buf: "own U n C X w s \<Longrightarrow> (p, b) \<in> set C \<Longrightarrow> bufs s p = Some b \<and> m_size b = MAX_BUF \<and> p \<noteq> NULL"
  unfolding own_def using held_buf [of U "map fst C" w s p] by force

lemma own_swap: "own U n (x # y # C) X w s = own U n (y # x # C) X w s"
  unfolding own_def held_def by (auto simp: bal_def add_mset_commute)

lemma own_rotate: "own U n (x # C) X w s = own U n (C @ [x]) X w s"
  unfolding own_def held_def by (auto simp: bal_def)

text \<open>Changes outside the buffers, the pool and the queues.\<close>

lemma own_cong:
  assumes "own U n C X w s" "bufs t = bufs s" "bufpool t = bufpool s" "recvqueue t = recvqueue s"
    "sendqueue t = sendqueue s"
  shows "own U n C X (world t) t"
  using assms unfolding own_def held_def sent_def packet_def avail_def
  by (simp add: bal_cong [of t s])

lemma own_set_student: "own U n C X w s \<Longrightarrow> own U n C X (world (set_student p x s)) (set_student p x s)"
  by (rule own_cong) (simp_all add: set_student_def)

lemma own_set_group: "own U n C X w s \<Longrightarrow> own U n C X (world (set_group p x s)) (set_group p x s)"
  by (rule own_cong) (simp_all add: set_group_def)

lemma own_set_node: "own U n C X w s \<Longrightarrow> own U n C X (world (set_node p x s)) (set_node p x s)"
  by (rule own_cong) (simp_all add: set_node_def)

lemma own_set_puzzle: "own U n C X w s \<Longrightarrow> own U n C X (world (set_puzzle p x s)) (set_puzzle p x s)"
  by (rule own_cong) (simp_all add: set_puzzle_def)

lemma own_set_room: "own U n C X w s \<Longrightarrow> own U n C X (world (set_room rid r s)) (set_room rid r s)"
  by (rule own_cong) (simp_all add: set_room_def)

lemma own_set_buf:
  assumes "own U n ((p, b) # C) X w s" "m_size b' = MAX_BUF"
  shows "own U n ((p, b') # C) X w (set_buf p b' s)"
proof -
  have d: "p \<notin> set (sendqueue s)" "p \<notin> fst ` set C"
    using own_distinct [OF assms(1)] by (auto simp: inflight_def)
  have "held U (map fst ((p, b') # C)) w (set_buf p b' s)"
    using own_held [OF assms(1)] assms(2) by (simp add: held_set_buf)
  moreover have "sent (set_buf p b' s) = sent s"
    using d(1) by (auto simp: sent_def packet_def set_buf_def)
  moreover have "\<forall>(q, c) \<in> set ((p, b') # C). bufs (set_buf p b' s) q = Some c"
    using assms(1) d(2) by (force simp: own_def set_buf_def)
  ultimately show ?thesis using assms(1) by (simp add: own_def avail_def set_buf_def)
qed

section \<open>Rules\<close>

lemma own_rd32 [own_intros]:
  assumes "own U n C X w s" "(p, b) \<in> set C" "a + 4 \<le> MAX_BUF" "Q (get32 (m_ptr b) a) s"
  shows "wp (rd32 p a) Q s"
  using own_buf [OF assms(1,2)] assms(3,4) by (simp add: rd32_def wp_simps)

lemma own_rd64 [own_intros]:
  assumes "own U n C X w s" "(p, b) \<in> set C" "a + 8 \<le> MAX_BUF" "Q (get64 (m_ptr b) a) s"
  shows "wp (rd64 p a) Q s"
  using own_buf [OF assms(1,2)] assms(3,4) by (simp add: rd64_def wp_simps)

lemma own_wr64 [own_intros]:
  assumes "own U n ((p, b) # C) X w s" "a + 8 \<le> MAX_BUF"
    and "\<And>t. own U n ((p, b\<lparr>m_ptr := put64 (m_ptr b) a v\<rparr>) # C) X w t \<Longrightarrow> Q () t"
  shows "wp (wr64 p a v) Q s"
  using own_buf [OF assms(1), of p b] assms(2) own_set_buf [OF assms(1)]
  by (auto simp: wr64_def wp_simps intro!: assms(3))

lemma own_wr32 [own_intros]:
  assumes "own U n ((p, b) # C) X w s" "a + 4 \<le> MAX_BUF"
    and "\<And>t. own U n ((p, b\<lparr>m_ptr := put32 (m_ptr b) a v\<rparr>) # C) X w t \<Longrightarrow> Q () t"
  shows "wp (wr32 p a v) Q s"
  using own_buf [OF assms(1), of p b] assms(2) own_set_buf [OF assms(1)]
  by (auto simp: wr32_def wp_simps intro!: assms(3))

lemma own_wr_bytes [own_intros]:
  assumes "own U n ((p, b) # C) X w s" "a + length bs \<le> MAX_BUF"
    and "\<And>t. own U n ((p, b\<lparr>m_ptr := copy_list (m_ptr b) a bs\<rparr>) # C) X w t \<Longrightarrow> Q () t"
  shows "wp (wr_bytes p a bs) Q s"
  using own_buf [OF assms(1), of p b] assms(2) own_set_buf [OF assms(1)]
  by (auto simp: wr_bytes_def wp_simps intro!: assms(3))

lemma own_memcpy_buf [own_intros]:
  assumes "own U n ((p, b) # C) X w s" "(q, c) \<in> set ((p, b) # C)" "a + k \<le> MAX_BUF" "d + k \<le> MAX_BUF"
    and "\<And>t. own U n ((p, b\<lparr>m_ptr := copy_mem (m_ptr b) a (m_ptr c) d k\<rparr>) # C) X w t \<Longrightarrow> Q () t"
  shows "wp (memcpy_buf p a q d k) Q s"
  using own_buf [OF assms(1), of p b] own_buf [OF assms(1,2)] assms(3,4) own_set_buf [OF assms(1)]
  by (auto simp: memcpy_buf_def wp_simps intro!: assms(5))

lemma own_upd_buf:
  assumes "own U n ((p, b) # C) X w s" "m_size (f b) = m_size b"
    and "\<And>t. own U n ((p, f b) # C) X w t \<Longrightarrow> Q () t"
  shows "wp (upd_buf p f) Q s"
  using own_buf [OF assms(1), of p b] assms(2) own_set_buf [OF assms(1)]
  by (auto simp: upd_buf_def wp_simps intro!: assms(3))

lemma own_set_fd [own_intros]:
  assumes "own U n ((p, b) # C) X w s" "\<And>t. own U n ((p, b\<lparr>m_fd := fd\<rparr>) # C) X w t \<Longrightarrow> Q () t"
  shows "wp (set_fd p fd) Q s"
  unfolding set_fd_def by (rule own_upd_buf [OF assms(1)]) (simp_all add: Buf_setfd_def assms(2))

lemma own_set_size [own_intros]:
  assumes "own U n ((p, b) # C) X w s" "\<And>t. own U n ((p, b\<lparr>m_used := k\<rparr>) # C) X w t \<Longrightarrow> Q () t"
  shows "wp (set_size p k) Q s"
  unfolding set_size_def by (rule own_upd_buf [OF assms(1)]) (simp_all add: Buf_setsize_def assms(2))

lemma own_buf_reset [own_intros]:
  assumes "own U n ((p, b) # C) X w s" "\<And>t. own U n ((p, Buf_reset b) # C) X w t \<Longrightarrow> Q () t"
  shows "wp (buf_reset p) Q s"
  unfolding buf_reset_def by (rule own_upd_buf [OF assms(1)]) (simp_all add: Buf_reset_def assms(2))

lemma own_get_fd [own_intros]:
  assumes "own U n C X w s" "(p, b) \<in> set C" "Q (m_fd b) s"
  shows "wp (get_fd p) Q s"
  using own_buf [OF assms(1,2)] assms(3) by (simp add: get_fd_def wp_simps)

lemma own_get_size [own_intros]:
  assumes "own U n C X w s" "(p, b) \<in> set C" "Q (m_used b) s"
  shows "wp (get_size p) Q s"
  using own_buf [OF assms(1,2)] assms(3) by (simp add: get_size_def wp_simps)

lemma offset_head [simp]: "offsetof sSubmitData ''cLen'' = 0" "offsetof sSubmitData ''cType'' = 4"
  by simp_all

lemma own_head_cLen [own_intros]:
  assumes "own U n C X w s" "(p, b) \<in> set C" "Q (get32 (m_ptr b) 0) s"
  shows "wp (head_cLen p) Q s"
  unfolding head_cLen_def by (rule own_rd32 [OF assms(1,2)]) (simp_all add: MAX_BUF_def assms(3))

lemma own_head_cType [own_intros]:
  assumes "own U n C X w s" "(p, b) \<in> set C" "Q (get32 (m_ptr b) 4) s"
  shows "wp (head_cType p) Q s"
  unfolding head_cType_def by (rule own_rd32 [OF assms(1,2)]) (simp_all add: MAX_BUF_def assms(3))

lemma own_set_cLen [own_intros]:
  assumes "own U n ((p, b) # C) X w s"
    and "\<And>t. own U n ((p, b\<lparr>m_ptr := put32 (m_ptr b) 0 v\<rparr>) # C) X w t \<Longrightarrow> Q () t"
  shows "wp (set_cLen p v) Q s"
  unfolding set_cLen_def by (rule own_wr32 [OF assms(1)]) (simp_all add: MAX_BUF_def assms(2))

lemma own_set_cType [own_intros]:
  assumes "own U n ((p, b) # C) X w s"
    and "\<And>t. own U n ((p, b\<lparr>m_ptr := put32 (m_ptr b) 4 v\<rparr>) # C) X w t \<Longrightarrow> Q () t"
  shows "wp (set_cType p v) Q s"
  unfolding set_cType_def by (rule own_wr32 [OF assms(1)]) (simp_all add: MAX_BUF_def assms(2))

lemma own_pool_malloc [own_intros]:
  assumes "own U (Suc n) C X w s"
    and "\<And>q b t. own U n ((q, b) # C) X w t \<Longrightarrow> q \<noteq> NULL \<Longrightarrow> m_size b = MAX_BUF \<Longrightarrow> Q q t"
  shows "wp pool_malloc Q s"
proof -
  obtain q r where qr: "pool_queue (bufpool s) = q # r"
    using assms(1) by (cases "pool_queue (bufpool s)") (auto simp: own_def avail_def)
  define t where "t = s\<lparr>bufpool := (bufpool s)\<lparr>pool_queue := r\<rparr>\<rparr>"
  have pm: "PoolT_malloc (bufpool s) = Some (q, (bufpool s)\<lparr>pool_queue := r\<rparr>)"
    by (simp add: PoolT_malloc_def qr)
  have h: "held U (q # map fst C) w t"
    using own_held [OF assms(1)] bal_malloc [OF _ pm] by (auto simp: held_def world_def t_def)
  then obtain b where b: "q \<noteq> NULL" "bufs t q = Some b" "m_size b = MAX_BUF"
    using held_buf [OF h, of q] by auto
  have "sent t = sent s" by (simp add: sent_def packet_def t_def)
  moreover have "Suc n \<le> Suc (avail t)" using assms(1) by (simp add: own_def avail_def t_def qr)
  moreover have "bufs t = bufs s" by (simp add: t_def)
  ultimately have "own U n ((q, b) # C) X w t" using h b assms(1) by (simp add: own_def)
  then have "Q q t" using b(1,3) by (rule assms(2))
  then show ?thesis using pm by (simp add: pool_malloc_def wp_def t_def)
qed

lemma own_pool_free [own_intros]:
  assumes "own U n ((p, b) # C) X w s" "\<And>t. own U (Suc n) C X w t \<Longrightarrow> Q () t"
  shows "wp (pool_free p) Q s"
proof -
  let ?t = "s\<lparr>bufpool := PoolT_free p (bufpool s)\<rparr>"
  have "held U (map fst C) w ?t"
    using own_held [OF assms(1)] bal_free [of U p "map fst C" s] by (auto simp: held_def world_def)
  then have "own U (Suc n) C X w ?t"
    using assms(1) by (simp add: own_def avail_def sent_def packet_def pt.items_enq)
  then show ?thesis by (simp add: pool_free_def wp_simps assms(2))
qed

lemma own_send_enqueue [own_intros]:
  assumes "own U n ((p, b) # C) X w s" "\<And>t. own U n C (X @ [view b]) w t \<Longrightarrow> Q () t"
  shows "wp (send_enqueue p) Q s"
proof -
  let ?t = "s\<lparr>sendqueue := QueueT_enqueue p (sendqueue s)\<rparr>"
  have "held U (map fst C) w ?t"
    using own_held [OF assms(1)] bal_send [of U p "map fst C" s] by (auto simp: held_def world_def)
  then have "own U n C (X @ [view b]) w ?t"
    using assms(1) by (simp add: own_def avail_def sent_def packet_def qt.items_enq)
  then show ?thesis by (simp add: send_enqueue_def wp_simps assms(2))
qed

section \<open>Loops that send one packet per element\<close>

text \<open>A loop that takes a buffer per element, sends one packet with it and goes on.\<close>

lemma own_for_while:
  assumes "own U (n + length xs) C X w s"
    and "\<And>x m Y t. x \<in> set xs \<Longrightarrow> own U (Suc m) C Y w t \<Longrightarrow>
           wp (f x) (\<lambda>r t'. r \<and> own U m C (Y @ [g x]) w t') t"
  shows "wp (for_while xs f) (\<lambda>r t. r \<and> own U n C (X @ map g xs) w t) s"
  using assms
proof (induction xs arbitrary: X s)
  case Nil
  then show ?case by (simp add: wp_simps)
next
  case (Cons x xs)
  have "wp (f x) (\<lambda>r t. r \<and> own U (n + length xs) C (X @ [g x]) w t) s"
    using Cons.prems(1) by (intro Cons.prems(2)) simp_all
  moreover have "wp (for_while xs f) (\<lambda>r t. r \<and> own U n C ((X @ [g x]) @ map g xs) w t) t"
    if "own U (n + length xs) C (X @ [g x]) w t" for t
    using that by (rule Cons.IH) (simp add: Cons.prems(2))
  ultimately have "wp (f x) (\<lambda>r. wp (if r then for_while xs f else ret False)
      (\<lambda>r t. r \<and> own U n C (X @ map g (x # xs)) w t)) s"
    by (elim wp_mono) simp
  then show ?case by (simp add: wp_simps)
qed

lemma own_for_each:
  assumes "own U (n + length xs) C X w s"
    and "\<And>x m Y t. x \<in> set xs \<Longrightarrow> own U (Suc m) C Y w t \<Longrightarrow>
           wp (f x) (\<lambda>_. own U m C (Y @ [g x]) w) t"
  shows "wp (for_each xs f) (\<lambda>_. own U n C (X @ map g xs) w) s"
  using assms
proof (induction xs arbitrary: X s)
  case Nil
  then show ?case by (simp add: wp_simps)
next
  case (Cons x xs)
  have "wp (f x) (\<lambda>_. own U (n + length xs) C (X @ [g x]) w) s"
    using Cons.prems(1) by (intro Cons.prems(2)) simp_all
  moreover have "wp (for_each xs f) (\<lambda>_. own U n C ((X @ [g x]) @ map g xs) w) t"
    if "own U (n + length xs) C (X @ [g x]) w t" for t
    using that by (rule Cons.IH) (simp add: Cons.prems(2))
  ultimately have "wp (f x) (\<lambda>_. wp (for_each xs f) (\<lambda>_. own U n C (X @ map g (x # xs)) w)) s"
    by (elim wp_mono) simp
  then show ?case by (simp add: wp_simps)
qed

section \<open>The bytes of a packet\<close>

text \<open>A packet on the wire with its header fields replaced, and a packet made from its parts.\<close>

definition retype :: "u32 \<Rightarrow> byte list \<Rightarrow> byte list" where
  "retype ct bs = take 4 bs @ le32 ct @ drop 8 bs"

definition msg :: "u32 \<Rightarrow> u32 \<Rightarrow> byte list \<Rightarrow> byte list" where
  "msg len ct body = le32 len @ le32 ct @ body"

lemma bytes_at_split: "bytes_at m a (n + k) = bytes_at m a n @ bytes_at m (a + n) k"
proof -
  have "[a ..< a + (n + k)] = [a ..< a + n] @ [a + n ..< a + n + k]"
    by (metis add.assoc le_add1 upt_add_eq_append)
  then show ?thesis by (simp add: bytes_at_def)
qed

lemma byte_of_get32: "byte_of 0 (get32 m a) = m a" "byte_of 1 (get32 m a) = m (a + 1)"
  "byte_of 2 (get32 m a) = m (a + 2)" "byte_of 3 (get32 m a) = m (a + 3)"
proof -
  have "\<not> bit x (8 + n)" "\<not> bit x (16 + n)" "\<not> bit x (24 + n)" for x :: byte and n
    by (auto dest: bit_imp_le_length)
  then show "byte_of 0 (get32 m a) = m a" "byte_of 1 (get32 m a) = m (a + 1)"
    "byte_of 2 (get32 m a) = m (a + 2)" "byte_of 3 (get32 m a) = m (a + 3)"
    by (auto simp: byte_of_def get32_def bit_eq_iff bit_unsigned_iff bit_drop_bit_eq bit_or_iff
        bit_push_bit_iff)
qed

lemma le32_get32: "le32 (get32 m a) = bytes_at m a 4"
  using byte_of_get32 [of m a] by (simp add: le32_def bytes_at_def upt_rec numeral_eq_Suc)

lemma get32_of_bytes_at: "bytes_at m a 4 = le32 v \<Longrightarrow> get32 m a = v"
proof -
  assume "bytes_at m a 4 = le32 v"
  then have "copy_list m a (le32 (get32 m a)) = copy_list m a (le32 v)" by (simp add: le32_get32)
  then have "get32 (put32 m a (get32 m a)) a = get32 (put32 m a v) a" by (simp add: copy_list_le32)
  then show ?thesis by (simp add: get32_put32)
qed

lemma wire_msg: "8 \<le> n \<Longrightarrow> bytes_at m 0 n = msg (get32 m 0) (get32 m 4) (bytes_at m 8 (n - 8))"
  using bytes_at_split [of m 0 4 "4 + (n - 8)"] bytes_at_split [of m 4 4 "n - 8"]
  by (simp add: msg_def le32_get32)

lemma retype_msg [simp]: "retype ct (msg len ct' body) = msg len ct body"
  by (simp add: retype_def msg_def)

lemma length_msg [simp]: "length (msg len ct body) = 8 + length body"
  by (simp add: msg_def)

text \<open>Writing the type field is \<open>retype\<close> on the wire.\<close>

lemma bytes_at_set_type:
  "8 \<le> n \<Longrightarrow> bytes_at (put32 m 4 ct) 0 n = retype ct (bytes_at m 0 n)"
  by (simp add: wire_msg get32_put32 get32_put32_other bytes_at_put32_other)

lemma bytes_at_copy_mem_le: "k \<le> n \<Longrightarrow> bytes_at (copy_mem dst d src a n) d k = bytes_at src a k"
  by (auto simp: bytes_at_def copy_mem_def intro!: nth_equalityI)

lemma bytes_at_copy_mem_other:
  "b + k \<le> d \<or> d + n \<le> b \<Longrightarrow> bytes_at (copy_mem dst d src a n) b k = bytes_at dst b k"
  by (rule bytes_at_cong) (rule copy_mem_other, auto)

lemmas wire_simps = get32_put32 get32_put32_other bytes_at_put32_other get32_copy_mem_other
  bytes_at_copy_mem_le bytes_at_copy_mem_other

section \<open>The empty pool\<close>

text \<open>An empty pool: \<open>malloc\<close> returns \<open>NULL\<close> and changes nothing.\<close>

lemma pool_malloc_empty: "avail s = 0 \<Longrightarrow> pool_malloc s = Inr (NULL, s)"
  by (simp add: pool_malloc_def PoolT_malloc_def avail_def)

end
