(* ===== verification/DataTool.thy ===== *)
theory DataTool
  imports Server_State
begin

text \<open>
  \<open>content/DataTool.cpp\<close>: a picture of the build-a-house game packed into the decimal digits of
  one \<open>long long\<close>.  Packing (\<open>setData\<close>) is arithmetic, unpacking (the getters) cuts the decimal
  string into pieces and reads each with a \<open>stringstream\<close>.  Single-precision numbers are
  modelled on their bit patterns, with the rounding of the two operations the code performs on
  them (times 10 and divided by 10) and the truncating conversion to integers; a conversion
  that does not fit gives the most negative value, as the processor's instruction does.
\<close>

section \<open>Single-precision numbers\<close>

text \<open>Sign, significand and exponent of a bit pattern; \<open>None\<close> for infinities and NaNs.\<close>

definition f32_parts :: "u32 \<Rightarrow> (bool \<times> int \<times> int) option" where
  "f32_parts w = (let n = uint w; e = n div 2 ^ 23 mod 256; m = n mod 2 ^ 23 in
     if e = 255 then None
     else Some (2 ^ 31 \<le> n, if e = 0 then m else m + 2 ^ 23, if e = 0 then -149 else e - 150))"

text \<open>The magnitude \<open>M * 2 ^ E\<close> cut to an integer.\<close>

definition trunc_mag :: "int \<Rightarrow> int \<Rightarrow> int" where
  "trunc_mag M E = (if 0 \<le> E then M * 2 ^ nat E else M div 2 ^ nat (- E))"

definition in_range :: "nat \<Rightarrow> int \<Rightarrow> bool" where
  "in_range w v \<longleftrightarrow> - (2 ^ (w - 1)) \<le> v \<and> v < 2 ^ (w - 1)"

text \<open>\<open>(int) x\<close>.\<close>

definition f32_to_int :: "u32 \<Rightarrow> u32" where
  "f32_to_int w = (case f32_parts w of None \<Rightarrow> 2147483648
     | Some (neg, M, E) \<Rightarrow> (let v = (if neg then - trunc_mag M E else trunc_mag M E) in
         if in_range 32 v then word_of_int v else 2147483648))"

text \<open>Round a significand to at most 24 bits, to nearest, ties to even: the new significand and
  how far the exponent moved.  Thirty rounds are more than a product of a 24-bit significand
  and 10 needs.\<close>

fun bits_over :: "nat \<Rightarrow> int \<Rightarrow> nat" where
  "bits_over 0 P = 0"
| "bits_over (Suc f) P = (if P < 2 ^ 24 then 0 else Suc (bits_over f (P div 2)))"

definition round_even :: "int \<Rightarrow> int \<Rightarrow> int" where
  "round_even P d = (let q = P div d; r = P mod d in
     if 2 * r < d \<or> (2 * r = d \<and> even q) then q else q + 1)"

text \<open>\<open>(long long) (x * 10)\<close> for a \<open>float x\<close>.\<close>

definition f32_mul10_to_ll :: "u32 \<Rightarrow> u64" where
  "f32_mul10_to_ll w = (case f32_parts w of None \<Rightarrow> 9223372036854775808
     | Some (neg, M, E) \<Rightarrow> (let k = bits_over 30 (M * 10); m = round_even (M * 10) (2 ^ k);
          v = (if neg then - trunc_mag m (E + int k) else trunc_mag m (E + int k)) in
         if in_range 64 v then word_of_int v else 9223372036854775808))"

text \<open>The \<open>float\<close> that reading the digits of a small number gives (\<open>n < 2 ^ 24\<close>, exact).\<close>

fun ilog2 :: "nat \<Rightarrow> int \<Rightarrow> nat" where
  "ilog2 0 n = 0"
| "ilog2 (Suc f) n = (if n < 2 then 0 else Suc (ilog2 f (n div 2)))"

definition f32_pos_of_int :: "int \<Rightarrow> u32" where
  "f32_pos_of_int n = (if n = 0 then 0 else
     let k = ilog2 24 n in word_of_int ((int k + 127) * 2 ^ 23 + (n * 2 ^ (23 - k) - 2 ^ 23)))"

definition f32_of_int :: "int \<Rightarrow> u32" where
  "f32_of_int n = (if n < 0 then 2147483648 + f32_pos_of_int (- n) else f32_pos_of_int n)"

text \<open>\<open>x /= 10\<close> for a \<open>float\<close> that holds the integer \<open>n\<close>, \<open>\<bar>n\<bar> < 100\<close>: the quotient to 24 bits.\<close>

fun div10_shift :: "nat \<Rightarrow> int \<Rightarrow> nat" where
  "div10_shift 0 n = 0"
| "div10_shift (Suc f) n = (if 2 ^ 23 * 10 \<le> n then 0 else Suc (div10_shift f (2 * n)))"

definition f32_div10 :: "int \<Rightarrow> u32" where
  "f32_div10 n = (if n = 0 then 0 else
     let a = \<bar>n\<bar>; k = div10_shift 30 a; q = round_even (a * 2 ^ k) 10;
         w = word_of_int ((150 - int k) * 2 ^ 23 + (q - 2 ^ 23)) in
     if n < 0 then 2147483648 + w else w)"

section \<open>Pictures\<close>

record Picture =
  pic_x :: u32
  pic_y :: u32
  pic_angle :: u32
  pic_scale :: u32
  pic_name :: u16
  pic_layer :: u32
  pic_studentId :: u32

text \<open>\<open>setData\<close> adds the fields up; the three coordinates are multiplied as \<open>int\<close>.\<close>

definition DataTool_setData :: "Picture \<Rightarrow> u64 \<Rightarrow> u64" where
  "DataTool_setData pic d = d
     + scast (f32_to_int (pic_x pic))
     + scast (f32_to_int (pic_y pic) * 1000)
     + scast (f32_to_int (pic_angle pic) * 1000000)
     + f32_mul10_to_ll (pic_scale pic) * 1000000000
     + scast (pic_name pic) * 100000000000
     + scast (pic_layer pic) * 1000000000000000
     + scast (pic_studentId pic) * 100000000000000000"

text \<open>A tool made from a picture starts with \<open>m_data = 0\<close>; every call of \<open>getData\<close> adds again.\<close>

definition DataTool_getData :: "Picture \<Rightarrow> u64 \<Rightarrow> u64 \<times> u64" where
  "DataTool_getData pic d = (let d' = DataTool_setData pic d in (d', d'))"

section \<open>The decimal string\<close>

text \<open>A decimal string is the list of its digits, first digit first, with the sign apart.\<close>

function dec_digits :: "nat \<Rightarrow> nat list" where
  "dec_digits n = (if n < 10 then [n] else dec_digits (n div 10) @ [n mod 10])"
  by pat_completeness auto
termination by (relation "measure id") auto

declare dec_digits.simps [simp del]

datatype dchar = Sign | Dig nat

definition DataTool_getString :: "u64 \<Rightarrow> dchar list" where
  "DataTool_getString d = (let v = sint d in
     (if v < 0 then [Sign] else []) @ map Dig (dec_digits (nat \<bar>v\<bar>)))"

text \<open>\<open>string (m_sdata, pos, n)\<close> with \<open>pos\<close> counted from the end; a position before the start
  throws \<open>out_of_range\<close> (\<open>None\<close>).\<close>

definition cut :: "dchar list \<Rightarrow> nat \<Rightarrow> nat \<Rightarrow> dchar list option" where
  "cut sd back n = (if length sd < back then None else Some (take n (drop (length sd - back) sd)))"

text \<open>\<open>ss >> v\<close>: an optional sign and the digits that follow; without a digit the extraction fails
  and stores 0.\<close>

fun read_digits :: "nat \<Rightarrow> dchar list \<Rightarrow> nat" where
  "read_digits a (Dig d # cs) = read_digits (10 * a + d) cs"
| "read_digits a cs = a"

fun read_int :: "dchar list \<Rightarrow> int" where
  "read_int (Sign # cs) = - int (read_digits 0 cs)"
| "read_int cs = int (read_digits 0 cs)"

definition DataTool_getX :: "dchar list \<Rightarrow> u32 option" where
  "DataTool_getX sd = map_option (\<lambda>c. f32_of_int (read_int c)) (cut sd 3 3)"

definition DataTool_getY :: "dchar list \<Rightarrow> u32 option" where
  "DataTool_getY sd = map_option (\<lambda>c. f32_of_int (read_int c)) (cut sd 6 3)"

definition DataTool_getAngle :: "dchar list \<Rightarrow> u32 option" where
  "DataTool_getAngle sd = map_option (\<lambda>c. f32_of_int (read_int c)) (cut sd 9 3)"

definition DataTool_getScale :: "dchar list \<Rightarrow> u32 option" where
  "DataTool_getScale sd = map_option (\<lambda>c. f32_div10 (read_int c)) (cut sd 11 2)"

definition DataTool_getName :: "dchar list \<Rightarrow> u16 option" where
  "DataTool_getName sd = map_option (\<lambda>c. word_of_int (read_int c)) (cut sd 15 4)"

definition DataTool_getLayer :: "dchar list \<Rightarrow> u32 option" where
  "DataTool_getLayer sd = map_option (\<lambda>c. word_of_int (read_int c)) (cut sd 17 2)"

definition DataTool_getStudentId :: "dchar list \<Rightarrow> u32 option" where
  "DataTool_getStudentId sd = map_option (\<lambda>c. word_of_int (read_int c))
     (if length sd \<noteq> 18 then cut sd 19 2 else cut sd 18 1)"

text \<open>\<open>None\<close>: one of the pieces starts before the string, and \<open>getPicture\<close> throws.\<close>

definition DataTool_getPicture :: "dchar list \<Rightarrow> Picture option" where
  "DataTool_getPicture sd =
     (case DataTool_getAngle sd of None \<Rightarrow> None | Some an \<Rightarrow>
      case DataTool_getLayer sd of None \<Rightarrow> None | Some la \<Rightarrow>
      case DataTool_getName sd of None \<Rightarrow> None | Some na \<Rightarrow>
      case DataTool_getScale sd of None \<Rightarrow> None | Some sc \<Rightarrow>
      case DataTool_getX sd of None \<Rightarrow> None | Some x \<Rightarrow>
      case DataTool_getY sd of None \<Rightarrow> None | Some y \<Rightarrow>
      case DataTool_getStudentId sd of None \<Rightarrow> None | Some sid \<Rightarrow>
        Some \<lparr>pic_x = x, pic_y = y, pic_angle = an, pic_scale = sc, pic_name = na, pic_layer = la,
              pic_studentId = sid\<rparr>)"

section \<open>getSname\<close>

fun dec_chars :: "nat \<Rightarrow> string" where
  "dec_chars n = map (\<lambda>d. char_of (48 + d)) (dec_digits n)"

text \<open>\<open>short\<close> division truncates; a group without an entry in \<open>sort\<close> gives the empty name.\<close>

definition getSname :: "u16 \<Rightarrow> string" where
  "getSname n = (let v = sint n; q = (if v < 0 then - (- v div 1000) else v div 1000); r = v - 1000 * q in
     (if q = 1 then ''MakeHouse/Construct/construct''
      else if q = 2 then ''MakeHouse/Accessory/animal''
      else if q = 3 then ''MakeHouse/Other/plant'' else '''')
     @ (if r < 0 then ''-'' else '''') @ dec_chars (nat \<bar>r\<bar>) @ ''.png'')"

section \<open>The string pieces are the quotients and remainders of the number\<close>

definition num :: "nat list \<Rightarrow> nat" where
  "num ds = foldl (\<lambda>a d. 10 * a + d) 0 ds"

lemma foldl_num: "foldl (\<lambda>a d. 10 * a + d) a ds = a * 10 ^ length ds + num ds"
proof (induction ds arbitrary: a)
  case (Cons d ds)
  have "num (d # ds) = d * 10 ^ length ds + num ds" using Cons.IH [of d] by (simp add: num_def)
  then show ?case using Cons.IH [of "10 * a + d"] by (simp add: algebra_simps)
qed (simp add: num_def)

lemma num_Cons: "num (d # ds) = d * 10 ^ length ds + num ds"
  using foldl_num [of d ds] by (simp add: num_def)

lemma num_append: "num (xs @ ys) = num xs * 10 ^ length ys + num ys"
  using foldl_num [of "num xs" ys] by (simp add: num_def)

lemma num_bound: "\<forall>d \<in> set ds. d < 10 \<Longrightarrow> num ds < 10 ^ length ds"
proof (induction ds rule: rev_induct)
  case (snoc d ds)
  then have "num ds < 10 ^ length ds" "d < 10" by simp_all
  then show ?case by (simp add: num_append num_def)
qed (simp add: num_def)

lemma dec_digits_props: "num (dec_digits n) = n \<and> (\<forall>d \<in> set (dec_digits n). d < 10)"
proof (induction n rule: dec_digits.induct)
  case (1 n)
  show ?case
  proof (cases "n < 10")
    case True
    then show ?thesis by (simp add: dec_digits.simps [of n] num_def)
  next
    case False
    with 1 have "num (dec_digits (n div 10)) = n div 10" "\<forall>d \<in> set (dec_digits (n div 10)). d < 10" by auto
    with False show ?thesis by (auto simp: dec_digits.simps [of n] num_append num_def [of "[_]"])
  qed
qed

lemma length_dec_digits: "0 < k \<Longrightarrow> length (dec_digits n) \<le> k \<longleftrightarrow> n < 10 ^ k"
proof (induction k arbitrary: n)
  case (Suc k)
  show ?case
  proof (cases "n < 10")
    case True
    moreover have "n < 10 * 10 ^ k" using True by (rule less_le_trans) simp
    ultimately show ?thesis by (simp add: dec_digits.simps [of n])
  next
    case False
    show ?thesis
    proof (cases "k = 0")
      case True
      have "dec_digits (n div 10) \<noteq> []" by (subst dec_digits.simps) simp
      with True False show ?thesis by (simp add: dec_digits.simps [of n])
    next
      case k: False
      have "n div 10 < 10 ^ k \<longleftrightarrow> n < 10 * 10 ^ k" by (simp add: div_less_iff_less_mult mult.commute)
      with k False show ?thesis using Suc.IH [of "n div 10"] by (simp add: dec_digits.simps [of n])
    qed
  qed
qed simp

lemma num_drop:
  assumes "\<forall>d \<in> set ds. d < 10" "j \<le> length ds"
  shows "num (drop (length ds - j) ds) = num ds mod 10 ^ j"
    and "num (take (length ds - j) ds) = num ds div 10 ^ j"
proof -
  let ?t = "take (length ds - j) ds" and ?d = "drop (length ds - j) ds"
  have "num ds = num ?t * 10 ^ j + num ?d"
    using num_append [of ?t ?d] assms(2) by simp
  moreover have "num ?d < 10 ^ j"
    using num_bound [of ?d] assms by (auto dest: in_set_dropD)
  ultimately show "num ?d = num ds mod 10 ^ j" "num ?t = num ds div 10 ^ j" by simp_all
qed

lemma num_piece:
  assumes "\<forall>d \<in> set ds. d < 10" "j \<le> length ds" "k \<le> j"
  shows "num (take k (drop (length ds - j) ds)) = num ds div 10 ^ (j - k) mod 10 ^ k"
proof -
  let ?d = "drop (length ds - j) ds"
  have l: "length ?d = j" using assms(2) by simp
  have "num (take k ?d) = num ?d div 10 ^ (j - k)"
    using num_drop(2) [of ?d "j - k"] assms(1,3) l by (auto dest: in_set_dropD)
  also have "\<dots> = (num ds mod 10 ^ j) div 10 ^ (j - k)"
    using num_drop(1) assms by simp
  also have "\<dots> = num ds div 10 ^ (j - k) mod 10 ^ k"
    using assms(3) mod_mult2_eq [of "num ds" "10 ^ (j - k)" "10 ^ k"]
    by (simp flip: power_add)
  finally show ?thesis .
qed

lemma read_digits_num: "read_digits a (map Dig ds) = a * 10 ^ length ds + num ds"
proof (induction ds arbitrary: a)
  case (Cons d ds)
  show ?case using Cons.IH by (simp add: num_Cons algebra_simps)
qed (simp add: num_def)

lemma read_int_num: "read_int (map Dig ds) = int (num ds)"
  using read_digits_num [of 0 ds] by (cases ds) simp_all

definition digits_of :: "nat \<Rightarrow> dchar list" where
  "digits_of n = map Dig (dec_digits n)"

text \<open>A piece of the string, read back, is a quotient reduced by a power of ten.\<close>

lemma cut_digits_of:
  assumes "10 ^ (j - 1) \<le> n" "0 < j" "k \<le> j"
  shows "\<exists>c. cut (digits_of n) j k = Some c \<and> read_int c = int (n div 10 ^ (j - k) mod 10 ^ k)"
proof -
  have j: "j \<le> length (dec_digits n)"
  proof (cases "j = 1")
    case True
    have "dec_digits n \<noteq> []" by (subst dec_digits.simps) simp
    then show ?thesis using True by (cases "dec_digits n") auto
  next
    case False
    with assms length_dec_digits [of "j - 1" n] show ?thesis by auto
  qed
  let ?c = "take k (drop (length (dec_digits n) - j) (dec_digits n))"
  have "cut (digits_of n) j k = Some (map Dig ?c)"
    using j by (simp add: cut_def digits_of_def take_map drop_map)
  moreover have "num ?c = n div 10 ^ (j - k) mod 10 ^ k"
    using num_piece [OF _ j assms(3)] dec_digits_props [of n] by simp
  ultimately show ?thesis by (simp add: read_int_num)
qed

section \<open>Decoding\<close>

lemma studentId_digits:
  assumes "10 ^ 17 \<le> n" "n < 10 ^ 19"
  shows "DataTool_getStudentId (digits_of n) = Some (word_of_int (int (n div 10 ^ 17)))"
proof (cases "length (dec_digits n) = 18")
  case True
  then have "n < 10 ^ 18" using length_dec_digits [of 18 n] by simp
  then have "n div 10 ^ 17 mod 10 ^ 1 = n div 10 ^ 17" by simp
  moreover obtain c where "cut (digits_of n) 18 1 = Some c" "read_int c = int (n div 10 ^ (18 - 1) mod 10 ^ 1)"
    using cut_digits_of [of 18 n 1] assms by auto
  ultimately show ?thesis using True by (simp add: DataTool_getStudentId_def digits_of_def)
next
  case False
  then have "10 ^ 18 \<le> n"
    using length_dec_digits [of 17 n] length_dec_digits [of 18 n] assms by (simp add: not_less [symmetric])
  moreover have "n div 10 ^ 17 mod 10 ^ 2 = n div 10 ^ 17"
    using assms(2) by simp
  moreover obtain c where "cut (digits_of n) 19 2 = Some c" "read_int c = int (n div 10 ^ (19 - 2) mod 10 ^ 2)"
    using cut_digits_of [of 19 n 2] \<open>10 ^ 18 \<le> n\<close> by auto
  ultimately show ?thesis using False by (simp add: DataTool_getStudentId_def digits_of_def)
qed

lemma getPicture_digits:
  assumes "10 ^ 17 \<le> n" "n < 10 ^ 19"
  shows "DataTool_getPicture (digits_of n) = Some
    \<lparr>pic_x = f32_of_int (int (n mod 10 ^ 3)), pic_y = f32_of_int (int (n div 10 ^ 3 mod 10 ^ 3)),
     pic_angle = f32_of_int (int (n div 10 ^ 6 mod 10 ^ 3)), pic_scale = f32_div10 (int (n div 10 ^ 9 mod 10 ^ 2)),
     pic_name = word_of_int (int (n div 10 ^ 11 mod 10 ^ 4)), pic_layer = word_of_int (int (n div 10 ^ 15 mod 10 ^ 2)),
     pic_studentId = word_of_int (int (n div 10 ^ 17))\<rparr>"
proof -
  have piece: "map_option (\<lambda>c. f (read_int c)) (cut (digits_of n) j k) = Some (f (int (n div 10 ^ (j - k) mod 10 ^ k)))"
    if "j \<le> 17" "0 < j" "k \<le> j" for f :: "int \<Rightarrow> 'a" and j k
  proof -
    have "(10::nat) ^ (j - 1) \<le> 10 ^ 17" using that(1) by (intro power_increasing) auto
    with assms(1) have "10 ^ (j - 1) \<le> n" by (rule order_trans [rotated])
    from cut_digits_of [OF this that(2,3)] show ?thesis by auto
  qed
  have "DataTool_getX (digits_of n) = Some (f32_of_int (int (n mod 10 ^ 3)))"
    using piece [of 3 3 f32_of_int] by (simp add: DataTool_getX_def)
  moreover have "DataTool_getY (digits_of n) = Some (f32_of_int (int (n div 10 ^ 3 mod 10 ^ 3)))"
    using piece [of 6 3 f32_of_int] by (simp add: DataTool_getY_def)
  moreover have "DataTool_getAngle (digits_of n) = Some (f32_of_int (int (n div 10 ^ 6 mod 10 ^ 3)))"
    using piece [of 9 3 f32_of_int] by (simp add: DataTool_getAngle_def)
  moreover have "DataTool_getScale (digits_of n) = Some (f32_div10 (int (n div 10 ^ 9 mod 10 ^ 2)))"
    using piece [of 11 2 f32_div10] by (simp add: DataTool_getScale_def)
  moreover have "DataTool_getName (digits_of n) = Some (word_of_int (int (n div 10 ^ 11 mod 10 ^ 4)))"
    using piece [of 15 4 word_of_int] by (simp add: DataTool_getName_def)
  moreover have "DataTool_getLayer (digits_of n) = Some (word_of_int (int (n div 10 ^ 15 mod 10 ^ 2)))"
    using piece [of 17 2 word_of_int] by (simp add: DataTool_getLayer_def)
  ultimately show ?thesis
    by (simp only: DataTool_getPicture_def studentId_digits [OF assms] option.case)
qed

lemma getString_positive: "0 \<le> sint d \<Longrightarrow> DataTool_getString d = digits_of (nat (sint d))"
  by (simp add: DataTool_getString_def digits_of_def)

text \<open>A number without an owner (less than 18 digits) cannot be unpacked: the student id is cut from
  before the start of the string.\<close>

lemma getPicture_short: "length sd < 18 \<Longrightarrow> DataTool_getPicture sd = None"
  by (auto simp: DataTool_getPicture_def DataTool_getStudentId_def cut_def split: option.splits)

section \<open>Packing\<close>

lemma ilog2_bounds: "0 < n \<Longrightarrow> n < 2 ^ f \<Longrightarrow> 2 ^ ilog2 f n \<le> n \<and> n < 2 * 2 ^ ilog2 f n \<and> ilog2 f n < f"
proof (induction f n rule: ilog2.induct)
  case (2 f n)
  then show ?case
  proof (cases "n < 2")
    case False
    with 2 have "2 ^ ilog2 f (n div 2) \<le> n div 2 \<and> n div 2 < 2 * 2 ^ ilog2 f (n div 2) \<and> ilog2 f (n div 2) < f"
      by simp
    then show ?thesis using False by auto
  qed auto
qed auto

text \<open>A pattern put together from an exponent and a full 24-bit significand.\<close>

lemma f32_parts_make:
  assumes "2 ^ 23 \<le> M" "M < 2 * 2 ^ 23" "0 < e" "e < 255"
  shows "f32_parts (word_of_int (e * 2 ^ 23 + (M - 2 ^ 23))) = Some (False, M, e - 150)"
proof -
  define w :: int where "w = e * 2 ^ 23 + (M - 2 ^ 23)"
  have w: "0 \<le> w" "w < 2 ^ 31" using assms by (simp_all add: w_def)
  have m: "w mod 2 ^ 23 = M - 2 ^ 23"
    using assms unfolding w_def mod_mult_self3 by (intro mod_pos_pos_trivial) simp_all
  moreover have "w div 2 ^ 23 * 2 ^ 23 + w mod 2 ^ 23 = w" by (rule div_mult_mod_eq)
  ultimately have d: "w div 2 ^ 23 = e" by (simp add: w_def)
  have "uint (word_of_int w :: u32) = w" using w by (simp add: uint_word_of_int)
  then have "f32_parts (word_of_int w) = Some (False, M, e - 150)"
    using m d w assms(3,4) by (simp add: f32_parts_def Let_def)
  then show ?thesis by (simp only: w_def)
qed

lemma f32_parts_pos_of_int:
  assumes "0 < n" "n < 2 ^ 24"
  shows "f32_parts (f32_pos_of_int n) = Some (False, n * 2 ^ (23 - ilog2 24 n), int (ilog2 24 n) - 23)"
proof -
  define k where "k = ilog2 24 n"
  have k: "2 ^ k \<le> n" "n < 2 * 2 ^ k" "k \<le> 23" using ilog2_bounds [OF assms] by (auto simp: k_def)
  have p: "(2::int) ^ 23 = 2 ^ k * 2 ^ (23 - k)" using k(3) by (simp flip: power_add)
  have "2 ^ 23 \<le> n * 2 ^ (23 - k)" "n * 2 ^ (23 - k) < 2 * 2 ^ 23"
    unfolding p using k by (simp_all add: mult_strict_right_mono)
  from f32_parts_make [OF this, of "int k + 127"] show ?thesis
    using k(3) assms(1) by (simp add: f32_pos_of_int_def Let_def k_def [symmetric])
qed

lemma trunc_mag_exact: "trunc_mag (n * 2 ^ j) (- int j) = n"
  by (cases j) (simp_all add: trunc_mag_def del: power_Suc of_nat_Suc)

text \<open>Reading an integer into a \<open>float\<close> and truncating it back is exact below \<open>2 ^ 24\<close>.\<close>

lemma f32_to_int_of_int:
  assumes "0 \<le> n" "n < 2 ^ 24"
  shows "f32_to_int (f32_of_int n) = word_of_int n"
proof (cases "n = 0")
  case True
  then show ?thesis by (simp add: f32_of_int_def f32_pos_of_int_def f32_to_int_def f32_parts_def
        trunc_mag_def in_range_def)
next
  case False
  define k where "k = ilog2 24 n"
  have "k \<le> 23" using ilog2_bounds [of n 24] False assms by (simp add: k_def)
  then have "int k - 23 = - int (23 - k)" by simp
  then have "trunc_mag (n * 2 ^ (23 - k)) (int k - 23) = n" by (simp only: trunc_mag_exact)
  then show ?thesis using False assms f32_parts_pos_of_int [of n]
    by (simp add: f32_to_int_def f32_of_int_def in_range_def k_def)
qed

text \<open>A number of tenths survives the division by 10 and the multiplication by 10, although
  neither is exact: the ninety-nine cases are evaluated on the significands.\<close>

definition tenth_exact :: "int \<Rightarrow> bool" where
  "tenth_exact n = (let k = div10_shift 30 n; q = round_even (n * 2 ^ k) 10;
     j = bits_over 30 (q * 10); m = round_even (q * 10) (2 ^ j) in
     2 ^ 23 \<le> q \<and> q < 2 * 2 ^ 23 \<and> j \<le> k \<and> m div 2 ^ (k - j) = n)"

lemma tenth_exact_upto: "list_all tenth_exact [1 .. 99]"
  by code_simp

lemma div10_shift_le: "div10_shift f n \<le> f"
  by (induction f n rule: div10_shift.induct) auto

lemma f32_mul10_div10:
  assumes "0 \<le> n" "n < 100"
  shows "f32_mul10_to_ll (f32_div10 n) = word_of_int n"
proof (cases "n = 0")
  case True
  have "f32_mul10_to_ll (f32_div10 0) = 0" by code_simp
  with True show ?thesis by simp
next
  case False
  define k where "k = div10_shift 30 n"
  define q where "q = round_even (n * 2 ^ k) 10"
  define j where "j = bits_over 30 (q * 10)"
  define m where "m = round_even (q * 10) (2 ^ j)"
  have "tenth_exact n" using tenth_exact_upto False assms by (simp add: list_all_iff)
  then have q: "2 ^ 23 \<le> q" "q < 2 * 2 ^ 23" "j \<le> k" and n: "m div 2 ^ (k - j) = n"
    by (simp_all add: tenth_exact_def Let_def k_def q_def j_def m_def)
  have k: "k \<le> 30" by (simp add: k_def div10_shift_le)
  have "f32_parts (f32_div10 n) = Some (False, q, - int k)"
    using f32_parts_make [OF q(1,2), of "150 - int k"] k False assms(1)
    by (simp add: f32_div10_def Let_def k_def [symmetric] q_def [symmetric])
  moreover have "trunc_mag m (- int k + int j) = n"
    using n q(3) by (cases "j = k") (simp_all add: trunc_mag_def nat_diff_distrib')
  ultimately show ?thesis using assms
    by (simp add: f32_mul10_to_ll_def Let_def in_range_def j_def [symmetric] m_def [symmetric])
qed

section \<open>The round trip\<close>

text \<open>The picture with position \<open>(x, y)\<close>, angle \<open>a\<close>, \<open>s\<close> tenths of scale, name \<open>n\<close>, layer \<open>l\<close> and
  owner \<open>sid\<close>, and the number that packs it.\<close>

definition picture_of :: "nat \<Rightarrow> nat \<Rightarrow> nat \<Rightarrow> nat \<Rightarrow> nat \<Rightarrow> nat \<Rightarrow> nat \<Rightarrow> Picture" where
  "picture_of x y a s n l sid = \<lparr>pic_x = f32_of_int (int x), pic_y = f32_of_int (int y),
     pic_angle = f32_of_int (int a), pic_scale = f32_div10 (int s), pic_name = of_nat n,
     pic_layer = of_nat l, pic_studentId = of_nat sid\<rparr>"

definition packed :: "nat \<Rightarrow> nat \<Rightarrow> nat \<Rightarrow> nat \<Rightarrow> nat \<Rightarrow> nat \<Rightarrow> nat \<Rightarrow> nat" where
  "packed x y a s n l sid = x + y * 10 ^ 3 + a * 10 ^ 6 + s * 10 ^ 9 + n * 10 ^ 11 + l * 10 ^ 15 + sid * 10 ^ 17"

definition packable :: "nat \<Rightarrow> nat \<Rightarrow> nat \<Rightarrow> nat \<Rightarrow> nat \<Rightarrow> nat \<Rightarrow> bool" where
  "packable x y a s n l \<longleftrightarrow> x < 1000 \<and> y < 1000 \<and> a < 1000 \<and> s < 100 \<and> n < 10000 \<and> l < 100"

lemma scast_of_nat:
  "m < 2 ^ (LENGTH('a) - 1) \<Longrightarrow> scast (of_nat m :: 'a::len word) = (of_nat m :: 'b::len word)"
proof -
  assume "m < 2 ^ (LENGTH('a) - 1)"
  moreover have "- (2 ^ (LENGTH('a) - Suc 0)) \<le> int m" by (rule order_trans [of _ 0]) simp_all
  ultimately have "sint (of_nat m :: 'a word) = int m"
    by (simp add: signed_of_nat take_bit_int_eq_self_iff signed_take_bit_int_eq_self_iff)
  then show ?thesis by (simp add: scast_eq)
qed

lemma DataTool_getData_packed:
  assumes "packable x y a s n l" "sid < 2 ^ 31"
  shows "fst (DataTool_getData (picture_of x y a s n l sid) 0) = of_nat (packed x y a s n l sid)"
proof -
  note b = assms [unfolded packable_def]
  have *: "scast (f32_to_int (f32_of_int (int v)) * of_nat c) = (of_nat (v * c) :: u64)"
    if "v < 1000" "c \<le> 1000000" for v c
  proof -
    have "v * c \<le> 999 * 1000000" using that by (intro mult_mono) auto
    then have "scast (of_nat (v * c) :: u32) = (of_nat (v * c) :: u64)" by (intro scast_of_nat) simp
    then show ?thesis using that by (simp add: f32_to_int_of_int)
  qed
  have "scast (f32_to_int (f32_of_int (int x))) = (of_nat x :: u64)" using * [of x 1] b by simp
  moreover have "scast (f32_to_int (f32_of_int (int y)) * 1000) = (of_nat y * 1000 :: u64)"
    using * [of y 1000] b by simp
  moreover have "scast (f32_to_int (f32_of_int (int a)) * 1000000) = (of_nat a * 1000000 :: u64)"
    using * [of a 1000000] b by simp
  moreover have "f32_mul10_to_ll (f32_div10 (int s)) = of_nat s" using b by (simp add: f32_mul10_div10)
  moreover have "scast (of_nat n :: u16) = (of_nat n :: u64)" "scast (of_nat l :: u32) = (of_nat l :: u64)"
    "scast (of_nat sid :: u32) = (of_nat sid :: u64)"
    using b by (auto intro: scast_of_nat)
  ultimately show ?thesis
    by (simp add: DataTool_getData_def DataTool_setData_def Let_def picture_of_def packed_def)
qed

lemma packed_bounds:
  assumes "packable x y a s n l" "1 \<le> sid" "sid \<le> 91"
  shows "10 ^ 17 \<le> packed x y a s n l sid" "packed x y a s n l sid < 92 * 10 ^ 17"
  using assms by (simp_all add: packable_def packed_def)

lemma packed_fields:
  fixes sid :: nat
  assumes "packable x y a s n l"
  defines "w \<equiv> packed x y a s n l sid"
  shows "w mod 10 ^ 3 = x" "w div 10 ^ 3 mod 10 ^ 3 = y" "w div 10 ^ 6 mod 10 ^ 3 = a"
    "w div 10 ^ 9 mod 10 ^ 2 = s" "w div 10 ^ 11 mod 10 ^ 4 = n" "w div 10 ^ 15 mod 10 ^ 2 = l"
    "w div 10 ^ 17 = sid"
proof -
  have cons: "(c + d * 10 ^ k) mod 10 ^ k = c" "(c + d * 10 ^ k) div 10 ^ k = d" if "c < 10 ^ k" for c d k :: nat
    using that by simp_all
  note b = assms(1) [unfolded packable_def]
  define v6 where "v6 = l + sid * 10 ^ 2"
  define v5 where "v5 = n + v6 * 10 ^ 4"
  define v4 where "v4 = s + v5 * 10 ^ 2"
  define v3 where "v3 = a + v4 * 10 ^ 3"
  define v2 where "v2 = y + v3 * 10 ^ 3"
  have w: "w = x + v2 * 10 ^ 3"
    by (simp add: w_def packed_def v2_def v3_def v4_def v5_def v6_def)
  have v2: "w div 10 ^ 3 = v2" unfolding w using b by (intro cons) simp
  have v3: "v2 div 10 ^ 3 = v3" unfolding v2_def using b by (intro cons) simp
  have v4: "v3 div 10 ^ 3 = v4" unfolding v3_def using b by (intro cons) simp
  have v5: "v4 div 10 ^ 2 = v5" unfolding v4_def using b by (intro cons) simp
  have v6: "v5 div 10 ^ 4 = v6" unfolding v5_def using b by (intro cons) simp
  have v7: "v6 div 10 ^ 2 = sid" unfolding v6_def using b by (intro cons) simp
  have d: "w div 10 ^ (i + j) = w div 10 ^ i div 10 ^ j" for i j by (simp add: power_add div_mult2_eq)
  have w3: "w div 10 ^ 6 = v3" using d [of 3 3] v2 v3 by simp
  have w4: "w div 10 ^ 9 = v4" using d [of 6 3] w3 v4 by simp
  have w5: "w div 10 ^ 11 = v5" using d [of 9 2] w4 v5 by simp
  have w6: "w div 10 ^ 15 = v6" using d [of 11 4] w5 v6 by simp
  show "w div 10 ^ 17 = sid" using d [of 15 2] w6 v7 by simp
  show "w mod 10 ^ 3 = x" unfolding w using b by (intro cons) simp
  show "w div 10 ^ 3 mod 10 ^ 3 = y" unfolding v2 v2_def using b by (intro cons) simp
  show "w div 10 ^ 6 mod 10 ^ 3 = a" unfolding w3 v3_def using b by (intro cons) simp
  show "w div 10 ^ 9 mod 10 ^ 2 = s" unfolding w4 v4_def using b by (intro cons) simp
  show "w div 10 ^ 11 mod 10 ^ 4 = n" unfolding w5 v5_def using b by (intro cons) simp
  show "w div 10 ^ 15 mod 10 ^ 2 = l" unfolding w6 v6_def using b by (intro cons) simp
qed

lemma picture_back:
  assumes "packable x y a s n l" "1 \<le> sid" "sid \<le> 91"
  shows "DataTool_getPicture (DataTool_getString (fst (DataTool_getData (picture_of x y a s n l sid) 0)))
    = Some (picture_of x y a s n l sid)"
proof -
  let ?w = "packed x y a s n l sid"
  note b = packed_bounds [OF assms]
  have "sint (of_nat ?w :: u64) = int ?w"
    using b(2) by (simp add: signed_of_nat take_bit_int_eq_self_iff signed_take_bit_int_eq_self_iff)
  then have "DataTool_getString (of_nat ?w) = digits_of ?w" by (simp add: getString_positive)
  moreover have "?w < 10 ^ 19" using b(2) by simp
  moreover have "sid < 2 ^ 31" using assms(3) by simp
  ultimately show ?thesis
    by (simp only: DataTool_getData_packed [OF assms(1)] getPicture_digits [OF b(1)] packed_fields [OF assms(1)])
      (simp add: picture_of_def)
qed

text \<open>A picture every field of which fits the digits that the packed form has for it.\<close>

definition packable_picture :: "Picture \<Rightarrow> bool" where
  "packable_picture pic \<longleftrightarrow> (\<exists>x y a s n l sid. packable x y a s n l \<and> 1 \<le> sid \<and> sid \<le> 91
     \<and> pic = picture_of x y a s n l sid)"

lemma packable_pictureI:
  "packable x y a s n l \<Longrightarrow> 1 \<le> sid \<Longrightarrow> sid \<le> 91 \<Longrightarrow> packable_picture (picture_of x y a s n l sid)"
  unfolding packable_picture_def by blast

lemma packable_picture_back:
  "packable_picture pic \<Longrightarrow> DataTool_getPicture (DataTool_getString (fst (DataTool_getData pic 0))) = Some pic"
  unfolding packable_picture_def using picture_back by blast

text \<open>C8: Packing a picture into a 64-bit integer and unpacking it gives the picture back: for coordinates and
  angles of at most three digits, a scale of tenths below ten, a name of four digits, a layer of two
  digits and an owner from 1 to 91 (the owner is the leading digit group of a signed 64-bit number).
  The scale goes through the \<open>float\<close> multiplication and division of the source, rounding included.\<close>

theorem picture_roundtrip:
  assumes "packable x y a s n l" "1 \<le> sid" "sid \<le> 91"
  shows "DataTool_getPicture (DataTool_getString (fst (DataTool_getData (picture_of x y a s n l sid) 0)))
    = Some (picture_of x y a s n l sid)"
  by (rule picture_back [OF assms])

lemma picture_roundtrip_witness:
  "DataTool_getPicture (DataTool_getString (fst (DataTool_getData (picture_of 100 200 45 12 1001 3 7) 0)))
    = Some (picture_of 100 200 45 12 1001 3 7)"
  by (rule picture_roundtrip) (simp_all add: packable_def)

text \<open>A number of fewer than eighteen digits, such as the one a picture without an owner is packed into, is
  refused by \<open>getPicture\<close>: the substring calls of the source throw, whatever the digits are.\<close>

theorem ownerless_refused:
  assumes "packable x y a s n l"
  shows "DataTool_getPicture (DataTool_getString (fst (DataTool_getData (picture_of x y a s n l 0) 0))) = None"
proof -
  let ?w = "packed x y a s n l 0"
  have b: "?w < 10 ^ 17" using assms by (simp add: packable_def packed_def)
  then have "sint (of_nat ?w :: u64) = int ?w"
    by (simp add: signed_of_nat take_bit_int_eq_self_iff signed_take_bit_int_eq_self_iff)
  then have "DataTool_getString (of_nat ?w) = digits_of ?w" by (simp add: getString_positive)
  moreover have "length (digits_of ?w) < 18"
    using length_dec_digits [of 17 ?w] b by (simp add: digits_of_def)
  ultimately show ?thesis
    using DataTool_getData_packed [OF assms, of 0] by (simp add: getPicture_short)
qed

lemma ownerless_refused_witness:
  "DataTool_getPicture (DataTool_getString (fst (DataTool_getData (picture_of 100 200 45 12 1001 3 0) 0))) = None"
  by (rule ownerless_refused) (simp add: packable_def)

end
