(* ===== verification/MakeHouse.thy ===== *)
theory MakeHouse
  imports Delivery DataTool
begin

text \<open>
  \<open>content/makehouse.cpp\<close>: the picture nodes of a house, their stacking order, and the group of
  students that builds it.  The house of a group is reached through the group's address.  The
  stacking list keeps pointers to nodes that \<open>del\<close> and \<open>cleanall\<close> delete; following one of
  them is the fault \<open>DanglingPtr\<close>.
\<close>

section \<open>Access to the house of a group\<close>

definition get_house :: "ptr \<Rightarrow> CMakeHouse act" where
  "get_house g = bnd (deref groups g) (\<lambda>x. ret (m_make_house x))"

definition upd_house :: "ptr \<Rightarrow> (CMakeHouse \<Rightarrow> CMakeHouse) \<Rightarrow> unit act" where
  "upd_house g f = upd_group g (\<lambda>x. x\<lparr>m_make_house := f (m_make_house x)\<rparr>)"

section \<open>CNode\<close>

definition CNode_set_node_id :: "u32 \<Rightarrow> CNode \<Rightarrow> CNode" where
  "CNode_set_node_id i n = n\<lparr>m_node_id := i\<rparr>"

definition CNode_set_sname :: "u16 \<Rightarrow> CNode \<Rightarrow> CNode" where
  "CNode_set_sname v n = n\<lparr>m_sname := v\<rparr>"

definition CNode_set_name :: "cstring \<Rightarrow> CNode \<Rightarrow> CNode" where
  "CNode_set_name v n = n\<lparr>n_name := v\<rparr>"

text \<open>A layer below 1, a negative scale or angle is reported and stored all the same.\<close>

definition CNode_set_layer :: "u32 \<Rightarrow> CNode \<Rightarrow> CNode" where
  "CNode_set_layer v n = n\<lparr>m_layer := v\<rparr>"

definition CNode_set_scale :: "u32 \<Rightarrow> CNode \<Rightarrow> CNode" where
  "CNode_set_scale v n = n\<lparr>m_scale := v\<rparr>"

definition CNode_set_angle :: "u32 \<Rightarrow> CNode \<Rightarrow> CNode" where
  "CNode_set_angle v n = n\<lparr>m_angle := v\<rparr>"

definition CNode_set_student_id :: "u32 \<Rightarrow> CNode \<Rightarrow> CNode" where
  "CNode_set_student_id v n = n\<lparr>m_student_id := v\<rparr>"

definition CNode_get_location :: "CNode \<Rightarrow> u32 \<times> u32 \<times> u32 \<times> u32" where
  "CNode_get_location n = (m_position_x n, m_position_y n, m_angle n, m_scale n)"

lemmas CNode_setters = CNode_set_node_id_def CNode_set_sname_def CNode_set_name_def CNode_set_layer_def
  CNode_set_scale_def CNode_set_angle_def CNode_set_student_id_def CNode_get_location_def

section \<open>CMakeHouse: the node map\<close>

fun find_layer :: "(int \<times> ptr) list \<Rightarrow> u32 \<Rightarrow> int act" where
  "find_layer [] layer = ret (- 1)"
| "find_layer ((k, n) # m) layer =
     bnd (deref nodes n) (\<lambda>x. if CNode.m_layer x = layer then ret k else find_layer m layer)"

definition CMakeHouse_get_node_id_by_layer :: "ptr \<Rightarrow> u32 \<Rightarrow> int act" where
  "CMakeHouse_get_node_id_by_layer g layer = bnd (get_house g) (\<lambda>h. find_layer (m_node_map h) layer)"

definition CMakeHouse_get_layer_by_node_id :: "ptr \<Rightarrow> int \<Rightarrow> u32 act" where
  "CMakeHouse_get_layer_by_node_id g node_id = bnd (get_house g) (\<lambda>h.
     case smap_find (m_node_map h) node_id of
       None \<Rightarrow> ret (- 1)
     | Some n \<Rightarrow> bnd (deref nodes n) (\<lambda>x. ret (CNode.m_layer x)))"

text \<open>The result is 0 for a node that exists, 1 otherwise.\<close>

definition modify_node :: "ptr \<Rightarrow> int \<Rightarrow> (CNode \<Rightarrow> CNode) \<Rightarrow> int act" where
  "modify_node g node_id f = bnd (get_house g) (\<lambda>h.
     case smap_find (m_node_map h) node_id of
       None \<Rightarrow> ret 1
     | Some n \<Rightarrow> sq (upd_node n f) (ret 0))"

definition CMakeHouse_modifyScale :: "ptr \<Rightarrow> int \<Rightarrow> u32 \<Rightarrow> int act" where
  "CMakeHouse_modifyScale g node_id scale = modify_node g node_id (CNode_modifyScale scale)"

definition CMakeHouse_modifyAngle :: "ptr \<Rightarrow> int \<Rightarrow> u32 \<Rightarrow> int act" where
  "CMakeHouse_modifyAngle g node_id angle = modify_node g node_id (CNode_modifyAngle angle)"

definition CMakeHouse_modifyMove :: "ptr \<Rightarrow> int \<Rightarrow> u32 \<Rightarrow> u32 \<Rightarrow> int act" where
  "CMakeHouse_modifyMove g node_id x y = modify_node g node_id (CNode_modifyMove x y)"

text \<open>Both are stubs in the source.\<close>

definition CMakeHouse_lock :: "int \<Rightarrow> int \<Rightarrow> bool" where
  "CMakeHouse_lock client_fd node_id = True"

definition CMakeHouse_unlock :: "int \<Rightarrow> int \<Rightarrow> bool" where
  "CMakeHouse_unlock client_fd node_id = True"

text \<open>\<open>add\<close> appends to the stacking list, prints the layer of every node already in the map, and
  inserts; a node id that is taken keeps its old node.\<close>

definition CMakeHouse_add :: "ptr \<Rightarrow> int \<Rightarrow> ptr \<Rightarrow> int act" where
  "CMakeHouse_add g node_id p_node =
     (if p_node = NULL then ret 1 else
      sq (upd_house g (\<lambda>h. h\<lparr>m_node_layer_list := m_node_layer_list h @ [p_node]\<rparr>))
     (bnd (get_house g) (\<lambda>h.
      sq (for_each (m_node_map h) (\<lambda>(k, n). bnd (deref nodes n) (\<lambda>_. ret ())))
     (sq (upd_house g (\<lambda>h. h\<lparr>m_node_map := smap_insert node_id p_node (m_node_map h)\<rparr>))
         (ret 0)))))"

definition CMakeHouse_del :: "ptr \<Rightarrow> int \<Rightarrow> int act" where
  "CMakeHouse_del g node_id = bnd (get_house g) (\<lambda>h.
     case smap_find (m_node_map h) node_id of
       None \<Rightarrow> ret 1
     | Some n \<Rightarrow>
         sq (delete_obj nodes set_node n)
        (sq (upd_house g (\<lambda>h. h\<lparr>m_node_map := smap_erase node_id (m_node_map h)\<rparr>))
            (ret 0)))"

definition CMakeHouse_cleanall :: "ptr \<Rightarrow> int act" where
  "CMakeHouse_cleanall g = bnd (get_house g) (\<lambda>h.
     sq (for_each (m_node_map h) (\<lambda>(k, n).
           sq (delete_obj nodes set_node n)
              (upd_house g (\<lambda>h. h\<lparr>m_node_map := smap_erase k (m_node_map h)\<rparr>))))
        (bnd (get_house g) (\<lambda>h. ret (if m_node_map h = [] then 0 else 1))))"

section \<open>CMakeHouse: the stacking order\<close>

fun layer_find :: "ptr list \<Rightarrow> u32 \<Rightarrow> nat \<Rightarrow> nat act" where
  "layer_find [] node_id i = ret i"
| "layer_find (n # ns) node_id i =
     bnd (deref nodes n) (\<lambda>x. if m_node_id x = node_id then ret i else layer_find ns node_id (Suc i))"

text \<open>An iterator is a position; the end of the list is its length.\<close>

definition CMakeHouse_get_iterator_by_node_id :: "ptr \<Rightarrow> u32 \<Rightarrow> nat act" where
  "CMakeHouse_get_iterator_by_node_id g node_id =
     bnd (get_house g) (\<lambda>h. layer_find (m_node_layer_list h) node_id 0)"

text \<open>
  \<open>std::swap (*iter, *(iter--))\<close>: C++ leaves open which argument is evaluated first.  When the
  right one is (\<open>rf\<close>), the element trades places with its predecessor; when the left one is,
  both arguments are the old element and nothing is swapped.  The iterator moves either way.
\<close>

definition swap_at :: "nat \<Rightarrow> nat \<Rightarrow> 'a list \<Rightarrow> 'a list" where
  "swap_at i j xs = xs[i := xs ! j, j := xs ! i]"

fun layer_up_loop :: "bool \<Rightarrow> nat \<Rightarrow> ptr list \<Rightarrow> nat \<Rightarrow> int \<Rightarrow> ptr list \<times> int" where
  "layer_up_loop rf 0 xs it i = (xs, i)"
| "layer_up_loop rf (Suc c) xs it i =
     (if it \<noteq> 0 then layer_up_loop rf c (if rf then swap_at (it - 1) it xs else xs) (it - 1) (i + 1)
      else (xs, i))"

definition CMakeHouse_layer_up :: "bool \<Rightarrow> ptr \<Rightarrow> u32 \<Rightarrow> int \<Rightarrow> int act" where
  "CMakeHouse_layer_up rf g node_id cnt =
     bnd (CMakeHouse_get_iterator_by_node_id g node_id) (\<lambda>it.
     bnd (get_house g) (\<lambda>h.
       if it = length (m_node_layer_list h) then ret (- 1)
       else let (xs, i) = layer_up_loop rf (nat cnt) (m_node_layer_list h) it 0 in
         sq (upd_house g (\<lambda>h. h\<lparr>m_node_layer_list := xs\<rparr>)) (ret i)))"

text \<open>Downwards the loop tests for the end before it moves: from the last element it dereferences
  the end of the list when the right argument is evaluated first.\<close>

fun layer_down_loop :: "bool \<Rightarrow> nat \<Rightarrow> ptr list \<Rightarrow> nat \<Rightarrow> int \<Rightarrow> (ptr list \<times> int) option" where
  "layer_down_loop rf 0 xs it i = Some (xs, i)"
| "layer_down_loop rf (Suc c) xs it i =
     (if it < length xs then
        if rf then
          if it + 1 < length xs then layer_down_loop rf c (swap_at (it + 1) it xs) (it + 1) (i + 1) else None
        else layer_down_loop rf c xs (it + 1) (i + 1)
      else Some (xs, i))"

definition CMakeHouse_layer_down :: "bool \<Rightarrow> ptr \<Rightarrow> u32 \<Rightarrow> int \<Rightarrow> int act" where
  "CMakeHouse_layer_down rf g node_id cnt =
     bnd (CMakeHouse_get_iterator_by_node_id g node_id) (\<lambda>it.
     bnd (get_house g) (\<lambda>h.
       if it = length (m_node_layer_list h) then ret (- 1)
       else case layer_down_loop rf (nat cnt) (m_node_layer_list h) it 0 of
         None \<Rightarrow> fail OutOfBounds
       | Some (xs, i) \<Rightarrow> sq (upd_house g (\<lambda>h. h\<lparr>m_node_layer_list := xs\<rparr>)) (ret i)))"

definition CMakeHouse_set_current_layer :: "ptr \<Rightarrow> u32 \<Rightarrow> int act" where
  "CMakeHouse_set_current_layer g layer =
     (if layer < 1 then ret 1
      else sq (upd_house g (\<lambda>h. h\<lparr>m_current_layer := layer\<rparr>)) (ret 0))"

definition CMakeHouse_get_current_layer :: "ptr \<Rightarrow> u32 act" where
  "CMakeHouse_get_current_layer g = bnd (get_house g) (\<lambda>h. ret (m_current_layer h))"

section \<open>CGroup: the students\<close>

definition CGroup_add_student_to_group :: "ptr \<Rightarrow> int \<Rightarrow> ptr \<Rightarrow> bool act" where
  "CGroup_add_student_to_group g fd stu =
     (if 0 < fd \<and> stu \<noteq> NULL then
        sq (upd_group g (\<lambda>x. x\<lparr>g_student_map := smap_insert fd stu (g_student_map x)\<rparr>)) (ret True)
      else ret False)"

definition CGroup_get_group_by_fd :: "ptr \<Rightarrow> int \<Rightarrow> ptr act" where
  "CGroup_get_group_by_fd g fd = bnd (deref groups g) (\<lambda>x.
     ret (if fd \<in> fst ` set (g_student_map x) then g else NULL))"

definition CGroup_get_student_by_fd :: "ptr \<Rightarrow> int \<Rightarrow> ptr act" where
  "CGroup_get_student_by_fd g fd = bnd (deref groups g) (\<lambda>x.
     ret (case smap_find (g_student_map x) fd of None \<Rightarrow> NULL | Some stu \<Rightarrow> stu))"

fun find_student_id :: "(int \<times> ptr) list \<Rightarrow> u32 \<Rightarrow> ptr act" where
  "find_student_id [] i = ret NULL"
| "find_student_id ((k, stu) # m) i =
     bnd (deref students stu) (\<lambda>x. if m_Id x = i then ret stu else find_student_id m i)"

definition CGroup_get_student_by_studentId :: "ptr \<Rightarrow> u32 \<Rightarrow> ptr act" where
  "CGroup_get_student_by_studentId g i = bnd (deref groups g) (\<lambda>x. find_student_id (g_student_map x) i)"

definition CGroup_getAutoNodeId :: "ptr \<Rightarrow> u32 act" where
  "CGroup_getAutoNodeId g = bnd (deref groups g) (\<lambda>x.
     sq (upd_group g (\<lambda>x. x\<lparr>m_auto_nodeid := m_auto_nodeid x + 1\<rparr>)) (ret (m_auto_nodeid x)))"

definition CGroup_getAutoLayer :: "ptr \<Rightarrow> u32 act" where
  "CGroup_getAutoLayer g = bnd (deref groups g) (\<lambda>x.
     sq (upd_group g (\<lambda>x. x\<lparr>m_auto_layer := m_auto_layer x + 1\<rparr>)) (ret (m_auto_layer x)))"

definition CGroup_resetAutoNodeId :: "ptr \<Rightarrow> u32 \<Rightarrow> unit act" where
  "CGroup_resetAutoNodeId g v = upd_group g (\<lambda>x. x\<lparr>m_auto_nodeid := v\<rparr>)"

definition CGroup_resetAutoLayer :: "ptr \<Rightarrow> u32 \<Rightarrow> unit act" where
  "CGroup_resetAutoLayer g v = upd_group g (\<lambda>x. x\<lparr>m_auto_layer := v\<rparr>)"

definition CGroup_setName :: "ptr \<Rightarrow> cstring \<Rightarrow> unit act" where
  "CGroup_setName g name = upd_group g (\<lambda>x. x\<lparr>m_group_name := name\<rparr>)"

section \<open>CGroup: the house as a packet\<close>

text \<open>The picture of a node, as \<open>set_buf\<close> collects it.\<close>

definition node_picture :: "CNode \<Rightarrow> Picture" where
  "node_picture n = \<lparr>pic_x = m_position_x n, pic_y = m_position_y n, pic_angle = m_angle n,
     pic_scale = m_scale n, pic_name = m_sname n, pic_layer = CNode.m_layer n,
     pic_studentId = m_student_id n\<rparr>"

text \<open>The count stands at offset 8, the packed pictures follow from offset 12.\<close>

fun write_nodes :: "(int \<times> ptr) list \<Rightarrow> ptr \<Rightarrow> nat \<Rightarrow> unit act" where
  "write_nodes [] p a = ret ()"
| "write_nodes ((k, n) # m) p a = bnd (deref nodes n) (\<lambda>x.
     sq (wr64 p a (fst (DataTool_getData (node_picture x) 0)))
        (write_nodes m p (a + 8)))"

definition CGroup_set_buf :: "ptr \<Rightarrow> ptr \<Rightarrow> int act" where
  "CGroup_set_buf g p =
     (if p = NULL then ret 1 else
      sq (wr32 p MSG_HEAD_LEN 0)
     (bnd (get_house g) (\<lambda>h.
      sq (write_nodes (m_node_map h) p (MSG_HEAD_LEN + 4))
     (sq (wr32 p MSG_HEAD_LEN (of_nat (length (m_node_map h))))
     (sq (set_cLen p (of_nat (MSG_HEAD_LEN + 4 + 8 * length (m_node_map h))))
     (bnd (head_cLen p) (\<lambda>len.
      sq (set_size p (unat len)) (ret 0))))))))"

text \<open>One picture of \<open>save_data\<close>: unpack it, make its node, give it to the house.  \<open>False\<close> is
  the early return after an exception.\<close>

definition save_picture :: "ptr \<Rightarrow> ptr \<Rightarrow> u64 \<Rightarrow> bool act" where
  "save_picture g p ldata =
     (case DataTool_getPicture (DataTool_getString ldata) of
        None \<Rightarrow> ret False
      | Some pic \<Rightarrow>
          bnd (get_fd p) (\<lambda>fd.
          bnd (new_obj set_node (\<lambda>gb. CNode_new gb fd (pic_x pic) (pic_y pic))) (\<lambda>n.
          sq (upd_node n (CNode_set_angle (pic_angle pic)))
         (sq (upd_node n (CNode_set_scale (pic_scale pic)))
         (bnd (CGroup_getAutoNodeId g) (\<lambda>i.
          sq (upd_node n (CNode_set_node_id i))
         (sq (upd_node n (CNode_set_layer (pic_layer pic)))
         (sq (upd_node n (CNode_set_sname (pic_name pic)))
         (bnd (CGroup_get_student_by_fd g fd) (\<lambda>stu.
          bnd (deref students stu) (\<lambda>st.
          sq (upd_node n (CNode_set_student_id (m_Id st)))
         (bnd (deref nodes n) (\<lambda>x.
          bnd (CMakeHouse_add g (sint (m_node_id x)) n) (\<lambda>_. ret True))))))))))))))"

fun save_pictures :: "ptr \<Rightarrow> ptr \<Rightarrow> nat \<Rightarrow> nat \<Rightarrow> bool act" where
  "save_pictures g p 0 a = ret True"
| "save_pictures g p (Suc c) a = bnd (rd64 p a) (\<lambda>ldata.
     bnd (save_picture g p ldata) (\<lambda>go. if go then save_pictures g p c (a + 8) else ret False))"

definition CGroup_save_data :: "ptr \<Rightarrow> ptr \<Rightarrow> int act" where
  "CGroup_save_data g p =
     bnd (rd32 p MSG_HEAD_LEN) (\<lambda>cnt.
     bnd (rd32 p (MSG_HEAD_LEN + 4)) (\<lambda>student_id.
     bnd (get_fd p) (\<lambda>fd.
     bnd (CGroup_get_student_by_fd g fd) (\<lambda>stu.
       if stu = NULL then ret 1 else
       sq (CGroup_resetAutoNodeId g 0)
      (sq (CGroup_resetAutoLayer g 0)
      (bnd (CMakeHouse_cleanall g) (\<lambda>r.
         if r \<noteq> 0 then ret 1 else
         bnd (save_pictures g p (nat (sint cnt)) (MSG_HEAD_LEN + 8)) (\<lambda>ok.
           ret (if ok then 0 else 1)))))))))"

section \<open>CGroup: sending\<close>

text \<open>The body both broadcasting loops share: type, length and content of \<open>p\<close> into the new
  buffer \<open>q\<close>, from offset 8, \<open>cLen\<close> bytes.\<close>

definition group_copy :: "ptr \<Rightarrow> ptr \<Rightarrow> u32 \<Rightarrow> int \<Rightarrow> unit act" where
  "group_copy q p ct fd =
     sq (set_cType q ct)
    (bnd (head_cLen p) (\<lambda>cl.
     sq (set_cLen q cl)
    (sq (set_fd q fd)
    (sq (set_size q (unat cl))
    (sq (memcpy_buf q MSG_HEAD_LEN p MSG_HEAD_LEN (unat cl))
        (send_enqueue q))))))"

text \<open>Every copy goes to the descriptor of \<open>p\<close> itself.\<close>

definition CGroup_broadcast :: "ptr \<Rightarrow> ptr \<Rightarrow> unit act" where
  "CGroup_broadcast g p =
     (if p = NULL then ret () else
      bnd (deref groups g) (\<lambda>x.
      bnd (for_while (g_student_map x) (\<lambda>(k, stu).
             bnd pool_malloc (\<lambda>q. if q = NULL then ret False else
             bnd (head_cType p) (\<lambda>ct. bnd (get_fd p) (\<lambda>fd.
               sq (group_copy q p ct fd) (ret True)))))) (\<lambda>ok.
      if ok then pool_free p else ret ())))"

definition CGroup_sendToWhite :: "ptr \<Rightarrow> u32 \<Rightarrow> int \<Rightarrow> unit act" where
  "CGroup_sendToWhite p eType w_fd =
     (if p = NULL then ret () else
      bnd (head_cLen p) (\<lambda>cl.
        if cl \<noteq> 0 then
          bnd (rd32 p (MSG_HEAD_LEN + 4)) (\<lambda>sid.
          sq (set_cType p (50000 + sid))
         (sq (set_fd p w_fd)
         (sq (set_size p (unat cl))
             (send_enqueue p))))
        else send_enqueue p))"

definition CGroup_sendToOtherStudent :: "ptr \<Rightarrow> ptr \<Rightarrow> u32 \<Rightarrow> unit act" where
  "CGroup_sendToOtherStudent g p eType =
     (if p = NULL then ret () else
      bnd (deref groups g) (\<lambda>x.
      bnd (for_while (g_student_map x) (\<lambda>(k, stu).
             bnd pool_malloc (\<lambda>q. if q = NULL then ret False else
               sq (group_copy q p eType k) (ret True)))) (\<lambda>ok.
      if ok then pool_free p else ret ())))"

section \<open>Sending to the students of a group\<close>

lemma own_group_copy:
  assumes "own U n ((q, bq) # C) X w s" "(p, b) \<in> set C" "m_size bq = MAX_BUF"
    and "unat (get32 (m_ptr b) 0) = k" "8 \<le> k" "k + 8 \<le> MAX_BUF"
    and "\<And>t. own U n C (X @ [(fd, msg (get32 (m_ptr b) 0) ct (bytes_at (m_ptr b) 8 (k - 8)))]) w t \<Longrightarrow> Q () t"
  shows "wp (group_copy q p ct fd) Q s"
  unfolding group_copy_def wp_simps MSG_HEAD_LEN_def
  apply (insert assms(1,2))
  apply (rule own_intros, assumption)
  apply (rule own_intros, assumption, rule list.set_intros, assumption)
  apply (rule own_intros, assumption)+
  apply (rule list.set_intros, assumption)
  apply (use assms(4-6) in simp)
  apply (use assms(4-6) in simp)
  apply (rule own_intros, assumption)
  apply (rule assms(7))
  using assms(3-6) apply (simp add: view_def wire_msg wire_simps)
  done

end
