(* ===== verification/Room.thy ===== *)
theory Room
  imports MakeHouse
begin

text \<open>
  \<open>content/room.cpp\<close> and \<open>content/roommanager.cpp\<close>: the class rooms, which clients are in
  them, what they are told when somebody leaves, the puzzle timers and the house groups.  A room
  is named by its key in the room map; a method is an action on that key.  Iterators visit a map
  in key order, so \<open>find_room\<close> returns the first room that knows a descriptor.
\<close>

section \<open>Finding rooms\<close>

definition room_knows :: "int \<Rightarrow> CRoom \<Rightarrow> bool" where
  "room_knows fd r \<longleftrightarrow> fd \<in> fst ` set (m_student_map r) \<or> fd = m_teacher_fd r \<or> fd = m_white_fd r"

fun find_room :: "(int, CRoom) smap \<Rightarrow> int \<Rightarrow> int option" where
  "find_room [] fd = None"
| "find_room ((k, r) # m) fd = (if room_knows fd r then Some k else find_room m fd)"

fun find_room_name :: "(int, CRoom) smap \<Rightarrow> cstring \<Rightarrow> int option" where
  "find_room_name [] n = None"
| "find_room_name ((k, r) # m) n = (if m_room_name r = n then Some k else find_room_name m n)"

definition CRoomManager_get_room_by_fd :: "int \<Rightarrow> int option act" where
  "CRoomManager_get_room_by_fd fd = gets (\<lambda>s. find_room (rooms s) fd)"

definition CRoomManager_get_room_by_name :: "cstring \<Rightarrow> int option act" where
  "CRoomManager_get_room_by_name n = gets (\<lambda>s. find_room_name (rooms s) n)"

definition CRoomManager_get_room :: "int \<Rightarrow> int option act" where
  "CRoomManager_get_room i = gets (\<lambda>s. if smap_find (rooms s) i = None then None else Some i)"

definition CRoomManager_get_room_count :: "nat act" where
  "CRoomManager_get_room_count = gets (\<lambda>s. length (rooms s))"

text \<open>The rows of the room table become rooms; a second row with the same id is ignored.  The
  result is -1 when the query throws.\<close>

definition CRoomManager_init :: "env \<Rightarrow> int act" where
  "CRoomManager_init e = (case db_query e SQL_SELECT_ROOM [] of
       None \<Rightarrow> ret (- 1)
     | Some rows \<Rightarrow> sq (for_each rows (\<lambda>w. bnd new_addr (\<lambda>a. modify (\<lambda>s.
           s\<lparr>rooms := smap_insert (sint (getInt w ''classroom_id''))
               (CRoom_new (fresh_mem s a) (sint (getInt w ''classroom_id''))
                  (getString w ''classroom_name'') (getString w ''white_board'')) (rooms s)\<rparr>))))
         (ret 0))"

section \<open>Members of a room\<close>

definition set_teacher_fd :: "int option \<Rightarrow> int \<Rightarrow> unit act" where
  "set_teacher_fd rp fd = upd_room rp (\<lambda>r. r\<lparr>m_teacher_fd := fd\<rparr>)"

definition set_teacher_name :: "int option \<Rightarrow> cstring \<Rightarrow> unit act" where
  "set_teacher_name rp n = upd_room rp (\<lambda>r. r\<lparr>m_teacher_name := n\<rparr>)"

definition set_class_name :: "int option \<Rightarrow> cstring \<Rightarrow> unit act" where
  "set_class_name rp n = upd_room rp (\<lambda>r. r\<lparr>m_class_name := n\<rparr>)"

definition set_white_fd :: "int option \<Rightarrow> int \<Rightarrow> unit act" where
  "set_white_fd rp fd = upd_room rp (\<lambda>r. r\<lparr>m_white_fd := fd\<rparr>)"

definition set_isUsed :: "int option \<Rightarrow> int \<Rightarrow> unit act" where
  "set_isUsed rp u = upd_room rp (\<lambda>r. r\<lparr>m_isUsed := u\<rparr>)"

definition CRoom_get_student_by_fd :: "CRoom \<Rightarrow> int \<Rightarrow> ptr" where
  "CRoom_get_student_by_fd r fd = (case smap_find (m_student_map r) fd of None \<Rightarrow> NULL | Some st \<Rightarrow> st)"

definition CRoom_get_teacher_by_fd :: "CRoom \<Rightarrow> int \<Rightarrow> CTeacher option" where
  "CRoom_get_teacher_by_fd r fd = (if fd = m_teacher_fd r then Some (m_teacher r) else None)"

definition CRoom_get_course_by_name :: "CRoom \<Rightarrow> cstring \<Rightarrow> CCourse option" where
  "CRoom_get_course_by_name r n = List.find (\<lambda>c. CCourse.m_name c = n) (m_course_list r)"

definition CRoom_get_course_by_id :: "CRoom \<Rightarrow> u32 \<Rightarrow> CCourse option" where
  "CRoom_get_course_by_id r i = List.find (\<lambda>c. m_course_id c = i) (m_course_list r)"

definition CRoom_add_course :: "int option \<Rightarrow> CCourse option \<Rightarrow> unit act" where
  "CRoom_add_course rp c = (case c of None \<Rightarrow> ret ()
     | Some x \<Rightarrow> upd_room rp (\<lambda>r. r\<lparr>m_course_list := m_course_list r @ [x]\<rparr>))"

definition CRoom_clear_all_course :: "int option \<Rightarrow> unit act" where
  "CRoom_clear_all_course rp = upd_room rp (\<lambda>r. r\<lparr>m_course_list := []\<rparr>)"

text \<open>A student object that is registered under the descriptor already is deleted first.\<close>

definition CRoom_add_student :: "int option \<Rightarrow> int \<Rightarrow> ptr \<Rightarrow> unit act" where
  "CRoom_add_student rp fd pstudent = bnd (deref_room rp) (\<lambda>r.
     sq (case smap_find (m_student_map r) fd of None \<Rightarrow> ret ()
         | Some old \<Rightarrow> sq (delete_obj students set_student old)
             (upd_room rp (\<lambda>r. r\<lparr>m_student_map := smap_erase fd (m_student_map r)\<rparr>)))
        (upd_room rp (\<lambda>r. r\<lparr>m_student_map := smap_insert fd pstudent (m_student_map r)\<rparr>)))"

section \<open>Status messages\<close>

text \<open>Two words, id and status, stored at offset \<open>a\<close>.\<close>

definition wr_status :: "ptr \<Rightarrow> nat \<Rightarrow> u32 \<Rightarrow> u32 \<Rightarrow> unit act" where
  "wr_status p a sid st = sq (wr32 p a sid) (wr32 p (a + 4) st)"

text \<open>A \<open>ST_SendStudentStatus\<close> packet whose body is one status, to \<open>fd\<close>.\<close>

definition send_one_status :: "u32 \<Rightarrow> u32 \<Rightarrow> int \<Rightarrow> unit act" where
  "send_one_status sid st fd = bnd pool_malloc (\<lambda>p.
     sq (set_cLen p (of_nat (MSG_HEAD_LEN + sizeof ST_SendStudentStatusReq)))
    (sq (set_cType p ST_SendStudentStatus)
    (sq (wr_status p MSG_HEAD_LEN sid st)
    (bnd (head_cLen p) (\<lambda>n.
     sq (set_size p (unat n))
    (sq (set_fd p fd)
        (send_enqueue p)))))))"

text \<open>The same with a leading count of one, as the teacher and the whiteboard get it; the status
  is read from the student after the buffer has been taken.\<close>

definition send_counted_status :: "ptr \<Rightarrow> int \<Rightarrow> unit act" where
  "send_counted_status stu fd = bnd pool_malloc (\<lambda>pt.
     sq (set_cLen pt (of_nat (MSG_HEAD_LEN + 4 + sizeof ST_SendStudentStatusReq)))
    (sq (set_cType pt ST_SendStudentStatus)
    (sq (wr32 pt MSG_HEAD_LEN 1)
    (bnd (deref students stu) (\<lambda>x.
     sq (wr_status pt (MSG_HEAD_LEN + 4) (m_Id x) (m_current_status x))
    (bnd (head_cLen pt) (\<lambda>n.
     sq (set_size pt (unat n))
    (sq (set_fd pt fd)
        (send_enqueue pt)))))))))"

fun write_statuses :: "(int \<times> ptr) list \<Rightarrow> ptr \<Rightarrow> nat \<Rightarrow> unit act" where
  "write_statuses [] p a = ret ()"
| "write_statuses ((k, stu) # m) p a = bnd (deref students stu) (\<lambda>x.
     sq (wr_status p a (m_Id x) (m_current_status x))
    (bnd (head_cLen p) (\<lambda>n.
     sq (set_cLen p (n + of_nat (sizeof ST_SendStudentStatusReq)))
        (write_statuses m p (a + sizeof ST_SendStudentStatusReq)))))"

text \<open>One student is told the whole list that stands in \<open>p\<close>.\<close>

definition copy_status :: "ptr \<Rightarrow> int \<Rightarrow> unit act" where
  "copy_status p fd = bnd pool_malloc (\<lambda>pp.
     bnd (head_cLen p) (\<lambda>n.
     sq (memcpy_buf pp 0 p 0 (unat n))
    (sq (set_size pp (unat n))
    (sq (set_fd pp fd)
        (send_enqueue pp)))))"

text \<open>The student who leaves: marked first, so that the list already shows the new status.\<close>

definition mark_offline :: "int option \<Rightarrow> int \<Rightarrow> int \<Rightarrow> unit act" where
  "mark_offline rp fd flag = bnd (deref_room rp) (\<lambda>r.
     case smap_find (m_student_map r) fd of None \<Rightarrow> ret ()
     | Some stu \<Rightarrow> bnd (deref students stu) (\<lambda>_.
         sq (upd_student stu (CStudent_setSocket 0))
            (if flag = 0 then upd_student stu (CStudent_setStudentStatus eCS_OFFLINE) else ret ())))"

text \<open>Teacher and whiteboard are told about that student alone; with \<open>flag = 0\<close> the student is
  then removed.\<close>

definition tell_and_remove :: "int option \<Rightarrow> int \<Rightarrow> int \<Rightarrow> unit act" where
  "tell_and_remove rp fd flag = bnd (deref_room rp) (\<lambda>r.
     case smap_find (m_student_map r) fd of None \<Rightarrow> ret ()
     | Some stu \<Rightarrow>
         sq (send_counted_status stu (m_teacher_fd r))
        (sq (send_counted_status stu (m_white_fd r))
            (if flag = 0 then
               sq (delete_obj students set_student stu)
                  (upd_room rp (\<lambda>r. r\<lparr>m_student_map := smap_erase fd (m_student_map r)\<rparr>))
             else ret ())))"

definition update_all_student_status :: "int option \<Rightarrow> int \<Rightarrow> int \<Rightarrow> unit act" where
  "update_all_student_status rp fd flag = bnd pool_malloc (\<lambda>p.
     sq (set_cLen p (of_nat (MSG_HEAD_LEN + 4)))
    (sq (set_cType p ST_SendStudentStatus)
    (sq (mark_offline rp fd flag)
    (bnd (deref_room rp) (\<lambda>r.
     sq (write_statuses (m_student_map r) p (MSG_HEAD_LEN + 4))
    (sq (wr32 p MSG_HEAD_LEN (of_nat (length (m_student_map r))))
    (sq (tell_and_remove rp fd flag)
    (bnd (deref_room rp) (\<lambda>r.
     sq (for_each (m_student_map r) (\<lambda>(k, stu). copy_status p k))
    (sq (buf_reset p)
        (pool_free p)))))))))))"

definition CRoom_del_student :: "int option \<Rightarrow> int \<Rightarrow> unit act" where
  "CRoom_del_student rp fd = bnd (deref_room rp) (\<lambda>r.
     case smap_find (m_student_map r) fd of None \<Rightarrow> ret ()
     | Some stu \<Rightarrow> bnd (deref students stu) (\<lambda>x.
         sq (send_one_status (m_Id x) eCS_OFFLINE (m_teacher_fd r))
        (sq (delete_obj students set_student stu)
        (sq (upd_room rp (\<lambda>r. r\<lparr>m_student_map := smap_erase fd (m_student_map r)\<rparr>))
        (bnd (deref_room rp) (\<lambda>r.
           for_each (m_student_map r) (\<lambda>(k, st). send_one_status (m_Id x) eCS_OFFLINE k)))))))"

section \<open>Leaving\<close>

definition CRoom_reset :: "int option \<Rightarrow> int act" where
  "CRoom_reset rp = bnd (deref_room rp) (\<lambda>r.
     sq (for_each (m_student_map r) (\<lambda>(k, stu). upd_student stu (CStudent_setSocket 0)))
    (sq (upd_room rp (\<lambda>r. r\<lparr>m_course_list := [], m_game_list := [], m_isUsed := 0\<rparr>))
        (ret 0)))"

definition CRoom_teacher_disconnect :: "int option \<Rightarrow> unit act" where
  "CRoom_teacher_disconnect rp = bnd (deref_room rp) (\<lambda>r.
     sq (for_each (m_student_map r) (\<lambda>(k, stu). send_one_status 0xFFFFFFFF 0xFFFFFFFF k))
    (sq (send_one_status 0xFFFFFFFF 0xFFFFFFFF (m_white_fd r))
    (bnd (CRoom_reset rp) (\<lambda>_. ret ()))))"

text \<open>A teacher's descriptor resets the first room that knows it, which need not be this one.\<close>

definition CRoom_del_client :: "int option \<Rightarrow> int \<Rightarrow> unit act" where
  "CRoom_del_client rp fd = bnd (deref_room rp) (\<lambda>r.
     if fd = m_teacher_fd r then
       bnd (CRoomManager_get_room_by_fd fd) (\<lambda>rp'.
       bnd (deref_room rp') (\<lambda>r'.
       sq (if m_isUsed r' = 1 then bnd (CRoom_reset rp') (\<lambda>_. ret ()) else ret ())
      (sq (CRoom_teacher_disconnect rp)
          (upd_room rp (\<lambda>r. r\<lparr>m_teacher_fd := 0\<rparr>)))))
     else if fd = m_white_fd r then upd_room rp (\<lambda>r. r\<lparr>m_white_fd := 0\<rparr>)
     else update_all_student_status rp fd 0)"

definition CRoomManager_del_client :: "int \<Rightarrow> unit act" where
  "CRoomManager_del_client fd = bnd (gets rooms) (\<lambda>m.
     for_each m (\<lambda>(k, r). CRoom_del_client (Some k) fd))"

section \<open>Puzzle\<close>

definition CRoom_puzzle_start :: "int \<Rightarrow> int option \<Rightarrow> unit act" where
  "CRoom_puzzle_start now rp = bnd (deref_room rp) (\<lambda>r.
     for_each (m_student_map r) (\<lambda>(k, stu).
       bnd (new_obj set_puzzle (\<lambda>_. CPuzzle_new)) (\<lambda>z.
       sq (upd_puzzle z (CPuzzle_start now))
          (upd_room rp (\<lambda>r. r\<lparr>m_puzzle_map := smap_insert k z (m_puzzle_map r)\<rparr>)))))"

definition dec_bytes :: "int \<Rightarrow> byte list" where
  "dec_bytes i = (if i < 0 then [45] else []) @ map (\<lambda>d. of_nat (48 + d)) (dec_digits (nat \<bar>i\<bar>))"

text \<open>\<open>"%s:%ld,"\<close> into \<open>char[64]\<close>: the name up to its first zero, cut to 63 characters.\<close>

definition puzzle_line :: "cstring \<Rightarrow> int \<Rightarrow> byte list" where
  "puzzle_line name t = take 63 (takeWhile (\<lambda>c. c \<noteq> 0) name @ chars '':'' @ dec_bytes t @ chars '','')"

text \<open>\<open>m_student_map[k]\<close> puts a \<open>NULL\<close> student into the map for a key that is not there.  The
  lines are concatenated in a \<open>char[1024]\<close>.\<close>

fun puzzle_lines :: "int \<Rightarrow> int option \<Rightarrow> (int \<times> ptr) list \<Rightarrow> byte list \<Rightarrow> byte list act" where
  "puzzle_lines now rp [] acc = ret acc"
| "puzzle_lines now rp ((k, z) # m) acc =
     sq (upd_puzzle z (CPuzzle_end now))
    (sq (upd_room rp (\<lambda>r. r\<lparr>m_student_map := smap_insert k NULL (m_student_map r)\<rparr>))
    (bnd (deref_room rp) (\<lambda>r.
       if CRoom_get_student_by_fd r k = NULL then puzzle_lines now rp m acc
       else bnd (deref students (CRoom_get_student_by_fd r k)) (\<lambda>x.
            bnd (deref puzzles z) (\<lambda>pz.
              let l = puzzle_line (m_StuName x) (CPuzzle_get_time pz) in
              sq (check (length acc + length l < 1024) OutOfBounds)
                 (puzzle_lines now rp m (acc @ l)))))))"

definition CRoom_puzzle_end :: "int \<Rightarrow> int option \<Rightarrow> unit act" where
  "CRoom_puzzle_end now rp = bnd (deref_room rp) (\<lambda>r.
     bnd (puzzle_lines now rp (m_puzzle_map r) []) (\<lambda>txt.
     bnd (deref_room rp) (\<lambda>r.
       if m_white_fd r = 0 then ret () else
       bnd pool_malloc (\<lambda>p.
       sq (set_fd p (m_white_fd r))
      (sq (set_size p (MSG_HEAD_LEN + 1024))
      (sq (set_cLen p (of_nat (MSG_HEAD_LEN + 1024)))
      (sq (set_cType p ST_Puzzle_EndGame)
      (sq (wr_bytes p MSG_HEAD_LEN (txt @ replicate (1024 - length txt) 0))
          (send_enqueue p)))))))))"

text \<open>\<open>m_puzzle_map[fd]\<close> puts a \<open>NULL\<close> timer into the map for a descriptor that has none.\<close>

definition CRoom_end_puzzle_by_fd :: "int \<Rightarrow> int option \<Rightarrow> int \<Rightarrow> unit act" where
  "CRoom_end_puzzle_by_fd now rp fd =
     sq (upd_room rp (\<lambda>r. r\<lparr>m_puzzle_map := smap_insert fd NULL (m_puzzle_map r)\<rparr>))
    (bnd (deref_room rp) (\<lambda>r.
       case smap_find (m_puzzle_map r) fd of None \<Rightarrow> ret ()
       | Some z \<Rightarrow> if z \<noteq> NULL then upd_puzzle z (CPuzzle_end now) else ret ()))"

section \<open>House groups\<close>

fun find_group :: "(int \<times> ptr) list \<Rightarrow> int \<Rightarrow> ptr act" where
  "find_group [] fd = ret NULL"
| "find_group ((k, g) # m) fd = bnd (CGroup_get_group_by_fd g fd) (\<lambda>x.
     if x \<noteq> NULL then ret x else find_group m fd)"

definition CRoom_get_group_by_fd :: "int option \<Rightarrow> int \<Rightarrow> ptr act" where
  "CRoom_get_group_by_fd rp fd = bnd (deref_room rp) (\<lambda>r. find_group (m_buildhouse_groups r) fd)"

definition CRoom_add_group :: "int option \<Rightarrow> int \<Rightarrow> ptr \<Rightarrow> bool act" where
  "CRoom_add_group rp i cg = (if cg \<noteq> NULL then
       sq (upd_room rp (\<lambda>r. r\<lparr>m_buildhouse_groups := smap_insert i cg (m_buildhouse_groups r)\<rparr>)) (ret True)
     else ret False)"

definition new_group :: "int \<Rightarrow> ptr act" where
  "new_group i = new_obj set_group (\<lambda>g. CGroup_new g (\<lambda>j. ucast (g (Suc j)))
     (chars ''BuildHouse_Group'' @ dec_bytes i))"

text \<open>The loop state of \<open>init_buildhouse_group\<close>: the current group, \<open>icnt\<close>, \<open>iGroup\<close>.\<close>

fun fill_groups :: "int option \<Rightarrow> int \<Rightarrow> (int \<times> ptr) list \<Rightarrow> ptr \<Rightarrow> int \<Rightarrow> int \<Rightarrow> (ptr \<times> int \<times> int) act" where
  "fill_groups rp n [] g icnt iGroup = ret (g, icnt, iGroup)"
| "fill_groups rp n ((fd, stu) # m) g icnt iGroup =
     bnd (CGroup_add_student_to_group g fd stu) (\<lambda>_.
       if icnt = n then
         bnd (new_group iGroup) (\<lambda>g'.
         bnd (CRoom_add_group rp iGroup g') (\<lambda>_.
           fill_groups rp n m g' 0 (iGroup + 1)))
       else fill_groups rp n m g (icnt + 1) iGroup)"

definition CRoom_init_buildhouse_group :: "int option \<Rightarrow> int \<Rightarrow> unit act" where
  "CRoom_init_buildhouse_group rp n =
     (if n < 1 then ret () else
      bnd (new_group 1) (\<lambda>g.
      bnd (deref_room rp) (\<lambda>r.
      bnd (fill_groups rp n (m_student_map r) g 0 2) (\<lambda>(g', icnt, iGroup).
        if 0 < icnt \<and> icnt < n \<and> g' \<noteq> NULL then
          bnd (CRoom_add_group rp iGroup g') (\<lambda>_. ret ())
        else ret ()))))"

definition CRoom_build_house_start :: "int option \<Rightarrow> unit act" where
  "CRoom_build_house_start rp = CRoom_init_buildhouse_group rp (int NUMS_STU_OF_GROUP)"

definition CRoom_clean_buildhouse_group :: "int option \<Rightarrow> unit act" where
  "CRoom_clean_buildhouse_group rp = bnd (deref_room rp) (\<lambda>r.
     for_each (m_buildhouse_groups r) (\<lambda>(k, g).
       bnd (CMakeHouse_cleanall g) (\<lambda>_.
       sq (delete_obj groups set_group g)
          (upd_room rp (\<lambda>r. r\<lparr>m_buildhouse_groups := smap_erase k (m_buildhouse_groups r)\<rparr>)))))"

definition CRoom_build_house_end :: "int option \<Rightarrow> unit act" where
  "CRoom_build_house_end rp = CRoom_clean_buildhouse_group rp"

end
