(* ===== verification/Messaging.thy ===== *)
theory Messaging
  imports Room
begin

text \<open>
  The forwarding primitives of \<open>handler/HandleMessage.cpp\<close>, from which most message handlers
  are built: answer the sender, pass a packet from the teacher to the whiteboard, from the
  whiteboard to the teacher, from a student to the whiteboard, from a client to all students of
  its room or to one of them, and the database answers.  Each action ends with the packet queued
  or recycled, except where the source forgets it.
\<close>

section \<open>Forwarding\<close>

definition postMessage :: "ptr \<Rightarrow> u32 \<Rightarrow> byte list option \<Rightarrow> bool act" where
  "postMessage p ct data = (if p = NULL then ret False else
     sq (set_cLen p (of_nat MSG_HEAD_LEN))
    (sq (set_cType p ct)
    (sq (case data of None \<Rightarrow> ret ()
         | Some bs \<Rightarrow> bnd (head_cLen p) (\<lambda>n.
             sq (set_cLen p (n + of_nat (length bs))) (wr_bytes p MSG_HEAD_LEN bs)))
    (bnd (head_cLen p) (\<lambda>n.
     sq (set_size p (unat n))
    (sq (send_enqueue p) (ret True)))))))"

text \<open>The common end of the three forwarders: new type, new receiver, length from the header.\<close>

definition forward :: "ptr \<Rightarrow> u32 \<Rightarrow> int \<Rightarrow> bool act" where
  "forward p ct fd =
     sq (set_cType p ct)
    (sq (set_fd p fd)
    (bnd (head_cLen p) (\<lambda>n.
     sq (set_size p (unat n))
    (sq (send_enqueue p) (ret True)))))"

definition postTeacherToWhite :: "ptr \<Rightarrow> u32 \<Rightarrow> bool act" where
  "postTeacherToWhite p ct = (if p = NULL then ret False else
     bnd (get_fd p) (\<lambda>fd.
     bnd (CRoomManager_get_room_by_fd fd) (\<lambda>pc.
       case pc of None \<Rightarrow> sq (pool_free p) (ret False)
       | Some rid \<Rightarrow> bnd (deref_room pc) (\<lambda>r.
           if m_teacher_fd r = fd then forward p ct (m_white_fd r)
           else sq (pool_free p) (ret False)))))"

definition postWhiteToTeacher :: "ptr \<Rightarrow> u32 \<Rightarrow> bool act" where
  "postWhiteToTeacher p ct =
     bnd (get_fd p) (\<lambda>fd.
     bnd (CRoomManager_get_room_by_fd fd) (\<lambda>pc.
       case pc of None \<Rightarrow> sq (pool_free p) (ret False)
       | Some rid \<Rightarrow> bnd (deref_room pc) (\<lambda>r.
           if m_white_fd r = fd then forward p ct (m_teacher_fd r)
           else sq (pool_free p) (ret False))))"

definition postStudentToWhite :: "ptr \<Rightarrow> u32 \<Rightarrow> bool act" where
  "postStudentToWhite p ct = (if p = NULL then ret False else
     bnd (get_fd p) (\<lambda>fd.
     bnd (CRoomManager_get_room_by_fd fd) (\<lambda>pc.
       case pc of None \<Rightarrow> sq (pool_free p) (ret False)
       | Some rid \<Rightarrow> bnd (deref_room pc) (\<lambda>r.
           if CRoom_get_student_by_fd r fd \<noteq> NULL then forward p ct (m_white_fd r)
           else sq (pool_free p) (ret False)))))"

text \<open>One copy for a student: header from the arguments, then \<open>iLen - 8\<close> bytes of content.  The
  length is an \<open>int\<close>, so only a length between 9 and \<open>2 ^ 31 - 1\<close> copies anything.\<close>

definition copy_to_student :: "ptr \<Rightarrow> ptr \<Rightarrow> u32 \<Rightarrow> u32 \<Rightarrow> int \<Rightarrow> unit act" where
  "copy_to_student pbuf p iLen ct fd =
     sq (set_cLen pbuf iLen)
    (sq (set_cType pbuf ct)
    (sq (if sint iLen > int MSG_HEAD_LEN
         then memcpy_buf pbuf MSG_HEAD_LEN p MSG_HEAD_LEN (nat (sint iLen) - MSG_HEAD_LEN) else ret ())
    (bnd (head_cLen pbuf) (\<lambda>n.
     sq (set_size pbuf (unat n))
    (sq (set_fd pbuf fd)
        (send_enqueue pbuf))))))"

text \<open>Without a free buffer the code calls \<open>reset\<close> on the \<open>NULL\<close> it just got.\<close>

definition postTeacherToAllStudent :: "ptr \<Rightarrow> u32 \<Rightarrow> bool act" where
  "postTeacherToAllStudent p ct = (if p = NULL then ret False else
     bnd (head_cLen p) (\<lambda>iLen.
     bnd (get_fd p) (\<lambda>fd.
     bnd (CRoomManager_get_room_by_fd fd) (\<lambda>pc.
       case pc of None \<Rightarrow> sq (pool_free p) (ret False)
       | Some rid \<Rightarrow> bnd (deref_room pc) (\<lambda>r.
           bnd (for_while (m_student_map r) (\<lambda>(k, stu).
             bnd pool_malloc (\<lambda>pbuf.
               if pbuf \<noteq> NULL then sq (copy_to_student pbuf p iLen ct k) (ret True)
               else sq (buf_reset p) (sq (buf_reset pbuf)
                   (sq (pool_free p) (sq (pool_free pbuf) (ret False))))))) (\<lambda>ok.
           if ok then sq (buf_reset p) (sq (pool_free p) (ret True)) else ret False))))))"

fun send_to_student_id :: "ptr \<Rightarrow> u32 \<Rightarrow> u32 \<Rightarrow> (int \<times> ptr) list \<Rightarrow> bool act" where
  "send_to_student_id p ct i [] = ret False"
| "send_to_student_id p ct i ((k, stu) # m) = bnd (deref students stu) (\<lambda>x.
     if m_Id x = i then forward p ct k else send_to_student_id p ct i m)"

text \<open>When nobody is found the packet is left to the caller.\<close>

definition postTeacherToStudent :: "ptr \<Rightarrow> u32 \<Rightarrow> u32 \<Rightarrow> bool act" where
  "postTeacherToStudent p ct iStuId = (if p = NULL then ret False else
     bnd (get_fd p) (\<lambda>fd.
     bnd (CRoomManager_get_room_by_fd fd) (\<lambda>pc.
       case pc of None \<Rightarrow> ret False
       | Some rid \<Rightarrow> bnd (deref_room pc) (\<lambda>r.
           if m_teacher_fd r = fd then send_to_student_id p ct iStuId (m_student_map r)
           else ret False))))"

section \<open>What handlers share\<close>

text \<open>Most handlers first compare the type of the packet with their own.\<close>

definition when_type :: "ptr \<Rightarrow> u32 \<Rightarrow> unit act \<Rightarrow> unit act" where
  "when_type p ct m = (if p = NULL then ret () else
     bnd (head_cType p) (\<lambda>t. if t = ct then m else ret ()))"

definition ignore :: "'a act \<Rightarrow> unit act" where
  "ignore m = bnd m (\<lambda>_. ret ())"

text \<open>A C string in the packet at \<open>a\<close>, in an object that ends at \<open>e\<close>, and a run of bytes.\<close>

definition rd_cstr :: "ptr \<Rightarrow> nat \<Rightarrow> nat \<Rightarrow> cstring act" where
  "rd_cstr p a e = bnd (deref bufs p) (\<lambda>b.
     sq (check (e \<le> m_size b) OutOfBounds)
        (case cstr (m_ptr b) a e of None \<Rightarrow> fail OutOfBounds | Some s \<Rightarrow> ret s))"

definition rd_bytes :: "ptr \<Rightarrow> nat \<Rightarrow> nat \<Rightarrow> byte list act" where
  "rd_bytes p a n = bnd (deref bufs p) (\<lambda>b.
     sq (check (a + n \<le> m_size b) OutOfBounds) (ret (bytes_at (m_ptr b) a n)))"

definition rd16 :: "ptr \<Rightarrow> nat \<Rightarrow> u16 act" where
  "rd16 p a = bnd (deref bufs p) (\<lambda>b.
     sq (check (a + 2 \<le> m_size b) OutOfBounds)
        (ret (ucast (m_ptr b a) OR push_bit 8 (ucast (m_ptr b (a + 1))))))"

text \<open>\<open>strcpy\<close> into a field that still holds \<open>old\<close>.\<close>

definition strcpy_over :: "byte list \<Rightarrow> cstring \<Rightarrow> byte list option" where
  "strcpy_over old s = (let t = takeWhile (\<lambda>c. c \<noteq> 0) s in
     if length t < length old then Some (t @ [0] @ drop (Suc (length t)) old) else None)"

section \<open>Database answers\<close>

text \<open>The names of the courses of the sender's room, bound to the placeholders of a query.\<close>

definition course_args :: "ptr \<Rightarrow> dbarg list act" where
  "course_args p = bnd (get_fd p) (\<lambda>fd.
     bnd (CRoomManager_get_room_by_fd fd) (\<lambda>room.
       case room of None \<Rightarrow> ret []
       | Some rid \<Rightarrow> bnd (deref_room room) (\<lambda>r. ret (map (\<lambda>c. ArgString (CCourse.m_name c)) (m_course_list r)))))"

definition count_tables :: "int \<Rightarrow> string" where
  "count_tables iCase =
     (if iCase = 1 then ''course_group_course AS cgc, course_group AS cg, course AS c, grade AS g, grade_course AS gc WHERE  cgc.group_id = cg.group_id AND cgc.course_id = c.course_id AND gc.grade_id = g.grade_id AND c.course_id = gc.course_id''
      else if iCase = 2 then ''grade'' else if iCase = 3 then ''class'' else if iCase = 4 then ''classroom''
      else if iCase = 5 then ''student''
      else if iCase = 6 then ''course_item AS ci, course AS c, item AS i WHERE ci.course_id=c.course_id AND ci.item_id=i.item_id AND (c.course_name=? OR c.course_name=? OR c.course_name=? OR c.course_name=?)''
      else '''')"

definition count_type :: "int \<Rightarrow> u32 option" where
  "count_type iCase =
     (if iCase = 1 then Some CT_GetCourseDBCount else if iCase = 2 then Some CT_GetGradeDBCount
      else if iCase = 3 then Some CT_GetClassDBCount else if iCase = 4 then Some CT_GetClassRoomDBCount
      else if iCase = 5 then Some CT_GetAllStudentInfoCount
      else if iCase = 6 then Some CT_GetCourseItemCount else None)"

text \<open>The packet itself is queued once for every row of the answer.\<close>

definition count_row :: "ptr \<Rightarrow> int \<Rightarrow> row \<Rightarrow> unit act" where
  "count_row p iCase w =
     sq (set_cLen p (of_nat (MSG_HEAD_LEN + sizeof sDBCount)))
    (sq (case count_type iCase of None \<Rightarrow> ret () | Some ct \<Rightarrow> set_cType p ct)
    (sq (wr32 p MSG_HEAD_LEN (getInt w ''ccount''))
    (bnd (head_cLen p) (\<lambda>n.
     sq (set_size p (unat n))
        (send_enqueue p)))))"

definition postDBRecordCount :: "env \<Rightarrow> ptr \<Rightarrow> int \<Rightarrow> bool act" where
  "postDBRecordCount e p iCase = (if p = NULL then ret False else
     bnd (if iCase = 6 then course_args p else ret []) (\<lambda>args.
       case db_query e (SQL_COUNT (count_tables iCase)) args of
         None \<Rightarrow> ret True
       | Some rows \<Rightarrow> sq (for_each rows (count_row p iCase)) (ret True)))"

text \<open>One row as the bytes of its structure; a string that does not fit its field overruns it.\<close>

definition str_field :: "nat \<Rightarrow> cstring \<Rightarrow> byte list option" where
  "str_field n s = strcpy_field n (takeWhile (\<lambda>c. c \<noteq> 0) s)"

fun cat_fields :: "byte list option list \<Rightarrow> byte list option" where
  "cat_fields [] = Some []"
| "cat_fields (None # fs) = None"
| "cat_fields (Some b # fs) = map_option (append b) (cat_fields fs)"

definition record_bytes :: "int \<Rightarrow> row \<Rightarrow> byte list option" where
  "record_bytes iCase w =
     (if iCase = 1 then cat_fields [str_field 20 (getString w ''grade_name''),
        str_field 20 (getString w ''group_name''), str_field 20 (getString w ''course_name''),
        Some (le32 (getInt w ''language'')), Some (le32 (getInt w ''art'')),
        Some (le32 (getInt w ''community'')), Some (le32 (getInt w ''health'')),
        Some (le32 (getInt w ''science''))]
      else if iCase = 2 then str_field 20 (getString w ''grade_name'')
      else if iCase = 3 then str_field 20 (getString w ''class_name'')
      else if iCase = 4 then str_field 20 (getString w ''classroom_name'')
      else if iCase = 5 then cat_fields [Some (le32 (getInt w ''student_id'')),
        str_field 128 (getString w ''picture_name''), str_field 20 (getString w ''student_name'')]
      else cat_fields [str_field 20 (getString w ''course_name''), str_field 20 (getString w ''item_name''),
        str_field 512 (getString w ''fck_desc''), Some (le32 0)])"

definition record_base :: "int \<Rightarrow> u32" where
  "record_base iCase = (if iCase = 1 then 5000 else if iCase = 2 then 3000 else if iCase = 3 then 4000
     else if iCase = 4 then 6000 else if iCase = 5 then 10000 else 7000)"

definition record_sql :: "int \<Rightarrow> sql" where
  "record_sql iCase = (if iCase = 1 then SQL_SELECT_COURSE_DB else if iCase = 2 then SQL_SELECT_GRADE_DB
     else if iCase = 3 then SQL_SELECT_CLASS_DB else if iCase = 4 then SQL_SELECT_CLASSROOM_DB
     else if iCase = 5 then SQL_SELECT_STUDENT_DB else SQL_SELECT_COURSEITEM_DB)"

text \<open>The type of a record is its index above the base of its table.\<close>

definition record_row :: "ptr \<Rightarrow> int \<Rightarrow> u32 \<Rightarrow> row \<Rightarrow> unit act" where
  "record_row buf iCase index w = (case record_bytes iCase w of None \<Rightarrow> fail OutOfBounds
     | Some bs \<Rightarrow> bnd pool_malloc (\<lambda>p.
         sq (set_cLen p (of_nat (MSG_HEAD_LEN + length bs)))
        (sq (set_cType p (record_base iCase + index))
        (sq (wr_bytes p MSG_HEAD_LEN bs)
        (bnd (get_fd buf) (\<lambda>fd.
         sq (set_fd p fd)
        (sq (set_size p (MSG_HEAD_LEN + length bs))
            (send_enqueue p))))))))"

fun record_rows :: "ptr \<Rightarrow> int \<Rightarrow> u32 \<Rightarrow> row list \<Rightarrow> unit act" where
  "record_rows buf iCase index [] = ret ()"
| "record_rows buf iCase index (w # ws) =
     sq (record_row buf iCase index w) (record_rows buf iCase (index + 1) ws)"

definition send_finished :: "ptr \<Rightarrow> int \<Rightarrow> unit act" where
  "send_finished buf iCase = bnd pool_malloc (\<lambda>p.
     sq (set_cLen p (of_nat (MSG_HEAD_LEN + sizeof sDBRecordFinished)))
    (sq (set_cType p ST_GetDBRecordFinished)
    (sq (wr32 p MSG_HEAD_LEN (if iCase = 5 then 10000 else 1))
    (bnd (get_fd buf) (\<lambda>fd.
     sq (set_fd p fd)
    (bnd (head_cLen p) (\<lambda>n.
     sq (set_size p (unat n))
        (send_enqueue p))))))))"

definition postDBRecord :: "env \<Rightarrow> ptr \<Rightarrow> int \<Rightarrow> bool act" where
  "postDBRecord e buf iCase = (if buf = NULL then ret False
     else if iCase < 1 \<or> 6 < iCase then ret False else
     bnd (if iCase = 6 then course_args buf else ret []) (\<lambda>args.
     sq (case db_query e (record_sql iCase) args of
           None \<Rightarrow> ret ()
         | Some rows \<Rightarrow> sq (record_rows buf iCase 0 rows) (send_finished buf iCase))
    (sq (buf_reset buf)
    (sq (pool_free buf) (ret True)))))"

end
