(* ===== verification/HandleClassRoom.thy ===== *)
theory HandleClassRoom
  imports Messaging
begin

text \<open>
  \<open>handler/HandleClassRoom.cpp\<close>: changing scenes, entering and leaving the class room, courses,
  student and teacher information, leaving early.  The build flags are those of the build files
  (the parts under \<open>#if 0\<close>, \<open>_TEACHER_NOLOGIN\<close> and \<open>TEACHER_NOT_LOGIN\<close> are off).  What a handler
  does not do with its packet is as much part of it as what it does: several return without
  recycling it.
\<close>

section \<open>Scenes\<close>

definition handleChangeScene :: "ptr \<Rightarrow> unit act" where
  "handleChangeScene p = ret ()"

text \<open>The demonstration of the house game: scene 15 puts the whiteboard into the test group,
  scene 16 ends it.  \<open>pc\<close> may be \<open>NULL\<close> here.\<close>

definition switch_show :: "int option \<Rightarrow> u32 \<Rightarrow> unit act" where
  "switch_show pc v =
     (if v = 15 then bnd (deref_room pc) (\<lambda>r.
        if m_is_show r = 0 then
          sq (upd_room pc (\<lambda>r. r\<lparr>m_is_show := 1\<rparr>))
         (bnd (new_obj set_student CStudent_new) (\<lambda>student.
          sq (upd_student student (CStudent_setId 50))
             (ignore (CGroup_add_student_to_group TEST_GROUP (m_white_fd r) student))))
        else ret ())
      else if v = 16 then bnd (deref_room pc) (\<lambda>r.
        if m_is_show r = 1 then upd_room pc (\<lambda>r. r\<lparr>m_is_show := 0\<rparr>) else ret ())
      else ret ())"

definition handleControlChangeScene :: "ptr \<Rightarrow> unit act" where
  "handleControlChangeScene p =
     bnd (rd32 p MSG_HEAD_LEN) (\<lambda>_.
     bnd pool_malloc (\<lambda>pp.
     bnd (get_fd p) (\<lambda>fd.
     sq (set_fd pp fd)
    (sq (set_size pp (MSG_HEAD_LEN + 4))
    (sq (set_cLen pp (of_nat (MSG_HEAD_LEN + 4)))
    (sq (set_cType pp ST_ControlChangeScene)
    (bnd (rd32 p MSG_HEAD_LEN) (\<lambda>v.
     sq (wr32 pp MSG_HEAD_LEN v)
    (bnd (get_fd pp) (\<lambda>fd.
     bnd (CRoomManager_get_room_by_fd fd) (\<lambda>pc.
     sq (case pc of None \<Rightarrow> pool_free pp
         | Some rid \<Rightarrow> bnd (deref_room pc) (\<lambda>r.
             if m_teacher_fd r = fd then
               sq (upd_room pc (\<lambda>r. r\<lparr>m_current_scene := v\<rparr>))
              (sq (set_fd pp (m_white_fd r))
              (bnd (head_cLen pp) (\<lambda>n.
               sq (set_size pp (unat n))
                  (send_enqueue pp))))
             else pool_free pp))
    (sq (switch_show pc v)
        (ignore (postTeacherToAllStudent p ST_ControlChangeScene))))))))))))))"

definition handleGetCurrentScene :: "ptr \<Rightarrow> unit act" where
  "handleGetCurrentScene p = bnd (get_fd p) (\<lambda>fd.
     bnd (CRoomManager_get_room_by_fd fd) (\<lambda>room.
       case room of None \<Rightarrow> ret ()
       | Some rid \<Rightarrow>
           sq (set_cType p ST_GetCurrentScene)
          (sq (set_cLen p (of_nat (MSG_HEAD_LEN + 4)))
          (bnd (deref_room room) (\<lambda>r.
           sq (wr32 p MSG_HEAD_LEN (m_current_scene r))
          (bnd (head_cLen p) (\<lambda>n.
           sq (set_size p (unat n))
              (send_enqueue p))))))))"

definition handleInitSceneFinished :: "ptr \<Rightarrow> unit act" where
  "handleInitSceneFinished p =
     when_type p CT_InitSceneFinished (ignore (postWhiteToTeacher p ST_InitSceneFinished))"

definition handleSceneEnd :: "ptr \<Rightarrow> unit act" where
  "handleSceneEnd p = when_type p CT_Scene_End (bnd (head_cLen p) (\<lambda>n.
     bnd (rd_bytes p MSG_HEAD_LEN (unat (n - of_nat MSG_HEAD_LEN))) (\<lambda>se.
       ignore (postMessage p ST_Scene_End (Some se)))))"

section \<open>Entering and leaving\<close>

definition handleConfirmIntoClassRoom :: "ptr \<Rightarrow> unit act" where
  "handleConfirmIntoClassRoom p = when_type p CT_ConfirmIntoClassRoom
    (sq (set_cType p ST_ConfirmIntoClassRoom)
    (sq (set_cLen p (of_nat (MSG_HEAD_LEN + sizeof sCommonStruct)))
    (bnd (get_fd p) (\<lambda>fd.
     bnd (CRoomManager_get_room_by_fd fd) (\<lambda>proom.
       case proom of None \<Rightarrow> ret ()
       | Some rid \<Rightarrow> bnd (deref_room proom) (\<lambda>r.
           sq (wr32 p MSG_HEAD_LEN (if 0 < m_teacher_fd r \<and> m_isUsed r = 1
                 then TT_LOGIN_CLASSROOM else TT_LOGOUT_CLASSROOM))
          (sq (set_size p (MSG_HEAD_LEN + sizeof sCommonStruct))
              (send_enqueue p))))))))"

text \<open>The request is copied to the stack, so its strings end with the structure.\<close>

definition handleLoginClassRoom :: "ptr \<Rightarrow> unit act" where
  "handleLoginClassRoom p = (let a = MSG_HEAD_LEN; e = MSG_HEAD_LEN + sizeof sLoginOutClassRoom in
     bnd (rd_cstr p (a + offsetof sLoginOutClassRoom ''sClassRoomName'') e) (\<lambda>room_name.
     bnd (CRoomManager_get_room_by_name room_name) (\<lambda>proom.
       case proom of None \<Rightarrow> pool_free p
       | Some rid \<Rightarrow> bnd (deref_room proom) (\<lambda>r.
           if m_isUsed r = 1 then ret () else
           bnd (get_fd p) (\<lambda>fd.
           sq (set_teacher_fd proom fd)
          (bnd (rd_cstr p (a + offsetof sLoginOutClassRoom ''sTeacherName'') e) (\<lambda>tn.
           sq (if tn \<noteq> [] then set_teacher_name proom tn else ret ())
          (bnd (rd_cstr p (a + offsetof sLoginOutClassRoom ''sClassName'') e) (\<lambda>cn.
           sq (set_class_name proom cn)
          (sq (set_isUsed proom 1)
              (pool_free p)))))))))))"

text \<open>The packet is used again after it has been recycled.\<close>

definition handleLogoutClassRoom :: "ptr \<Rightarrow> unit act" where
  "handleLogoutClassRoom p = bnd (get_fd p) (\<lambda>fd.
     bnd (CRoomManager_get_room_by_fd fd) (\<lambda>room.
       case room of None \<Rightarrow> ret ()
       | Some rid \<Rightarrow> bnd (deref_room room) (\<lambda>r.
           if CRoom_get_teacher_by_fd r fd \<noteq> None then
             sq (set_cLen p (of_nat (MSG_HEAD_LEN + 4)))
            (sq (set_cType p ST_ConfirmIntoClassRoom)
            (sq (wr32 p MSG_HEAD_LEN TT_LOGOUT_CLASSROOM)
            (sq (ignore (postTeacherToAllStudent p ST_ConfirmIntoClassRoom))
            (bnd pool_malloc (\<lambda>pp. if pp = NULL then ret () else
             sq (set_cLen pp (of_nat (MSG_HEAD_LEN + 4)))
            (sq (set_cType pp ST_ConfirmIntoClassRoom)
            (bnd (get_fd p) (\<lambda>fd.
             sq (set_fd pp fd)
            (sq (wr32 pp MSG_HEAD_LEN TT_LOGOUT_CLASSROOM)
            (sq (ignore (postTeacherToWhite pp ST_ConfirmIntoClassRoom))
            (sq (set_isUsed room 0)
                (ignore (CRoom_reset room)))))))))))))
           else ret ())))"

text \<open>\<open>client_type\<close> 1 is a student, 3 a whiteboard; the student object is made before the check
  that may reject the client.\<close>

definition handleSelectedClassRoom :: "ptr \<Rightarrow> unit act" where
  "handleSelectedClassRoom p =
     bnd (rd32 p (MSG_HEAD_LEN + offsetof sSelectedClassRoom ''classroom_id'')) (\<lambda>cid.
     bnd (rd32 p (MSG_HEAD_LEN + offsetof sSelectedClassRoom ''client_type'')) (\<lambda>ct.
     bnd (CRoomManager_get_room (sint cid)) (\<lambda>proom.
       case proom of None \<Rightarrow> ret ()
       | Some rid \<Rightarrow>
         bnd (get_fd p) (\<lambda>fd.
         if ct = MCT_STUDENT then
           bnd (new_obj set_student CStudent_new) (\<lambda>pstudent.
           sq (upd_student pstudent (CStudent_setId 0))
          (sq (upd_student pstudent (CStudent_setOnLine True))
          (sq (upd_student pstudent (CStudent_setStudentStatus eCS_OFFLINE))
          (bnd (CRoomManager_get_room_by_fd fd) (\<lambda>known.
             if known \<noteq> None then ret ()
             else sq (CRoom_add_student proom fd pstudent) (pool_free p))))))
         else sq (if ct = MCT_WHITEBOARD then set_white_fd proom fd else ret ())
                 (pool_free p)))))"

section \<open>Courses\<close>

definition add_course_row :: "int option \<Rightarrow> row \<Rightarrow> unit act" where
  "add_course_row room w = (case room of None \<Rightarrow> ret ()
     | Some rid \<Rightarrow> bnd new_addr (\<lambda>a. bnd (gets (\<lambda>s. fresh_mem s a)) (\<lambda>g.
         CRoom_add_course room (Some (CCourse_setName (getString w ''course_name'')
           (CCourse_setId (getInt w ''course_id'') (CCourse_new g)))))))"

definition handleSetCourseGroup :: "env \<Rightarrow> ptr \<Rightarrow> unit act" where
  "handleSetCourseGroup e p =
     bnd (rd_cstr p (MSG_HEAD_LEN + offsetof sCourseGroup ''sGradeName'') MAX_BUF) (\<lambda>grade.
     bnd (rd_cstr p (MSG_HEAD_LEN + offsetof sCourseGroup ''sCourseGroupName'') MAX_BUF) (\<lambda>course.
     sq (case db_query e SQL_SELECT_USED_COURSE [ArgString grade, ArgString course] of
           None \<Rightarrow> ret ()
         | Some rows \<Rightarrow> bnd (get_fd p) (\<lambda>fd.
             bnd (CRoomManager_get_room_by_fd fd) (\<lambda>room.
             sq (if room \<noteq> None then CRoom_clear_all_course room else ret ())
                (for_each rows (add_course_row room)))))
    (bnd pool_malloc (\<lambda>tmp. if tmp = NULL then ret () else
     sq (set_cLen tmp (of_nat (MSG_HEAD_LEN + sizeof sCommonStruct)))
    (sq (wr32 tmp MSG_HEAD_LEN TT_LOGIN_CLASSROOM)
    (sq (set_size tmp (MSG_HEAD_LEN + sizeof sCommonStruct))
    (bnd (get_fd p) (\<lambda>fd.
     sq (set_fd tmp fd)
    (sq (ignore (postTeacherToAllStudent tmp ST_ConfirmIntoClassRoom))
    (bnd pool_malloc (\<lambda>pp. if pp = NULL then ret () else
     sq (set_cLen pp (of_nat (MSG_HEAD_LEN + 4)))
    (sq (set_cType pp ST_ConfirmIntoClassRoom)
    (bnd (head_cLen pp) (\<lambda>n.
     sq (set_size pp (unat n))
    (bnd (get_fd p) (\<lambda>fd.
     sq (set_fd pp fd)
    (sq (wr32 pp MSG_HEAD_LEN TT_LOGOUT_CLASSROOM)
        (ignore (postTeacherToWhite pp ST_ConfirmIntoClassRoom)))))))))))))))))))"

definition course_names :: "CRoom \<Rightarrow> cstring" where
  "course_names r = concat (map (\<lambda>c. CCourse.m_name c @ chars '','') (m_course_list r))"

text \<open>\<open>strncpy\<close> with the length of the source into \<open>char[128]\<close>; the field is then printed as a
  string, so it has to keep its last zero.\<close>

definition course_field :: "cstring \<Rightarrow> byte list option" where
  "course_field s = (if length s < 128 then
       (let t = takeWhile (\<lambda>c. c \<noteq> 0) s in Some (t @ replicate (128 - length t) 0))
     else None)"

definition handleGetCourseGroup :: "ptr \<Rightarrow> unit act" where
  "handleGetCourseGroup p = bnd (get_fd p) (\<lambda>fd.
     bnd (CRoomManager_get_room_by_fd fd) (\<lambda>room.
     bnd (case room of None \<Rightarrow> ret []
          | Some rid \<Rightarrow> bnd (deref_room room) (\<lambda>r. ret (course_names r))) (\<lambda>s.
       case course_field s of None \<Rightarrow> fail OutOfBounds
       | Some f \<Rightarrow>
           sq (set_cType p ST_GetCourseGroup)
          (sq (set_cLen p (of_nat (MSG_HEAD_LEN + sizeof sGetCourseGroup)))
          (sq (wr_bytes p MSG_HEAD_LEN f)
          (bnd (head_cLen p) (\<lambda>n.
           sq (set_size p (unat n))
              (send_enqueue p))))))))"

definition handleGetCourseDBCount :: "env \<Rightarrow> ptr \<Rightarrow> unit act" where
  "handleGetCourseDBCount e p = ignore (postDBRecordCount e p 1)"

definition handleGetCourseDB :: "env \<Rightarrow> ptr \<Rightarrow> unit act" where
  "handleGetCourseDB e p = ignore (postDBRecord e p 1)"

definition handleGetCourseItemCount :: "env \<Rightarrow> ptr \<Rightarrow> unit act" where
  "handleGetCourseItemCount e p = ignore (postDBRecordCount e p 6)"

definition handleGetCourseItem :: "env \<Rightarrow> ptr \<Rightarrow> unit act" where
  "handleGetCourseItem e p = ignore (postDBRecord e p 6)"

definition handleGetClassRoomDBCount :: "env \<Rightarrow> ptr \<Rightarrow> unit act" where
  "handleGetClassRoomDBCount e p = ignore (postDBRecordCount e p 4)"

definition handleGetClassRoomDB :: "env \<Rightarrow> ptr \<Rightarrow> unit act" where
  "handleGetClassRoomDB e p = ignore (postDBRecord e p 4)"

definition handleGetGradeDBCount :: "env \<Rightarrow> ptr \<Rightarrow> unit act" where
  "handleGetGradeDBCount e p = ignore (postDBRecordCount e p 2)"

definition handleGetGradeDB :: "env \<Rightarrow> ptr \<Rightarrow> unit act" where
  "handleGetGradeDB e p = ignore (postDBRecord e p 2)"

definition handleGetClassDBCount :: "env \<Rightarrow> ptr \<Rightarrow> unit act" where
  "handleGetClassDBCount e p = ignore (postDBRecordCount e p 3)"

definition handleGetClassDB :: "env \<Rightarrow> ptr \<Rightarrow> unit act" where
  "handleGetClassDB e p = ignore (postDBRecord e p 3)"

definition handleGetAllStudentInfoCount :: "env \<Rightarrow> ptr \<Rightarrow> unit act" where
  "handleGetAllStudentInfoCount e p = ignore (postDBRecordCount e p 5)"

definition handleGetAllStudentInfo :: "env \<Rightarrow> ptr \<Rightarrow> unit act" where
  "handleGetAllStudentInfo e p = ignore (postDBRecord e p 5)"

definition handleLoginResult :: "ptr \<Rightarrow> unit act" where "handleLoginResult p = ret ()"
definition handleLogout :: "ptr \<Rightarrow> unit act" where "handleLogout p = ret ()"
definition handleLogoutReuslt :: "ptr \<Rightarrow> unit act" where "handleLogoutReuslt p = ret ()"
definition handleCourseFinished :: "ptr \<Rightarrow> unit act" where "handleCourseFinished p = ret ()"

definition handleDBRecordFinished :: "ptr \<Rightarrow> unit act" where
  "handleDBRecordFinished p = (if p = NULL then ret () else sq (buf_reset p) (pool_free p))"

section \<open>Information about people and items\<close>

definition detail_bytes :: "row \<Rightarrow> byte list option" where
  "detail_bytes w = cat_fields [str_field 20 (getString w ''number''), str_field 20 (getString w ''first_name''),
     str_field 20 (getString w ''last_name''), str_field 10 (getString w ''sex''),
     str_field 20 (getString w ''school_name''), str_field 20 (getString w ''grade_name''),
     str_field 20 (getString w ''class_name''), str_field 20 (getString w ''account''),
     Some (replicate 20 0), str_field 20 (getString w ''tf_name''), str_field 20 (getString w ''tl_name''),
     Some (le32 (getInt w ''picture_id''))]"

text \<open>Every row overwrites the one before; without a row the structure is all zeros.\<close>

fun last_detail :: "byte list \<Rightarrow> row list \<Rightarrow> byte list option" where
  "last_detail acc [] = Some acc"
| "last_detail acc (w # ws) = (case detail_bytes w of None \<Rightarrow> None | Some d \<Rightarrow> last_detail d ws)"

definition handleGetStudentDetailInfo :: "env \<Rightarrow> ptr \<Rightarrow> unit act" where
  "handleGetStudentDetailInfo e p = bnd (head_cType p) (\<lambda>t.
     if t = CT_GetStudentDetailInfo then
       bnd (rd32 p (MSG_HEAD_LEN + offsetof sStudentDetail ''iStudentId'')) (\<lambda>sid.
       bnd (rd_cstr p (MSG_HEAD_LEN + offsetof sStudentDetail ''sStudentName'') MAX_BUF) (\<lambda>name.
         case db_query e SQL_SELECT_STUDENT_DETAILINFO [ArgInt sid, ArgString name] of
           None \<Rightarrow> ret ()
         | Some rows \<Rightarrow>
             (case last_detail (replicate (sizeof sGetStudentDetailInfo) 0) rows of
                None \<Rightarrow> fail OutOfBounds
              | Some d \<Rightarrow> ignore (postMessage p ST_GetStudentDetailInfo (Some d)))))
     else ret ())"

fun teacher_fields :: "byte list \<Rightarrow> byte list \<Rightarrow> row list \<Rightarrow> byte list option" where
  "teacher_fields n c [] = Some (n @ c)"
| "teacher_fields n c (w # ws) = (case strcpy_over n (getString w ''account'') of None \<Rightarrow> None
     | Some n' \<Rightarrow> (case strcpy_over c (getString w ''pic_name'') of None \<Rightarrow> None
        | Some c' \<Rightarrow> teacher_fields n' c' ws))"

definition handleGetTeacherInfo :: "env \<Rightarrow> ptr \<Rightarrow> unit act" where
  "handleGetTeacherInfo e p = when_type p CT_GetTeacherInfo (bnd (get_fd p) (\<lambda>fd.
     bnd (CRoomManager_get_room_by_fd fd) (\<lambda>room.
       case room of None \<Rightarrow> ret ()
       | Some rid \<Rightarrow> bnd (deref_room room) (\<lambda>r.
           case db_query e SQL_SELECT_TEACHER_DETAILINFO [ArgString (takeWhile (\<lambda>c. c \<noteq> 0) (m_teacher_name r))] of
             None \<Rightarrow> ret ()
           | Some rows \<Rightarrow>
               (case teacher_fields (replicate 20 0) (replicate 128 0) rows of
                  None \<Rightarrow> fail OutOfBounds
                | Some d \<Rightarrow> ignore (postMessage p ST_GetTeacherInfo (Some d)))))))"

fun key_field :: "byte list \<Rightarrow> row list \<Rightarrow> byte list option" where
  "key_field k [] = Some k"
| "key_field k (w # ws) = (case strcpy_over k (getString w ''keys_info'') of None \<Rightarrow> None
     | Some k' \<Rightarrow> key_field k' ws)"

definition handleGetCourseItemKeyInfoReq :: "env \<Rightarrow> ptr \<Rightarrow> unit act" where
  "handleGetCourseItemKeyInfoReq e p =
     bnd (rd_cstr p (MSG_HEAD_LEN + offsetof GetCourseItemKeyInfoReq ''course_item'') MAX_BUF) (\<lambda>item.
       case db_query e SQL_SELECT_ITEM_KEYS [ArgString item] of
         None \<Rightarrow> pool_free p
       | Some rows \<Rightarrow>
           (case key_field (replicate 512 0) rows of
              None \<Rightarrow> fail OutOfBounds
            | Some k \<Rightarrow>
                sq (set_cLen p (of_nat (MSG_HEAD_LEN + sizeof GetCourseItemKeyInfoRsp)))
               (sq (set_cType p CT_GetCourseItemKeyInfoRsp)
               (sq (wr_bytes p MSG_HEAD_LEN k)
               (bnd (head_cLen p) (\<lambda>n.
                sq (set_size p (unat n))
                   (send_enqueue p)))))))"

section \<open>Leaving early, locking, common controls\<close>

definition handleLeaveEarly :: "ptr \<Rightarrow> unit act" where
  "handleLeaveEarly p = when_type p CT_LeaveEarly
     (bnd (rd32 p (MSG_HEAD_LEN + offsetof sLeaveEarly ''student_id'')) (\<lambda>sid.
        ignore (postTeacherToStudent p ST_LeaveEarly sid)))"

definition handleConfirmLeaveEarly :: "ptr \<Rightarrow> unit act" where
  "handleConfirmLeaveEarly p = (if p = NULL then ret () else
     bnd (get_fd p) (\<lambda>fd.
     bnd (CRoomManager_get_room_by_fd fd) (\<lambda>room.
       case room of None \<Rightarrow> ret ()
       | Some rid \<Rightarrow> bnd (deref_room room) (\<lambda>r.
           let stu = CRoom_get_student_by_fd r fd in
           if stu = NULL then ret ()
           else sq (upd_student stu (CStudent_setStudentStatus eCS_LEAVEEARLY))
                   (update_all_student_status room fd 1)))))"

definition handleLockStudent :: "ptr \<Rightarrow> unit act" where
  "handleLockStudent p = when_type p CT_LockStudent (ignore (postTeacherToAllStudent p ST_LockStudent))"

definition handleCommonPlayorPause :: "ptr \<Rightarrow> unit act" where
  "handleCommonPlayorPause p =
     when_type p CT_Common_PlayorPause (ignore (postTeacherToWhite p ST_Common_PlayorPause))"

definition handleCommonResume :: "ptr \<Rightarrow> unit act" where
  "handleCommonResume p = when_type p CT_Common_Resume (ignore (postTeacherToWhite p ST_Common_Resume))"

definition handleCommonStop :: "ptr \<Rightarrow> unit act" where
  "handleCommonStop p = when_type p CT_Common_Stop (ignore (postTeacherToWhite p ST_Common_Stop))"

end
