(* ===== verification/HandleForward.thy ===== *)
theory HandleForward
  imports Messaging
begin

text \<open>
  \<open>handler/HandleCartoon.cpp\<close>, \<open>HandleExercise.cpp\<close> and \<open>HandleSprite.cpp\<close>: controls of the
  teacher that appear on the whiteboard.  Each handler checks the type and forwards.
\<close>

definition handleCartoon_GameStart :: "ptr \<Rightarrow> unit act" where
  "handleCartoon_GameStart p = when_type p CT_Cartoon_GameStart (ignore (postTeacherToWhite p ST_Cartoon_GameStart))"

definition handleCartoon_Play :: "ptr \<Rightarrow> unit act" where
  "handleCartoon_Play p = when_type p CT_Cartoon_Play (ignore (postTeacherToWhite p ST_Cartoon_Play))"

definition handleCartoon_Pause :: "ptr \<Rightarrow> unit act" where
  "handleCartoon_Pause p = when_type p CT_Cartoon_Pause (ignore (postTeacherToWhite p ST_Cartoon_Pause))"

definition handleCartoon_Stop :: "ptr \<Rightarrow> unit act" where
  "handleCartoon_Stop p = when_type p CT_Cartoon_Stop (ignore (postTeacherToWhite p ST_Cartoon_Stop))"

definition handleCartoon_GameEnd :: "ptr \<Rightarrow> unit act" where
  "handleCartoon_GameEnd p = when_type p CT_Cartoon_GameEnd (ignore (postTeacherToWhite p ST_Cartoon_GameEnd))"

definition handleExercise_GameStart :: "ptr \<Rightarrow> unit act" where
  "handleExercise_GameStart p = when_type p CT_Exercise_GameStart (ignore (postTeacherToWhite p ST_Exercise_GameStart))"

definition handleExercise_Play :: "ptr \<Rightarrow> unit act" where
  "handleExercise_Play p = when_type p CT_Exercise_Play (ignore (postTeacherToWhite p ST_Exercise_Play))"

definition handleExercise_Pause :: "ptr \<Rightarrow> unit act" where
  "handleExercise_Pause p = when_type p CT_Exercise_Pause (ignore (postTeacherToWhite p ST_Exercise_Pause))"

definition handleExercise_Stop :: "ptr \<Rightarrow> unit act" where
  "handleExercise_Stop p = when_type p CT_Exercise_Stop (ignore (postTeacherToWhite p ST_Exercise_Stop))"

definition handleExercise_GameEnd :: "ptr \<Rightarrow> unit act" where
  "handleExercise_GameEnd p = when_type p CT_Exercise_GameEnd (ignore (postTeacherToWhite p ST_Exercise_GameEnd))"

definition handleShowSpriteAnimation :: "ptr \<Rightarrow> unit act" where
  "handleShowSpriteAnimation p = when_type p CT_ShowSpriteAnimation (ignore (postTeacherToWhite p ST_ShowSpriteAnimation))"

definition handleShowSpriteControl :: "ptr \<Rightarrow> unit act" where
  "handleShowSpriteControl p = when_type p CT_ShowSpriteControl (ignore (postTeacherToWhite p ST_ShowSpriteControl))"

definition handleControlLevel :: "ptr \<Rightarrow> unit act" where
  "handleControlLevel p = when_type p CT_ControlLevel (ignore (postTeacherToWhite p ST_ControlLevel))"

end
