(* ===== verification/HandleBuildHouse.thy ===== *)
theory HandleBuildHouse
  imports Messaging
begin

text \<open>
  \<open>handler/HandleBuildHouse.cpp\<close>: the build-a-house game.  The controls of the teacher are
  forwarded to the whiteboard; the pictures of the students change the house of their group, or
  of the static \<open>test_group\<close> while a room shows the demonstration, and the whole house is then
  sent to the group.  Handlers whose body is \<open>todo\<close> keep their packet.
\<close>

section \<open>Controls of the teacher\<close>

text \<open>After forwarding, the text is still printed from the packet.\<close>

definition handleBuildHouse_CaiHongXiaoWu :: "ptr \<Rightarrow> unit act" where
  "handleBuildHouse_CaiHongXiaoWu p = when_type p CT_BuildHouse_CaiHongXiaoWu
     (sq (ignore (postTeacherToWhite p ST_BuildHouse_CaiHongXiaoWu))
         (ignore (rd_cstr p (MSG_HEAD_LEN + offsetof sBuildHouseCaiHongXiaoWu ''sText'') MAX_BUF)))"

definition handleBuildHouse_CaiHongGu :: "ptr \<Rightarrow> unit act" where
  "handleBuildHouse_CaiHongGu p = when_type p CT_BuildHouse_CaiHongGu (ignore (postTeacherToWhite p ST_BuildHouse_CaiHongGu))"

definition handleBuildHouse_XiaoGuaiWu :: "ptr \<Rightarrow> unit act" where
  "handleBuildHouse_XiaoGuaiWu p = when_type p CT_BuildHouse_XiaoGuaiWu (ignore (postTeacherToWhite p ST_BuildHouse_XiaoGuaiWu))"

definition handleBuildHouse_MuBu :: "ptr \<Rightarrow> unit act" where
  "handleBuildHouse_MuBu p = when_type p CT_BuildHouse_MuBu (ignore (postTeacherToWhite p ST_BuildHouse_MuBu))"

definition handleBuildHouse_OperatorDemo :: "ptr \<Rightarrow> unit act" where
  "handleBuildHouse_OperatorDemo p = when_type p CT_BuildHouse_OperatorDemo (ret ())"

definition handleBuildHouse_SingleMode :: "ptr \<Rightarrow> unit act" where
  "handleBuildHouse_SingleMode p = when_type p CT_BuildHouse_SingleMode (ignore (postTeacherToWhite p ST_BuildHouse_SingleMode))"

definition handleBuildHouse_GroupMode :: "ptr \<Rightarrow> unit act" where
  "handleBuildHouse_GroupMode p = when_type p CT_BuildHouse_GroupMode (ignore (postTeacherToWhite p ST_BuildHouse_GroupMode))"

definition handleBuildHouse_GameEnd :: "ptr \<Rightarrow> unit act" where
  "handleBuildHouse_GameEnd p = when_type p CT_BuildHouse_GameEnd (ignore (postTeacherToWhite p ST_BuildHouse_GameEnd))"

definition handleBuildHouse_EmailTibet :: "ptr \<Rightarrow> unit act" where
  "handleBuildHouse_EmailTibet p = when_type p CT_BuildHouse_EmailTibet (ignore (postTeacherToWhite p ST_BuildHouse_EmailTibet))"

definition handleBuildHouse_EmailAmerica :: "ptr \<Rightarrow> unit act" where
  "handleBuildHouse_EmailAmerica p = when_type p CT_BuildHouse_EmailAmerica (ignore (postTeacherToWhite p ST_BuildHouse_EmailAmerica))"

definition handleBuildHouse_Activation :: "ptr \<Rightarrow> unit act" where
  "handleBuildHouse_Activation p = when_type p CT_BuildHouse_Activation (ignore (postTeacherToWhite p ST_BuildHouse_Activation))"

definition handleBuildHouse_Role :: "ptr \<Rightarrow> unit act" where
  "handleBuildHouse_Role p = when_type p CT_BuildHouse_Role (ignore (postTeacherToWhite p ST_BuildHouse_Role))"

text \<open>The first word of the body is set to 1 whatever the type is.\<close>

definition handleBuildHouse_Stamp :: "ptr \<Rightarrow> unit act" where
  "handleBuildHouse_Stamp p = (if p = NULL then ret () else
     sq (wr32 p MSG_HEAD_LEN 1)
        (when_type p CT_BuildHouse_Stamp (ignore (postTeacherToWhite p ST_BuildHouse_Stamp))))"

definition handleBuildHouse_ScreenShot :: "ptr \<Rightarrow> unit act" where
  "handleBuildHouse_ScreenShot p = when_type p CT_BuildHouse_ScreenShot (ignore (postTeacherToWhite p ST_BuildHouse_Screenshot))"

definition handleBuildHouse_SetStuGroupCount :: "ptr \<Rightarrow> unit act" where "handleBuildHouse_SetStuGroupCount p = ret ()"
definition handleBuildHouse_SetStuGroup :: "ptr \<Rightarrow> unit act" where "handleBuildHouse_SetStuGroup p = ret ()"
definition handleBuildHouse_GetStuGroupCount :: "ptr \<Rightarrow> unit act" where "handleBuildHouse_GetStuGroupCount p = ret ()"
definition handleBuildHouse_GetStuGroup :: "ptr \<Rightarrow> unit act" where "handleBuildHouse_GetStuGroup p = ret ()"
definition handleBuildHouse_UpdatePos :: "ptr \<Rightarrow> unit act" where "handleBuildHouse_UpdatePos p = ret ()"
definition handleBuildHouse_Save :: "ptr \<Rightarrow> unit act" where "handleBuildHouse_Save p = ret ()"
definition handleBuildHouse_SaveHouse :: "ptr \<Rightarrow> unit act" where "handleBuildHouse_SaveHouse p = ret ()"

section \<open>Joining and saving\<close>

definition handleBuildHouse_GameStart :: "ptr \<Rightarrow> unit act" where
  "handleBuildHouse_GameStart p = bnd (rd32 p MSG_HEAD_LEN) (\<lambda>v. bnd (get_fd p) (\<lambda>fd.
     if v = 0 then
       bnd (new_obj set_student CStudent_new) (\<lambda>student.
       sq (upd_student student (CStudent_setId 3))
          (ignore (CGroup_add_student_to_group TEST_GROUP fd student)))
     else if v = 1 then
       sq (modify (\<lambda>s. s\<lparr>test_white_fd := fd\<rparr>))
      (sq (set_cLen p (of_nat (MSG_HEAD_LEN + 4)))
      (sq (set_cType p ST_GetStudentCount)
      (sq (wr32 p MSG_HEAD_LEN 35)
      (bnd (head_cLen p) (\<lambda>n.
       sq (set_size p (unat n))
          (send_enqueue p))))))
     else ret ()))"

text \<open>The first 1024 bytes of the packet are kept in the row of the student; the index is checked
  from above only.\<close>

definition store_row :: "int \<Rightarrow> mem \<Rightarrow> unit act" where
  "store_row i m = (if i < 0 \<or> 36 \<le> i then fail OutOfBounds else
     upd_house TEST_GROUP (\<lambda>h. h\<lparr>longlong_data :=
       (longlong_data h)(nat i := copy_mem (longlong_data h (nat i)) 0 m 0 1024)\<rparr>))"

definition handleBuildHouse_Update :: "ptr \<Rightarrow> unit act" where
  "handleBuildHouse_Update p = bnd (rd32 p (MSG_HEAD_LEN + 4)) (\<lambda>studentId.
     if sint studentId \<le> 35 then
       bnd (deref bufs p) (\<lambda>b.
       sq (store_row (sint studentId) (m_ptr b))
      (bnd (gets test_white_fd) (\<lambda>wfd.
         CGroup_sendToWhite p ST_BuildHouse_Update wfd)))
     else ret ())"

section \<open>Editing the house\<close>

text \<open>The new state of the house, to every student of the group.\<close>

definition sync_group :: "ptr \<Rightarrow> ptr \<Rightarrow> unit act" where
  "sync_group g p = bnd (CGroup_set_buf g p) (\<lambda>_. CGroup_sendToOtherStudent g p ST_BuildHouse_Update)"

text \<open>The house an editing packet is about: the group of the sender, or the test group while the
  room shows the demonstration (\<open>Some NULL\<close> stands for a missing group, \<open>None\<close> for a room in
  neither state).\<close>

definition edited_group :: "int option \<Rightarrow> int \<Rightarrow> ptr option act" where
  "edited_group room fd = bnd (deref_room room) (\<lambda>r.
     if m_is_show r = 0 then bnd (CRoom_get_group_by_fd room fd) (\<lambda>g. ret (Some g))
     else if m_is_show r = 1 then ret (Some TEST_GROUP) else ret None)"

definition handleBuildHouse_Move :: "ptr \<Rightarrow> unit act" where
  "handleBuildHouse_Move p = (if p = NULL then ret () else
     bnd (get_fd p) (\<lambda>fd.
     bnd (CRoomManager_get_room_by_fd fd) (\<lambda>room.
       case room of None \<Rightarrow> ret ()
       | Some rid \<Rightarrow> bnd (edited_group room fd) (\<lambda>og.
           case og of None \<Rightarrow> ret ()
           | Some g \<Rightarrow> if g = NULL then ret () else
               bnd (rd32 p (MSG_HEAD_LEN + offsetof movePic ''layer'')) (\<lambda>layer.
               bnd (rd32 p (MSG_HEAD_LEN + offsetof movePic ''toX'')) (\<lambda>x.
               bnd (rd32 p (MSG_HEAD_LEN + offsetof movePic ''toY'')) (\<lambda>y.
               bnd (CMakeHouse_get_node_id_by_layer g layer) (\<lambda>i.
               bnd (CMakeHouse_modifyMove g i x y) (\<lambda>_. sync_group g p)))))))))"

definition handleBuildHouse_Scale :: "ptr \<Rightarrow> unit act" where
  "handleBuildHouse_Scale p =
     bnd (rd32 p (MSG_HEAD_LEN + offsetof scalePic ''layer'')) (\<lambda>layer.
     bnd (rd32 p (MSG_HEAD_LEN + offsetof scalePic ''toScale'')) (\<lambda>v.
     bnd (CMakeHouse_get_node_id_by_layer TEST_GROUP layer) (\<lambda>i.
     bnd (CMakeHouse_modifyScale TEST_GROUP i v) (\<lambda>_. sync_group TEST_GROUP p))))"

definition handleBuildHouse_Angle :: "ptr \<Rightarrow> unit act" where
  "handleBuildHouse_Angle p =
     bnd (rd32 p (MSG_HEAD_LEN + offsetof rotatePic ''layer'')) (\<lambda>layer.
     bnd (rd32 p (MSG_HEAD_LEN + offsetof rotatePic ''toAngle'')) (\<lambda>v.
     bnd (CMakeHouse_get_node_id_by_layer TEST_GROUP layer) (\<lambda>i.
     bnd (CMakeHouse_modifyAngle TEST_GROUP i v) (\<lambda>_. sync_group TEST_GROUP p))))"

text \<open>Upwards the count handed over is negative.\<close>

definition handleBuildHouse_Change_Layer :: "bool \<Rightarrow> ptr \<Rightarrow> unit act" where
  "handleBuildHouse_Change_Layer rf p =
     bnd (rd32 p (MSG_HEAD_LEN + offsetof putLayerPic ''layer'')) (\<lambda>layer.
     bnd (rd32 p (MSG_HEAD_LEN + offsetof putLayerPic ''toLayer'')) (\<lambda>toLayer.
     bnd (CMakeHouse_get_node_id_by_layer TEST_GROUP layer) (\<lambda>i.
       let cnt = sint (layer - toLayer) in
       if cnt = 0 then ret () else
       bnd (if 0 < cnt then CMakeHouse_layer_down rf TEST_GROUP (word_of_int i) cnt
            else CMakeHouse_layer_up rf TEST_GROUP (word_of_int i) cnt) (\<lambda>_.
       sync_group TEST_GROUP p))))"

text \<open>A new node with angle 0, scale 1, the next node id and the current layer, which then moves
  up.  The owner is the registered student, in the test group the id from the packet.\<close>

definition add_picture :: "ptr \<Rightarrow> ptr \<Rightarrow> int \<Rightarrow> bool \<Rightarrow> unit act" where
  "add_picture g p fd demo =
     bnd (rd32 p (MSG_HEAD_LEN + offsetof AddPic ''studentId'')) (\<lambda>sid.
     bnd (rd32 p (MSG_HEAD_LEN + offsetof AddPic ''x'')) (\<lambda>x.
     bnd (rd32 p (MSG_HEAD_LEN + offsetof AddPic ''y'')) (\<lambda>y.
     bnd (rd16 p (MSG_HEAD_LEN + offsetof AddPic ''picName'')) (\<lambda>name.
     bnd (new_obj set_node (\<lambda>gb. CNode_new gb fd x y)) (\<lambda>n.
     sq (upd_node n (CNode_set_angle 0))
    (sq (upd_node n (CNode_set_scale 0x3F800000))
    (bnd (CGroup_getAutoNodeId g) (\<lambda>i.
     sq (upd_node n (CNode_set_node_id i))
    (bnd (CMakeHouse_get_current_layer g) (\<lambda>l.
     sq (upd_node n (CNode_set_layer l))
    (sq (upd_node n (CNode_set_sname name))
    (bnd (if demo then ret sid
          else bnd (CGroup_get_student_by_fd g fd) (\<lambda>stu. bnd (deref students stu) (\<lambda>st. ret (m_Id st)))) (\<lambda>owner.
     sq (upd_node n (CNode_set_student_id owner))
    (bnd (CMakeHouse_get_current_layer g) (\<lambda>l.
     bnd (CMakeHouse_set_current_layer g (l + 1)) (\<lambda>_.
     bnd (deref nodes n) (\<lambda>nd.
     bnd (CMakeHouse_add g (sint (m_node_id nd)) n) (\<lambda>_.
       sync_group g p))))))))))))))))))"

definition handleBuildHouse_Add_Pic :: "ptr \<Rightarrow> unit act" where
  "handleBuildHouse_Add_Pic p = (if p = NULL then ret () else
     bnd (get_fd p) (\<lambda>fd.
     bnd (CRoomManager_get_room_by_fd fd) (\<lambda>room.
       case room of None \<Rightarrow> ret ()
       | Some rid \<Rightarrow> bnd (edited_group room fd) (\<lambda>og.
           case og of None \<Rightarrow> ret ()
           | Some g \<Rightarrow> if g = NULL then ret () else
               bnd (deref_room room) (\<lambda>r. add_picture g p fd (m_is_show r = 1))))))"

text \<open>An empty house is announced with the count 1000.  The two branches send different types.\<close>

definition handleBuildHouse_Del_Pic :: "ptr \<Rightarrow> unit act" where
  "handleBuildHouse_Del_Pic p = (if p = NULL then ret () else
     bnd (get_fd p) (\<lambda>fd.
     bnd (CRoomManager_get_room_by_fd fd) (\<lambda>room.
       case room of None \<Rightarrow> ret ()
       | Some rid \<Rightarrow> bnd (edited_group room fd) (\<lambda>og.
           case og of None \<Rightarrow> ret ()
           | Some g \<Rightarrow> if g = NULL then ret () else
               bnd (deref_room room) (\<lambda>r.
               bnd (rd32 p (MSG_HEAD_LEN + offsetof deletePic ''layer'')) (\<lambda>layer.
               bnd (CMakeHouse_get_node_id_by_layer g layer) (\<lambda>i.
               bnd (CMakeHouse_del g i) (\<lambda>res.
                 if res \<noteq> 0 then ret () else
                 bnd (CGroup_set_buf g p) (\<lambda>_.
                 bnd (get_size p) (\<lambda>n.
                 sq (if n = 12 then wr32 p MSG_HEAD_LEN 1000 else ret ())
                    (CGroup_sendToOtherStudent g p
                       (if m_is_show r = 1 then ST_BuildHouse_Update else CT_BuildHouse_Update))))))))))))"

end
