(* ===== verification/HandlePuzzle.thy ===== *)
theory HandlePuzzle
  imports Messaging
begin

text \<open>
  \<open>handler/HandlePuzzle.cpp\<close>: the puzzle game.  \<open>handlePuzzle_GetPic\<close> opens its file for writing
  only, so every read fails with -1 and the loop ends only when the pool is empty; \<open>GetPic_among\<close> is the
  handler with what the other threads do between its rounds, \<open>handlePuzzle_GetPic\<close> the handler alone.
\<close>

section \<open>Start and end\<close>

definition handlePuzzle_GameStart :: "env \<Rightarrow> ptr \<Rightarrow> unit act" where
  "handlePuzzle_GameStart e p =
     sq (ignore (postTeacherToAllStudent p ST_Puzzle_GameStart))
    (bnd (get_fd p) (\<lambda>fd.
     bnd (CRoomManager_get_room_by_fd fd) (\<lambda>room.
       case room of None \<Rightarrow> ret () | Some rid \<Rightarrow> CRoom_puzzle_start (time_now e) room)))"

definition handlePuzzle_EndGame :: "env \<Rightarrow> ptr \<Rightarrow> unit act" where
  "handlePuzzle_EndGame e p = bnd (get_fd p) (\<lambda>fd.
     bnd (CRoomManager_get_room_by_fd fd) (\<lambda>room.
       case room of None \<Rightarrow> pool_free p
       | Some rid \<Rightarrow> bnd (deref_room room) (\<lambda>r.
           sq (if fd = m_teacher_fd r then CRoom_puzzle_end (time_now e) room
               else CRoom_end_puzzle_by_fd (time_now e) room fd)
              (pool_free p))))"

section \<open>Forwarded controls\<close>

definition handlePuzzle_IconStatus :: "ptr \<Rightarrow> unit act" where
  "handlePuzzle_IconStatus p = when_type p CT_Puzzle_IconStatus (ignore (postTeacherToWhite p ST_Puzzle_IconStatus))"

definition handlePuzzle_Play :: "ptr \<Rightarrow> unit act" where
  "handlePuzzle_Play p = when_type p CT_Puzzle_Play (ignore (postTeacherToWhite p ST_Puzzle_Play))"

definition handlePuzzle_Pause :: "ptr \<Rightarrow> unit act" where
  "handlePuzzle_Pause p = when_type p CT_Puzzle_Pause (ignore (postTeacherToWhite p ST_Puzzle_Pause))"

definition handlePuzzle_SelectedType :: "ptr \<Rightarrow> unit act" where
  "handlePuzzle_SelectedType p = when_type p CT_Puzzle_SelectedType (ignore (postTeacherToWhite p ST_Puzzle_SelectedType))"

definition handlePuzzle_SelectedSize :: "ptr \<Rightarrow> unit act" where
  "handlePuzzle_SelectedSize p = when_type p CT_Puzzle_SelectedSize (ignore (postTeacherToWhite p ST_Puzzle_SelectedSize))"

definition handlePuzzle_MovePic :: "ptr \<Rightarrow> unit act" where "handlePuzzle_MovePic p = ret ()"
definition handlePuzzle_DeletePic :: "ptr \<Rightarrow> unit act" where "handlePuzzle_DeletePic p = ret ()"
definition handlePuzzle_AddPic :: "ptr \<Rightarrow> unit act" where "handlePuzzle_AddPic p = ret ()"
definition handlePuzzle_CalcScore :: "ptr \<Rightarrow> unit act" where "handlePuzzle_CalcScore p = ret ()"

section \<open>Pictures\<close>

text \<open>
  \<open>read\<close> on a descriptor opened with \<open>O_WRONLY\<close> returns -1, stored in a \<open>size_t\<close>, which is never 0:
  the loop only ends when the pool is empty.
\<close>

definition read_result :: u64 where "read_result = - 1"

definition pic_packet :: "ptr \<Rightarrow> ptr \<Rightarrow> unit act" where
  "pic_packet pp p =
     sq (set_cLen pp (ucast (read_result + of_nat MSG_HEAD_LEN)))
    (sq (set_cType pp 1000)
    (bnd (head_cLen pp) (\<lambda>n.
     sq (set_size pp (unat n))
    (bnd (get_fd p) (\<lambda>fd.
     sq (set_fd pp fd)
        (send_enqueue pp))))))"

text \<open>One round of the loop; \<open>False\<close>: the handler returns.\<close>

definition pic_round :: "ptr \<Rightarrow> bool act" where
  "pic_round p = bnd pool_malloc (\<lambda>pp. if pp = NULL then ret False else sq (pic_packet pp p) (ret True))"

text \<open>
  The endless loop, watched for as many rounds as the list has entries: an entry is what the other threads do before the
  round begins, and the result says whether the loop is still running after the last one.
\<close>

definition pic_loop :: "unit act list \<Rightarrow> ptr \<Rightarrow> bool act" where
  "pic_loop others p = for_while others (\<lambda>other. sq other (pic_round p))"

definition GetPic_among :: "unit act list \<Rightarrow> env \<Rightarrow> ptr \<Rightarrow> bool act" where
  "GetPic_among others e p = (if \<not> can_open_picture e then ret False else pic_loop others p)"

text \<open>Without the other threads one more round than there are free buffers is enough.\<close>

definition handlePuzzle_GetPic :: "env \<Rightarrow> ptr \<Rightarrow> unit act" where
  "handlePuzzle_GetPic e p = bnd (gets avail) (\<lambda>n.
     bnd (GetPic_among (replicate (Suc n) (ret ())) e p) (\<lambda>running. check (\<not> running) Endless))"

text \<open>The type of the packet is \<open>ST_Puzzle_UpdatePic\<close> plus the id of the student.\<close>

definition handlePuzzle_UpdatePic :: "ptr \<Rightarrow> unit act" where
  "handlePuzzle_UpdatePic p = bnd (get_fd p) (\<lambda>fd.
     bnd (CRoomManager_get_room_by_fd fd) (\<lambda>room.
       case room of None \<Rightarrow> pool_free p
       | Some rid \<Rightarrow> bnd (deref_room room) (\<lambda>r.
           let stu = CRoom_get_student_by_fd r fd in
           if stu = NULL then pool_free p else
           bnd (deref students stu) (\<lambda>x.
           sq (wr32 p (MSG_HEAD_LEN + offsetof sPuzzleUpdatePic ''student_id'') (m_Id x))
          (sq (set_cType p (ST_Puzzle_UpdatePic + m_Id x))
          (sq (set_fd p (m_white_fd r))
          (sq (set_size p (MSG_HEAD_LEN + sizeof sPuzzleUpdatePic))
              (send_enqueue p))))))))"

end
