(* ===== verification/HandleRainbowValley.thy ===== *)
theory HandleRainbowValley
  imports Messaging
begin

text \<open>
  \<open>handler/HandleRainbowValley.cpp\<close> as the build flags select it (\<open>_RBV_TEST\<close> and
  \<open>_BUILDHOUSE_LONGLONG\<close> on, \<open>_BH_LONGLONG\<close> off), and \<open>handler/task/BHSyncTask.cpp\<close>, the thread
  that sends the houses of room 1 to their groups thirty times a second.
\<close>

definition handleRainbowValley_HouseNum :: "ptr \<Rightarrow> unit act" where
  "handleRainbowValley_HouseNum p =
     sq (set_cLen p (of_nat (MSG_HEAD_LEN + sizeof sRainbowValley_House_Num)))
    (sq (set_cType p ST_RainbowValley_HouseNum)
    (sq (wr32 p MSG_HEAD_LEN 35)
    (bnd (head_cLen p) (\<lambda>n.
     sq (set_size p (unat n))
        (send_enqueue p)))))"

text \<open>The rows 1 to 35 of the table; the test in the source compares an array with \<open>NULL\<close> and is
  always true.  A row that cannot get a buffer is skipped.\<close>

definition handleRainbowValley_HouseInfo :: "ptr \<Rightarrow> unit act" where
  "handleRainbowValley_HouseInfo p = for_each [1 ..< 36] (\<lambda>i.
     bnd pool_malloc (\<lambda>pp. if pp = NULL then ret () else
     bnd (get_house TEST_GROUP) (\<lambda>h.
     sq (wr_bytes pp 0 (bytes_at (longlong_data h i) 0 1024))
    (bnd (gets test_white_fd) (\<lambda>wfd.
     CGroup_sendToWhite pp ST_RainbowValley_HouseInfo wfd)))))"

text \<open>The picture name is chosen by the top four bits of the short name.\<close>

definition house_picture_name :: "u16 \<Rightarrow> byte list option" where
  "house_picture_name v = (let k = v AND 0xF000; n = dec_bytes (uint (v AND 0x0FFF)) @ chars ''.png'' in
     if k = 0x1000 then Some (chars ''MakeHouse/Construct/construct'' @ n @ [0])
     else if k = 0x2000 then Some (chars ''MakeHouse/Accessory/animal'' @ n @ [0])
     else if k = 0x3000 then Some (chars ''MakeHouse/Other/plant'' @ n @ [0])
     else None)"

text \<open>One node: skipped, and the count lowered, while its student has not finished.\<close>

definition write_item :: "ptr \<Rightarrow> ptr \<Rightarrow> ptr \<Rightarrow> unit act" where
  "write_item g pp n = bnd (deref nodes n) (\<lambda>x.
     bnd (CGroup_get_student_by_studentId g (m_student_id x)) (\<lambda>stu.
     bnd (deref students stu) (\<lambda>st.
       if isBuildHouseFinished st = 0 then
         bnd (rd32 pp MSG_HEAD_LEN) (\<lambda>c. wr32 pp MSG_HEAD_LEN (c - 1))
       else bnd (head_cLen pp) (\<lambda>len. let a = unat len in
         sq (wr32 pp (a + offsetof sRainbowValley_HouseItem_Info ''x'') (m_position_x x))
        (sq (wr32 pp (a + offsetof sRainbowValley_HouseItem_Info ''y'') (m_position_y x))
        (sq (wr32 pp (a + offsetof sRainbowValley_HouseItem_Info ''angle'') (m_angle x))
        (sq (wr32 pp (a + offsetof sRainbowValley_HouseItem_Info ''zoom'') (m_scale x))
        (sq (wr32 pp (a + offsetof sRainbowValley_HouseItem_Info ''layer'') (CNode.m_layer x))
        (sq (case house_picture_name (m_sname x) of None \<Rightarrow> ret ()
             | Some bs \<Rightarrow> wr_bytes pp (a + offsetof sRainbowValley_HouseItem_Info ''picture_name'') bs)
            (set_cLen pp (len + of_nat (sizeof sRainbowValley_HouseItem_Info))))))))))))"

fun send_houses :: "ptr \<Rightarrow> u32 \<Rightarrow> (int \<times> ptr) list \<Rightarrow> bool act" where
  "send_houses p idx [] = ret True"
| "send_houses p idx ((k, g) # m) = bnd pool_malloc (\<lambda>pp. if pp = NULL then ret False else
     sq (buf_reset pp)
    (sq (set_cType pp (20000 + idx))
    (sq (set_cLen pp (of_nat (MSG_HEAD_LEN + 4)))
    (bnd (get_house g) (\<lambda>h.
     sq (wr32 pp MSG_HEAD_LEN (of_nat (length (m_node_map h))))
    (sq (for_each (m_node_map h) (\<lambda>(i, n). write_item g pp n))
    (bnd (get_fd p) (\<lambda>fd.
     sq (set_fd pp fd)
    (bnd (head_cLen pp) (\<lambda>len.
     sq (set_size pp (unat len))
    (sq (send_enqueue pp)
        (send_houses p (idx + 1) m))))))))))))"

definition handleTest :: "ptr \<Rightarrow> unit act" where
  "handleTest p = bnd (get_fd p) (\<lambda>fd.
     bnd (CRoomManager_get_room_by_fd fd) (\<lambda>room.
       case room of None \<Rightarrow> ret ()
       | Some rid \<Rightarrow> bnd (deref_room room) (\<lambda>r.
           bnd (send_houses p 0 (m_buildhouse_groups r)) (\<lambda>ok.
             if ok then CRoom_build_house_end room else ret ()))))"

section \<open>BHSyncTask\<close>

definition FPSVALUE :: int where "FPSVALUE = 30"

text \<open>One group: its house to the whiteboard as well in the second frame of a second; an empty
  house is not sent.  The result is the new value of \<open>index\<close>.\<close>

definition sync_one :: "int \<Rightarrow> int \<Rightarrow> u32 \<Rightarrow> ptr \<Rightarrow> u32 act" where
  "sync_one white_fd fps index g = bnd pool_malloc (\<lambda>p. if p = NULL then ret index else
     sq (set_size p 0)
    (bnd (CGroup_set_buf g p) (\<lambda>_.
     bnd (get_size p) (\<lambda>n.
       if n > 12 then
         bnd (if fps = 1 then
                bnd pool_malloc (\<lambda>pw. if pw = NULL then ret index else
                sq (memcpy_buf pw 0 p 0 n)
               (sq (set_size pw n)
               (sq (set_cLen pw (of_nat n))
               (sq (set_cType pw (30000 + index))
               (sq (set_fd pw white_fd)
               (sq (send_enqueue pw)
                   (ret (index + 1))))))))
              else ret index) (\<lambda>index'.
         sq (CGroup_sendToOtherStudent g p ST_BuildHouse_Update) (ret index'))
       else sq (pool_free p) (ret index)))))"

fun sync_groups :: "int \<Rightarrow> int \<Rightarrow> u32 \<Rightarrow> (int \<times> ptr) list \<Rightarrow> u32 act" where
  "sync_groups white_fd fps index [] = ret index"
| "sync_groups white_fd fps index ((k, g) # m) =
     bnd (sync_one white_fd fps index g) (\<lambda>index'. sync_groups white_fd fps index' m)"

record bhsync =
  m_oldtime :: int
  m_fps :: int
  bh_index :: u32

text \<open>One round of the endless loop at time \<open>now\<close>; \<open>None\<close> when the thread returns because there
  is no room 1.\<close>

definition BHSyncTask_round :: "int \<Rightarrow> bhsync \<Rightarrow> bhsync option act" where
  "BHSyncTask_round now b =
     (if now = m_oldtime b then
        if m_fps b < FPSVALUE then
          bnd (CRoomManager_get_room 1) (\<lambda>room.
            case room of None \<Rightarrow> ret None
            | Some rid \<Rightarrow> bnd (deref_room room) (\<lambda>r.
                bnd (sync_groups (m_white_fd r) (m_fps b) (bh_index b) (m_buildhouse_groups r)) (\<lambda>i.
                  ret (Some (b\<lparr>m_fps := m_fps b + 1, bh_index := i\<rparr>)))))
        else ret (Some b)
      else ret (Some (b\<lparr>bh_index := 0, m_fps := 0, m_oldtime := now\<rparr>)))"

end
