(* ===== verification/Login.thy ===== *)
theory Login
  imports Messaging
begin

text \<open>
  \<open>content/LoginCheck.cpp\<close>: the check of a login packet for the three kinds of clients.  A query
  that throws leaves the variables as they were, that is empty.  \<open>strncmp\<close> with the length of the
  first string accepts every prefix of the second.
\<close>

definition strncmp_eq :: "cstring \<Rightarrow> cstring \<Rightarrow> bool" where
  "strncmp_eq s t \<longleftrightarrow> take (length s) (takeWhile (\<lambda>c. c \<noteq> 0) t) = s"

text \<open>The last row of an answer decides.\<close>

definition last_field :: "row list option \<Rightarrow> string \<Rightarrow> cstring" where
  "last_field rs col = (case rs of None \<Rightarrow> [] | Some rows \<Rightarrow> if rows = [] then [] else getString (last rows) col)"

definition last_int :: "row list option \<Rightarrow> string \<Rightarrow> u32" where
  "last_int rs col = (case rs of None \<Rightarrow> 0 | Some rows \<Rightarrow> if rows = [] then 0 else getInt (last rows) col)"

definition login_teacher :: "env \<Rightarrow> cstring \<Rightarrow> cstring \<Rightarrow> int" where
  "login_teacher e username password =
     (let strpwd = last_field (db_query e SQL_SELECT_TEACHER [ArgString username]) ''password'' in
      if strncmp_eq password strpwd \<and> 0 < length password then 0 else - 1)"

text \<open>One \<open>ST_SendStudentStatus\<close> with a count of one, for the teacher and for the whiteboard.\<close>

definition login_status :: "ptr \<Rightarrow> int \<Rightarrow> unit act" where
  "login_status stu fd = bnd pool_malloc (\<lambda>pp.
     sq (set_cLen pp (of_nat (MSG_HEAD_LEN + 4 + sizeof ST_SendStudentStatusReq)))
    (sq (set_cType pp ST_SendStudentStatus)
    (bnd (deref students stu) (\<lambda>x.
     sq (wr32 pp MSG_HEAD_LEN 1)
    (sq (wr_status pp (MSG_HEAD_LEN + 4) (m_Id x) eCS_ONLINE)
    (bnd (head_cLen pp) (\<lambda>n.
     sq (set_size pp (unat n))
    (sq (set_fd pp fd)
        (send_enqueue pp)))))))))"

text \<open>The states of all students of the room, collected in a \<open>char[512]\<close>.\<close>

fun collect_status :: "(int \<times> ptr) list \<Rightarrow> byte list \<Rightarrow> byte list act" where
  "collect_status [] acc = ret acc"
| "collect_status ((k, stu) # m) acc = bnd (deref students stu) (\<lambda>x.
     sq (check (length acc + sizeof ST_SendStudentStatusReq \<le> 512) OutOfBounds)
        (collect_status m (acc @ le32 (m_Id x) @ le32 (m_current_status x))))"

definition login_broadcast :: "byte list \<Rightarrow> nat \<Rightarrow> int \<Rightarrow> unit act" where
  "login_broadcast tempbuf idx fd = bnd pool_malloc (\<lambda>pp. if pp = NULL then ret () else
     sq (set_cLen pp (of_nat (MSG_HEAD_LEN + sizeof ST_SendStudentStatusReq * idx + 4)))
    (sq (set_cType pp ST_SendStudentStatus)
    (sq (wr32 pp MSG_HEAD_LEN (of_nat idx))
    (sq (wr_bytes pp (MSG_HEAD_LEN + 4) tempbuf)
    (bnd (head_cLen pp) (\<lambda>n.
     sq (set_size pp (unat n))
    (sq (set_fd pp fd)
        (send_enqueue pp))))))))"

definition login_student :: "env \<Rightarrow> int \<Rightarrow> cstring \<Rightarrow> cstring \<Rightarrow> int act" where
  "login_student e fd username password =
     (let rs = db_query e SQL_SELECT_STU [ArgString username, ArgString password] in
      if strncmp_eq password (last_field rs ''password'') then
        bnd (CRoomManager_get_room_by_fd fd) (\<lambda>room.
          case room of None \<Rightarrow> ret (- 1)
          | Some rid \<Rightarrow> bnd (deref_room room) (\<lambda>r.
              let stu = CRoom_get_student_by_fd r fd in
              if stu = NULL then ret (- 1) else
              sq (upd_student stu (CStudent_setName (last_field rs ''first_name'') (last_field rs ''last_name'')))
             (sq (upd_student stu (CStudent_setAccount (last_field rs ''account'')))
             (sq (upd_student stu (CStudent_setId (last_int rs ''student_id'')))
             (sq (upd_student stu (CStudent_setPictureName (last_field rs ''picture_name'')))
             (sq (upd_student stu (CStudent_setOnLine True))
             (sq (upd_student stu (CStudent_setStudentStatus eCS_ONLINE))
             (sq (login_status stu (m_teacher_fd r))
             (sq (login_status stu (m_white_fd r))
             (bnd (collect_status (m_student_map r) []) (\<lambda>tempbuf.
              sq (for_each (m_student_map r) (\<lambda>(k, st). login_broadcast tempbuf (length (m_student_map r)) k))
                 (ret 0))))))))))))
      else ret (- 1))"

text \<open>The query is made, its answer is not used.\<close>

definition login_whiteboard :: "env \<Rightarrow> cstring \<Rightarrow> int" where
  "login_whiteboard e username =
     (let roomName = last_field (db_query e SQL_SELECT_CLASSROOM1 [ArgString username]) ''classroom_name'' in 0)"

definition login_message :: "int \<Rightarrow> byte list" where
  "login_message result = (let m = chars (if result = 0 then ''Login succeed'' else ''Login failed'') in
     m @ replicate (50 - length m) 0)"

text \<open>The answer is written over the request and sent back to its descriptor.\<close>

definition login_answer :: "ptr \<Rightarrow> int \<Rightarrow> unit act" where
  "login_answer p result =
     sq (set_cLen p (of_nat (MSG_HEAD_LEN + sizeof sLoginOutResult)))
    (sq (set_cType p CT_LoginResult)
    (sq (wr_bytes p MSG_HEAD_LEN (le32 (if result = 0 then RES_SUCCEED else RES_FAIL) @ login_message result))
    (bnd (head_cLen p) (\<lambda>n.
     sq (set_size p (unat n))
        (send_enqueue p)))))"

definition LoginCheck_check :: "env \<Rightarrow> ptr \<Rightarrow> unit act" where
  "LoginCheck_check e p = (let fin = MSG_HEAD_LEN + sizeof sLogin in
     bnd (rd32 p (MSG_HEAD_LEN + offsetof sLogin ''type'')) (\<lambda>ty.
     bnd (get_fd p) (\<lambda>fd.
     bnd (if ty = MCT_STUDENT then
            bnd (rd_cstr p (MSG_HEAD_LEN + offsetof sLogin ''username'') fin) (\<lambda>u.
            bnd (rd_cstr p (MSG_HEAD_LEN + offsetof sLogin ''password'') fin) (\<lambda>pw. login_student e fd u pw))
          else if ty = MCT_TEACHER then
            bnd (rd_cstr p (MSG_HEAD_LEN + offsetof sLogin ''username'') fin) (\<lambda>u.
            bnd (rd_cstr p (MSG_HEAD_LEN + offsetof sLogin ''password'') fin) (\<lambda>pw. ret (login_teacher e u pw)))
          else if ty = MCT_WHITEBOARD then
            bnd (rd_cstr p (MSG_HEAD_LEN + offsetof sLogin ''username'') fin) (\<lambda>u. ret (login_whiteboard e u))
          else ret (- 1))
       (login_answer p))))"

definition handleLogin :: "env \<Rightarrow> ptr \<Rightarrow> unit act" where
  "handleLogin e p = LoginCheck_check e p"

end
