(* ===== verification/Task.thy ===== *)
theory Task
  imports Server_State
begin

text \<open>
  \<open>task.h\<close>: the base class of the thread pool's tasks with its table of all packet types
  (\<open>PROTOCOLS\<close>) and the printer that \<open>RecvTask\<close> and \<open>SendTask\<close> run over every packet.  What it
  prints is the entry of the table, the length in the header and the integers at the places that
  the entry's format names; the format is cut into tokens in an array of twenty characters.
\<close>

definition CT_FLAGS :: nat where "CT_FLAGS = 0"
definition ST_FLAGS :: nat where "ST_FLAGS = 1"

type_synonym sDebugProtocol = "nat \<times> u32 \<times> string \<times> nat \<times> string \<times> string"

text \<open>\<open>sizeof\<close> of an enumerator is the size of an \<open>int\<close>.\<close>

definition protocols :: "sDebugProtocol list" where
  "protocols = [
    (CT_FLAGS, CT_Test, ''CT_Test'', 4, ''struct'', ''''),
    (CT_FLAGS, CT_ChangeScene, ''CT_ChangeScene'', 4, ''struct'', ''''),
    (ST_FLAGS, ST_ChangeScene, ''ST_ChangeScene'', 4, ''struct'', ''''),
    (CT_FLAGS, CT_ControlChangeScene, ''CT_ControlChangeScene'', sizeof sCommonStruct, ''struct sCommonStruct'', ''uint,''),
    (ST_FLAGS, ST_ControlChangeScene, ''ST_ControlChangeScene'', sizeof sCommonStruct, ''struct sCommonStruct'', ''uint,''),
    (CT_FLAGS, CT_InitSceneFinished, ''CT_InitSceneFinished'', sizeof sCommonStruct, ''struct sCommonStruct'', ''uint,''),
    (ST_FLAGS, ST_InitSceneFinished, ''ST_InitSceneFinished'', sizeof sCommonStruct, ''struct sCommonStruct'', ''uint,''),
    (CT_FLAGS, CT_ConfirmIntoClassRoom, ''CT_ConfirmIntoClassRoom'', sizeof sCommonStruct, ''struct sCommonStruct'', ''uint,''),
    (ST_FLAGS, ST_ConfirmIntoClassRoom, ''ST_ConfirmIntoClassRoom'', sizeof sCommonStruct, ''struct sCommonStruct'', ''uint,''),
    (ST_FLAGS, ST_GetStudentCount, ''ST_GetStudentCount'', sizeof sCommonStruct, ''struct sCommonStruct'', ''int,''),
    (CT_FLAGS, CT_GetCurrentScene, ''CT_GetCurrentScene'', 4, ''not data'', ''''),
    (ST_FLAGS, ST_GetCurrentScene, ''ST_GetCurrentScene'', 4, ''int'', ''int,''),
    (CT_FLAGS, CT_Login, ''CT_Login'', sizeof sLogin, ''struct sLogin'', ''int,char20,char20,''),
    (CT_FLAGS, CT_LoginResult, ''CT_LoginResult'', sizeof sLoginOutResult, ''struct sLoginOutResult'', ''int,char50,''),
    (CT_FLAGS, CT_GetCourseDBCount, ''CT_GetCourseDBCount'', sizeof sDBCount, ''struct sDBCount'', ''int,''),
    (CT_FLAGS, CT_GetCourseDB, ''CT_GetCourseDB'', 4, ''struct'', ''''),
    (CT_FLAGS, CT_SetCourseGroup, ''CT_SetCourseGroup'', 4, ''struct'', ''''),
    (CT_FLAGS, CT_GetCourseGroup, ''CT_GetCourseGroup'', 4, ''struct'', ''''),
    (ST_FLAGS, ST_GetCourseGroup, ''ST_GetCourseGroup'', 4, ''struct'', ''''),
    (CT_FLAGS, CT_GetCourseItemCount, ''CT_GetCourseItemCount'', sizeof sDBCount, ''struct sDBCount'', ''int,''),
    (CT_FLAGS, CT_GetCourseItem, ''CT_GetCourseItem'', 4, ''struct'', ''''),
    (CT_FLAGS, CT_Logout, ''CT_Logout'', 4, ''struct'', ''''),
    (CT_FLAGS, CT_LogoutReuslt, ''CT_LogoutReuslt'', 4, ''struct'', ''''),
    (CT_FLAGS, CT_GetClassRoomDBCount, ''CT_GetClassRoomDBCount'', sizeof sDBCount, ''struct sDBCount'', ''int,''),
    (CT_FLAGS, CT_GetClassRoomDB, ''CT_GetClassRoomDB'', 4, ''struct'', ''''),
    (CT_FLAGS, CT_GetGradeDBCount, ''CT_GetGradeDBCount'', sizeof sDBCount, ''struct sDBCount'', ''int,''),
    (CT_FLAGS, CT_GetGradeDB, ''CT_GetGradeDB'', 4, ''struct'', ''''),
    (CT_FLAGS, CT_GetClassDBCount, ''CT_GetClassDBCount'', sizeof sDBCount, ''struct sDBCount'', ''int,''),
    (CT_FLAGS, CT_GetClassDB, ''CT_GetClassDB'', 4, ''struct'', ''''),
    (CT_FLAGS, CT_LoginClassRoom, ''CT_LoginClassRoom'', 4, ''struct'', ''''),
    (CT_FLAGS, CT_LogoutClassRoom, ''CT_LogoutClassRoom'', 4, ''struct'', ''''),
    (CT_FLAGS, CT_GetStudentDetailInfo, ''CT_GetStudentDetailInfo'', 4, ''struct'', ''''),
    (ST_FLAGS, ST_GetStudentDetailInfo, ''ST_GetStudentDetailInfo'', 4, ''struct'', ''''),
    (CT_FLAGS, CT_GetAllStudentInfoCount, ''CT_GetAllStudentInfoCount'', 4, ''struct'', ''''),
    (CT_FLAGS, CT_GetAllStudentInfo, ''CT_GetAllStudentInfo'', 4, ''struct'', ''''),
    (CT_FLAGS, CT_LeaveEarly, ''CT_LeaveEarly'', 4, ''struct'', ''''),
    (ST_FLAGS, ST_LeaveEarly, ''ST_LeaveEarly'', 4, ''struct'', ''''),
    (CT_FLAGS, CT_ConfirmLeaveEarly, ''CT_ConfirmLeaveEarly'', 4, ''struct'', ''''),
    (CT_FLAGS, CT_GetTeacherInfo, ''CT_GetTeacherInfo'', 4, ''struct'', ''''),
    (ST_FLAGS, ST_GetTeacherInfo, ''ST_GetTeacherInfo'', 4, ''struct'', ''''),
    (CT_FLAGS, CT_LockStudent, ''CT_LockStudent'', 4, ''struct'', ''''),
    (ST_FLAGS, ST_LockStudent, ''ST_LockStudent'', 4, ''struct'', ''''),
    (CT_FLAGS, CT_SelectedClassRoom, ''CT_SelectedClassRoom'', 4, ''struct'', ''''),
    (CT_FLAGS, CT_CourseFinished, ''CT_CourseFinished'', 4, ''struct'', ''''),
    (ST_FLAGS, ST_CourseFinished, ''ST_CourseFinished'', 4, ''struct'', ''''),
    (CT_FLAGS, CT_GetDBRecordFinished, ''CT_GetDBRecordFinished'', sizeof sDBRecordFinished, ''struct sDBRecordFinished'', ''uint,''),
    (ST_FLAGS, ST_GetDBRecordFinished, ''ST_GetDBRecordFinished'', sizeof sDBRecordFinished, ''struct sDBRecordFinished'', ''uint,''),
    (CT_FLAGS, CT_GetCourseItemKeyInfoReq, ''CT_GetCourseItemKeyInfoReq'', 4, ''struct'', ''''),
    (CT_FLAGS, CT_GetCourseItemKeyInfoRsp, ''CT_GetCourseItemKeyInfoRsp'', 4, ''struct'', ''''),
    (ST_FLAGS, ST_SendStudentStatus, ''ST_SendStudentStatus'', 4, ''struct'', ''''),
    (CT_FLAGS, CT_Common_PlayorPause, ''CT_Common_PlayorPause'', 4, ''struct'', ''''),
    (ST_FLAGS, ST_Common_PlayorPause, ''ST_Common_PlayorPause'', 4, ''struct'', ''''),
    (CT_FLAGS, CT_Common_Resume, ''CT_Common_Resume'', 4, ''struct'', ''''),
    (ST_FLAGS, ST_Common_Resume, ''ST_Common_Resume'', 4, ''struct'', ''''),
    (CT_FLAGS, CT_Common_Stop, ''CT_Common_Stop'', 4, ''struct'', ''''),
    (ST_FLAGS, ST_Common_Stop, ''ST_Common_Stop'', 4, ''struct'', ''''),
    (CT_FLAGS, CT_ShowSpriteAnimation, ''CT_ShowSpriteAnimation'', 4, ''struct'', ''''),
    (ST_FLAGS, ST_ShowSpriteAnimation, ''ST_ShowSpriteAnimation'', 4, ''struct'', ''''),
    (CT_FLAGS, CT_ShowSpriteControl, ''CT_ShowSpriteControl'', 4, ''struct'', ''''),
    (ST_FLAGS, ST_ShowSpriteControl, ''ST_ShowSpriteControl'', 4, ''struct'', ''''),
    (CT_FLAGS, CT_ControlLevel, ''CT_ControlLevel'', 4, ''struct'', ''''),
    (ST_FLAGS, ST_ControlLevel, ''ST_ControlLevel'', 4, ''struct'', ''''),
    (CT_FLAGS, CT_Exercise_GameStart, ''CT_Exercise_GameStart'', 4, ''struct'', ''''),
    (ST_FLAGS, ST_Exercise_GameStart, ''ST_Exercise_GameStart'', 4, ''struct'', ''''),
    (CT_FLAGS, CT_Exercise_Play, ''CT_Exercise_Play'', 4, ''struct'', ''''),
    (ST_FLAGS, ST_Exercise_Play, ''ST_Exercise_Play'', 4, ''struct'', ''''),
    (CT_FLAGS, CT_Exercise_Pause, ''CT_Exercise_Pause'', 4, ''struct'', ''''),
    (ST_FLAGS, ST_Exercise_Pause, ''ST_Exercise_Pause'', 4, ''struct'', ''''),
    (CT_FLAGS, CT_Exercise_Stop, ''CT_Exercise_Stop'', 4, ''struct'', ''''),
    (ST_FLAGS, ST_Exercise_Stop, ''ST_Exercise_Stop'', 4, ''struct'', ''''),
    (CT_FLAGS, CT_Exercise_GameEnd, ''CT_Exercise_GameEnd'', 4, ''struct'', ''''),
    (ST_FLAGS, ST_Exercise_GameEnd, ''ST_Exercise_GameEnd'', 4, ''struct'', ''''),
    (CT_FLAGS, CT_Cartoon_GameStart, ''CT_Cartoon_GameStart'', 4, ''struct'', ''''),
    (ST_FLAGS, ST_Cartoon_GameStart, ''ST_Cartoon_GameStart'', 4, ''struct'', ''''),
    (CT_FLAGS, CT_Cartoon_Play, ''CT_Cartoon_Play'', 4, ''struct'', ''''),
    (ST_FLAGS, ST_Cartoon_Play, ''ST_Cartoon_Play'', 4, ''struct'', ''''),
    (CT_FLAGS, CT_Cartoon_Pause, ''CT_Cartoon_Pause'', 4, ''struct'', ''''),
    (ST_FLAGS, ST_Cartoon_Pause, ''ST_Cartoon_Pause'', 4, ''struct'', ''''),
    (CT_FLAGS, CT_Cartoon_Stop, ''CT_Cartoon_Stop'', 4, ''struct'', ''''),
    (ST_FLAGS, ST_Cartoon_Stop, ''ST_Cartoon_Stop'', 4, ''struct'', ''''),
    (CT_FLAGS, CT_Cartoon_GameEnd, ''CT_Cartoon_GameEnd'', 4, ''struct'', ''''),
    (ST_FLAGS, ST_Cartoon_GameEnd, ''ST_Cartoon_GameEnd'', 4, ''struct'', ''''),
    (CT_FLAGS, CT_BuildHouse_CaiHongXiaoWu, ''CT_BuildHouse_CaiHongXiaoWu'', 4, ''struct'', ''''),
    (ST_FLAGS, ST_BuildHouse_CaiHongXiaoWu, ''ST_BuildHouse_CaiHongXiaoWu'', 4, ''struct'', ''''),
    (CT_FLAGS, CT_BuildHouse_CaiHongGu, ''CT_BuildHouse_CaiHongGu'', 4, ''struct'', ''''),
    (ST_FLAGS, ST_BuildHouse_CaiHongGu, ''ST_BuildHouse_CaiHongGu'', 4, ''struct'', ''''),
    (CT_FLAGS, CT_BuildHouse_XiaoGuaiWu, ''CT_BuildHouse_XiaoGuaiWu'', 4, ''struct'', ''''),
    (ST_FLAGS, ST_BuildHouse_XiaoGuaiWu, ''ST_BuildHouse_XiaoGuaiWu'', 4, ''struct'', ''''),
    (CT_FLAGS, CT_BuildHouse_MuBu, ''CT_BuildHouse_MuBu'', 4, ''struct'', ''''),
    (ST_FLAGS, ST_BuildHouse_MuBu, ''ST_BuildHouse_MuBu'', 4, ''struct'', ''''),
    (CT_FLAGS, CT_BuildHouse_OperatorDemo, ''CT_BuildHouse_OperatorDemo'', 4, ''struct'', ''''),
    (ST_FLAGS, ST_BuildHouse_OperatorDemo, ''ST_BuildHouse_OperatorDemo'', 4, ''struct'', ''''),
    (CT_FLAGS, CT_BuildHouse_SingleMode, ''CT_BuildHouse_SingleMode'', 4, ''struct'', ''''),
    (ST_FLAGS, ST_BuildHouse_SingleMode, ''ST_BuildHouse_SingleMode'', 4, ''struct'', ''''),
    (CT_FLAGS, CT_BuildHouse_GroupMode, ''CT_BuildHouse_GroupMode'', 4, ''struct'', ''''),
    (ST_FLAGS, ST_BuildHouse_GroupMode, ''ST_BuildHouse_GroupMode'', 4, ''struct'', ''''),
    (CT_FLAGS, CT_BuildHouse_SetStuGroupCount, ''CT_BuildHouse_SetStuGroupCount'', 4, ''struct'', ''''),
    (CT_FLAGS, CT_BuildHouse_SetStuGroup, ''CT_BuildHouse_SetStuGroup'', 4, ''struct'', ''''),
    (CT_FLAGS, CT_BuildHouse_GetStuGroupCount, ''CT_BuildHouse_GetStuGroupCount'', 4, ''struct'', ''''),
    (CT_FLAGS, CT_BuildHouse_GetStuGroup, ''CT_BuildHouse_GetStuGroup'', 4, ''struct'', ''''),
    (CT_FLAGS, CT_BuildHouse_GameStart, ''CT_BuildHouse_GameStart'', 4, ''struct'', ''''),
    (ST_FLAGS, ST_BuildHouse_GameStart, ''ST_BuildHouse_GameStart'', 4, ''struct'', ''''),
    (CT_FLAGS, CT_BuildHouse_UpdatePos, ''CT_BuildHouse_UpdatePos'', 4, ''struct'', ''''),
    (ST_FLAGS, ST_BuildHouse_UpdatePos, ''ST_BuildHouse_UpdatePos'', 4, ''struct'', ''''),
    (CT_FLAGS, CT_BuildHouse_GameEnd, ''CT_BuildHouse_GameEnd'', 4, ''struct'', ''''),
    (ST_FLAGS, ST_BuildHouse_GameEnd, ''ST_BuildHouse_GameEnd'', 4, ''struct'', ''''),
    (CT_FLAGS, CT_BuildHouse_Save, ''CT_BuildHouse_Save'', 4, ''struct'', ''''),
    (ST_FLAGS, ST_BuildHouse_Show, ''ST_BuildHouse_Show'', 4, ''struct'', ''''),
    (CT_FLAGS, CT_BuildHouse_EmailTibet, ''CT_BuildHouse_EmailTibet'', 4, ''struct'', ''''),
    (ST_FLAGS, ST_BuildHouse_EmailTibet, ''ST_BuildHouse_EmailTibet'', 4, ''struct'', ''''),
    (CT_FLAGS, CT_BuildHouse_EmailAmerica, ''CT_BuildHouse_EmailAmerica'', 4, ''struct'', ''''),
    (ST_FLAGS, ST_BuildHouse_EmailAmerica, ''ST_BuildHouse_EmailAmerica'', 4, ''struct'', ''''),
    (CT_FLAGS, CT_BuildHouse_Update, ''CT_BuildHouse_Update'', 4, ''struct'', ''''),
    (ST_FLAGS, ST_BuildHouse_Update, ''ST_BuildHouse_Update'', 4, ''struct'', ''''),
    (CT_FLAGS, CT_BuildHouse_Change_Layer, ''CT_BuildHouse_Change_Layer'', 4, ''struct'', ''''),
    (ST_FLAGS, ST_BuildHouse_Change_Layer, ''ST_BuildHouse_Change_Layer'', 4, ''struct'', ''''),
    (CT_FLAGS, CT_BuildHouse_Add_Pic, ''CT_BuildHouse_Add_Pic'', 4, ''struct'', ''''),
    (ST_FLAGS, ST_BuildHouse_Add_Pic, ''ST_BuildHouse_Add_Pic'', 4, ''struct'', ''''),
    (CT_FLAGS, CT_BuildHouse_Del_Pic, ''CT_BuildHouse_Del_Pic'', 4, ''struct'', ''''),
    (ST_FLAGS, ST_BuildHouse_Del_Pic, ''ST_BuildHouse_Del_Pic'', 4, ''struct'', ''''),
    (CT_FLAGS, CT_BuildHouse_Activation, ''CT_BuildHouse_Activation'', 4, ''struct'', ''''),
    (ST_FLAGS, ST_BuildHouse_Activation, ''ST_BuildHouse_Activation'', 4, ''struct'', ''''),
    (CT_FLAGS, CT_BuildHouse_Role, ''CT_BuildHouse_Role'', 4, ''struct'', ''''),
    (ST_FLAGS, ST_BuildHouse_Role, ''ST_BuildHouse_Role'', 4, ''struct'', ''''),
    (CT_FLAGS, CT_BuildHouse_Stamp, ''CT_BuildHouse_Stamp'', 4, ''struct'', ''''),
    (ST_FLAGS, ST_BuildHouse_Stamp, ''ST_BuildHouse_Stamp'', 4, ''struct'', ''''),
    (CT_FLAGS, CT_BuildHouse_SaveHouse, ''CT_BuildHouse_SaveHouse'', 4, ''struct'', ''''),
    (CT_FLAGS, CT_BuildHouse_ScreenShot, ''CT_BuildHouse_ScreenShot'', 4, ''struct'', ''''),
    (ST_FLAGS, ST_BuildHouse_Screenshot, ''ST_BuildHouse_Screenshot'', 4, ''struct'', ''''),
    (CT_FLAGS, CT_Puzzle_GameStart, ''CT_Puzzle_GameStart'', 4, ''struct'', ''''),
    (ST_FLAGS, ST_Puzzle_GameStart, ''ST_Puzzle_GameStart'', 4, ''struct'', ''''),
    (CT_FLAGS, CT_Puzzle_GetPic, ''CT_Puzzle_GetPic'', 4, ''struct'', ''''),
    (ST_FLAGS, ST_Puzzle_GetPic, ''ST_Puzzle_GetPic'', 4, ''struct'', ''''),
    (CT_FLAGS, CT_Puzzle_UpdatePic, ''CT_Puzzle_UpdatePic'', 4, ''struct'', ''''),
    (ST_FLAGS, ST_Puzzle_UpdatePic, ''ST_Puzzle_UpdatePic'', 4, ''struct'', ''''),
    (CT_FLAGS, CT_Puzzle_IconStatus, ''CT_Puzzle_IconStatus'', 4, ''struct'', ''''),
    (ST_FLAGS, ST_Puzzle_IconStatus, ''ST_Puzzle_IconStatus'', 4, ''struct'', ''''),
    (CT_FLAGS, CT_Puzzle_Play, ''CT_Puzzle_Play'', 4, ''struct'', ''''),
    (ST_FLAGS, ST_Puzzle_Play, ''CT_Puzzle_Play'', 4, ''struct'', ''''),
    (CT_FLAGS, CT_Puzzle_Pause, ''CT_Puzzle_Pause'', 4, ''struct'', ''''),
    (ST_FLAGS, ST_Puzzle_Pause, ''ST_Puzzle_Pause'', 4, ''struct'', ''''),
    (CT_FLAGS, CT_Puzzle_MovePic, ''CT_Puzzle_MovePic'', 4, ''struct'', ''''),
    (ST_FLAGS, ST_Puzzle_MovePic, ''ST_Puzzle_MovePic'', 4, ''struct'', ''''),
    (CT_FLAGS, CT_Puzzle_DeletePic, ''CT_Puzzle_DeletePic'', 4, ''struct'', ''''),
    (ST_FLAGS, ST_Puzzle_DeletePic, ''ST_Puzzle_DeletePic'', 4, ''struct'', ''''),
    (CT_FLAGS, CT_Puzzle_AddPic, ''CT_Puzzle_AddPic'', 4, ''struct'', ''''),
    (ST_FLAGS, ST_Puzzle_AddPic, ''ST_Puzzle_AddPic'', 4, ''struct'', ''''),
    (CT_FLAGS, CT_Puzzle_CalcScore, ''CT_Puzzle_CalcScore'', 4, ''struct'', ''''),
    (CT_FLAGS, CT_Puzzle_EndGame, ''CT_Puzzle_EndGame'', 4, ''struct'', ''''),
    (ST_FLAGS, ST_Puzzle_EndGame, ''ST_Puzzle_EndGame'', 4, ''struct'', ''''),
    (CT_FLAGS, CT_Puzzle_SelectedType, ''CT_Puzzle_SelectedType'', 4, ''struct'', ''''),
    (ST_FLAGS, ST_Puzzle_SelectedType, ''ST_Puzzle_SelectedType'', 4, ''struct'', ''''),
    (CT_FLAGS, CT_Puzzle_SelectedSize, ''CT_Puzzle_SelectedSize'', 4, ''struct'', ''''),
    (ST_FLAGS, ST_Puzzle_SelectedSize, ''ST_Puzzle_SelectedSize'', 4, ''struct'', ''''),
    (CT_FLAGS, CT_Scene_End, ''CT_Scene_End'', 4, ''struct'', ''''),
    (ST_FLAGS, ST_Scene_End, ''ST_Scene_End'', 4, ''struct'', ''''),
    (CT_FLAGS, CT_RainbowValley_HouseNum, ''CT_RainbowValley_HouseNum'', 4, ''struct'', ''''),
    (ST_FLAGS, ST_RainbowValley_HouseNum, ''ST_RainbowValley_HouseNum'', 4, ''struct'', ''''),
    (CT_FLAGS, CT_RainbowValley_HouseInfo, ''CT_RainbowValley_HouseInfo'', 4, ''struct'', ''''),
    (ST_FLAGS, ST_RainbowValley_HouseInfo, ''ST_RainbowValley_HouseInfo'', 4, ''struct'', ''''),
    (ST_FLAGS, ST_Dynamic_MessageType, ''ST_Dynamic_MessageType'', 4, ''struct'', '''')]"

fun find_protocol :: "u32 \<Rightarrow> sDebugProtocol list \<Rightarrow> sDebugProtocol option" where
  "find_protocol ct [] = None"
| "find_protocol ct ((fl, ty, nm, len, sname, fmt) # ps) =
     (if ty = 0 then None else if ty = ct then Some (fl, ty, nm, len, sname, fmt) else find_protocol ct ps)"

text \<open>The token is kept without the zeros behind it; a token of twenty characters leaves the array.\<close>

fun debug_fields :: "string \<Rightarrow> string \<Rightarrow> ptr \<Rightarrow> nat \<Rightarrow> int list act" where
  "debug_fields [] str p pstr = ret []"
| "debug_fields (c # cs) str p pstr =
     (if c = CHR '' '' then debug_fields cs str p pstr else
      sq (check (length str < 20) OutOfBounds)
     (if c = CHR '','' then
        (if str @ [c] = ''int,'' \<or> str @ [c] = ''uint,'' then
           bnd (rd32 p pstr) (\<lambda>v. bnd (debug_fields cs [] p (pstr + 4)) (\<lambda>vs. ret (sint v # vs)))
         else debug_fields cs [] p pstr)
      else debug_fields cs (str @ [c]) p pstr))"

definition debugProtocol :: "ptr \<Rightarrow> (sDebugProtocol \<times> u32 \<times> int list) option act" where
  "debugProtocol p = bnd (head_cType p) (\<lambda>ct.
     case find_protocol ct protocols of None \<Rightarrow> ret None
     | Some (fl, ty, nm, len, sname, fmt) \<Rightarrow>
         bnd (head_cLen p) (\<lambda>n. bnd (debug_fields fmt [] p MSG_HEAD_LEN) (\<lambda>vs.
         ret (Some ((fl, ty, nm, len, sname, fmt), n, vs)))))"

section \<open>Printing is harmless\<close>

text \<open>A scan of the format without the packet: whether every token fits, and how many integers it names.\<close>

fun format_ok :: "string \<Rightarrow> nat \<Rightarrow> nat \<Rightarrow> bool" where
  "format_ok [] j n = (n \<le> 1000)"
| "format_ok (c # cs) j n =
     (if c = CHR '' '' then format_ok cs j n
      else j < 20 \<and> n \<le> 1000 \<and> (if c = CHR '','' then format_ok cs 0 (Suc n) else format_ok cs (Suc j) n))"

lemma rd32_runs: "bufs s p = Some b \<Longrightarrow> p \<noteq> NULL \<Longrightarrow> a + 4 \<le> m_size b \<Longrightarrow>
    rd32 p a s = Inr (get32 (m_ptr b) a, s)"
  by (simp add: rd32_def deref_def bnd_def sq_def check_def ret_def)

lemma format_ok_mono: "format_ok cs j n \<Longrightarrow> m \<le> n \<Longrightarrow> format_ok cs j m"
  by (induction cs j n arbitrary: m rule: format_ok.induct) (auto split: if_splits)

lemma debug_fields_runs:
  assumes "bufs s p = Some b" "p \<noteq> NULL" "m_size b = MAX_BUF"
  shows "format_ok cs (length str) n \<Longrightarrow> \<exists>vs. debug_fields cs str p (8 + 4 * n) s = Inr (vs, s)"
proof (induction cs arbitrary: str n)
  case Nil
  show ?case by (simp add: ret_def)
next
  case (Cons c cs)
  consider (blank) "c = CHR '' ''" | (comma) "c = CHR '',''" | (other) "c \<noteq> CHR '' ''" "c \<noteq> CHR '',''" by blast
  then show ?case
  proof cases
    case blank
    then show ?thesis using Cons by simp
  next
    case comma
    then have f: "length str < 20" "n \<le> 1000" "format_ok cs (length ([] :: string)) (Suc n)"
      using Cons.prems by simp_all
    have n: "format_ok cs (length ([] :: string)) n" using format_ok_mono [OF f(3)] by simp
    obtain vs1 where v1: "debug_fields cs [] p (8 + 4 * Suc n) s = Inr (vs1, s)"
      using Cons.IH [OF f(3)] by auto
    obtain vs2 where v2: "debug_fields cs [] p (8 + 4 * n) s = Inr (vs2, s)" using Cons.IH [OF n] by auto
    have "8 + 4 * n + 4 \<le> m_size b" using f(2) assms(3) by (simp add: MAX_BUF_def)
    from rd32_runs [OF assms(1,2) this] show ?thesis
      using comma f(1) v1 v2 by (simp add: sq_def bnd_def check_def ret_def)
  next
    case other
    then have "length str < 20" "format_ok cs (length (str @ [c])) n" using Cons.prems by simp_all
    then show ?thesis using Cons.IH [of "str @ [c]" n] other by (simp add: sq_def bnd_def check_def ret_def)
  qed
qed

lemma protocols_ok: "list_all (\<lambda>(fl, ty, nm, len, sname, fmt). format_ok fmt 0 0) protocols"
  by (simp add: protocols_def)

lemma find_protocol_in: "find_protocol ct ps = Some r \<Longrightarrow> r \<in> set ps"
  by (induction ct ps rule: find_protocol.induct) (auto split: if_splits)

text \<open>Whatever the packet says, printing it reads inside the buffer, writes nothing and returns.\<close>

lemma debugProtocol_runs:
  assumes "bufs s p = Some b" "p \<noteq> NULL" "m_size b = MAX_BUF"
  shows "\<exists>r. debugProtocol p s = Inr (r, s)"
proof -
  have h: "head_cType p s = Inr (get32 (m_ptr b) 4, s)" "head_cLen p s = Inr (get32 (m_ptr b) 0, s)"
    using assms by (simp_all add: head_defs rd32_runs MAX_BUF_def)
  show ?thesis
  proof (cases "find_protocol (get32 (m_ptr b) 4) protocols")
    case None
    then show ?thesis by (simp add: debugProtocol_def bnd_def h ret_def)
  next
    case (Some r)
    obtain fl ty nm len sname fmt where r: "r = (fl, ty, nm, len, sname, fmt)" by (metis prod.exhaust)
    have "format_ok fmt 0 0"
      using find_protocol_in [OF Some] protocols_ok by (auto simp: r list_all_iff)
    then obtain vs where "debug_fields fmt [] p 8 s = Inr (vs, s)"
      using debug_fields_runs [OF assms, of fmt "[]" 0] by auto
    then show ?thesis using Some r by (simp add: debugProtocol_def bnd_def h ret_def MSG_HEAD_LEN_def)
  qed
qed

end
