(* ===== verification/Sock.thy ===== *)
theory Sock
  imports Delivery Task
begin

text \<open>
  \<open>Sock.c\<close>, the body of \<open>SendTask.cpp\<close> and the client side of \<open>confirm.hpp\<close>: the loops around
  \<open>send\<close> and \<open>recv\<close>.  What the kernel answers is a list of results, one for each call; when it
  runs out the loop is still waiting (\<open>None\<close>).  \<open>errno\<close> is part of the thread's state: a call
  that succeeds leaves it as it was, which is what makes the checks in these loops delicate.
\<close>

section \<open>Results of the system calls\<close>

definition EINTR :: int where "EINTR = 4"
definition EAGAIN :: int where "EAGAIN = 11"

text \<open>\<open>send\<close> transfers \<open>n\<close> bytes or fails with \<open>errno = e\<close>; \<open>recv\<close> delivers some bytes, or none at
  the end of the stream, or fails.\<close>

datatype sendres = Sent nat | SendErr int
datatype recvres = Data "byte list" | RecvErr int
datatype selres = Ready | Timeout

definition transient :: "int \<Rightarrow> bool" where
  "transient e \<longleftrightarrow> e = EAGAIN \<or> e = EINTR"

section \<open>send_v\<close>

text \<open>The result is the return value, the bytes that went out, the calls not made and \<open>errno\<close>.  The
  source looks at \<open>errno\<close> before it looks at the result of the call.\<close>

type_synonym sent_result = "(int \<times> byte list \<times> sendres list \<times> int) option"

fun send_v_loop :: "sendres list \<Rightarrow> int \<Rightarrow> byte list \<Rightarrow> nat \<Rightarrow> byte list \<Rightarrow> sent_result" where
  "send_v_loop [] e left sended out =
     (if left = [] then Some (int sended, out, [], e) else None)"
| "send_v_loop (r # rs) e left sended out =
     (if left = [] then Some (int sended, out, r # rs, e) else
      case r of
        Sent n \<Rightarrow>
          (let k = min n (length left); out' = out @ take k left in
           if transient e then send_v_loop rs e left sended out'
           else if k = 0 then Some (int sended, out', rs, e)
           else send_v_loop rs e (drop k left) (sended + k) out')
      | SendErr e' \<Rightarrow>
          if transient e' then send_v_loop rs e' left sended out else Some (- 1, out, rs, e'))"

definition send_v :: "sendres list \<Rightarrow> int \<Rightarrow> byte list option \<Rightarrow> sent_result" where
  "send_v rs e buf = (case buf of None \<Rightarrow> Some (- 1, [], rs, e) | Some bs \<Rightarrow> send_v_loop rs e bs 0 [])"

section \<open>send_n and recv_n\<close>

text \<open>With \<open>select\<close> before every call; the return value of \<open>send_n\<close> does not say how much was sent.\<close>

fun send_n_loop :: "(selres \<times> sendres) list \<Rightarrow> byte list \<Rightarrow> byte list \<Rightarrow> (int \<times> byte list) option" where
  "send_n_loop [] left out = (if left = [] then Some (0, out) else None)"
| "send_n_loop ((sel, r) # rs) left out =
     (if left = [] then Some (0, out) else
      case sel of Timeout \<Rightarrow> Some (0, out)
      | Ready \<Rightarrow> (case r of
          Sent n \<Rightarrow> (let k = min n (length left) in
             if k = 0 then Some (0, out) else send_n_loop rs (drop k left) (out @ take k left))
        | SendErr e \<Rightarrow> Some (- 1, out)))"

fun recv_n_loop :: "(selres \<times> recvres) list \<Rightarrow> nat \<Rightarrow> byte list \<Rightarrow> (int \<times> byte list) option" where
  "recv_n_loop [] left got = (if left = 0 then Some (int (length got), got) else None)"
| "recv_n_loop ((sel, r) # rs) left got =
     (if left = 0 then Some (int (length got), got) else
      case sel of Timeout \<Rightarrow> Some (int (length got), got)
      | Ready \<Rightarrow> (case r of
          Data bs \<Rightarrow> (let d = take left bs in
             if d = [] then Some (int (length got), got) else recv_n_loop rs (left - length d) (got @ d))
        | RecvErr e \<Rightarrow> Some (- 1, got)))"

text \<open>Both refuse a \<open>NULL\<close> buffer or timeout; \<open>timeout\<close> says whether one is given.\<close>

definition send_n :: "(selres \<times> sendres) list \<Rightarrow> byte list option \<Rightarrow> bool \<Rightarrow> (int \<times> byte list) option" where
  "send_n rs buf timeout = (case buf of None \<Rightarrow> Some (- 1, [])
     | Some bs \<Rightarrow> if timeout then send_n_loop rs bs [] else Some (- 1, []))"

definition recv_n :: "(selres \<times> recvres) list \<Rightarrow> bool \<Rightarrow> nat \<Rightarrow> bool \<Rightarrow> (int \<times> byte list) option" where
  "recv_n rs buf left timeout = (if \<not> buf \<or> \<not> timeout then Some (- 1, []) else recv_n_loop rs left [])"

section \<open>recv_v\<close>

text \<open>The bytes are stored in the buffer \<open>p\<close> from offset \<open>a\<close>; \<open>left\<close> may be negative.  The program
  returns the number of bytes received, the calls not made and \<open>errno\<close>.  The end of the stream
  (no data) is only noticed when \<open>errno\<close> is not left over from a transient failure.\<close>

fun recv_v :: "recvres list \<Rightarrow> int \<Rightarrow> ptr \<Rightarrow> nat \<Rightarrow> int \<Rightarrow> nat \<Rightarrow> (nat \<times> recvres list \<times> int) act" where
  "recv_v [] e p a left recved = (if 0 < left then fail Blocked else ret (recved, [], e))"
| "recv_v (r # rs) e p a left recved =
     (if 0 < left then
        (case r of
           Data bs \<Rightarrow> (let d = take (nat left) bs in
             if d = [] then
               if transient e then recv_v rs e p a left recved else ret (recved, rs, e)
             else sq (wr_bytes p (a + recved) d)
                     (recv_v rs e p a (left - int (length d)) (recved + length d)))
         | RecvErr e' \<Rightarrow>
             if transient e' then recv_v rs e' p a left recved else ret (recved, rs, e'))
      else ret (recved, r # rs, e))"

section \<open>The sending loop of SendTask\<close>

text \<open>Here the result of the call is looked at first; the loop returns what went out and \<open>errno\<close>.\<close>

fun send_all :: "sendres list \<Rightarrow> int \<Rightarrow> byte list \<Rightarrow> byte list \<Rightarrow> (byte list \<times> sendres list \<times> int) option" where
  "send_all [] e left out = (if left = [] then Some (out, [], e) else None)"
| "send_all (r # rs) e left out =
     (if left = [] then Some (out, r # rs, e) else
      case r of
        Sent n \<Rightarrow> (let k = min n (length left) in
          if k = 0 then (if transient e then send_all rs e left out else Some (out, rs, e))
          else send_all rs e (drop k left) (out @ take k left))
      | SendErr e' \<Rightarrow> if transient e' then send_all rs e' left out else Some (out, rs, e'))"

text \<open>One round of \<open>SendTask::work\<close>: take the next packet, send its first \<open>m_used\<close> bytes, recycle
  it.  The result is the descriptor with the bytes that went out, if something was sent.\<close>

definition SendTask_round :: "sendres list \<Rightarrow> int \<Rightarrow> ((int \<times> byte list) option \<times> sendres list \<times> int) act" where
  "SendTask_round rs e = bnd (gets sendqueue) (\<lambda>q.
     case QueueT_dequeue q of None \<Rightarrow> ret (None, rs, e)
     | Some (p, q') \<Rightarrow>
         sq (modify (\<lambda>s. s\<lparr>sendqueue := q'\<rparr>))
        (bnd (get_fd p) (\<lambda>fd.
         if fd = 0 then sq (pool_free p) (ret (None, rs, e))
         else bnd (debugProtocol p) (\<lambda>_. bnd (get_size p) (\<lambda>n.
           bnd (deref bufs p) (\<lambda>b.
           sq (check (n \<le> m_size b) OutOfBounds)
          (case send_all rs e (bytes_at (m_ptr b) 0 n) [] of
             None \<Rightarrow> fail Blocked
           | Some (out, rs', e') \<Rightarrow>
               sq (buf_reset p)
              (sq (pool_free p)
                  (ret (Some (fd, out), rs', e'))))))))))"

section \<open>What the loops guarantee\<close>

text \<open>However the kernel cuts the data up, what went out is a prefix of the packet, and the whole
  packet unless a call failed for good.\<close>

lemma send_all_prefix:
  "send_all rs e left out = Some (out', rs', e') \<Longrightarrow> \<exists>n. out' = out @ take n left"
proof (induction rs e left out rule: send_all.induct)
  case (1 e left out)
  then show ?case by (auto split: if_splits intro: exI [of _ 0])
next
  case (2 r rs e left out)
  show ?case
  proof (cases "left = []")
    case True
    then show ?thesis using "2.prems" by simp
  next
    case False
    show ?thesis
    proof (cases r)
      case (Sent n)
      define k where "k = min n (length left)"
      show ?thesis
      proof (cases "k = 0")
        case True
        then show ?thesis using "2.prems" "2.IH"(1) [OF False Sent] False Sent
          by (auto simp: k_def Let_def split: if_splits intro: exI [of _ 0])
      next
        case k: False
        then have "send_all rs e (drop k left) (out @ take k left) = Some (out', rs', e')"
          using "2.prems" False Sent k by (simp add: Let_def k_def [symmetric])
        then obtain m where "out' = (out @ take k left) @ take m (drop k left)"
          using "2.IH"(2) [OF False Sent k_def k] by blast
        then have "out' = out @ take (k + m) left" by (simp add: take_add)
        then show ?thesis by blast
      qed
    next
      case (SendErr e'')
      then show ?thesis using "2.prems" "2.IH"(3) [OF False SendErr] False
        by (auto split: if_splits intro: exI [of _ 0])
    qed
  qed
qed

text \<open>As long as every failure is transient, the whole packet goes out.\<close>

definition hard :: "sendres \<Rightarrow> bool" where
  "hard r \<longleftrightarrow> (case r of Sent n \<Rightarrow> n = 0 | SendErr e \<Rightarrow> \<not> transient e)"

lemma send_all_complete:
  "send_all rs e left out = Some (out', rs', e') \<Longrightarrow> \<forall>r \<in> set rs. \<not> hard r \<Longrightarrow> out' = out @ left"
proof (induction rs e left out rule: send_all.induct)
  case (1 e left out)
  then show ?case by (auto split: if_splits)
next
  case (2 r rs e left out)
  show ?case
  proof (cases "left = []")
    case True
    then show ?thesis using "2.prems" by simp
  next
    case False
    show ?thesis
    proof (cases r)
      case (Sent n)
      define k where "k = min n (length left)"
      have "n \<noteq> 0" using "2.prems"(2) Sent by (simp add: hard_def)
      then have k: "k \<noteq> 0" using False by (simp add: k_def)
      then have "send_all rs e (drop k left) (out @ take k left) = Some (out', rs', e')"
        using "2.prems" False Sent k by (simp add: Let_def k_def [symmetric])
      then show ?thesis using "2.IH"(2) [OF False Sent k_def k] "2.prems"(2) by simp
    next
      case (SendErr e'')
      then show ?thesis using "2.prems" "2.IH"(3) [OF False SendErr] False
        by (auto simp: hard_def split: if_splits)
    qed
  qed
qed

text \<open>\<open>send_v\<close> with a transient \<open>errno\<close> left over from before never notices a success: however
  often the kernel takes all the data, the loop sends it again.\<close>

lemma send_v_loop_stale:
  "transient e \<Longrightarrow> left \<noteq> [] \<Longrightarrow> \<forall>r \<in> set rs. \<exists>n. r = Sent n \<Longrightarrow> send_v_loop rs e left sended out = None"
  by (induction rs e left sended out rule: send_v_loop.induct) (auto simp: Let_def)

end
