(* ===== verification/Evloop.thy ===== *)
theory Evloop
  imports Sock Room
begin

text \<open>
  \<open>Evloop.cpp\<close>: accepting clients, receiving one packet, closing a client.  The table
  \<open>ioarray\<close> has \<open>MAXFD\<close> entries; a watcher that is set is \<open>True\<close> in \<open>io\<close>.  The static members are the
  record \<open>evl\<close>, the members of one object the record \<open>listener\<close>.  The calls of libev are the list of
  callbacks it makes; the socket options and the log are outside the model.
\<close>

definition MAXFD :: int where "MAXFD = 10240"
definition TIMEOUT :: int where "TIMEOUT = 10"

record evl =
  io :: "int \<Rightarrow> bool"
  lasttime :: "int \<Rightarrow> int"
  clientcount :: u32
  ev_errno :: int

text \<open>\<open>accept_cb\<close> stores at \<open>ioarray[newfd]\<close> without a check.\<close>

definition accept_cb :: "int \<Rightarrow> int \<Rightarrow> evl \<Rightarrow> fault + evl" where
  "accept_cb newfd now v = (if newfd \<le> 0 then Inr v
     else if MAXFD \<le> newfd then Inl OutOfBounds
     else Inr (v\<lparr>io := (io v)(newfd := True), lasttime := (lasttime v)(newfd := now),
                 clientcount := snd (AtomicT_postinc (clientcount v))\<rparr>))"

definition closefd :: "int \<Rightarrow> evl \<Rightarrow> evl act" where
  "closefd fd v =
     sq (check (0 \<le> fd \<and> fd < MAXFD) OutOfBounds)
    (sq (check (io v fd) NullDeref)
    (sq (CRoomManager_del_client fd)
        (ret (v\<lparr>io := (io v)(fd := False), clientcount := snd (AtomicT_postdec (clientcount v))\<rparr>))))"

text \<open>\<open>*p - sizeof (unsigned int)\<close> is computed in 64 bits without sign and handed over as a signed
  length; the comparison afterwards is without sign again.\<close>

definition body_len :: "u32 \<Rightarrow> u64" where
  "body_len n = scast n - 4"

definition recv_cb :: "int \<Rightarrow> int \<Rightarrow> recvres list \<Rightarrow> evl \<Rightarrow> (evl \<times> recvres list) act" where
  "recv_cb fd now rs v = bnd pool_malloc (\<lambda>buf.
     if buf = NULL then fail Aborted else
     bnd (recv_v rs (ev_errno v) buf 0 4 0) (\<lambda>(i, rs, e).
       if i \<noteq> 4 then
         sq (pool_free buf)
            (bnd (closefd fd (v\<lparr>ev_errno := e\<rparr>)) (\<lambda>v. ret (v, rs)))
       else
         bnd (rd32 buf 0) (\<lambda>n.
         bnd (recv_v rs e buf 4 (sint (body_len n)) 0) (\<lambda>(i, rs, e).
           if body_len n \<noteq> of_nat i then
             sq (pool_free buf)
                (bnd (closefd fd (v\<lparr>ev_errno := e\<rparr>)) (\<lambda>v. ret (v, rs)))
           else
             sq (set_fd buf fd)
            (sq (recv_enqueue buf)
                (ret (v\<lparr>ev_errno := e, lasttime := (lasttime v)(fd := now)\<rparr>, rs)))))))"

text \<open>The descriptors \<open>time_cb\<close> reports as idle; it does not close them.\<close>

definition time_cb :: "int \<Rightarrow> evl \<Rightarrow> int list" where
  "time_cb now v = filter (\<lambda>i. io v i \<and> TIMEOUT < now - lasttime v i) [0 .. MAXFD - 1]"

definition getClientCount :: "evl \<Rightarrow> u32" where
  "getClientCount v = clientcount v"

section \<open>The loop\<close>

record listener =
  m_ip :: string
  m_port :: int
  m_listenfd :: int

text \<open>The constructor clears the table of clients but not their number.\<close>

definition Evloop_new :: "string \<Rightarrow> int \<Rightarrow> int \<Rightarrow> evl \<Rightarrow> listener \<times> evl" where
  "Evloop_new ip port sock v =
     (\<lparr>m_ip = ip, m_port = port, m_listenfd = sock\<rparr>, v\<lparr>io := (\<lambda>i. if 0 \<le> i \<and> i < MAXFD then False else io v i)\<rparr>)"

text \<open>\<open>inet_addr\<close> and \<open>bind\<close> are the arguments \<open>inet\<close> and \<open>bind_ok\<close>; of the port 16 bits remain.\<close>

definition startlisten :: "(string \<Rightarrow> u32) \<Rightarrow> (int \<Rightarrow> u32 \<Rightarrow> u16 \<Rightarrow> bool) \<Rightarrow> listener \<Rightarrow> fault + int" where
  "startlisten inet bind_ok l =
     (if bind_ok (m_listenfd l) (inet (m_ip l)) (word_of_int (m_port l)) then Inr (m_listenfd l) else Inl Aborted)"

text \<open>What libev reports: a connection on the listening socket, for which \<open>accept\<close> gives \<open>newfd\<close>, or data on
  a client's descriptor, with what the calls of \<open>recv\<close> will answer.\<close>

datatype ev_event = Connected int int | Readable int int "recvres list"

definition ev_callback :: "ev_event \<Rightarrow> evl \<Rightarrow> evl act" where
  "ev_callback ev v = (case ev of
     Connected newfd now \<Rightarrow> (case accept_cb newfd now v of Inl f \<Rightarrow> fail f | Inr v' \<Rightarrow> ret v')
   | Readable fd now rs \<Rightarrow> bnd (recv_cb fd now rs v) (\<lambda>(v', rs'). ret v'))"

text \<open>The loop ends only when nothing is watched any more, and the listening socket always is: after the
  events of the list it waits for the next one.\<close>

fun ev_loop :: "ev_event list \<Rightarrow> evl \<Rightarrow> evl act" where
  "ev_loop [] v = ret v"
| "ev_loop (ev # evs) v = bnd (ev_callback ev v) (ev_loop evs)"

definition Evloop_work :: "(string \<Rightarrow> u32) \<Rightarrow> (int \<Rightarrow> u32 \<Rightarrow> u16 \<Rightarrow> bool) \<Rightarrow> listener \<Rightarrow> ev_event list \<Rightarrow> evl \<Rightarrow> evl act" where
  "Evloop_work inet bind_ok l evs v = (case startlisten inet bind_ok l of Inl f \<Rightarrow> fail f | Inr fd \<Rightarrow> ev_loop evs v)"

end
