(* ===== verification/Dispatch.thy ===== *)
theory Dispatch
  imports HandleClassRoom HandleForward HandleBuildHouse HandlePuzzle HandleRainbowValley Login Evloop Task
begin

text \<open>
  \<open>handler/MSGHANDLE\<close>, the table of \<open>handler/HandleMessage.h\<close> it fills, and \<open>RecvTask.cpp\<close>: the
  next received packet is looked up by its type and handed to its handler.  A packet of a type
  without a handler is dropped on the floor.
\<close>

type_synonym handlefunc = "env \<Rightarrow> ptr \<Rightarrow> unit act"

definition MSGHANDLE :: "(u32 \<times> handlefunc) list" where
  "MSGHANDLE = [
    (CT_Test, \<lambda>e. handleTest),
    (CT_ChangeScene, \<lambda>e. handleChangeScene),
    (CT_ControlChangeScene, \<lambda>e. handleControlChangeScene),
    (CT_GetCurrentScene, \<lambda>e. handleGetCurrentScene),
    (CT_InitSceneFinished, \<lambda>e. handleInitSceneFinished),
    (CT_ConfirmIntoClassRoom, \<lambda>e. handleConfirmIntoClassRoom),
    (CT_Login, handleLogin),
    (CT_LoginResult, \<lambda>e. handleLoginResult),
    (CT_GetCourseDBCount, handleGetCourseDBCount),
    (CT_GetCourseDB, handleGetCourseDB),
    (CT_SetCourseGroup, handleSetCourseGroup),
    (CT_GetCourseGroup, \<lambda>e. handleGetCourseGroup),
    (CT_GetCourseItemCount, handleGetCourseItemCount),
    (CT_GetCourseItem, handleGetCourseItem),
    (CT_Logout, \<lambda>e. handleLogout),
    (CT_LogoutReuslt, \<lambda>e. handleLogoutReuslt),
    (CT_GetClassRoomDBCount, handleGetClassRoomDBCount),
    (CT_GetClassRoomDB, handleGetClassRoomDB),
    (CT_GetGradeDBCount, handleGetGradeDBCount),
    (CT_GetGradeDB, handleGetGradeDB),
    (CT_GetClassDBCount, handleGetClassDBCount),
    (CT_GetClassDB, handleGetClassDB),
    (CT_LoginClassRoom, \<lambda>e. handleLoginClassRoom),
    (CT_LogoutClassRoom, \<lambda>e. handleLogoutClassRoom),
    (CT_GetStudentDetailInfo, handleGetStudentDetailInfo),
    (CT_GetAllStudentInfoCount, handleGetAllStudentInfoCount),
    (CT_GetAllStudentInfo, handleGetAllStudentInfo),
    (CT_LeaveEarly, \<lambda>e. handleLeaveEarly),
    (CT_ConfirmLeaveEarly, \<lambda>e. handleConfirmLeaveEarly),
    (CT_GetTeacherInfo, handleGetTeacherInfo),
    (CT_LockStudent, \<lambda>e. handleLockStudent),
    (CT_SelectedClassRoom, \<lambda>e. handleSelectedClassRoom),
    (CT_CourseFinished, \<lambda>e. handleCourseFinished),
    (CT_GetDBRecordFinished, \<lambda>e. handleDBRecordFinished),
    (CT_GetCourseItemKeyInfoReq, handleGetCourseItemKeyInfoReq),
    (CT_Common_PlayorPause, \<lambda>e. handleCommonPlayorPause),
    (CT_Common_Resume, \<lambda>e. handleCommonResume),
    (CT_Common_Stop, \<lambda>e. handleCommonStop),
    (CT_ShowSpriteAnimation, \<lambda>e. handleShowSpriteAnimation),
    (CT_ShowSpriteControl, \<lambda>e. handleShowSpriteControl),
    (CT_ControlLevel, \<lambda>e. handleControlLevel),
    (CT_Exercise_GameStart, \<lambda>e. handleExercise_GameStart),
    (CT_Exercise_Play, \<lambda>e. handleExercise_Play),
    (CT_Exercise_Pause, \<lambda>e. handleExercise_Pause),
    (CT_Exercise_Stop, \<lambda>e. handleExercise_Stop),
    (CT_Exercise_GameEnd, \<lambda>e. handleExercise_GameEnd),
    (CT_Cartoon_GameStart, \<lambda>e. handleCartoon_GameStart),
    (CT_Cartoon_Play, \<lambda>e. handleCartoon_Play),
    (CT_Cartoon_Pause, \<lambda>e. handleCartoon_Pause),
    (CT_Cartoon_Stop, \<lambda>e. handleCartoon_Stop),
    (CT_Cartoon_GameEnd, \<lambda>e. handleCartoon_GameEnd),
    (CT_BuildHouse_CaiHongXiaoWu, \<lambda>e. handleBuildHouse_CaiHongXiaoWu),
    (CT_BuildHouse_CaiHongGu, \<lambda>e. handleBuildHouse_CaiHongGu),
    (CT_BuildHouse_XiaoGuaiWu, \<lambda>e. handleBuildHouse_XiaoGuaiWu),
    (CT_BuildHouse_MuBu, \<lambda>e. handleBuildHouse_MuBu),
    (CT_BuildHouse_OperatorDemo, \<lambda>e. handleBuildHouse_OperatorDemo),
    (CT_BuildHouse_SingleMode, \<lambda>e. handleBuildHouse_SingleMode),
    (CT_BuildHouse_GroupMode, \<lambda>e. handleBuildHouse_GroupMode),
    (CT_BuildHouse_SetStuGroupCount, \<lambda>e. handleBuildHouse_SetStuGroupCount),
    (CT_BuildHouse_SetStuGroup, \<lambda>e. handleBuildHouse_SetStuGroup),
    (CT_BuildHouse_GetStuGroupCount, \<lambda>e. handleBuildHouse_GetStuGroupCount),
    (CT_BuildHouse_GetStuGroup, \<lambda>e. handleBuildHouse_GetStuGroup),
    (CT_BuildHouse_GameStart, \<lambda>e. handleBuildHouse_GameStart),
    (CT_BuildHouse_UpdatePos, \<lambda>e. handleBuildHouse_UpdatePos),
    (CT_BuildHouse_GameEnd, \<lambda>e. handleBuildHouse_GameEnd),
    (CT_BuildHouse_Save, \<lambda>e. handleBuildHouse_Save),
    (CT_BuildHouse_EmailTibet, \<lambda>e. handleBuildHouse_EmailTibet),
    (CT_BuildHouse_EmailAmerica, \<lambda>e. handleBuildHouse_EmailAmerica),
    (CT_BuildHouse_Update, \<lambda>e. handleBuildHouse_Update),
    (CT_BuildHouse_Move, \<lambda>e. handleBuildHouse_Move),
    (CT_BuildHouse_Scale, \<lambda>e. handleBuildHouse_Scale),
    (CT_BuildHouse_Angle, \<lambda>e. handleBuildHouse_Angle),
    (CT_BuildHouse_Change_Layer, \<lambda>e. handleBuildHouse_Change_Layer (swap_right_first e)),
    (CT_BuildHouse_Add_Pic, \<lambda>e. handleBuildHouse_Add_Pic),
    (CT_BuildHouse_Del_Pic, \<lambda>e. handleBuildHouse_Del_Pic),
    (CT_BuildHouse_Activation, \<lambda>e. handleBuildHouse_Activation),
    (CT_BuildHouse_Role, \<lambda>e. handleBuildHouse_Role),
    (CT_BuildHouse_Stamp, \<lambda>e. handleBuildHouse_Stamp),
    (CT_BuildHouse_ScreenShot, \<lambda>e. handleBuildHouse_ScreenShot),
    (CT_BuildHouse_SaveHouse, \<lambda>e. handleBuildHouse_SaveHouse),
    (CT_Puzzle_GameStart, handlePuzzle_GameStart),
    (CT_Puzzle_IconStatus, \<lambda>e. handlePuzzle_IconStatus),
    (CT_Puzzle_Play, \<lambda>e. handlePuzzle_Play),
    (CT_Puzzle_Pause, \<lambda>e. handlePuzzle_Pause),
    (CT_Puzzle_MovePic, \<lambda>e. handlePuzzle_MovePic),
    (CT_Puzzle_DeletePic, \<lambda>e. handlePuzzle_DeletePic),
    (CT_Puzzle_AddPic, \<lambda>e. handlePuzzle_AddPic),
    (CT_Puzzle_CalcScore, \<lambda>e. handlePuzzle_CalcScore),
    (CT_Puzzle_EndGame, handlePuzzle_EndGame),
    (CT_Scene_End, \<lambda>e. handleSceneEnd),
    (CT_Puzzle_GetPic, handlePuzzle_GetPic),
    (CT_Puzzle_UpdatePic, \<lambda>e. handlePuzzle_UpdatePic),
    (CT_Puzzle_SelectedType, \<lambda>e. handlePuzzle_SelectedType),
    (CT_Puzzle_SelectedSize, \<lambda>e. handlePuzzle_SelectedSize),
    (CT_RainbowValley_HouseNum, \<lambda>e. handleRainbowValley_HouseNum),
    (CT_RainbowValley_HouseInfo, \<lambda>e. handleRainbowValley_HouseInfo)]"

text \<open>\<open>initHandlers\<close> inserts the entries one by one; the first entry of a type would win.\<close>

definition initHandlers :: "(u32, handlefunc) smap" where
  "initHandlers = fold (\<lambda>(ct, h). smap_insert ct h) MSGHANDLE []"

definition getHandler :: "u32 \<Rightarrow> handlefunc option" where
  "getHandler ct = smap_find initHandlers ct"

text \<open>
  One round of \<open>RecvTask::work\<close>: the queue stayed empty, a packet was handled, or the null pointer
  ended the thread.  Every packet is printed before its handler runs.
\<close>

datatype recv_round = Waited | Handled | Ended

definition handle_packet :: "env \<Rightarrow> ptr \<Rightarrow> unit act" where
  "handle_packet e p = bnd (debugProtocol p) (\<lambda>_. bnd (head_cType p) (\<lambda>ct.
     case getHandler ct of None \<Rightarrow> ret () | Some pfun \<Rightarrow> pfun e p))"

definition RecvTask_round :: "env \<Rightarrow> recv_round act" where
  "RecvTask_round e = bnd (gets recvqueue) (\<lambda>q.
     case QueueT_dequeue q of None \<Rightarrow> ret Waited
     | Some (p, q') \<Rightarrow>
         sq (modify (\<lambda>s. s\<lparr>recvqueue := q'\<rparr>))
        (if p = NULL then ret Ended else sq (handle_packet e p) (ret Handled)))"

end
