(* ===== verification/Samples.thy ===== *)
theory Samples
  imports Room
begin

text \<open>
  Small concrete server states, on which the properties of the other theories are run: a packet
  in buffer 10, five free buffers 11 to 15, and the students, nodes, groups and rooms given.
\<close>

definition blank :: Buf where
  "blank = \<lparr>m_ptr = (\<lambda>_. 0), m_size = MAX_BUF, m_used = 0, m_fd = 0, m_id = 0\<rparr>"

definition pkt :: "int \<Rightarrow> byte list \<Rightarrow> Buf" where
  "pkt fd bs = \<lparr>m_ptr = copy_list (\<lambda>_. 0) 0 bs, m_size = MAX_BUF, m_used = length bs, m_fd = fd, m_id = 0\<rparr>"

definition student :: "u32 \<Rightarrow> CStudent" where
  "student i = (CStudent_new (\<lambda>_. 0))\<lparr>m_Id := i, m_current_status := eCS_ONLINE\<rparr>"

definition srv0 :: "(int, CRoom) smap \<Rightarrow> Buf \<Rightarrow> srv" where
  "srv0 rs b = \<lparr>bufs = (\<lambda>p. if p = 10 then Some b else if 10 < p \<and> p \<le> 15 then Some blank else None),
     bufpool = \<lparr>pool_queue = [11, 12, 13, 14, 15], pool_size = 6\<rparr>, recvqueue = [], sendqueue = [],
     students = (\<lambda>_. None), nodes = (\<lambda>_. None), groups = (\<lambda>_. None), puzzles = (\<lambda>_. None),
     rooms = rs, test_white_fd = 0, next_addr = 100, fresh_mem = (\<lambda>_ _. 0)\<rparr>"

definition room0 :: "int \<Rightarrow> int \<Rightarrow> (int, ptr) smap \<Rightarrow> CRoom" where
  "room0 t w m = (CRoom_new (\<lambda>_. 0) 1 [] [])\<lparr>m_teacher_fd := t, m_white_fd := w, m_student_map := m\<rparr>"

definition bufs0 :: "ptr multiset" where
  "bufs0 = {#10, 11, 12, 13, 14, 15#}"

lemma pkt_size [simp]: "m_size (pkt fd bs) = MAX_BUF" "m_fd (pkt fd bs) = fd" "m_used (pkt fd bs) = length bs"
  by (simp_all add: pkt_def)

lemma room0_simps [simp]: "m_teacher_fd (room0 t w m) = t" "m_white_fd (room0 t w m) = w"
  "m_student_map (room0 t w m) = m"
  by (simp_all add: room0_def)

lemma srv0_simps [simp]: "rooms (srv0 rs b) = rs" "bufs (srv0 rs b) 10 = Some b" "sendqueue (srv0 rs b) = []"
  by (simp_all add: srv0_def)

text \<open>The bytes of a packet that \<open>pkt\<close> was given.\<close>

lemma pkt_bytes: "bytes_at (m_ptr (pkt fd bs)) 0 (length bs) = bs"
  by (simp add: pkt_def bytes_at_copy_list)

lemma pkt_get32: "get32 (m_ptr (pkt fd (xs @ le32 v @ ys))) (length xs) = v"
proof -
  have "bytes_at (copy_list m 0 (xs @ le32 v @ ys)) (length xs) 4 = le32 v" for m
    by (rule nth_equalityI) (simp_all add: bytes_at_def copy_list_def nth_append)
  then show ?thesis by (simp add: pkt_def get32_of_bytes_at)
qed

lemma pkt_len: "get32 (m_ptr (pkt fd (msg n ct body))) 0 = n"
  using pkt_get32 [of fd "[]" n "le32 ct @ body"] by (simp add: msg_def)

lemma pkt_type: "get32 (m_ptr (pkt fd (msg n ct body))) 4 = ct"
  using pkt_get32 [of fd "le32 n" ct body] by (simp add: msg_def)

lemma pkt_body: "bytes_at (m_ptr (pkt fd (msg n ct body))) 8 (length body) = body"
proof -
  let ?m = "m_ptr (pkt fd (msg n ct body))"
  have "bytes_at ?m 0 8 @ bytes_at ?m 8 (length body) = (le32 n @ le32 ct) @ body"
    using pkt_bytes [of fd "msg n ct body"] bytes_at_split [of ?m 0 8 "length body"] by (simp add: msg_def)
  moreover have "length (bytes_at ?m 0 8) = length (le32 n @ le32 ct)" by simp
  ultimately show ?thesis using append_eq_append_conv by blast
qed

lemma srv0_own:
  assumes "m_size b = MAX_BUF" "bufs s = bufs (srv0 rs b)" "bufpool s = bufpool (srv0 rs b)"
    "recvqueue s = []" "sendqueue s = []"
  shows "own bufs0 5 [(10, b)] [] (world s) s"
  using assms
  by (auto simp: own_def held_def bal_def inflight_def live_buf_def avail_def sent_def srv0_def bufs0_def
      blank_def NULL_def count_add_mset)

end
