(* ===== verification/Messaging_Spec.thy ===== *)
theory Messaging_Spec
  imports Messaging Samples
begin

text \<open>
  What the forwarding primitives deliver.  The statements are about whole packets on the wire:
  \<open>(fd, bytes)\<close>.  \<open>own U n [(p, b)] X w s\<close> is the situation of a handler: it holds the received
  packet \<open>p\<close> with content \<open>b\<close>, \<open>X\<close> is queued for sending, \<open>n\<close> buffers are free, and \<open>w\<close> is
  the rest of the state, which the forwarders leave alone.
\<close>

section \<open>Rooms and descriptors\<close>

lemma find_room_Some:
  "find_room m fd = Some k \<Longrightarrow> \<exists>r. (k, r) \<in> set m \<and> room_knows fd r"
  by (induction m fd rule: find_room.induct) (auto split: if_splits)

lemma find_room_None: "find_room m fd = None \<longleftrightarrow> (\<forall>(k, r) \<in> set m. \<not> room_knows fd r)"
  by (induction m fd rule: find_room.induct) auto

lemma find_room_find:
  assumes "smap_inv m" "find_room m fd = Some k"
  shows "\<exists>r. smap_find m k = Some r \<and> room_knows fd r"
  using find_room_Some [OF assms(2)] smap_find_Some [OF assms(1)] by blast

text \<open>Where a packet of \<open>fd\<close> is to go: the first room that knows \<open>fd\<close> decides, by the role that
  \<open>fd\<close> has in it.  This is the routing table that the three forwarders implement.\<close>

definition route :: "(CRoom \<Rightarrow> int \<Rightarrow> bool) \<Rightarrow> (CRoom \<Rightarrow> int) \<Rightarrow> (int, CRoom) smap \<Rightarrow> int \<Rightarrow> int option" where
  "route may dest m fd = (case find_room m fd of None \<Rightarrow> None
     | Some k \<Rightarrow> (case smap_find m k of None \<Rightarrow> None
        | Some r \<Rightarrow> if may r fd then Some (dest r) else None))"

definition is_teacher :: "CRoom \<Rightarrow> int \<Rightarrow> bool" where "is_teacher r fd \<longleftrightarrow> m_teacher_fd r = fd"
definition is_white :: "CRoom \<Rightarrow> int \<Rightarrow> bool" where "is_white r fd \<longleftrightarrow> m_white_fd r = fd"
definition is_student :: "CRoom \<Rightarrow> int \<Rightarrow> bool" where "is_student r fd \<longleftrightarrow> CRoom_get_student_by_fd r fd \<noteq> NULL"

lemmas role_defs = is_teacher_def is_white_def is_student_def

lemma own_rooms: "own U n C X w s \<Longrightarrow> own U' n' C' X' w t \<Longrightarrow> rooms t = rooms s"
  using own_world world_eqs by metis

lemma wp_get_room_by_fd [wp_simps]:
  "wp (CRoomManager_get_room_by_fd fd) Q s = Q (find_room (rooms s) fd) s"
  by (simp add: CRoomManager_get_room_by_fd_def wp_simps)

section \<open>Forwarding one packet\<close>

lemma own_forward:
  assumes "own U n ((p, b) # C) X w s" "unat (get32 (m_ptr b) 0) = k" "8 \<le> k"
    and "\<And>t. own U n C (X @ [(fd, retype ct (bytes_at (m_ptr b) 0 k))]) w t \<Longrightarrow> Q True t"
  shows "wp (forward p ct fd) Q s"
  unfolding forward_def wp_simps
  apply (insert assms(1))
  apply (rule own_intros, assumption)+
  apply (rule list.set_intros)
  apply (rule own_intros, assumption)+
  apply (rule assms(4))
  using assms(2,3) apply (simp add: view_def get32_put32_other bytes_at_set_type)
  done

lemma forward_wire:
  assumes "own U n ((p, b) # C) X w s" "unat (get32 (m_ptr b) 0) = k" "8 \<le> k"
  shows "wp (forward p ct fd) (\<lambda>ok t. ok \<and> own U n C (X @ [(fd, retype ct (bytes_at (m_ptr b) 0 k))]) w t) s"
  by (rule own_forward [OF assms]) simp

text \<open>The shape the three forwarders share, and what it does.\<close>

definition routed :: "(CRoom \<Rightarrow> int \<Rightarrow> bool) \<Rightarrow> (CRoom \<Rightarrow> int) \<Rightarrow> ptr \<Rightarrow> u32 \<Rightarrow> bool act" where
  "routed may dest p ct = bnd (get_fd p) (\<lambda>fd. bnd (CRoomManager_get_room_by_fd fd) (\<lambda>pc.
     case pc of None \<Rightarrow> sq (pool_free p) (ret False)
     | Some rid \<Rightarrow> bnd (deref_room pc) (\<lambda>r.
         if may r fd then forward p ct (dest r) else sq (pool_free p) (ret False))))"

lemma routed_eqs:
  "p \<noteq> NULL \<Longrightarrow> postTeacherToWhite p ct = routed is_teacher m_white_fd p ct"
  "postWhiteToTeacher p ct = routed is_white m_teacher_fd p ct"
  "p \<noteq> NULL \<Longrightarrow> postStudentToWhite p ct = routed is_student m_white_fd p ct"
  by (simp_all add: postTeacherToWhite_def postWhiteToTeacher_def postStudentToWhite_def routed_def role_defs
      cong: option.case_cong)

lemma own_routed:
  assumes "own U n [(p, b)] X w s" "smap_inv (rooms s)"
    and "unat (get32 (m_ptr b) 0) = k" "8 \<le> k"
  shows "wp (routed may dest p ct) (\<lambda>ok t. case route may dest (rooms s) (m_fd b) of
       None \<Rightarrow> \<not> ok \<and> own U (Suc n) [] X w t
     | Some fd \<Rightarrow> ok \<and> own U n [] (X @ [(fd, retype ct (bytes_at (m_ptr b) 0 k))]) w t) s"
proof -
  have p: "p \<noteq> NULL" "bufs s p = Some b" using own_buf [OF assms(1)] by auto
  show ?thesis
  proof (cases "find_room (rooms s) (m_fd b)")
    case None
    then show ?thesis
      using p by (auto simp: routed_def wp_simps get_fd_def route_def intro!: own_pool_free [OF assms(1)])
  next
    case (Some rid)
    then obtain r where "smap_find (rooms s) rid = Some r"
      using find_room_find [OF assms(2)] by blast
    then show ?thesis
      using p Some forward_wire [OF assms(1,3,4), of ct "dest r"]
      by (auto simp: routed_def wp_simps get_fd_def route_def intro!: own_pool_free [OF assms(1)])
  qed
qed

lemma postTeacherToWhite_rule:
  assumes "own U n [(p, b)] X w s" "smap_inv (rooms s)"
    and "unat (get32 (m_ptr b) 0) = k" "8 \<le> k"
  shows "wp (postTeacherToWhite p ct) (\<lambda>ok t. case route is_teacher m_white_fd (rooms s) (m_fd b) of
       None \<Rightarrow> \<not> ok \<and> own U (Suc n) [] X w t
     | Some fd \<Rightarrow> ok \<and> own U n [] (X @ [(fd, retype ct (bytes_at (m_ptr b) 0 k))]) w t) s"
  using own_routed [OF assms] own_buf [OF assms(1)] by (simp add: routed_eqs)

text \<open>C1: \<open>postTeacherToWhite\<close>: a packet of the teacher of a room goes to the whiteboard of that room,
  byte for byte, with only its type replaced; a packet of anybody else is recycled and nothing is
  sent.  Every buffer is accounted for and no other part of the server state changes.\<close>

theorem postTeacherToWhite_delivers:
  assumes "own U n [(p, b)] X w s" "smap_inv (rooms s)"
    and "unat (get32 (m_ptr b) 0) = k" "8 \<le> k"
  shows "wp (postTeacherToWhite p ct) (\<lambda>ok t. case route is_teacher m_white_fd (rooms s) (m_fd b) of
       None \<Rightarrow> \<not> ok \<and> own U (Suc n) [] X w t
     | Some fd \<Rightarrow> ok \<and> own U n [] (X @ [(fd, retype ct (bytes_at (m_ptr b) 0 k))]) w t) s"
  by (rule postTeacherToWhite_rule [OF assms])

text \<open>The sample: room 1 has teacher 5, whiteboard 6 and student 7; the packet has twelve bytes.\<close>

definition sample_room :: "(int, CRoom) smap" where
  "sample_room = [(1, room0 5 6 [(7, 20)])]"

definition sample_srv :: "int \<Rightarrow> u32 \<Rightarrow> srv" where
  "sample_srv fd ct = srv0 sample_room (pkt fd (msg 12 ct [1, 2, 3, 4]))"

lemma sample_own:
  "own bufs0 5 [(10, pkt fd (msg 12 ct [1, 2, 3, 4]))] [] (world (sample_srv fd ct)) (sample_srv fd ct)"
  by (rule srv0_own) (simp_all add: sample_srv_def srv0_def)

lemma sample_bytes:
  "unat (get32 (m_ptr (pkt fd (msg 12 ct [1, 2, 3, 4]))) 0) = 12"
  "bytes_at (m_ptr (pkt fd (msg 12 ct [1, 2, 3, 4]))) 0 12 = msg 12 ct [1, 2, 3, 4]"
  using pkt_len [of fd 12 ct "[1, 2, 3, 4]"] pkt_bytes [of fd "msg 12 ct [1, 2, 3, 4]"] by simp_all

lemma sample_body: "bytes_at (m_ptr (pkt fd (msg 12 ct [1, 2, 3, 4]))) 8 4 = [1, 2, 3, 4]"
proof -
  have "length [1, 2, 3, 4 :: byte] = 4" by simp
  then show ?thesis using pkt_body [of fd 12 ct "[1, 2, 3, 4]"] by metis
qed

lemma sample_rooms: "rooms (sample_srv fd ct) = sample_room" "smap_inv sample_room"
  by (simp_all add: sample_srv_def sample_room_def)

lemmas sample_simps = sample_bytes sample_rooms sample_room_def room_knows_def route_def role_defs
  CRoom_get_student_by_fd_def NULL_def

lemma postTeacherToWhite_witness:
  "wp (postTeacherToWhite 10 77) (\<lambda>ok t. ok \<and> sent t = [(6, msg 12 77 [1, 2, 3, 4])]) (sample_srv 5 3)"
  by (rule wp_mono [OF postTeacherToWhite_delivers [where k = 12, OF sample_own]])
     (auto simp: sample_simps dest: own_sent)

text \<open>\<open>postWhiteToTeacher\<close>: the same from the whiteboard of a room to its teacher.\<close>

theorem postWhiteToTeacher_delivers:
  assumes "own U n [(p, b)] X w s" "smap_inv (rooms s)"
    and "unat (get32 (m_ptr b) 0) = k" "8 \<le> k"
  shows "wp (postWhiteToTeacher p ct) (\<lambda>ok t. case route is_white m_teacher_fd (rooms s) (m_fd b) of
       None \<Rightarrow> \<not> ok \<and> own U (Suc n) [] X w t
     | Some fd \<Rightarrow> ok \<and> own U n [] (X @ [(fd, retype ct (bytes_at (m_ptr b) 0 k))]) w t) s"
  using own_routed [OF assms] by (simp add: routed_eqs)

lemma postWhiteToTeacher_witness:
  "wp (postWhiteToTeacher 10 77) (\<lambda>ok t. ok \<and> sent t = [(5, msg 12 77 [1, 2, 3, 4])]) (sample_srv 6 3)"
  by (rule wp_mono [OF postWhiteToTeacher_delivers [where k = 12, OF sample_own]])
     (auto simp: sample_simps dest: own_sent)

text \<open>\<open>postStudentToWhite\<close>: the same from a student that is registered in a room to its whiteboard;
  a descriptor that the room knows as its teacher only is not a student, and its packet is recycled.\<close>

theorem postStudentToWhite_delivers:
  assumes "own U n [(p, b)] X w s" "smap_inv (rooms s)"
    and "unat (get32 (m_ptr b) 0) = k" "8 \<le> k"
  shows "wp (postStudentToWhite p ct) (\<lambda>ok t. case route is_student m_white_fd (rooms s) (m_fd b) of
       None \<Rightarrow> \<not> ok \<and> own U (Suc n) [] X w t
     | Some fd \<Rightarrow> ok \<and> own U n [] (X @ [(fd, retype ct (bytes_at (m_ptr b) 0 k))]) w t) s"
  using own_routed [OF assms] own_buf [OF assms(1)] by (simp add: routed_eqs)

lemma postStudentToWhite_witness:
  "wp (postStudentToWhite 10 77) (\<lambda>ok t. ok \<and> sent t = [(6, msg 12 77 [1, 2, 3, 4])]) (sample_srv 7 3)"
  by (rule wp_mono [OF postStudentToWhite_delivers [where k = 12, OF sample_own]])
     (auto simp: sample_simps dest: own_sent)

section \<open>To all students of a room\<close>

lemma sint_small: "unat (v :: u32) = k \<Longrightarrow> k \<le> MAX_BUF \<Longrightarrow> sint v = int k"
proof -
  assume "unat v = k" "k \<le> MAX_BUF"
  then have "uint v = int k" "k < 2 ^ 31" by (auto simp: MAX_BUF_def)
  then show ?thesis by (simp add: sint_uint signed_take_bit_int_eq_self)
qed

lemma bytes_at_0 [simp]: "bytes_at m a 0 = []"
  by (simp add: bytes_at_def)

lemma own_copy_to_student:
  assumes "own U n ((q, bq) # C) X w s" "(p, b) \<in> set C"
    and "unat len = k" "8 \<le> k" "k \<le> MAX_BUF"
    and "\<And>t. own U n C (X @ [(fd, msg len ct (bytes_at (m_ptr b) 8 (k - 8)))]) w t \<Longrightarrow> Q () t"
  shows "wp (copy_to_student q p len ct fd) Q s"
proof (cases "k = 8")
  case True
  then have "\<not> 8 < sint len" using sint_small [OF assms(3,5)] by simp
  then show ?thesis
    unfolding copy_to_student_def wp_simps MSG_HEAD_LEN_def
    apply simp
    apply (insert assms(1))
    apply (rule own_intros, assumption)+
    apply (rule list.set_intros)
    apply (rule own_intros, assumption)+
    apply (rule assms(6))
    using assms(3) True apply (simp add: view_def wire_msg wire_simps)
    done
next
  case False
  then have l: "8 < sint len" "nat (sint len) = k" using sint_small [OF assms(3,5)] assms(4) by simp_all
  show ?thesis
    unfolding copy_to_student_def wp_simps MSG_HEAD_LEN_def
    using l apply simp
    apply (insert assms(1,2))
    apply (rule own_intros, assumption)+
    apply (rule list.set_intros, assumption)
    using assms(4,5) apply simp
    using assms(4,5) apply simp
    apply (rule own_intros, assumption)
    apply (rule list.set_intros)
    apply (rule own_intros, assumption)+
    apply (rule assms(6))
    using assms(3,4) apply (simp add: view_def wire_msg wire_simps)
    done
qed

text \<open>C6: \<open>postTeacherToAllStudent\<close>: every student of the sender's room gets the packet once, in the
  order of their descriptors, with the new type and the content unchanged, and the packet itself
  is recycled.  Nothing asks whether the sender is the teacher.\<close>

theorem postTeacherToAllStudent_delivers:
  assumes "own U n [(p, b)] X w s" "smap_inv (rooms s)"
    and "find_room (rooms s) (m_fd b) = Some rid" "smap_find (rooms s) rid = Some r"
    and "unat (get32 (m_ptr b) 0) = k" "8 \<le> k" "k \<le> MAX_BUF" "length (m_student_map r) \<le> n"
  shows "wp (postTeacherToAllStudent p ct) (\<lambda>ok t. ok \<and> own U (Suc (n - length (m_student_map r))) []
     (X @ map (\<lambda>(fd, stu). (fd, msg (of_nat k) ct (bytes_at (m_ptr b) 8 (k - 8)))) (m_student_map r)) w t) s"
proof -
  let ?m = "m_student_map r" and ?len = "get32 (m_ptr b) 0"
  let ?f = "\<lambda>(k, stu). bnd pool_malloc (\<lambda>pbuf. if pbuf \<noteq> NULL
      then sq (copy_to_student pbuf p ?len ct k) (ret True)
      else sq (buf_reset p) (sq (buf_reset pbuf) (sq (pool_free p) (sq (pool_free pbuf) (ret False)))))"
  let ?g = "\<lambda>(fd, stu). (fd, msg (of_nat k) ct (bytes_at (m_ptr b) 8 (k - 8)))"
  have p: "p \<noteq> NULL" "bufs s p = Some b" "m_size b = MAX_BUF" using own_buf [OF assms(1)] by auto
  have len: "?len = of_nat k" using assms(5) by auto
  have start: "own U (n - length ?m + length ?m) [(p, b)] X w s" using assms(1,8) by simp
  have "wp (?f y) (\<lambda>r t'. r \<and> own U m [(p, b)] (Y @ [?g y]) w t') t"
    if "own U (Suc m) [(p, b)] Y w t" for y m Y t
    using that assms(5-7) unfolding len [symmetric]
    by (cases y) (auto simp: wp_simps intro!: own_pool_malloc own_copy_to_student)
  from own_for_while [OF start this]
  have loop: "wp (for_while ?m ?f) (\<lambda>r t. r \<and> own U (n - length ?m) [(p, b)] (X @ map ?g ?m) w t) s" .
  have "wp (for_while ?m ?f) (\<lambda>ok. wp (if ok then sq (buf_reset p) (sq (pool_free p) (ret True)) else ret False)
      (\<lambda>ok t. ok \<and> own U (Suc (n - length ?m)) [] (X @ map ?g ?m) w t)) s"
    by (rule wp_mono [OF loop]) (auto simp: wp_simps intro!: own_buf_reset own_pool_free)
  then show ?thesis
    using p assms(3,4)
    by (simp add: postTeacherToAllStudent_def head_cLen_def rd32_def get_fd_def wp_simps MAX_BUF_def)
qed

lemma postTeacherToAllStudent_witness:
  "wp (postTeacherToAllStudent 10 77) (\<lambda>ok t. ok \<and> sent t = [(7, msg 12 77 [1, 2, 3, 4])]) (sample_srv 5 3)"
  by (rule wp_mono [OF postTeacherToAllStudent_delivers [where k = 12 and rid = 1, OF sample_own]])
     (auto simp: sample_simps MAX_BUF_def sample_body dest: own_sent)

text \<open>When no buffer is free and the room has a student, \<open>postTeacherToAllStudent\<close> calls a method
  of the \<open>NULL\<close> pointer it was given: the error branch tests for the failure and then uses the result.\<close>

theorem postTeacherToAllStudent_no_buffer:
  assumes "p \<noteq> NULL" "bufs s p = Some b" "4 \<le> m_size b" "avail s = 0"
    and "find_room (rooms s) (m_fd b) = Some rid" "smap_find (rooms s) rid = Some r" "m_student_map r \<noteq> []"
  shows "postTeacherToAllStudent p ct s = Inl NullDeref"
proof -
  obtain k stu m where m: "m_student_map r = (k, stu) # m" using assms(7) by (cases "m_student_map r") auto
  have avail: "avail (set_buf p c s) = 0" for c using assms(4) by (simp add: avail_def set_buf_def)
  have "PoolT_malloc (bufpool s) = None"
    using assms(4) by (simp add: PoolT_malloc_def avail_def)
  then show ?thesis
    using assms(1-3,5,6) m
    by (simp add: postTeacherToAllStudent_def head_cLen_def rd32_def get_fd_def deref_def bnd_def sq_def
        check_def ret_def gets_def CRoomManager_get_room_by_fd_def deref_room_def pool_malloc_def
        buf_reset_def upd_buf_def modify_def)
qed

lemma postTeacherToAllStudent_no_buffer_witness:
  "postTeacherToAllStudent 10 77 ((sample_srv 5 3)\<lparr>bufpool := \<lparr>pool_queue = [], pool_size = 1\<rparr>\<rparr>) = Inl NullDeref"
  by (rule postTeacherToAllStudent_no_buffer [where b = "pkt 5 (msg 12 3 [1, 2, 3, 4])" and rid = 1
        and r = "room0 5 6 [(7, 20)]"])
     (simp_all add: sample_simps sample_srv_def avail_def MAX_BUF_def)

section \<open>To one student, and answers\<close>

definition has_id :: "srv \<Rightarrow> u32 \<Rightarrow> int \<times> ptr \<Rightarrow> bool" where
  "has_id s i kv = (map_option m_Id (students s (snd kv)) = Some i)"

lemma own_send_to_student_id:
  assumes "own U n [(p, b)] X w s" "unat (get32 (m_ptr b) 0) = k" "8 \<le> k"
    and "\<forall>kv \<in> set m. snd kv \<noteq> NULL \<and> students s (snd kv) \<noteq> None"
  shows "wp (send_to_student_id p ct i m) (\<lambda>ok t. case List.find (has_id s i) m of
       None \<Rightarrow> \<not> ok \<and> own U n [(p, b)] X w t
     | Some (fd, stu) \<Rightarrow> ok \<and> own U n [] (X @ [(fd, retype ct (bytes_at (m_ptr b) 0 k))]) w t) s"
  using assms(4)
proof (induction m)
  case Nil
  then show ?case using assms(1) by (simp add: wp_simps)
next
  case (Cons kv m)
  obtain fd stu x where kv: "kv = (fd, stu)" "stu \<noteq> NULL" "students s stu = Some x"
    using Cons.prems by (cases kv) auto
  show ?case
    using Cons kv forward_wire [OF assms(1-3), of ct fd]
    by (auto simp: wp_simps has_id_def)
qed

text \<open>\<open>postTeacherToStudent\<close>: a packet of the teacher goes to the first student of the room with the
  given id; when there is none the packet stays with the caller, neither queued nor recycled.\<close>

theorem postTeacherToStudent_delivers:
  assumes "own U n [(p, b)] X w s" "smap_inv (rooms s)"
    and "find_room (rooms s) (m_fd b) = Some rid" "smap_find (rooms s) rid = Some r" "m_teacher_fd r = m_fd b"
    and "unat (get32 (m_ptr b) 0) = k" "8 \<le> k"
    and "\<forall>kv \<in> set (m_student_map r). snd kv \<noteq> NULL \<and> students s (snd kv) \<noteq> None"
  shows "wp (postTeacherToStudent p ct i) (\<lambda>ok t. case List.find (has_id s i) (m_student_map r) of
       None \<Rightarrow> \<not> ok \<and> own U n [(p, b)] X w t
     | Some (fd, stu) \<Rightarrow> ok \<and> own U n [] (X @ [(fd, retype ct (bytes_at (m_ptr b) 0 k))]) w t) s"
  using own_send_to_student_id [OF assms(1,6,7,8)] own_buf [OF assms(1)] assms(3-5)
  by (simp add: postTeacherToStudent_def wp_simps get_fd_def)

lemma postTeacherToStudent_witness:
  "wp (postTeacherToStudent 10 77 50) (\<lambda>ok t. ok \<and> sent t = [(7, msg 12 77 [1, 2, 3, 4])])
     ((sample_srv 5 3)\<lparr>students := [20 \<mapsto> student 50]\<rparr>)"
proof -
  let ?s = "(sample_srv 5 3)\<lparr>students := [20 \<mapsto> student 50]\<rparr>"
  have own: "own bufs0 5 [(10, pkt 5 (msg 12 3 [1, 2, 3, 4]))] [] (world ?s) ?s"
    by (rule srv0_own) (simp_all add: sample_srv_def srv0_def)
  show ?thesis
    by (rule wp_mono [OF postTeacherToStudent_delivers [where k = 12 and rid = 1 and r = "room0 5 6 [(7, 20)]", OF own]])
       (auto simp: sample_simps has_id_def student_def dest: own_sent)
qed

text \<open>\<open>postMessage\<close>: the sender gets its own buffer back with the given type and content.\<close>

theorem postMessage_delivers:
  assumes "own U n [(p, b)] X w s" "MSG_HEAD_LEN + length bs \<le> MAX_BUF"
  shows "wp (postMessage p ct (Some bs)) (\<lambda>ok t. ok \<and>
     own U n [] (X @ [(m_fd b, msg (of_nat (8 + length bs)) ct bs)]) w t) s"
proof -
  have p: "p \<noteq> NULL" using own_buf [OF assms(1)] by simp
  have l: "unat (8 + word_of_nat (length bs) :: u32) = 8 + length bs"
    using assms(2) by (simp add: MAX_BUF_def MSG_HEAD_LEN_def unat_word_ariths unat_of_nat)
  show ?thesis
    using p unfolding postMessage_def
    apply (simp add: MSG_HEAD_LEN_def)
    unfolding wp_simps
    apply (insert assms(1))
    apply (rule own_intros, assumption)+
    apply (rule list.set_intros)
    apply (rule own_intros, assumption)+
    apply (use assms(2) in \<open>simp add: MSG_HEAD_LEN_def\<close>)
    apply (rule own_intros, assumption)
    apply (rule list.set_intros)
    apply (rule own_intros, assumption)+
    using l apply (simp add: view_def wire_msg wire_simps get32_copy_list_other bytes_at_copy_list)
    done
qed

lemma postMessage_witness:
  "wp (postMessage 10 77 (Some [8, 9])) (\<lambda>ok t. ok \<and> sent t = [(5, msg 10 77 [8, 9])]) (sample_srv 5 3)"
  by (rule wp_mono [OF postMessage_delivers [OF sample_own]])
     (auto simp: MAX_BUF_def MSG_HEAD_LEN_def dest: own_sent)

section \<open>Database answers\<close>

lemma length_cat_fields:
  "cat_fields fs = Some bs \<Longrightarrow> length bs = sum_list (map (\<lambda>f. length (the f)) fs)"
proof (induction fs arbitrary: bs rule: cat_fields.induct)
  case (3 b fs)
  then show ?case by (cases "cat_fields fs") auto
qed simp_all

lemma length_str_field: "str_field n s = Some f \<Longrightarrow> length f = n"
  unfolding str_field_def by (rule length_strcpy_field)

text \<open>Every record has the size of its structure, whatever the row contains.\<close>

definition record_size :: "int \<Rightarrow> nat" where
  "record_size c = (if c = 1 then 80 else if c = 2 \<or> c = 3 \<or> c = 4 then 20 else if c = 5 then 152 else 556)"

lemma cat_fields_Cons:
  "cat_fields (f # fs) = Some bs \<longleftrightarrow> (\<exists>b r. f = Some b \<and> cat_fields fs = Some r \<and> bs = b @ r)"
  by (cases f) auto

lemma length_record: "record_bytes c w = Some bs \<Longrightarrow> length bs = record_size c"
  by (auto simp: record_bytes_def record_size_def cat_fields_Cons dest!: length_str_field split: if_splits)

lemma own_record_row:
  assumes "own U (Suc n) C X w s" "(buf, b) \<in> set C" "record_bytes c rw = Some bs"
    and "\<And>t. own U n C (X @ [(m_fd b, msg (of_nat (8 + length bs)) (record_base c + i) bs)]) w t \<Longrightarrow> Q () t"
  shows "wp (record_row buf c i rw) Q s"
proof -
  have l: "8 + length bs \<le> MAX_BUF" using length_record [OF assms(3)]
    by (simp add: record_size_def MAX_BUF_def split: if_splits)
  have l2: "unat (8 + word_of_nat (length bs) :: u32) = 8 + length bs"
    using l by (simp add: MAX_BUF_def unat_word_ariths unat_of_nat)
  show ?thesis
    unfolding record_row_def using assms(3) apply (simp add: MSG_HEAD_LEN_def)
    unfolding wp_simps
    apply (insert assms(1,2))
    apply (rule own_intros, assumption)+
    apply (use l in simp)
    apply (rule own_intros, assumption, rule list.set_intros, assumption)
    apply (rule own_intros, assumption)+
    apply (rule assms(4))
    using l l2 apply (simp add: view_def wire_msg wire_simps get32_copy_list_other bytes_at_copy_list)
    done
qed

lemma own_send_finished:
  assumes "own U (Suc n) C X w s" "(buf, b) \<in> set C"
    and "\<And>t. own U n C (X @ [(m_fd b, msg 12 ST_GetDBRecordFinished (le32 (if c = 5 then 10000 else 1)))]) w t \<Longrightarrow> Q () t"
  shows "wp (send_finished buf c) Q s"
  unfolding send_finished_def
  apply (simp add: MSG_HEAD_LEN_def split del: if_split)
  unfolding wp_simps
  apply (insert assms(1,2))
  apply (rule own_intros, assumption)+
  apply (simp add: MAX_BUF_def)
  apply (rule own_intros, assumption, rule list.set_intros, assumption)
  apply (rule own_intros, assumption)
  apply (rule own_intros, assumption)
  apply (rule list.set_intros)
  apply (rule own_intros, assumption)+
  apply (rule assms(3))
  apply (simp add: view_def wire_msg wire_simps flip: le32_get32)
  done

text \<open>The packets that answer a query: one for each row, numbered, then the end mark.\<close>

fun row_packets :: "int \<Rightarrow> int \<Rightarrow> u32 \<Rightarrow> row list \<Rightarrow> (int \<times> byte list) list" where
  "row_packets fd c i [] = []"
| "row_packets fd c i (w # ws) =
     (fd, msg (of_nat (8 + record_size c)) (record_base c + i) (the (record_bytes c w))) # row_packets fd c (i + 1) ws"

lemma own_record_rows:
  assumes "own U (n + length rows) C X w s" "(buf, b) \<in> set C" "\<forall>rw \<in> set rows. record_bytes c rw \<noteq> None"
  shows "wp (record_rows buf c i rows) (\<lambda>_. own U n C (X @ row_packets (m_fd b) c i rows) w) s"
  using assms(1,3)
proof (induction rows arbitrary: i X s)
  case Nil
  then show ?case by (simp add: wp_simps)
next
  case (Cons rw rows)
  obtain bs where bs: "record_bytes c rw = Some bs" using Cons.prems(2) by auto
  have start: "own U (Suc (n + length rows)) C X w s" using Cons.prems(1) by simp
  have "wp (record_rows buf c (i + 1) rows) (\<lambda>_. own U n C (X @ row_packets (m_fd b) c i (rw # rows)) w) t"
    if "own U (n + length rows) C (X @ [(m_fd b, msg (of_nat (8 + length bs)) (record_base c + i) bs)]) w t" for t
    using Cons.IH [OF that, of "i + 1"] Cons.prems(2) bs length_record [OF bs] by simp
  then show ?case
    unfolding record_rows.simps wp_simps by (rule own_record_row [OF start assms(2) bs])
qed

lemma record_rows_too_long:
  assumes "own U (n + length rows) C X w s" "(buf, b) \<in> set C" "\<exists>rw \<in> set rows. record_bytes c rw = None"
  shows "record_rows buf c i rows s = Inl OutOfBounds"
  using assms(1,3)
proof (induction rows arbitrary: i X s)
  case (Cons rw rows)
  show ?case
  proof (cases "record_bytes c rw")
    case None
    then show ?thesis by (simp add: record_row_def fail_def sq_def bnd_def)
  next
    case (Some bs)
    have start: "own U (Suc (n + length rows)) C X w s" using Cons.prems(1) by simp
    have "wp (record_row buf c i rw)
        (\<lambda>_. own U (n + length rows) C (X @ [(m_fd b, msg (of_nat (8 + length bs)) (record_base c + i) bs)]) w) s"
      by (rule own_record_row [OF start assms(2) Some])
    then obtain z t where t: "record_row buf c i rw s = Inr (z, t)"
        "own U (n + length rows) C (X @ [(m_fd b, msg (of_nat (8 + length bs)) (record_base c + i) bs)]) w t"
      by (auto simp: wp_def split: sum.splits)
    have "record_rows buf c (i + 1) rows t = Inl OutOfBounds"
      using Cons.prems(2) Some by (intro Cons.IH [OF t(2)]) auto
    then show ?thesis by (simp add: t(1) sq_def bnd_def)
  qed
qed simp

text \<open>C13: \<open>postDBRecord\<close> for a table without arguments, with more free buffers than rows: the sender gets one packet per row of the
  query, in order, numbered in its type above the base of the table, then the end mark, and its
  request is recycled.  When the query throws nothing is sent, and the request is recycled all the same.  A row with a string
  that is longer than the field of the record that is made of it is copied past the end of that field.\<close>

theorem postDBRecord_delivers:
  assumes "own U n [(p, b)] X w s" "1 \<le> c" "c \<le> 5"
  shows "case db_query e (record_sql c) [] of
      None \<Rightarrow> wp (postDBRecord e p c) (\<lambda>ok t. ok \<and> own U (Suc n) [] X w t) s
    | Some rows \<Rightarrow> length rows < n \<longrightarrow>
       (if \<forall>rw \<in> set rows. record_bytes c rw \<noteq> None
        then wp (postDBRecord e p c) (\<lambda>ok t. ok \<and> own U (n - length rows) [] (X @ row_packets (m_fd b) c 0 rows
          @ [(m_fd b, msg 12 ST_GetDBRecordFinished (le32 (if c = 5 then 10000 else 1)))]) w t) s
        else postDBRecord e p c s = Inl OutOfBounds)"
proof (cases "db_query e (record_sql c) []")
  case None
  have "wp (buf_reset p) (\<lambda>_. wp (sq (pool_free p) (ret True)) (\<lambda>ok t. ok \<and> own U (Suc n) [] X w t)) s"
    by (rule own_buf_reset [OF assms(1)]) (unfold wp_simps simp_thms, erule own_pool_free)
  then have "wp (postDBRecord e p c) (\<lambda>ok t. ok \<and> own U (Suc n) [] X w t) s"
    using None assms(2,3) own_buf [OF assms(1)] unfolding postDBRecord_def wp_simps by simp
  then show ?thesis by (simp add: None)
next
  case (Some rows)
  show ?thesis
  proof (cases "length rows < n")
    case True
    define k where "k = n - length rows - 1"
    have start: "own U (Suc k + length rows) [(p, b)] X w s" "Suc k = n - length rows"
      using assms(1) True by (simp_all add: k_def)
    show ?thesis
    proof (cases "\<forall>rw \<in> set rows. record_bytes c rw \<noteq> None")
      case fit: True
      have "wp (record_rows p c 0 rows) (\<lambda>_. own U (Suc k) [(p, b)] (X @ row_packets (m_fd b) c 0 rows) w) s"
        by (rule own_record_rows [OF start(1)]) (use fit in simp_all)
      then have "wp (record_rows p c 0 rows) (\<lambda>_. wp (send_finished p c) (\<lambda>_. wp (buf_reset p) (\<lambda>_. wp (pool_free p)
          (\<lambda>_. own U (Suc k) [] (X @ row_packets (m_fd b) c 0 rows @ [(m_fd b, msg 12 ST_GetDBRecordFinished (le32 (if c = 5 then 10000 else 1)))]) w)))) s"
        by (rule wp_mono) (rule own_send_finished, assumption, rule list.set_intros,
          rule own_buf_reset, assumption, rule own_pool_free, assumption, simp)
      then have "wp (postDBRecord e p c) (\<lambda>ok t. ok \<and> own U (n - length rows) [] (X @ row_packets (m_fd b) c 0 rows
          @ [(m_fd b, msg 12 ST_GetDBRecordFinished (le32 (if c = 5 then 10000 else 1)))]) w t) s"
        using assms(2,3) Some own_buf [OF assms(1)] start(2)
        unfolding postDBRecord_def wp_simps by (simp add: start(2) split del: if_split)
      then show ?thesis using Some fit by simp
    next
      case False
      then have "record_rows p c 0 rows s = Inl OutOfBounds"
        by (intro record_rows_too_long [OF start(1) list.set_intros(1)]) simp
      then have "postDBRecord e p c s = Inl OutOfBounds"
        using assms(2,3) Some own_buf [OF assms(1)] by (simp add: postDBRecord_def bnd_def sq_def ret_def)
      then show ?thesis unfolding Some option.case if_not_P [OF False] by (rule impI)
    qed
  qed (simp add: Some)
qed

definition sample_env :: "row list option \<Rightarrow> env" where
  "sample_env rs = \<lparr>db_query = (\<lambda>_ _. rs), time_now = 0, can_open_picture = False, swap_right_first = True\<rparr>"

definition sample_row :: row where
  "sample_row = \<lparr>getString = (\<lambda>_. [65]), getInt = (\<lambda>_. 9)\<rparr>"

lemma postDBRecord_witness:
  "wp (postDBRecord (sample_env (Some [sample_row])) 10 2) (\<lambda>ok t. ok \<and>
     sent t = [(5, msg 28 3000 (65 # replicate 19 0)), (5, msg 12 ST_GetDBRecordFinished (le32 1))]) (sample_srv 5 3)"
  using postDBRecord_delivers [where c = 2 and e = "sample_env (Some [sample_row])", OF sample_own [of 5 3]]
  by (auto simp: sample_env_def sample_row_def record_bytes_def str_field_def strcpy_field_def record_base_def
       record_size_def elim!: wp_mono dest!: own_sent)

lemma wp_count_row:
  assumes "p \<noteq> NULL" "bufs s p = Some b" "m_size b = MAX_BUF" "count_type c = Some ct"
  shows "wp (count_row p c rw) (\<lambda>_ t. sendqueue t = sendqueue s @ [p] \<and> bufpool t = bufpool s
     \<and> (\<exists>b'. bufs t p = Some b' \<and> m_size b' = MAX_BUF \<and> m_fd b' = m_fd b
          \<and> view b' = (m_fd b, msg 12 ct (le32 (getInt rw ''ccount''))))) s"
  using assms unfolding count_row_def
  by (simp add: wp_simps head_defs rd32_def wr32_def set_size_def upd_buf_def send_enqueue_def set_buf_def
      MSG_HEAD_LEN_def MAX_BUF_def QueueT_enqueue_def Buf_setsize_def view_def wire_msg wire_simps flip: le32_get32)

lemma wp_count_rows:
  assumes "p \<noteq> NULL" "bufs s p = Some b" "m_size b = MAX_BUF" "count_type c = Some ct"
  shows "wp (for_each rows (count_row p c)) (\<lambda>_ t. sendqueue t = sendqueue s @ replicate (length rows) p
     \<and> bufpool t = bufpool s \<and> (\<exists>b'. bufs t p = Some b' \<and> m_size b' = MAX_BUF \<and> m_fd b' = m_fd b
          \<and> (rows \<noteq> [] \<longrightarrow> view b' = (m_fd b, msg 12 ct (le32 (getInt (last rows) ''ccount'')))))) s"
  using assms(2,3)
proof (induction rows arbitrary: s b)
  case Nil
  then show ?case by (simp add: wp_simps)
next
  case (Cons rw rows)
  show ?case
    unfolding for_each.simps wp_simps
  proof (rule wp_mono [OF wp_count_row [OF assms(1) Cons.prems assms(4)]], elim conjE exE)
    fix t :: srv and b'
    assume t: "sendqueue t = sendqueue s @ [p]" "bufpool t = bufpool s"
      and b': "bufs t p = Some b'" "m_size b' = MAX_BUF" "m_fd b' = m_fd b"
        "view b' = (m_fd b, msg 12 ct (le32 (getInt rw ''ccount'')))"
    show "wp (for_each rows (count_row p c)) (\<lambda>_ t'. sendqueue t' = sendqueue s @ replicate (length (rw # rows)) p
     \<and> bufpool t' = bufpool s \<and> (\<exists>c'. bufs t' p = Some c' \<and> m_size c' = MAX_BUF \<and> m_fd c' = m_fd b
          \<and> (rw # rows \<noteq> [] \<longrightarrow> view c' = (m_fd b, msg 12 ct (le32 (getInt (last (rw # rows)) ''ccount'')))))) t"
    proof (cases "rows = []")
      case True
      then show ?thesis using t b' by (simp add: wp_simps)
    next
      case False
      then show ?thesis using Cons.IH [OF b'(1,2)] t b' by (auto elim!: wp_mono)
    qed
  qed
qed

text \<open>\<open>postDBRecordCount\<close>: the packet itself is queued once for every row of the answer, so it is sent
  exactly once when the count query yields one row, is lost when it yields none, and would be sent
  and recycled twice when it yielded two.\<close>

theorem postDBRecordCount_queues:
  assumes "p \<noteq> NULL" "bufs s p = Some b" "m_size b = MAX_BUF" "count_type c = Some ct" "c \<noteq> 6"
    and "db_query e (SQL_COUNT (count_tables c)) [] = Some rows"
  shows "wp (postDBRecordCount e p c) (\<lambda>ok t. ok \<and> sendqueue t = sendqueue s @ replicate (length rows) p
     \<and> bufpool t = bufpool s
     \<and> (rows \<noteq> [] \<longrightarrow> view (packet t p) = (m_fd b, msg 12 ct (le32 (getInt (last rows) ''ccount''))))) s"
  using wp_count_rows [OF assms(1-4), of rows] assms(1,5,6) unfolding postDBRecordCount_def
  by (auto simp: wp_simps packet_def elim!: wp_mono)

lemma postDBRecordCount_witness:
  "wp (postDBRecordCount (sample_env (Some [sample_row])) 10 2) (\<lambda>ok t. ok \<and> sendqueue t = [10]) (sample_srv 5 3)"
  by (rule wp_mono [OF postDBRecordCount_queues [where rows = "[sample_row]" and ct = CT_GetGradeDBCount
        and b = "pkt 5 (msg 12 3 [1, 2, 3, 4])"]])
     (auto simp: sample_env_def count_type_def sample_srv_def NULL_def)

end
