(* ===== verification/Net_Spec.thy ===== *)
theory Net_Spec
  imports Evloop Samples
begin

text \<open>
  The way of a packet into the server and out of it: \<open>recv_cb\<close> turns what the kernel delivers into
  one packet in the receive queue, \<open>SendTask\<close> turns a queued packet into the bytes on the wire,
  however the kernel cuts the data up.  The table of connected clients and the cases in which the
  loops do not come back are here as well.
\<close>

section \<open>Receiving\<close>

text \<open>What the calls of \<open>recv\<close> deliver, and the answers that let a loop go on.\<close>

definition payload :: "recvres list \<Rightarrow> byte list" where
  "payload rs = concat (map (\<lambda>r. case r of Data bs \<Rightarrow> bs | RecvErr e \<Rightarrow> []) rs)"

definition goes_on :: "recvres \<Rightarrow> bool" where
  "goes_on r \<longleftrightarrow> (case r of Data bs \<Rightarrow> bs \<noteq> [] | RecvErr e \<Rightarrow> transient e)"

lemma payload_simps [simp]: "payload [] = []" "payload (Data bs # rs) = bs @ payload rs"
  "payload (RecvErr e # rs) = payload rs" "payload (rs @ rs') = payload rs @ payload rs'"
  by (simp_all add: payload_def)

lemma payload_empty: "\<forall>r \<in> set rs. goes_on r \<Longrightarrow> payload rs = [] \<Longrightarrow> \<forall>r \<in> set rs. \<exists>e. r = RecvErr e"
  by (induction rs) (auto simp: goes_on_def split: recvres.splits)

lemma copy_list_append: "copy_list (copy_list m a xs) (a + length xs) ys = copy_list m a (xs @ ys)"
  by (auto simp: copy_list_def fun_eq_iff nth_append)

lemma copy_list_Nil [simp]: "copy_list m a [] = m"
  by (auto simp: copy_list_def fun_eq_iff)

lemma set_buf_same: "bufs s p = Some b \<Longrightarrow> set_buf p b s = s"
  by (simp add: set_buf_def fun_upd_idem)

lemma set_buf_set_buf [simp]: "set_buf p b' (set_buf p b s) = set_buf p b' s"
  by (simp add: set_buf_def)

lemma bufs_set_buf [simp]: "bufs (set_buf p b s) p = Some b"
  by (simp add: set_buf_def)

text \<open>The whole payload arrives when it is what was asked for.\<close>

lemma recv_v_all:
  assumes "\<forall>r \<in> set rs. goes_on r" "left = int (length (payload rs))" "p \<noteq> NULL" "bufs s p = Some b"
    and "a + recved + length (payload rs) \<le> m_size b"
  shows "\<exists>ts e'. (\<forall>r \<in> set ts. goes_on r) \<and> payload ts = [] \<and>
     recv_v (rs @ rest) e p a left recved s = Inr ((recved + length (payload rs), ts @ rest, e'),
       set_buf p (b\<lparr>m_ptr := copy_list (m_ptr b) (a + recved) (payload rs)\<rparr>) s)"
  using assms
proof (induction rs arbitrary: e left recved b s)
  case Nil
  then have "set_buf p (b\<lparr>m_ptr := m_ptr b\<rparr>) s = s" by (simp add: set_buf_same)
  moreover have "recv_v rest e p a 0 recved s = Inr ((recved, rest, e), s)"
    by (cases rest) (simp_all add: run_simps)
  ultimately show ?case using Nil by (intro exI [of _ "[]"]) simp
next
  case (Cons r rs)
  show ?case
  proof (cases "payload (r # rs) = []")
    case True
    have "set_buf p (b\<lparr>m_ptr := m_ptr b\<rparr>) s = s" using Cons.prems(4) by (simp add: set_buf_same)
    then show ?thesis
      using True Cons.prems by (intro exI [of _ "r # rs"] exI [of _ e]) (simp add: run_simps)
  next
    case False
    then have left: "0 < left" using Cons.prems(2) by simp
    show ?thesis
    proof (cases r)
      case (Data bs)
      have bs: "bs \<noteq> []" "take (nat left) bs = bs" using Cons.prems(1,2) Data by (auto simp: goes_on_def)
      let ?b = "b\<lparr>m_ptr := copy_list (m_ptr b) (a + recved) bs\<rparr>"
      have wr: "wr_bytes p (a + recved) bs s = Inr ((), set_buf p ?b s)"
        using Cons.prems(3-5) Data by (simp add: wr_bytes_def run_simps deref_def bnd_def sq_def check_def ret_def)
      have "recv_v ((r # rs) @ rest) e p a left recved s
          = recv_v (rs @ rest) e p a (left - int (length bs)) (recved + length bs) (set_buf p ?b s)"
        using left bs wr Data by (simp add: Let_def run_simps)
      moreover have "\<exists>ts e'. (\<forall>r \<in> set ts. goes_on r) \<and> payload ts = [] \<and>
          recv_v (rs @ rest) e p a (left - int (length bs)) (recved + length bs) (set_buf p ?b s)
          = Inr ((recved + length bs + length (payload rs), ts @ rest, e'),
              set_buf p (?b\<lparr>m_ptr := copy_list (m_ptr ?b) (a + (recved + length bs)) (payload rs)\<rparr>) (set_buf p ?b s))"
        using Cons.prems Data by (intro Cons.IH) simp_all
      ultimately show ?thesis
        using Data copy_list_append [of "m_ptr b" "a + recved" bs "payload rs"] by (simp add: add.assoc)
    next
      case (RecvErr e1)
      have "recv_v ((r # rs) @ rest) e p a left recved s = recv_v (rs @ rest) e1 p a left recved s"
        using left RecvErr Cons.prems(1) by (simp add: goes_on_def)
      then show ?thesis using RecvErr Cons.IH [where left = left and b = b and recved = recved and s = s and e = e1] Cons.prems by simp
    qed
  qed
qed

text \<open>More than the buffer holds: the write that crosses its end is the fault.\<close>

lemma recv_v_overflow:
  assumes "\<forall>r \<in> set rs. goes_on r" "int (length (payload rs)) \<le> left" "p \<noteq> NULL" "bufs s p = Some b"
    and "a + recved \<le> m_size b" "m_size b < a + recved + length (payload rs)"
  shows "recv_v (rs @ rest) e p a left recved s = Inl OutOfBounds"
  using assms
proof (induction rs arbitrary: e left recved b s)
  case (Cons r rs)
  have left: "0 < left" using Cons.prems(2,5,6) by simp
  show ?case
  proof (cases r)
    case (Data bs)
    have bs: "bs \<noteq> []" "take (nat left) bs = bs" using Cons.prems(1,2) Data by (auto simp: goes_on_def)
    show ?thesis
    proof (cases "a + recved + length bs \<le> m_size b")
      case True
      let ?b = "b\<lparr>m_ptr := copy_list (m_ptr b) (a + recved) bs\<rparr>"
      have "wr_bytes p (a + recved) bs s = Inr ((), set_buf p ?b s)"
        using Cons.prems(3,4) True by (simp add: wr_bytes_def run_simps deref_def bnd_def sq_def check_def ret_def)
      moreover have "recv_v (rs @ rest) e p a (left - int (length bs)) (recved + length bs) (set_buf p ?b s) = Inl OutOfBounds"
        using Cons.prems Data True by (intro Cons.IH [where b = ?b]) simp_all
      ultimately show ?thesis using left bs Data by (simp add: Let_def run_simps)
    next
      case False
      then have "wr_bytes p (a + recved) bs s = Inl OutOfBounds"
        using Cons.prems(3,4) by (simp add: wr_bytes_def bnd_def deref_def sq_def check_def fail_def)
      then show ?thesis using left bs Data by (simp add: Let_def run_simps)
    qed
  next
    case (RecvErr e1)
    then show ?thesis using left Cons.prems Cons.IH [where left = left and b = b and recved = recved and s = s and e = e1] by (simp add: goes_on_def)
  qed
qed simp

lemma body_len_small: "unat n = 4 + k \<Longrightarrow> unat n < 2 ^ 31 \<Longrightarrow> body_len n = of_nat k \<and> sint (body_len n) = int k"
proof -
  assume n: "unat n = 4 + k" "unat n < 2 ^ 31"
  have "n = of_nat (4 + k)" unfolding n(1) [symmetric] by simp
  then have "scast n = (of_nat (4 + k) :: u64)"
    using n by (simp only:) (rule scast_of_nat, simp)
  then have "body_len n = of_nat k" by (simp add: body_len_def)
  moreover have "sint (of_nat k :: u64) = int k"
    using n by (simp add: signed_of_nat take_bit_int_eq_self_iff signed_take_bit_int_eq_self_iff)
  ultimately show ?thesis by simp
qed

text \<open>A buffer taken from the pool.\<close>

lemma pool_malloc_run: "pool_queue (bufpool s) = q # r \<Longrightarrow>
    pool_malloc s = Inr (q, s\<lparr>bufpool := (bufpool s)\<lparr>pool_queue := r\<rparr>\<rparr>)"
  by (simp add: pool_malloc_def PoolT_malloc_def)

lemma get32_le32_append: "get32 (copy_list m 0 (le32 n)) 0 = n"
  by (simp add: copy_list_le32 get32_put32)

text \<open>The header has arrived; the rest of the callback runs on the body.\<close>

lemma recv_cb_header:
  assumes "pool_queue (bufpool s) = q # r" "q \<noteq> NULL" "bufs s q = Some b" "m_size b = MAX_BUF"
    and "\<forall>x \<in> set rs1. goes_on x" "payload rs1 = le32 n"
  shows "\<exists>ts e'. (\<forall>x \<in> set ts. goes_on x) \<and> payload ts = [] \<and>
    recv_cb fd now (rs1 @ rs2) v s = bnd (recv_v (ts @ rs2) e' q 4 (sint (body_len n)) 0) (\<lambda>(i, rs, e).
           if body_len n \<noteq> of_nat i then
             sq (pool_free q)
                (bnd (closefd fd (v\<lparr>ev_errno := e\<rparr>)) (\<lambda>v. ret (v, rs)))
           else
             sq (set_fd q fd)
            (sq (recv_enqueue q)
                (ret (v\<lparr>ev_errno := e, lasttime := (lasttime v)(fd := now)\<rparr>, rs))))
      (set_buf q (b\<lparr>m_ptr := copy_list (m_ptr b) 0 (le32 n)\<rparr>) (s\<lparr>bufpool := (bufpool s)\<lparr>pool_queue := r\<rparr>\<rparr>))"
proof -
  let ?s = "s\<lparr>bufpool := (bufpool s)\<lparr>pool_queue := r\<rparr>\<rparr>"
  let ?b = "b\<lparr>m_ptr := copy_list (m_ptr b) 0 (le32 n)\<rparr>"
  have "\<exists>ts e'. (\<forall>x \<in> set ts. goes_on x) \<and> payload ts = [] \<and>
      recv_v (rs1 @ rs2) (ev_errno v) q 0 4 0 ?s = Inr ((0 + length (payload rs1), ts @ rs2, e'),
       set_buf q (b\<lparr>m_ptr := copy_list (m_ptr b) (0 + 0) (payload rs1)\<rparr>) ?s)"
    using assms by (intro recv_v_all) (simp_all add: MAX_BUF_def)
  then obtain ts e' where ts: "\<forall>x \<in> set ts. goes_on x" "payload ts = []"
    "recv_v (rs1 @ rs2) (ev_errno v) q 0 4 0 ?s = Inr ((4, ts @ rs2, e'), set_buf q ?b ?s)"
    using assms(6) by auto
  have "rd32 q 0 (set_buf q ?b ?s) = Inr (n, set_buf q ?b ?s)"
    using assms(2,4) by (simp add: rd32_def bnd_def deref_def sq_def check_def ret_def MAX_BUF_def get32_le32_append)
  then have "recv_cb fd now (rs1 @ rs2) v s = bnd (recv_v (ts @ rs2) e' q 4 (sint (body_len n)) 0) (\<lambda>(i, rs, e).
           if body_len n \<noteq> of_nat i then
             sq (pool_free q)
                (bnd (closefd fd (v\<lparr>ev_errno := e\<rparr>)) (\<lambda>v. ret (v, rs)))
           else
             sq (set_fd q fd)
            (sq (recv_enqueue q)
                (ret (v\<lparr>ev_errno := e, lasttime := (lasttime v)(fd := now)\<rparr>, rs))))
      (set_buf q ?b ?s)"
    unfolding recv_cb_def bnd_def [of pool_malloc] pool_malloc_run [OF assms(1)]
    using assms(2) ts(3) by (simp add: bnd_def)
  with ts(1,2) show ?thesis by blast
qed

text \<open>The whole run of the callback.\<close>

lemma recv_cb_run:
  assumes "pool_queue (bufpool s) = q # r" "q \<noteq> NULL" "bufs s q = Some b" "m_size b = MAX_BUF"
    and "\<forall>x \<in> set (rs1 @ rs2). goes_on x" "payload rs1 = le32 n" "payload rs2 = body"
    and "unat n = 4 + length body" "unat n \<le> MAX_BUF"
  shows "\<exists>v' rs' t b'. recv_cb fd now (rs1 @ rs2) v s = Inr ((v', rs'), t)
     \<and> recvqueue t = recvqueue s @ [q] \<and> pool_queue (bufpool t) = r \<and> sendqueue t = sendqueue s
     \<and> bufs t q = Some b' \<and> m_fd b' = fd \<and> bytes_at (m_ptr b') 0 (unat n) = le32 n @ body
     \<and> m_size b' = MAX_BUF \<and> bufs t = (bufs s)(q \<mapsto> b') \<and> world t = world s
     \<and> io v' = io v \<and> clientcount v' = clientcount v \<and> lasttime v' = (lasttime v)(fd := now)"
proof -
  let ?s = "s\<lparr>bufpool := (bufpool s)\<lparr>pool_queue := r\<rparr>\<rparr>"
  let ?b = "b\<lparr>m_ptr := copy_list (m_ptr b) 0 (le32 n)\<rparr>"
  have good: "\<forall>x \<in> set rs1. goes_on x" "\<forall>x \<in> set rs2. goes_on x" using assms(5) by auto
  obtain ts e' where ts: "\<forall>x \<in> set ts. goes_on x" "payload ts = []" and
    run: "recv_cb fd now (rs1 @ rs2) v s = bnd (recv_v (ts @ rs2) e' q 4 (sint (body_len n)) 0) (\<lambda>(i, rs, e).
           if body_len n \<noteq> of_nat i then
             sq (pool_free q)
                (bnd (closefd fd (v\<lparr>ev_errno := e\<rparr>)) (\<lambda>v. ret (v, rs)))
           else
             sq (set_fd q fd)
            (sq (recv_enqueue q)
                (ret (v\<lparr>ev_errno := e, lasttime := (lasttime v)(fd := now)\<rparr>, rs)))) (set_buf q ?b ?s)"
    using recv_cb_header [OF assms(1-4) good(1) assms(6)] by blast
  have len: "body_len n = of_nat (length body)" "sint (body_len n) = int (length body)"
    using body_len_small [OF assms(8)] assms(9) by (auto simp: MAX_BUF_def)
  have "\<exists>us e2. (\<forall>x \<in> set us. goes_on x) \<and> payload us = [] \<and>
      recv_v ((ts @ rs2) @ []) e' q 4 (sint (body_len n)) 0 (set_buf q ?b ?s)
        = Inr ((0 + length (payload (ts @ rs2)), us @ [], e2),
       set_buf q (?b\<lparr>m_ptr := copy_list (m_ptr ?b) (4 + 0) (payload (ts @ rs2))\<rparr>) (set_buf q ?b ?s))"
    using assms ts good len by (intro recv_v_all) (auto simp: MAX_BUF_def)
  then obtain us e2 where us: "recv_v (ts @ rs2) e' q 4 (sint (body_len n)) 0 (set_buf q ?b ?s)
      = Inr ((length body, us, e2), set_buf q (b\<lparr>m_ptr := copy_list (m_ptr b) 0 (le32 n @ body)\<rparr>) ?s)"
    using ts(2) assms(7) copy_list_append [of "m_ptr b" 0 "le32 n" body] by auto
  have bytes: "bytes_at (copy_list (m_ptr b) 0 (le32 n @ body)) 0 (unat n) = le32 n @ body"
    using bytes_at_copy_list [of "m_ptr b" 0 "le32 n @ body"] assms(8) by simp
  show ?thesis
    unfolding run bnd_def [of "recv_v (ts @ rs2) e' q 4 (sint (body_len n)) 0"] us
    using len(1) assms(2,4) bytes
    by (simp add: world_def run_simps set_fd_def upd_buf_def bnd_def sq_def deref_def modify_def recv_enqueue_def ret_def
        Buf_setfd_def set_buf_def QueueT_enqueue_def)
qed

text \<open>C17: \<open>recv_cb\<close>: however the kernel cuts a packet into pieces, and however often a call is
  interrupted, a packet of at most 5120 bytes ends up in the receive queue once, byte for byte, with
  the descriptor of its sender; the buffer comes from the front of the pool, the table of clients
  changes only in the time of the last data.\<close>

theorem recv_cb_receives:
  assumes "pool_queue (bufpool s) = q # r" "q \<noteq> NULL" "bufs s q = Some b" "m_size b = MAX_BUF"
    and "\<forall>x \<in> set (rs1 @ rs2). goes_on x" "payload rs1 = le32 n" "payload rs2 = body"
    and "unat n = 4 + length body" "unat n \<le> MAX_BUF"
  shows "\<exists>v' rs' t b'. recv_cb fd now (rs1 @ rs2) v s = Inr ((v', rs'), t)
     \<and> recvqueue t = recvqueue s @ [q] \<and> pool_queue (bufpool t) = r \<and> sendqueue t = sendqueue s
     \<and> bufs t q = Some b' \<and> m_fd b' = fd \<and> bytes_at (m_ptr b') 0 (unat n) = le32 n @ body
     \<and> io v' = io v \<and> clientcount v' = clientcount v \<and> lasttime v' = (lasttime v)(fd := now)"
  using recv_cb_run [OF assms, of fd now v] by blast

definition evl0 :: evl where
  "evl0 = \<lparr>io = (\<lambda>fd. fd = 5), lasttime = (\<lambda>_. 0), clientcount = 1, ev_errno = 0\<rparr>"

lemma blank_at: "pool_queue (bufpool (srv0 rs b)) = [11, 12, 13, 14, 15]" "bufs (srv0 rs b) 11 = Some blank"
  "m_size blank = MAX_BUF" "recvqueue (srv0 rs b) = []"
  by (simp_all add: srv0_def blank_def)

lemma recv_cb_receives_witness:
  "\<exists>v' rs' t b'. recv_cb 5 99 ([Data [9, 0], RecvErr EAGAIN, Data [0, 0]] @ [Data [1, 2, 3], RecvErr EINTR, Data [4, 5]])
      evl0 (srv0 [] blank) = Inr ((v', rs'), t)
     \<and> recvqueue t = [11] \<and> bufs t 11 = Some b' \<and> m_fd b' = 5 \<and> bytes_at (m_ptr b') 0 9 = le32 9 @ [1, 2, 3, 4, 5]"
  using recv_cb_receives [OF blank_at(1) [of "[]" blank] _ blank_at(2,3), where ?rs1.0 = "[Data [9, 0], RecvErr EAGAIN, Data [0, 0]]"
      and ?rs2.0 = "[Data [1, 2, 3], RecvErr EINTR, Data [4, 5]]" and n = 9 and body = "[1, 2, 3, 4, 5]" and fd = 5 and now = 99 and v = evl0]
  by (fastforce simp: NULL_def goes_on_def transient_def le32_def byte_of_def MAX_BUF_def blank_at)

text \<open>C33: \<open>recv_cb\<close> with a packet that announces more than 5120 bytes: as soon as more has arrived than the
  buffer holds, the callback has written past its end.  Nothing compares the length with the buffer.\<close>

theorem recv_cb_overflow:
  assumes "pool_queue (bufpool s) = q # r" "q \<noteq> NULL" "bufs s q = Some b" "m_size b = MAX_BUF"
    and "\<forall>x \<in> set (rs1 @ rs2). goes_on x" "payload rs1 = le32 n"
    and "unat n < 2 ^ 31" "4 + length (payload rs2) \<le> unat n" "MAX_BUF < 4 + length (payload rs2)"
  shows "recv_cb fd now (rs1 @ rs2) v s = Inl OutOfBounds"
proof -
  let ?s = "s\<lparr>bufpool := (bufpool s)\<lparr>pool_queue := r\<rparr>\<rparr>"
  let ?b = "b\<lparr>m_ptr := copy_list (m_ptr b) 0 (le32 n)\<rparr>"
  have good: "\<forall>x \<in> set rs1. goes_on x" "\<forall>x \<in> set rs2. goes_on x" using assms(5) by auto
  obtain ts e' where ts: "\<forall>x \<in> set ts. goes_on x" "payload ts = []" and
    run: "recv_cb fd now (rs1 @ rs2) v s = bnd (recv_v (ts @ rs2) e' q 4 (sint (body_len n)) 0) (\<lambda>(i, rs, e).
           if body_len n \<noteq> of_nat i then
             sq (pool_free q)
                (bnd (closefd fd (v\<lparr>ev_errno := e\<rparr>)) (\<lambda>v. ret (v, rs)))
           else
             sq (set_fd q fd)
            (sq (recv_enqueue q)
                (ret (v\<lparr>ev_errno := e, lasttime := (lasttime v)(fd := now)\<rparr>, rs)))) (set_buf q ?b ?s)"
    using recv_cb_header [OF assms(1-4) good(1) assms(6)] by blast
  have "unat n = 4 + (unat n - 4)" using assms(8) by simp
  then have len: "sint (body_len n) = int (unat n - 4)" using body_len_small assms(7) by blast
  have "int (length (payload (ts @ rs2))) \<le> sint (body_len n)"
    unfolding len of_nat_le_iff using assms(8) ts(2) by simp
  then have "recv_v ((ts @ rs2) @ []) e' q 4 (sint (body_len n)) 0 (set_buf q ?b ?s) = Inl OutOfBounds"
    by (rule recv_v_overflow [where b = ?b, rotated]) (use assms ts good in \<open>auto simp: MAX_BUF_def\<close>)
  then show ?thesis unfolding run by (simp add: bnd_def)
qed

lemma recv_cb_overflow_witness:
  "recv_cb 5 99 ([Data (le32 6000)] @ [Data (replicate 5500 1)]) evl0 (srv0 [] blank) = Inl OutOfBounds"
  by (rule recv_cb_overflow [OF blank_at(1) _ blank_at(2,3)]) (auto simp: NULL_def goes_on_def le32_def MAX_BUF_def)

section \<open>Sending\<close>

definition accepted :: "sendres list \<Rightarrow> nat" where
  "accepted rs = sum_list (map (\<lambda>r. case r of Sent n \<Rightarrow> n | SendErr e \<Rightarrow> 0) rs)"

lemma accepted_simps [simp]: "accepted [] = 0" "accepted (Sent n # rs) = n + accepted rs"
  "accepted (SendErr e # rs) = accepted rs"
  by (simp_all add: accepted_def)

lemma send_all_enough:
  "\<forall>r \<in> set rs. \<not> hard r \<Longrightarrow> length left \<le> accepted rs \<Longrightarrow>
   \<exists>rs' e'. send_all rs e left out = Some (out @ left, rs', e')"
proof (induction rs arbitrary: e left out)
  case (Cons r rs)
  show ?case
  proof (cases "left = []")
    case False
    show ?thesis
    proof (cases r)
      case (Sent n)
      define k where "k = min n (length left)"
      have "0 < n" using Cons.prems(1) Sent by (simp add: hard_def)
      then have k: "k \<noteq> 0" using False by (simp add: k_def)
      have "length (drop k left) \<le> accepted rs" using Cons.prems(2) Sent by (auto simp: k_def)
      moreover have "\<forall>r \<in> set rs. \<not> hard r" using Cons.prems(1) by simp
      ultimately obtain rs' e' where "send_all rs e (drop k left) (out @ take k left)
          = Some ((out @ take k left) @ drop k left, rs', e')"
        using Cons.IH by blast
      moreover have "send_all (r # rs) e left out = send_all rs e (drop k left) (out @ take k left)"
        using Sent False k by (simp add: Let_def k_def [symmetric])
      ultimately show ?thesis by simp
    next
      case (SendErr e1)
      then show ?thesis using Cons.prems Cons.IH [of left e1 out] False by (simp add: hard_def)
    qed
  qed simp
qed simp

lemma SendTask_run:
  assumes "sendqueue s = p # q" "p \<noteq> NULL" "bufs s p = Some b" "m_fd b \<noteq> 0" "m_used b \<le> m_size b"
    and "m_size b = MAX_BUF"
    and "\<forall>r \<in> set rs. \<not> hard r" "m_used b \<le> accepted rs"
  shows "\<exists>rs' e' t. SendTask_round rs e s = Inr ((Some (view b), rs', e'), t)
     \<and> sendqueue t = q \<and> pool_queue (bufpool t) = pool_queue (bufpool s) @ [p]
     \<and> bufs t = (bufs s)(p \<mapsto> Buf_reset b) \<and> recvqueue t = recvqueue s \<and> world t = world s"
proof -
  have "length (bytes_at (m_ptr b) 0 (m_used b)) \<le> accepted rs" using assms(8) by simp
  from send_all_enough [OF assms(7) this, of e "[]"] obtain rs' e' where
    r: "send_all rs e (bytes_at (m_ptr b) 0 (m_used b)) [] = Some (bytes_at (m_ptr b) 0 (m_used b), rs', e')"
    by auto
  obtain d where d: "debugProtocol p (s\<lparr>sendqueue := q\<rparr>) = Inr (d, s\<lparr>sendqueue := q\<rparr>)"
    using debugProtocol_runs [of "s\<lparr>sendqueue := q\<rparr>" p b] assms(2,3,6) by auto
  show ?thesis
    using assms(1-5)
    by (simp add: SendTask_round_def QueueT_dequeue_def bnd_def sq_def gets_def modify_def ret_def get_fd_def
        get_size_def deref_def check_def r d buf_reset_def upd_buf_def pool_free_def PoolT_free_def set_buf_def
        view_def world_def)
qed

text \<open>The only packet that waits to be sent, and a step that changes at most one buffer nobody holds.\<close>

lemma own_front:
  assumes "own U n C [(fd, bs)] w s"
  obtains p b where "sendqueue s = [p]" "p \<noteq> NULL" "bufs s p = Some b" "m_size b = MAX_BUF" "view b = (fd, bs)" "p \<notin> fst ` set C"
proof -
  have "sent s = [(fd, bs)]" using assms by (rule own_sent)
  then obtain p where p: "sendqueue s = [p]" "view (packet s p) = (fd, bs)" by (auto simp: sent_def)
  have "live_buf s p" using assms p(1) by (auto simp: own_def held_def bal_def inflight_def)
  moreover have "p \<notin> fst ` set C" using own_distinct [OF assms] p(1) by (auto simp: inflight_def)
  ultimately show ?thesis using p by (auto simp: live_buf_def packet_def split: option.splits intro: that)
qed

lemma own_moved:
  assumes "own U m C X w s" "mset (inflight t) = mset (inflight s)" "bufs t = (bufs s)(q \<mapsto> b')" "q \<notin> fst ` set C"
    and "m_size b' = MAX_BUF" "world t = world s" "sendqueue t = []" "k \<le> avail t"
  shows "own U k C [] w t"
  using assms by (force simp: own_def held_def bal_def live_buf_def sent_def)

text \<open>The sending thread with one packet in its queue, whatever else is going on.\<close>

lemma own_SendTask_one:
  assumes "own U n C [(fd, bs)] w s" "fd \<noteq> 0" "length bs \<le> MAX_BUF"
    and "\<forall>r \<in> set rs. \<not> hard r" "length bs \<le> accepted rs"
  shows "wp (SendTask_round rs err) (\<lambda>(out, _) t. out = Some (fd, bs) \<and> own U (Suc n) C [] w t \<and> avail t = Suc (avail s)
     \<and> recvqueue t = recvqueue s) s"
proof -
  obtain p b where p: "sendqueue s = [p]" "p \<noteq> NULL" "bufs s p = Some b" "m_size b = MAX_BUF" "view b = (fd, bs)" "p \<notin> fst ` set C"
    using own_front [OF assms(1)] by blast
  then have "m_used b = length bs" "m_fd b = fd" by (auto simp: view_def)
  then obtain rs' e' t where t: "SendTask_round rs err s = Inr ((Some (fd, bs), rs', e'), t)"
    "sendqueue t = []" "pool_queue (bufpool t) = pool_queue (bufpool s) @ [p]"
    "bufs t = (bufs s)(p \<mapsto> Buf_reset b)" "recvqueue t = recvqueue s" "world t = world s"
    using SendTask_run [OF p(1-3), of rs err] p(4,5) assms(2-5) by auto
  have "own U (Suc n) C [] w t"
    by (rule own_moved [OF assms(1) _ t(4) p(6) _ t(6,2)])
      (use t p assms(1) in \<open>simp_all add: inflight_def Buf_reset_def avail_def own_def\<close>)
  then show ?thesis using t by (simp add: wp_def avail_def)
qed

text \<open>When a call fails for good, what the calls before it have taken is all that goes out.\<close>

lemma send_all_cut:
  "\<forall>r \<in> set rs. \<not> hard r \<Longrightarrow> accepted rs < length left \<Longrightarrow> \<not> transient e1 \<Longrightarrow>
   \<exists>rs' e'. send_all (rs @ SendErr e1 # rs2) e left out = Some (out @ take (accepted rs) left, rs', e')"
proof (induction rs arbitrary: e left out)
  case Nil
  then show ?case by simp
next
  case (Cons r rs)
  have left: "left \<noteq> []" using Cons.prems(2) by auto
  show ?case
  proof (cases r)
    case (Sent n)
    have n: "0 < n" "n < length left" using Cons.prems(1,2) Sent by (auto simp: hard_def)
    have "\<exists>rs' e'. send_all (rs @ SendErr e1 # rs2) e (drop n left) (out @ take n left)
        = Some ((out @ take n left) @ take (accepted rs) (drop n left), rs', e')"
      using Cons.prems Sent by (intro Cons.IH) auto
    then show ?thesis using n left Sent by (simp add: take_add)
  next
    case (SendErr e2)
    then show ?thesis using Cons.prems Cons.IH [of left e2 out] left by (simp add: hard_def)
  qed
qed

text \<open>What a round does with the packet \<open>p\<close> at the front after it has handed its first bytes to the kernel, or dropped it.\<close>

definition recycled :: "ptr \<Rightarrow> Buf \<Rightarrow> ptr list \<Rightarrow> srv \<Rightarrow> srv \<Rightarrow> bool" where
  "recycled p b' q s t \<longleftrightarrow> sendqueue t = q \<and> pool_queue (bufpool t) = pool_queue (bufpool s) @ [p]
     \<and> bufs t = (bufs s)(p \<mapsto> b') \<and> recvqueue t = recvqueue s \<and> world t = world s"

lemma SendTask_cut:
  assumes "sendqueue s = p # q" "p \<noteq> NULL" "bufs s p = Some b" "m_fd b \<noteq> 0" "m_used b \<le> m_size b"
    and "m_size b = MAX_BUF" "\<forall>r \<in> set good. \<not> hard r" "accepted good < m_used b" "\<not> transient e1"
  shows "\<exists>rs' e' t. SendTask_round (good @ SendErr e1 # bad) e s = Inr ((Some (m_fd b, bytes_at (m_ptr b) 0 (accepted good)), rs', e'), t)
     \<and> recycled p (Buf_reset b) q s t"
proof -
  have "take (accepted good) (bytes_at (m_ptr b) 0 (m_used b)) = bytes_at (m_ptr b) 0 (accepted good)"
    using assms(8) by (simp add: bytes_at_def take_map)
  then obtain rs' e' where
    r: "send_all (good @ SendErr e1 # bad) e (bytes_at (m_ptr b) 0 (m_used b)) [] = Some (bytes_at (m_ptr b) 0 (accepted good), rs', e')"
    using send_all_cut [OF assms(7) _ assms(9), of "bytes_at (m_ptr b) 0 (m_used b)" bad e "[]"] assms(8) by auto
  obtain d where d: "debugProtocol p (s\<lparr>sendqueue := q\<rparr>) = Inr (d, s\<lparr>sendqueue := q\<rparr>)"
    using debugProtocol_runs [of "s\<lparr>sendqueue := q\<rparr>" p b] assms(2,3,6) by auto
  show ?thesis
    using assms(1-5)
    by (simp add: SendTask_round_def QueueT_dequeue_def bnd_def sq_def gets_def modify_def ret_def get_fd_def
        get_size_def deref_def check_def r d buf_reset_def upd_buf_def pool_free_def PoolT_free_def set_buf_def
        recycled_def world_def)
qed

text \<open>C18: \<open>SendTask\<close>: the packet at the front of the send queue, of a size that fits its buffer, goes to its descriptor completely and
  in order, however few bytes each call of \<open>send\<close> takes and however often it fails for the moment, if no call fails
  for good and they take enough in total; when a call fails for good, exactly the bytes that the calls before it took have gone
  out.  Either way the buffer is cleared and returned to the pool.  A packet for descriptor 0 is dropped: nothing is sent, and the
  buffer goes back to the pool as it is.  Nothing else changes.\<close>

theorem SendTask_round_delivers:
  assumes "sendqueue s = p # q" "p \<noteq> NULL" "bufs s p = Some b" "m_used b \<le> m_size b" "m_size b = MAX_BUF"
  shows "(m_fd b \<noteq> 0 \<and> (\<forall>r \<in> set rs. \<not> hard r) \<and> m_used b \<le> accepted rs \<longrightarrow>
       (\<exists>rs' e' t. SendTask_round rs e s = Inr ((Some (view b), rs', e'), t) \<and> recycled p (Buf_reset b) q s t))
     \<and> (\<forall>good e1 bad. m_fd b \<noteq> 0 \<and> rs = good @ SendErr e1 # bad \<and> (\<forall>r \<in> set good. \<not> hard r) \<and> accepted good < m_used b
         \<and> \<not> transient e1 \<longrightarrow>
       (\<exists>rs' e' t. SendTask_round rs e s = Inr ((Some (m_fd b, bytes_at (m_ptr b) 0 (accepted good)), rs', e'), t)
         \<and> recycled p (Buf_reset b) q s t))
     \<and> (m_fd b = 0 \<longrightarrow> (\<exists>t. SendTask_round rs e s = Inr ((None, rs, e), t) \<and> recycled p b q s t))"
proof (intro conjI impI allI)
  assume "m_fd b \<noteq> 0 \<and> (\<forall>r \<in> set rs. \<not> hard r) \<and> m_used b \<le> accepted rs"
  then show "\<exists>rs' e' t. SendTask_round rs e s = Inr ((Some (view b), rs', e'), t) \<and> recycled p (Buf_reset b) q s t"
    unfolding recycled_def using SendTask_run [OF assms(1-3) _ assms(4,5)] by blast
next
  fix good e1 bad
  assume "m_fd b \<noteq> 0 \<and> rs = good @ SendErr e1 # bad \<and> (\<forall>r \<in> set good. \<not> hard r) \<and> accepted good < m_used b \<and> \<not> transient e1"
  then show "\<exists>rs' e' t. SendTask_round rs e s = Inr ((Some (m_fd b, bytes_at (m_ptr b) 0 (accepted good)), rs', e'), t)
      \<and> recycled p (Buf_reset b) q s t"
    using SendTask_cut [OF assms(1-3) _ assms(4,5)] by blast
next
  assume "m_fd b = 0"
  then show "\<exists>t. SendTask_round rs e s = Inr ((None, rs, e), t) \<and> recycled p b q s t"
    using assms(1-3)
    by (simp add: SendTask_round_def QueueT_dequeue_def bnd_def sq_def gets_def modify_def ret_def get_fd_def deref_def
        pool_free_def PoolT_free_def recycled_def world_def fun_upd_idem)
qed

lemma SendTask_round_witness:
  "\<exists>rs' e' t. SendTask_round [Sent 5, SendErr EAGAIN, Sent 100] 0
      ((srv0 [] (pkt 6 (msg 12 77 [1, 2, 3, 4])))\<lparr>sendqueue := [10]\<rparr>)
    = Inr ((Some (6, msg 12 77 [1, 2, 3, 4]), rs', e'), t) \<and> sendqueue t = []"
proof -
  let ?b = "pkt 6 (msg 12 77 [1, 2, 3, 4])"
  let ?s = "(srv0 [] ?b)\<lparr>sendqueue := [10]\<rparr>"
  have v: "view ?b = (6, msg 12 77 [1, 2, 3, 4])"
    using pkt_bytes [of 6 "msg 12 77 [1, 2, 3, 4]"] by (simp add: view_def)
  have "sendqueue ?s = [10]" "bufs ?s 10 = Some ?b" "m_fd ?b = 6" "m_used ?b = 12" "m_size ?b = MAX_BUF" by simp_all
  then have "\<exists>rs' e' t. SendTask_round [Sent 5, SendErr EAGAIN, Sent 100] 0 ?s = Inr ((Some (view ?b), rs', e'), t)
     \<and> recycled 10 (Buf_reset ?b) [] ?s t"
    using SendTask_round_delivers [of ?s 10 "[]" ?b "[Sent 5, SendErr EAGAIN, Sent 100]" 0]
    by (simp add: NULL_def MAX_BUF_def hard_def transient_def )
  with v show ?thesis by (fastforce simp: recycled_def)
qed

text \<open>The sending loop of \<open>SendTask\<close> never sends anything but the packet: whatever the kernel answers, what has
  gone out when the loop ends is a prefix of it.\<close>

theorem send_all_sends_prefix:
  assumes "send_all rs e bs [] = Some (out, rs', e')"
  shows "\<exists>n. out = take n bs"
  using send_all_prefix [OF assms] by simp

lemma send_all_sends_prefix_witness:
  "\<exists>n. [1, 2] = take n [1, 2, 3 :: byte]"
  by (rule send_all_sends_prefix [of "[Sent 2, SendErr 32]" 0 "[1, 2, 3]" _ "[]" 32]) (simp add: transient_def EAGAIN_def EINTR_def)

section \<open>Loops that do not come back\<close>

text \<open>\<open>send_v\<close>, called while \<open>errno\<close> still holds \<open>EAGAIN\<close> or \<open>EINTR\<close> from an earlier call: although every
  call of \<open>send\<close> takes all the data it is offered, the loop has not returned after any number of
  calls; a successful call does not change \<open>errno\<close>, and the loop looks there first.\<close>

theorem send_v_stale:
  assumes "transient e" "bs \<noteq> []" "\<forall>r \<in> set rs. \<exists>n. r = Sent n"
  shows "send_v rs e (Some bs) = None"
  using send_v_loop_stale [OF assms] by (simp add: send_v_def)

lemma send_v_stale_witness: "send_v (replicate 1000 (Sent 3)) EAGAIN (Some [1, 2, 3]) = None"
  by (rule send_v_stale) (auto simp: transient_def)

text \<open>\<open>recv_v\<close> at the end of the stream, while \<open>errno\<close> still holds a transient error: \<open>recv\<close> keeps
  returning 0 and the loop has not returned after any number of calls, so a client that closes its
  connection at that moment blocks the whole event loop.\<close>

theorem recv_v_eof_stale:
  assumes "transient e" "0 < left"
  shows "recv_v (replicate n (Data [])) e p a left recved s = Inl Blocked"
  using assms by (induction n) (simp_all add: run_simps)

lemma recv_v_eof_stale_witness:
  "recv_v (replicate 1000 (Data [])) EINTR 11 0 4 0 (srv0 [] blank) = Inl Blocked"
  by (rule recv_v_eof_stale) (simp_all add: transient_def)

section \<open>The table of clients\<close>

definition evl_ok :: "evl \<Rightarrow> bool" where
  "evl_ok v \<longleftrightarrow> (\<forall>fd. io v fd \<longrightarrow> 0 < fd \<and> fd < MAXFD) \<and> clientcount v = of_nat (card {fd. io v fd})"

lemma evl_ok_finite: "evl_ok v \<Longrightarrow> finite {fd. io v fd}"
  by (rule finite_subset [of _ "{0 <..< MAXFD}"]) (auto simp: evl_ok_def)

lemma evl_ok_add:
  assumes "evl_ok v" "\<not> io v fd" "0 < fd" "fd < MAXFD" "io v' = (io v)(fd := True)" "clientcount v' = clientcount v + 1"
  shows "evl_ok v'"
proof -
  have "{x. io v' x} = insert fd {x. io v x}" using assms(5) by auto
  then show ?thesis using assms evl_ok_finite [OF assms(1)] by (auto simp: evl_ok_def)
qed

lemma evl_ok_remove:
  assumes "evl_ok v" "io v fd" "io v' = (io v)(fd := False)" "clientcount v' = clientcount v - 1"
  shows "evl_ok v'"
proof -
  have "{x. io v' x} = {x. io v x} - {fd}" using assms(3) by auto
  then show ?thesis using assms evl_ok_finite [OF assms(1)]
    by (auto simp: evl_ok_def card_Suc_Diff1 [symmetric] simp del: card_Diff_insert)
qed

lemma evl_ok_cong: "evl_ok v \<Longrightarrow> io v' = io v \<Longrightarrow> clientcount v' = clientcount v \<Longrightarrow> evl_ok v'"
  by (simp add: evl_ok_def)

text \<open>What holds if an action returns.\<close>

definition post :: "(srv, 'a) prog \<Rightarrow> ('a \<Rightarrow> bool) \<Rightarrow> bool" where
  "post m Q \<longleftrightarrow> (\<forall>s x t. m s = Inr (x, t) \<longrightarrow> Q x)"

lemma post_ret: "post (ret x) Q \<longleftrightarrow> Q x"
  by (auto simp: post_def ret_def)

lemma post_fail: "post (fail e) Q"
  by (simp add: post_def fail_def)

lemma post_bnd: "(\<And>x. post (f x) Q) \<Longrightarrow> post (bnd m f) Q"
  by (auto simp: post_def bnd_def split: sum.splits)

lemma post_bnd_with: "post m P \<Longrightarrow> (\<And>x. P x \<Longrightarrow> post (f x) Q) \<Longrightarrow> post (bnd m f) Q"
  by (fastforce simp: post_def bnd_def split: sum.splits)

lemma post_sq: "post n Q \<Longrightarrow> post (sq m n) Q"
  by (simp add: sq_def post_bnd)

lemma post_check: "(b \<Longrightarrow> post n Q) \<Longrightarrow> post (sq (check b e) n) Q"
  by (auto simp: post_def sq_def bnd_def check_def ret_def fail_def)

lemma closefd_ok: "evl_ok v \<Longrightarrow> post (closefd fd v) evl_ok"
  unfolding closefd_def
  by (rule post_sq, rule post_check, rule post_sq) (auto simp: post_ret AtomicT_defs intro: evl_ok_remove [of v fd])

lemma closefd_rest: "evl_ok v \<Longrightarrow> post (bnd (closefd fd v) (\<lambda>v. ret (v, rs))) (\<lambda>(v, rs). evl_ok v)"
  by (rule post_bnd_with [OF closefd_ok]) (simp_all add: post_ret)

lemma recv_cb_ok:
  assumes "evl_ok v"
  shows "post (recv_cb fd now rs v) (\<lambda>(v', rs'). evl_ok v')"
proof -
  have ok: "evl_ok (v\<lparr>ev_errno := e\<rparr>)" "evl_ok (v\<lparr>ev_errno := e, lasttime := l\<rparr>)" for e l
    using assms by (simp_all add: evl_ok_def)
  show ?thesis
    unfolding recv_cb_def
    by (auto intro!: post_bnd post_fail post_sq closefd_rest ok simp: post_ret split: prod.split)
qed

text \<open>What each callback does to the table.\<close>

lemma client_table_step:
  assumes "evl_ok v"
  shows "(\<not> io v newfd \<and> accept_cb newfd now v = Inr v1 \<longrightarrow> evl_ok v1)
    \<and> (closefd fd v s = Inr (v2, t) \<longrightarrow> evl_ok v2)
    \<and> (recv_cb fd now rs v s = Inr ((v3, rs'), t) \<longrightarrow> evl_ok v3)"
proof (intro conjI impI)
  show "\<not> io v newfd \<and> accept_cb newfd now v = Inr v1 \<Longrightarrow> evl_ok v1"
    using assms by (auto simp: accept_cb_def AtomicT_defs split: if_splits intro: evl_ok_add [of v newfd])
  show "closefd fd v s = Inr (v2, t) \<Longrightarrow> evl_ok v2"
    using closefd_ok [OF assms, of fd] by (auto simp: post_def)
  show "recv_cb fd now rs v s = Inr ((v3, rs'), t) \<Longrightarrow> evl_ok v3"
    using recv_cb_ok [OF assms] by (fastforce simp: post_def)
qed

text \<open>The static members before the program starts, and what the kernel and libev can report: \<open>accept\<close> never gives a
  descriptor that is still open, and data is reported for watched descriptors only.  Between two
  callbacks the other threads may have changed the server's state in any way.\<close>

definition evl_static :: "int \<Rightarrow> evl" where
  "evl_static e = \<lparr>io = (\<lambda>_. False), lasttime = (\<lambda>_. 0), clientcount = AtomicT_new, ev_errno = e\<rparr>"

definition possible :: "ev_event \<Rightarrow> evl \<Rightarrow> bool" where
  "possible ev v = (case ev of Connected newfd now \<Rightarrow> \<not> io v newfd | Readable fd now rs \<Rightarrow> io v fd)"

inductive ev_run :: "evl \<Rightarrow> evl \<Rightarrow> bool" for v0 where
  start: "ev_run v0 v0"
| callback: "ev_run v0 v \<Longrightarrow> possible ev v \<Longrightarrow> ev_callback ev v s = Inr (v', t) \<Longrightarrow> ev_run v0 v'"

lemma ev_callback_ok:
  assumes "evl_ok v" "possible ev v" "ev_callback ev v s = Inr (v', t)"
  shows "evl_ok v'"
proof (cases ev)
  case (Connected newfd now)
  then have "accept_cb newfd now v = Inr v'"
    using assms(3) by (simp add: ev_callback_def fail_def ret_def split: sum.splits)
  then show ?thesis using client_table_step [OF assms(1)] assms(2) Connected by (simp add: possible_def)
next
  case (Readable fd now rs)
  then obtain rs' where "recv_cb fd now rs v s = Inr ((v', rs'), t)"
    using assms(3) by (auto simp: ev_callback_def bnd_def ret_def split: sum.splits prod.splits)
  then show ?thesis using client_table_step [OF assms(1)] by blast
qed

lemma ev_run_ok: "ev_run v0 v \<Longrightarrow> evl_ok v0 \<Longrightarrow> evl_ok v"
  by (induction rule: ev_run.induct) (auto intro: ev_callback_ok)

lemma evl_ok_count:
  assumes "evl_ok v"
  shows "unat (getClientCount v) = card {fd. io v fd}"
proof -
  have "card {fd. io v fd} \<le> card {0 <..< MAXFD}"
    using assms by (intro card_mono) (auto simp: evl_ok_def)
  then have "card {fd. io v fd} < 2 ^ 32" by (simp add: MAXFD_def)
  then show ?thesis using assms by (simp add: evl_ok_def getClientCount_def unat_of_nat)
qed

lemma io_new [simp]: "io (snd (Evloop_new ip port sock (evl_static e))) = (\<lambda>_. False)"
  by (simp add: Evloop_new_def evl_static_def fun_eq_iff)

lemma clientcount_new [simp]: "clientcount (snd (Evloop_new ip port sock (evl_static e))) = 0"
  by (simp add: Evloop_new_def evl_static_def AtomicT_defs)

lemma evl_ok_new: "evl_ok (snd (Evloop_new ip port sock (evl_static e)))"
  by (simp add: evl_ok_def)

text \<open>The table of connected clients: whatever the event loop does after the server has started, in any order of
  connections and packets and whatever the other threads do in between, every entry of the table that is set
  lies inside it, and \<open>getClientCount\<close> is exactly the number of entries that are set.\<close>

theorem client_table_invariant:
  assumes "ev_run (snd (Evloop_new ip port sock (evl_static e))) v"
  shows "(\<forall>fd. io v fd \<longrightarrow> 0 < fd \<and> fd < MAXFD) \<and> unat (getClientCount v) = card {fd. io v fd}"
  using ev_run_ok [OF assms evl_ok_new] evl_ok_count by (auto simp: evl_ok_def)

lemma client_table_witness:
  "\<exists>v. ev_run (snd (Evloop_new ''0.0.0.0'' 9999 3 (evl_static 0))) v \<and> io v 7 \<and> unat (getClientCount v) = card {fd. io v fd}"
proof -
  let ?v0 = "snd (Evloop_new ''0.0.0.0'' 9999 3 (evl_static 0))"
  have a: "\<exists>v. accept_cb 7 99 ?v0 = Inr v \<and> io v 7" by (simp add: accept_cb_def MAXFD_def)
  then obtain v where v: "accept_cb 7 99 ?v0 = Inr v" "io v 7" by blast
  then have "ev_callback (Connected 7 99) ?v0 undefined = Inr (v, undefined)"
    by (simp add: ev_callback_def ret_def)
  then have r: "ev_run ?v0 v"
    by (rule ev_run.callback [OF ev_run.start, rotated]) (simp add: possible_def)
  show ?thesis using client_table_invariant [OF r] r v(2) by (intro exI [of _ v]) simp
qed

end
