(* ===== verification/Dispatch_Spec.thy ===== *)
theory Dispatch_Spec
  imports Dispatch Messaging_Spec Net_Spec
begin

text \<open>
  The receiving thread as a whole: the handler table as a finite map, the way of a teacher's command from
  the receive queue through its handler and the sending thread to the whiteboard, and the
  packets that no handler wants.
\<close>

section \<open>The table\<close>

lemma find_fold_insert: "smap_inv m \<Longrightarrow>
    smap_find (fold (\<lambda>(k, v). smap_insert k v) xs m) = map_of xs ++ smap_find m"
proof (induction xs arbitrary: m)
  case (Cons x xs)
  obtain k v where x: "x = (k, v)" by (cases x)
  have "smap_find (fold (\<lambda>(k, v). smap_insert k v) xs (smap_insert k v m)) = map_of xs ++ smap_find (smap_insert k v m)"
    using Cons.prems by (intro Cons.IH) simp
  then show ?case
    using Cons.prems by (auto simp: x find_smap_insert map_add_def fun_eq_iff split: option.split)
qed simp

text \<open>The tree that \<open>initHandlers\<close> builds answers as the table read from its beginning.\<close>

lemma getHandler_table: "getHandler ct = map_of MSGHANDLE ct"
  by (simp add: getHandler_def initHandlers_def find_fold_insert map_add_def)

lemmas forward_defs =
  handleBuildHouse_CaiHongGu_def handleBuildHouse_XiaoGuaiWu_def handleBuildHouse_MuBu_def 
  handleBuildHouse_SingleMode_def handleBuildHouse_GroupMode_def handleBuildHouse_GameEnd_def 
  handleBuildHouse_EmailTibet_def handleBuildHouse_EmailAmerica_def handleBuildHouse_Activation_def 
  handleBuildHouse_Role_def handleBuildHouse_ScreenShot_def handleCommonPlayorPause_def 
  handleCommonResume_def handleCommonStop_def handleCartoon_GameStart_def handleCartoon_Play_def 
  handleCartoon_Pause_def handleCartoon_Stop_def handleCartoon_GameEnd_def handleExercise_GameStart_def 
  handleExercise_Play_def handleExercise_Pause_def handleExercise_Stop_def handleExercise_GameEnd_def 
  handleShowSpriteAnimation_def handleShowSpriteControl_def handleControlLevel_def 
  handlePuzzle_IconStatus_def handlePuzzle_Play_def handlePuzzle_Pause_def handlePuzzle_SelectedType_def 
  handlePuzzle_SelectedSize_def 

text \<open>The commands of the teacher that a handler only passes on, and what they are called on the whiteboard.\<close>

definition teacher_commands :: "(u32 \<times> u32) list" where
  "teacher_commands = [
    (CT_BuildHouse_CaiHongGu, ST_BuildHouse_CaiHongGu),
    (CT_BuildHouse_XiaoGuaiWu, ST_BuildHouse_XiaoGuaiWu),
    (CT_BuildHouse_MuBu, ST_BuildHouse_MuBu),
    (CT_BuildHouse_SingleMode, ST_BuildHouse_SingleMode),
    (CT_BuildHouse_GroupMode, ST_BuildHouse_GroupMode),
    (CT_BuildHouse_GameEnd, ST_BuildHouse_GameEnd),
    (CT_BuildHouse_EmailTibet, ST_BuildHouse_EmailTibet),
    (CT_BuildHouse_EmailAmerica, ST_BuildHouse_EmailAmerica),
    (CT_BuildHouse_Activation, ST_BuildHouse_Activation),
    (CT_BuildHouse_Role, ST_BuildHouse_Role),
    (CT_BuildHouse_ScreenShot, ST_BuildHouse_Screenshot),
    (CT_Common_PlayorPause, ST_Common_PlayorPause),
    (CT_Common_Resume, ST_Common_Resume),
    (CT_Common_Stop, ST_Common_Stop),
    (CT_Cartoon_GameStart, ST_Cartoon_GameStart),
    (CT_Cartoon_Play, ST_Cartoon_Play),
    (CT_Cartoon_Pause, ST_Cartoon_Pause),
    (CT_Cartoon_Stop, ST_Cartoon_Stop),
    (CT_Cartoon_GameEnd, ST_Cartoon_GameEnd),
    (CT_Exercise_GameStart, ST_Exercise_GameStart),
    (CT_Exercise_Play, ST_Exercise_Play),
    (CT_Exercise_Pause, ST_Exercise_Pause),
    (CT_Exercise_Stop, ST_Exercise_Stop),
    (CT_Exercise_GameEnd, ST_Exercise_GameEnd),
    (CT_ShowSpriteAnimation, ST_ShowSpriteAnimation),
    (CT_ShowSpriteControl, ST_ShowSpriteControl),
    (CT_ControlLevel, ST_ControlLevel),
    (CT_Puzzle_IconStatus, ST_Puzzle_IconStatus),
    (CT_Puzzle_Play, ST_Puzzle_Play),
    (CT_Puzzle_Pause, ST_Puzzle_Pause),
    (CT_Puzzle_SelectedType, ST_Puzzle_SelectedType),
    (CT_Puzzle_SelectedSize, ST_Puzzle_SelectedSize)]"

lemma teacher_commands_handled:
  "list_all (\<lambda>(ct, st). map_of MSGHANDLE ct = Some (\<lambda>e p. when_type p ct (ignore (postTeacherToWhite p st)))) teacher_commands"
  unfolding teacher_commands_def MSGHANDLE_def
  by (simp add: cmd_defs forward_defs fun_eq_iff)

lemma teacher_command_handler: "(ct, st) \<in> set teacher_commands \<Longrightarrow>
    getHandler ct = Some (\<lambda>e p. when_type p ct (ignore (postTeacherToWhite p st)))"
  using teacher_commands_handled by (auto simp: getHandler_table list_all_iff)

section \<open>One round of the receiving thread\<close>

lemma own_debugProtocol [own_intros]:
  assumes "own U n C X w s" "(p, b) \<in> set C" "\<And>r. Q r s"
  shows "wp (debugProtocol p) Q s"
  using debugProtocol_runs [of s p b] own_buf [OF assms(1,2)] assms(3) by (auto simp: wp_def)

lemma own_take_recv:
  assumes "own U n [] X w s" "recvqueue s = p # q"
  obtains b where "bufs s p = Some b" "p \<noteq> NULL" "own U n [(p, b)] X w (s\<lparr>recvqueue := q\<rparr>)"
proof -
  from assms have bal: "bal U [] s" "world s = w" by (simp_all add: own_def held_def)
  then have "live_buf s p" using assms(2) by (auto simp: bal_def inflight_def)
  then obtain b where b: "bufs s p = Some b" "p \<noteq> NULL" by (auto dest: live_bufD)
  have "own U n [(p, b)] X w (s\<lparr>recvqueue := q\<rparr>)"
    using assms bal b
    by (auto simp: own_def held_def bal_def inflight_def live_buf_def avail_def sent_def packet_def world_def)
  with b show ?thesis by (rule that)
qed

lemma own_when_type:
  assumes "own U n C X w s" "(p, b) \<in> set C" "get32 (m_ptr b) 4 = ct" "wp m Q s"
  shows "wp (when_type p ct m) Q s"
proof -
  have "p \<noteq> NULL" using own_buf [OF assms(1,2)] by simp
  moreover have "wp (rd32 p 4) (\<lambda>x. wp (if x = ct then m else ret ()) Q) s"
    by (rule own_rd32 [OF assms(1,2)]) (use assms(3,4) in \<open>simp_all add: MAX_BUF_def\<close>)
  ultimately show ?thesis
    unfolding when_type_def wp_bnd head_cType_def by (simp add: wp_bnd)
qed

text \<open>A handler of the table that gets the packet as the code does: popped, printed, looked up by its type.\<close>

lemma wp_RecvTask_round:
  assumes "own U n [] X w s" "recvqueue s = p # q" "bufs s p = Some b"
    and "getHandler (get32 (m_ptr b) 4) = Some h"
    and "own U n [(p, b)] X w (s\<lparr>recvqueue := q\<rparr>) \<Longrightarrow> wp (h e p) (\<lambda>_ t. Q Handled t) (s\<lparr>recvqueue := q\<rparr>)"
  shows "wp (RecvTask_round e) Q s"
proof -
  from own_take_recv [OF assms(1,2)] assms(3) have o: "own U n [(p, b)] X w (s\<lparr>recvqueue := q\<rparr>)" and p: "p \<noteq> NULL"
    by auto
  have "wp (handle_packet e p) (\<lambda>_ t. Q Handled t) (s\<lparr>recvqueue := q\<rparr>)"
    unfolding handle_packet_def wp_bnd
    apply (rule own_debugProtocol [OF o], simp)
    unfolding head_cType_def
    apply (rule own_rd32 [OF o], simp)
    using assms(4) by (simp_all add: MAX_BUF_def assms(5) [OF o])
  then show ?thesis
    unfolding RecvTask_round_def wp_simps using assms(2) p by (simp add: QueueT_dequeue_def wp_simps wp_ret [abs_def])
qed

text \<open>The sample server with its packet still in the receive queue.\<close>

definition sample_recv :: "int \<Rightarrow> u32 \<Rightarrow> srv" where
  "sample_recv fd ct = (sample_srv fd ct)\<lparr>recvqueue := [10]\<rparr>"

lemma sample_recv_own: "own bufs0 5 [] [] (world (sample_recv fd ct)) (sample_recv fd ct)"
  using sample_own [of fd ct]
  by (auto simp: sample_recv_def own_def held_def bal_def inflight_def live_buf_def avail_def sent_def world_def sample_srv_def srv0_def add_mset_commute)

lemma sample_recv_buf: "bufs (sample_recv fd ct) 10 = Some (pkt fd (msg 12 ct [1, 2, 3, 4]))"
  by (simp add: sample_recv_def sample_srv_def)

lemma sample_type: "get32 (m_ptr (pkt fd (msg 12 ct [1, 2, 3, 4]))) 4 = ct"
  by (rule pkt_type)

text \<open>A teacher's command does not touch the receive queue.\<close>

definition keeps_recv :: "'a act \<Rightarrow> bool" where
  "keeps_recv m \<longleftrightarrow> (\<forall>s x t. m s = Inr (x, t) \<longrightarrow> recvqueue t = recvqueue s)"

lemma keeps_recv_bnd: "keeps_recv m \<Longrightarrow> (\<And>x. keeps_recv (f x)) \<Longrightarrow> keeps_recv (bnd m f)"
  by (fastforce simp: keeps_recv_def bnd_def split: sum.splits)

lemma keeps_recv_sq: "keeps_recv m \<Longrightarrow> keeps_recv n \<Longrightarrow> keeps_recv (sq m n)"
  by (simp add: sq_def keeps_recv_bnd)

lemma keeps_recv_prim [simp]:
  "keeps_recv (ret x)" "keeps_recv (set_cType p ct)" "keeps_recv (set_fd p fd)" "keeps_recv (set_size p k)"
  "keeps_recv (head_cLen p)" "keeps_recv (head_cType p)" "keeps_recv (get_fd p)" "keeps_recv (send_enqueue p)"
  "keeps_recv (pool_free p)" "keeps_recv (deref_room rp)" "keeps_recv (CRoomManager_get_room_by_fd fd)"
  by (auto simp: keeps_recv_def head_defs wr32_def rd32_def set_fd_def set_size_def upd_buf_def get_fd_def
      send_enqueue_def pool_free_def deref_room_def CRoomManager_get_room_by_fd_def bnd_def sq_def deref_def check_def
      ret_def fail_def modify_def gets_def set_buf_def split: option.splits if_splits sum.splits)

lemma keeps_recv_command: "keeps_recv (when_type p ct (ignore (postTeacherToWhite p st)))"
  by (auto simp: when_type_def ignore_def postTeacherToWhite_def forward_def
      intro!: keeps_recv_bnd keeps_recv_sq split: option.split)

lemma wp_keeps_recv: "wp m Q s \<Longrightarrow> keeps_recv m \<Longrightarrow> wp m (\<lambda>x t. Q x t \<and> recvqueue t = recvqueue s) s"
  by (auto simp: wp_def keeps_recv_def split: sum.splits)

lemma RecvTask_routes_queue:
  assumes "own U n [] X w s" "recvqueue s = p # q" "bufs s p = Some b" "smap_inv (rooms s)"
    and "unat (get32 (m_ptr b) 0) = k" "8 \<le> k" "(get32 (m_ptr b) 4, st) \<in> set teacher_commands"
  shows "wp (RecvTask_round e) (\<lambda>r t. r = Handled \<and>
     own U (if route is_teacher m_white_fd (rooms s) (m_fd b) = None then Suc n else n) []
       (X @ (case route is_teacher m_white_fd (rooms s) (m_fd b) of None \<Rightarrow> []
             | Some fd \<Rightarrow> [(fd, retype st (bytes_at (m_ptr b) 0 k))])) w t \<and> recvqueue t = q) s"
proof (rule wp_RecvTask_round [OF assms(1-3) teacher_command_handler [OF assms(7)]])
  assume o: "own U n [(p, b)] X w (s\<lparr>recvqueue := q\<rparr>)"
  have o1: "(p, b) \<in> set [(p, b)]" by simp
  show "wp (when_type p (get32 (m_ptr b) 4) (ignore (postTeacherToWhite p st)))
     (\<lambda>_ t. Handled = Handled \<and> own U (if route is_teacher m_white_fd (rooms s) (m_fd b) = None then Suc n else n) []
       (X @ (case route is_teacher m_white_fd (rooms s) (m_fd b) of None \<Rightarrow> []
             | Some fd \<Rightarrow> [(fd, retype st (bytes_at (m_ptr b) 0 k))])) w t \<and> recvqueue t = q) (s\<lparr>recvqueue := q\<rparr>)"
  proof -
    have "wp (when_type p (get32 (m_ptr b) 4) (ignore (postTeacherToWhite p st)))
     (\<lambda>_ t. own U (if route is_teacher m_white_fd (rooms s) (m_fd b) = None then Suc n else n) []
       (X @ (case route is_teacher m_white_fd (rooms s) (m_fd b) of None \<Rightarrow> []
             | Some fd \<Rightarrow> [(fd, retype st (bytes_at (m_ptr b) 0 k))])) w t) (s\<lparr>recvqueue := q\<rparr>)"
      unfolding ignore_def
      by (rule own_when_type [OF o o1 refl], unfold wp_bnd,
          rule wp_mono [OF postTeacherToWhite_rule [OF o _ assms(5,6), of st]])
        (use assms(4) in \<open>auto simp: wp_ret split: option.splits\<close>)
    from wp_keeps_recv [OF this [unfolded ignore_def [symmetric]] keeps_recv_command] show ?thesis
      by (rule wp_mono) simp
  qed
qed

lemma RecvTask_routes:
  assumes "own U n [] X w s" "recvqueue s = p # q" "bufs s p = Some b" "smap_inv (rooms s)"
    and "unat (get32 (m_ptr b) 0) = k" "8 \<le> k" "(get32 (m_ptr b) 4, st) \<in> set teacher_commands"
  shows "wp (RecvTask_round e) (\<lambda>r t. r = Handled \<and>
     own U (if route is_teacher m_white_fd (rooms s) (m_fd b) = None then Suc n else n) []
       (X @ (case route is_teacher m_white_fd (rooms s) (m_fd b) of None \<Rightarrow> []
             | Some fd \<Rightarrow> [(fd, retype st (bytes_at (m_ptr b) 0 k))])) w t) s"
  by (rule wp_mono [OF RecvTask_routes_queue [OF assms]]) simp

text \<open>A packet in the receive queue whose type is one of the teacher's commands: one round of the
  receiving thread looks up its handler, and when its sender is the teacher of a room the whiteboard of
  that room is sent the same bytes under the corresponding type; from any other sender the
  packet is recycled and nothing is sent.  No buffer is lost and the state of the rooms,
  students and groups is not touched.\<close>

theorem RecvTask_routes_command:
  assumes "own U n [] X w s" "recvqueue s = p # q" "bufs s p = Some b" "smap_inv (rooms s)"
    and "unat (get32 (m_ptr b) 0) = k" "8 \<le> k" "(get32 (m_ptr b) 4, st) \<in> set teacher_commands"
  shows "wp (RecvTask_round e) (\<lambda>r t. r = Handled \<and>
     own U (if route is_teacher m_white_fd (rooms s) (m_fd b) = None then Suc n else n) []
       (X @ (case route is_teacher m_white_fd (rooms s) (m_fd b) of None \<Rightarrow> []
             | Some fd \<Rightarrow> [(fd, retype st (bytes_at (m_ptr b) 0 k))])) w t) s"
  by (rule RecvTask_routes [OF assms])

lemma RecvTask_routes_command_witness:
  "wp (RecvTask_round (sample_env None)) (\<lambda>r t. r = Handled \<and> sent t = [(6, msg 12 ST_Cartoon_Play [1, 2, 3, 4])])
     (sample_recv 5 CT_Cartoon_Play)"
proof -
  have m: "(CT_Cartoon_Play, ST_Cartoon_Play) \<in> set teacher_commands" by (simp add: teacher_commands_def)
  show ?thesis
    by (rule wp_mono [OF RecvTask_routes_command [where k = 12 and st = ST_Cartoon_Play and b = "pkt 5 (msg 12 CT_Cartoon_Play [1, 2, 3, 4])", OF sample_recv_own _ sample_recv_buf]])
      (use m in \<open>auto simp: sample_recv_def sample_simps sample_type srv0_def dest: own_sent\<close>)
qed

section \<open>From the receive queue to the wire\<close>

lemma length_retype: "8 \<le> length bs \<Longrightarrow> length (retype ct bs) = length bs"
  by (simp add: retype_def)

text \<open>The only packet in the send queue, as the sending thread finds it.\<close>

text \<open>End to end: with nothing else waiting to be sent, a teacher's command that is received reaches the
  whiteboard's connection: after one round of the receiving and one of the sending thread exactly
  the bytes of the command, under the whiteboard's type, have been written to the whiteboard's
  descriptor, however the kernel cuts them up; the send queue is empty again and the rooms, students
  and groups are as before.\<close>

theorem command_reaches_whiteboard:
  assumes "own U n [] [] w s" "recvqueue s = p # q" "bufs s p = Some b" "smap_inv (rooms s)"
    and "unat (get32 (m_ptr b) 0) = k" "8 \<le> k" "k \<le> MAX_BUF" "(get32 (m_ptr b) 4, st) \<in> set teacher_commands"
    and "route is_teacher m_white_fd (rooms s) (m_fd b) = Some fd" "fd \<noteq> 0"
    and "\<forall>r \<in> set rs. \<not> hard r" "k \<le> accepted rs"
  shows "wp (sq (RecvTask_round e) (SendTask_round rs err))
    (\<lambda>(out, _) t. out = Some (fd, retype st (bytes_at (m_ptr b) 0 k)) \<and> sendqueue t = [] \<and> world t = w) s"
proof -
  have send: "wp (SendTask_round rs err) (\<lambda>(out, _) t. out = Some (fd, bs) \<and> sendqueue t = [] \<and> world t = w) t"
    if o: "own U n [] [(fd, bs)] w t" and len: "length bs = k" for bs t
  proof -
    obtain p' c where c: "sendqueue t = [p']" "p' \<noteq> NULL" "bufs t p' = Some c" "m_size c = MAX_BUF" "view c = (fd, bs)"
      using own_front [OF o] by blast
    have "m_used c = k" using c(5) len by (auto simp: view_def)
    then obtain rs' e' u where "SendTask_round rs err t = Inr ((Some (view c), rs', e'), u)"
      "sendqueue u = []" "world u = world t"
      using SendTask_run [of t p' "[]" c rs err] c assms(7,10-12) by (auto simp: view_def)
    then show ?thesis using c(5) own_world [OF o] by (simp add: wp_def)
  qed
  have "wp (RecvTask_round e) (\<lambda>r t. own U n [] [(fd, retype st (bytes_at (m_ptr b) 0 k))] w t) s"
    by (rule wp_mono [OF RecvTask_routes [OF assms(1-6,8)]]) (simp add: assms(9))
  then have "wp (RecvTask_round e) (\<lambda>r. wp (SendTask_round rs err)
      (\<lambda>(out, _) t. out = Some (fd, retype st (bytes_at (m_ptr b) 0 k)) \<and> sendqueue t = [] \<and> world t = w)) s"
    by (rule wp_mono) (rule send, simp_all add: length_retype assms(6))
  then show ?thesis unfolding wp_sq .
qed

lemma command_reaches_whiteboard_witness:
  "wp (sq (RecvTask_round (sample_env None)) (SendTask_round [Sent 5, SendErr EAGAIN, Sent 100] 0))
    (\<lambda>(out, _) t. out = Some (6, msg 12 ST_Cartoon_Play [1, 2, 3, 4]) \<and> sendqueue t = []) (sample_recv 5 CT_Cartoon_Play)"
proof -
  have m: "(CT_Cartoon_Play, ST_Cartoon_Play) \<in> set teacher_commands" by (simp add: teacher_commands_def)
  show ?thesis
    by (rule wp_mono [OF command_reaches_whiteboard [where k = 12 and st = ST_Cartoon_Play and fd = 6 and b = "pkt 5 (msg 12 CT_Cartoon_Play [1, 2, 3, 4])", OF sample_recv_own _ sample_recv_buf]])
      (use m in \<open>auto simp: sample_recv_def sample_simps sample_type srv0_def hard_def transient_def MAX_BUF_def\<close>)
qed

section \<open>Packets nobody wants\<close>

text \<open>C36: A packet of a type without a handler is taken from the receive queue and then forgotten: it is neither
  in the pool nor in a queue afterwards, and the pool has not grown, so every such packet
  removes one buffer from the server for good.\<close>

theorem unknown_type_leaks:
  assumes "own U n [] X w s" "recvqueue s = p # q" "bufs s p = Some b" "getHandler (get32 (m_ptr b) 4) = None"
  shows "wp (RecvTask_round e) (\<lambda>r t. r = Handled \<and> p \<notin> set (inflight t) \<and> avail t = avail s \<and>
     length (inflight t) < length (inflight s)) s"
proof -
  obtain c where c: "bufs s p = Some c" "p \<noteq> NULL" "own U n [(p, c)] X w (s\<lparr>recvqueue := q\<rparr>)"
    by (rule own_take_recv [OF assms(1,2)])
  then have o: "own U n [(p, b)] X w (s\<lparr>recvqueue := q\<rparr>)" using assms(3) by simp
  have gone: "p \<notin> set (inflight (s\<lparr>recvqueue := q\<rparr>))" using own_distinct [OF o] by simp
  have "wp (handle_packet e p) (\<lambda>_ t. t = s\<lparr>recvqueue := q\<rparr>) (s\<lparr>recvqueue := q\<rparr>)"
    unfolding handle_packet_def wp_bnd
    apply (rule own_debugProtocol [OF o], simp)
    unfolding head_cType_def
    apply (rule own_rd32 [OF o], simp)
    using assms(4) by (simp_all add: MAX_BUF_def wp_ret)
  then have "wp (handle_packet e p) (\<lambda>_ t. p \<notin> set (inflight t) \<and> avail t = avail s \<and>
     length (inflight t) < length (inflight s)) (s\<lparr>recvqueue := q\<rparr>)"
    by (rule wp_mono) (use gone assms(2) in \<open>simp add: avail_def inflight_def\<close>)
  then show ?thesis
    unfolding RecvTask_round_def wp_simps using assms(2) c(2) by (simp add: QueueT_dequeue_def wp_simps wp_ret [abs_def])
qed

lemma unknown_type_leaks_witness:
  "wp (RecvTask_round (sample_env None)) (\<lambda>r t. r = Handled \<and> 10 \<notin> set (inflight t)) (sample_recv 5 99999)"
proof -
  have "getHandler 99999 = None"
    by (simp add: getHandler_table MSGHANDLE_def cmd_defs)
  then show ?thesis
    by (intro wp_mono [OF unknown_type_leaks [where X = "[]" and b = "pkt 5 (msg 12 99999 [1, 2, 3, 4])", OF sample_recv_own _ sample_recv_buf]])
      (auto simp: sample_recv_def sample_simps sample_type srv0_def)
qed

end
