(* ===== verification/Relay_Spec.thy ===== *)
theory Relay_Spec
  imports Dispatch_Spec
begin

text \<open>
  The server as a relay.  \<open>serve_command\<close> is what the event loop, the receiving thread and the
  sending thread do with one packet from the wire to the wire; \<open>relay\<close> is the abstract server: a table
  lookup for each command, without buffers, queues or pieces.  The theorem is that the threads
  implement it, for command after command.
\<close>

section \<open>One command through the threads\<close>

text \<open>A command as it comes: its sender, the pieces in which the kernel delivers length and rest, and how the
  calls of \<open>send\<close> will answer.\<close>

record command =
  c_from :: int
  c_type :: u32
  c_args :: "byte list"
  c_len_pieces :: "recvres list"
  c_body_pieces :: "recvres list"
  c_answers :: "sendres list"
  c_send_errno :: int
  c_time :: int

definition serve_command :: "env \<Rightarrow> command \<Rightarrow> evl \<Rightarrow> (evl \<times> (int \<times> byte list) option) act" where
  "serve_command e c v =
     bnd (recv_cb (c_from c) (c_time c) (c_len_pieces c @ c_body_pieces c) v) (\<lambda>(v', _).
     sq (RecvTask_round e)
    (bnd (SendTask_round (c_answers c) (c_send_errno c)) (\<lambda>(out, _).
     ret (v', out))))"

fun serve_commands :: "env \<Rightarrow> command list \<Rightarrow> evl \<Rightarrow> (evl \<times> (int \<times> byte list) option list) act" where
  "serve_commands e [] v = ret (v, [])"
| "serve_commands e (c # cs) v =
     bnd (serve_command e c v) (\<lambda>(v', out).
     bnd (serve_commands e cs v') (\<lambda>(v'', outs). ret (v'', out # outs)))"

section \<open>The abstract server\<close>

definition c_length :: "command \<Rightarrow> u32" where
  "c_length c = of_nat (8 + length (c_args c))"

definition relayed_type :: "u32 \<Rightarrow> u32" where
  "relayed_type ct = (case map_of teacher_commands ct of None \<Rightarrow> ct | Some st \<Rightarrow> st)"

definition relay :: "(int, CRoom) smap \<Rightarrow> command \<Rightarrow> (int \<times> byte list) option" where
  "relay rs c = map_option (\<lambda>fd. (fd, msg (c_length c) (relayed_type (c_type c)) (c_args c)))
     (route is_teacher m_white_fd rs (c_from c))"

text \<open>The command arrives complete, is one the teacher may give, and the receiver's socket takes it.\<close>

definition arrives :: "(int, CRoom) smap \<Rightarrow> command \<Rightarrow> bool" where
  "arrives rs c \<longleftrightarrow> 8 + length (c_args c) \<le> MAX_BUF \<and> map_of teacher_commands (c_type c) \<noteq> None \<and>
     (\<forall>x \<in> set (c_len_pieces c @ c_body_pieces c). goes_on x) \<and>
     payload (c_len_pieces c) = le32 (c_length c) \<and> payload (c_body_pieces c) = le32 (c_type c) @ c_args c \<and>
     (\<forall>r \<in> set (c_answers c). \<not> hard r) \<and> 8 + length (c_args c) \<le> accepted (c_answers c) \<and>
     route is_teacher m_white_fd rs (c_from c) \<noteq> Some 0"

text \<open>The threads are at rest: every buffer is in the pool.\<close>

definition quiet :: "ptr multiset \<Rightarrow> nat \<Rightarrow> _ \<Rightarrow> srv \<Rightarrow> bool" where
  "quiet U n w s \<longleftrightarrow> own U (Suc n) [] [] w s \<and> recvqueue s = []"

section \<open>The three rounds\<close>

lemma quiet_queues: "quiet U n w s \<Longrightarrow> sendqueue s = []"
  by (auto simp: quiet_def own_def sent_def)

lemma get32_of_msg:
  assumes "bytes_at m 0 (8 + k) = msg len ct body"
  shows "get32 m 0 = len" "get32 m 4 = ct"
proof -
  have "bytes_at m 0 4 @ bytes_at m 4 4 @ bytes_at m 8 k = le32 len @ le32 ct @ body"
    using assms bytes_at_split [of m 0 4 "4 + k"] bytes_at_split [of m 4 4 k] by (simp add: msg_def)
  then have "bytes_at m 0 4 = le32 len" "bytes_at m 4 4 = le32 ct"
    by (simp_all add: append_eq_append_conv)
  then show "get32 m 0 = len" "get32 m 4 = ct" by (simp_all add: get32_of_bytes_at)
qed

text \<open>A buffer that moves from one queue to another, with new contents.\<close>

lemma unat_c_length:
  assumes "8 + length (c_args c) \<le> MAX_BUF"
  shows "unat (c_length c) = 8 + length (c_args c)"
proof -
  have "unat (of_nat k :: u32) = k" if "k \<le> MAX_BUF" for k
    using that by (simp add: unat_of_nat MAX_BUF_def)
  from this [OF assms] show ?thesis unfolding c_length_def .
qed

text \<open>The event loop puts the packet into the receive queue.\<close>

lemma wp_recv_cb:
  assumes "quiet U n w s" "arrives rs c"
  shows "wp (recv_cb (c_from c) (c_time c) (c_len_pieces c @ c_body_pieces c) v)
    (\<lambda>_ t. \<exists>q b. own U n [] [] w t \<and> recvqueue t = [q] \<and> bufs t q = Some b \<and> m_fd b = c_from c \<and>
       bytes_at (m_ptr b) 0 (8 + length (c_args c)) = msg (c_length c) (c_type c) (c_args c)) s"
proof -
  have o: "own U (Suc n) [] [] w s" "recvqueue s = []" using assms(1) by (simp_all add: quiet_def)
  then obtain q r where q: "pool_queue (bufpool s) = q # r" "n \<le> length r"
    by (cases "pool_queue (bufpool s)") (auto simp: own_def avail_def)
  then have "live_buf s q" using o(1) by (auto simp: own_def held_def bal_def inflight_def)
  then obtain b where b: "q \<noteq> NULL" "bufs s q = Some b" "m_size b = MAX_BUF"
    by (auto simp: live_buf_def split: option.splits)
  have n: "unat (c_length c) = 4 + length (le32 (c_type c) @ c_args c)" "unat (c_length c) \<le> MAX_BUF"
    using assms(2) unat_c_length [of c] by (simp_all add: arrives_def)
  obtain v' rs' t b' where t: "recv_cb (c_from c) (c_time c) (c_len_pieces c @ c_body_pieces c) v s = Inr ((v', rs'), t)"
    "recvqueue t = [q]" "pool_queue (bufpool t) = r" "sendqueue t = sendqueue s" "bufs t q = Some b'" "m_fd b' = c_from c"
    "bytes_at (m_ptr b') 0 (unat (c_length c)) = le32 (c_length c) @ le32 (c_type c) @ c_args c"
    "m_size b' = MAX_BUF" "bufs t = (bufs s)(q \<mapsto> b')" "world t = world s"
    using recv_cb_run [OF q(1) b(1-3) _ _ _ n, of "c_len_pieces c" "c_body_pieces c" "c_from c" "c_time c" v] assms(2) o(2)
    by (auto simp: arrives_def)
  have "own U n [] [] w t"
    by (rule own_moved [OF o(1) _ t(9) _ t(8,10)])
      (use t(2-4) q o(2) quiet_queues [OF assms(1)] in \<open>simp_all add: inflight_def avail_def\<close>)
  then show ?thesis using t n(1) by (auto simp: wp_def msg_def)
qed

text \<open>The sending thread: the packet that waits, if there is one.\<close>

lemma wp_SendTask_one:
  assumes "own U n [] [(fd, bs)] w s" "recvqueue s = []" "fd \<noteq> 0" "length bs \<le> MAX_BUF"
    and "\<forall>r \<in> set rs. \<not> hard r" "length bs \<le> accepted rs"
  shows "wp (SendTask_round rs err) (\<lambda>(out, _) t. out = Some (fd, bs) \<and> quiet U n w t) s"
  by (rule wp_mono [OF own_SendTask_one [OF assms(1,3-6)]]) (use assms(2) in \<open>auto simp: quiet_def dest: own_mono\<close>)

lemma wp_SendTask_none:
  "quiet U n w s \<Longrightarrow> wp (SendTask_round rs err) (\<lambda>(out, _) t. out = None \<and> quiet U n w t) s"
  using quiet_queues [of U n w s] by (simp add: SendTask_round_def QueueT_dequeue_def wp_simps)

section \<open>The threads implement the relay\<close>

lemma wp_serve_command:
  assumes "quiet U n w s" "smap_inv (rooms s)" "arrives (rooms s) c"
  shows "wp (serve_command e c v) (\<lambda>(v', out) t. out = relay (rooms s) c \<and> quiet U n w t) s"
proof -
  define R where "R = route is_teacher m_white_fd (rooms s) (c_from c)"
  define m where "m = msg (c_length c) (relayed_type (c_type c)) (c_args c)"
  have len: "unat (c_length c) = 8 + length (c_args c)" "8 + length (c_args c) \<le> MAX_BUF"
    using assms(3) unat_c_length [of c] by (simp_all add: arrives_def)
  have cmd: "(c_type c, relayed_type (c_type c)) \<in> set teacher_commands"
    using assms(3) by (auto simp: arrives_def relayed_type_def intro: map_of_SomeD)
  have w: "world s = w" using assms(1) own_world unfolding quiet_def by blast
  have send: "wp (SendTask_round (c_answers c) (c_send_errno c)) (\<lambda>(out, _) t. out = relay (rooms s) c \<and> quiet U n w t) t"
    if "own U (if R = None then Suc n else n) [] (case R of None \<Rightarrow> [] | Some fd \<Rightarrow> [(fd, m)]) w t" "recvqueue t = []" for t
  proof (cases R)
    case None
    then show ?thesis using that wp_SendTask_none [of U n w t] by (simp add: quiet_def relay_def R_def [symmetric])
  next
    case (Some fd)
    then show ?thesis
      using that assms(3) len(2) wp_SendTask_one [of U n fd m w t "c_answers c" "c_send_errno c"]
      by (simp add: relay_def R_def [symmetric] m_def arrives_def)
  qed
  have recv: "wp (RecvTask_round e) (\<lambda>_ t. own U (if R = None then Suc n else n) []
      (case R of None \<Rightarrow> [] | Some fd \<Rightarrow> [(fd, m)]) w t \<and> recvqueue t = []) t"
    if t: "own U n [] [] w t" "recvqueue t = [q]" "bufs t q = Some b" "m_fd b = c_from c"
      "bytes_at (m_ptr b) 0 (8 + length (c_args c)) = msg (c_length c) (c_type c) (c_args c)" for t q b
  proof -
    have r: "rooms t = rooms s" using own_world [OF t(1)] w by (auto dest: world_eqs)
    have "get32 (m_ptr b) 0 = c_length c" "get32 (m_ptr b) 4 = c_type c"
      using get32_of_msg [OF t(5)] by simp_all
    then have "wp (RecvTask_round e) (\<lambda>h t'. h = Handled \<and>
        own U (if route is_teacher m_white_fd (rooms t) (m_fd b) = None then Suc n else n) []
          ([] @ (case route is_teacher m_white_fd (rooms t) (m_fd b) of None \<Rightarrow> []
             | Some fd \<Rightarrow> [(fd, retype (relayed_type (c_type c)) (bytes_at (m_ptr b) 0 (8 + length (c_args c))))])) w t'
        \<and> recvqueue t' = []) t"
      using assms(2) len(1) cmd t(2,3) r by (intro RecvTask_routes_queue [OF t(1)]) simp_all
    then show ?thesis
      by (rule wp_mono) (cases R, simp_all add: R_def m_def t(4,5) r)
  qed
  show ?thesis
    unfolding serve_command_def wp_bnd wp_sq
    by (rule wp_mono [OF wp_recv_cb [OF assms(1,3)]])
      (auto simp: wp_bnd wp_sq wp_ret [abs_def] split_beta intro!: wp_mono [OF recv] wp_mono [OF send])
qed

lemma wp_serve_commands:
  "quiet U n w s \<Longrightarrow> smap_inv (rooms s) \<Longrightarrow> \<forall>c \<in> set cs. arrives (rooms s) c \<Longrightarrow>
     wp (serve_commands e cs v) (\<lambda>(v', outs) t. outs = map (relay (rooms s)) cs \<and> quiet U n w t) s"
proof (induction cs arbitrary: v s)
  case Nil
  then show ?case by (simp add: wp_ret)
next
  case (Cons c cs)
  have w: "world s = w" using Cons.prems(1) own_world unfolding quiet_def by blast
  have rest: "wp (serve_commands e cs v') (\<lambda>(v', outs) t. out # outs = map (relay (rooms s)) (c # cs) \<and> quiet U n w t) t"
    if t: "out = relay (rooms s) c" "quiet U n w t" for v' out t
  proof -
    have "rooms t = rooms s" using t(2) own_world w unfolding quiet_def by (blast dest: world_eqs)
    then show ?thesis
      using wp_mono [OF Cons.IH [OF t(2), of v']] Cons.prems(2,3) t(1) by fastforce
  qed
  show ?case
    unfolding serve_commands.simps wp_bnd
    by (rule wp_mono [OF wp_serve_command [OF Cons.prems(1,2)]])
      (use Cons.prems(3) rest in \<open>auto simp: wp_bnd wp_ret [abs_def] case_prod_beta'\<close>)
qed

text \<open>C2: The server is a relay: whatever commands of the forwarded kinds arrive one after the other, from whichever
  clients, cut into whatever pieces by the kernel and taken by the receivers' sockets in whatever pieces,
  the three threads write to the connections exactly what the abstract server \<open>relay\<close> says, in the same order:
  a command from the teacher of a room goes to the whiteboard of that room with its type replaced
  and every other byte unchanged, a command from anybody else goes nowhere.  Afterwards every buffer is in the
  pool again, both queues are empty and rooms, students and groups are as they were, so the
  server can go on for ever.\<close>

theorem server_implements_relay:
  assumes "quiet U n w s" "smap_inv (rooms s)" "\<forall>c \<in> set cs. arrives (rooms s) c"
  shows "wp (serve_commands e cs v) (\<lambda>(v', outs) t. outs = map (relay (rooms s)) cs \<and> quiet U n w t) s"
  by (rule wp_serve_commands [OF assms])

text \<open>Two commands on the sample server: the teacher's, in five pieces, and the same from the whiteboard.\<close>

definition play_from :: "int \<Rightarrow> command" where
  "play_from fd = \<lparr>c_from = fd, c_type = CT_Cartoon_Play, c_args = [1, 2, 3, 4],
     c_len_pieces = [Data [12, 0], RecvErr EAGAIN, Data [0, 0]],
     c_body_pieces = [Data (le32 CT_Cartoon_Play), RecvErr EINTR, Data [1, 2], Data [3, 4]],
     c_answers = [Sent 5, SendErr EAGAIN, Sent 100], c_send_errno = 0, c_time = 99\<rparr>"

lemma sample_quiet: "quiet {#11, 12, 13, 14, 15#} 4 (world (sample_srv 0 0)) (sample_srv 0 0)"
  by (auto simp: quiet_def own_def held_def bal_def inflight_def live_buf_def avail_def sent_def sample_srv_def srv0_def
      blank_def NULL_def count_add_mset)

lemma play_arrives: "fd \<in> {5, 6} \<Longrightarrow> arrives sample_room (play_from fd)"
  by (auto simp: arrives_def play_from_def MAX_BUF_def teacher_commands_def cmd_defs goes_on_def transient_def hard_def
      c_length_def le32_def byte_of_def sample_simps)

lemma server_implements_relay_witness:
  "wp (serve_commands (sample_env None) [play_from 5, play_from 6] evl0)
     (\<lambda>(v', outs) t. outs = [Some (6, msg 12 ST_Cartoon_Play [1, 2, 3, 4]), None]) (sample_srv 0 0)"
proof -
  have "map (relay sample_room) [play_from 5, play_from 6] = [Some (6, msg 12 ST_Cartoon_Play [1, 2, 3, 4]), None]"
    by (simp add: relay_def play_from_def relayed_type_def teacher_commands_def cmd_defs c_length_def sample_simps)
  then show ?thesis
    by (intro wp_mono [OF server_implements_relay [OF sample_quiet]]) (auto simp: sample_rooms play_arrives)
qed

end
