(* ===== verification/Typing.thy ===== *)
theory Typing
  imports Dispatch
begin

text \<open>
  The well-formedness of the running server's state, and the rules that the primitive steps keep
  it.  \<open>wt D F s\<close> says:
  every queued pointer is one of the buffers \<open>D\<close>, and each of these has \<open>MAX_BUF\<close> bytes;
  every map is in strictly increasing key order; no room holds a pointer to a deleted student, and
  no house one to a deleted picture node, and no two entries share an object; an address that has
  not been handed out yet is in no heap.  \<open>F\<close> are the objects the running code has made and not
  yet put anywhere.  No room has a house group: the only calls of \<open>build_house_start\<close> are under
  \<open>#if 0\<close> and in the dead branch of an \<open>#if 1\<close>.
\<close>

section \<open>References between objects\<close>

datatype object = Stu ptr | Nod ptr

text \<open>References \<open>R\<close> from places to addresses: they lead to objects that exist, each object has at
  most one place, and the objects in \<open>A\<close> exist and have none.\<close>

definition linked :: "('i \<times> ptr) set \<Rightarrow> (ptr \<Rightarrow> 'o option) \<Rightarrow> ptr set \<Rightarrow> bool" where
  "linked R heap A \<longleftrightarrow> (\<forall>i p. (i, p) \<in> R \<longrightarrow> heap p \<noteq> None \<and> p \<notin> A)
     \<and> (\<forall>i j p. (i, p) \<in> R \<and> (j, p) \<in> R \<longrightarrow> i = j) \<and> (\<forall>p \<in> A. heap p \<noteq> None)"

lemma linkedI:
  assumes "\<And>i p. (i, p) \<in> R \<Longrightarrow> heap p \<noteq> None" "\<And>i p. (i, p) \<in> R \<Longrightarrow> p \<notin> A"
    "\<And>i j p. (i, p) \<in> R \<Longrightarrow> (j, p) \<in> R \<Longrightarrow> i = j" "\<And>p. p \<in> A \<Longrightarrow> heap p \<noteq> None"
  shows "linked R heap A"
  unfolding linked_def using assms by blast

lemma linkedD:
  assumes "linked R heap A"
  shows "(i, p) \<in> R \<Longrightarrow> heap p \<noteq> None" "(i, p) \<in> R \<Longrightarrow> p \<notin> A"
    "(i, p) \<in> R \<Longrightarrow> (j, p) \<in> R \<Longrightarrow> i = j" "p \<in> A \<Longrightarrow> heap p \<noteq> None"
  using assms unfolding linked_def by blast+

lemma linked_mono:
  assumes "linked R heap A" "R' \<subseteq> R" "A' \<subseteq> A" "\<And>p. (heap' p = None) = (heap p = None)"
  shows "linked R' heap' A'"
  using assms(2,3) by (intro linkedI) (auto simp: assms(4) dest: linkedD [OF assms(1)] simp del: not_None_eq)

lemma linked_new:
  assumes l: "linked R heap A" and a: "heap a = None"
  shows "linked R (heap(a := Some x)) (insert a A)"
proof (rule linkedI)
  show "p \<notin> insert a A" if "(i, p) \<in> R" for i p
    using linkedD(1,2) [OF l that] a by auto
qed (use linkedD [OF l] in auto)

lemma linked_link:
  assumes l: "linked R heap A" and p: "p \<in> A" and R: "R' \<subseteq> insert (i, p) R"
  shows "linked R' heap (A - {p})"
proof (rule linkedI)
  fix j q assume "(j, q) \<in> R'"
  with R have q: "j = i \<and> q = p \<or> (j, q) \<in> R" by auto
  then show "heap q \<noteq> None" using linkedD(1) [OF l, of j q] linkedD(4) [OF l p] by auto
  from q show "q \<notin> A - {p}" using linkedD(2) [OF l, of j q] by auto
next
  fix j k q assume "(j, q) \<in> R'" "(k, q) \<in> R'"
  with R have "j = i \<and> q = p \<or> (j, q) \<in> R" "k = i \<and> q = p \<or> (k, q) \<in> R" by auto
  then show "j = k" using linkedD(2,3) [OF l] p by metis
qed (use linkedD(4) [OF l] in auto)

lemma linked_delete:
  assumes l: "linked R heap A" and p: "(i, p) \<in> R" and R: "R' \<subseteq> R - {(i, p)}"
  shows "linked R' (heap(p := None)) A"
proof (rule linkedI)
  fix j q assume j: "(j, q) \<in> R'"
  with R have q: "(j, q) \<in> R" by auto
  have "q \<noteq> p" using linkedD(3) [OF l q] p R j by auto
  then show "(heap(p := None)) q \<noteq> None" using linkedD(1) [OF l q] by simp
  show "q \<notin> A" using linkedD(2) [OF l q] .
next
  show "\<And>j k q. (j, q) \<in> R' \<Longrightarrow> (k, q) \<in> R' \<Longrightarrow> j = k" using R linkedD(3) [OF l] by blast
  show "\<And>q. q \<in> A \<Longrightarrow> (heap(p := None)) q \<noteq> None"
    using linkedD(2) [OF l p] linkedD(4) [OF l] by auto
qed

definition student_refs :: "srv \<Rightarrow> ((int \<times> int) \<times> ptr) set" where
  "student_refs s = {((i, k), p). p \<noteq> NULL \<and> (\<exists>r. smap_find (rooms s) i = Some r
     \<and> smap_find (m_student_map r) k = Some p)}"

definition node_refs :: "srv \<Rightarrow> ((ptr \<times> int) \<times> ptr) set" where
  "node_refs s = {((g, k), p). p \<noteq> NULL \<and> (\<exists>x. groups s g = Some x
     \<and> smap_find (m_node_map (m_make_house x)) k = Some p)}"

section \<open>The invariant\<close>

definition room_ok :: "CRoom \<Rightarrow> bool" where
  "room_ok r \<longleftrightarrow> smap_inv (m_student_map r) \<and> smap_inv (m_puzzle_map r) \<and> m_buildhouse_groups r = []"

definition group_ok :: "CGroup \<Rightarrow> bool" where
  "group_ok x \<longleftrightarrow> smap_inv (m_node_map (m_make_house x)) \<and> smap_inv (g_student_map x)"

definition wf_bufs :: "ptr set \<Rightarrow> srv \<Rightarrow> bool" where
  "wf_bufs D s \<longleftrightarrow> NULL \<notin> D \<and> (\<forall>p. bufs s p \<noteq> None \<longleftrightarrow> p \<in> D)
     \<and> (\<forall>p b. bufs s p = Some b \<longrightarrow> m_size b = MAX_BUF) \<and> set (inflight s) \<subseteq> D"

definition wf_maps :: "srv \<Rightarrow> bool" where
  "wf_maps s \<longleftrightarrow> smap_inv (rooms s) \<and> (\<forall>i r. smap_find (rooms s) i = Some r \<longrightarrow> room_ok r)
     \<and> (\<forall>g x. groups s g = Some x \<longrightarrow> group_ok x) \<and> groups s TEST_GROUP \<noteq> None"

definition wf_fresh :: "srv \<Rightarrow> bool" where
  "wf_fresh s \<longleftrightarrow> NULL < next_addr s \<and> (\<forall>a. a = NULL \<or> next_addr s \<le> a \<longrightarrow>
     students s a = None \<and> nodes s a = None \<and> groups s a = None \<and> puzzles s a = None)"

definition Stus :: "object set \<Rightarrow> ptr set" where "Stus F = {p. Stu p \<in> F}"
definition Nods :: "object set \<Rightarrow> ptr set" where "Nods F = {p. Nod p \<in> F}"

lemma Stus_simps [simp]: "Stus (insert (Stu a) F) = insert a (Stus F)" "Stus (insert (Nod a) F) = Stus F"
  "Stus (F - {Stu a}) = Stus F - {a}" "Stus (F - {Nod a}) = Stus F" "p \<in> Stus F \<longleftrightarrow> Stu p \<in> F"
  by (auto simp: Stus_def)

lemma Nods_simps [simp]: "Nods (insert (Nod a) F) = insert a (Nods F)" "Nods (insert (Stu a) F) = Nods F"
  "Nods (F - {Nod a}) = Nods F - {a}" "Nods (F - {Stu a}) = Nods F" "p \<in> Nods F \<longleftrightarrow> Nod p \<in> F"
  by (auto simp: Nods_def)

definition wf_objs :: "object set \<Rightarrow> srv \<Rightarrow> bool" where
  "wf_objs F s \<longleftrightarrow> wf_maps s \<and> wf_fresh s \<and> linked (student_refs s) (students s) (Stus F)
     \<and> linked (node_refs s) (nodes s) (Nods F)"

definition wt :: "ptr set \<Rightarrow> object set \<Rightarrow> srv \<Rightarrow> bool" where
  "wt D F s \<longleftrightarrow> wf_bufs D s \<and> wf_objs F s"

lemma wf_objs_world: "world s = world t \<Longrightarrow> wf_objs F s = wf_objs F t"
  by (drule world_eqs) (simp add: wf_objs_def wf_maps_def wf_fresh_def student_refs_def node_refs_def)

lemma wf_bufs_cong:
  "bufs s = bufs t \<Longrightarrow> bufpool s = bufpool t \<Longrightarrow> recvqueue s = recvqueue t \<Longrightarrow> sendqueue s = sendqueue t
   \<Longrightarrow> wf_bufs D s = wf_bufs D t"
  by (simp add: wf_bufs_def inflight_def)

lemma wt_drop: "wt D F' s \<Longrightarrow> F \<subseteq> F' \<Longrightarrow> wt D F s"
  unfolding wt_def wf_objs_def by (elim conjE, intro conjI; (assumption | rule linked_mono)?) (auto simp: Stus_def Nods_def)

lemma wt_forget: "wt D F s \<Longrightarrow> wt D {} s"
  by (erule wt_drop) simp

lemma linked_alive: "linked R heap A \<Longrightarrow> (i, p) \<in> R \<Longrightarrow> \<exists>x. heap p = Some x"
  using linkedD(1) by fastforce

lemma wt_alive: "wt D F s \<Longrightarrow> smap_find (rooms s) i = Some r \<Longrightarrow> smap_find (m_student_map r) k = Some p
    \<Longrightarrow> p \<noteq> NULL \<Longrightarrow> \<exists>x. students s p = Some x"
  unfolding wt_def wf_objs_def by (elim conjE, rule linked_alive, assumption) (auto simp: student_refs_def)

lemma wt_node_alive: "wt D F s \<Longrightarrow> groups s g = Some x \<Longrightarrow> smap_find (m_node_map (m_make_house x)) k = Some p
    \<Longrightarrow> p \<noteq> NULL \<Longrightarrow> \<exists>n. nodes s p = Some n"
  unfolding wt_def wf_objs_def
  by (elim conjE, rule linked_alive [of "node_refs s"], assumption) (auto simp: node_refs_def)

lemma wt_no_groups: "wt D F s \<Longrightarrow> smap_find (rooms s) i = Some r \<Longrightarrow> m_buildhouse_groups r = []"
  by (auto simp: wt_def wf_objs_def wf_maps_def room_ok_def)

lemma wt_queued: "wt D F s \<Longrightarrow> p \<in> set (inflight s) \<Longrightarrow> live_buf s p"
  by (auto simp: wt_def wf_bufs_def live_buf_def split: option.splits)

section \<open>Buffer steps\<close>

text \<open>These leave everything but the buffers as it is.\<close>

lemma wt_set_buf: "wt D F s \<Longrightarrow> p \<in> D \<Longrightarrow> m_size b = MAX_BUF \<Longrightarrow> wt D F (set_buf p b s)"
  using wf_objs_world [OF world_set_buf, of F p b s]
  by (auto simp: wt_def wf_bufs_def inflight_def) (auto simp: set_buf_def split: if_splits)

lemma wlp_deref [wlp_simps]:
  "wlp (deref heap p) Q s = (p \<noteq> NULL \<longrightarrow> (\<forall>x. heap s p = Some x \<longrightarrow> Q x s))"
  by (auto simp: wlp_def deref_def split: option.split)

lemma wlp_deref_room [wlp_simps]:
  "wlp (deref_room rp) Q s
   = (\<forall>i r. rp = Some i \<longrightarrow> smap_find (rooms s) i = Some r \<longrightarrow> Q r s)"
  by (auto simp: wlp_def deref_room_def split: option.split)

lemma wt_held: "wt D F s \<Longrightarrow> bufs s p = Some b \<Longrightarrow> p \<in> D \<and> m_size b = MAX_BUF"
  by (auto simp: wt_def wf_bufs_def)

lemma wlp_rd32 [wlp_intros]:
  "wt D F s \<Longrightarrow> (\<And>v. p \<in> D \<Longrightarrow> Q v s) \<Longrightarrow> wlp (rd32 p a) Q s"
  by (auto simp: rd32_def wlp_simps dest: wt_held)

lemma wlp_rd64 [wlp_intros]:
  "wt D F s \<Longrightarrow> (\<And>v. p \<in> D \<Longrightarrow> Q v s) \<Longrightarrow> wlp (rd64 p a) Q s"
  by (auto simp: rd64_def wlp_simps dest: wt_held)

lemma wlp_rd16 [wlp_intros]:
  "wt D F s \<Longrightarrow> (\<And>v. p \<in> D \<Longrightarrow> Q v s) \<Longrightarrow> wlp (rd16 p a) Q s"
  by (auto simp: rd16_def wlp_simps dest: wt_held)

lemma wlp_rd_cstr [wlp_intros]:
  "wt D F s \<Longrightarrow> (\<And>v. p \<in> D \<Longrightarrow> Q v s) \<Longrightarrow> wlp (rd_cstr p a e) Q s"
  by (auto simp: rd_cstr_def wlp_simps dest: wt_held)

lemma wlp_rd_bytes [wlp_intros]:
  "wt D F s \<Longrightarrow> (\<And>v. p \<in> D \<Longrightarrow> Q v s) \<Longrightarrow> wlp (rd_bytes p a n) Q s"
  by (auto simp: rd_bytes_def wlp_simps dest: wt_held)

lemma wlp_get_fd [wlp_intros]:
  "wt D F s \<Longrightarrow> (\<And>v. p \<in> D \<Longrightarrow> Q v s) \<Longrightarrow> wlp (get_fd p) Q s"
  by (auto simp: get_fd_def wlp_simps dest: wt_held)

lemma wlp_get_size [wlp_intros]:
  "wt D F s \<Longrightarrow> (\<And>v. p \<in> D \<Longrightarrow> Q v s) \<Longrightarrow> wlp (get_size p) Q s"
  by (auto simp: get_size_def wlp_simps dest: wt_held)

text \<open>Whatever a step writes into a buffer, the buffer keeps its size.\<close>

lemma wlp_write:
  assumes "wt D F s" "\<And>b. m_size (f b) = m_size b"
    "\<And>t. p \<in> D \<Longrightarrow> wt D F t \<Longrightarrow> world t = world s \<Longrightarrow> Q () t"
  shows "wlp (bnd (deref bufs p) (\<lambda>b. sq (check (c b) OutOfBounds) (modify (set_buf p (f b))))) Q s"
  using assms by (auto simp: wlp_simps intro!: assms(3) wt_set_buf dest: wt_held)

lemmas wlp_write_pre = wlp_write [where f = "\<lambda>b. b\<lparr>m_ptr := h b\<rparr>" for h]

lemma wlp_wr32 [wlp_intros]:
  "wt D F s \<Longrightarrow> (\<And>t. p \<in> D \<Longrightarrow> wt D F t \<Longrightarrow> world t = world s \<Longrightarrow> Q () t) \<Longrightarrow> wlp (wr32 p a v) Q s"
  unfolding wr32_def by (rule wlp_write_pre) simp_all

lemma wlp_wr64 [wlp_intros]:
  "wt D F s \<Longrightarrow> (\<And>t. p \<in> D \<Longrightarrow> wt D F t \<Longrightarrow> world t = world s \<Longrightarrow> Q () t) \<Longrightarrow> wlp (wr64 p a v) Q s"
  unfolding wr64_def by (rule wlp_write_pre) simp_all

lemma wlp_wr_bytes [wlp_intros]:
  "wt D F s \<Longrightarrow> (\<And>t. p \<in> D \<Longrightarrow> wt D F t \<Longrightarrow> world t = world s \<Longrightarrow> Q () t) \<Longrightarrow> wlp (wr_bytes p a bs) Q s"
  unfolding wr_bytes_def by (rule wlp_write_pre) simp_all

lemma wlp_memcpy_buf [wlp_intros]:
  assumes "wt D F s" "\<And>t. p \<in> D \<Longrightarrow> wt D F t \<Longrightarrow> world t = world s \<Longrightarrow> Q () t"
  shows "wlp (memcpy_buf p a q c n) Q s"
  using assms(1) by (auto simp: memcpy_buf_def wlp_simps intro!: assms(2) wt_set_buf dest: wt_held)

lemma wlp_upd_buf:
  assumes "wt D F s" "\<And>b. m_size (f b) = m_size b"
    "\<And>t. p \<in> D \<Longrightarrow> wt D F t \<Longrightarrow> world t = world s \<Longrightarrow> Q () t"
  shows "wlp (upd_buf p f) Q s"
  using assms by (auto simp: upd_buf_def wlp_simps intro!: assms(3) wt_set_buf dest: wt_held)

lemma wlp_set_fd [wlp_intros]:
  "wt D F s \<Longrightarrow> (\<And>t. p \<in> D \<Longrightarrow> wt D F t \<Longrightarrow> world t = world s \<Longrightarrow> Q () t) \<Longrightarrow> wlp (set_fd p fd) Q s"
  unfolding set_fd_def by (rule wlp_upd_buf) (simp_all add: Buf_setfd_def)

lemma wlp_set_size [wlp_intros]:
  "wt D F s \<Longrightarrow> (\<And>t. p \<in> D \<Longrightarrow> wt D F t \<Longrightarrow> world t = world s \<Longrightarrow> Q () t) \<Longrightarrow> wlp (set_size p n) Q s"
  unfolding set_size_def by (rule wlp_upd_buf) (simp_all add: Buf_setsize_def)

lemma wlp_buf_reset [wlp_intros]:
  "wt D F s \<Longrightarrow> (\<And>t. p \<in> D \<Longrightarrow> wt D F t \<Longrightarrow> world t = world s \<Longrightarrow> Q () t) \<Longrightarrow> wlp (buf_reset p) Q s"
  unfolding buf_reset_def by (rule wlp_upd_buf) (simp_all add: Buf_reset_def)

lemma wlp_set_cLen [wlp_intros]:
  "wt D F s \<Longrightarrow> (\<And>t. p \<in> D \<Longrightarrow> wt D F t \<Longrightarrow> world t = world s \<Longrightarrow> Q () t) \<Longrightarrow> wlp (set_cLen p v) Q s"
  unfolding set_cLen_def by (rule wlp_wr32)

lemma wlp_set_cType [wlp_intros]:
  "wt D F s \<Longrightarrow> (\<And>t. p \<in> D \<Longrightarrow> wt D F t \<Longrightarrow> world t = world s \<Longrightarrow> Q () t) \<Longrightarrow> wlp (set_cType p v) Q s"
  unfolding set_cType_def by (rule wlp_wr32)

lemma wlp_head_cLen [wlp_intros]:
  "wt D F s \<Longrightarrow> (\<And>v. p \<in> D \<Longrightarrow> Q v s) \<Longrightarrow> wlp (head_cLen p) Q s"
  unfolding head_cLen_def by (rule wlp_rd32)

lemma wlp_head_cType [wlp_intros]:
  "wt D F s \<Longrightarrow> (\<And>v. p \<in> D \<Longrightarrow> Q v s) \<Longrightarrow> wlp (head_cType p) Q s"
  unfolding head_cType_def by (rule wlp_rd32)

lemma wlp_debugProtocol [wlp_intros]:
  assumes "wt D F s" "p \<in> D" "\<And>v. Q v s"
  shows "wlp (debugProtocol p) Q s"
proof -
  obtain b where "bufs s p = Some b" "p \<noteq> NULL" "m_size b = MAX_BUF"
    using assms(1,2) by (fastforce simp: wt_def wf_bufs_def)
  from debugProtocol_runs [OF this] show ?thesis using assms(3) by (auto simp: wlp_def)
qed

text \<open>The pool and the queues.\<close>

lemma wt_queues:
  assumes "wt D F s" "bufs t = bufs s" "world t = world s" "set (inflight t) \<subseteq> D"
  shows "wt D F t"
  using assms wf_objs_world [OF assms(3), of F] by (auto simp: wt_def wf_bufs_def)

lemma wlp_pool_malloc [wlp_intros]:
  assumes "wt D F s" "Q NULL s"
    "\<And>p t. p \<in> D \<Longrightarrow> p \<noteq> NULL \<Longrightarrow> wt D F t \<Longrightarrow> world t = world s \<Longrightarrow> Q p t"
  shows "wlp pool_malloc Q s"
proof (cases "pool_queue (bufpool s)")
  case Nil
  then show ?thesis using assms(2) by (simp add: wlp_def pool_malloc_def PoolT_malloc_def)
next
  case (Cons p ps)
  let ?t = "s\<lparr>bufpool := (bufpool s)\<lparr>pool_queue := ps\<rparr>\<rparr>"
  have i: "set (inflight s) \<subseteq> D" and N: "NULL \<notin> D" using assms(1) by (auto simp: wt_def wf_bufs_def)
  have "wt D F ?t" using i by (intro wt_queues [OF assms(1)]) (auto simp: world_def inflight_def Cons)
  moreover have "p \<in> D" using i by (auto simp: inflight_def Cons)
  ultimately have "Q p ?t" using N by (intro assms(3)) (auto simp: world_def)
  then show ?thesis by (simp add: wlp_def pool_malloc_def PoolT_malloc_def Cons)
qed

lemma wlp_pool_free [wlp_intros]:
  assumes "wt D F s" "p \<in> D" "\<And>t. wt D F t \<Longrightarrow> world t = world s \<Longrightarrow> Q () t"
  shows "wlp (pool_free p) Q s"
  unfolding pool_free_def wlp_simps
  by (rule assms(3), rule wt_queues [OF assms(1)], insert assms(1,2))
     (auto simp: world_def inflight_def pt.items_enq wt_def wf_bufs_def)

lemma wlp_send_enqueue [wlp_intros]:
  assumes "wt D F s" "p \<in> D" "\<And>t. wt D F t \<Longrightarrow> world t = world s \<Longrightarrow> Q () t"
  shows "wlp (send_enqueue p) Q s"
  unfolding send_enqueue_def wlp_simps
  by (rule assms(3), rule wt_queues [OF assms(1)], insert assms(1,2))
     (auto simp: world_def inflight_def qt.items_enq wt_def wf_bufs_def)

lemma wlp_recv_enqueue [wlp_intros]:
  assumes "wt D F s" "p \<in> D" "\<And>t. wt D F t \<Longrightarrow> world t = world s \<Longrightarrow> Q () t"
  shows "wlp (recv_enqueue p) Q s"
  unfolding recv_enqueue_def wlp_simps
  by (rule assms(3), rule wt_queues [OF assms(1)], insert assms(1,2))
     (auto simp: world_def inflight_def qt.items_enq wt_def wf_bufs_def)

section \<open>Object steps\<close>

text \<open>What has to be shown for a step that leaves the buffers alone.\<close>

lemma wt_step:
  assumes "wt D F s" "bufs t = bufs s" "inflight t = inflight s"
    "wf_maps s \<Longrightarrow> wf_maps t" "wf_fresh s \<Longrightarrow> wf_fresh t"
    "linked (student_refs s) (students s) (Stus F) \<Longrightarrow> linked (student_refs t) (students t) (Stus F')"
    "linked (node_refs s) (nodes s) (Nods F) \<Longrightarrow> linked (node_refs t) (nodes t) (Nods F')"
  shows "wt D F' t"
  using assms by (simp add: wt_def wf_bufs_def wf_objs_def)

lemmas refs_defs = student_refs_def node_refs_def

text \<open>An object is replaced by another: every reference stays good.\<close>

lemma wt_set_student:
  assumes "wt D F s" "students s p = Some x" shows "wt D F (set_student p (Some y) s)"
  by (rule wt_step [OF assms(1)])
     (use assms(2) in \<open>auto simp: set_student_def inflight_def wf_maps_def wf_fresh_def refs_defs elim!: linked_mono split: if_splits\<close>)

lemma wt_set_node:
  assumes "wt D F s" "nodes s p = Some x" shows "wt D F (set_node p (Some y) s)"
  by (rule wt_step [OF assms(1)])
     (use assms(2) in \<open>auto simp: set_node_def inflight_def wf_maps_def wf_fresh_def refs_defs elim!: linked_mono split: if_splits\<close>)

lemma wt_set_puzzle:
  assumes "wt D F s" "puzzles s p = Some x" shows "wt D F (set_puzzle p (Some y) s)"
  by (rule wt_step [OF assms(1)])
     (use assms(2) in \<open>auto simp: set_puzzle_def inflight_def wf_maps_def wf_fresh_def refs_defs\<close>)

lemma wt_test_white_fd: "wt D F s \<Longrightarrow> wt D F (s\<lparr>test_white_fd := fd\<rparr>)"
  by (erule wt_step) (auto simp: inflight_def wf_maps_def wf_fresh_def refs_defs)

lemma wt_next_addr: "wt D F s \<Longrightarrow> wt D F (s\<lparr>next_addr := next_addr s + 1\<rparr>)"
  by (erule wt_step) (auto simp: inflight_def wf_maps_def wf_fresh_def refs_defs)

lemma wlp_upd_student [wlp_intros]:
  "wt D F s \<Longrightarrow> (\<And>t. wt D F t \<Longrightarrow> Q () t) \<Longrightarrow> wlp (upd_student p f) Q s"
  by (auto simp: upd_student_def wlp_simps intro: wt_set_student)

lemma wlp_upd_node [wlp_intros]:
  "wt D F s \<Longrightarrow> (\<And>t. wt D F t \<Longrightarrow> Q () t) \<Longrightarrow> wlp (upd_node p f) Q s"
  by (auto simp: upd_node_def wlp_simps intro: wt_set_node)

lemma wlp_upd_puzzle [wlp_intros]:
  "wt D F s \<Longrightarrow> (\<And>t. wt D F t \<Longrightarrow> Q () t) \<Longrightarrow> wlp (upd_puzzle p f) Q s"
  by (auto simp: upd_puzzle_def wlp_simps intro: wt_set_puzzle)

lemma wlp_new_addr [wlp_intros]:
  "wt D F s \<Longrightarrow> (\<And>a t. wt D F t \<Longrightarrow> Q a t) \<Longrightarrow> wlp new_addr Q s"
  using wt_next_addr [of D F s] by (simp add: new_addr_def wlp_def)

text \<open>A group changes: its maps stay sorted, and its house gets no new node.\<close>

lemma wt_group_ok: "wt D F s \<Longrightarrow> groups s g = Some x \<Longrightarrow> group_ok x"
  by (auto simp: wt_def wf_objs_def wf_maps_def)

lemma wf_set_group:
  "groups s g = Some x \<Longrightarrow> group_ok y \<Longrightarrow> wf_maps s \<Longrightarrow> wf_maps (set_group g (Some y) s)"
  "groups s g = Some x \<Longrightarrow> wf_fresh s \<Longrightarrow> wf_fresh (set_group g (Some y) s)"
  by (auto simp: wf_maps_def wf_fresh_def set_group_def)

lemma wt_set_group:
  assumes "wt D F s" "groups s g = Some x" "group_ok y"
    "\<And>k p. p \<noteq> NULL \<Longrightarrow> smap_find (m_node_map (m_make_house y)) k = Some p
       \<Longrightarrow> smap_find (m_node_map (m_make_house x)) k = Some p"
  shows "wt D F (set_group g (Some y) s)"
proof (rule wt_step [OF assms(1)])
  have "node_refs (set_group g (Some y) s) \<subseteq> node_refs s"
    using assms(2,4) by (auto simp: node_refs_def set_group_def split: if_splits)
  then show "linked (node_refs s) (nodes s) (Nods F) \<Longrightarrow>
      linked (node_refs (set_group g (Some y) s)) (nodes (set_group g (Some y) s)) (Nods F)"
    by - (rule linked_mono [of "node_refs s" "nodes s" "Nods F"], simp_all add: set_group_def)
qed (use wf_set_group [OF assms(2)] assms(3) in \<open>simp_all add: set_group_def inflight_def student_refs_def\<close>)

lemma wlp_upd_group [wlp_intros]:
  assumes "wt D F s" "\<And>x. group_ok x \<Longrightarrow> group_ok (f x)"
    "\<And>x k p. group_ok x \<Longrightarrow> p \<noteq> NULL \<Longrightarrow> smap_find (m_node_map (m_make_house (f x))) k = Some p
       \<Longrightarrow> smap_find (m_node_map (m_make_house x)) k = Some p"
    "\<And>t. wt D F t \<Longrightarrow> Q () t"
  shows "wlp (upd_group g f) Q s"
  using assms(2,3) wt_group_ok [OF assms(1)]
  by (simp add: upd_group_def wlp_simps) (blast intro: assms(4) wt_set_group [OF assms(1)])

text \<open>A room changes: the same for its maps and its students.\<close>

lemma wt_room_ok: "wt D F s \<Longrightarrow> smap_find (rooms s) i = Some r \<Longrightarrow> room_ok r"
  by (auto simp: wt_def wf_objs_def wf_maps_def)

lemma wf_set_room:
  "room_ok r \<Longrightarrow> wf_maps s \<Longrightarrow> wf_maps (set_room i r s)" "wf_fresh s \<Longrightarrow> wf_fresh (set_room i r s)"
  by (auto simp: wf_maps_def wf_fresh_def set_room_def find_smap_set split: if_splits)

lemma wt_set_room:
  assumes "wt D F s" "smap_find (rooms s) i = Some r" "room_ok r'"
    "\<And>k p. p \<noteq> NULL \<Longrightarrow> smap_find (m_student_map r') k = Some p \<Longrightarrow> smap_find (m_student_map r) k = Some p"
  shows "wt D F (set_room i r' s)"
proof (rule wt_step [OF assms(1)])
  have "student_refs (set_room i r' s) \<subseteq> student_refs s"
    using assms(2,4) by (auto simp: student_refs_def set_room_def find_smap_set split: if_splits)
  then show "linked (student_refs s) (students s) (Stus F) \<Longrightarrow>
      linked (student_refs (set_room i r' s)) (students (set_room i r' s)) (Stus F)"
    by - (rule linked_mono [of "student_refs s" "students s" "Stus F"], simp_all add: set_room_def)
qed (use wf_set_room(1) [OF assms(3)] wf_set_room(2) in \<open>simp_all add: set_room_def inflight_def node_refs_def\<close>)

lemma wlp_upd_room [wlp_intros]:
  assumes "wt D F s" "\<And>r. room_ok r \<Longrightarrow> room_ok (f r)"
    "\<And>r k p. room_ok r \<Longrightarrow> p \<noteq> NULL \<Longrightarrow> smap_find (m_student_map (f r)) k = Some p
       \<Longrightarrow> smap_find (m_student_map r) k = Some p"
    "\<And>t. wt D F t \<Longrightarrow> Q () t"
  shows "wlp (upd_room rp f) Q s"
  using assms(2,3) wt_room_ok [OF assms(1)]
  by (cases rp) (simp_all add: upd_room_def wlp_simps, blast intro: assms(4) wt_set_room [OF assms(1)])

section \<open>Making, placing and deleting objects\<close>

lemma wlp_new_obj:
  assumes "\<And>a t. a \<noteq> NULL \<Longrightarrow> a = next_addr s
      \<Longrightarrow> t = put a (Some (mk (fresh_mem s a))) (s\<lparr>next_addr := next_addr s + 1\<rparr>) \<Longrightarrow> Q a t"
    and "wt D F s"
  shows "wlp (new_obj put mk) Q s"
proof -
  have "next_addr s \<noteq> NULL" using assms(2) by (auto simp: wt_def wf_objs_def wf_fresh_def)
  then show ?thesis
    using assms(1) by (simp add: new_obj_def new_addr_def bnd_def sq_def modify_def ret_def wlp_def)
qed

lemma wt_unused: "wt D F s \<Longrightarrow> students s (next_addr s) = None \<and> nodes s (next_addr s) = None"
  by (auto simp: wt_def wf_objs_def wf_fresh_def)

lemma wlp_new_student [wlp_intros]:
  assumes "wt D F s" "\<And>a t. wt D (insert (Stu a) F) t \<Longrightarrow> a \<noteq> NULL \<Longrightarrow> Q a t"
  shows "wlp (new_obj set_student mk) Q s"
proof (rule wlp_new_obj [OF _ assms(1)])
  fix a t assume a: "a \<noteq> NULL" "a = next_addr s"
    and t: "t = set_student a (Some (mk (fresh_mem s a))) (s\<lparr>next_addr := next_addr s + 1\<rparr>)"
  have "wt D (insert (Stu a) F) t" unfolding t
    by (rule wt_step [OF assms(1)])
       (use a wt_unused [OF assms(1)] in \<open>auto simp: set_student_def inflight_def wf_maps_def wf_fresh_def
          refs_defs intro: linked_new\<close>)
  then show "Q a t" using a(1) by (rule assms(2))
qed

lemma wlp_new_node [wlp_intros]:
  assumes "wt D F s" "\<And>a t. wt D (insert (Nod a) F) t \<Longrightarrow> a \<noteq> NULL \<Longrightarrow> Q a t"
  shows "wlp (new_obj set_node mk) Q s"
proof (rule wlp_new_obj [OF _ assms(1)])
  fix a t assume a: "a \<noteq> NULL" "a = next_addr s"
    and t: "t = set_node a (Some (mk (fresh_mem s a))) (s\<lparr>next_addr := next_addr s + 1\<rparr>)"
  have "wt D (insert (Nod a) F) t" unfolding t
    by (rule wt_step [OF assms(1)])
       (use a wt_unused [OF assms(1)] in \<open>auto simp: set_node_def inflight_def wf_maps_def wf_fresh_def
          refs_defs intro: linked_new\<close>)
  then show "Q a t" using a(1) by (rule assms(2))
qed

lemma wlp_new_puzzle [wlp_intros]:
  assumes "wt D F s" "\<And>a t. wt D F t \<Longrightarrow> a \<noteq> NULL \<Longrightarrow> Q a t"
  shows "wlp (new_obj set_puzzle mk) Q s"
proof (rule wlp_new_obj [OF _ assms(1)])
  fix a t assume a: "a \<noteq> NULL" "a = next_addr s"
    and t: "t = set_puzzle a (Some (mk (fresh_mem s a))) (s\<lparr>next_addr := next_addr s + 1\<rparr>)"
  have "wt D F t" unfolding t
    by (rule wt_step [OF assms(1)])
       (use a in \<open>auto simp: set_puzzle_def inflight_def wf_maps_def wf_fresh_def refs_defs\<close>)
  then show "Q a t" using a(1) by (rule assms(2))
qed

text \<open>A new student is put into a room, a new node into a house.\<close>

lemma wt_place_student:
  assumes "wt D F s" "Stu p \<in> F" "smap_find (rooms s) i = Some r"
  shows "wt D (F - {Stu p}) (set_room i (r\<lparr>m_student_map := smap_insert k p (m_student_map r)\<rparr>) s)"
    (is "wt D _ ?t")
proof (rule wt_step [OF assms(1)])
  have ok: "room_ok r" using wt_room_ok [OF assms(1,3)] .
  have R: "student_refs ?t \<subseteq> insert ((i, k), p) (student_refs s)"
    using assms(3) ok by (auto simp: student_refs_def set_room_def find_smap_set find_smap_insert room_ok_def
        split: if_splits option.splits)
  show "linked (student_refs s) (students s) (Stus F) \<Longrightarrow> linked (student_refs ?t) (students ?t) (Stus (F - {Stu p}))"
    using linked_link [OF _ _ R, of "students s" "Stus F"] assms(2) by (simp add: set_room_def)
  show "wf_maps s \<Longrightarrow> wf_maps ?t"
    by (rule wf_set_room) (use ok in \<open>auto simp: room_ok_def\<close>)
qed (auto simp: set_room_def inflight_def wf_fresh_def node_refs_def)

lemma wlp_place_student:
  assumes "wt D F s" "Stu p \<in> F" "\<And>t. wt D (F - {Stu p}) t \<Longrightarrow> Q () t"
  shows "wlp (upd_room rp (\<lambda>r. r\<lparr>m_student_map := smap_insert k p (m_student_map r)\<rparr>)) Q s"
  by (cases rp) (auto simp: upd_room_def wlp_simps intro!: assms(3) wt_place_student [OF assms(1,2)])

lemma wt_place_node:
  assumes "wt D F s" "Nod p \<in> F" "groups s g = Some x"
  shows "wt D (F - {Nod p}) (set_group g (Some (x\<lparr>m_make_house :=
      (m_make_house x)\<lparr>m_node_map := smap_insert k p (m_node_map (m_make_house x))\<rparr>\<rparr>)) s)"
    (is "wt D _ ?t")
proof (rule wt_step [OF assms(1)])
  have ok: "group_ok x" using wt_group_ok [OF assms(1,3)] .
  have R: "node_refs ?t \<subseteq> insert ((g, k), p) (node_refs s)"
    using assms(3) ok by (auto simp: node_refs_def set_group_def find_smap_insert group_ok_def
        split: if_splits option.splits)
  show "linked (node_refs s) (nodes s) (Nods F) \<Longrightarrow> linked (node_refs ?t) (nodes ?t) (Nods (F - {Nod p}))"
    using linked_link [OF _ _ R, of "nodes s" "Nods F"] assms(2) by (simp add: set_group_def)
  show "wf_maps s \<Longrightarrow> wf_maps ?t"
    by (rule wf_set_group [OF assms(3)]) (use ok in \<open>auto simp: group_ok_def\<close>)
  show "wf_fresh s \<Longrightarrow> wf_fresh ?t" by (rule wf_set_group [OF assms(3)])
qed (auto simp: set_group_def inflight_def student_refs_def)

lemma wlp_place_node:
  assumes "wt D F s" "Nod p \<in> F" "\<And>t. wt D (F - {Nod p}) t \<Longrightarrow> Q () t"
  shows "wlp (upd_house g (\<lambda>h. h\<lparr>m_node_map := smap_insert k p (m_node_map h)\<rparr>)) Q s"
  by (auto simp: upd_house_def upd_group_def wlp_simps intro!: assms(3) wt_place_node [OF assms(1,2)])

text \<open>A student leaves the room in the two steps of the source: the object first, then the entry;
  a node leaves the house in the same way.\<close>

lemma wlp_erase_student [wlp_intros]:
  "wt D F s \<Longrightarrow> (\<And>t. wt D F t \<Longrightarrow> Q () t)
   \<Longrightarrow> wlp (upd_room rp (\<lambda>r. r\<lparr>m_student_map := smap_erase k (m_student_map r)\<rparr>)) Q s"
  by (erule wlp_upd_room) (auto simp: room_ok_def find_smap_erase split: if_splits)

lemma wlp_drop_student:
  assumes "wt D F s" "smap_find (rooms s) i = Some r" "smap_find (m_student_map r) k = Some p"
  and Q: "\<And>t. wt D F t \<Longrightarrow> Q () t"
  shows "wlp (delete_obj students set_student p) (\<lambda>_. wlp (upd_room (Some i) (\<lambda>r. r\<lparr>m_student_map := smap_erase k (m_student_map r)\<rparr>)) Q) s"
proof (cases "p = NULL")
  case True
  then show ?thesis by (auto simp: delete_obj_def wlp_simps intro!: wlp_erase_student [OF assms(1)] Q)
next
  case False
  let ?t = "set_room i (r\<lparr>m_student_map := smap_erase k (m_student_map r)\<rparr>) (set_student p None s)"
  have ok: "room_ok r" using wt_room_ok [OF assms(1,2)] .
  have "wt D F ?t"
  proof (rule wt_step [OF assms(1)])
    have R: "student_refs ?t \<subseteq> student_refs s - {((i, k), p)}"
      using assms(2) ok by (auto simp: student_refs_def set_room_def set_student_def find_smap_set find_smap_erase
          room_ok_def split: if_splits)
    have p: "((i, k), p) \<in> student_refs s" using assms(2,3) False by (auto simp: student_refs_def)
    show "linked (student_refs s) (students s) (Stus F) \<Longrightarrow> linked (student_refs ?t) (students ?t) (Stus F)"
      using linked_delete [OF _ p R, of "students s" "Stus F"] by (simp add: set_room_def set_student_def)
    show "wf_maps s \<Longrightarrow> wf_maps ?t"
      using ok by (auto simp: wf_maps_def set_room_def set_student_def find_smap_set room_ok_def split: if_splits)
  qed (auto simp: set_room_def set_student_def inflight_def wf_fresh_def node_refs_def)
  then show ?thesis using False assms(2) Q by (auto simp: delete_obj_def upd_room_def wlp_simps set_student_def)
qed

lemma wlp_drop_node:
  assumes "wt D F s" "groups s g = Some x" "smap_find (m_node_map (m_make_house x)) k = Some p"
  and Q: "\<And>t. wt D F t \<Longrightarrow> Q () t"
  shows "wlp (delete_obj nodes set_node p) (\<lambda>_. wlp (upd_house g (\<lambda>h. h\<lparr>m_node_map := smap_erase k (m_node_map h)\<rparr>)) Q) s"
proof -
  have ok: "group_ok x" using wt_group_ok [OF assms(1,2)] .
  let ?y = "x\<lparr>m_make_house := (m_make_house x)\<lparr>m_node_map := smap_erase k (m_node_map (m_make_house x))\<rparr>\<rparr>"
  have y: "group_ok ?y" using ok by (simp add: group_ok_def)
  show ?thesis
  proof (cases "p = NULL")
    case True
    have "wt D F (set_group g (Some ?y) s)"
      using ok by (intro wt_set_group [OF assms(1,2) y]) (auto simp: group_ok_def find_smap_erase split: if_splits)
    then show ?thesis using True assms(2) Q
      by (auto simp: delete_obj_def upd_house_def upd_group_def wlp_simps)
  next
    case False
    let ?t = "set_group g (Some ?y) (set_node p None s)"
    have "wt D F ?t"
    proof (rule wt_step [OF assms(1)])
      have R: "node_refs ?t \<subseteq> node_refs s - {((g, k), p)}"
        using assms(2) ok by (auto simp: node_refs_def set_group_def set_node_def find_smap_erase
            group_ok_def split: if_splits)
      have p: "((g, k), p) \<in> node_refs s" using assms(2,3) False by (auto simp: node_refs_def)
      show "linked (node_refs s) (nodes s) (Nods F) \<Longrightarrow> linked (node_refs ?t) (nodes ?t) (Nods F)"
        using linked_delete [OF _ p R, of "nodes s" "Nods F"] by (simp add: set_group_def set_node_def)
      show "wf_maps s \<Longrightarrow> wf_maps ?t"
        using y assms(2) by (auto simp: wf_maps_def set_group_def set_node_def)
      show "wf_fresh s \<Longrightarrow> wf_fresh ?t"
        using assms(2) by (auto simp: wf_fresh_def set_group_def set_node_def)
    qed (auto simp: set_group_def set_node_def inflight_def student_refs_def)
    then show ?thesis using False assms(2) Q
      by (auto simp: delete_obj_def upd_house_def upd_group_def wlp_simps set_node_def)
  qed
qed

end
