(* ===== verification/Typing_Spec.thy ===== *)
theory Typing_Spec
  imports Typing Dispatch_Spec
begin

text \<open>
  Every operation of the components, every handler of the table and every round of the server's
  threads keeps the state well formed (\<open>Typing\<close>).
\<close>

section \<open>Loops\<close>

lemma wlp_for_each [wlp_intros]:
  assumes "wt D F s" "\<And>x t. x \<in> set xs \<Longrightarrow> wt D F t \<Longrightarrow> wlp (f x) (\<lambda>_. wt D F) t" "\<And>t. wt D F t \<Longrightarrow> Q () t"
  shows "wlp (for_each xs f) Q s"
  using wlp_for_each_loop [of "\<lambda>_. wt D F" xs s f] assms by (auto elim!: wlp_mono)

lemma wlp_for_while [wlp_intros]:
  assumes "wt D F s" "\<And>x t. x \<in> set xs \<Longrightarrow> wt D F t \<Longrightarrow> wlp (f x) (\<lambda>_. wt D F) t" "\<And>b t. wt D F t \<Longrightarrow> Q b t"
  shows "wlp (for_while xs f) Q s"
  using wlp_for_while_loop [of "wt D F" s xs f] assms by (auto elim!: wlp_mono)

section \<open>Houses\<close>

lemma wlp_get_house [wlp_simps]:
  "wlp (get_house g) Q s = (g \<noteq> NULL \<longrightarrow> (\<forall>x. groups s g = Some x \<longrightarrow> Q (m_make_house x) s))"
  by (simp add: get_house_def wlp_simps)

lemma wlp_upd_house:
  assumes "wt D F s" "\<And>h. m_node_map (f h) = m_node_map h" "\<And>t. wt D F t \<Longrightarrow> Q () t"
  shows "wlp (upd_house g f) Q s"
  unfolding upd_house_def using assms by (auto intro!: wlp_upd_group simp: group_ok_def)

lemma wlp_find_layer [wlp_intros]: "(\<And>v. Q v s) \<Longrightarrow> wlp (find_layer m l) Q s"
  by (induction m l rule: find_layer.induct) (auto simp: wlp_simps)

lemma wlp_get_node_id [wlp_intros]: "(\<And>v. Q v s) \<Longrightarrow> wlp (CMakeHouse_get_node_id_by_layer g l) Q s"
  by (auto simp: CMakeHouse_get_node_id_by_layer_def wlp_simps intro!: wlp_intros)

lemma wlp_modify_node [wlp_intros]:
  "wt D F s \<Longrightarrow> (\<And>v t. wt D F t \<Longrightarrow> Q v t) \<Longrightarrow> wlp (modify_node g i f) Q s"
  by (auto simp: modify_node_def wlp_simps intro!: wlp_intros)

lemma wlp_modify_picture [wlp_intros]:
  "wt D F s \<Longrightarrow> (\<And>v t. wt D F t \<Longrightarrow> Q v t) \<Longrightarrow> wlp (CMakeHouse_modifyMove g i x y) Q s"
  "wt D F s \<Longrightarrow> (\<And>v t. wt D F t \<Longrightarrow> Q v t) \<Longrightarrow> wlp (CMakeHouse_modifyScale g i v1) Q s"
  "wt D F s \<Longrightarrow> (\<And>v t. wt D F t \<Longrightarrow> Q v t) \<Longrightarrow> wlp (CMakeHouse_modifyAngle g i v1) Q s"
  by (simp_all add: CMakeHouse_modifyMove_def CMakeHouse_modifyScale_def CMakeHouse_modifyAngle_def wlp_modify_node)

lemma wlp_house_add [wlp_intros]:
  assumes "wt D F s" "Nod n \<in> F" "\<And>v t. wt D (F - {Nod n}) t \<Longrightarrow> Q v t"
  shows "wlp (CMakeHouse_add g i n) Q s"
proof (cases "n = NULL")
  case True
  have "wt D (F - {Nod n}) s" using assms(1) by (rule wt_drop) auto
  then show ?thesis using True assms(3) by (simp add: CMakeHouse_add_def wlp_simps)
next
  case False
  then show ?thesis using assms
    by (auto simp: CMakeHouse_add_def wlp_simps intro!: wlp_upd_house wlp_for_each wlp_place_node)
qed

lemma wlp_house_del [wlp_intros]:
  assumes "wt D F s" "\<And>v t. wt D F t \<Longrightarrow> Q v t"
  shows "wlp (CMakeHouse_del g i) Q s"
  using assms by (auto simp: CMakeHouse_del_def wlp_simps intro!: wlp_drop_node)

lemma wlp_layer_find [wlp_intros]: "(\<And>v. Q v s) \<Longrightarrow> wlp (layer_find ns i k) Q s"
  by (induction ns i k rule: layer_find.induct) (auto simp: wlp_simps)

lemma wlp_layer_up [wlp_intros]:
  "wt D F s \<Longrightarrow> (\<And>v t. wt D F t \<Longrightarrow> Q v t) \<Longrightarrow> wlp (CMakeHouse_layer_up rf g i c) Q s"
  by (auto simp: CMakeHouse_layer_up_def CMakeHouse_get_iterator_by_node_id_def wlp_simps
      intro!: wlp_layer_find wlp_upd_house)

lemma wlp_layer_down [wlp_intros]:
  "wt D F s \<Longrightarrow> (\<And>v t. wt D F t \<Longrightarrow> Q v t) \<Longrightarrow> wlp (CMakeHouse_layer_down rf g i c) Q s"
  by (auto simp: CMakeHouse_layer_down_def CMakeHouse_get_iterator_by_node_id_def wlp_simps
      intro!: wlp_layer_find wlp_upd_house)

lemma wlp_current_layer [wlp_intros]:
  "wt D F s \<Longrightarrow> (\<And>v t. wt D F t \<Longrightarrow> Q v t) \<Longrightarrow> wlp (CMakeHouse_set_current_layer g l) Q s"
  "wt D F s \<Longrightarrow> (\<And>v. R v s) \<Longrightarrow> wlp (CMakeHouse_get_current_layer g) R s"
  by (auto simp: CMakeHouse_set_current_layer_def CMakeHouse_get_current_layer_def wlp_simps intro!: wlp_upd_house)

section \<open>Groups\<close>

lemma wlp_add_student_to_group [wlp_intros]:
  "wt D F s \<Longrightarrow> (\<And>v t. wt D F t \<Longrightarrow> Q v t) \<Longrightarrow> wlp (CGroup_add_student_to_group g fd stu) Q s"
  by (auto simp: CGroup_add_student_to_group_def wlp_simps group_ok_def intro!: wlp_upd_group)

lemma wlp_get_student_by_fd [wlp_intros]: "(\<And>v. Q v s) \<Longrightarrow> wlp (CGroup_get_student_by_fd g fd) Q s"
  by (auto simp: CGroup_get_student_by_fd_def wlp_simps)

lemma wlp_getAutoNodeId [wlp_intros]:
  "wt D F s \<Longrightarrow> (\<And>v t. wt D F t \<Longrightarrow> Q v t) \<Longrightarrow> wlp (CGroup_getAutoNodeId g) Q s"
  by (auto simp: CGroup_getAutoNodeId_def wlp_simps group_ok_def intro!: wlp_upd_group)

lemma wlp_write_nodes [wlp_intros]:
  "wt D F s \<Longrightarrow> (\<And>t. wt D F t \<Longrightarrow> Q () t) \<Longrightarrow> wlp (write_nodes m p a) Q s"
  by (induction m p a arbitrary: s rule: write_nodes.induct) (auto simp: wlp_simps intro!: wlp_intros)

lemma wlp_group_set_buf [wlp_intros]:
  "wt D F s \<Longrightarrow> (\<And>v t. wt D F t \<Longrightarrow> Q v t) \<Longrightarrow> wlp (CGroup_set_buf g p) Q s"
  by (auto simp: CGroup_set_buf_def wlp_simps intro!: wlp_intros)

lemma wlp_group_copy [wlp_intros]:
  "wt D F s \<Longrightarrow> (\<And>t. wt D F t \<Longrightarrow> Q () t) \<Longrightarrow> wlp (group_copy q p ct fd) Q s"
  by (auto simp: group_copy_def wlp_simps intro!: wlp_intros)

lemma wlp_sendToWhite [wlp_intros]:
  "wt D F s \<Longrightarrow> (\<And>t. wt D F t \<Longrightarrow> Q () t) \<Longrightarrow> wlp (CGroup_sendToWhite p ct fd) Q s"
  by (auto simp: CGroup_sendToWhite_def wlp_simps intro!: wlp_intros)

lemma wlp_sendToOtherStudent [wlp_intros]:
  "wt D F s \<Longrightarrow> p \<in> D \<Longrightarrow> (\<And>t. wt D F t \<Longrightarrow> Q () t) \<Longrightarrow> wlp (CGroup_sendToOtherStudent g p ct) Q s"
  by (auto simp: CGroup_sendToOtherStudent_def wlp_simps intro!: wlp_intros)

section \<open>Rooms\<close>

lemma wlp_find_room [wlp_simps]:
  "wlp (CRoomManager_get_room_by_fd fd) Q s = Q (find_room (rooms s) fd) s"
  "wlp (CRoomManager_get_room_by_name n) R s = R (find_room_name (rooms s) n) s"
  "wlp (CRoomManager_get_room i) T s = T (if smap_find (rooms s) i = None then None else Some i) s"
  by (simp_all add: CRoomManager_get_room_by_fd_def CRoomManager_get_room_by_name_def
      CRoomManager_get_room_def wlp_simps)

text \<open>An update that leaves the maps of the room alone.\<close>

lemma wlp_room_fields [wlp_intros]:
  "wt D F s \<Longrightarrow> (\<And>t. wt D F t \<Longrightarrow> Q () t) \<Longrightarrow> wlp (set_teacher_fd rp fd) Q s"
  "wt D F s \<Longrightarrow> (\<And>t. wt D F t \<Longrightarrow> Q () t) \<Longrightarrow> wlp (set_teacher_name rp n) Q s"
  "wt D F s \<Longrightarrow> (\<And>t. wt D F t \<Longrightarrow> Q () t) \<Longrightarrow> wlp (set_class_name rp n) Q s"
  "wt D F s \<Longrightarrow> (\<And>t. wt D F t \<Longrightarrow> Q () t) \<Longrightarrow> wlp (set_white_fd rp fd) Q s"
  "wt D F s \<Longrightarrow> (\<And>t. wt D F t \<Longrightarrow> Q () t) \<Longrightarrow> wlp (set_isUsed rp u) Q s"
  "wt D F s \<Longrightarrow> (\<And>t. wt D F t \<Longrightarrow> Q () t) \<Longrightarrow> wlp (CRoom_clear_all_course rp) Q s"
  "wt D F s \<Longrightarrow> (\<And>t. wt D F t \<Longrightarrow> Q () t) \<Longrightarrow> wlp (CRoom_add_course rp c) Q s"
  by (auto simp: set_teacher_fd_def set_teacher_name_def set_class_name_def set_white_fd_def set_isUsed_def
      CRoom_clear_all_course_def CRoom_add_course_def wlp_simps room_ok_def intro!: wlp_upd_room)

lemma wlp_add_student:
  assumes "wt D F s" "Stu p \<in> F" "\<And>t. wt D (F - {Stu p}) t \<Longrightarrow> Q () t"
  shows "wlp (CRoom_add_student rp fd p) Q s"
  using assms by (auto simp: CRoom_add_student_def wlp_simps intro!: wlp_drop_student wlp_place_student)

lemma wlp_wr_status [wlp_intros]:
  "wt D F s \<Longrightarrow> (\<And>t. p \<in> D \<Longrightarrow> wt D F t \<Longrightarrow> world t = world s \<Longrightarrow> Q () t) \<Longrightarrow> wlp (wr_status p a i st) Q s"
  by (auto simp: wr_status_def wlp_simps intro!: wlp_intros)

lemma wlp_send_one_status [wlp_intros]:
  "wt D F s \<Longrightarrow> (\<And>t. wt D F t \<Longrightarrow> world t = world s \<Longrightarrow> Q () t) \<Longrightarrow> wlp (send_one_status i st fd) Q s"
  by (auto simp: send_one_status_def wlp_simps intro!: wlp_intros)

lemma wlp_send_counted_status [wlp_intros]:
  "wt D F s \<Longrightarrow> (\<And>t. wt D F t \<Longrightarrow> world t = world s \<Longrightarrow> Q () t) \<Longrightarrow> wlp (send_counted_status stu fd) Q s"
  by (auto simp: send_counted_status_def wlp_simps intro!: wlp_intros)

lemma wlp_write_statuses [wlp_intros]:
  "wt D F s \<Longrightarrow> (\<And>t. wt D F t \<Longrightarrow> Q () t) \<Longrightarrow> wlp (write_statuses m p a) Q s"
  by (induction m p a arbitrary: s rule: write_statuses.induct) (auto simp: wlp_simps intro!: wlp_intros)

lemma wlp_copy_status [wlp_intros]:
  "wt D F s \<Longrightarrow> (\<And>t. wt D F t \<Longrightarrow> Q () t) \<Longrightarrow> wlp (copy_status p fd) Q s"
  by (auto simp: copy_status_def wlp_simps intro!: wlp_intros)

lemma wlp_mark_offline [wlp_intros]:
  "wt D F s \<Longrightarrow> (\<And>t. wt D F t \<Longrightarrow> Q () t) \<Longrightarrow> wlp (mark_offline rp fd flag) Q s"
  by (auto simp: mark_offline_def wlp_simps intro!: wlp_intros)

lemma wlp_tell_and_remove [wlp_intros]:
  assumes "wt D F s" "\<And>t. wt D F t \<Longrightarrow> Q () t"
  shows "wlp (tell_and_remove rp fd flag) Q s"
  using assms
  by (auto simp: tell_and_remove_def wlp_simps dest!: world_eqs intro!: wlp_send_counted_status wlp_drop_student)

lemma wlp_update_all [wlp_intros]:
  "wt D F s \<Longrightarrow> (\<And>t. wt D F t \<Longrightarrow> Q () t) \<Longrightarrow> wlp (update_all_student_status rp fd flag) Q s"
  by (auto simp: update_all_student_status_def wlp_simps intro!: wlp_intros)

lemma wlp_room_reset [wlp_intros]:
  "wt D F s \<Longrightarrow> (\<And>v t. wt D F t \<Longrightarrow> Q v t) \<Longrightarrow> wlp (CRoom_reset rp) Q s"
  by (auto simp: CRoom_reset_def wlp_simps room_ok_def intro!: wlp_intros)

lemma wlp_teacher_disconnect [wlp_intros]:
  "wt D F s \<Longrightarrow> (\<And>t. wt D F t \<Longrightarrow> Q () t) \<Longrightarrow> wlp (CRoom_teacher_disconnect rp) Q s"
  by (auto simp: CRoom_teacher_disconnect_def wlp_simps intro!: wlp_intros)

lemma wlp_room_del_client [wlp_intros]:
  "wt D F s \<Longrightarrow> (\<And>t. wt D F t \<Longrightarrow> Q () t) \<Longrightarrow> wlp (CRoom_del_client rp fd) Q s"
  by (auto simp: CRoom_del_client_def wlp_simps room_ok_def intro!: wlp_intros)

lemma wlp_del_client [wlp_intros]:
  "wt D F s \<Longrightarrow> (\<And>t. wt D F t \<Longrightarrow> Q () t) \<Longrightarrow> wlp (CRoomManager_del_client fd) Q s"
  by (auto simp: CRoomManager_del_client_def wlp_simps intro!: wlp_intros)

lemma wlp_puzzle_start [wlp_intros]:
  "wt D F s \<Longrightarrow> (\<And>t. wt D F t \<Longrightarrow> Q () t) \<Longrightarrow> wlp (CRoom_puzzle_start now rp) Q s"
  by (auto simp: CRoom_puzzle_start_def wlp_simps room_ok_def intro!: wlp_intros)

lemma wlp_puzzle_lines [wlp_intros]:
  "wt D F s \<Longrightarrow> (\<And>v t. wt D F t \<Longrightarrow> Q v t) \<Longrightarrow> wlp (puzzle_lines now rp m acc) Q s"
  by (induction now rp m acc arbitrary: s rule: puzzle_lines.induct)
     (auto simp: wlp_simps room_ok_def Let_def find_smap_insert split: if_splits option.splits intro!: wlp_intros)

lemma wlp_puzzle_end [wlp_intros]:
  "wt D F s \<Longrightarrow> (\<And>t. wt D F t \<Longrightarrow> Q () t) \<Longrightarrow> wlp (CRoom_puzzle_end now rp) Q s"
  by (auto simp: CRoom_puzzle_end_def wlp_simps intro!: wlp_intros)

lemma wlp_end_puzzle_by_fd [wlp_intros]:
  "wt D F s \<Longrightarrow> (\<And>t. wt D F t \<Longrightarrow> Q () t) \<Longrightarrow> wlp (CRoom_end_puzzle_by_fd now rp fd) Q s"
  by (auto simp: CRoom_end_puzzle_by_fd_def wlp_simps room_ok_def intro!: wlp_intros)

section \<open>Messaging\<close>

lemma wlp_forward [wlp_intros]:
  "wt D F s \<Longrightarrow> (\<And>v t. wt D F t \<Longrightarrow> Q v t) \<Longrightarrow> wlp (forward p ct fd) Q s"
  by (auto simp: forward_def wlp_simps intro!: wlp_intros)

lemma wlp_postMessage [wlp_intros]:
  "wt D F s \<Longrightarrow> (\<And>v t. wt D F t \<Longrightarrow> Q v t) \<Longrightarrow> wlp (postMessage p ct data) Q s"
  by (auto simp: postMessage_def wlp_simps intro!: wlp_intros)

lemma wlp_postTeacherToWhite [wlp_intros]:
  "wt D F s \<Longrightarrow> (\<And>v t. wt D F t \<Longrightarrow> Q v t) \<Longrightarrow> wlp (postTeacherToWhite p ct) Q s"
  by (auto simp: postTeacherToWhite_def wlp_simps intro!: wlp_intros)

lemma wlp_postWhiteToTeacher [wlp_intros]:
  "wt D F s \<Longrightarrow> (\<And>v t. wt D F t \<Longrightarrow> Q v t) \<Longrightarrow> wlp (postWhiteToTeacher p ct) Q s"
  by (auto simp: postWhiteToTeacher_def wlp_simps intro!: wlp_intros)

lemma wlp_copy_to_student [wlp_intros]:
  "wt D F s \<Longrightarrow> (\<And>t. wt D F t \<Longrightarrow> Q () t) \<Longrightarrow> wlp (copy_to_student q p n ct fd) Q s"
  by (auto simp: copy_to_student_def wlp_simps intro!: wlp_intros)

lemma wlp_postTeacherToAllStudent [wlp_intros]:
  "wt D F s \<Longrightarrow> (\<And>v t. wt D F t \<Longrightarrow> Q v t) \<Longrightarrow> wlp (postTeacherToAllStudent p ct) Q s"
  by (auto simp: postTeacherToAllStudent_def wlp_simps intro!: wlp_intros)

lemma wlp_send_to_student_id [wlp_intros]:
  "wt D F s \<Longrightarrow> (\<And>v t. wt D F t \<Longrightarrow> Q v t) \<Longrightarrow> wlp (send_to_student_id p ct i m) Q s"
  by (induction p ct i m rule: send_to_student_id.induct) (auto simp: wlp_simps intro!: wlp_intros)

lemma wlp_postTeacherToStudent [wlp_intros]:
  "wt D F s \<Longrightarrow> (\<And>v t. wt D F t \<Longrightarrow> Q v t) \<Longrightarrow> wlp (postTeacherToStudent p ct i) Q s"
  by (auto simp: postTeacherToStudent_def wlp_simps intro!: wlp_intros)

lemma wlp_when_type [wlp_intros]:
  "wt D F s \<Longrightarrow> Q () s \<Longrightarrow> (p \<in> D \<Longrightarrow> wlp m Q s) \<Longrightarrow> wlp (when_type p ct m) Q s"
  by (auto simp: when_type_def wlp_simps intro!: wlp_intros)

lemma wlp_ignore [wlp_simps]: "wlp (ignore m) Q = wlp m (\<lambda>_. Q ())"
  by (simp add: ignore_def wlp_simps)

lemma wlp_course_args [wlp_intros]:
  "wt D F s \<Longrightarrow> (\<And>v. p \<in> D \<Longrightarrow> Q v s) \<Longrightarrow> wlp (course_args p) Q s"
  by (auto simp: course_args_def wlp_simps intro!: wlp_intros)

lemma wlp_postDBRecordCount [wlp_intros]:
  "wt D F s \<Longrightarrow> (\<And>v t. wt D F t \<Longrightarrow> Q v t) \<Longrightarrow> wlp (postDBRecordCount e p i) Q s"
  by (auto simp: postDBRecordCount_def count_row_def wlp_simps intro!: wlp_intros)

lemma wlp_record_rows [wlp_intros]:
  "wt D F s \<Longrightarrow> (\<And>t. wt D F t \<Longrightarrow> Q () t) \<Longrightarrow> wlp (record_rows p i n ws) Q s"
  by (induction p i n ws arbitrary: s rule: record_rows.induct)
     (auto simp: record_row_def wlp_simps intro!: wlp_intros)

lemma wlp_send_finished [wlp_intros]:
  "wt D F s \<Longrightarrow> (\<And>t. wt D F t \<Longrightarrow> Q () t) \<Longrightarrow> wlp (send_finished p i) Q s"
  by (auto simp: send_finished_def wlp_simps intro!: wlp_intros)

lemma wlp_postDBRecord [wlp_intros]:
  "wt D F s \<Longrightarrow> (\<And>v t. wt D F t \<Longrightarrow> Q v t) \<Longrightarrow> wlp (postDBRecord e p i) Q s"
  by (auto simp: postDBRecord_def wlp_simps intro!: wlp_intros)

section \<open>Handlers\<close>

text \<open>What a handler has to do with any packet in any well-formed state.\<close>

definition typed :: "(ptr \<Rightarrow> unit act) \<Rightarrow> bool" where
  "typed h \<longleftrightarrow> (\<forall>D s p. wt D {} s \<and> p \<in> D \<longrightarrow> wlp (h p) (\<lambda>_. wt D {}) s)"

lemma typedI: "(\<And>D s p. wt D {} s \<Longrightarrow> p \<in> D \<Longrightarrow> wlp (h p) (\<lambda>_. wt D {}) s) \<Longrightarrow> typed h"
  by (simp add: typed_def)

lemma typed_ret [simp]: "typed (\<lambda>p. ret ())"
  by (simp add: typed_def wlp_simps)

lemma typed_forward [simp]:
  "typed (\<lambda>p. when_type p ct (ignore (postTeacherToWhite p st)))"
  "typed (\<lambda>p. when_type p ct (ignore (postWhiteToTeacher p st)))"
  "typed (\<lambda>p. when_type p ct (ignore (postTeacherToAllStudent p st)))"
  by (auto simp: typed_def wlp_simps intro!: wlp_intros)

lemma typed_db [simp]: "typed (\<lambda>p. ignore (postDBRecordCount e p i))" "typed (\<lambda>p. ignore (postDBRecord e p i))"
  by (auto simp: typed_def wlp_simps intro!: wlp_intros)

lemma wlp_switch_show [wlp_intros]:
  "wt D {} s \<Longrightarrow> (\<And>t. wt D {} t \<Longrightarrow> Q () t) \<Longrightarrow> wlp (switch_show pc v) Q s"
  by (auto simp: switch_show_def wlp_simps room_ok_def intro!: wlp_intros dest: wt_forget)

lemma typed_handleControlChangeScene [simp]: "typed handleControlChangeScene"
  by (rule typedI) (auto simp: handleControlChangeScene_def wlp_simps room_ok_def intro!: wlp_intros)

lemma typed_handleGetCurrentScene [simp]: "typed handleGetCurrentScene"
  by (rule typedI) (auto simp: handleGetCurrentScene_def wlp_simps room_ok_def intro!: wlp_intros)

lemma typed_handleSceneEnd [simp]: "typed handleSceneEnd"
  by (rule typedI) (auto simp: handleSceneEnd_def wlp_simps room_ok_def intro!: wlp_intros)

lemma typed_handleConfirmIntoClassRoom [simp]: "typed handleConfirmIntoClassRoom"
  by (rule typedI) (auto simp: handleConfirmIntoClassRoom_def wlp_simps room_ok_def intro!: wlp_intros)

lemma typed_HandleClassRoom [simp]:
  "typed handleChangeScene" "typed handleInitSceneFinished" "typed (handleGetCourseDBCount e)"
  "typed (handleGetCourseDB e)" "typed (handleGetCourseItemCount e)" "typed (handleGetCourseItem e)"
  "typed (handleGetClassRoomDBCount e)" "typed (handleGetClassRoomDB e)"
  "typed (handleGetGradeDBCount e)" "typed (handleGetGradeDB e)" "typed (handleGetClassDBCount e)"
  "typed (handleGetClassDB e)" "typed (handleGetAllStudentInfoCount e)"
  "typed (handleGetAllStudentInfo e)" "typed handleLoginResult" "typed handleLogout"
  "typed handleLogoutReuslt" "typed handleCourseFinished" "typed handleLockStudent"
  "typed handleCommonPlayorPause" "typed handleCommonResume" "typed handleCommonStop"
  by (rule typedI, simp add: handleChangeScene_def handleInitSceneFinished_def handleGetCourseDBCount_def
      handleGetCourseDB_def handleGetCourseItemCount_def handleGetCourseItem_def
      handleGetClassRoomDBCount_def handleGetClassRoomDB_def handleGetGradeDBCount_def
      handleGetGradeDB_def handleGetClassDBCount_def handleGetClassDB_def
      handleGetAllStudentInfoCount_def handleGetAllStudentInfo_def handleLoginResult_def
      handleLogout_def handleLogoutReuslt_def handleCourseFinished_def
      handleLockStudent_def handleCommonPlayorPause_def handleCommonResume_def
      handleCommonStop_def,
      (auto simp: wlp_simps intro!: wlp_intros)?)+

lemma typed_HandleForward [simp]:
  "typed handleCartoon_GameStart" "typed handleCartoon_Play" "typed handleCartoon_Pause"
  "typed handleCartoon_Stop" "typed handleCartoon_GameEnd" "typed handleExercise_GameStart"
  "typed handleExercise_Play" "typed handleExercise_Pause" "typed handleExercise_Stop"
  "typed handleExercise_GameEnd" "typed handleShowSpriteAnimation" "typed handleShowSpriteControl"
  "typed handleControlLevel"
  by (rule typedI, simp add: handleCartoon_GameStart_def handleCartoon_Play_def handleCartoon_Pause_def
      handleCartoon_Stop_def handleCartoon_GameEnd_def handleExercise_GameStart_def
      handleExercise_Play_def handleExercise_Pause_def handleExercise_Stop_def
      handleExercise_GameEnd_def handleShowSpriteAnimation_def handleShowSpriteControl_def
      handleControlLevel_def,
      (auto simp: wlp_simps intro!: wlp_intros)?)+

lemma typed_HandleBuildHouse [simp]:
  "typed handleBuildHouse_CaiHongGu" "typed handleBuildHouse_XiaoGuaiWu"
  "typed handleBuildHouse_MuBu" "typed handleBuildHouse_SingleMode"
  "typed handleBuildHouse_GroupMode" "typed handleBuildHouse_GameEnd"
  "typed handleBuildHouse_EmailTibet" "typed handleBuildHouse_EmailAmerica"
  "typed handleBuildHouse_Activation" "typed handleBuildHouse_Role"
  "typed handleBuildHouse_ScreenShot" "typed handleBuildHouse_SetStuGroupCount"
  "typed handleBuildHouse_SetStuGroup" "typed handleBuildHouse_GetStuGroupCount"
  "typed handleBuildHouse_GetStuGroup" "typed handleBuildHouse_UpdatePos"
  "typed handleBuildHouse_Save" "typed handleBuildHouse_SaveHouse"
  by (rule typedI, simp add: handleBuildHouse_CaiHongGu_def handleBuildHouse_XiaoGuaiWu_def handleBuildHouse_MuBu_def
      handleBuildHouse_SingleMode_def handleBuildHouse_GroupMode_def
      handleBuildHouse_GameEnd_def handleBuildHouse_EmailTibet_def
      handleBuildHouse_EmailAmerica_def handleBuildHouse_Activation_def
      handleBuildHouse_Role_def handleBuildHouse_ScreenShot_def
      handleBuildHouse_SetStuGroupCount_def handleBuildHouse_SetStuGroup_def
      handleBuildHouse_GetStuGroupCount_def handleBuildHouse_GetStuGroup_def
      handleBuildHouse_UpdatePos_def handleBuildHouse_Save_def
      handleBuildHouse_SaveHouse_def,
      (auto simp: wlp_simps intro!: wlp_intros)?)+

lemma typed_HandlePuzzle [simp]:
  "typed handlePuzzle_IconStatus" "typed handlePuzzle_Play" "typed handlePuzzle_Pause"
  "typed handlePuzzle_SelectedType" "typed handlePuzzle_SelectedSize" "typed handlePuzzle_MovePic"
  "typed handlePuzzle_DeletePic" "typed handlePuzzle_AddPic" "typed handlePuzzle_CalcScore"
  by (rule typedI, simp add: handlePuzzle_IconStatus_def handlePuzzle_Play_def handlePuzzle_Pause_def
      handlePuzzle_SelectedType_def handlePuzzle_SelectedSize_def handlePuzzle_MovePic_def
      handlePuzzle_DeletePic_def handlePuzzle_AddPic_def handlePuzzle_CalcScore_def,
      (auto simp: wlp_simps intro!: wlp_intros)?)+

text \<open>What the longer handlers are made of.\<close>

lemma wlp_add_course_row [wlp_intros]:
  "wt D F s \<Longrightarrow> (\<And>t. wt D F t \<Longrightarrow> Q () t) \<Longrightarrow> wlp (add_course_row room w) Q s"
  by (auto simp: add_course_row_def wlp_simps intro!: wlp_intros)

lemma wlp_store_row [wlp_intros]:
  "wt D F s \<Longrightarrow> (\<And>t. wt D F t \<Longrightarrow> Q () t) \<Longrightarrow> wlp (store_row i m) Q s"
  by (auto simp: store_row_def wlp_simps intro!: wlp_upd_house)

lemma wlp_sync_group [wlp_intros]:
  "wt D F s \<Longrightarrow> p \<in> D \<Longrightarrow> (\<And>t. wt D F t \<Longrightarrow> Q () t) \<Longrightarrow> wlp (sync_group g p) Q s"
  by (auto simp: sync_group_def wlp_simps intro!: wlp_intros)

lemma wlp_edited_group [wlp_intros]:
  assumes "wt D F s" "\<And>v. Q v s"
  shows "wlp (edited_group room fd) Q s"
  using assms wt_no_groups [OF assms(1)]
  by (auto simp: edited_group_def CRoom_get_group_by_fd_def wlp_simps)

lemma wlp_add_picture [wlp_intros]:
  assumes "wt D {} s" "p \<in> D" "\<And>t. wt D {} t \<Longrightarrow> Q () t"
  shows "wlp (add_picture g p fd demo) Q s"
  unfolding add_picture_def using assms
  by (auto simp: wlp_simps intro!: wlp_intros) auto

lemma wlp_pic_packet [wlp_intros]:
  "wt D F s \<Longrightarrow> (\<And>t. wt D F t \<Longrightarrow> Q () t) \<Longrightarrow> wlp (pic_packet pp p) Q s"
  by (auto simp: pic_packet_def wlp_simps intro!: wlp_intros)

lemma wlp_pic_loop [wlp_intros]:
  "wt D F s \<Longrightarrow> (\<And>b t. wt D F t \<Longrightarrow> Q b t) \<Longrightarrow> wlp (pic_loop (replicate n (ret ())) p) Q s"
  by (auto simp: pic_loop_def pic_round_def wlp_simps intro!: wlp_intros)

lemma wlp_login_status [wlp_intros]:
  "wt D F s \<Longrightarrow> (\<And>t. wt D F t \<Longrightarrow> Q () t) \<Longrightarrow> wlp (login_status stu fd) Q s"
  by (auto simp: login_status_def wlp_simps intro!: wlp_intros)

lemma wlp_collect_status [wlp_intros]: "(\<And>v. Q v s) \<Longrightarrow> wlp (collect_status m acc) Q s"
  by (induction m acc rule: collect_status.induct) (auto simp: wlp_simps)

lemma wlp_login_broadcast [wlp_intros]:
  "wt D F s \<Longrightarrow> (\<And>t. wt D F t \<Longrightarrow> Q () t) \<Longrightarrow> wlp (login_broadcast bs n fd) Q s"
  by (auto simp: login_broadcast_def wlp_simps intro!: wlp_intros)

lemma wlp_login_student [wlp_intros]:
  "wt D F s \<Longrightarrow> (\<And>v t. wt D F t \<Longrightarrow> Q v t) \<Longrightarrow> wlp (login_student e fd u pw) Q s"
  by (auto simp: login_student_def Let_def wlp_simps intro!: wlp_intros)

lemma wlp_login_answer [wlp_intros]:
  "wt D F s \<Longrightarrow> (\<And>t. wt D F t \<Longrightarrow> Q () t) \<Longrightarrow> wlp (login_answer p r) Q s"
  by (auto simp: login_answer_def wlp_simps intro!: wlp_intros)

lemma wlp_LoginCheck [wlp_intros]:
  "wt D F s \<Longrightarrow> (\<And>t. wt D F t \<Longrightarrow> Q () t) \<Longrightarrow> wlp (LoginCheck_check e p) Q s"
  by (auto simp: LoginCheck_check_def Let_def wlp_simps intro!: wlp_intros)

lemma wlp_find_student_id [wlp_intros]: "(\<And>v. Q v s) \<Longrightarrow> wlp (find_student_id m i) Q s"
  by (induction m i rule: find_student_id.induct) (auto simp: wlp_simps)

lemma wlp_write_item [wlp_intros]:
  "wt D F s \<Longrightarrow> (\<And>t. wt D F t \<Longrightarrow> Q () t) \<Longrightarrow> wlp (write_item g pp n) Q s"
  by (auto simp: write_item_def CGroup_get_student_by_studentId_def Let_def wlp_simps intro!: wlp_intros)

lemma wlp_send_houses [wlp_intros]:
  "wt D F s \<Longrightarrow> (\<And>v t. wt D F t \<Longrightarrow> Q v t) \<Longrightarrow> wlp (send_houses p n m) Q s"
  by (induction p n m arbitrary: s rule: send_houses.induct) (auto simp: wlp_simps intro!: wlp_intros)

lemma wlp_build_house_end [wlp_intros]:
  assumes "wt D F s" "\<And>t. wt D F t \<Longrightarrow> Q () t"
  shows "wlp (CRoom_build_house_end rp) Q s"
  using assms wt_no_groups [OF assms(1)]
  by (auto simp: CRoom_build_house_end_def CRoom_clean_buildhouse_group_def wlp_simps)

lemma typed_handleLoginClassRoom [simp]: "typed handleLoginClassRoom"
  by (rule typedI) (auto simp: handleLoginClassRoom_def wlp_simps room_ok_def intro!: wlp_intros)

lemma typed_handleLogoutClassRoom [simp]: "typed handleLogoutClassRoom"
  by (rule typedI) (auto simp: handleLogoutClassRoom_def wlp_simps room_ok_def intro!: wlp_intros)

lemma wlp_new_client:
  "wt D {Stu a} s \<Longrightarrow> p \<in> D
   \<Longrightarrow> wlp (CRoom_add_student room fd a) (\<lambda>_. wlp (pool_free p) (\<lambda>_. wt D {})) s"
  by (intro wlp_add_student) (auto intro!: wlp_pool_free)

lemma typed_handleSelectedClassRoom [simp]: "typed handleSelectedClassRoom"
  unfolding handleSelectedClassRoom_def
  by (rule typedI)
     (intro allI impI conjI | simp only: wlp_simps | rule wlp_new_client, assumption, assumption
       | rule wlp_intros, assumption | assumption | erule wt_forget)+

lemma typed_handleSetCourseGroup [simp]: "typed (handleSetCourseGroup e)"
  by (rule typedI) (auto simp: handleSetCourseGroup_def wlp_simps room_ok_def intro!: wlp_intros)

lemma typed_handleGetCourseGroup [simp]: "typed handleGetCourseGroup"
  by (rule typedI) (auto simp: handleGetCourseGroup_def wlp_simps room_ok_def intro!: wlp_intros)

lemma typed_handleDBRecordFinished [simp]: "typed handleDBRecordFinished"
  by (rule typedI) (auto simp: handleDBRecordFinished_def wlp_simps room_ok_def intro!: wlp_intros)

lemma typed_handleGetStudentDetailInfo [simp]: "typed (handleGetStudentDetailInfo e)"
  by (rule typedI) (auto simp: handleGetStudentDetailInfo_def wlp_simps room_ok_def intro!: wlp_intros)

lemma typed_handleGetTeacherInfo [simp]: "typed (handleGetTeacherInfo e)"
  by (rule typedI) (auto simp: handleGetTeacherInfo_def wlp_simps room_ok_def intro!: wlp_intros)

lemma typed_handleGetCourseItemKeyInfoReq [simp]: "typed (handleGetCourseItemKeyInfoReq e)"
  by (rule typedI) (auto simp: handleGetCourseItemKeyInfoReq_def wlp_simps room_ok_def intro!: wlp_intros)

lemma typed_handleLeaveEarly [simp]: "typed handleLeaveEarly"
  by (rule typedI) (auto simp: handleLeaveEarly_def wlp_simps room_ok_def intro!: wlp_intros)

lemma typed_handleConfirmLeaveEarly [simp]: "typed handleConfirmLeaveEarly"
  by (rule typedI) (auto simp: handleConfirmLeaveEarly_def wlp_simps room_ok_def intro!: wlp_intros)

lemma typed_handleBuildHouse_CaiHongXiaoWu [simp]: "typed handleBuildHouse_CaiHongXiaoWu"
  by (rule typedI) (auto simp: handleBuildHouse_CaiHongXiaoWu_def wlp_simps room_ok_def intro!: wlp_intros)

lemma typed_handleBuildHouse_OperatorDemo [simp]: "typed handleBuildHouse_OperatorDemo"
  by (rule typedI) (auto simp: handleBuildHouse_OperatorDemo_def wlp_simps room_ok_def intro!: wlp_intros)

lemma typed_handleBuildHouse_Stamp [simp]: "typed handleBuildHouse_Stamp"
  by (rule typedI) (auto simp: handleBuildHouse_Stamp_def wlp_simps room_ok_def intro!: wlp_intros)

lemma typed_handleBuildHouse_GameStart [simp]: "typed handleBuildHouse_GameStart"
  by (rule typedI) (auto simp: handleBuildHouse_GameStart_def wlp_simps room_ok_def intro!: wlp_intros wt_test_white_fd dest: wt_forget)

lemma typed_handleBuildHouse_Update [simp]: "typed handleBuildHouse_Update"
  by (rule typedI) (auto simp: handleBuildHouse_Update_def wlp_simps room_ok_def intro!: wlp_intros)

lemma typed_handleBuildHouse_Move [simp]: "typed handleBuildHouse_Move"
  by (rule typedI) (auto simp: handleBuildHouse_Move_def wlp_simps room_ok_def intro!: wlp_intros)

lemma typed_handleBuildHouse_Scale [simp]: "typed handleBuildHouse_Scale"
  by (rule typedI) (auto simp: handleBuildHouse_Scale_def wlp_simps room_ok_def intro!: wlp_intros)

lemma typed_handleBuildHouse_Angle [simp]: "typed handleBuildHouse_Angle"
  by (rule typedI) (auto simp: handleBuildHouse_Angle_def wlp_simps room_ok_def intro!: wlp_intros)

lemma typed_handleBuildHouse_Change_Layer [simp]: "typed (handleBuildHouse_Change_Layer e)"
  by (rule typedI) (auto simp: handleBuildHouse_Change_Layer_def wlp_simps room_ok_def intro!: wlp_intros)

lemma typed_handleBuildHouse_Add_Pic [simp]: "typed handleBuildHouse_Add_Pic"
  by (rule typedI) (auto simp: handleBuildHouse_Add_Pic_def wlp_simps room_ok_def intro!: wlp_intros)

lemma typed_handleBuildHouse_Del_Pic [simp]: "typed handleBuildHouse_Del_Pic"
  by (rule typedI) (auto simp: handleBuildHouse_Del_Pic_def wlp_simps room_ok_def intro!: wlp_intros)

lemma typed_handlePuzzle_GameStart [simp]: "typed (handlePuzzle_GameStart e)"
  by (rule typedI) (auto simp: handlePuzzle_GameStart_def wlp_simps room_ok_def intro!: wlp_intros)

lemma typed_handlePuzzle_EndGame [simp]: "typed (handlePuzzle_EndGame e)"
  by (rule typedI) (auto simp: handlePuzzle_EndGame_def wlp_simps room_ok_def intro!: wlp_intros)

lemma typed_handlePuzzle_GetPic [simp]: "typed (handlePuzzle_GetPic e)"
  by (rule typedI) (auto simp: handlePuzzle_GetPic_def GetPic_among_def wlp_simps room_ok_def simp del: replicate_Suc intro!: wlp_intros)

lemma typed_handlePuzzle_UpdatePic [simp]: "typed handlePuzzle_UpdatePic"
  by (rule typedI) (auto simp: handlePuzzle_UpdatePic_def wlp_simps room_ok_def intro!: wlp_intros)

lemma typed_handleRainbowValley_HouseNum [simp]: "typed handleRainbowValley_HouseNum"
  by (rule typedI) (auto simp: handleRainbowValley_HouseNum_def wlp_simps room_ok_def intro!: wlp_intros)

lemma typed_handleRainbowValley_HouseInfo [simp]: "typed handleRainbowValley_HouseInfo"
  by (rule typedI) (auto simp: handleRainbowValley_HouseInfo_def wlp_simps room_ok_def intro!: wlp_intros)

lemma typed_handleTest [simp]: "typed handleTest"
  by (rule typedI) (auto simp: handleTest_def wlp_simps room_ok_def intro!: wlp_intros)

lemma typed_handleLogin [simp]: "typed (handleLogin e)"
  by (rule typedI) (auto simp: handleLogin_def wlp_simps room_ok_def intro!: wlp_intros)

section \<open>The receiving thread\<close>

lemma MSGHANDLE_typed: "\<forall>(ct, h) \<in> set MSGHANDLE. typed (h e)"
  by (simp add: MSGHANDLE_def)

lemma getHandler_typed: "getHandler ct = Some h \<Longrightarrow> typed (h e)"
  using MSGHANDLE_typed [of e] by (auto simp: getHandler_table dest: map_of_SomeD)

lemma wlp_handle_packet [wlp_intros]:
  assumes "wt D {} s" "p \<in> D" "\<And>t. wt D {} t \<Longrightarrow> Q () t"
  shows "wlp (handle_packet e p) Q s"
proof -
  have "wlp (h e p) Q s" if "getHandler ct = Some h" for ct h
  proof -
    have "wlp (h e p) (\<lambda>_. wt D {}) s" using getHandler_typed [OF that, of e] assms(1,2) by (simp add: typed_def)
    then show ?thesis by (rule wlp_mono) (simp add: assms(3))
  qed
  then show ?thesis using assms by (auto simp: handle_packet_def wlp_simps intro!: wlp_intros)
qed

lemma wt_dequeue:
  assumes "wt D F s"
  shows "QueueT_dequeue (recvqueue s) = Some y \<Longrightarrow> fst y \<in> D \<and> wt D F (s\<lparr>recvqueue := snd y\<rparr>)"
    and "QueueT_dequeue (sendqueue s) = Some y \<Longrightarrow> fst y \<in> D \<and> wt D F (s\<lparr>sendqueue := snd y\<rparr>)"
proof -
  have D: "set (recvqueue s) \<subseteq> D" "set (sendqueue s) \<subseteq> D" "set (pool_queue (bufpool s)) \<subseteq> D"
    using assms by (auto simp: wt_def wf_bufs_def inflight_def)
  have "wt D F (s\<lparr>recvqueue := q\<rparr>)" if "set q \<subseteq> D" for q
    using that D by (intro wt_queues [OF assms]) (simp_all add: world_def inflight_def)
  moreover have "wt D F (s\<lparr>sendqueue := q\<rparr>)" if "set q \<subseteq> D" for q
    using that D by (intro wt_queues [OF assms]) (simp_all add: world_def inflight_def)
  ultimately show "QueueT_dequeue (recvqueue s) = Some y \<Longrightarrow> fst y \<in> D \<and> wt D F (s\<lparr>recvqueue := snd y\<rparr>)"
    "QueueT_dequeue (sendqueue s) = Some y \<Longrightarrow> fst y \<in> D \<and> wt D F (s\<lparr>sendqueue := snd y\<rparr>)"
    using D by (auto simp: QueueT_dequeue_def split: list.splits)
qed

lemma wlp_RecvTask_round:
  assumes "wt D {} s"
  shows "wlp (RecvTask_round e) (\<lambda>_. wt D {}) s"
  using wt_dequeue(1) [OF assms] assms
  by (auto simp: RecvTask_round_def wlp_simps intro!: wlp_intros)

section \<open>The other threads\<close>

lemma wlp_SendTask_round:
  assumes "wt D {} s"
  shows "wlp (SendTask_round rs e) (\<lambda>_. wt D {}) s"
  using wt_dequeue(2) [OF assms] assms
  by (auto simp: SendTask_round_def wlp_simps intro!: wlp_intros)

lemma wlp_recv_v [wlp_intros]:
  "wt D F s \<Longrightarrow> (\<And>v t. wt D F t \<Longrightarrow> Q v t) \<Longrightarrow> wlp (recv_v rs e p a left n) Q s"
  by (induction rs e p a left n arbitrary: s rule: recv_v.induct)
     (auto simp: wlp_simps Let_def split: recvres.split intro!: wlp_intros)

lemma wlp_closefd [wlp_intros]:
  "wt D F s \<Longrightarrow> (\<And>v t. wt D F t \<Longrightarrow> Q v t) \<Longrightarrow> wlp (closefd fd v1) Q s"
  by (auto simp: closefd_def wlp_simps intro!: wlp_intros)

lemma wlp_recv_cb:
  "wt D {} s \<Longrightarrow> wlp (recv_cb fd now rs v) (\<lambda>_. wt D {}) s"
  by (auto simp: recv_cb_def wlp_simps intro!: wlp_intros)

lemma wlp_sync_one [wlp_intros]:
  "wt D F s \<Longrightarrow> (\<And>v t. wt D F t \<Longrightarrow> Q v t) \<Longrightarrow> wlp (sync_one w fps n g) Q s"
  by (auto simp: sync_one_def wlp_simps intro!: wlp_intros)

lemma wlp_sync_groups [wlp_intros]:
  "wt D F s \<Longrightarrow> (\<And>v t. wt D F t \<Longrightarrow> Q v t) \<Longrightarrow> wlp (sync_groups w fps n m) Q s"
  by (induction w fps n m arbitrary: s rule: sync_groups.induct) (auto simp: wlp_simps intro!: wlp_intros)

lemma wlp_BHSyncTask_round:
  "wt D {} s \<Longrightarrow> wlp (BHSyncTask_round now b) (\<lambda>_. wt D {}) s"
  by (auto simp: BHSyncTask_round_def wlp_simps intro!: wlp_intros)

text \<open>Loading the rooms.\<close>

lemma wt_insert_room:
  assumes "wt D F s" "room_ok r" "m_student_map r = []"
  shows "wt D F (s\<lparr>rooms := smap_insert i r (rooms s)\<rparr>)" (is "wt D F ?t")
proof (rule wt_step [OF assms(1)])
  have sorted: "smap_inv (rooms s)" using assms(1) by (simp add: wt_def wf_objs_def wf_maps_def)
  then show "wf_maps s \<Longrightarrow> wf_maps ?t"
    using assms(2) by (auto simp: wf_maps_def find_smap_insert split: if_splits option.splits)
  have "student_refs ?t \<subseteq> student_refs s"
    using sorted assms(3) by (auto simp: student_refs_def find_smap_insert split: if_splits option.splits)
  then show "linked (student_refs s) (students s) (Stus F) \<Longrightarrow> linked (student_refs ?t) (students ?t) (Stus F)"
    by - (rule linked_mono [of "student_refs s" "students s" "Stus F"], simp_all)
qed (auto simp: inflight_def wf_fresh_def node_refs_def)

lemma wlp_init_rooms:
  "wt D {} s \<Longrightarrow> wlp (CRoomManager_init e) (\<lambda>_. wt D {}) s"
  by (auto simp: CRoomManager_init_def wlp_simps room_ok_def CRoom_new_def
      intro!: wlp_for_each wlp_new_addr wt_insert_room)

section \<open>The running server\<close>

text \<open>The process before the rooms are loaded: the buffers \<open>ps\<close> are in the pool, \<open>test_group\<close> exists,
  nothing else does; \<open>n\<close> is the first address that \<open>new\<close> will hand out, \<open>g\<close> what memory contains.\<close>

definition Single_new :: "ptr list \<Rightarrow> (ptr \<Rightarrow> mem \<times> nat) \<Rightarrow> ptr \<Rightarrow> (ptr \<Rightarrow> garbage) \<Rightarrow> srv" where
  "Single_new ps gb n g = \<lparr>
     bufs = (\<lambda>p. if p \<in> set ps then Some (Buf_new (fst (gb p)) (snd (gb p)) MAX_BUF) else None),
     bufpool = PoolT_new ps, recvqueue = [], sendqueue = [], students = (\<lambda>_. None), nodes = (\<lambda>_. None),
     groups = (\<lambda>_. None)(TEST_GROUP := Some (CGroup_new (\<lambda>_. 0) (\<lambda>_. 0) [])), puzzles = (\<lambda>_. None),
     rooms = [], test_white_fd = 0, next_addr = n, fresh_mem = g\<rparr>"

lemma wt_Single_new: "NULL \<notin> set ps \<Longrightarrow> TEST_GROUP < n \<Longrightarrow> wt (set ps) {} (Single_new ps gb n g)"
  by (auto simp: wt_def wf_bufs_def wf_objs_def wf_maps_def wf_fresh_def linked_def refs_defs Single_new_def
      Buf_new_def PoolT_new_def inflight_def group_ok_def CGroup_new_def CMakeHouse_new_def NULL_def TEST_GROUP_def
      Stus_def Nods_def split: if_splits)

text \<open>The rounds of the threads, one after the other in any order: a client is read or closed, a packet is
  handled, a packet is sent, the houses are sent.  What the kernel, the clock and the database answer is
  different in every round.\<close>

inductive server_step :: "srv \<Rightarrow> srv \<Rightarrow> bool" where
  Read: "recv_cb fd now rs v s = Inr (x, t) \<Longrightarrow> server_step s t"
| Handle: "RecvTask_round e s = Inr (y, t) \<Longrightarrow> server_step s t"
| Send: "SendTask_round ss err s = Inr (z, t) \<Longrightarrow> server_step s t"
| Sync: "BHSyncTask_round now b s = Inr (w, t) \<Longrightarrow> server_step s t"

inductive server_run :: "env \<Rightarrow> srv \<Rightarrow> srv \<Rightarrow> bool" for e s0 where
  Start: "CRoomManager_init e s0 = Inr (i, t) \<Longrightarrow> server_run e s0 t"
| Step: "server_run e s0 s \<Longrightarrow> server_step s t \<Longrightarrow> server_run e s0 t"

inductive_cases server_stepE: "server_step s t"

lemma server_step_wt: "server_step s t \<Longrightarrow> wt D {} s \<Longrightarrow> wt D {} t"
  by (erule server_stepE)
     (blast dest: wlpD [OF wlp_recv_cb] wlpD [OF wlp_RecvTask_round] wlpD [OF wlp_SendTask_round]
        wlpD [OF wlp_BHSyncTask_round])+

lemma server_run_wt: "server_run e s0 s \<Longrightarrow> wt D {} s0 \<Longrightarrow> wt D {} s"
  by (induction rule: server_run.induct) (blast dest: wlpD [OF wlp_init_rooms] server_step_wt)+

text \<open>C9: One round of the receiving thread keeps the state well formed, whatever the packet contains and
  whichever of the handlers it is for: if the round returns, every queued pointer is still a buffer of
  \<open>MAX_BUF\<close> bytes, every map is still sorted, and no room and no house refers to a deleted object.\<close>

theorem RecvTask_round_typed:
  assumes "wt D {} s" "RecvTask_round e s = Inr (x, t)"
  shows "wt D {} t"
  using wlp_RecvTask_round [OF assms(1)] assms(2) by (rule wlpD)

text \<open>A student who joins the demonstration: the packet makes an object and puts it into the test group.\<close>

definition joining :: srv where
  "joining = (Single_new [10, 11] (\<lambda>_. (\<lambda>_. 0, 0)) 100 (\<lambda>_ _. 0))\<lparr>recvqueue := [10],
     bufpool := PoolT_new [11], bufs := (\<lambda>p. if p = 10 then Some (pkt 7 (msg 12 CT_BuildHouse_GameStart (le32 0)))
       else if p = 11 then Some blank else None)\<rparr>"

lemma wt_joining: "wt {10, 11} {} joining"
proof -
  have "wt (set [10, 11]) {} (Single_new [10, 11] (\<lambda>_. (\<lambda>_. 0, 0)) 100 (\<lambda>_ _. 0))"
    by (rule wt_Single_new) (simp_all add: NULL_def TEST_GROUP_def)
  then show ?thesis
    by (auto simp: wt_def wf_bufs_def wf_objs_def wf_maps_def wf_fresh_def refs_defs joining_def PoolT_new_def
        inflight_def blank_def NULL_def split: if_splits)
qed

lemma joining_round: "\<exists>x t. RecvTask_round (sample_env None) joining = Inr (x, t) \<and> students t 100 \<noteq> None"
proof -
  let ?b = "pkt 7 (msg 12 CT_BuildHouse_GameStart (le32 0))"
  have b: "get32 (m_ptr ?b) 4 = CT_BuildHouse_GameStart" "get32 (m_ptr ?b) 8 = 0"
    using pkt_type [of 7 12 CT_BuildHouse_GameStart "le32 0"]
      pkt_get32 [of 7 "le32 12 @ le32 CT_BuildHouse_GameStart" 0 "[]"] by (simp_all add: msg_def)
  have h: "getHandler CT_BuildHouse_GameStart = Some (\<lambda>e. handleBuildHouse_GameStart)"
    by (simp add: getHandler_table MSGHANDLE_def cmd_defs)
  have d: "wp (debugProtocol 10) Q (joining\<lparr>recvqueue := []\<rparr>)" if "\<And>r. Q r (joining\<lparr>recvqueue := []\<rparr>)" for Q
    using debugProtocol_runs [of "joining\<lparr>recvqueue := []\<rparr>" 10 ?b] that
    by (auto simp: wp_def joining_def NULL_def)
  have "wp (handle_packet (sample_env None) 10) (\<lambda>_ t. students t 100 \<noteq> None) (joining\<lparr>recvqueue := []\<rparr>)"
    unfolding handle_packet_def wp_bnd
    by (rule d)
       (simp add: wp_simps head_defs rd32_def get_fd_def h b handleBuildHouse_GameStart_def new_obj_def
         upd_student_def upd_group_def ignore_def CGroup_add_student_to_group_def set_defs joining_def Single_new_def
         MSG_HEAD_LEN_def MAX_BUF_def NULL_def TEST_GROUP_def)
  moreover have "wp (ret Handled) Q = Q Handled" for Q :: "recv_round \<Rightarrow> srv \<Rightarrow> bool"
    by (simp add: fun_eq_iff wp_ret)
  ultimately have "wp (RecvTask_round (sample_env None)) (\<lambda>x t. students t 100 \<noteq> None) joining"
    by (simp add: RecvTask_round_def wp_simps QueueT_dequeue_def joining_def NULL_def)
  then show ?thesis by (auto dest: wpD)
qed

lemma RecvTask_round_typed_witness:
  "\<exists>x t. RecvTask_round (sample_env None) joining = Inr (x, t) \<and> students t 100 \<noteq> None \<and> wt {10, 11} {} t"
  using joining_round RecvTask_round_typed [OF wt_joining] by blast

text \<open>However long the server runs and in whatever order its threads take their rounds, on whatever input:
  every buffer that is in the pool or in a queue exists and has \<open>MAX_BUF\<close> bytes, the student pointers in the
  rooms and the node pointers in the houses that are not \<open>NULL\<close> lead to objects that have not been deleted,
  and no room ever has a house group (so the synchronisation of the houses has nothing to send).\<close>

theorem server_run_sound:
  assumes "server_run e (Single_new ps gb n g) s" "NULL \<notin> set ps" "TEST_GROUP < n"
  shows "(\<forall>p \<in> set (inflight s). live_buf s p)
    \<and> (\<forall>i r k p. smap_find (rooms s) i = Some r \<and> smap_find (m_student_map r) k = Some p \<and> p \<noteq> NULL
         \<longrightarrow> students s p \<noteq> None)
    \<and> (\<forall>h x k p. groups s h = Some x \<and> smap_find (m_node_map (m_make_house x)) k = Some p \<and> p \<noteq> NULL
         \<longrightarrow> nodes s p \<noteq> None)
    \<and> (\<forall>i r. smap_find (rooms s) i = Some r \<longrightarrow> m_buildhouse_groups r = [])"
proof -
  have s: "wt (set ps) {} s" using assms(1) wt_Single_new [OF assms(2,3)] by (rule server_run_wt)
  show ?thesis
    using wt_queued [OF s] wt_alive [OF s] wt_node_alive [OF s] wt_no_groups [OF s] by blast
qed

text \<open>A server with one room and two buffers; its receiving thread finds nothing to do.\<close>

definition one_room :: env where
  "one_room = (sample_env None)\<lparr>db_query := (\<lambda>q args. Some [\<lparr>getString = (\<lambda>_. []), getInt = (\<lambda>_. 3)\<rparr>])\<rparr>"

lemma server_run_sound_witness:
  "\<exists>s r. server_run one_room (Single_new [10, 11] (\<lambda>_. (\<lambda>_. 0, 0)) 100 (\<lambda>_ _. 0)) s
     \<and> smap_find (rooms s) 3 = Some r \<and> m_buildhouse_groups r = [] \<and> inflight s = [10, 11] \<and> live_buf s 11"
proof -
  let ?s0 = "Single_new [10, 11] (\<lambda>_. (\<lambda>_. 0, 0)) 100 (\<lambda>_ _. 0)"
  have "\<exists>i s r. CRoomManager_init one_room ?s0 = Inr (i, s) \<and> smap_find (rooms s) 3 = Some r \<and> inflight s = [10, 11]
      \<and> recvqueue s = []"
    by (simp add: CRoomManager_init_def one_room_def bnd_def sq_def new_addr_def modify_def ret_def Single_new_def
        inflight_def PoolT_new_def)
  then obtain i s r where s: "CRoomManager_init one_room ?s0 = Inr (i, s)" "smap_find (rooms s) 3 = Some r"
      "inflight s = [10, 11]" "recvqueue s = []" by blast
  have "RecvTask_round one_room s = Inr (Waited, s)"
    using s(4) by (simp add: RecvTask_round_def QueueT_dequeue_def bnd_def gets_def ret_def)
  then have run: "server_run one_room ?s0 s"
    by (rule server_run.Step [OF server_run.Start [OF s(1)] server_step.Handle])
  have "NULL \<notin> set [10, 11]" "TEST_GROUP < 100" by (simp_all add: NULL_def TEST_GROUP_def)
  from server_run_sound [OF run this] show ?thesis using run s by auto
qed

end
