(* ===== verification/System_Spec.thy ===== *)
theory System_Spec
  imports Relay_Spec Typing_Spec
begin

text \<open>
  The running process as a whole: the table of the event loop and the server's state, changed by the
  callbacks of the event loop and by the rounds of the other threads in any order.
\<close>

section \<open>The process\<close>

text \<open>The event loop alone changes the table; \<open>accept\<close> never gives a descriptor that is open, and data is
  reported for watched descriptors only.\<close>

inductive sys_step :: "evl \<times> srv \<Rightarrow> evl \<times> srv \<Rightarrow> bool" where
  Event: "possible ev v \<Longrightarrow> ev_callback ev v s = Inr (v', t) \<Longrightarrow> sys_step (v, s) (v', t)"
| Handle: "RecvTask_round e s = Inr (y, t) \<Longrightarrow> sys_step (v, s) (v, t)"
| Send: "SendTask_round ss err s = Inr (z, t) \<Longrightarrow> sys_step (v, s) (v, t)"
| Sync: "BHSyncTask_round now b s = Inr (w, t) \<Longrightarrow> sys_step (v, s) (v, t)"

inductive_cases sys_stepE: "sys_step (v, s) y"

inductive sys_run :: "env \<Rightarrow> evl \<times> srv \<Rightarrow> evl \<times> srv \<Rightarrow> bool" for e x0 where
  Start: "CRoomManager_init e (snd x0) = Inr (i, t) \<Longrightarrow> sys_run e x0 (fst x0, t)"
| Step: "sys_run e x0 x \<Longrightarrow> sys_step x y \<Longrightarrow> sys_run e x0 y"

text \<open>What the process looks like to the event loop, and what to the other threads.\<close>

lemma sys_step_server: "sys_step (v, s) (v', t) \<Longrightarrow> server_step s t \<or> t = s"
proof (erule sys_stepE)
  fix ev v1 t1
  assume "(v', t) = (v1, t1)" "possible ev v" "ev_callback ev v s = Inr (v1, t1)"
  then show ?thesis
    by (cases ev) (auto simp: ev_callback_def ret_def fail_def bnd_def split: sum.splits prod.splits intro: server_step.Read)
qed (auto intro: server_step.intros)

lemma sys_step_table: "sys_step (v, s) (v', t) \<Longrightarrow> ev_run v0 v \<Longrightarrow> ev_run v0 v'"
  by (erule sys_stepE) (auto intro: ev_run.callback)

lemma sys_run_server: "sys_run e x0 x \<Longrightarrow> server_run e (snd x0) (snd x)"
proof (induction rule: sys_run.induct)
  case (Step x y)
  then show ?case
    using sys_step_server [of "fst x" "snd x" "fst y" "snd y"] by (auto intro: server_run.Step)
qed (auto intro: server_run.Start)

lemma sys_run_table: "sys_run e x0 x \<Longrightarrow> ev_run (fst x0) (fst x)"
proof (induction rule: sys_run.induct)
  case (Step x y)
  then show ?case using sys_step_table [of "fst x" "snd x" "fst y" "snd y"] by simp
qed (auto intro: ev_run.start)

text \<open>C3: However long the server runs and in whatever order the callbacks of its event loop and the rounds of its
  other threads come, on whatever input: every buffer in the pool or in a queue exists and has \<open>MAX_BUF\<close> bytes,
  the student pointers in the rooms and the node pointers in the houses that are not \<open>NULL\<close> lead to objects that
  have not been deleted, no room ever has a house group (so the synchronisation of the houses has nothing to
  send), every entry of the table of clients that is set lies inside the table, and \<open>getClientCount\<close> is exactly the
  number of entries that are set.\<close>

theorem process_invariant:
  assumes "sys_run e (snd (Evloop_new ip port sock (evl_static err)), Single_new ps gb n g) (v, s)" "NULL \<notin> set ps" "TEST_GROUP < n"
  shows "(\<forall>p \<in> set (inflight s). live_buf s p)
    \<and> (\<forall>i r k p. smap_find (rooms s) i = Some r \<and> smap_find (m_student_map r) k = Some p \<and> p \<noteq> NULL
         \<longrightarrow> students s p \<noteq> None)
    \<and> (\<forall>h x k p. groups s h = Some x \<and> smap_find (m_node_map (m_make_house x)) k = Some p \<and> p \<noteq> NULL
         \<longrightarrow> nodes s p \<noteq> None)
    \<and> (\<forall>i r. smap_find (rooms s) i = Some r \<longrightarrow> m_buildhouse_groups r = [])
    \<and> (\<forall>fd. io v fd \<longrightarrow> 0 < fd \<and> fd < MAXFD) \<and> unat (getClientCount v) = card {fd. io v fd}"
  using server_run_sound [OF sys_run_server [OF assms(1), unfolded snd_conv] assms(2,3)]
    client_table_invariant [OF sys_run_table [OF assms(1), unfolded fst_conv]] by blast

section \<open>A client that has gone\<close>

text \<open>A server with one room and two buffers, and its first client.\<close>

definition first_table :: evl where
  "first_table = snd (Evloop_new ''0.0.0.0'' 9999 3 (evl_static 0))"

definition first_state :: srv where
  "first_state = Single_new [10, 11] (\<lambda>_. (\<lambda>_. 0, 0)) 100 (\<lambda>_ _. 0)"

lemma rooms_loaded:
  "\<exists>i s r. CRoomManager_init one_room first_state = Inr (i, s) \<and> rooms s = [(3, r)] \<and> m_student_map r = []
     \<and> m_teacher_fd r = - 1 \<and> m_white_fd r = - 1 \<and> pool_queue (bufpool s) = [10, 11] \<and> recvqueue s = []
     \<and> sendqueue s = [] \<and> (\<exists>b c. bufs s 10 = Some b \<and> bufs s 11 = Some c \<and> m_size b = MAX_BUF \<and> m_size c = MAX_BUF)"
  by (simp add: CRoomManager_init_def one_room_def bnd_def sq_def new_addr_def modify_def ret_def first_state_def
      Single_new_def PoolT_new_def CRoom_new_def Buf_new_def)

lemma first_client: "\<exists>v. ev_callback (Connected 7 0) first_table s = Inr (v, s) \<and> io v = (\<lambda>fd. fd = 7) \<and> possible (Connected 7 0) first_table"
  by (auto simp: ev_callback_def accept_cb_def first_table_def MAXFD_def ret_def possible_def fun_eq_iff)

text \<open>The client asks to be the whiteboard of the room and is gone before its packet is looked at.\<close>

definition board_pieces :: "recvres list" where
  "board_pieces = [Data (le32 16)] @ [Data (le32 CT_SelectedClassRoom @ le32 3 @ le32 MCT_WHITEBOARD)]"

lemma board_received:
  assumes "io v = (\<lambda>fd. fd = 7)" "pool_queue (bufpool s) = [10, 11]" "bufs s 10 = Some b" "m_size b = MAX_BUF" "recvqueue s = []"
  shows "\<exists>v' t c. ev_callback (Readable 7 0 board_pieces) v s = Inr (v', t) \<and> io v' = io v \<and> recvqueue t = [10]
     \<and> pool_queue (bufpool t) = [11] \<and> sendqueue t = sendqueue s \<and> bufs t = (bufs s)(10 \<mapsto> c) \<and> m_size c = MAX_BUF
     \<and> m_fd c = 7 \<and> bytes_at (m_ptr c) 0 16 = le32 16 @ le32 CT_SelectedClassRoom @ le32 3 @ le32 MCT_WHITEBOARD
     \<and> world t = world s"
proof -
  have "unat (16 :: u32) = 4 + length (le32 CT_SelectedClassRoom @ le32 3 @ le32 MCT_WHITEBOARD)" by simp
  from recv_cb_run [OF assms(2) _ assms(3,4) _ _ _ this, of "[Data (le32 16)]"
      "[Data (le32 CT_SelectedClassRoom @ le32 3 @ le32 MCT_WHITEBOARD)]" 7 0 v]
  obtain v' rs' t b' where "recv_cb 7 0 board_pieces v s = Inr ((v', rs'), t)"
    "recvqueue t = recvqueue s @ [10]" "pool_queue (bufpool t) = [11]" "sendqueue t = sendqueue s"
    "m_fd b' = 7" "bytes_at (m_ptr b') 0 16 = le32 16 @ le32 CT_SelectedClassRoom @ le32 3 @ le32 MCT_WHITEBOARD"
    "m_size b' = MAX_BUF" "bufs t = (bufs s)(10 \<mapsto> b')" "world t = world s" "io v' = io v"
    unfolding board_pieces_def by (auto simp: NULL_def goes_on_def le32_def MAX_BUF_def)
  then show ?thesis using assms(5) by (auto simp: ev_callback_def bnd_def ret_def)
qed

lemma wp_pool_malloc_run: "pool_queue (bufpool s) = q # r \<Longrightarrow>
    wp pool_malloc Q s \<longleftrightarrow> Q q (s\<lparr>bufpool := (bufpool s)\<lparr>pool_queue := r\<rparr>\<rparr>)"
  by (simp add: wp_def pool_malloc_run)

lemma empty_room_told:
  assumes "rooms s = [(3, r)]" "m_student_map r = []" "m_teacher_fd r = - 1" "m_white_fd r = - 1"
    and "pool_queue (bufpool s) = [11]" "bufs s 11 = Some c" "m_size c = MAX_BUF" "recvqueue s = [10]" "bufs s 10 = Some b"
  shows "wp (CRoomManager_del_client 7) (\<lambda>_ t. rooms t = rooms s \<and> recvqueue t = [10] \<and> bufs t 10 = Some b) s"
  using assms
  by (simp add: CRoomManager_del_client_def CRoom_del_client_def update_all_student_status_def wp_pool_malloc_run
      mark_offline_def tell_and_remove_def wp_simps head_defs wr32_def buf_reset_def upd_buf_def set_buf_def NULL_def
      pool_free_def PoolT_free_def Buf_reset_def MAX_BUF_def MSG_HEAD_LEN_def)

lemma client_gone:
  assumes "io v = (\<lambda>fd. fd = 7)" "rooms s = [(3, r)]" "m_student_map r = []" "m_teacher_fd r = - 1" "m_white_fd r = - 1"
    and "pool_queue (bufpool s) = [11]" "bufs s 11 = Some c" "m_size c = MAX_BUF" "recvqueue s = [10]" "bufs s 10 = Some b"
  shows "wp (ev_callback (Readable 7 1 [RecvErr 104]) v)
    (\<lambda>v' t. \<not> io v' 7 \<and> rooms t = rooms s \<and> recvqueue t = [10] \<and> bufs t 10 = Some b) s"
proof -
  let ?s = "s\<lparr>bufpool := PoolT_free 11 ((bufpool s)\<lparr>pool_queue := []\<rparr>)\<rparr>"
  have "wp (CRoomManager_del_client 7) (\<lambda>_ t. rooms t = rooms ?s \<and> recvqueue t = [10] \<and> bufs t 10 = Some b) ?s"
    by (rule empty_room_told) (use assms in \<open>simp_all add: PoolT_free_def\<close>)
  then have "wp (closefd 7 (v\<lparr>ev_errno := 104\<rparr>)) (\<lambda>v' t. \<not> io v' 7 \<and> rooms t = rooms s \<and> recvqueue t = [10] \<and> bufs t 10 = Some b) ?s"
    using assms(1) by (auto simp: closefd_def wp_simps MAXFD_def elim!: wp_mono)
  then show ?thesis
    using assms(6) by (simp add: ev_callback_def recv_cb_def wp_simps wp_pool_malloc_run NULL_def transient_def EAGAIN_def EINTR_def pool_free_def
        split_beta wp_ret [abs_def])
qed

text \<open>The packet that waited is handled all the same.\<close>

lemma sSelectedClassRoom_fields:
  assumes "bytes_at m 0 16 = le32 16 @ le32 CT_SelectedClassRoom @ le32 3 @ le32 MCT_WHITEBOARD"
  shows "get32 m 4 = CT_SelectedClassRoom" "get32 m 8 = 3" "get32 m 12 = MCT_WHITEBOARD"
proof -
  have "bytes_at m 0 4 @ bytes_at m 4 4 @ bytes_at m 8 4 @ bytes_at m 12 4
      = le32 16 @ le32 CT_SelectedClassRoom @ le32 3 @ le32 MCT_WHITEBOARD"
    using assms bytes_at_split [of m 0 4 12] bytes_at_split [of m 4 4 8] bytes_at_split [of m 8 4 4] by simp
  then show "get32 m 4 = CT_SelectedClassRoom" "get32 m 8 = 3" "get32 m 12 = MCT_WHITEBOARD"
    by (simp_all add: append_eq_append_conv get32_of_bytes_at)
qed

lemma late_packet:
  assumes "rooms s = [(3, r)]" "recvqueue s = [10]" "bufs s 10 = Some b" "m_size b = MAX_BUF" "m_fd b = 7"
    and "bytes_at (m_ptr b) 0 16 = le32 16 @ le32 CT_SelectedClassRoom @ le32 3 @ le32 MCT_WHITEBOARD"
  shows "wp (RecvTask_round e) (\<lambda>_ t. rooms t = [(3, r\<lparr>m_white_fd := 7\<rparr>)]) s"
proof -
  let ?s = "s\<lparr>recvqueue := []\<rparr>"
  have h: "getHandler CT_SelectedClassRoom = Some (\<lambda>e. handleSelectedClassRoom)"
    by (simp add: getHandler_table MSGHANDLE_def cmd_defs)
  have d: "wp (debugProtocol 10) Q ?s" if "\<And>x. Q x ?s" for Q
    using debugProtocol_runs [of ?s 10 b] that assms(3,4) by (auto simp: wp_def NULL_def)
  have "wp (handle_packet e 10) (\<lambda>_ t. rooms t = [(3, r\<lparr>m_white_fd := 7\<rparr>)]) ?s"
    unfolding handle_packet_def wp_bnd
    by (rule d)
       (use assms(1,3-5) sSelectedClassRoom_fields [OF assms(6)] in \<open>simp add: wp_simps head_defs rd32_def get_fd_def h
         handleSelectedClassRoom_def CRoomManager_get_room_def set_white_fd_def upd_room_def set_room_def pool_free_def
         MCT_WHITEBOARD_def MCT_STUDENT_def MSG_HEAD_LEN_def MAX_BUF_def NULL_def\<close>)
  then show ?thesis
    using assms(2) by (simp add: RecvTask_round_def wp_simps QueueT_dequeue_def NULL_def wp_ret [abs_def])
qed

text \<open>C34: A client that has gone can still take a place in a room: the packet with which it asked for the place waits
  in the receive queue, and closing the connection removes the client from the rooms but not its packets from the
  queue.  A state is reachable in which the whiteboard of a room is a descriptor that is not open, and
  the next client for which \<open>accept\<close> gives this descriptor is the whiteboard without having sent anything.\<close>

theorem closed_client_keeps_place:
  "\<exists>v s r v'. sys_run one_room (first_table, first_state) (v, s) \<and> smap_find (rooms s) 3 = Some r \<and> \<not> io v 7
     \<and> m_white_fd r = 7 \<and> ev_callback (Connected 7 9) v s = Inr (v', s) \<and> io v' 7
     \<and> route is_white m_teacher_fd (rooms s) 7 = Some (m_teacher_fd r)"
proof -
  obtain i s1 r b c where s1: "CRoomManager_init one_room first_state = Inr (i, s1)" "rooms s1 = [(3, r)]" "m_student_map r = []"
    "m_teacher_fd r = - 1" "m_white_fd r = - 1" "pool_queue (bufpool s1) = [10, 11]" "recvqueue s1 = []"
    "bufs s1 10 = Some b" "bufs s1 11 = Some c" "m_size b = MAX_BUF" "m_size c = MAX_BUF"
    using rooms_loaded by blast
  obtain v1 where v1: "ev_callback (Connected 7 0) first_table s1 = Inr (v1, s1)" "io v1 = (\<lambda>fd. fd = 7)"
    "possible (Connected 7 0) first_table"
    using first_client by blast
  obtain v2 s2 b2 where s2: "ev_callback (Readable 7 0 board_pieces) v1 s1 = Inr (v2, s2)" "io v2 = io v1" "recvqueue s2 = [10]"
    "pool_queue (bufpool s2) = [11]" "bufs s2 = (bufs s1)(10 \<mapsto> b2)" "m_size b2 = MAX_BUF" "m_fd b2 = 7"
    "bytes_at (m_ptr b2) 0 16 = le32 16 @ le32 CT_SelectedClassRoom @ le32 3 @ le32 MCT_WHITEBOARD" "world s2 = world s1"
    using board_received [OF v1(2) s1(6,8,10,7)] by blast
  have r2: "rooms s2 = [(3, r)]" using world_eqs [OF s2(9)] s1(2) by simp
  have "wp (ev_callback (Readable 7 1 [RecvErr 104]) v2)
      (\<lambda>v' t. \<not> io v' 7 \<and> rooms t = rooms s2 \<and> recvqueue t = [10] \<and> bufs t 10 = Some b2) s2"
    by (rule client_gone [where r = r and c = c]) (use s1 v1 s2 r2 in simp_all)
  then obtain v3 s3 where s3: "ev_callback (Readable 7 1 [RecvErr 104]) v2 s2 = Inr (v3, s3)" "\<not> io v3 7" "rooms s3 = [(3, r)]"
    "recvqueue s3 = [10]" "bufs s3 10 = Some b2"
    using r2 by (auto dest: wpD)
  obtain y s4 where s4: "RecvTask_round one_room s3 = Inr (y, s4)" "rooms s4 = [(3, r\<lparr>m_white_fd := 7\<rparr>)]"
    using wpD [OF late_packet [OF s3(3-5) s2(6-8), of one_room]] by blast
  have "sys_run one_room (first_table, first_state) (first_table, s1)"
    using sys_run.Start [of one_room "(first_table, first_state)"] s1(1) by simp
  then have "sys_run one_room (first_table, first_state) (v1, s1)"
    by (rule sys_run.Step [OF _ sys_step.Event [OF v1(3,1)]])
  then have "sys_run one_room (first_table, first_state) (v2, s2)"
    by (rule sys_run.Step [OF _ sys_step.Event [OF _ s2(1)]]) (simp add: possible_def v1(2))
  then have "sys_run one_room (first_table, first_state) (v3, s3)"
    by (rule sys_run.Step [OF _ sys_step.Event [OF _ s3(1)]]) (simp add: possible_def s2(2) v1(2))
  then have "sys_run one_room (first_table, first_state) (v3, s4)"
    by (rule sys_run.Step [OF _ sys_step.Handle [OF s4(1)]])
  moreover have "\<exists>v'. ev_callback (Connected 7 9) v3 s4 = Inr (v', s4) \<and> io v' 7"
    by (simp add: ev_callback_def accept_cb_def MAXFD_def ret_def)
  ultimately show ?thesis
    using s3(2) s4(2) by (fastforce simp: route_def is_white_def room_knows_def)
qed

lemma process_invariant_witness:
  "\<exists>v s. sys_run one_room (first_table, first_state) (v, s) \<and> io v 7 \<and> unat (getClientCount v) = card {fd. io v fd}
     \<and> live_buf s 11 \<and> inflight s = [10, 11]"
proof -
  obtain i s1 where s1: "CRoomManager_init one_room first_state = Inr (i, s1)" "pool_queue (bufpool s1) = [10, 11]"
    "recvqueue s1 = []" "sendqueue s1 = []"
    using rooms_loaded by blast
  obtain v1 where v1: "ev_callback (Connected 7 0) first_table s1 = Inr (v1, s1)" "io v1 = (\<lambda>fd. fd = 7)"
    "possible (Connected 7 0) first_table"
    using first_client by blast
  have "sys_run one_room (first_table, first_state) (first_table, s1)"
    using sys_run.Start [of one_room "(first_table, first_state)"] s1(1) by simp
  then have r: "sys_run one_room (first_table, first_state) (v1, s1)"
    by (rule sys_run.Step [OF _ sys_step.Event [OF v1(3,1)]])
  have "NULL \<notin> set [10, 11]" "TEST_GROUP < 100" by (simp_all add: NULL_def TEST_GROUP_def)
  from process_invariant [OF r [unfolded first_table_def first_state_def] this] show ?thesis
    using r v1(2) s1(2-4) by (intro exI [of _ v1] exI [of _ s1]) (simp add: inflight_def)
qed

end
