(* ===== verification/Sql_Spec.thy ===== *)
theory Sql_Spec
  imports Sql Dispatch_Spec
begin

text \<open>
  Which queries are executed with the right number of values: all of them but those for the items of the
  courses, which have four places for as many values as the teacher has chosen courses.
\<close>

section \<open>Queries with a fixed number of values\<close>

text \<open>A driver that counts the values, made from one that does not.\<close>

definition strict :: "env \<Rightarrow> env" where
  "strict e = e\<lparr>db_query := (\<lambda>q args. if length args = placeholders q then db_query e q args else None)\<rparr>"

lemma strict_checks: "driver_checks (strict e)"
  by (simp add: driver_checks_def strict_def)

lemma strict_bound: "length args = placeholders q \<Longrightarrow> db_query (strict e) q args = db_query e q args"
  by (simp add: strict_def)

lemma strict_other [simp]: "time_now (strict e) = time_now e" "can_open_picture (strict e) = can_open_picture e"
  "swap_right_first (strict e) = swap_right_first e"
  by (simp_all add: strict_def)

lemma placeholders_tables:
  "iCase \<noteq> 6 \<Longrightarrow> placeholders (SQL_COUNT (count_tables iCase)) = 0" "iCase = 6 \<Longrightarrow> placeholders (SQL_COUNT (count_tables iCase)) = 4"
  by (simp_all add: placeholders_count count_tables_def)

lemma strict_count: "iCase \<noteq> 6 \<Longrightarrow> postDBRecordCount (strict e) p iCase = postDBRecordCount e p iCase"
  by (simp add: postDBRecordCount_def bnd_def ret_def strict_bound placeholders_tables fun_eq_iff)

lemma strict_record: "iCase \<noteq> 6 \<Longrightarrow> postDBRecord (strict e) p iCase = postDBRecord e p iCase"
proof (cases "1 \<le> iCase \<and> iCase \<le> 6")
  case True
  moreover assume "iCase \<noteq> 6"
  ultimately have "placeholders (record_sql iCase) = 0"
    by (simp add: record_sql_def placeholders_records)
  then show ?thesis
    using \<open>iCase \<noteq> 6\<close> by (simp add: postDBRecord_def bnd_def ret_def strict_bound fun_eq_iff)
qed (auto simp: postDBRecord_def)

lemma strict_login: "handleLogin (strict e) p = handleLogin e p"
proof -
  have "login_student (strict e) fd u pw = login_student e fd u pw" "login_teacher (strict e) u pw = login_teacher e u pw"
    "login_whiteboard (strict e) u = login_whiteboard e u" for fd u pw
    by (simp_all only: login_student_def login_teacher_def login_whiteboard_def strict_bound placeholders_login
        list.size One_nat_def add_0 add_0_right plus_nat.simps numeral_2_eq_2)
  then show ?thesis by (simp only: handleLogin_def LoginCheck_check_def)
qed

lemma strict_class_room:
  "handleSetCourseGroup (strict e) p = handleSetCourseGroup e p"
  "handleGetStudentDetailInfo (strict e) p = handleGetStudentDetailInfo e p"
  "handleGetTeacherInfo (strict e) p = handleGetTeacherInfo e p"
  "handleGetCourseItemKeyInfoReq (strict e) p = handleGetCourseItemKeyInfoReq e p"
  by (simp_all only: handleSetCourseGroup_def handleGetStudentDetailInfo_def handleGetTeacherInfo_def
      handleGetCourseItemKeyInfoReq_def strict_bound placeholders_class_room list.size One_nat_def add_0 add_0_right
      plus_nat.simps numeral_2_eq_2)

lemma strict_puzzle:
  "handlePuzzle_GameStart (strict e) p = handlePuzzle_GameStart e p" "handlePuzzle_EndGame (strict e) p = handlePuzzle_EndGame e p"
  "handlePuzzle_GetPic (strict e) p = handlePuzzle_GetPic e p"
  by (simp_all only: handlePuzzle_GameStart_def handlePuzzle_EndGame_def handlePuzzle_GetPic_def
      GetPic_among_def strict_other)

lemmas record_handler_defs = handleGetCourseDBCount_def handleGetCourseDB_def handleGetClassRoomDBCount_def
  handleGetClassRoomDB_def handleGetGradeDBCount_def handleGetGradeDB_def handleGetClassDBCount_def handleGetClassDB_def
  handleGetAllStudentInfoCount_def handleGetAllStudentInfo_def

lemma strict_table:
  "list_all (\<lambda>(ct, h). ct = CT_GetCourseItem \<or> ct = CT_GetCourseItemCount \<or> (\<forall>e p. h (strict e) p = h e p)) MSGHANDLE"
  unfolding MSGHANDLE_def
  by (simp add: strict_login strict_class_room strict_puzzle strict_count strict_record record_handler_defs)

text \<open>C4: Whatever type of packet arrives, but for the two that ask for the items of the courses, its handler
  gives every query exactly the values that its text has places for: a driver that refuses all others makes no
  difference.\<close>

theorem queries_bound:
  assumes "getHandler ct = Some h" "ct \<noteq> CT_GetCourseItem" "ct \<noteq> CT_GetCourseItemCount"
  shows "h (strict e) p = h e p"
  using strict_table assms map_of_SomeD [of MSGHANDLE ct h] by (auto simp: getHandler_table list_all_iff)

lemma queries_bound_witness: "handleLogin (strict (sample_env None)) 10 = handleLogin (sample_env None) 10"
  by (rule queries_bound [of CT_Login]) (simp_all add: getHandler_table MSGHANDLE_def cmd_defs)

section \<open>The items of the courses\<close>

lemma wp_course_args:
  assumes "own U n [(p, b)] X w s" "find_room (rooms s) (m_fd b) = Some rid" "smap_find (rooms s) rid = Some r"
    and "Q (map (\<lambda>c. ArgString (CCourse.m_name c)) (m_course_list r)) s"
  shows "wp (course_args p) Q s"
  unfolding course_args_def wp_bnd
  apply (rule own_get_fd [OF assms(1)])
   apply simp
  apply (simp add: wp_get_room_by_fd assms(2))
  apply (simp add: wp_bnd wp_deref_room wp_ret assms(3,4))
  done

text \<open>C38: A client of a room for which the teacher has not chosen exactly four courses asks for the items of the
  courses: the driver refuses the query and the client never gets an answer, not even that the list is finished;
  the request for their number is not recycled either and its buffer is lost.\<close>

theorem course_items_unanswered:
  assumes "driver_checks e" "own U n [(p, b)] X w s" "find_room (rooms s) (m_fd b) = Some rid"
    and "smap_find (rooms s) rid = Some r" "length (m_course_list r) \<noteq> 4"
  shows "wp (handleGetCourseItem e p) (\<lambda>_. own U (Suc n) [] X w) s
    \<and> wp (handleGetCourseItemCount e p) (\<lambda>_. own U n [(p, b)] X w) s"
proof
  have p: "p \<noteq> NULL" using own_buf [OF assms(2)] by simp
  have "placeholders (record_sql 6) = 4" by (simp add: record_sql_def placeholders_records)
  then have n: "db_query e (record_sql 6) args = None" "db_query e (SQL_COUNT (count_tables 6)) args = None"
    if "length args = length (m_course_list r)" for args
    using assms(1,5) that by (simp_all add: driver_checks_def placeholders_tables)
  show "wp (handleGetCourseItem e p) (\<lambda>_. own U (Suc n) [] X w) s"
    unfolding handleGetCourseItem_def postDBRecord_def
    using p by (auto simp: wp_simps ignore_def n intro!: wp_course_args [OF assms(2-4)] own_buf_reset [OF assms(2)] own_pool_free)
  show "wp (handleGetCourseItemCount e p) (\<lambda>_. own U n [(p, b)] X w) s"
    unfolding handleGetCourseItemCount_def postDBRecordCount_def
    using p assms(2) by (auto simp: wp_simps ignore_def n intro!: wp_course_args [OF assms(2-4)])
qed

lemma course_items_unanswered_witness:
  "wp (handleGetCourseItem (strict (sample_env (Some []))) 10) (\<lambda>_ t. sent t = []) (sample_srv 5 CT_GetCourseItem)"
  by (rule wp_mono [OF conjunct1 [OF course_items_unanswered [OF strict_checks sample_own, where rid = 1 and r = "room0 5 6 [(7, 20)]"]]])
     (auto simp: sample_simps room0_def CRoom_new_def dest: own_sent)

end
