(* ===== verification/Auth.thy ===== *)
theory Auth
  imports Sock
begin

text \<open>
  The authorization service: \<open>auth/authServer.c\<close> (one forked child per client), \<open>auth/client.c\<close>,
  the loops of \<open>auth/sock.c\<close>, and the server's own side in \<open>confirm.hpp\<close> and \<open>AuthTask.cpp\<close>.  A
  request is two fields of 64 bytes, the answer one byte.  The answers of the kernel are arguments.
\<close>

definition AUTH_FIELD :: nat where "AUTH_FIELD = 64"

section \<open>The client\<close>

text \<open>\<open>sprintf\<close> into \<open>char[64]\<close> inside a zeroed buffer.\<close>

definition auth_request :: "cstring \<Rightarrow> cstring \<Rightarrow> fault + byte list" where
  "auth_request username password =
     (case (strcpy_field AUTH_FIELD username, strcpy_field AUTH_FIELD password) of
        (Some u, Some p) \<Rightarrow> Inr (u @ p)
      | _ \<Rightarrow> Inl OutOfBounds)"

definition auth_answer :: "byte \<Rightarrow> string" where
  "auth_answer c = (if c = 0 then ''not authorize'' else if c = 1 then ''authorize''
     else ''invalid authorize flag'')"

section \<open>The loops\<close>

text \<open>\<open>auth/sock.c\<close> has the text of \<open>send_n\<close>, \<open>recv_n\<close> and \<open>send_v\<close> that \<open>Sock.c\<close> has.\<close>

definition auth_send_n :: "(selres \<times> sendres) list \<Rightarrow> byte list option \<Rightarrow> bool \<Rightarrow> (int \<times> byte list) option" where
  "auth_send_n rs buf timeout = (if buf = None \<or> \<not> timeout then Some (- 1, []) else send_n_loop rs (the buf) [])"

definition auth_recv_n :: "(selres \<times> recvres) list \<Rightarrow> bool \<Rightarrow> nat \<Rightarrow> bool \<Rightarrow> (int \<times> byte list) option" where
  "auth_recv_n rs buf left timeout = (if \<not> buf \<or> \<not> timeout then Some (- 1, []) else recv_n_loop rs left [])"

definition auth_send_v :: "sendres list \<Rightarrow> int \<Rightarrow> byte list option \<Rightarrow> sent_result" where
  "auth_send_v rs e buf = (case buf of None \<Rightarrow> Some (- 1, [], rs, e) | Some bs \<Rightarrow> send_v_loop rs e bs 0 [])"

text \<open>Its \<open>recv_v\<close> looks at \<open>errno\<close> before the result, so data that arrives while it is left over from a
  transient failure is overwritten by the next call.\<close>

definition put_bytes :: "byte list \<Rightarrow> nat \<Rightarrow> byte list \<Rightarrow> byte list" where
  "put_bytes buf a d = take a buf @ d @ drop (a + length d) buf"

fun auth_recv_v :: "recvres list \<Rightarrow> int \<Rightarrow> byte list \<Rightarrow> nat \<Rightarrow> nat \<Rightarrow> (int \<times> byte list) option" where
  "auth_recv_v [] e buf left recved = (if left = 0 then Some (int recved, buf) else None)"
| "auth_recv_v (r # rs) e buf left recved =
     (if left = 0 then Some (int recved, buf) else
      case r of
        Data bs \<Rightarrow> (let d = take left bs; buf' = put_bytes buf recved d in
          if transient e then auth_recv_v rs e buf' left recved
          else if d = [] then Some (int recved, buf')
          else auth_recv_v rs e buf' (left - length d) (recved + length d))
      | RecvErr e' \<Rightarrow>
          if transient e' then auth_recv_v rs e' buf left recved else Some (- 1, buf))"

text \<open>The client sends the request, clears the buffer and waits for one byte; nobody looks at what the two
  loops return.  The result is the exit code, the bytes sent and the line printed.\<close>

definition auth_client_main ::
  "cstring list \<Rightarrow> bool \<Rightarrow> bool \<Rightarrow> sendres list \<Rightarrow> recvres list \<Rightarrow> int \<Rightarrow> (fault + int \<times> byte list \<times> string) option" where
  "auth_client_main argv socket_ok connect_ok srs rrs e =
     (if length argv \<noteq> 3 then Some (Inr (1, [], ''usage'')) else
      if \<not> socket_ok then Some (Inr (1, [], ''oops: socket'')) else
      if \<not> connect_ok then Some (Inr (1, [], ''oops: connect'')) else
      case auth_request (argv ! 1) (argv ! 2) of
        Inl f \<Rightarrow> Some (Inl f)
      | Inr buf \<Rightarrow>
          (case auth_send_v srs e (Some buf) of None \<Rightarrow> None
           | Some (r, out, srs', e') \<Rightarrow>
               (case auth_recv_v rrs e' (replicate 128 0) 1 0 of None \<Rightarrow> None
                | Some (n, buf') \<Rightarrow> Some (Inr (0, out, auth_answer (buf' ! 0))))))"

section \<open>The server\<close>

text \<open>A C string inside the request; without a terminating zero it is read past the buffer.\<close>

definition auth_string :: "byte list \<Rightarrow> nat \<Rightarrow> cstring option" where
  "auth_string buf a = (let s = takeWhile (\<lambda>c. c \<noteq> 0) (drop a buf) in
     if a + length s < length buf then Some s else None)"

definition authorize :: "cstring \<Rightarrow> cstring \<Rightarrow> byte list \<Rightarrow> fault + byte" where
  "authorize user pass buf =
     (case (auth_string buf 0, auth_string buf AUTH_FIELD) of
        (Some u, Some p) \<Rightarrow> Inr (if u = user \<and> p = pass then 1 else 0)
      | _ \<Rightarrow> Inl OutOfBounds)"

text \<open>The child of one client: the request is read into a zeroed buffer and answered, unless
  nothing at all arrived.  The result is the bytes sent back.\<close>

definition auth_child :: "cstring \<Rightarrow> cstring \<Rightarrow> recvres list \<Rightarrow> sendres list \<Rightarrow> int \<Rightarrow> (fault + byte list) option" where
  "auth_child user pass rrs srs e =
     (case auth_recv_v rrs e (replicate 128 0) 128 0 of
        None \<Rightarrow> None
      | Some (n, buf) \<Rightarrow>
          if n \<le> 0 then Some (Inr [])
          else (case authorize user pass buf of
                  Inl f \<Rightarrow> Some (Inl f)
                | Inr flag \<Rightarrow>
                    (case auth_send_v srs e (Some [flag]) of None \<Rightarrow> None
                     | Some (r, out, srs', e') \<Rightarrow> Some (Inr out))))"

text \<open>The parent accepts one client after the other and forks a child for it; when \<open>fork\<close> fails it closes the
  connection.  What happens is the list of connections with the outcome of their child; the loop
  ends when \<open>accept\<close> fails, and still waits (\<open>None\<close>) at the end of the list.\<close>

record connection =
  c_fd :: int
  c_forked :: bool
  c_errno :: int
  c_recvs :: "recvres list"
  c_sends :: "sendres list"

type_synonym auth_log = "(int \<times> (fault + byte list) option) list"

fun auth_serve :: "cstring \<Rightarrow> cstring \<Rightarrow> connection option list \<Rightarrow> int option \<times> auth_log" where
  "auth_serve user pass [] = (None, [])"
| "auth_serve user pass (None # cs) = (Some 1, [])"
| "auth_serve user pass (Some c # cs) =
     (let (r, l) = auth_serve user pass cs in
      if c_forked c then (r, (c_fd c, auth_child user pass (c_recvs c) (c_sends c) (c_errno c)) # l) else (r, l))"

definition auth_server_main ::
  "cstring list \<Rightarrow> bool \<Rightarrow> bool \<Rightarrow> bool \<Rightarrow> connection option list \<Rightarrow> int option \<times> auth_log" where
  "auth_server_main argv socket_ok bind_ok listen_ok cs =
     (if length argv \<noteq> 3 then (Some 1, []) else
      if \<not> socket_ok then (Some 1, []) else
      if \<not> bind_ok then (Some 1, []) else
      if \<not> listen_ok then (Some 1, []) else
      auth_serve (argv ! 1) (argv ! 2) cs)"

section \<open>The server's own authorization\<close>

text \<open>\<open>memcpy\<close> of 64 bytes out of a \<open>std::string\<close>, whose storage ends with its terminating zero.\<close>

definition confirm_field :: "cstring \<Rightarrow> byte list option" where
  "confirm_field s = (if AUTH_FIELD \<le> length s + 1 then Some (take AUTH_FIELD (s @ [0])) else None)"

definition confirm_buf :: "cstring \<Rightarrow> cstring \<Rightarrow> fault + byte list" where
  "confirm_buf username passwd =
     (case (confirm_field username, confirm_field passwd) of
        (Some u, Some p) \<Rightarrow> Inr (u @ p) | _ \<Rightarrow> Inl OutOfBounds)"

definition Confirm_send_data :: "sendres list \<Rightarrow> int \<Rightarrow> byte list \<Rightarrow> (byte list \<times> sendres list \<times> int) option" where
  "Confirm_send_data rs e buf = send_all rs e buf []"

text \<open>The constructor: without a connection the process exits (\<open>None\<close>), and the buffer is filled only
  afterwards.\<close>

definition Confirm_new :: "bool \<Rightarrow> bool \<Rightarrow> cstring \<Rightarrow> cstring \<Rightarrow> (fault + byte list) option" where
  "Confirm_new socket_ok connect_ok username passwd =
     (if \<not> socket_ok then None else if \<not> connect_ok then None else Some (confirm_buf username passwd))"

text \<open>The answer is received into an \<open>int\<close> that is 0; each result of \<open>recv\<close> comes with the time.\<close>

datatype confirm_result = Flag u32 | TimedOut | AssertFailed

fun Confirm_recv_data :: "int \<Rightarrow> (recvres \<times> int) list \<Rightarrow> confirm_result option" where
  "Confirm_recv_data old [] = None"
| "Confirm_recv_data old ((r, now) # rs) =
     (case r of
        RecvErr e \<Rightarrow> Some AssertFailed
      | Data bs \<Rightarrow> (let d = take 4 bs in
          if d = [] then (if 15 \<le> now - old then Some TimedOut else Confirm_recv_data old rs)
          else Some (Flag (get32 (copy_list (\<lambda>_. 0) 0 d) 0))))"

text \<open>How a confirmation ends: with the answer, by \<open>exit (-1)\<close> because there is no connection or no answer, or by an
  assertion because receiving fails.\<close>

datatype confirmation = Answer bool | NoAnswer | ReceiveFailed

text \<open>Sending, then receiving; \<open>old\<close> is the time when the receiving starts.  The second component are the bytes sent.\<close>

definition Confirm_confirm :: "byte list \<Rightarrow> sendres list \<Rightarrow> int \<Rightarrow> int \<Rightarrow> (recvres \<times> int) list \<Rightarrow> (confirmation \<times> byte list) option" where
  "Confirm_confirm buf srs e old rrs =
     (case Confirm_send_data srs e buf of None \<Rightarrow> None
      | Some (out, srs', e') \<Rightarrow> map_option
          (\<lambda>r. (case r of Flag f \<Rightarrow> Answer (f = 1) | TimedOut \<Rightarrow> NoAnswer | AssertFailed \<Rightarrow> ReceiveFailed, out))
          (Confirm_recv_data old rrs))"

text \<open>\<open>Confirm ().confirm ()\<close> with the answers of the kernel; a list that runs out is a call that still waits.\<close>

record confirm_host =
  cf_socket :: bool
  cf_connect :: bool
  cf_sends :: "sendres list"
  cf_errno :: int
  cf_start :: int
  cf_recvs :: "(recvres \<times> int) list"

definition Confirm_run :: "confirm_host \<Rightarrow> cstring \<Rightarrow> cstring \<Rightarrow> fault + confirmation" where
  "Confirm_run k username passwd =
     (case Confirm_new (cf_socket k) (cf_connect k) username passwd of
        None \<Rightarrow> Inr NoAnswer
      | Some (Inl f) \<Rightarrow> Inl f
      | Some (Inr buf) \<Rightarrow>
          (case Confirm_confirm buf (cf_sends k) (cf_errno k) (cf_start k) (cf_recvs k) of
             None \<Rightarrow> Inl Blocked | Some (r, out) \<Rightarrow> Inr r))"

definition INTERVAL_TIME :: int where "INTERVAL_TIME = 60"

definition AuthTask_new :: "int \<Rightarrow> int" where
  "AuthTask_new now = now"

text \<open>One round of \<open>AuthTask::work\<close>: the new \<open>m_oldtime\<close>, or \<open>None\<close> when the process exits.
  \<open>ok\<close> is the outcome of the confirmation, if one is made.\<close>

definition AuthTask_round :: "int \<Rightarrow> bool \<Rightarrow> int \<Rightarrow> int option" where
  "AuthTask_round now ok old =
     (if INTERVAL_TIME < now - old then (if ok then Some now else None) else Some old)"

text \<open>The endless loop over the rounds, each with its time and the outcome of its confirmation.\<close>

fun AuthTask_work :: "(int \<times> bool) list \<Rightarrow> int \<Rightarrow> int option" where
  "AuthTask_work [] old = Some old"
| "AuthTask_work ((now, ok) # rs) old = (case AuthTask_round now ok old of None \<Rightarrow> None | Some old' \<Rightarrow> AuthTask_work rs old')"

section \<open>Lemmas\<close>

lemma auth_string_field:
  assumes "strcpy_field AUTH_FIELD s = Some f" "0 \<notin> set s"
  shows "takeWhile (\<lambda>c. c \<noteq> 0) (f @ r) = s"
  using assms by (auto simp: strcpy_field_def takeWhile_append AUTH_FIELD_def split: if_splits)

text \<open>The request that the client builds from a user name and a password is accepted by the server exactly
  when both are the configured ones; in particular a prefix of the password is not enough.\<close>

lemma authorize_request:
  assumes "auth_request u p = Inr buf" "0 \<notin> set u" "0 \<notin> set p"
  shows "authorize user pass buf = Inr (if u = user \<and> p = pass then 1 else 0)"
proof -
  from assms(1) obtain fu fp where f: "strcpy_field AUTH_FIELD u = Some fu" "strcpy_field AUTH_FIELD p = Some fp"
    "buf = fu @ fp"
    by (auto simp: auth_request_def split: option.splits prod.splits)
  have l: "length fu = AUTH_FIELD" "length fp = AUTH_FIELD" using f length_strcpy_field by blast+
  have "length u < AUTH_FIELD" "length p < AUTH_FIELD"
    using f by (auto simp: strcpy_field_def split: if_splits)
  moreover have "takeWhile (\<lambda>c. c \<noteq> 0) (drop 0 buf) = u"
    using auth_string_field [OF f(1) assms(2)] f(3) by simp
  moreover have "takeWhile (\<lambda>c. c \<noteq> 0) (drop AUTH_FIELD buf) = p"
    using auth_string_field [OF f(2) assms(3), of "[]"] f(3) l by simp
  ultimately have "auth_string buf 0 = Some u" "auth_string buf AUTH_FIELD = Some p"
    using f(3) l by (simp_all add: auth_string_def)
  then show ?thesis by (simp add: authorize_def)
qed

text \<open>\<open>Confirm::send_data\<close> copies 64 bytes out of each configured string, so it reads past the end of a
  string exactly when one of them is shorter than 63 characters.\<close>

theorem confirm_overread:
  "confirm_buf u p = Inl OutOfBounds \<longleftrightarrow> length u < 63 \<or> length p < 63"
  by (auto simp: confirm_buf_def confirm_field_def AUTH_FIELD_def split: option.splits)

end
