(* ===== verification/Auth_Spec.thy ===== *)
theory Auth_Spec
  imports Auth Net_Spec
begin

text \<open>
  The authorization service with its client and its server connected: what the client's \<open>main\<close> sends
  is what the connection delivers to the forked child of the server's \<open>main\<close>, in pieces of any
  size, and what the child answers is what the client receives.  The periodic check of \<open>AuthTask\<close>.
\<close>

text \<open>No call fails and no \<open>errno\<close> is left over; every call moves at least one byte.\<close>

definition delivers :: "recvres list \<Rightarrow> bool" where
  "delivers rs \<longleftrightarrow> (\<forall>r \<in> set rs. \<exists>bs. r = Data bs \<and> bs \<noteq> [])"

definition sends :: "sendres list \<Rightarrow> bool" where
  "sends rs \<longleftrightarrow> (\<forall>r \<in> set rs. \<exists>n. r = Sent n \<and> 0 < n)"

lemma send_v_loop_all:
  "\<not> transient e \<Longrightarrow> sends rs \<Longrightarrow> length left \<le> length rs \<Longrightarrow>
     \<exists>rs'. send_v_loop rs e left sended out = Some (int (sended + length left), out @ left, rs', e)"
proof (induction rs e left sended out rule: send_v_loop.induct)
  case (2 r rs e left sended out)
  show ?case
  proof (cases "left = []")
    case False
    obtain n where n: "r = Sent n" "0 < n" using "2.prems"(2) by (auto simp: sends_def)
    define k where "k = min n (length left)"
    have k: "k \<noteq> 0" "k \<le> length left" "k = min n (length left)" using n False by (simp_all add: k_def)
    have "0 < length left" using False by simp
    then have "length left - min n (length left) \<le> length left - 1" using n(2) by linarith
    then have "sends rs" "length (drop k left) \<le> length rs" using "2.prems"(2,3) by (simp_all add: sends_def k_def)
    from "2.IH"(2) [OF False n(1) k(3) refl "2.prems"(1) k(1) "2.prems"(1) this]
    obtain rs' where rs': "send_v_loop rs e (drop k left) (sended + k) (out @ take k left) =
        Some (int (sended + k + length (drop k left)), (out @ take k left) @ drop k left, rs', e)" by blast
    have "send_v_loop (r # rs) e left sended out = send_v_loop rs e (drop k left) (sended + k) (out @ take k left)"
      using False n(1) "2.prems"(1) k(1) by (simp only: send_v_loop.simps sendres.case if_False k(3) [symmetric] Let_def)
    also note rs'
    finally show ?thesis using k(2) by simp
  qed simp
qed simp

lemma put_bytes_append: "length pre = a \<Longrightarrow> length bs \<le> length suf \<Longrightarrow> put_bytes (pre @ suf) a bs = pre @ bs @ drop (length bs) suf"
  by (simp add: put_bytes_def)

lemma auth_recv_v_all:
  "\<not> transient e \<Longrightarrow> delivers rs \<Longrightarrow> length (payload rs) = left \<Longrightarrow> length pre = recved \<Longrightarrow> left \<le> length suf \<Longrightarrow>
     auth_recv_v rs e (pre @ suf) left recved = Some (int (recved + left), pre @ payload rs @ drop left suf)"
proof (induction rs arbitrary: left recved pre suf)
  case (Cons r rs)
  obtain bs where r: "r = Data bs" "bs \<noteq> []" "delivers rs" using Cons.prems(2) by (auto simp: delivers_def)
  then have l: "left \<noteq> 0" "take left bs = bs" "length (payload rs) = left - length bs" "length bs \<le> length suf"
    using Cons.prems(3,5) by auto
  have "auth_recv_v (r # rs) e (pre @ suf) left recved
      = auth_recv_v rs e ((pre @ bs) @ drop (length bs) suf) (left - length bs) (recved + length bs)"
    using r l Cons.prems(1,4) by (simp add: put_bytes_append)
  also have "\<dots> = Some (int (recved + length bs + (left - length bs)), (pre @ bs) @ payload rs @ drop (left - length bs) (drop (length bs) suf))"
    using Cons.prems r l by (intro Cons.IH) simp_all
  also have "\<dots> = Some (int (recved + left), pre @ payload (r # rs) @ drop left suf)"
    using r Cons.prems(3) by simp
  finally show ?case .
qed simp

lemma length_auth_request: "auth_request u p = Inr buf \<Longrightarrow> length buf = 128"
  by (auto simp: auth_request_def AUTH_FIELD_def dest!: length_strcpy_field split: option.splits)

text \<open>One child: whatever the pieces, the request is answered with one byte.\<close>

lemma auth_child_answers:
  assumes "auth_request u p = Inr request" "0 \<notin> set u" "0 \<notin> set p"
    and "delivers rrs" "payload rrs = request" "sends srs" "srs \<noteq> []" "\<not> transient e"
  shows "auth_child user pass rrs srs e = Some (Inr [if u = user \<and> p = pass then 1 else 0])"
proof -
  have len: "length request = 128" using assms(1) by (rule length_auth_request)
  have recv: "auth_recv_v rrs e (replicate 128 0) 128 0 = Some (128, request)"
    using auth_recv_v_all [OF assms(8,4), of 128 "[]" 0 "replicate 128 0"] len assms(5) by simp
  obtain rs' where "send_v_loop srs e [if u = user \<and> p = pass then 1 else 0] 0 []
      = Some (1, [if u = user \<and> p = pass then 1 else 0], rs', e)"
    using send_v_loop_all [OF assms(8,6), of "[if u = user \<and> p = pass then 1 else 0]" 0 "[]"] assms(7)
    by (auto simp: Suc_le_eq)
  then show ?thesis
    using recv authorize_request [OF assms(1-3), of user pass] by (simp add: auth_child_def auth_send_v_def)
qed

lemma auth_serve_reaches:
  "None \<notin> set cs \<Longrightarrow> Some c \<in> set cs \<Longrightarrow> c_forked c \<Longrightarrow>
     (c_fd c, auth_child user pass (c_recvs c) (c_sends c) (c_errno c)) \<in> set (snd (auth_serve user pass cs)) \<and>
     fst (auth_serve user pass cs) = None"
proof (induction cs)
  case (Cons d cs)
  have "fst (auth_serve user pass cs) = None" if "None \<notin> set cs" for cs
    using that
  proof (induction cs)
    case (Cons d cs)
    then show ?case by (cases d) (auto simp: Let_def split: prod.splits)
  qed simp
  then have f: "fst (auth_serve user pass cs) = None" using Cons.prems(1) by simp
  obtain c' where d: "d = Some c'" using Cons.prems(1) by (cases d) auto
  show ?case
  proof (cases "c' = c")
    case True
    then show ?thesis using d f Cons.prems(3) by (auto simp: Let_def split: prod.splits)
  next
    case False
    then have "Some c \<in> set cs" using Cons.prems(2) d by simp
    with Cons.IH Cons.prems show ?thesis using d f by (auto simp: Let_def split: prod.splits)
  qed
qed simp

text \<open>C29: The authorization service end to end: a client started with a user name and a password that fit the request
  sends its request to the running server; the connection delivers it to the child forked for it
  in pieces of any size, in any company of other connections.  Then the client ends with code 0 and prints that
  it is authorized exactly when user name and password are the ones the server was started with.\<close>

theorem authorization_session:
  assumes "auth_request u p = Inr request" "0 \<notin> set u" "0 \<notin> set p" "client = [prog, u, p]"
    and "\<not> transient e" "sends srs" "128 \<le> length srs"
    and "server = [prog', user, pass]" "None \<notin> set cs" "Some c \<in> set cs" "c_forked c"
    and "\<not> transient (c_errno c)" "delivers (c_recvs c)" "payload (c_recvs c) = request" "sends (c_sends c)" "c_sends c \<noteq> []"
  shows "\<exists>reply. (c_fd c, Some (Inr reply)) \<in> set (snd (auth_server_main server True True True cs)) \<and>
    auth_client_main client True True srs [Data reply] e
      = Some (Inr (0, request, if u = user \<and> p = pass then ''authorize'' else ''not authorize''))"
proof -
  define flag :: byte where "flag = (if u = user \<and> p = pass then 1 else 0)"
  have "(c_fd c, Some (Inr [flag])) \<in> set (snd (auth_server_main server True True True cs))"
    using auth_serve_reaches [OF assms(9-11), of user pass]
      auth_child_answers [OF assms(1-3,13-16,12), of user pass] assms(8)
    by (simp add: auth_server_main_def flag_def)
  moreover obtain rs' where "send_v_loop srs e request 0 [] = Some (128, request, rs', e)"
    using send_v_loop_all [OF assms(5,6), of request 0 "[]"] length_auth_request [OF assms(1)] assms(7) by auto
  moreover have "auth_recv_v [Data [flag]] e (replicate 128 0) 1 0 = Some (1, flag # replicate 127 0)"
    using auth_recv_v_all [OF assms(5), of "[Data [flag]]" 1 "[]" 0 "replicate 128 0"] by (simp add: delivers_def)
  ultimately show ?thesis
    using assms(1,4)
    by (intro exI [of _ "[flag]"]) (simp add: auth_client_main_def auth_send_v_def auth_answer_def flag_def)
qed

lemma authorization_session_witness:
  "\<exists>request reply. payload [Data (take 5 request), Data (drop 5 request)] = request \<and>
     auth_client_main [[], [97, 98], [99]] True True (replicate 128 (Sent 50)) [Data reply] 0 = Some (Inr (0, request, ''authorize''))"
proof -
  let ?r = "[97, 98] @ replicate 62 0 @ [99] @ replicate 63 (0 :: byte)"
  let ?c = "\<lparr>c_fd = 4, c_forked = True, c_errno = 0, c_recvs = [Data (take 5 ?r), Data (drop 5 ?r)], c_sends = [Sent 1]\<rparr>"
  have r: "auth_request [97, 98] [99] = Inr ?r"
    by (simp add: auth_request_def strcpy_field_def AUTH_FIELD_def)
  have c: "payload [Data (take 5 ?r), Data (drop 5 ?r)] = ?r"
    unfolding payload_simps append_Nil2 by (rule append_take_drop_id)
  have "\<exists>reply. (c_fd ?c, Some (Inr reply)) \<in> set (snd (auth_server_main [[], [97, 98], [99]] True True True [Some ?c])) \<and>
      auth_client_main [[], [97, 98], [99]] True True (replicate 128 (Sent 50)) [Data reply] 0
        = Some (Inr (0, ?r, if [97, 98] = [97, 98 :: byte] \<and> [99] = [99 :: byte] then ''authorize'' else ''not authorize''))"
    by (rule authorization_session [OF r _ _ refl _ _ _ refl])
      (use c in \<open>simp_all add: transient_def EAGAIN_def EINTR_def sends_def delivers_def del: payload_simps append_take_drop_id\<close>)
  then obtain reply where "auth_client_main [[], [97, 98], [99]] True True (replicate 128 (Sent 50)) [Data reply] 0
      = Some (Inr (0, ?r, ''authorize''))" by auto
  with c show ?thesis by blast
qed

section \<open>The periodic check\<close>

text \<open>A server whose confirmations all fail is stopped by the first round that is more than a minute later
  than the start.\<close>

lemma revoked_server_stops:
  assumes "\<forall>(now, ok) \<in> set rs. \<not> ok"
  shows "AuthTask_work rs old = None \<longleftrightarrow> (\<exists>(now, ok) \<in> set rs. INTERVAL_TIME < now - old)"
  using assms
proof (induction rs)
  case (Cons r rs)
  obtain now where "r = (now, False)" using Cons.prems by (cases r) auto
  then show ?case using Cons by (cases "INTERVAL_TIME < now - old") (simp_all add: AuthTask_round_def)
qed simp

text \<open>As long as they succeed, it goes on.\<close>

lemma confirmed_server_continues: "\<forall>(now, ok) \<in> set rs. ok \<Longrightarrow> AuthTask_work rs old \<noteq> None"
  by (induction rs arbitrary: old) (auto simp: AuthTask_round_def)

end
