(* ===== verification/Queue_Steps.thy ===== *)
theory Queue_Steps
  imports Buffers
begin

text \<open>
  \<open>QueueT.h\<close> with its threads: consumers that wait on the condition variable, producers that
  signal it only when the queue was empty, and signals that arrive after the mutex has been
  given back.  The histories record what went in and what came out.  The atomic queue of
  \<open>Buffers\<close> is the specification every interleaving refines.
\<close>

datatype tstat = Idle | Waiting | Woken

record 'a qstate =
  items :: "'a list"
  status :: "nat \<Rightarrow> tstat"
  pend :: nat                 \<comment> \<open>signals sent and not yet delivered\<close>
  hist_in :: "'a list"
  hist_out :: "'a list"

definition qinit :: "'a qstate" where
  "qinit = \<lparr>items = [], status = (\<lambda>_. Idle), pend = 0, hist_in = [], hist_out = []\<rparr>"

text \<open>The steps of the threads in \<open>T\<close>: \<open>enqueue\<close> under the mutex; the signal that follows it, which
  wakes one waiter or is lost; \<open>dequeue\<close> finding an element, or finding none and waiting (a
  woken thread looks again); a timeout, which returns -1 without looking.\<close>

inductive qstep :: "nat set \<Rightarrow> 'a qstate \<Rightarrow> 'a qstate \<Rightarrow> bool" for T where
  enqueue: "qstep T s (s\<lparr>items := QueueT_enqueue x (items s), hist_in := hist_in s @ [x],
      pend := (if items s = [] then pend s + 1 else pend s)\<rparr>)"
| signal: "0 < pend s \<Longrightarrow> t \<in> T \<Longrightarrow> status s t = Waiting \<Longrightarrow>
    qstep T s (s\<lparr>pend := pend s - 1, status := (status s)(t := Woken)\<rparr>)"
| signal_lost: "0 < pend s \<Longrightarrow> \<forall>t \<in> T. status s t \<noteq> Waiting \<Longrightarrow> qstep T s (s\<lparr>pend := pend s - 1\<rparr>)"
| take: "t \<in> T \<Longrightarrow> status s t \<noteq> Waiting \<Longrightarrow> QueueT_dequeue (items s) = Some (x, r) \<Longrightarrow>
    qstep T s (s\<lparr>items := r, status := (status s)(t := Idle), hist_out := hist_out s @ [x]\<rparr>)"
| wait: "t \<in> T \<Longrightarrow> status s t \<noteq> Waiting \<Longrightarrow> QueueT_dequeue (items s) = None \<Longrightarrow>
    qstep T s (s\<lparr>status := (status s)(t := Waiting)\<rparr>)"
| timeout: "t \<in> T \<Longrightarrow> status s t = Waiting \<Longrightarrow> qstep T s (s\<lparr>status := (status s)(t := Idle)\<rparr>)"

inductive_cases qstep_cases: "qstep T s s'"

inductive qreach :: "nat set \<Rightarrow> 'a qstate \<Rightarrow> bool" for T where
  start: "qreach T qinit"
| step: "qreach T s \<Longrightarrow> qstep T s s' \<Longrightarrow> qreach T s'"

lemma dequeue_cases:
  "QueueT_dequeue q = Some (x, r) \<longleftrightarrow> q = x # r" "QueueT_dequeue q = None \<longleftrightarrow> q = []"
  by (auto simp: QueueT_dequeue_def split: list.splits)

text \<open>C19: \<open>QueueT\<close> under any interleaving of its threads: what has been enqueued is what has been dequeued
  followed by what is still in the queue, in that order; nothing is lost, doubled or reordered.\<close>

theorem queue_history:
  assumes "qreach T s"
  shows "hist_in s = hist_out s @ items s"
  using assms
proof (induction rule: qreach.induct)
  case start
  then show ?case by (simp add: qinit_def)
next
  case (step s s')
  from step.hyps(2) step.IH show ?case
    by (elim qstep_cases) (auto simp: qt.items_enq qt.deq_None dest: qt.deq_Some)
qed

text \<open>C30: \<open>QueueT\<close> with one consumer, as the receiving and the sending queue have it: the consumer never sleeps
  on a queue that has something for it, unless the signal is already on its way.\<close>

theorem single_consumer_woken:
  assumes "qreach {t} s" "items s \<noteq> []" "status s t = Waiting"
  shows "0 < pend s"
proof -
  have "items s \<noteq> [] \<and> status s t = Waiting \<longrightarrow> 0 < pend s"
    using assms(1)
  proof (induction rule: qreach.induct)
    case start
    then show ?case by (simp add: qinit_def)
  next
    case (step s s')
    from step.hyps(2) step.IH show ?case
      by (elim qstep_cases) (auto simp: qt.items_enq qt.deq_None dest: qt.deq_Some)
  qed
  with assms(2,3) show ?thesis by blast
qed

text \<open>Two consumers, as in the thread pool: both wait, two elements are enqueued before the first
  woken thread runs, and the second thread sleeps although its element is there.  The steps that follow without
  thread 0 and before the wait of thread 1 times out.\<close>

definition qstep_alone :: "'a qstate \<Rightarrow> 'a qstate \<Rightarrow> bool" where
  "qstep_alone s s' \<longleftrightarrow> qstep {1} s s' \<and> status s' 1 \<noteq> Idle"

lemma sleeps_on_step:
  assumes "qstep_alone s s'" "items s \<noteq> []" "pend s = 0" "status s 1 = Waiting"
  shows "items s' \<noteq> [] \<and> pend s' = 0 \<and> status s' 1 = Waiting \<and> hist_out s' = hist_out s"
  using assms unfolding qstep_alone_def by (elim conjE qstep_cases) (auto simp: qt.items_enq QueueT_enqueue_def)

lemma sleeps_on:
  assumes "qstep_alone\<^sup>*\<^sup>* s s'" "items s \<noteq> []" "pend s = 0" "status s 1 = Waiting"
  shows "items s' \<noteq> [] \<and> pend s' = 0 \<and> status s' 1 = Waiting \<and> hist_out s' = hist_out s"
  using assms by (induction rule: rtranclp_induct) (use sleeps_on_step in \<open>blast, metis\<close>)

definition race :: "nat list \<Rightarrow> tstat \<Rightarrow> tstat \<Rightarrow> nat \<Rightarrow> nat list \<Rightarrow> nat list \<Rightarrow> nat qstate" where
  "race q a b k i out = \<lparr>items = q, status = (\<lambda>t. if t = 0 then a else if t = 1 then b else Idle),
     pend = k, hist_in = i, hist_out = out\<rparr>"

lemma race_step:
  "qreach T s \<Longrightarrow> qstep T s r \<Longrightarrow> r = s' \<Longrightarrow> qreach T s'"
  by (simp add: qreach.step)

lemma lost_wakeup_reachable: "qreach {0, 1} (race [8] Idle Waiting 0 [7, 8] [7])"
proof -
  note defs = race_def qinit_def QueueT_enqueue_def dequeue_cases fun_eq_iff
  have "qinit = race [] Idle Idle 0 [] []" by (auto simp: race_def qinit_def)
  then have "qreach {0, 1} (race [] Idle Idle 0 [] [])"
    using qreach.start [of "{0, 1}"] by metis
  then have "qreach {0, 1} (race [] Waiting Idle 0 [] [])"
    by (rule race_step [OF _ qstep.wait [of 0]]) (simp_all add: defs)
  then have "qreach {0, 1} (race [] Waiting Waiting 0 [] [])"
    by (rule race_step [OF _ qstep.wait [of 1]]) (simp_all add: defs)
  then have "qreach {0, 1} (race [7] Waiting Waiting 1 [7] [])"
    by (rule race_step [OF _ qstep.enqueue [of _ _ 7]]) (simp_all add: defs)
  then have "qreach {0, 1} (race [7, 8] Waiting Waiting 1 [7, 8] [])"
    by (rule race_step [OF _ qstep.enqueue [of _ _ 8]]) (simp_all add: defs)
  then have "qreach {0, 1} (race [7, 8] Woken Waiting 0 [7, 8] [])"
    by (rule race_step [OF _ qstep.signal [of _ 0]]) (simp_all add: defs)
  then show ?thesis
    by (rule race_step [OF _ qstep.take [of 0 _ _ 7 "[8]"]]) (simp_all add: defs)
qed

text \<open>C31: \<open>QueueT\<close> with two consumers, as in the thread pool.  A state is reachable in which thread 0 has taken the first
  element and is back in its task, thread 1 waits for the condition, the second element is in the queue and no signal is under way,
  because \<open>enqueue\<close> signals only when the queue was empty.  As long as thread 0 does not come back to the
  queue, thread 1 is not woken and takes nothing, whatever is enqueued: it sleeps until its wait times out, the only
  step here that makes it idle.\<close>

theorem two_consumers_lose_wakeup:
  "\<exists>s :: nat qstate. qreach {0, 1} s \<and> status s 0 = Idle \<and> hist_out s = [7] \<and>
     status s 1 = Waiting \<and> items s = [8] \<and> pend s = 0 \<and>
     {s'. qstep_alone\<^sup>*\<^sup>* s s'} \<subseteq> {s'. status s' 1 = Waiting \<and> items s' \<noteq> [] \<and> pend s' = 0 \<and> hist_out s' = [7]}"
proof (intro exI conjI subsetI)
  let ?s = "race [8] Idle Waiting 0 [7, 8] [7]"
  show "qreach {0, 1} ?s" by (rule lost_wakeup_reachable)
  show "s' \<in> {s'. status s' 1 = Waiting \<and> items s' \<noteq> [] \<and> pend s' = 0 \<and> hist_out s' = [7]}"
    if "s' \<in> {s'. qstep_alone\<^sup>*\<^sup>* ?s s'}" for s'
    using sleeps_on [of ?s s'] that by (simp add: race_def)
qed (simp_all add: race_def)

lemma queue_history_witness:
  "hist_in (race [8] Idle Waiting 0 [7, 8] [7]) = hist_out (race [8] Idle Waiting 0 [7, 8] [7]) @ [8]"
  using queue_history [OF lost_wakeup_reachable] by (simp add: race_def)

lemma single_consumer_woken_witness:
  "\<exists>s :: nat qstate. qreach {0} s \<and> items s = [7] \<and> status s 0 = Waiting \<and> 0 < pend s"
proof -
  note defs = race_def qinit_def QueueT_enqueue_def dequeue_cases fun_eq_iff
  have "qinit = race [] Idle Idle 0 [] []" by (auto simp: race_def qinit_def)
  then have "qreach {0} (race [] Idle Idle 0 [] [])"
    using qreach.start [of "{0}"] by metis
  then have "qreach {0} (race [] Waiting Idle 0 [] [])"
    by (rule race_step [OF _ qstep.wait [of 0]]) (simp_all add: defs)
  then have r: "qreach {0} (race [7] Waiting Idle 1 [7] [])"
    by (rule race_step [OF _ qstep.enqueue [of _ _ 7]]) (simp_all add: defs)
  have "0 < pend (race [7] Waiting Idle 1 [7] [])"
    by (rule single_consumer_woken [OF r]) (simp_all add: race_def)
  with r show ?thesis by (intro exI [of _ "race [7] Waiting Idle 1 [7] []"]) (simp add: race_def)
qed

end
