(* ===== verification/House_Spec.thy ===== *)
theory House_Spec
  imports MakeHouse Samples
begin

text \<open>
  What the build-a-house component does: who receives a group's packet, how the stacking order of
  the pictures changes, how a house is written into a packet, and what deleting a picture leaves
  behind.
\<close>

section \<open>Sending to a group\<close>

text \<open>What the copying needs of the pool, and what it does to a buffer it does not fit into.\<close>

lemma group_copy_pool: "group_copy q p ct fd s = Inr (r, t) \<Longrightarrow> bufpool t = bufpool s"
  by (auto simp: group_copy_def head_defs wr32_def rd32_def deref_def bnd_def sq_def check_def ret_def fail_def modify_def
      set_buf_def set_size_def set_fd_def upd_buf_def send_enqueue_def memcpy_buf_def split: if_splits option.splits sum.splits)

lemma group_copy_overflow:
  assumes "own U n ((q, bq) # C) X w s" "(p, b) \<in> set C" "MAX_BUF < unat (get32 (m_ptr b) 0) + 8"
  shows "group_copy q p ct fd s = Inl OutOfBounds"
proof -
  have q: "bufs s q = Some bq" "m_size bq = MAX_BUF" "q \<noteq> NULL" and p: "bufs s p = Some b" "p \<noteq> NULL" "m_size b = MAX_BUF"
    using own_buf [OF assms(1)] assms(2) by auto
  have "p \<noteq> q" using own_distinct [OF assms(1)] assms(2) by (force simp: image_iff)
  then show ?thesis
    using q p assms(3) unfolding group_copy_def
    by (simp add: head_defs wr32_def rd32_def deref_def bnd_def sq_def check_def ret_def fail_def modify_def
        set_buf_def set_size_def set_fd_def upd_buf_def memcpy_buf_def MAX_BUF_def MSG_HEAD_LEN_def)
qed

definition copy_to_members :: "ptr \<Rightarrow> u32 \<Rightarrow> int \<times> ptr \<Rightarrow> bool act" where
  "copy_to_members p ct = (\<lambda>(k, stu). bnd pool_malloc (\<lambda>q. if q = NULL then ret False else sq (group_copy q p ct k) (ret True)))"

lemma own_copy_one:
  assumes "own U 0 [(p, b)] X w s" "avail s = Suc n" "unat (get32 (m_ptr b) 0) = k" "8 \<le> k" "k + 8 \<le> MAX_BUF"
  shows "wp (copy_to_members p ct (fd, stu)) (\<lambda>r t. r \<and> avail t = n
     \<and> own U 0 [(p, b)] (X @ [(fd, msg (get32 (m_ptr b) 0) ct (bytes_at (m_ptr b) 8 (k - 8)))]) w t) s"
proof -
  have "own U (Suc 0) [(p, b)] X w s" using assms(1,2) by (simp add: own_def)
  then have "wp pool_malloc (\<lambda>q t. \<exists>bq. own U 0 [(q, bq), (p, b)] X w t \<and> q \<noteq> NULL \<and> m_size bq = MAX_BUF) s"
    by (rule own_pool_malloc) blast
  then obtain q t bq where t: "pool_malloc s = Inr (q, t)" "own U 0 [(q, bq), (p, b)] X w t" "q \<noteq> NULL" "m_size bq = MAX_BUF"
    by (auto simp: wp_def split: sum.splits)
  have "avail t = n" using t(1) assms(2) by (auto simp: pool_malloc_def PoolT_malloc_def avail_def split: list.splits)
  have "wp (group_copy q p ct fd) (\<lambda>_. own U 0 [(p, b)] (X @ [(fd, msg (get32 (m_ptr b) 0) ct (bytes_at (m_ptr b) 8 (k - 8)))]) w) t"
    by (rule own_group_copy [OF t(2) _ t(4) assms(3-5)]) simp_all
  then obtain z u where u: "group_copy q p ct fd t = Inr (z, u)"
      "own U 0 [(p, b)] (X @ [(fd, msg (get32 (m_ptr b) 0) ct (bytes_at (m_ptr b) 8 (k - 8)))]) w u"
    by (auto simp: wp_def split: sum.splits)
  moreover have "avail u = n" using group_copy_pool [OF u(1)] \<open>avail t = n\<close> by (simp add: avail_def)
  ultimately show ?thesis using t(1,3) by (simp add: copy_to_members_def wp_def bnd_def sq_def ret_def)
qed

lemma own_copy_loop:
  "own U 0 [(p, b)] X w s \<Longrightarrow> unat (get32 (m_ptr b) 0) = k \<Longrightarrow> 8 \<le> k \<Longrightarrow> k + 8 \<le> MAX_BUF \<Longrightarrow>
   wp (for_while m (copy_to_members p ct)) (\<lambda>r t. r = (length m \<le> avail s) \<and> avail t = avail s - length m
     \<and> own U 0 [(p, b)] (X @ map (\<lambda>(fd, stu). (fd, msg (get32 (m_ptr b) 0) ct (bytes_at (m_ptr b) 8 (k - 8)))) (take (avail s) m)) w t) s"
proof (induction m arbitrary: X s)
  case Nil
  then show ?case by (simp add: wp_simps)
next
  case (Cons y m)
  obtain fd stu where y: "y = (fd, stu)" by (cases y)
  show ?case
  proof (cases "avail s")
    case 0
    then show ?thesis
      using Cons.prems(1) pool_malloc_empty [OF 0] by (simp add: y copy_to_members_def wp_def bnd_def ret_def)
  next
    case (Suc n)
    have "wp (copy_to_members p ct y) (\<lambda>r. wp (if r then for_while m (copy_to_members p ct) else ret False)
      (\<lambda>r t. r = (length (y # m) \<le> avail s) \<and> avail t = avail s - length (y # m)
     \<and> own U 0 [(p, b)] (X @ map (\<lambda>(fd, stu). (fd, msg (get32 (m_ptr b) 0) ct (bytes_at (m_ptr b) 8 (k - 8)))) (take (avail s) (y # m))) w t)) s"
      unfolding y
    proof (rule wp_mono [OF own_copy_one [OF Cons.prems(1) Suc Cons.prems(2-4)]], elim conjE)
      fix r t
      assume t: r "avail t = n" "own U 0 [(p, b)] (X @ [(fd, msg (get32 (m_ptr b) 0) ct (bytes_at (m_ptr b) 8 (k - 8)))]) w t"
      show "wp (if r then for_while m (copy_to_members p ct) else ret False)
      (\<lambda>r t. r = (length ((fd, stu) # m) \<le> avail s) \<and> avail t = avail s - length ((fd, stu) # m)
     \<and> own U 0 [(p, b)] (X @ map (\<lambda>(fd, stu). (fd, msg (get32 (m_ptr b) 0) ct (bytes_at (m_ptr b) 8 (k - 8)))) (take (avail s) ((fd, stu) # m))) w t) t"
        using wp_mono [OF Cons.IH [OF t(3) Cons.prems(2-4)]] t(1,2) Suc by simp
    qed
    then show ?thesis by (simp add: wp_simps)
  qed
qed

text \<open>C12: \<open>sendToOtherStudent\<close> with a packet of at least the length of its head: every student of the group receives the packet
  once, in order, with the new type, and the packet is recycled; when the pool has too few buffers, only as many students as there were
  free buffers receive it, and the packet is not recycled.  A packet longer than 5112 bytes, which \<open>recv_cb\<close> accepts, is
  copied past the end of the new buffer, because eight bytes too many are copied.\<close>

theorem sendToOtherStudent_delivers:
  assumes "own U 0 [(p, b)] X w s" "g \<noteq> NULL" "groups s g = Some x"
    and "unat (get32 (m_ptr b) 0) = k" "8 \<le> k"
  shows "if k + 8 \<le> MAX_BUF
    then wp (CGroup_sendToOtherStudent g p ct) (\<lambda>_.
      if length (g_student_map x) \<le> avail s
      then own U (Suc (avail s - length (g_student_map x))) []
        (X @ map (\<lambda>(fd, stu). (fd, msg (get32 (m_ptr b) 0) ct (bytes_at (m_ptr b) 8 (k - 8)))) (g_student_map x)) w
      else own U 0 [(p, b)]
        (X @ map (\<lambda>(fd, stu). (fd, msg (get32 (m_ptr b) 0) ct (bytes_at (m_ptr b) 8 (k - 8)))) (take (avail s) (g_student_map x))) w) s
    else g_student_map x \<noteq> [] \<and> 0 < avail s \<longrightarrow> CGroup_sendToOtherStudent g p ct s = Inl OutOfBounds"
proof -
  let ?m = "g_student_map x"
  let ?g = "\<lambda>(fd, stu). (fd, msg (get32 (m_ptr b) 0) ct (bytes_at (m_ptr b) 8 (k - 8)))"
  have p: "p \<noteq> NULL" using own_buf [OF assms(1)] by simp
  have loop: "CGroup_sendToOtherStudent g p ct s = bnd (for_while ?m (copy_to_members p ct)) (\<lambda>ok. if ok then pool_free p else ret ()) s"
    using p assms(2,3) by (simp add: CGroup_sendToOtherStudent_def copy_to_members_def deref_def bnd_def ret_def)
  show ?thesis
  proof (cases "k + 8 \<le> MAX_BUF")
    case True
    have "wp (for_while ?m (copy_to_members p ct)) (\<lambda>ok. wp (if ok then pool_free p else ret ()) (\<lambda>_.
      if length ?m \<le> avail s then own U (Suc (avail s - length ?m)) [] (X @ map ?g ?m) w
      else own U 0 [(p, b)] (X @ map ?g (take (avail s) ?m)) w)) s"
    proof (rule wp_mono [OF own_copy_loop [OF assms(1,4,5) True]], elim conjE)
      fix ok t
      assume t: "ok = (length ?m \<le> avail s)" "avail t = avail s - length ?m" "own U 0 [(p, b)] (X @ map ?g (take (avail s) ?m)) w t"
      then have "own U (avail s - length ?m) [(p, b)] (X @ map ?g (take (avail s) ?m)) w t" by (simp add: own_def)
      with t show "wp (if ok then pool_free p else ret ()) (\<lambda>_.
      if length ?m \<le> avail s then own U (Suc (avail s - length ?m)) [] (X @ map ?g ?m) w
      else own U 0 [(p, b)] (X @ map ?g (take (avail s) ?m)) w) t"
        by (auto simp: wp_simps intro: own_pool_free)
    qed
    then have "wp (bnd (for_while ?m (copy_to_members p ct)) (\<lambda>ok. if ok then pool_free p else ret ())) (\<lambda>_.
      if length ?m \<le> avail s then own U (Suc (avail s - length ?m)) [] (X @ map ?g ?m) w
      else own U 0 [(p, b)] (X @ map ?g (take (avail s) ?m)) w) s"
      by (simp only: wp_bnd)
    then show ?thesis using True by (simp only: wp_def loop if_True)
  next
    case False
    have "CGroup_sendToOtherStudent g p ct s = Inl OutOfBounds" if "?m \<noteq> []" "0 < avail s"
    proof -
      obtain fd stu m where m: "?m = (fd, stu) # m" using \<open>?m \<noteq> []\<close> by (cases ?m) auto
      have "own U (Suc 0) [(p, b)] X w s" using assms(1) that(2) by (simp add: own_def)
      then have "wp pool_malloc (\<lambda>q t. \<exists>bq. own U 0 [(q, bq), (p, b)] X w t \<and> q \<noteq> NULL) s"
        by (rule own_pool_malloc) blast
      then obtain q t bq where t: "pool_malloc s = Inr (q, t)" "own U 0 [(q, bq), (p, b)] X w t" "q \<noteq> NULL"
        by (auto simp: wp_def split: sum.splits)
      have "group_copy q p ct fd t = Inl OutOfBounds"
        by (rule group_copy_overflow [OF t(2)]) (use False assms(4) in auto)
      then show ?thesis using t(1,3) by (simp add: loop m copy_to_members_def bnd_def sq_def)
    qed
    then show ?thesis using False by simp
  qed
qed

definition sample_house :: "ptr list \<Rightarrow> (int, ptr) smap \<Rightarrow> CMakeHouse" where
  "sample_house l m = (CMakeHouse_new (\<lambda>_. 0))\<lparr>m_node_layer_list := l, m_node_map := m\<rparr>"

definition sample_group :: "ptr list \<Rightarrow> (int, ptr) smap \<Rightarrow> CGroup" where
  "sample_group l m = (CGroup_new (\<lambda>_. 0) (\<lambda>_. 0) [])\<lparr>m_make_house := sample_house l m,
     g_student_map := [(7, 20), (8, 21)]\<rparr>"

definition sample_node :: "u32 \<Rightarrow> CNode" where
  "sample_node i = (CNode_new (\<lambda>_. 0) 5 100 200)\<lparr>m_node_id := i, m_layer := i, m_scale := 0x3F800000, m_sname := 0x1001\<rparr>"

definition house_srv :: "(ptr \<Rightarrow> CNode option) \<Rightarrow> ptr list \<Rightarrow> (int, ptr) smap \<Rightarrow> srv" where
  "house_srv ns l m = (srv0 [] (pkt 5 (msg 12 3 [1, 2, 3, 4])))\<lparr>groups := [1 \<mapsto> sample_group l m], nodes := ns\<rparr>"

lemma house_own: "own bufs0 5 [(10, pkt 5 (msg 12 3 [1, 2, 3, 4]))] [] (world (house_srv ns l m)) (house_srv ns l m)"
  by (rule srv0_own) (simp_all add: house_srv_def srv0_def)

lemma house_group: "groups (house_srv ns l m) = [1 \<mapsto> sample_group l m]" "nodes (house_srv ns l m) = ns"
  "m_make_house (sample_group l m) = sample_house l m" "m_node_layer_list (sample_house l m) = l"
  "m_node_map (sample_house l m) = m" "g_student_map (sample_group l m) = [(7, 20), (8, 21)]"
  by (simp_all add: house_srv_def sample_group_def sample_house_def)

lemma pkt12: "unat (get32 (m_ptr (pkt fd (msg 12 ct [1, 2, 3, 4]))) 0) = 12" "get32 (m_ptr (pkt fd (msg 12 ct [1, 2, 3, 4]))) 0 = 12"
  "bytes_at (m_ptr (pkt fd (msg 12 ct [1, 2, 3, 4]))) 8 4 = [1, 2, 3, 4]"
proof -
  have "length [1, 2, 3, 4 :: byte] = 4" by simp
  then show "bytes_at (m_ptr (pkt fd (msg 12 ct [1, 2, 3, 4]))) 8 4 = [1, 2, 3, 4]"
    using pkt_body [of fd 12 ct "[1, 2, 3, 4]"] by metis
qed (simp_all add: pkt_len)

lemma sendToOtherStudent_witness:
  "wp (CGroup_sendToOtherStudent 1 10 77) (\<lambda>_ t. sent t = [(7, msg 12 77 [1, 2, 3, 4]), (8, msg 12 77 [1, 2, 3, 4])])
     (house_srv (\<lambda>_. None) [] [])"
proof -
  have o: "own bufs0 0 [(10, pkt 5 (msg 12 3 [1, 2, 3, 4]))] [] (world (house_srv (\<lambda>_. None) [] [])) (house_srv (\<lambda>_. None) [] [])"
    using house_own by (rule own_mono) simp
  have "avail (house_srv (\<lambda>_. None) [] []) = 5" by (simp add: avail_def house_srv_def srv0_def)
  then show ?thesis
    using sendToOtherStudent_delivers [where k = 12 and x = "sample_group [] []" and g = 1 and ct = 77, OF o]
    by (auto simp: house_group NULL_def MAX_BUF_def pkt12 elim!: wp_mono dest!: own_sent)
qed

section \<open>The stacking order\<close>

text \<open>\<open>node_at s xs it i\<close>: following the list from its front, the first node with id \<open>i\<close> is at \<open>it\<close>.\<close>

definition node_at :: "srv \<Rightarrow> ptr list \<Rightarrow> nat \<Rightarrow> u32 \<Rightarrow> bool" where
  "node_at s xs it i \<longleftrightarrow> it < length xs \<and>
     (\<forall>j \<le> it. xs ! j \<noteq> NULL \<and> (\<exists>x. nodes s (xs ! j) = Some x \<and> (m_node_id x = i \<longleftrightarrow> j = it)))"

lemma layer_find_run: "node_at s xs it i \<Longrightarrow> layer_find xs i a s = Inr (a + it, s)"
proof (induction xs arbitrary: it a)
  case Nil
  then show ?case by (simp add: node_at_def)
next
  case (Cons n ns)
  from Cons.prems obtain x where x: "n \<noteq> NULL" "nodes s n = Some x" "m_node_id x = i \<longleftrightarrow> it = 0"
    unfolding node_at_def by (metis le0 nth_Cons_0)
  show ?case
  proof (cases it)
    case 0
    then show ?thesis using x by (simp add: bnd_def deref_def ret_def)
  next
    case (Suc j)
    have "node_at s ns j i"
      using Cons.prems unfolding node_at_def Suc by (auto dest: spec [of _ "Suc _"])
    then show ?thesis using x Suc Cons.IH [of j "Suc a"] by (simp add: bnd_def deref_def)
  qed
qed

definition move_up :: "nat \<Rightarrow> nat \<Rightarrow> 'a list \<Rightarrow> 'a list" where
  "move_up k it xs = take (it - k) xs @ [xs ! it] @ drop (it - k) (take it xs) @ drop (Suc it) xs"

definition move_down :: "nat \<Rightarrow> nat \<Rightarrow> 'a list \<Rightarrow> 'a list" where
  "move_down k it xs = take it xs @ take k (drop (Suc it) xs) @ [xs ! it] @ drop (Suc (it + k)) xs"

lemma split_two: "Suc j < length xs \<Longrightarrow> xs = take j xs @ xs ! j # xs ! Suc j # drop (Suc (Suc j)) xs"
  by (simp add: Cons_nth_drop_Suc)

lemma swap_two: "swap_at (length as) (Suc (length as)) (as @ a # b # cs) = as @ b # a # cs"
  "swap_at (Suc (length as)) (length as) (as @ a # b # cs) = as @ b # a # cs"
  by (simp_all add: swap_at_def nth_append list_update_append)

lemma move_up_step:
  assumes "Suc j < length xs" "k \<le> j"
  shows "move_up k j (swap_at j (Suc j) xs) = move_up (Suc k) (Suc j) xs"
proof -
  obtain as a b cs where xs: "xs = as @ a # b # cs" "length as = j"
    using split_two [OF assms(1)] assms(1) by (metis Suc_lessD length_take min.absorb2 less_or_eq_imp_le)
  show ?thesis using assms(2) unfolding xs(2) [symmetric] xs(1) swap_two
    by (simp add: move_up_def nth_append)
qed

lemma move_down_step:
  assumes "Suc j + k < length xs"
  shows "move_down k (Suc j) (swap_at (Suc j) j xs) = move_down (Suc k) j xs"
proof -
  have "Suc j < length xs" using assms by simp
  from split_two [OF this] this obtain as a b cs where xs: "xs = as @ a # b # cs" "length as = j"
    by (metis Suc_lessD length_take min.absorb2 less_or_eq_imp_le)
  show ?thesis unfolding xs(2) [symmetric] xs(1) swap_two
    by (simp add: move_down_def nth_append)
qed

lemma layer_up_loop_run:
  "it < length xs \<Longrightarrow> layer_up_loop rf c xs it i =
     (if rf then move_up (min c it) it xs else xs, i + int (min c it))"
proof (induction c arbitrary: xs it i)
  case 0
  then show ?case by (simp add: move_up_def id_take_nth_drop [symmetric])
next
  case (Suc c)
  show ?case
  proof (cases it)
    case 0
    then show ?thesis using Suc.prems by (simp add: move_up_def Cons_nth_drop_Suc [of 0, simplified])
  next
    case (Suc j)
    have "j < length (swap_at j it xs)" using Suc Suc.prems by (simp add: swap_at_def)
    then show ?thesis
      using Suc Suc.prems Suc.IH [of j "if rf then swap_at j it xs else xs" "i + 1"]
        move_up_step [of j xs "min c j"] by auto
  qed
qed

lemma layer_down_loop_run:
  "it < length xs \<Longrightarrow> layer_down_loop True c xs it i =
     (if it + c < length xs then Some (move_down c it xs, i + int c) else None)"
proof (induction c arbitrary: xs it i)
  case 0
  then show ?case by (simp add: move_down_def id_take_nth_drop [symmetric])
next
  case (Suc c)
  show ?case
  proof (cases "Suc it < length xs")
    case True
    then have "Suc it < length (swap_at (Suc it) it xs)" by (simp add: swap_at_def)
    then show ?thesis
      using True Suc.IH [of "Suc it" "swap_at (Suc it) it xs" "i + 1"] move_down_step [of it c xs]
      by (auto simp: swap_at_def)
  qed (use Suc.prems in auto)
qed

lemma layer_down_loop_same:
  "layer_down_loop False c xs it i = Some (xs, i + int (min c (length xs - it)))"
  by (induction c arbitrary: it i) auto

definition layers :: "srv \<Rightarrow> ptr \<Rightarrow> ptr list option" where
  "layers s g = map_option (\<lambda>x. m_node_layer_list (m_make_house x)) (groups s g)"

text \<open>A house with its stacking list replaced.\<close>

definition restack :: "ptr \<Rightarrow> ptr list \<Rightarrow> srv \<Rightarrow> srv" where
  "restack g xs s = set_group g (map_option (\<lambda>x. x\<lparr>m_make_house := (m_make_house x)\<lparr>m_node_layer_list := xs\<rparr>\<rparr>) (groups s g)) s"

lemma iterator_run:
  assumes "g \<noteq> NULL" "layers s g = Some xs" "node_at s xs it i"
  shows "CMakeHouse_get_iterator_by_node_id g i s = Inr (it, s)"
  using assms layer_find_run [OF assms(3), of 0]
  by (auto simp: CMakeHouse_get_iterator_by_node_id_def get_house_def layers_def bnd_def deref_def ret_def)

text \<open>\<open>layer_up\<close>: with a count \<open>cnt\<close> of steps, the picture moves up over \<open>min cnt it\<close> others
  (\<open>it\<close> is its position), the others keep their order, and the number of steps made is returned.
  This is so when the compiler evaluates the right argument of \<open>std::swap\<close> first; when it evaluates
  the left one first the steps are counted but the order does not change.  A negative count, which
  is what \<open>handleBuildHouse_Change_Layer\<close> passes, does nothing.\<close>

theorem layer_up_moves:
  assumes "g \<noteq> NULL" "layers s g = Some xs" "node_at s xs it i"
  shows "CMakeHouse_layer_up rf g i cnt s = Inr (int (min (nat cnt) it),
     restack g (if rf then move_up (min (nat cnt) it) it xs else xs) s)"
proof -
  obtain x where x: "groups s g = Some x" "m_node_layer_list (m_make_house x) = xs"
    using assms(2) by (auto simp: layers_def)
  have it: "it < length xs" using assms(3) by (simp add: node_at_def)
  show ?thesis
    unfolding CMakeHouse_layer_up_def bnd_def [of "CMakeHouse_get_iterator_by_node_id g i"] iterator_run [OF assms]
    using x it assms(1)
    by (simp add: get_house_def upd_house_def upd_group_def bnd_def sq_def deref_def ret_def modify_def
        layer_up_loop_run restack_def)
qed

definition three :: "ptr \<Rightarrow> CNode option" where
  "three = [30 \<mapsto> sample_node 1, 31 \<mapsto> sample_node 2, 32 \<mapsto> sample_node 3]"

lemma three_at: "node_at (house_srv three [30, 31, 32] m) [30, 31, 32] 2 3"
  "node_at (house_srv three [30, 31, 32] m) [30, 31, 32] 0 1"
  by (auto simp: node_at_def house_group three_def sample_node_def NULL_def le_Suc_eq numeral_eq_Suc)

lemma layer_up_witness:
  "CMakeHouse_layer_up True 1 3 1 (house_srv three [30, 31, 32] []) =
     Inr (1, restack 1 [30, 32, 31] (house_srv three [30, 31, 32] []))"
  using layer_up_moves [where g = 1 and s = "house_srv three [30, 31, 32] []", OF _ _ three_at(1), of True 1]
  by (simp add: layers_def house_group NULL_def move_up_def numeral_eq_Suc)

text \<open>\<open>layer_down\<close>: the picture moves down by exactly \<open>cnt\<close> places when that many others lie below
  it; otherwise the loop follows the end iterator of the list, which is undefined.\<close>

theorem layer_down_moves:
  assumes "g \<noteq> NULL" "layers s g = Some xs" "node_at s xs it i"
  shows "CMakeHouse_layer_down True g i cnt s =
     (if it + nat cnt < length xs then Inr (int (nat cnt), restack g (move_down (nat cnt) it xs) s)
      else Inl OutOfBounds)"
proof -
  obtain x where x: "groups s g = Some x" "m_node_layer_list (m_make_house x) = xs"
    using assms(2) by (auto simp: layers_def)
  have it: "it < length xs" using assms(3) by (simp add: node_at_def)
  show ?thesis
    unfolding CMakeHouse_layer_down_def bnd_def [of "CMakeHouse_get_iterator_by_node_id g i"] iterator_run [OF assms]
    using x it assms(1)
    by (simp add: get_house_def upd_house_def upd_group_def bnd_def sq_def deref_def ret_def modify_def fail_def
        layer_down_loop_run restack_def)
qed

lemma layer_down_witness:
  "CMakeHouse_layer_down True 1 1 2 (house_srv three [30, 31, 32] []) =
     Inr (2, restack 1 [31, 32, 30] (house_srv three [30, 31, 32] []))
   \<and> CMakeHouse_layer_down True 1 1 3 (house_srv three [30, 31, 32] []) = Inl OutOfBounds"
  using layer_down_moves [where g = 1 and s = "house_srv three [30, 31, 32] []", OF _ _ three_at(2), of 2]
    layer_down_moves [where g = 1 and s = "house_srv three [30, 31, 32] []", OF _ _ three_at(2), of 3]
  by (simp add: layers_def house_group NULL_def move_down_def numeral_eq_Suc)

section \<open>Deleting a picture\<close>

lemma layer_find_dangling:
  assumes "\<forall>a \<in> set as. a \<noteq> NULL \<and> (\<exists>z. nodes s a = Some z \<and> m_node_id z \<noteq> i)" "n \<noteq> NULL" "nodes s n = None"
  shows "layer_find (as @ n # bs) i it s = Inl DanglingPtr"
  using assms by (induction as arbitrary: it) (auto simp: bnd_def deref_def fail_def)

text \<open>C37: \<open>del\<close> frees the node and takes it out of the node map, but not out of the stacking list.  Wherever it stands there, the two
  operations on the order, up and down, follow the freed pointer for every picture that lies behind it (for every
  number that no picture in front of it has).\<close>

theorem del_leaves_dangling:
  assumes "g \<noteq> NULL" "groups s g = Some x" "smap_find (m_node_map (m_make_house x)) k = Some n" "n \<noteq> NULL"
    and "nodes s n = Some y" "m_node_layer_list (m_make_house x) = as @ n # bs"
    and "\<forall>a \<in> set as. a \<noteq> NULL \<and> a \<noteq> n \<and> (\<exists>z. nodes s a = Some z \<and> m_node_id z \<noteq> i)"
  shows "bnd (CMakeHouse_del g k) (\<lambda>_. CMakeHouse_layer_up rf g i cnt) s = Inl DanglingPtr
    \<and> bnd (CMakeHouse_del g k) (\<lambda>_. CMakeHouse_layer_down rf g i cnt) s = Inl DanglingPtr"
proof -
  let ?x = "x\<lparr>m_make_house := (m_make_house x)\<lparr>m_node_map := smap_erase k (m_node_map (m_make_house x))\<rparr>\<rparr>"
  let ?s = "set_group g (Some ?x) (set_node n None s)"
  have del: "CMakeHouse_del g k s = Inr (0, ?s)"
    using assms(1-5) by (simp add: CMakeHouse_del_def get_house_def
      upd_house_def upd_group_def delete_obj_def deref_def bnd_def sq_def ret_def modify_def set_node_def set_group_def)
  have "layer_find (as @ n # bs) i 0 ?s = Inl DanglingPtr"
    by (rule layer_find_dangling) (use assms(4,7) in \<open>auto simp: set_node_def set_group_def\<close>)
  then have "CMakeHouse_get_iterator_by_node_id g i ?s = Inl DanglingPtr"
    using assms(1,6) by (simp add: CMakeHouse_get_iterator_by_node_id_def get_house_def bnd_def deref_def ret_def set_group_def)
  then show ?thesis
    using del by (simp add: bnd_def CMakeHouse_layer_up_def CMakeHouse_layer_down_def)
qed

lemma del_leaves_dangling_witness:
  "bnd (CMakeHouse_del 1 2) (\<lambda>_. CMakeHouse_layer_down True 1 3 1)
     (house_srv three [30, 31, 32] [(1, 30), (2, 31), (3, 32)]) = Inl DanglingPtr"
proof -
  have "\<forall>a \<in> set [30]. a \<noteq> NULL \<and> a \<noteq> 31 \<and> (\<exists>z. three a = Some z \<and> m_node_id z \<noteq> 3)"
    by (simp add: three_def sample_node_def NULL_def CNode_new_def)
  then show ?thesis
    using del_leaves_dangling [where x = "sample_group [30, 31, 32] [(1, 30), (2, 31), (3, 32)]" and n = 31 and g = 1 and k = 2
        and y = "sample_node 2" and as = "[30]" and bs = "[32]" and i = 3
        and s = "house_srv three [30, 31, 32] [(1, 30), (2, 31), (3, 32)]" and rf = True and cnt = 1]
    by (simp add: house_group NULL_def) (simp add: three_def)
qed

section \<open>A house as a packet\<close>

definition node_of :: "srv \<Rightarrow> int \<times> ptr \<Rightarrow> CNode" where
  "node_of s kn = the (nodes s (snd kn))"

text \<open>The bytes below \<open>a\<close> stay, the words from \<open>a\<close> on are the pictures.\<close>

lemma own_write_nodes:
  assumes "own U n ((p, b) # C) X w s" "a + 8 * length m \<le> MAX_BUF"
    and "\<forall>kn \<in> set m. snd kn \<noteq> NULL \<and> nodes s (snd kn) \<noteq> None"
  shows "wp (write_nodes m p a) (\<lambda>_ t. \<exists>f. own U n ((p, b\<lparr>m_ptr := f\<rparr>) # C) X w t
     \<and> (\<forall>i < a. f i = m_ptr b i)
     \<and> (\<forall>i < length m. get64 f (a + 8 * i) = fst (DataTool_getData (node_picture (node_of s (m ! i))) 0))) s"
  using assms
proof (induction m arbitrary: a b s)
  case Nil
  have "own U n ((p, b\<lparr>m_ptr := m_ptr b\<rparr>) # C) X w s" using Nil.prems(1) by simp
  then show ?case by (auto simp: wp_simps intro: exI [of _ "m_ptr b"])
next
  case (Cons kn m)
  obtain k nd x where kn: "kn = (k, nd)" "nd \<noteq> NULL" "nodes s nd = Some x"
    using Cons.prems(3) by (cases kn) auto
  let ?v = "fst (DataTool_getData (node_picture x) 0)"
  have "wp (write_nodes m p (a + 8)) (\<lambda>_ t'. \<exists>f. own U n ((p, b\<lparr>m_ptr := f\<rparr>) # C) X w t'
     \<and> (\<forall>i < a. f i = m_ptr b i)
     \<and> (\<forall>i < length (kn # m). get64 f (a + 8 * i) = fst (DataTool_getData (node_picture (node_of s ((kn # m) ! i))) 0))) t"
    if t: "own U n ((p, b\<lparr>m_ptr := put64 (m_ptr b) a ?v\<rparr>) # C) X w t" for t
  proof -
    have nt: "nodes t = nodes s" using own_world [OF t] own_world [OF Cons.prems(1)] world_eqs by metis
    have "wp (write_nodes m p (a + 8)) (\<lambda>_ t'. \<exists>f. own U n ((p, b\<lparr>m_ptr := f\<rparr>) # C) X w t'
       \<and> (\<forall>i < a + 8. f i = put64 (m_ptr b) a ?v i)
       \<and> (\<forall>i < length m. get64 f (a + 8 + 8 * i) = fst (DataTool_getData (node_picture (node_of t (m ! i))) 0))) t"
      using Cons.IH [OF t, of "a + 8"] Cons.prems(2,3) nt by simp
    then show ?thesis
    proof (rule wp_mono, elim exE conjE)
      fix t' f
      assume f: "own U n ((p, b\<lparr>m_ptr := f\<rparr>) # C) X w t'" "\<forall>i < a + 8. f i = put64 (m_ptr b) a ?v i"
        "\<forall>i < length m. get64 f (a + 8 + 8 * i) = fst (DataTool_getData (node_picture (node_of t (m ! i))) 0)"
      have "get64 f a = get64 (put64 (m_ptr b) a ?v) a" using f(2) by (intro get64_cong) simp
      then have "get64 f a = ?v" by (simp add: get64_put64)
      then have "get64 f (a + 8 * i) = fst (DataTool_getData (node_picture (node_of s ((kn # m) ! i))) 0)"
        if "i < Suc (length m)" for i
        using that f(3) kn nt by (cases i) (simp_all add: node_of_def algebra_simps)
      moreover have "\<forall>i < a. f i = m_ptr b i" using f(2) by (simp add: put64_other)
      ultimately show "\<exists>f. own U n ((p, b\<lparr>m_ptr := f\<rparr>) # C) X w t' \<and> (\<forall>i < a. f i = m_ptr b i)
        \<and> (\<forall>i < length (kn # m). get64 f (a + 8 * i) = fst (DataTool_getData (node_picture (node_of s ((kn # m) ! i))) 0))"
        using f(1) by auto
    qed
  qed
  then show ?case
    using kn Cons.prems(1,2) by (auto simp: wp_simps intro!: own_wr64)
qed

text \<open>The end of \<open>set_buf\<close>: with the pictures in place, the count, the length and the size are set.\<close>

definition house_packet where
  "house_packet U n p b X w m s t \<longleftrightarrow> (\<exists>b'. own U n [(p, b')] X w t
     \<and> m_fd b' = m_fd b \<and> m_used b' = 12 + 8 * length m \<and> get32 (m_ptr b') 4 = get32 (m_ptr b) 4
     \<and> get32 (m_ptr b') 0 = of_nat (12 + 8 * length m) \<and> get32 (m_ptr b') 8 = of_nat (length m)
     \<and> (\<forall>i < length m. get64 (m_ptr b') (12 + 8 * i) = fst (DataTool_getData (node_picture (node_of s (m ! i))) 0)
         \<and> (packable_picture (node_picture (node_of s (m ! i))) \<longrightarrow>
              DataTool_getPicture (DataTool_getString (get64 (m_ptr b') (12 + 8 * i))) = Some (node_picture (node_of s (m ! i))))))"

lemma house_packet_end:
  assumes "own U n [(p, b\<lparr>m_ptr := f\<rparr>)] X w t" "\<forall>i < 12. f i = put32 (m_ptr b) 8 0 i"
    and "\<forall>i < length m. get64 f (12 + 8 * i) = fst (DataTool_getData (node_picture (node_of s (m ! i))) 0)"
    and "12 + 8 * length m \<le> MAX_BUF"
  shows "wp (sq (wr32 p 8 (of_nat (length m))) (sq (set_cLen p (of_nat (12 + 8 * length m)))
      (bnd (head_cLen p) (\<lambda>l. sq (set_size p (unat l)) (ret (0 :: int))))))
    (\<lambda>r t. r = 0 \<and> house_packet U n p b X w m s t) t"
proof -
  have "(12 + 8 * word_of_nat (length m) :: u32) = of_nat (12 + 8 * length m)" by simp
  then have len: "unat (12 + 8 * word_of_nat (length m) :: u32) = 12 + 8 * length m"
    using assms(4) by (simp add: MAX_BUF_def unat_of_nat del: of_nat_add of_nat_mult)
  have "get32 f 4 = get32 (put32 (m_ptr b) 8 0) 4" using assms(2) by (intro get32_cong) simp
  then have f4: "get32 f 4 = get32 (m_ptr b) 4" by (simp add: get32_put32_other)
  have dec: "get64 f (12 + 8 * i) = fst (DataTool_getData (node_picture (node_of s (m ! i))) 0)
      \<and> (packable_picture (node_picture (node_of s (m ! i))) \<longrightarrow>
           DataTool_getPicture (DataTool_getString (get64 f (12 + 8 * i))) = Some (node_picture (node_of s (m ! i))))"
    if "i < length m" for i
    using assms(3) that by (simp add: packable_picture_back)
  show ?thesis
    unfolding wp_simps
    apply (insert assms(1))
    apply (rule own_intros, assumption, use assms(4) in simp)
    apply (rule own_intros, assumption)+
    apply (rule list.set_intros)
    apply (rule own_intros, assumption)
    using len f4 dec apply (auto simp: house_packet_def wire_simps get64_put32_other packable_picture_back intro!: exI)
    done
qed

lemma write_nodes_overflow:
  assumes "own U n ((p, b) # C) X w s" "MAX_BUF < a + 8 * length m"  "a \<le> MAX_BUF"
    and "\<forall>kn \<in> set m. snd kn \<noteq> NULL \<and> nodes s (snd kn) \<noteq> None"
  shows "write_nodes m p a s = Inl OutOfBounds"
  using assms
proof (induction m arbitrary: a b s)
  case (Cons kn m)
  obtain k nd x where kn: "kn = (k, nd)" "nd \<noteq> NULL" "nodes s nd = Some x"
    using Cons.prems(4) by (cases kn) auto
  have p: "bufs s p = Some b" "m_size b = MAX_BUF" "p \<noteq> NULL" using own_buf [OF Cons.prems(1)] by auto
  let ?b = "b\<lparr>m_ptr := put64 (m_ptr b) a (fst (DataTool_getData (node_picture x) 0))\<rparr>"
  show ?case
  proof (cases "a + 8 \<le> MAX_BUF")
    case True
    have t: "own U n ((p, ?b) # C) X w (set_buf p ?b s)" by (rule own_set_buf [OF Cons.prems(1)]) (simp add: p)
    have "nodes (set_buf p ?b s) = nodes s" by (simp add: set_buf_def)
    then have "write_nodes m p (a + 8) (set_buf p ?b s) = Inl OutOfBounds"
      using Cons.prems(2,4) True by (intro Cons.IH [OF t]) auto
    then show ?thesis using kn p True by (simp add: bnd_def sq_def deref_def wr64_def check_def ret_def modify_def)
  next
    case False
    then show ?thesis using kn p by (simp add: bnd_def sq_def deref_def wr64_def check_def fail_def)
  qed
qed simp

text \<open>C10: \<open>set_buf\<close>: the packet of a house with \<open>n\<close> pictures, whose nodes exist, has length \<open>12 + 8 n\<close>, the count at offset 8,
  and from offset 12 on one 64-bit integer per picture, in node order, which is what \<open>DataTool\<close> packs the picture into; from
  the integer of a picture in the range of \<open>DataTool\<close> (\<open>packable_picture\<close>), which nobody checks, \<open>DataTool\<close> gets the
  position, angle, scale, name, layer and owner of that picture back.  Type and receiver stay.  With more than 638 pictures
  the function writes past the end of the buffer instead.\<close>

theorem set_buf_writes:
  assumes "own U n [(p, b)] X w s" "g \<noteq> NULL" "groups s g = Some x" "m_node_map (m_make_house x) = m"
    and "\<forall>kn \<in> set m. snd kn \<noteq> NULL \<and> nodes s (snd kn) \<noteq> None"
  shows "if length m \<le> 638 then
      wp (CGroup_set_buf g p) (\<lambda>r t. r = 0 \<and> (\<exists>b'. own U n [(p, b')] X w t
       \<and> m_fd b' = m_fd b \<and> m_used b' = 12 + 8 * length m \<and> get32 (m_ptr b') 4 = get32 (m_ptr b) 4
       \<and> get32 (m_ptr b') 0 = of_nat (12 + 8 * length m) \<and> get32 (m_ptr b') 8 = of_nat (length m)
       \<and> (\<forall>i < length m. get64 (m_ptr b') (12 + 8 * i) = fst (DataTool_getData (node_picture (node_of s (m ! i))) 0)
           \<and> (packable_picture (node_picture (node_of s (m ! i))) \<longrightarrow>
                DataTool_getPicture (DataTool_getString (get64 (m_ptr b') (12 + 8 * i))) = Some (node_picture (node_of s (m ! i))))))) s
    else CGroup_set_buf g p s = Inl OutOfBounds"
proof -
  have p: "p \<noteq> NULL" using own_buf [OF assms(1)] by simp
  let ?b = "b\<lparr>m_ptr := put32 (m_ptr b) 8 0\<rparr>"
  have same: "nodes t = nodes s \<and> groups t = groups s" if "own U n [(p, ?b)] X w t" for t
    using own_world [OF that] own_world [OF assms(1)] world_eqs by metis
  show ?thesis
  proof (cases "length m \<le> 638")
    case True
    then have fits: "12 + 8 * length m \<le> MAX_BUF" by (simp add: MAX_BUF_def)
    have "wp (write_nodes m p 12) (\<lambda>_. wp (sq (wr32 p 8 (of_nat (length m))) (sq (set_cLen p (of_nat (12 + 8 * length m)))
        (bnd (head_cLen p) (\<lambda>l. sq (set_size p (unat l)) (ret (0 :: int)))))) (\<lambda>r t. r = 0 \<and> house_packet U n p b X w m s t)) t"
      if t: "own U n [(p, ?b)] X w t" for t
    proof -
      have n: "nodes t = nodes s" "node_of t = node_of s" using same [OF t] by (simp_all add: node_of_def fun_eq_iff)
      have "wp (write_nodes m p 12) (\<lambda>_ t'. \<exists>f. own U n [(p, b\<lparr>m_ptr := f\<rparr>)] X w t'
          \<and> (\<forall>i < 12. f i = put32 (m_ptr b) 8 0 i)
          \<and> (\<forall>i < length m. get64 f (12 + 8 * i) = fst (DataTool_getData (node_picture (node_of s (m ! i))) 0))) t"
        using own_write_nodes [OF t, of 12 m] fits assms(5) n by simp
      then show ?thesis by (rule wp_mono) (elim exE conjE, rule house_packet_end [OF _ _ _ fits])
    qed
    then have "wp (CGroup_set_buf g p) (\<lambda>r t. r = 0 \<and> house_packet U n p b X w m s t) s"
      using p assms(2-4) same unfolding CGroup_set_buf_def MSG_HEAD_LEN_def
      by (auto simp: wp_simps get_house_def MAX_BUF_def intro!: own_wr32 [OF assms(1)])
    then show ?thesis using True unfolding house_packet_def by simp
  next
    case False
    have b: "bufs s p = Some b" "m_size b = MAX_BUF" using own_buf [OF assms(1)] by auto
    have t: "own U n [(p, ?b)] X w (set_buf p ?b s)" by (rule own_set_buf [OF assms(1)]) (simp add: b)
    have "write_nodes m p 12 (set_buf p ?b s) = Inl OutOfBounds"
      by (rule write_nodes_overflow [OF t]) (use False assms(5) in \<open>auto simp: MAX_BUF_def set_buf_def\<close>)
    then show ?thesis
      using False p b assms(2-4)
      by (simp add: CGroup_set_buf_def MSG_HEAD_LEN_def wr32_def deref_def get_house_def bnd_def sq_def check_def ret_def modify_def
          MAX_BUF_def) (simp add: set_buf_def)
  qed
qed

text \<open>A node with the fields of a picture.\<close>

definition pic_node :: "Picture \<Rightarrow> CNode" where
  "pic_node pic = (CNode_new (\<lambda>_. 0) 5 (pic_x pic) (pic_y pic))\<lparr>m_angle := pic_angle pic, m_scale := pic_scale pic,
     m_sname := pic_name pic, m_layer := pic_layer pic, m_student_id := pic_studentId pic\<rparr>"

definition pic1 :: Picture where "pic1 = picture_of 100 200 45 12 1001 1 7"
definition pic2 :: Picture where "pic2 = picture_of 300 20 0 10 2003 2 8"

lemma node_picture_pic_node: "node_picture (pic_node pic) = pic"
  by (simp add: node_picture_def pic_node_def CNode_new_def)

lemma packable_pics: "packable_picture pic1" "packable_picture pic2"
  unfolding pic1_def pic2_def by (rule packable_pictureI; simp add: packable_def)+

lemma set_buf_witness:
  "wp (CGroup_set_buf 1 10) (\<lambda>r t. r = 0 \<and> (\<exists>b'. bufs t 10 = Some b' \<and> m_used b' = 28
      \<and> get32 (m_ptr b') 8 = 2 \<and> DataTool_getPicture (DataTool_getString (get64 (m_ptr b') 20)) = Some pic2))
     (house_srv [30 \<mapsto> pic_node pic1, 31 \<mapsto> pic_node pic2] [30, 31] [(1, 30), (2, 31)])"
  (is "wp _ _ ?s")
proof -
  let ?m = "[(1 :: int, 30 :: ptr), (2, 31)]"
  have "wp (CGroup_set_buf 1 10) (\<lambda>r t. r = 0 \<and> (\<exists>b'. own bufs0 5 [(10, b')] [] (world ?s) t
       \<and> m_fd b' = m_fd (pkt 5 (msg 12 3 [1, 2, 3, 4])) \<and> m_used b' = 12 + 8 * length ?m
       \<and> get32 (m_ptr b') 4 = get32 (m_ptr (pkt 5 (msg 12 3 [1, 2, 3, 4]))) 4
       \<and> get32 (m_ptr b') 0 = of_nat (12 + 8 * length ?m) \<and> get32 (m_ptr b') 8 = of_nat (length ?m)
       \<and> (\<forall>i < length ?m. get64 (m_ptr b') (12 + 8 * i) = fst (DataTool_getData (node_picture (node_of ?s (?m ! i))) 0)
           \<and> (packable_picture (node_picture (node_of ?s (?m ! i))) \<longrightarrow>
                DataTool_getPicture (DataTool_getString (get64 (m_ptr b') (12 + 8 * i))) = Some (node_picture (node_of ?s (?m ! i))))))) ?s"
    using set_buf_writes [where m = ?m and g = 1 and x = "sample_group [30, 31] ?m", OF house_own, of "[30 \<mapsto> pic_node pic1, 31 \<mapsto> pic_node pic2]" "[30, 31]" ?m]
    by (simp add: house_group NULL_def)
  then show ?thesis
  proof (rule wp_mono, elim conjE exE)
    fix r t b'
    assume b: "own bufs0 5 [(10, b')] [] (world ?s) t" "r = 0" "m_used b' = 12 + 8 * length ?m" "get32 (m_ptr b') 8 = of_nat (length ?m)"
      and g: "\<forall>i < length ?m. get64 (m_ptr b') (12 + 8 * i) = fst (DataTool_getData (node_picture (node_of ?s (?m ! i))) 0)
           \<and> (packable_picture (node_picture (node_of ?s (?m ! i))) \<longrightarrow>
                DataTool_getPicture (DataTool_getString (get64 (m_ptr b') (12 + 8 * i))) = Some (node_picture (node_of ?s (?m ! i))))"
    have "node_picture (node_of ?s (?m ! 1)) = pic2" by (simp add: node_of_def house_group node_picture_pic_node)
    then have "DataTool_getPicture (DataTool_getString (get64 (m_ptr b') 20)) = Some pic2"
      using spec [OF g, of 1] packable_pics by (simp add: packable_picture_back)
    then show "r = 0 \<and> (\<exists>b'. bufs t 10 = Some b' \<and> m_used b' = 28
      \<and> get32 (m_ptr b') 8 = 2 \<and> DataTool_getPicture (DataTool_getString (get64 (m_ptr b') 20)) = Some pic2)"
      using own_buf [OF b(1)] b(2-4) by auto
  qed
qed

end
