(* ===== verification/Login_Spec.thy ===== *)
theory Login_Spec
  imports Login Messaging_Spec
begin

text \<open>
  The login of a teacher: which passwords are accepted, and the reply that goes back.
\<close>

lemma strncmp_prefix: "strncmp_eq s t \<longleftrightarrow> (\<exists>rest. takeWhile (\<lambda>c. c \<noteq> 0) t = s @ rest)"
  unfolding strncmp_eq_def by (metis append_take_drop_id append_eq_conv_conj)

definition stored_password :: "env \<Rightarrow> cstring \<Rightarrow> cstring" where
  "stored_password e u = takeWhile (\<lambda>c. c \<noteq> 0) (last_field (db_query e SQL_SELECT_TEACHER [ArgString u]) ''password'')"

lemma login_teacher_cases:
  "login_teacher e u pw = (if pw \<noteq> [] \<and> (\<exists>rest. stored_password e u = pw @ rest) then 0 else - 1)"
  by (simp add: login_teacher_def strncmp_prefix stored_password_def Let_def)

definition login_reply :: "bool \<Rightarrow> byte list" where
  "login_reply ok = msg 62 CT_LoginResult (le32 (if ok then RES_SUCCEED else RES_FAIL) @ login_message (if ok then 0 else - 1))"

lemma length_login_message: "length (login_message r) = 50"
  by (simp add: login_message_def Let_def chars_def)

lemma own_rd_cstr [own_intros]:
  assumes "own U n C X w s" "(p, b) \<in> set C" "e \<le> MAX_BUF" "cstr (m_ptr b) a e = Some x" "Q x s"
  shows "wp (rd_cstr p a e) Q s"
  using own_buf [OF assms(1,2)] assms(3-5) by (simp add: rd_cstr_def wp_simps)

lemma own_login_answer:
  assumes "own U n [(p, b)] X w s" "\<And>t. own U n [] (X @ [(m_fd b, login_reply (r = 0))]) w t \<Longrightarrow> Q () t" "r = 0 \<or> r = - 1"
  shows "wp (login_answer p r) Q s"
proof -
  have o: "(p, x) \<in> set [(p, x)]" for x :: Buf by simp
  let ?d = "le32 (if r = 0 then RES_SUCCEED else RES_FAIL) @ login_message r"
  have d: "length ?d = 54" by (simp add: length_login_message)
  have len: "of_nat (MSG_HEAD_LEN + sizeof sLoginOutResult) = (62 :: u32)" by (simp add: MSG_HEAD_LEN_def)
  show ?thesis
    unfolding login_answer_def len head_defs wp_simps
    apply (rule own_wr32 [OF assms(1)], simp add: MAX_BUF_def)
    apply (rule own_wr32, assumption, simp add: MAX_BUF_def)
    apply (rule own_wr_bytes, assumption)
     apply (simp add: length_login_message MAX_BUF_def MSG_HEAD_LEN_def)
    apply (rule own_rd32, assumption, rule o, simp add: MAX_BUF_def)
    apply (rule own_set_size, assumption)
    apply (rule own_send_enqueue, assumption)
    apply (rule assms(2))
    using bytes_at_copy_list [of "put32 (put32 (m_ptr b) 0 62) 4 CT_LoginResult" 8 ?d] assms(3) d
    apply (auto simp: view_def login_reply_def wire_msg wire_simps get32_copy_list_other MSG_HEAD_LEN_def)
    done
qed

lemma login_teacher_reply:
  assumes "own U n [(p, b)] X w s" "get32 (m_ptr b) 8 = MCT_TEACHER"
    and "cstr (m_ptr b) 12 52 = Some u" "cstr (m_ptr b) 32 52 = Some pw"
  shows "wp (handleLogin e p) (\<lambda>_ t. own U n [] (X @ [(m_fd b, login_reply (login_teacher e u pw = 0))]) w t) s"
proof -
  have o: "(p, b) \<in> set [(p, b)]" by simp
  have ne: "MCT_TEACHER \<noteq> MCT_STUDENT" by (simp add: MCT_TEACHER_def MCT_STUDENT_def)
  have r: "login_teacher e u pw = 0 \<or> login_teacher e u pw = - 1" by (simp add: login_teacher_cases)
  have offs: "MSG_HEAD_LEN + offsetof sLogin ''type'' = 8" "MSG_HEAD_LEN + offsetof sLogin ''username'' = 12"
    "MSG_HEAD_LEN + offsetof sLogin ''password'' = 32" "MSG_HEAD_LEN + sizeof sLogin = 52"
    by (simp_all add: MSG_HEAD_LEN_def)
  show ?thesis
    unfolding handleLogin_def LoginCheck_check_def Let_def offs wp_simps
    apply (rule own_rd32 [OF assms(1) o], simp add: MAX_BUF_def)
    apply (rule own_get_fd [OF assms(1) o])
    apply (simp only: assms(2) ne refl if_False if_True wp_bnd)
    apply (rule own_rd_cstr [OF assms(1) o _ assms(3)], simp add: MAX_BUF_def)
    apply (rule own_rd_cstr [OF assms(1) o _ assms(4)], simp add: MAX_BUF_def)
    unfolding wp_ret
    apply (rule own_login_answer [OF assms(1) _ r])
    apply assumption
    done
qed

text \<open>C16: A login packet of a teacher is answered to its sender, and with success exactly when the given password is
  a non-empty prefix of the stored one: the first character of the password is enough, an empty
  one never is.  Nothing else is sent and no other state changes.\<close>

theorem login_teacher_prefix:
  assumes "own U n [(p, b)] X w s" "get32 (m_ptr b) 8 = MCT_TEACHER"
    and "cstr (m_ptr b) 12 52 = Some u" "cstr (m_ptr b) 32 52 = Some pw"
  shows "wp (handleLogin e p) (\<lambda>_ t. own U n []
     (X @ [(m_fd b, login_reply (pw \<noteq> [] \<and> (\<exists>rest. stored_password e u = pw @ rest)))]) w t) s"
proof -
  have "login_teacher e u pw = 0 \<longleftrightarrow> pw \<noteq> [] \<and> (\<exists>rest. stored_password e u = pw @ rest)"
    by (simp add: login_teacher_cases)
  with login_teacher_reply [OF assms, of e] show ?thesis by simp
qed

text \<open>The stored password is \<open>abc\<close>; the packet gives \<open>a\<close>.\<close>

definition password_env :: env where
  "password_env = \<lparr>db_query = (\<lambda>q args. Some [\<lparr>getString = (\<lambda>c. [97, 98, 99]), getInt = (\<lambda>c. 0)\<rparr>]), time_now = 0,
     can_open_picture = False, swap_right_first = False\<rparr>"

definition login_pkt :: Buf where
  "login_pkt = pkt 7 (msg 52 CT_Login (le32 MCT_TEACHER @ (120 # replicate 19 0) @ (97 # replicate 19 0)))"

lemma login_pkt_fields:
  "get32 (m_ptr login_pkt) 8 = MCT_TEACHER" "cstr (m_ptr login_pkt) 12 52 = Some [120]"
  "cstr (m_ptr login_pkt) 32 52 = Some [97]"
proof -
  have at: "m_ptr login_pkt i = (le32 52 @ le32 CT_Login @ le32 MCT_TEACHER @ (120 # replicate 19 0) @ (97 # replicate 19 0)) ! i"
    if "i < 52" for i
    using that by (simp add: login_pkt_def pkt_def msg_def copy_list_def)
  show "get32 (m_ptr login_pkt) 8 = MCT_TEACHER"
    using pkt_get32 [of 7 "le32 52 @ le32 CT_Login" MCT_TEACHER "(120 # replicate 19 0) @ (97 # replicate 19 0)"]
    by (simp add: login_pkt_def msg_def)
  show "cstr (m_ptr login_pkt) 12 52 = Some [120]" "cstr (m_ptr login_pkt) 32 52 = Some [97]"
    by (rule cstr_append_zero; simp add: at nth_append)+
qed

lemma login_teacher_prefix_witness:
  "wp (handleLogin password_env 10) (\<lambda>_ t. sent t = [(7, login_reply True)]) (srv0 [] login_pkt)"
proof -
  have o: "own bufs0 5 [(10, login_pkt)] [] (world (srv0 [] login_pkt)) (srv0 [] login_pkt)"
    by (rule srv0_own) (simp_all add: srv0_def login_pkt_def)
  have "stored_password password_env [120] = [97, 98, 99]"
    by (simp add: stored_password_def password_env_def last_field_def)
  then show ?thesis
    by (intro wp_mono [OF login_teacher_prefix [OF o login_pkt_fields]])
      (auto simp: login_pkt_def dest: own_sent)
qed

end
