(* ===== verification/Room_Spec.thy ===== *)
theory Room_Spec
  imports Samples
begin

text \<open>
  What the clients of a room are told when somebody leaves it, and what is left of the room: the
  packets that go out, in order and byte for byte, and the changes of the room's members.  The
  house groups and the puzzle timers of a room are here as well.
\<close>

section \<open>Single packets\<close>

lemma ST_status_size [simp]: "sizeof ST_SendStudentStatusReq = 8"
  by simp

lemma own_send_one_status:
  assumes "own U (Suc n) C X w s"
    and "\<And>t. own U n C (X @ [(fd, msg 16 ST_SendStudentStatus (le32 sid @ le32 st))]) w t \<Longrightarrow> Q () t"
  shows "wp (send_one_status sid st fd) Q s"
  unfolding send_one_status_def wr_status_def
  apply (simp add: MSG_HEAD_LEN_def)
  unfolding wp_simps
  apply (insert assms(1))
  apply (rule own_intros, assumption)+
  apply (simp add: MAX_BUF_def)
  apply (rule own_intros, assumption)
  apply (simp add: MAX_BUF_def)
  apply (rule own_intros, assumption)
  apply (rule list.set_intros)
  apply (rule own_intros, assumption)+
  apply (rule assms(2))
  apply (simp add: view_def wire_msg wire_simps bytes_at_split [of _ 8 4 4, simplified] flip: le32_get32)
  done

lemma own_send_counted_status:
  assumes "own U (Suc n) C X w s" "stu \<noteq> NULL" "students s stu = Some x"
    and "\<And>t. own U n C (X @ [(fd, msg 20 ST_SendStudentStatus (le32 1 @ le32 (m_Id x) @ le32 (m_current_status x)))]) w t \<Longrightarrow> Q () t"
  shows "wp (send_counted_status stu fd) Q s"
proof -
  have st: "students t stu = Some x" if "own U' n' C' X' w t" for U' n' C' X' t
    using own_world [OF that] own_world [OF assms(1)] assms(3) world_eqs by metis
  show ?thesis
    unfolding send_counted_status_def wr_status_def
    apply (simp add: MSG_HEAD_LEN_def)
    unfolding wp_simps
    apply (insert assms(1))
    apply (rule own_intros, assumption)+
    apply (simp add: MAX_BUF_def)
    apply (simp add: assms(2) st)
    apply (rule own_intros, assumption)
    apply (simp add: MAX_BUF_def)
    apply (rule own_intros, assumption)
    apply (simp add: MAX_BUF_def)
    apply (rule own_intros, assumption)
    apply (rule list.set_intros)
    apply (rule own_intros, assumption)+
    apply (rule assms(4))
    apply (simp add: view_def wire_msg wire_simps bytes_at_split [of _ 8 4 8, simplified]
        bytes_at_split [of _ 12 4 4, simplified] flip: le32_get32)
    done
qed

section \<open>Lists of statuses\<close>

definition status_bytes :: "(ptr \<Rightarrow> CStudent option) \<Rightarrow> (int \<times> ptr) list \<Rightarrow> byte list" where
  "status_bytes h m = concat (map (\<lambda>(k, stu). le32 (m_Id (the (h stu))) @ le32 (m_current_status (the (h stu)))) m)"

definition enrolled :: "(ptr \<Rightarrow> CStudent option) \<Rightarrow> (int \<times> ptr) list \<Rightarrow> bool" where
  "enrolled h m \<longleftrightarrow> (\<forall>kv \<in> set m. snd kv \<noteq> NULL \<and> h (snd kv) \<noteq> None)"

lemma enrolled_Cons [simp]: "enrolled h ((k, stu) # m) \<longleftrightarrow> stu \<noteq> NULL \<and> h stu \<noteq> None \<and> enrolled h m"
  by (auto simp: enrolled_def)

lemma enrolled_Nil [simp]: "enrolled h []"
  by (simp add: enrolled_def)

lemma enrolled_upd: "enrolled h m \<Longrightarrow> enrolled (h(p \<mapsto> x)) m"
  by (auto simp: enrolled_def)

lemma enrolled_find: "enrolled h m \<Longrightarrow> smap_find m k = Some stu \<Longrightarrow> stu \<noteq> NULL \<and> (\<exists>x. h stu = Some x)"
  using smap_find_in [of m k stu] by (force simp: enrolled_def)

lemma length_status_bytes [simp]: "length (status_bytes h m) = 8 * length m"
  by (induction m) (auto simp: status_bytes_def)

lemma own_write_statuses:
  assumes "own U n ((p, b) # C) X w s" "12 \<le> a" "a + 8 * length m \<le> MAX_BUF" "enrolled (students s) m"
  shows "wp (write_statuses m p a) (\<lambda>_ t. \<exists>f. own U n ((p, b\<lparr>m_ptr := f\<rparr>) # C) X w t
     \<and> get32 f 0 = get32 (m_ptr b) 0 + of_nat (8 * length m) \<and> (\<forall>i. 4 \<le> i \<and> i < a \<longrightarrow> f i = m_ptr b i)
     \<and> bytes_at f a (8 * length m) = status_bytes (students s) m) s"
  using assms
proof (induction m arbitrary: a b s)
  case Nil
  then show ?case by (auto simp: wp_simps status_bytes_def bytes_at_def intro: exI [of _ "m_ptr b"])
next
  case (Cons kv m)
  obtain k stu x where kv: "kv = (k, stu)" "stu \<noteq> NULL" "students s stu = Some x"
    using Cons.prems(4) by (cases kv) auto
  let ?f1 = "put32 (put32 (m_ptr b) a (m_Id x)) (a + 4) (m_current_status x)"
  let ?f2 = "put32 ?f1 0 (get32 (m_ptr b) 0 + 8)"
  have step: "wp (write_statuses m p (a + 8)) (\<lambda>_ t'. \<exists>f. own U n ((p, b\<lparr>m_ptr := f\<rparr>) # C) X w t'
     \<and> get32 f 0 = get32 (m_ptr b) 0 + of_nat (8 * length (kv # m)) \<and> (\<forall>i. 4 \<le> i \<and> i < a \<longrightarrow> f i = m_ptr b i)
     \<and> bytes_at f a (8 * length (kv # m)) = status_bytes (students s) (kv # m)) t"
    if t: "own U n ((p, b\<lparr>m_ptr := ?f2\<rparr>) # C) X w t" for t
  proof -
    have st: "students t = students s" using own_world [OF t] own_world [OF Cons.prems(1)] world_eqs by metis
    have "wp (write_statuses m p (a + 8)) (\<lambda>_ t'. \<exists>f. own U n ((p, b\<lparr>m_ptr := f\<rparr>) # C) X w t'
       \<and> get32 f 0 = get32 ?f2 0 + of_nat (8 * length m) \<and> (\<forall>i. 4 \<le> i \<and> i < a + 8 \<longrightarrow> f i = ?f2 i)
       \<and> bytes_at f (a + 8) (8 * length m) = status_bytes (students s) m) t"
      using Cons.IH [OF t, of "a + 8"] Cons.prems(2-4) kv st by simp
    then show ?thesis
    proof (rule wp_mono, elim exE conjE)
      fix t' f
      assume f: "own U n ((p, b\<lparr>m_ptr := f\<rparr>) # C) X w t'" "get32 f 0 = get32 ?f2 0 + of_nat (8 * length m)"
        "\<forall>i. 4 \<le> i \<and> i < a + 8 \<longrightarrow> f i = ?f2 i" "bytes_at f (a + 8) (8 * length m) = status_bytes (students s) m"
      have "bytes_at f a 8 = bytes_at ?f2 a 8" using f(3) Cons.prems(2) by (intro bytes_at_cong) simp
      also have "\<dots> = le32 (m_Id x) @ le32 (m_current_status x)"
        using Cons.prems(2) by (simp add: bytes_at_split [of _ a 4 4, simplified] wire_simps flip: le32_get32)
      finally have b8: "bytes_at f a 8 = le32 (m_Id x) @ le32 (m_current_status x)" .
      have "bytes_at f a (8 * length (kv # m)) = bytes_at f a 8 @ bytes_at f (a + 8) (8 * length m)"
        using bytes_at_split [of f a 8 "8 * length m"] by simp
      then have "bytes_at f a (8 * length (kv # m)) = status_bytes (students s) (kv # m)"
        using b8 f(4) kv by (simp add: status_bytes_def)
      moreover have "\<forall>i. 4 \<le> i \<and> i < a \<longrightarrow> f i = m_ptr b i"
        using f(3) by (simp add: put32_other)
      moreover have "get32 f 0 = get32 (m_ptr b) 0 + of_nat (8 * length (kv # m))"
        using f(2) by (simp add: get32_put32 algebra_simps)
      ultimately show "\<exists>f. own U n ((p, b\<lparr>m_ptr := f\<rparr>) # C) X w t'
        \<and> get32 f 0 = get32 (m_ptr b) 0 + of_nat (8 * length (kv # m)) \<and> (\<forall>i. 4 \<le> i \<and> i < a \<longrightarrow> f i = m_ptr b i)
        \<and> bytes_at f a (8 * length (kv # m)) = status_bytes (students s) (kv # m)"
        using f(1) by blast
    qed
  qed
  have "get32 ?f1 0 = get32 (m_ptr b) 0" using Cons.prems(2) by (simp add: get32_put32_other)
  then show ?case
    using kv Cons.prems(2,3) step unfolding kv(1) write_statuses.simps wr_status_def wp_simps
    by (auto intro!: own_wr32 [OF Cons.prems(1)] own_wr32 own_head_cLen own_set_cLen)
qed

lemma own_copy_status:
  assumes "own U (Suc n) C X w s" "(p, b) \<in> set C" "unat (get32 (m_ptr b) 0) = k" "k \<le> MAX_BUF"
    and "\<And>t. own U n C (X @ [(fd, bytes_at (m_ptr b) 0 k)]) w t \<Longrightarrow> Q () t"
  shows "wp (copy_status p fd) Q s"
  unfolding copy_status_def wp_simps
  apply (insert assms(1,2))
  apply (rule own_intros, assumption)
  apply (rule own_intros, assumption, rule list.set_intros, assumption)
  apply (rule own_intros, assumption, rule list.set_intros, assumption)
  apply (use assms(3,4) in simp)
  apply (use assms(3,4) in simp)
  apply (rule own_intros, assumption)+
  apply (rule assms(5))
  using assms(3,4) apply (simp add: view_def bytes_at_copy_mem)
  done

section \<open>A client leaves\<close>

lemma world_parts: "own U n C X w s \<Longrightarrow> own U' n' C' X' w t \<Longrightarrow> rooms t = rooms s \<and> students t = students s"
  using own_world world_eqs by metis

definition offline :: "CStudent \<Rightarrow> CStudent" where
  "offline x = x\<lparr>m_Socket := 0, m_current_status := eCS_OFFLINE\<rparr>"

lemma own_mark_offline:
  assumes "own U n C X w s" "smap_find (rooms s) rid = Some r" "smap_find (m_student_map r) fd = Some stu"
    and "stu \<noteq> NULL" "students s stu = Some x"
    and "\<And>t. own U n C X (world t) t \<Longrightarrow> rooms t = rooms s \<Longrightarrow> students t = (students s)(stu \<mapsto> offline x) \<Longrightarrow> Q () t"
  shows "wp (mark_offline (Some rid) fd 0) Q s"
proof -
  let ?s1 = "set_student stu (Some (x\<lparr>m_Socket := 0\<rparr>)) s"
  let ?s2 = "set_student stu (Some (offline x)) ?s1"
  have "own U n C X (world ?s2) ?s2"
    using own_set_student [OF own_set_student [OF assms(1)]] .
  then have "Q () ?s2" by (rule assms(6)) (simp_all add: set_student_def)
  then show ?thesis
    using assms(2-5) by (simp add: mark_offline_def wp_simps upd_student_def CStudent_setSocket_def
        CStudent_setStudentStatus_def set_student_def offline_def)
qed

lemma own_tell_and_remove:
  assumes "own U (Suc (Suc n)) C X w s" "smap_find (rooms s) rid = Some r" "smap_find (m_student_map r) fd = Some stu"
    and "stu \<noteq> NULL" "students s stu = Some x"
  defines "pk \<equiv> msg 20 ST_SendStudentStatus (le32 1 @ le32 (m_Id x) @ le32 (m_current_status x))"
  assumes "\<And>t. own U n C (X @ [(m_teacher_fd r, pk), (m_white_fd r, pk)]) (world t) t \<Longrightarrow>
      rooms t = smap_set rid (r\<lparr>m_student_map := smap_erase fd (m_student_map r)\<rparr>) (rooms s) \<Longrightarrow>
      students t = (students s)(stu := None) \<Longrightarrow> Q () t"
  shows "wp (tell_and_remove (Some rid) fd 0) Q s"
proof -
  have rest: "wp (sq (delete_obj students set_student stu)
      (upd_room (Some rid) (\<lambda>r. r\<lparr>m_student_map := smap_erase fd (m_student_map r)\<rparr>))) Q t"
    if t: "own U n C ((X @ [(m_teacher_fd r, pk)]) @ [(m_white_fd r, pk)]) w t" for t
  proof -
    have eq: "rooms t = rooms s" "students t = students s" using world_parts [OF assms(1) t] by simp_all
    let ?t1 = "set_student stu None t"
    let ?t2 = "set_room rid (r\<lparr>m_student_map := smap_erase fd (m_student_map r)\<rparr>) ?t1"
    have "own U n C (X @ [(m_teacher_fd r, pk), (m_white_fd r, pk)]) (world ?t2) ?t2"
      using own_set_room [OF own_set_student [OF t]] by simp
    then have "Q () ?t2" by (rule assms(7)) (simp_all add: set_student_def set_room_def eq)
    then show ?thesis
      using assms(2,4,5) eq by (simp add: delete_obj_def wp_simps upd_room_def set_student_def)
  qed
  have "wp (sq (send_counted_status stu (m_teacher_fd r)) (sq (send_counted_status stu (m_white_fd r))
     (sq (delete_obj students set_student stu)
      (upd_room (Some rid) (\<lambda>r. r\<lparr>m_student_map := smap_erase fd (m_student_map r)\<rparr>))))) Q s"
    unfolding wp_sq
    apply (rule own_send_counted_status [OF assms(1,4,5)])
    apply (rule own_send_counted_status, assumption, rule assms(4))
     apply (use world_parts [OF assms(1)] assms(5) in simp)
    apply (fold wp_sq)
    apply (rule rest)
    apply (simp add: pk_def)
    done
  then show ?thesis using assms(2,3) by (simp add: tell_and_remove_def wp_bnd wp_deref_room)
qed

text \<open>Every student that is left gets the same packet.\<close>

lemma own_copies:
  assumes "own U (n + length m) [(p, b)] X w s" "unat (get32 (m_ptr b) 0) = k" "k \<le> MAX_BUF"
  shows "wp (for_each m (\<lambda>(fd, stu). copy_status p fd)) (\<lambda>_. own U n [(p, b)]
    (X @ map (\<lambda>(fd, stu). (fd, bytes_at (m_ptr b) 0 k)) m) w) s"
  by (rule own_for_each [OF assms(1)]) (auto intro!: own_copy_status simp: assms(2,3))

definition list_msg :: "(ptr \<Rightarrow> CStudent option) \<Rightarrow> (int \<times> ptr) list \<Rightarrow> byte list" where
  "list_msg h m = msg (of_nat (12 + 8 * length m)) ST_SendStudentStatus (le32 (of_nat (length m)) @ status_bytes h m)"

text \<open>The list of the room's students as \<open>update_all_student_status\<close> prepares it.\<close>

lemma list_packet:
  assumes "get32 f 0 = 12 + of_nat (8 * length m)" "get32 f 4 = ST_SendStudentStatus"
    and "bytes_at f 12 (8 * length m) = status_bytes h m"
  shows "bytes_at (put32 f 8 (of_nat (length m))) 0 (12 + 8 * length m) = list_msg h m"
proof -
  let ?g = "put32 f 8 (of_nat (length m))"
  have "bytes_at ?g 8 (4 + 8 * length m) = le32 (of_nat (length m)) @ status_bytes h m"
    using assms(3) by (simp add: bytes_at_split [of _ 8 4] wire_simps flip: le32_get32)
  then show ?thesis using assms(1,2) by (simp add: wire_msg list_msg_def wire_simps)
qed

lemma length_smap_erase: "smap_find m k = Some v \<Longrightarrow> length m = Suc (length (smap_erase k m))"
  by (induction m) (auto split: if_splits)

lemma own_list_start:
  assumes "own U (Suc n) [] X w s"
    and "\<And>p b t. own U n [(p, b)] X w t \<Longrightarrow> get32 (m_ptr b) 0 = 12 \<Longrightarrow> get32 (m_ptr b) 4 = ST_SendStudentStatus \<Longrightarrow> wp (f p) Q t"
  shows "wp (bnd pool_malloc (\<lambda>p. sq (set_cLen p (of_nat (MSG_HEAD_LEN + 4))) (sq (set_cType p ST_SendStudentStatus) (f p)))) Q s"
  unfolding wp_simps
  apply (insert assms(1))
  apply (rule own_intros, assumption)+
  apply (rule assms(2))
    apply assumption
   apply (simp_all add: wire_simps MSG_HEAD_LEN_def)
  done

lemma own_list_middle:
  assumes "own U n ((p, b) # C) X w s" "get32 (m_ptr b) 0 = 12" "get32 (m_ptr b) 4 = ST_SendStudentStatus"
    and "12 + 8 * length m \<le> MAX_BUF" "enrolled (students s) m"
    and "\<And>b' t. own U n ((p, b') # C) X w t \<Longrightarrow> unat (get32 (m_ptr b') 0) = 12 + 8 * length m \<Longrightarrow>
       bytes_at (m_ptr b') 0 (12 + 8 * length m) = list_msg (students s) m \<Longrightarrow> wp g Q t"
  shows "wp (sq (write_statuses m p 12) (sq (wr32 p 8 (of_nat (length m))) g)) Q s"
proof -
  have rest: "wp (sq (wr32 p 8 (of_nat (length m))) g) Q t"
    if t: "own U n ((p, b\<lparr>m_ptr := f\<rparr>) # C) X w t" "get32 f 0 = get32 (m_ptr b) 0 + of_nat (8 * length m)"
      "\<forall>i. 4 \<le> i \<and> i < 12 \<longrightarrow> f i = m_ptr b i" "bytes_at f 12 (8 * length m) = status_bytes (students s) m" for f t
  proof -
    have f4: "get32 f 4 = ST_SendStudentStatus" using get32_cong [of 4 f "m_ptr b"] t(3) assms(3) by simp
    have f0: "get32 f 0 = 12 + of_nat (8 * length m)" using t(2) assms(2) by simp
    have "(12 + of_nat (8 * length m) :: u32) = of_nat (12 + 8 * length m)" by simp
    then have len: "unat (get32 f 0) = 12 + 8 * length m"
      using assms(4) unfolding f0 by (simp add: MAX_BUF_def unat_of_nat del: of_nat_add of_nat_mult)
    show ?thesis
      unfolding wp_simps
      apply (rule own_wr32 [OF t(1)])
       apply (simp add: MAX_BUF_def)
      apply (rule assms(6))
        apply assumption
      using len list_packet [OF f0 f4 t(4)] apply (simp_all add: wire_simps)
      done
  qed
  show ?thesis
    unfolding wp_sq [of "write_statuses m p 12"]
    using own_write_statuses [OF assms(1), of 12 m] assms(4,5) by (auto elim!: wp_mono intro!: rest)
qed

text \<open>What is left when a student has gone: the packets of the others, the room and the students.\<close>

definition gone where
  "gone U k Y lst left R S t \<longleftrightarrow> own U (Suc k) [] (Y @ map (\<lambda>(fd, stu). (fd, lst)) left) (world t) t
     \<and> rooms t = R \<and> students t = S"

lemma own_last_copies:
  assumes "own U (k + length left) [(p, b)] Y (world s) s" "unat (get32 (m_ptr b) 0) = n" "n \<le> MAX_BUF"
    and "bytes_at (m_ptr b) 0 n = lst"
  shows "wp (sq (for_each left (\<lambda>(k, stu). copy_status p k)) (sq (buf_reset p) (pool_free p)))
    (\<lambda>_. gone U k Y lst left (rooms s) (students s)) s"
proof -
  have fin: "gone U k Y lst left (rooms s) (students s) t"
    if "own U (Suc k) [] (Y @ map (\<lambda>(fd, stu). (fd, bytes_at (m_ptr b) 0 n)) left) (world s) t" for t
  proof -
    have "world t = world s" using own_world [OF that] .
    then show ?thesis using that assms(4) world_eqs [of t s] by (simp add: gone_def)
  qed
  show ?thesis
    unfolding wp_sq
    by (rule wp_mono [OF own_copies [OF assms(1-3)]])
       (rule own_buf_reset, assumption, rule own_pool_free, assumption, rule fin)
qed

lemma own_remove_and_copy:
  assumes "own U (Suc (Suc (k + length left))) [(p, b)] X w s" "unat (get32 (m_ptr b) 0) = n" "n \<le> MAX_BUF"
    and "bytes_at (m_ptr b) 0 n = lst" "smap_find (rooms s) rid = Some r" "smap_find (m_student_map r) fd = Some stu"
    and "stu \<noteq> NULL" "students s stu = Some x" "left = smap_erase fd (m_student_map r)"
  defines "pk \<equiv> msg 20 ST_SendStudentStatus (le32 1 @ le32 (m_Id x) @ le32 (m_current_status x))"
  shows "wp (sq (tell_and_remove (Some rid) fd 0) (bnd (deref_room (Some rid)) (\<lambda>r.
      sq (for_each (m_student_map r) (\<lambda>(k, stu). copy_status p k)) (sq (buf_reset p) (pool_free p)))))
    (\<lambda>_. gone U k (X @ [(m_teacher_fd r, pk), (m_white_fd r, pk)]) lst left
       (smap_set rid (r\<lparr>m_student_map := left\<rparr>) (rooms s)) ((students s)(stu := None))) s"
  unfolding wp_sq [of "tell_and_remove (Some rid) fd 0"]
proof (rule own_tell_and_remove [OF assms(1,5-8)], goal_cases)
  case (1 t)
  then have R: "rooms t = smap_set rid (r\<lparr>m_student_map := left\<rparr>) (rooms s)" by (simp add: assms(9))
  have "own U (k + length left) [(p, b)] (X @ [(m_teacher_fd r, pk), (m_white_fd r, pk)]) (world t) t"
    using 1(1) by (simp add: pk_def)
  from own_last_copies [OF this assms(2-4)] show ?case
    by (simp add: wp_bnd wp_deref_room R find_smap_set 1(3))
qed

text \<open>C11: A registered student disconnects: the teacher and the whiteboard of the room get one state, its id with the status
  offline (the comments at \<open>room.cpp:116\<close> and \<open>129\<close> announce the states of all students; the code sends a count of
  one and the student that left), every other student gets the list of all students of the room in which the one that
  left is marked offline; the student object is deleted and taken out of the room, and every
  buffer that was used is queued or back in the pool.\<close>

theorem student_leaves:
  assumes "own U (length (m_student_map r) + 2 + k) [] X w s" "smap_find (rooms s) rid = Some r"
    and "smap_find (m_student_map r) fd = Some stu" "students s stu = Some x"
    and "enrolled (students s) (m_student_map r)" "12 + 8 * length (m_student_map r) \<le> MAX_BUF"
    and "fd \<noteq> m_teacher_fd r" "fd \<noteq> m_white_fd r"
  defines "pk \<equiv> msg 20 ST_SendStudentStatus (le32 1 @ le32 (m_Id x) @ le32 eCS_OFFLINE)"
    and "lst \<equiv> list_msg ((students s)(stu \<mapsto> offline x)) (m_student_map r)"
    and "left \<equiv> smap_erase fd (m_student_map r)"
  shows "wp (CRoom_del_client (Some rid) fd) (\<lambda>_ t.
      own U (Suc k) [] (X @ [(m_teacher_fd r, pk), (m_white_fd r, pk)] @ map (\<lambda>(fd, stu). (fd, lst)) left) (world t) t
    \<and> rooms t = smap_set rid (r\<lparr>m_student_map := left\<rparr>) (rooms s)
    \<and> students t = (students s)(stu := None)) s"
proof -
  let ?m = "m_student_map r"
  define Q where "Q = (\<lambda>_ :: unit. gone U k (X @ [(m_teacher_fd r, pk), (m_white_fd r, pk)]) lst left
    (smap_set rid (r\<lparr>m_student_map := left\<rparr>) (rooms s)) ((students s)(stu := None)))"
  have stu: "stu \<noteq> NULL" using enrolled_find [OF assms(5,3)] by simp
  have len: "length ?m = Suc (length left)" using length_smap_erase [OF assms(3)] by (simp add: left_def)
  have list: "wp (sq (mark_offline (Some rid) fd 0) (bnd (deref_room (Some rid)) (\<lambda>r.
       sq (write_statuses (m_student_map r) p (MSG_HEAD_LEN + 4))
      (sq (wr32 p MSG_HEAD_LEN (of_nat (length (m_student_map r))))
      (sq (tell_and_remove (Some rid) fd 0) (bnd (deref_room (Some rid)) (\<lambda>r.
       sq (for_each (m_student_map r) (\<lambda>(k, stu). copy_status p k)) (sq (buf_reset p) (pool_free p))))))))) Q t"
    if t: "own U (Suc (Suc (k + length left))) [(p, b)] X w t" "get32 (m_ptr b) 0 = 12" "get32 (m_ptr b) 4 = ST_SendStudentStatus" for p b t
    unfolding wp_sq [of "mark_offline (Some rid) fd 0"]
  proof (rule own_mark_offline [where x = x, OF t(1) _ assms(3) stu], goal_cases)
    case 1 then show ?case using world_parts [OF assms(1) t(1)] assms(2) by simp
  next
    case 2 then show ?case using world_parts [OF assms(1) t(1)] assms(4) by simp
  next
    case (3 u)
    then have eq: "rooms u = rooms s" "students u = (students s)(stu \<mapsto> offline x)"
      using world_parts [OF assms(1) t(1)] by simp_all
    have "wp (sq (write_statuses ?m p 12) (sq (wr32 p 8 (of_nat (length ?m)))
        (sq (tell_and_remove (Some rid) fd 0) (bnd (deref_room (Some rid)) (\<lambda>r.
         sq (for_each (m_student_map r) (\<lambda>(k, stu). copy_status p k)) (sq (buf_reset p) (pool_free p))))))) Q u"
    proof (rule own_list_middle [OF 3(1) t(2,3) assms(6)], goal_cases)
      case 1 then show ?case by (simp add: eq assms(5) enrolled_upd)
    next
      case (2 b' v)
      have v: "rooms v = rooms s" "students v = (students s)(stu \<mapsto> offline x)"
        using world_parts [OF 3(1) 2(1)] eq by simp_all
      from own_remove_and_copy [OF 2(1,2) assms(6) 2(3), of rid r fd stu "offline x"] show ?case
        using assms(2,3) stu by (simp add: v eq Q_def lst_def left_def pk_def offline_def)
    qed
    then show ?case by (simp add: wp_bnd wp_deref_room eq assms(2))
  qed
  have "own U (Suc (Suc (Suc (k + length left)))) [] X w s" using assms(1) len by (simp add: algebra_simps)
  then have "wp (update_all_student_status (Some rid) fd 0) Q s"
    unfolding update_all_student_status_def by (rule own_list_start) (rule list)
  then have "wp (CRoom_del_client (Some rid) fd) Q s"
    using assms(2,7,8) by (simp add: CRoom_del_client_def wp_simps)
  then show ?thesis unfolding Q_def gone_def append_assoc .
qed

definition class_room :: CRoom where
  "class_room = room0 5 6 [(7, 20), (8, 21)]"

definition class_srv :: srv where
  "class_srv = (srv0 [(1, class_room)] blank)\<lparr>students := [20 \<mapsto> student 50, 21 \<mapsto> student 51]\<rparr>"

lemma class_own: "own {#11, 12, 13, 14, 15#} 5 [] [] (world class_srv) class_srv"
  by (auto simp: own_def held_def bal_def inflight_def live_buf_def avail_def sent_def class_srv_def srv0_def
      blank_def NULL_def count_add_mset)

lemma class_simps: "rooms class_srv = [(1, class_room)]" "students class_srv = [20 \<mapsto> student 50, 21 \<mapsto> student 51]"
  "m_student_map class_room = [(7, 20), (8, 21)]" "m_teacher_fd class_room = 5" "m_white_fd class_room = 6"
  "m_Id (student i) = i" "m_current_status (student i) = eCS_ONLINE"
  by (simp_all add: class_srv_def class_room_def student_def)

lemma student_leaves_witness:
  "wp (CRoom_del_client (Some 1) 7) (\<lambda>_ t. sent t =
     [(5, msg 20 ST_SendStudentStatus (le32 1 @ le32 50 @ le32 eCS_OFFLINE)),
      (6, msg 20 ST_SendStudentStatus (le32 1 @ le32 50 @ le32 eCS_OFFLINE)),
      (8, msg 28 ST_SendStudentStatus (le32 2 @ le32 50 @ le32 eCS_OFFLINE @ le32 51 @ le32 eCS_ONLINE))]
     \<and> students t 20 = None) class_srv"
  by (rule wp_mono [OF student_leaves [where k = 1 and X = "[]" and U = "{#11, 12, 13, 14, 15#}" and r = class_room and stu = 20
        and x = "student 50" and w = "world class_srv"]])
     (use class_own in \<open>auto simp: class_simps NULL_def MAX_BUF_def list_msg_def status_bytes_def offline_def eval_nat_numeral
        dest!: own_sent\<close>)

text \<open>A client that a room does not know disconnects: the room still sends the list of its students to every
  one of them, with nothing in it changed, and \<open>CRoomManager::del_client\<close> does this in every room.\<close>

theorem stranger_leaves:
  assumes "own U (length (m_student_map r) + 1 + k) [] X w s" "smap_find (rooms s) rid = Some r"
    and "smap_find (m_student_map r) fd = None" "fd \<noteq> m_teacher_fd r" "fd \<noteq> m_white_fd r"
    and "enrolled (students s) (m_student_map r)" "12 + 8 * length (m_student_map r) \<le> MAX_BUF"
  shows "wp (CRoom_del_client (Some rid) fd) (\<lambda>_. own U (Suc k) []
     (X @ map (\<lambda>(fd, stu). (fd, list_msg (students s) (m_student_map r))) (m_student_map r)) w) s"
proof -
  let ?m = "m_student_map r"
  define Q where "Q = (\<lambda>_ :: unit. own U (Suc k) [] (X @ map (\<lambda>(fd, stu). (fd, list_msg (students s) ?m)) ?m) w)"
  have deref: "wp (bnd (deref_room (Some rid)) g) R t = wp (g r) R t" if "own U' n' C' X' w t"
    for U' n' C' X' t and g :: "CRoom \<Rightarrow> unit act" and R
    using world_parts [OF assms(1) that] assms(2) by (simp add: wp_simps)
  have last: "wp (sq (tell_and_remove (Some rid) fd 0) (bnd (deref_room (Some rid)) (\<lambda>r.
      sq (for_each (m_student_map r) (\<lambda>(k, stu). copy_status p k)) (sq (buf_reset p) (pool_free p))))) Q t"
    if t: "own U (k + length ?m) [(p, b)] X w t" "unat (get32 (m_ptr b) 0) = 12 + 8 * length ?m"
      "bytes_at (m_ptr b) 0 (12 + 8 * length ?m) = list_msg (students s) ?m" for p b t
  proof -
    have "tell_and_remove (Some rid) fd 0 t = Inr ((), t)"
      using world_parts [OF assms(1) t(1)] assms(2,3)
      by (simp add: tell_and_remove_def bnd_def deref_room_def ret_def)
    then have tr: "wp (sq (tell_and_remove (Some rid) fd 0) g) Q t = wp g Q t" for g
      by (simp add: wp_def sq_def bnd_def)
    show ?thesis
      unfolding tr deref [OF t(1)]
      unfolding wp_sq
      by (rule wp_mono [OF own_copies [OF t(1,2) assms(7)]], rule own_buf_reset, assumption,
          rule own_pool_free, assumption, simp add: Q_def t(3))
  qed
  have list: "wp (sq (mark_offline (Some rid) fd 0) (bnd (deref_room (Some rid)) (\<lambda>r.
       sq (write_statuses (m_student_map r) p (MSG_HEAD_LEN + 4))
      (sq (wr32 p MSG_HEAD_LEN (of_nat (length (m_student_map r))))
      (sq (tell_and_remove (Some rid) fd 0) (bnd (deref_room (Some rid)) (\<lambda>r.
       sq (for_each (m_student_map r) (\<lambda>(k, stu). copy_status p k)) (sq (buf_reset p) (pool_free p))))))))) Q t"
    if t: "own U (k + length ?m) [(p, b)] X w t" "get32 (m_ptr b) 0 = 12" "get32 (m_ptr b) 4 = ST_SendStudentStatus" for p b t
  proof -
    have eq: "rooms t = rooms s" "students t = students s" using world_parts [OF assms(1) t(1)] by simp_all
    have "mark_offline (Some rid) fd 0 t = Inr ((), t)"
      using eq assms(2,3) by (simp add: mark_offline_def bnd_def deref_room_def ret_def)
    then have m: "wp (sq (mark_offline (Some rid) fd 0) g) Q t = wp g Q t" for g
      by (simp add: wp_def sq_def bnd_def)
    show ?thesis
      unfolding m deref [OF t(1)]
      apply simp
      apply (rule own_list_middle [OF t])
        apply (rule assms(7))
       apply (simp add: eq assms(6))
      apply (rule last)
        apply assumption
       apply assumption
      apply (simp add: eq)
      done
  qed
  have "own U (Suc (k + length ?m)) [] X w s" using assms(1) by (simp add: algebra_simps)
  then have "wp (update_all_student_status (Some rid) fd 0) Q s"
    unfolding update_all_student_status_def by (rule own_list_start) (rule list)
  then have "wp (CRoom_del_client (Some rid) fd) Q s"
    using assms(2,4,5) by (simp add: CRoom_del_client_def wp_simps)
  then show ?thesis unfolding Q_def .
qed

lemma stranger_leaves_witness:
  "wp (CRoom_del_client (Some 1) 99) (\<lambda>_ t. map fst (sent t) = [7, 8]) class_srv"
  by (rule wp_mono [OF stranger_leaves [where k = 2 and X = "[]" and U = "{#11, 12, 13, 14, 15#}" and r = class_room
        and w = "world class_srv"]])
     (use class_own in \<open>auto simp: class_simps NULL_def MAX_BUF_def eval_nat_numeral dest!: own_sent\<close>)

section \<open>The teacher leaves\<close>

definition unplug :: "(int \<times> ptr) list \<Rightarrow> (ptr \<Rightarrow> CStudent option) \<Rightarrow> ptr \<Rightarrow> CStudent option" where
  "unplug m h = (\<lambda>p. if p \<in> snd ` set m then map_option (CStudent_setSocket 0) (h p) else h p)"

lemma unplug_Nil: "unplug [] h = h"
  by (simp add: unplug_def)

lemma unplug_Cons: "h stu = Some x \<Longrightarrow> unplug m (h(stu \<mapsto> CStudent_setSocket 0 x)) = unplug ((k, stu) # m) h"
  by (auto simp: unplug_def fun_eq_iff CStudent_setSocket_def)

lemma unplug_twice: "unplug m (unplug m h) = unplug m h"
  by (auto simp: unplug_def fun_eq_iff CStudent_setSocket_def option.map_comp comp_def intro: option.map_cong)

lemma enrolled_unplug: "enrolled h m \<Longrightarrow> enrolled (unplug m' h) m"
  by (auto simp: enrolled_def unplug_def)

lemma own_unplug_loop:
  assumes "own U n C X w s" "enrolled (students s) m"
  shows "wp (for_each m (\<lambda>(k, stu). upd_student stu (CStudent_setSocket 0)))
    (\<lambda>_ t. own U n C X (world t) t \<and> rooms t = rooms s \<and> students t = unplug m (students s)) s"
  using assms
proof (induction m arbitrary: s w)
  case Nil
  then show ?case using own_world [OF Nil.prems(1)] by (simp add: wp_simps unplug_Nil)
next
  case (Cons kv m)
  obtain k stu x where kv: "kv = (k, stu)" "stu \<noteq> NULL" "students s stu = Some x"
    using Cons.prems(2) by (cases kv) auto
  let ?t = "set_student stu (Some (CStudent_setSocket 0 x)) s"
  have t: "own U n C X (world ?t) ?t" "rooms ?t = rooms s" "students ?t = (students s)(stu \<mapsto> CStudent_setSocket 0 x)"
    using own_set_student [OF Cons.prems(1)] by (simp_all add: set_student_def)
  have "wp (for_each m (\<lambda>(k, stu). upd_student stu (CStudent_setSocket 0)))
      (\<lambda>_ t'. own U n C X (world t') t' \<and> rooms t' = rooms s \<and> students t' = unplug (kv # m) (students s)) ?t"
    using Cons.IH [OF t(1)] Cons.prems(2) unfolding t(2,3) unplug_Cons [of "students s" stu x m k, OF kv(3)] kv(1)
    by (simp only: enrolled_Cons enrolled_upd simp_thms)
  then show ?case using kv by (simp add: wp_simps upd_student_def)
qed

definition idle_room :: "CRoom \<Rightarrow> CRoom" where
  "idle_room r = r\<lparr>m_course_list := [], m_game_list := [], m_isUsed := 0\<rparr>"

lemma set_room_parts [simp]: "rooms (set_room rid r t) = smap_set rid r (rooms t)"
  "students (set_room rid r t) = students t"
  by (simp_all add: set_room_def)

lemma smap_set_set: "smap_set k v (smap_set k u m) = smap_set k v m"
  by (induction m) auto

lemma own_CRoom_reset:
  assumes "own U n C X w s" "smap_find (rooms s) rid = Some r" "enrolled (students s) (m_student_map r)"
  shows "wp (CRoom_reset (Some rid)) (\<lambda>_ t. own U n C X (world t) t \<and> rooms t = smap_set rid (idle_room r) (rooms s)
    \<and> students t = unplug (m_student_map r) (students s)) s"
  using assms(2) own_unplug_loop [OF assms(1,3)] unfolding CRoom_reset_def
  by (auto simp: wp_simps upd_room_def idle_room_def intro!: own_set_room elim!: wp_mono)

lemma own_send_each:
  assumes "own U (n + length m) C X w s"
  shows "wp (for_each m (\<lambda>(k, stu). send_one_status i st k)) (\<lambda>_. own U n C
    (X @ map (\<lambda>(k, stu). (k, msg 16 ST_SendStudentStatus (le32 i @ le32 st))) m) w) s"
  by (rule own_for_each [OF assms]) (auto intro!: own_send_one_status)

text \<open>What everybody is told: the id and the status are both all ones.\<close>

definition gone_msg :: "byte list" where
  "gone_msg = msg 16 ST_SendStudentStatus (le32 0xFFFFFFFF @ le32 0xFFFFFFFF)"

lemma own_teacher_disconnect:
  assumes "own U (Suc (k + length (m_student_map r))) [] X w s" "smap_find (rooms s) rid = Some r"
    and "enrolled (students s) (m_student_map r)"
  shows "wp (CRoom_teacher_disconnect (Some rid)) (\<lambda>_ t. own U k []
      (X @ map (\<lambda>(fd, stu). (fd, gone_msg)) (m_student_map r) @ [(m_white_fd r, gone_msg)]) (world t) t
    \<and> rooms t = smap_set rid (idle_room r) (rooms s) \<and> students t = unplug (m_student_map r) (students s)) s"
proof -
  let ?Y = "X @ map (\<lambda>(fd, stu). (fd, gone_msg)) (m_student_map r) @ [(m_white_fd r, gone_msg)]"
  define Q where "Q = (\<lambda>(_::unit) t. own U k [] ?Y (world t) t
    \<and> rooms t = smap_set rid (idle_room r) (rooms s) \<and> students t = unplug (m_student_map r) (students s))"
  have res: "wp (bnd (CRoom_reset (Some rid)) (\<lambda>_. ret ())) Q t" if t: "own U k [] ?Y w t" for t
  proof -
    have eq: "rooms t = rooms s" "students t = students s" using world_parts [OF assms(1) t] by simp_all
    show ?thesis
      using own_CRoom_reset [OF t, of rid r] assms(2,3) eq by (auto simp: wp_simps Q_def elim!: wp_mono)
  qed
  have "own U (Suc k + length (m_student_map r)) [] X w s" using assms(1) by simp
  from own_send_each [OF this, where i = "0xFFFFFFFF" and st = "0xFFFFFFFF"]
  have "wp (for_each (m_student_map r) (\<lambda>(k, stu). send_one_status 0xFFFFFFFF 0xFFFFFFFF k))
     (\<lambda>_. wp (sq (send_one_status 0xFFFFFFFF 0xFFFFFFFF (m_white_fd r)) (bnd (CRoom_reset (Some rid)) (\<lambda>_. ret ()))) Q) s"
    by (rule wp_mono) (simp only: wp_sq, rule own_send_one_status, assumption, rule res,
        simp add: gone_msg_def)
  then have "wp (CRoom_teacher_disconnect (Some rid)) Q s"
    using assms(2) by (simp add: CRoom_teacher_disconnect_def wp_bnd wp_deref_room wp_sq)
  then show ?thesis by (simp add: Q_def)
qed

text \<open>C14: The teacher of a room disconnects: every student of the room and then its whiteboard get the
  message whose id and status are all ones; the room has no courses, no games and no teacher
  any more and is free again, its students stay registered with socket 0.\<close>

theorem teacher_leaves:
  assumes "own U (Suc (k + length (m_student_map r))) [] X w s" "smap_find (rooms s) rid = Some r"
    and "find_room (rooms s) (m_teacher_fd r) = Some rid" "enrolled (students s) (m_student_map r)"
  shows "wp (CRoom_del_client (Some rid) (m_teacher_fd r)) (\<lambda>_ t. own U k []
      (X @ map (\<lambda>(fd, stu). (fd, gone_msg)) (m_student_map r) @ [(m_white_fd r, gone_msg)]) (world t) t
    \<and> rooms t = smap_set rid ((idle_room r)\<lparr>m_teacher_fd := 0\<rparr>) (rooms s)
    \<and> students t = unplug (m_student_map r) (students s)) s"
proof -
  let ?m = "m_student_map r"
  let ?Y = "X @ map (\<lambda>(fd, stu). (fd, gone_msg)) ?m @ [(m_white_fd r, gone_msg)]"
  define Q where "Q = (\<lambda>(_::unit) t. own U k [] ?Y (world t) t
    \<and> rooms t = smap_set rid ((idle_room r)\<lparr>m_teacher_fd := 0\<rparr>) (rooms s) \<and> students t = unplug ?m (students s))"
  have tail: "wp (sq (CRoom_teacher_disconnect (Some rid)) (upd_room (Some rid) (\<lambda>r. r\<lparr>m_teacher_fd := 0\<rparr>))) Q t"
    if t: "own U (Suc (k + length ?m)) [] X w' t" "smap_find (rooms t) rid = Some r'" "r' = r \<or> r' = idle_room r"
      "smap_set rid (idle_room r') (rooms t) = smap_set rid (idle_room r) (rooms s)"
      "unplug ?m (students t) = unplug ?m (students s)" "enrolled (students t) ?m" for w' t r'
  proof -
    have r': "m_student_map r' = ?m" "m_white_fd r' = m_white_fd r" "idle_room r' = idle_room r"
      using t(3) by (auto simp: idle_room_def)
    have "wp (upd_room (Some rid) (\<lambda>r. r\<lparr>m_teacher_fd := 0\<rparr>)) Q t'"
      if "own U k [] ?Y (world t') t'" "rooms t' = smap_set rid (idle_room r) (rooms s)"
        "students t' = unplug ?m (students s)" for t'
      using that own_set_room [OF that(1), of rid "(idle_room r)\<lparr>m_teacher_fd := 0\<rparr>"]
      by (simp add: upd_room_def wp_simps find_smap_set Q_def set_room_def smap_set_set)
    then show ?thesis
      using own_teacher_disconnect [of U k r' X w' t rid] t r' by (auto simp: wp_sq elim!: wp_mono)
  qed
  have "wp (sq (if m_isUsed r = 1 then bnd (CRoom_reset (Some rid)) (\<lambda>_. ret ()) else ret ())
      (sq (CRoom_teacher_disconnect (Some rid)) (upd_room (Some rid) (\<lambda>r. r\<lparr>m_teacher_fd := 0\<rparr>)))) Q s"
  proof (cases "m_isUsed r = 1")
    case True
    have "wp (sq (CRoom_teacher_disconnect (Some rid)) (upd_room (Some rid) (\<lambda>r. r\<lparr>m_teacher_fd := 0\<rparr>))) Q t"
      if "own U (Suc (k + length ?m)) [] X (world t) t" "rooms t = smap_set rid (idle_room r) (rooms s)"
        "students t = unplug ?m (students s)" for t
      by (rule tail [OF that(1), of "idle_room r"])
         (simp_all add: that find_smap_set smap_set_set unplug_twice enrolled_unplug assms(4), simp add: idle_room_def)
    then show ?thesis
      using True own_CRoom_reset [OF assms(1,2,4)] by (auto simp: wp_sq wp_bnd wp_ret elim!: wp_mono)
  next
    case False
    then show ?thesis using tail [OF assms(1,2)] assms(4) by (simp add: wp_sq wp_ret)
  qed
  then have "wp (CRoom_del_client (Some rid) (m_teacher_fd r)) Q s"
    using assms(2,3) by (simp add: CRoom_del_client_def CRoomManager_get_room_by_fd_def wp_bnd wp_deref_room wp_gets
      split del: if_split cong: if_cong)
  then show ?thesis by (simp add: Q_def)
qed

lemma teacher_leaves_witness:
  "wp (CRoom_del_client (Some 1) 5) (\<lambda>_ t. sent t = [(7, gone_msg), (8, gone_msg), (6, gone_msg)]
     \<and> (\<exists>r. rooms t = [(1, r)] \<and> m_teacher_fd r = 0)) class_srv"
  by (rule wp_mono [OF teacher_leaves [where k = 2 and X = "[]" and U = "{#11, 12, 13, 14, 15#}" and r = class_room
        and w = "world class_srv", unfolded class_simps]])
     (use class_own in \<open>auto simp: class_simps room_knows_def NULL_def eval_nat_numeral dest!: own_sent\<close>)

end
