(* ===== verification/Student_Login_Spec.thy ===== *)
theory Student_Login_Spec
  imports Login_Spec Room_Spec
begin

text \<open>
  The log-in of a student: who is told, with which bytes, and what becomes of the student's object; the
  passwords that are accepted; the room that is too large for the buffer of the states.
\<close>

section \<open>The packets\<close>

lemma own_login_status:
  assumes "own U (Suc n) C X w s" "stu \<noteq> NULL" "students s stu = Some x"
    and "\<And>t. own U n C (X @ [(fd, msg 20 ST_SendStudentStatus (le32 1 @ le32 (m_Id x) @ le32 eCS_ONLINE))]) w t \<Longrightarrow> Q () t"
  shows "wp (login_status stu fd) Q s"
proof -
  have st: "students t stu = Some x" if "own U' n' C' X' w t" for U' n' C' X' t
    using own_world [OF that] own_world [OF assms(1)] assms(3) world_eqs by metis
  show ?thesis
    unfolding login_status_def wr_status_def
    apply (simp add: MSG_HEAD_LEN_def)
    unfolding wp_simps
    apply (insert assms(1))
    apply (rule own_intros, assumption)+
    apply (simp add: assms(2) st)
    apply (rule own_intros, assumption)
    apply (simp add: MAX_BUF_def)
    apply (rule own_intros, assumption)
    apply (simp add: MAX_BUF_def)
    apply (rule own_intros, assumption)
    apply (simp add: MAX_BUF_def)
    apply (rule own_intros, assumption)
    apply (rule list.set_intros)
    apply (rule own_intros, assumption)+
    apply (rule assms(4))
    apply (simp add: view_def wire_msg wire_simps bytes_at_split [of _ 8 4 8, simplified]
        bytes_at_split [of _ 12 4 4, simplified] flip: le32_get32)
    done
qed

text \<open>The states of the students of the room, as long as they fit into the 512 bytes.\<close>

lemma collect_status_fits:
  "enrolled (students s) m \<Longrightarrow> length acc + 8 * length m \<le> 512 \<Longrightarrow>
     collect_status m acc s = Inr (acc @ status_bytes (students s) m, s)"
proof (induction m arbitrary: acc)
  case (Cons kv m)
  obtain k stu x where kv: "kv = (k, stu)" "stu \<noteq> NULL" "students s stu = Some x"
    using Cons.prems(1) by (cases kv) auto
  have "collect_status m (acc @ le32 (m_Id x) @ le32 (m_current_status x)) s
      = Inr ((acc @ le32 (m_Id x) @ le32 (m_current_status x)) @ status_bytes (students s) m, s)"
    using Cons.prems kv by (intro Cons.IH) simp_all
  then show ?case
    using kv Cons.prems(2) by (simp add: deref_def run_simps status_bytes_def)
qed (simp add: run_simps status_bytes_def)

lemma collect_status_overflow:
  "enrolled (students s) m \<Longrightarrow> length acc \<le> 512 \<Longrightarrow> 512 < length acc + 8 * length m \<Longrightarrow>
     collect_status m acc s = Inl OutOfBounds"
proof (induction m arbitrary: acc)
  case (Cons kv m)
  obtain k stu x where kv: "kv = (k, stu)" "stu \<noteq> NULL" "students s stu = Some x"
    using Cons.prems(1) by (cases kv) auto
  show ?case
  proof (cases "length acc + 8 \<le> 512")
    case True
    then have "collect_status m (acc @ le32 (m_Id x) @ le32 (m_current_status x)) s = Inl OutOfBounds"
      using Cons.prems kv by (intro Cons.IH) simp_all
    then show ?thesis using kv True by (simp add: deref_def run_simps)
  next
    case False
    then show ?thesis using kv by (simp add: deref_def run_simps)
  qed
qed simp

lemma own_login_broadcast:
  assumes "own U (Suc n) C X w s" "length tb = 8 * idx" "12 + 8 * idx \<le> MAX_BUF"
    and "\<And>t. own U n C (X @ [(fd, msg (of_nat (12 + 8 * idx)) ST_SendStudentStatus (le32 (of_nat idx) @ tb))]) w t \<Longrightarrow> Q () t"
  shows "wp (login_broadcast tb idx fd) Q s"
proof -
  let ?L = "of_nat (12 + 8 * idx) :: u32"
  have len: "unat ?L = 12 + 8 * idx"
    using assms(3) by (simp add: MAX_BUF_def unat_of_nat del: of_nat_add of_nat_mult)
  have e: "8 + sizeof ST_SendStudentStatusReq * idx + 4 = 12 + 8 * idx" "MSG_HEAD_LEN = 8" "(8::nat) + 4 = 12"
    by (simp_all add: MSG_HEAD_LEN_def)
  have wire: "view (b\<lparr>m_ptr := f, m_used := unat (get32 f 0), m_fd := fd\<rparr>)
      = (fd, msg ?L ST_SendStudentStatus (le32 (of_nat idx) @ tb))"
    if "f = copy_list (put32 (put32 (put32 (m_ptr b) 0 ?L) 4 ST_SendStudentStatus) 8 (of_nat idx)) 12 tb" for b f
  proof -
    have "get32 f 0 = ?L" "get32 f 4 = ST_SendStudentStatus" "get32 f 8 = of_nat idx"
      unfolding that by (simp_all add: get32_copy_list_other wire_simps)
    moreover have "bytes_at f 12 (8 * idx) = tb" unfolding that assms(2) [symmetric] by (rule bytes_at_copy_list)
    ultimately show ?thesis
      using len bytes_at_split [of f 8 4 "8 * idx"] by (simp add: view_def wire_msg flip: le32_get32 del: of_nat_add of_nat_mult)
  qed
  show ?thesis
    unfolding login_broadcast_def e wp_bnd
    apply (rule own_pool_malloc [OF assms(1)])
    apply (simp only: if_False)
    unfolding wp_simps
    apply (rule own_set_cLen, assumption)
    apply (rule own_set_cType, assumption)
    apply (rule own_wr32, assumption, simp add: MAX_BUF_def)
    apply (rule own_wr_bytes, assumption, simp add: assms(2,3))
    apply (rule own_head_cLen, assumption, rule list.set_intros)
    apply (rule own_set_size, assumption)
    apply (rule own_set_fd, assumption)
    apply (rule own_send_enqueue, assumption)
    apply (rule assms(4))
    apply (simp add: wire del: of_nat_add of_nat_mult)
    done
qed

section \<open>The student's object\<close>

lemma set_student_parts [simp]: "rooms (set_student p x s) = rooms s" "students (set_student p x s) = (students s)(p := x)"
  by (simp_all add: set_student_def)

lemma set_student_twice: "set_student p y (set_student p x s) = set_student p y s"
  by (simp add: set_student_def)

text \<open>Six assignments to the fields of one object are one update.\<close>

lemma wp_upd_student:
  assumes "stu \<noteq> NULL" "students s stu = Some x" "Q () (set_student stu (Some (f x)) s)"
  shows "wp (upd_student stu f) Q s"
  using assms by (simp add: upd_student_def wp_simps)

definition signed_in :: "row list option \<Rightarrow> CStudent \<Rightarrow> CStudent" where
  "signed_in rs x = x\<lparr>m_StuName := last_field rs ''first_name'' @ last_field rs ''last_name'',
     m_AccountName := last_field rs ''account'', m_Id := last_int rs ''student_id'',
     m_picture_name := last_field rs ''picture_name'', m_onLine := True, m_current_status := eCS_ONLINE\<rparr>"

lemma wp_sign_in:
  assumes "stu \<noteq> NULL" "students s stu = Some x" "wp g Q (set_student stu (Some (signed_in rs x)) s)"
  shows "wp (sq (upd_student stu (CStudent_setName (last_field rs ''first_name'') (last_field rs ''last_name'')))
    (sq (upd_student stu (CStudent_setAccount (last_field rs ''account'')))
    (sq (upd_student stu (CStudent_setId (last_int rs ''student_id'')))
    (sq (upd_student stu (CStudent_setPictureName (last_field rs ''picture_name'')))
    (sq (upd_student stu (CStudent_setOnLine True))
    (sq (upd_student stu (CStudent_setStudentStatus eCS_ONLINE)) g)))))) Q s"
proof -
  have eq: "signed_in rs x = CStudent_setStudentStatus eCS_ONLINE (CStudent_setOnLine True (CStudent_setPictureName
      (last_field rs ''picture_name'') (CStudent_setId (last_int rs ''student_id'') (CStudent_setAccount
      (last_field rs ''account'') (CStudent_setName (last_field rs ''first_name'') (last_field rs ''last_name'') x)))))"
    by (simp add: signed_in_def CStudent_defs)
  show ?thesis
    unfolding wp_sq
    by (rule wp_upd_student [OF assms(1)], simp add: assms(2))+ (use assms(3) in \<open>simp add: set_student_twice eq\<close>)
qed

section \<open>The log-in\<close>

definition student_answer :: "env \<Rightarrow> cstring \<Rightarrow> cstring \<Rightarrow> row list option" where
  "student_answer e u pw = db_query e SQL_SELECT_STU [ArgString u, ArgString pw]"

definition accepted :: "env \<Rightarrow> cstring \<Rightarrow> cstring \<Rightarrow> bool" where
  "accepted e u pw \<longleftrightarrow> (\<exists>rest. takeWhile (\<lambda>c. c \<noteq> 0) (last_field (student_answer e u pw) ''password'') = pw @ rest)"

lemma login_student_signs_in:
  assumes "own U (length (m_student_map r) + 2 + k) C X w s" "smap_find (rooms s) rid = Some r"
    and "find_room (rooms s) fd = Some rid" "smap_find (m_student_map r) fd = Some stu" "students s stu = Some x"
    and "enrolled (students s) (m_student_map r)" "length (m_student_map r) \<le> 64" "accepted e u pw"
  defines "t0 \<equiv> set_student stu (Some (signed_in (student_answer e u pw) x)) s"
    and "pk \<equiv> msg 20 ST_SendStudentStatus (le32 1 @ le32 (last_int (student_answer e u pw) ''student_id'') @ le32 eCS_ONLINE)"
    and "lst \<equiv> list_msg ((students s)(stu \<mapsto> signed_in (student_answer e u pw) x)) (m_student_map r)"
  shows "wp (login_student e fd u pw) (\<lambda>r' t. r' = 0 \<and> own U k C
    (X @ [(m_teacher_fd r, pk), (m_white_fd r, pk)] @ map (\<lambda>(fd, stu). (fd, lst)) (m_student_map r)) (world t0) t) s"
proof -
  let ?m = "m_student_map r" and ?y = "signed_in (student_answer e u pw) x"
  have stu: "stu \<noteq> NULL" using enrolled_find [OF assms(6,4)] by simp
  have y: "m_Id ?y = last_int (student_answer e u pw) ''student_id''" by (simp add: signed_in_def)
  have o: "own U (Suc (Suc (k + length ?m))) C X (world t0) t0"
    using own_set_student [OF assms(1)] by (simp add: t0_def algebra_simps)
  have t0: "students t0 stu = Some ?y" "enrolled (students t0) ?m" "rooms t0 = rooms s"
    "status_bytes (students t0) ?m = status_bytes ((students s)(stu \<mapsto> ?y)) ?m"
    using assms(6) by (simp_all add: t0_def enrolled_upd)
  have bc: "wp (for_each ?m (\<lambda>(k, st). login_broadcast (status_bytes (students t0) ?m) (length ?m) k))
      (\<lambda>_. own U k C (Y @ map (\<lambda>(fd, stu). (fd, lst)) ?m) (world t0)) t"
    if "own U (k + length ?m) C Y (world t0) t" for Y t
    by (rule own_for_each [OF that])
      (use assms(7) t0(4) in \<open>auto simp: lst_def list_msg_def MAX_BUF_def intro!: own_login_broadcast
        simp del: of_nat_add of_nat_mult\<close>)
  have tail: "wp (bnd (collect_status ?m []) (\<lambda>tb. sq (for_each ?m (\<lambda>(k, st). login_broadcast tb (length ?m) k)) (ret (0::int))))
      (\<lambda>r' t'. r' = 0 \<and> own U k C (Y @ map (\<lambda>(fd, stu). (fd, lst)) ?m) (world t0) t') t"
    if t: "own U (k + length ?m) C Y (world t0) t" for Y t
  proof -
    have st: "students t = students t0" using world_parts [OF o t] by simp
    have "collect_status ?m [] t = Inr (status_bytes (students t0) ?m, t)"
      using collect_status_fits [of t ?m "[]"] t0(2) assms(7) by (simp add: st)
    then show ?thesis using bc [OF t] by (auto simp: wp_def bnd_def sq_def ret_def split: sum.splits)
  qed
  have send: "wp (sq (login_status stu (m_teacher_fd r)) (sq (login_status stu (m_white_fd r))
      (bnd (collect_status ?m []) (\<lambda>tb. sq (for_each ?m (\<lambda>(k, st). login_broadcast tb (length ?m) k)) (ret (0::int))))))
      (\<lambda>r' t'. r' = 0 \<and> own U k C (X @ [(m_teacher_fd r, pk), (m_white_fd r, pk)] @ map (\<lambda>(fd, stu). (fd, lst)) ?m) (world t0) t') t0"
    unfolding wp_sq
    apply (rule own_login_status [OF o stu t0(1)])
    apply (rule own_login_status [OF _ stu], assumption)
     apply (use world_parts [OF o] t0(1) in simp)
    apply (drule tail)
    apply (simp add: pk_def y wp_sq wp_bnd)
    done
  show ?thesis
    unfolding login_student_def Let_def strncmp_prefix student_answer_def [symmetric] accepted_def [symmetric]
    using assms(2-4,8) stu wp_sign_in [OF stu assms(5) send [unfolded t0_def]]
    by (simp add: wp_bnd wp_get_room_by_fd wp_deref_room CRoom_get_student_by_fd_def t0_def)
qed

text \<open>The packet is answered when the check of the student has returned.\<close>

lemma login_student_offsets:
  "MSG_HEAD_LEN + offsetof sLogin ''type'' = 8" "MSG_HEAD_LEN + offsetof sLogin ''username'' = 12"
  "MSG_HEAD_LEN + offsetof sLogin ''password'' = 32" "MSG_HEAD_LEN + sizeof sLogin = 52"
  by (simp_all add: MSG_HEAD_LEN_def)

lemma handleLogin_student:
  assumes "own U n C X w s" "(p, b) \<in> set C" "get32 (m_ptr b) 8 = MCT_STUDENT"
    and "cstr (m_ptr b) 12 52 = Some u" "cstr (m_ptr b) 32 52 = Some pw"
  shows "handleLogin e p s = bnd (login_student e (m_fd b) u pw) (login_answer p) s"
proof -
  have b: "bufs s p = Some b" "m_size b = MAX_BUF" "p \<noteq> NULL" using own_buf [OF assms(1,2)] by simp_all
  then have "rd32 p 8 s = Inr (MCT_STUDENT, s)" "get_fd p s = Inr (m_fd b, s)"
    "rd_cstr p 12 52 s = Inr (u, s)" "rd_cstr p 32 52 s = Inr (pw, s)"
    using assms(3-5) by (simp_all add: rd32_def rd_cstr_def get_fd_def deref_def run_simps MAX_BUF_def)
  then show ?thesis
    unfolding handleLogin_def LoginCheck_check_def Let_def login_student_offsets
    by (simp add: bnd_def)
qed

lemma student_login_small:
  assumes "own U (length (m_student_map r) + 2 + k) [(p, b)] X w s" "get32 (m_ptr b) 8 = MCT_STUDENT"
    and "cstr (m_ptr b) 12 52 = Some u" "cstr (m_ptr b) 32 52 = Some pw" "accepted e u pw"
    and "find_room (rooms s) (m_fd b) = Some rid" "smap_find (rooms s) rid = Some r"
    and "smap_find (m_student_map r) (m_fd b) = Some stu" "students s stu = Some x"
    and "enrolled (students s) (m_student_map r)" "length (m_student_map r) \<le> 64"
  defines "y \<equiv> signed_in (student_answer e u pw) x"
    and "pk \<equiv> msg 20 ST_SendStudentStatus (le32 1 @ le32 (last_int (student_answer e u pw) ''student_id'') @ le32 eCS_ONLINE)"
  shows "wp (handleLogin e p) (\<lambda>_. own U k [] (X @ [(m_teacher_fd r, pk), (m_white_fd r, pk)]
     @ map (\<lambda>(fd, stu'). (fd, list_msg ((students s)(stu \<mapsto> y)) (m_student_map r))) (m_student_map r)
     @ [(m_fd b, login_reply True)]) (world (set_student stu (Some y) s))) s"
proof -
  have "wp (bnd (login_student e (m_fd b) u pw) (login_answer p)) (\<lambda>_. own U k [] (X @ [(m_teacher_fd r, pk), (m_white_fd r, pk)]
     @ map (\<lambda>(fd, stu'). (fd, list_msg ((students s)(stu \<mapsto> y)) (m_student_map r))) (m_student_map r)
     @ [(m_fd b, login_reply True)]) (world (set_student stu (Some y) s))) s"
    unfolding wp_bnd
    by (rule wp_mono [OF login_student_signs_in [OF assms(1,7,6,8,9,10,11,5)]])
      (auto simp: y_def pk_def intro: own_login_answer)
  then show ?thesis
    unfolding wp_def handleLogin_student [OF assms(1) list.set_intros(1) assms(2-4)] .
qed

text \<open>A student that is not in the room's map, or whose password is no prefix, is refused.\<close>

theorem student_login_refused:
  assumes "own U n [(p, b)] X w s" "get32 (m_ptr b) 8 = MCT_STUDENT"
    and "cstr (m_ptr b) 12 52 = Some u" "cstr (m_ptr b) 32 52 = Some pw" "smap_inv (rooms s)"
    and "\<not> accepted e u pw \<or> route is_student m_teacher_fd (rooms s) (m_fd b) = None"
  shows "wp (handleLogin e p) (\<lambda>_. own U n [] (X @ [(m_fd b, login_reply False)]) w) s"
proof -
  have "login_student e (m_fd b) u pw s = Inr (- 1, s)"
    unfolding login_student_def Let_def strncmp_prefix student_answer_def [symmetric] accepted_def [symmetric]
    using assms(6)
    by (auto dest!: find_room_find [OF assms(5)] simp: route_def is_student_def CRoomManager_get_room_by_fd_def bnd_def gets_def ret_def deref_room_def
        split: option.splits if_splits)
  then have "wp (bnd (login_student e (m_fd b) u pw) (login_answer p)) (\<lambda>_. own U n [] (X @ [(m_fd b, login_reply False)]) w) s"
    using own_login_answer [OF assms(1), of "- 1"] by (simp add: wp_def bnd_def)
  then show ?thesis
    unfolding wp_def handleLogin_student [OF assms(1) list.set_intros(1) assms(2-4)] .
qed

section \<open>The room that is too large\<close>

lemma wp_faults: "wp m (\<lambda>x t. f x t = Inl E) s \<Longrightarrow> bnd m f s = Inl E"
  by (auto simp: wp_def bnd_def split: sum.splits)

lemma wp_upd_student_faults:
  "stu \<noteq> NULL \<Longrightarrow> students s stu = Some x \<Longrightarrow> g (set_student stu (Some (f x)) s) = Inl E \<Longrightarrow> sq (upd_student stu f) g s = Inl E"
  by (simp add: upd_student_def deref_def run_simps bnd_def sq_def modify_def)

lemma login_student_overflows:
  assumes "own U (Suc (Suc k)) C X w s" "smap_find (rooms s) rid = Some r"
    and "find_room (rooms s) fd = Some rid" "smap_find (m_student_map r) fd = Some stu" "students s stu = Some x"
    and "enrolled (students s) (m_student_map r)" "64 < length (m_student_map r)" "accepted e u pw"
  shows "login_student e fd u pw s = Inl OutOfBounds"
proof -
  let ?m = "m_student_map r"
  have stu: "stu \<noteq> NULL" using enrolled_find [OF assms(6,4)] by simp
  have send: "sq (login_status stu (m_teacher_fd r)) (sq (login_status stu (m_white_fd r))
      (bnd (collect_status ?m []) g)) t0 = Inl OutOfBounds"
    if o: "own U (Suc (Suc k)) C X (world t0) t0" and t0: "students t0 stu = Some y" "enrolled (students t0) ?m"
    for t0 y and g :: "byte list \<Rightarrow> int act"
    unfolding sq_def
    apply (rule wp_faults)
    apply (rule own_login_status [OF o stu t0(1)])
    apply (rule wp_faults)
    apply (rule own_login_status [OF _ stu], assumption)
     apply (use world_parts [OF o] t0(1) in simp)
    subgoal premises p for t1 t2
      using world_parts [OF o p(2)] collect_status_overflow [of t2 ?m "[]"] t0(2) assms(7) by (simp add: run_simps)
    done
  have o6: "own U (Suc (Suc k)) C X (world (set_student stu (Some y) s)) (set_student stu (Some y) s)" for y
    by (rule own_set_student [OF assms(1)])
  have body: "sq (upd_student stu f1) (sq (upd_student stu f2) (sq (upd_student stu f3) (sq (upd_student stu f4)
     (sq (upd_student stu f5) (sq (upd_student stu f6) (sq (login_status stu (m_teacher_fd r))
     (sq (login_status stu (m_white_fd r)) (bnd (collect_status ?m []) g)))))))) s = Inl OutOfBounds"
    for f1 f2 f3 f4 f5 f6 and g :: "byte list \<Rightarrow> int act"
    by (rule wp_upd_student_faults [OF stu], simp add: assms(5) del: fun_upd_apply | simp)+
      (simp add: set_student_twice, rule send [OF o6], simp_all add: assms(6) enrolled_upd)
  show ?thesis
    unfolding login_student_def Let_def strncmp_prefix student_answer_def [symmetric] accepted_def [symmetric]
    using assms(2-4,8) stu body
    by (simp add: bnd_def gets_def CRoomManager_get_room_by_fd_def deref_room_def CRoom_get_student_by_fd_def)
qed

section \<open>The log-in of a student\<close>

lemma login_student_refused:
  assumes "\<not> accepted e u pw"
  shows "login_student e fd u pw s = Inr (- 1, s)"
  using assms unfolding login_student_def Let_def strncmp_prefix student_answer_def [symmetric] accepted_def [symmetric]
  by (simp add: ret_def)

lemma own_refused:
  assumes "own U n [(p, b)] X w s" "get32 (m_ptr b) 8 = MCT_STUDENT"
    and "cstr (m_ptr b) 12 52 = Some u" "cstr (m_ptr b) 32 52 = Some pw" "\<not> accepted e u pw"
  shows "wp (handleLogin e p) (\<lambda>_. own U n [] (X @ [(m_fd b, login_reply False)]) w) s"
proof -
  have "wp (bnd (login_student e (m_fd b) u pw) (login_answer p)) (\<lambda>_. own U n [] (X @ [(m_fd b, login_reply False)]) w) s"
    using own_login_answer [OF assms(1), of "- 1"] login_student_refused [OF assms(5)] by (simp add: wp_def bnd_def)
  then show ?thesis
    unfolding wp_def handleLogin_student [OF assms(1) list.set_intros(1) assms(2-4)] .
qed

text \<open>What the check accepts, by the answer of the query.\<close>

lemma accepted_iff:
  "accepted e u pw \<longleftrightarrow> (case db_query e SQL_SELECT_STU [ArgString u, ArgString pw] of
     None \<Rightarrow> pw = []
   | Some rows \<Rightarrow> if rows = [] then pw = []
       else take (length pw) (takeWhile (\<lambda>c. c \<noteq> 0) (getString (last rows) ''password'')) = pw)"
proof -
  have pre: "(\<exists>rest. v = pw @ rest) \<longleftrightarrow> take (length pw) v = pw" for v :: cstring
    by (metis append_eq_conv_conj append_take_drop_id)
  show ?thesis unfolding accepted_def pre by (auto simp: student_answer_def last_field_def split: option.splits)
qed

text \<open>C15: A student of a room sends its log-in.  The query asks for the rows with this account and this password
  (\<open>s.password=?\<close>).  When it answers with a row, the check asks whether the given password is a prefix of
  the password in the last one, which a database that compares byte for byte has already made certain; when there
  is no row, or the query throws, only the empty password is accepted.  A refused student gets the answer that the
  log-in failed, and nothing else happens.  For an accepted one the student's object gets the names, the
  account, the id and the picture of the last row (blanks and the id 0 when there is none) and is online; the teacher and the
  whiteboard of the room get this id as online, every student of the room the list of the states of all of
  them, and the student itself, last, the answer that the log-in succeeded.  Nothing else is sent or changed.  In a
  room of more than 64 students the list overruns the 512 bytes that it is collected in.\<close>

theorem student_login:
  fixes e :: env
  assumes "own U (length (m_student_map r) + 2 + k) [(p, b)] X w s" "get32 (m_ptr b) 8 = MCT_STUDENT"
    and "cstr (m_ptr b) 12 52 = Some u" "cstr (m_ptr b) 32 52 = Some pw"
    and "find_room (rooms s) (m_fd b) = Some rid" "smap_find (rooms s) rid = Some r"
    and "smap_find (m_student_map r) (m_fd b) = Some stu" "students s stu = Some x"
    and "enrolled (students s) (m_student_map r)"
  defines "rows \<equiv> case db_query e SQL_SELECT_STU [ArgString u, ArgString pw] of None \<Rightarrow> [] | Some rows \<Rightarrow> rows"
  defines "field \<equiv> \<lambda>col. if rows = [] then [] else getString (last rows) col"
    and "n \<equiv> if rows = [] then 0 else getInt (last rows) ''student_id''"
  defines "y \<equiv> x\<lparr>m_StuName := field ''first_name'' @ field ''last_name'', m_AccountName := field ''account'', m_Id := n,
       m_picture_name := field ''picture_name'', m_onLine := True, m_current_status := eCS_ONLINE\<rparr>"
    and "pk \<equiv> msg 20 ST_SendStudentStatus (le32 1 @ le32 n @ le32 eCS_ONLINE)"
  shows "if take (length pw) (takeWhile (\<lambda>c. c \<noteq> 0) (field ''password'')) \<noteq> pw
    then wp (handleLogin e p) (\<lambda>_. own U (length (m_student_map r) + 2 + k) [] (X @ [(m_fd b, login_reply False)]) w) s
    else if length (m_student_map r) \<le> 64
    then wp (handleLogin e p) (\<lambda>_. own U k [] (X @ [(m_teacher_fd r, pk), (m_white_fd r, pk)]
       @ map (\<lambda>(fd, stu'). (fd, list_msg ((students s)(stu \<mapsto> y)) (m_student_map r))) (m_student_map r)
       @ [(m_fd b, login_reply True)]) (world (set_student stu (Some y) s))) s
    else handleLogin e p s = Inl OutOfBounds"
proof -
  have answer: "last_field (student_answer e u pw) col = field col" "last_int (student_answer e u pw) ''student_id'' = n" for col
    by (simp_all add: student_answer_def last_field_def last_int_def field_def n_def rows_def split: option.splits)
  have y: "signed_in (student_answer e u pw) x = y" unfolding signed_in_def answer y_def ..
  have acc: "accepted e u pw \<longleftrightarrow> take (length pw) (takeWhile (\<lambda>c. c \<noteq> 0) (field ''password'')) = pw"
    unfolding accepted_iff field_def rows_def by (auto split: option.splits)
  show ?thesis
  proof (cases "accepted e u pw")
    case False
    then show ?thesis using own_refused [OF assms(1-4)] by (simp add: acc)
  next
    case a: True
    show ?thesis
    proof (cases "length (m_student_map r) \<le> 64")
      case True
      then show ?thesis
        using student_login_small [OF assms(1-4) a assms(5-9)] a by (simp add: y acc answer pk_def)
    next
      case False
      have "own U (Suc (Suc (length (m_student_map r) + k))) [(p, b)] X w s" using assms(1) by simp
      from login_student_overflows [OF this assms(6,5,7-9) _ a] False a show ?thesis
        unfolding handleLogin_student [OF assms(1) list.set_intros(1) assms(2-4)] by (simp add: run_bnd_Inl acc)
    qed
  qed
qed

text \<open>The student with connection 7 signs in with an empty password, which nobody stored.\<close>

definition student_pkt :: Buf where
  "student_pkt = pkt 7 (msg 52 CT_Login (le32 MCT_STUDENT @ (120 # replicate 19 0) @ replicate 20 0))"

definition student_srv :: srv where
  "student_srv = (srv0 [(1, class_room)] student_pkt)\<lparr>students := [20 \<mapsto> student 50, 21 \<mapsto> student 51]\<rparr>"

lemma student_pkt_fields:
  "get32 (m_ptr student_pkt) 8 = MCT_STUDENT" "cstr (m_ptr student_pkt) 12 52 = Some [120]"
  "cstr (m_ptr student_pkt) 32 52 = Some []"
proof -
  have at: "m_ptr student_pkt i = (le32 52 @ le32 CT_Login @ le32 MCT_STUDENT @ (120 # replicate 19 0) @ replicate 20 0) ! i"
    if "i < 52" for i
    using that by (simp add: student_pkt_def pkt_def msg_def copy_list_def)
  show "get32 (m_ptr student_pkt) 8 = MCT_STUDENT"
    using pkt_get32 [of 7 "le32 52 @ le32 CT_Login" MCT_STUDENT "(120 # replicate 19 0) @ replicate 20 0"]
    by (simp add: student_pkt_def msg_def)
  show "cstr (m_ptr student_pkt) 12 52 = Some [120]"
    by (rule cstr_append_zero; simp add: at nth_append)
  show "cstr (m_ptr student_pkt) 32 52 = Some []"
    by (rule cstr_append_zero; simp add: at nth_append)
qed

lemma student_login_witness:
  "wp (handleLogin (sample_env (Some [])) 10) (\<lambda>_ t. sent t =
     [(5, msg 20 ST_SendStudentStatus (le32 1 @ le32 0 @ le32 eCS_ONLINE)),
      (6, msg 20 ST_SendStudentStatus (le32 1 @ le32 0 @ le32 eCS_ONLINE)),
      (7, msg 28 ST_SendStudentStatus (le32 2 @ le32 0 @ le32 eCS_ONLINE @ le32 51 @ le32 eCS_ONLINE)),
      (8, msg 28 ST_SendStudentStatus (le32 2 @ le32 0 @ le32 eCS_ONLINE @ le32 51 @ le32 eCS_ONLINE)),
      (7, login_reply True)]) student_srv"
proof -
  have o: "own bufs0 5 [(10, student_pkt)] [] (world student_srv) student_srv"
    by (rule srv0_own [where rs = "[(1, class_room)]"]) (simp_all add: srv0_def student_srv_def student_pkt_def)
  have fd: "m_fd student_pkt = 7" by (simp add: student_pkt_def)
  have parts: "rooms student_srv = [(1, class_room)]" "students student_srv = [20 \<mapsto> student 50, 21 \<mapsto> student 51]"
    by (simp_all add: student_srv_def)
  have ans: "db_query (sample_env (Some [])) q v = Some []" for q v by (simp add: sample_env_def)
  have id: "last_field (Some []) col = []" "last_int (Some []) col = 0" "m_Id (signed_in (Some []) x) = 0" "m_current_status (signed_in (Some []) x) = eCS_ONLINE"
    for col x by (simp_all add: last_int_def last_field_def signed_in_def)
  have "wp (handleLogin (sample_env (Some [])) 10) (\<lambda>_. own bufs0 1 []
     ([] @ [(m_teacher_fd class_room, msg 20 ST_SendStudentStatus (le32 1 @ le32 0 @ le32 eCS_ONLINE)),
       (m_white_fd class_room, msg 20 ST_SendStudentStatus (le32 1 @ le32 0 @ le32 eCS_ONLINE))]
     @ map (\<lambda>(fd, stu'). (fd, list_msg ((students student_srv)(20 \<mapsto> signed_in (Some []) (student 50))) (m_student_map class_room)))
        (m_student_map class_room)
     @ [(m_fd student_pkt, login_reply True)]) (world (set_student 20 (Some (signed_in (Some []) (student 50))) student_srv))) student_srv"
    using student_login [where r = class_room and rid = 1 and stu = 20 and x = "student 50" and k = 1 and X = "[]" and U = bufs0
        and w = "world student_srv" and s = student_srv and p = 10 and b = student_pkt and e = "sample_env (Some [])"
        and u = "[120]" and pw = "[]", OF _ student_pkt_fields] o
    by (simp add: class_simps fd parts ans id signed_in_def room_knows_def CRoom_get_student_by_fd_def NULL_def eval_nat_numeral)
  then show ?thesis
    by (rule wp_mono) (auto simp: class_simps fd parts id list_msg_def status_bytes_def dest!: own_sent)
qed

end
