(* ===== verification/Puzzle_Spec.thy ===== *)
theory Puzzle_Spec
  imports HandlePuzzle Net_Spec
begin

text \<open>
  The puzzle game's two bad ends: asking for the picture empties the pool into the send queue, and ending
  the game for a client without a timer makes the next end of the whole game fail.
\<close>

section \<open>The picture\<close>

text \<open>The seven bytes that go out: a length of 7 and the beginning of the type 1000.\<close>

definition pic_bytes :: "byte list" where
  "pic_bytes = le32 7 @ take 3 (le32 1000)"

lemma pic_len: "ucast (read_result + of_nat MSG_HEAD_LEN) = (7 :: u32)"
  by (simp add: read_result_def MSG_HEAD_LEN_def)

text \<open>What one packet does to the buffers, exactly.\<close>

definition pic_buf :: "int \<Rightarrow> Buf \<Rightarrow> Buf" where
  "pic_buf fd c = c\<lparr>m_ptr := put32 (put32 (m_ptr c) 0 7) 4 1000, m_used := 7, m_fd := fd\<rparr>"

lemma pic_packet_run:
  assumes "bufs s pp = Some c" "m_size c = MAX_BUF" "pp \<noteq> NULL" "bufs s p = Some b" "p \<noteq> NULL" "p \<noteq> pp"
  shows "pic_packet pp p s = Inr ((), (set_buf pp (pic_buf (m_fd b) c) s)\<lparr>sendqueue := sendqueue s @ [pp]\<rparr>)"
  using assms unfolding pic_packet_def pic_len
  by (simp add: head_defs wr32_def rd32_def deref_def bnd_def sq_def check_def ret_def modify_def set_buf_def
      MAX_BUF_def set_size_def set_fd_def upd_buf_def Buf_setsize_def Buf_setfd_def get_fd_def send_enqueue_def
      QueueT_enqueue_def pic_buf_def wire_simps)

lemma pic_view: "view (pic_buf fd c) = (fd, pic_bytes)"
proof -
  have "bytes_at m 0 7 = le32 (get32 m 0) @ take 3 (le32 (get32 m 4))" for m :: mem
    using bytes_at_split [of m 0 4 3] by (simp add: le32_get32 bytes_at_def)
  then show ?thesis
    by (simp add: view_def pic_buf_def pic_bytes_def wire_simps)
qed

lemma own_pic_packet:
  assumes "own U n [(q, c), (p, b)] X w s"
  shows "\<exists>t. pic_packet q p s = Inr ((), t) \<and> own U n [(p, b)] (X @ [(m_fd b, pic_bytes)]) w t \<and> avail t = avail s"
proof -
  have q: "bufs s q = Some c" "m_size c = MAX_BUF" "q \<noteq> NULL" and p: "bufs s p = Some b" "p \<noteq> NULL"
    using own_buf [OF assms] by auto
  have neq: "p \<noteq> q" using own_distinct [OF assms] by auto
  let ?s1 = "set_buf q (pic_buf (m_fd b) c) s"
  have o1: "own U n [(q, pic_buf (m_fd b) c), (p, b)] X w ?s1"
    by (rule own_set_buf [OF assms]) (simp add: pic_buf_def q)
  have "wp (send_enqueue q) (\<lambda>_ t. own U n [(p, b)] (X @ [(m_fd b, pic_bytes)]) w t) ?s1"
    by (rule own_send_enqueue [OF o1]) (simp add: pic_view)
  then have "own U n [(p, b)] (X @ [(m_fd b, pic_bytes)]) w (?s1\<lparr>sendqueue := sendqueue s @ [q]\<rparr>)"
    by (simp add: send_enqueue_def wp_modify QueueT_enqueue_def set_buf_def)
  then show ?thesis
    using pic_packet_run [OF q p neq] by (simp add: avail_def set_buf_def)
qed

lemma own_take_pool:
  assumes "own U n C X w s" "avail s = Suc m"
  obtains q c t where "pool_malloc s = Inr (q, t)" "own U 0 ((q, c) # C) X w t" "q \<noteq> NULL" "avail t = m"
proof -
  from assms(2) obtain q r where qr: "pool_queue (bufpool s) = q # r" "length r = m"
    by (cases "pool_queue (bufpool s)") (auto simp: avail_def)
  have "own U (Suc 0) C X w s" using assms by (simp add: own_def)
  then have "wp pool_malloc (\<lambda>q t. \<exists>c. own U 0 ((q, c) # C) X w t \<and> q \<noteq> NULL) s"
    by (rule own_pool_malloc) blast
  moreover have "pool_malloc s = Inr (q, s\<lparr>bufpool := (bufpool s)\<lparr>pool_queue := r\<rparr>\<rparr>)"
    by (simp add: pool_malloc_def PoolT_malloc_def qr)
  ultimately show ?thesis using qr by (auto simp: wp_def avail_def intro: that)
qed

lemma own_pic_round:
  assumes "own U 0 [(p, b)] X w s" "avail s = Suc m"
  shows "\<exists>t. pic_round p s = Inr (True, t) \<and> own U 0 [(p, b)] (X @ [(m_fd b, pic_bytes)]) w t \<and> avail t = m"
proof -
  obtain q c s1 where m: "pool_malloc s = Inr (q, s1)" "own U 0 [(q, c), (p, b)] X w s1" "q \<noteq> NULL" "avail s1 = m"
    by (rule own_take_pool [OF assms])
  obtain s2 where "pic_packet q p s1 = Inr ((), s2)" "own U 0 [(p, b)] (X @ [(m_fd b, pic_bytes)]) w s2" "avail s2 = m"
    using own_pic_packet [OF m(2)] m(4) by auto
  then show ?thesis using m(1,3) by (simp add: pic_round_def bnd_def sq_def ret_def)
qed

lemma pic_loop_Cons: "pic_loop (other # others) p = bnd (sq other (pic_round p)) (\<lambda>go. if go then pic_loop others p else ret False)"
  by (simp add: pic_loop_def cong: if_cong)

lemma pic_loop_drains:
  "own U 0 [(p, b)] X w s \<Longrightarrow> avail s = n \<Longrightarrow>
     wp (pic_loop (replicate (Suc n) (ret ())) p) (\<lambda>running t. \<not> running
       \<and> own U 0 [(p, b)] (X @ replicate n (m_fd b, pic_bytes)) w t \<and> avail t = 0) s"
proof (induction n arbitrary: X s)
  case 0
  then have "pool_malloc s = Inr (NULL, s)" by (simp add: pool_malloc_empty)
  then show ?case using 0 by (simp add: pic_loop_Cons pic_round_def wp_def bnd_def sq_def ret_def)
next
  case (Suc n)
  obtain t where t: "pic_round p s = Inr (True, t)" "own U 0 [(p, b)] (X @ [(m_fd b, pic_bytes)]) w t" "avail t = n"
    using own_pic_round [OF Suc.prems] by blast
  have "pic_loop (replicate (Suc (Suc n)) (ret ())) p s = pic_loop (replicate (Suc n) (ret ())) p t"
    unfolding replicate_Suc [of "Suc n"] pic_loop_Cons by (simp add: bnd_def sq_def ret_def t(1) del: replicate_Suc)
  moreover have "wp (pic_loop (replicate (Suc n) (ret ())) p) (\<lambda>running t. \<not> running
       \<and> own U 0 [(p, b)] (X @ replicate (Suc n) (m_fd b, pic_bytes)) w t \<and> avail t = 0) t"
    using Suc.IH [OF t(2,3)] by (rule wp_mono) simp
  ultimately show ?case by (simp only: wp_def)
qed

text \<open>The sending thread between two rounds, with the answers of the kernel.\<close>

definition send_meanwhile :: "sendres list \<times> int \<Rightarrow> unit act" where
  "send_meanwhile a = bnd (SendTask_round (fst a) (snd a)) (\<lambda>_. ret ())"

lemma pic_loop_goes_on:
  assumes "m_fd b \<noteq> 0" "\<forall>(rs, err) \<in> set as. (\<forall>r \<in> set rs. \<not> hard r) \<and> 7 \<le> accepted rs"
    and "own U 0 [(p, b)] [(m_fd b, pic_bytes)] w s"
  shows "wp (pic_loop (map send_meanwhile as) p) (\<lambda>running t. running \<and> avail t = avail s
     \<and> own U 0 [(p, b)] [(m_fd b, pic_bytes)] w t) s"
  using assms(2,3)
proof (induction as arbitrary: s)
  case Nil
  then show ?case by (simp add: pic_loop_def wp_simps)
next
  case (Cons a as)
  obtain rs err where a: "a = (rs, err)" by (cases a)
  have len: "length pic_bytes = 7" by (simp add: pic_bytes_def le32_def)
  have "wp (SendTask_round rs err) (\<lambda>(out, _) t. out = Some (m_fd b, pic_bytes) \<and> own U (Suc 0) [(p, b)] [] w t
      \<and> avail t = Suc (avail s) \<and> recvqueue t = recvqueue s) s"
    by (rule own_SendTask_one [OF Cons.prems(2) assms(1)]) (use Cons.prems(1) len in \<open>auto simp: a MAX_BUF_def\<close>)
  then obtain z t where t: "SendTask_round rs err s = Inr (z, t)" "own U (Suc 0) [(p, b)] [] w t" "avail t = Suc (avail s)"
    by (auto simp: wp_def split: sum.splits)
  obtain u where u: "pic_round p t = Inr (True, u)" "own U 0 [(p, b)] [(m_fd b, pic_bytes)] w u" "avail u = avail s"
    using own_pic_round [OF own_mono [OF t(2), of 0] t(3)] by auto
  show ?case
    using Cons.IH [OF _ u(2)] Cons.prems(1) t(1) u(1,3)
    by (simp add: pic_loop_Cons send_meanwhile_def a wp_def bnd_def sq_def ret_def)
qed

text \<open>C32: \<open>handlePuzzle_GetPic\<close> with a picture that can be opened.  When no other thread
  gives a buffer back meanwhile, its loop ends when the pool is empty: it has then queued one useless packet of seven bytes to the requester for every
  buffer that was free, the request itself is not recycled, and no other part of the state changes.  But when the
  sending thread keeps up with it, it does not: from an empty send queue, with a free buffer, and a request from a
  descriptor that is not 0, the loop is still running after any number of rounds between which \<open>SendTask\<close> sends the packet that
  waits; each round has sent the requester seven useless bytes.\<close>

theorem GetPic_drains_pool:
  assumes "own U 0 [(p, b)] X w s" "can_open_picture e"
  shows "wp (handlePuzzle_GetPic e p) (\<lambda>_ t. avail t = 0 \<and>
       own U 0 [(p, b)] (X @ replicate (avail s) (m_fd b, pic_bytes)) w t) s
   \<and> (\<forall>as. X = [] \<and> m_fd b \<noteq> 0 \<and> 0 < avail s \<and> (\<forall>(rs, err) \<in> set as. (\<forall>r \<in> set rs. \<not> hard r) \<and> 7 \<le> accepted rs) \<longrightarrow>
       wp (GetPic_among (ret () # map send_meanwhile as) e p) (\<lambda>running t. running \<and> Suc (avail t) = avail s
         \<and> own U 0 [(p, b)] [(m_fd b, pic_bytes)] w t) s)"
proof (intro conjI allI impI)
  have "wp (GetPic_among (replicate (Suc (avail s)) (ret ())) e p) (\<lambda>running t. \<not> running
       \<and> own U 0 [(p, b)] (X @ replicate (avail s) (m_fd b, pic_bytes)) w t \<and> avail t = 0) s"
    using pic_loop_drains [OF assms(1) refl] assms(2) by (simp add: GetPic_among_def del: replicate_Suc)
  then show "wp (handlePuzzle_GetPic e p) (\<lambda>_ t. avail t = 0 \<and>
       own U 0 [(p, b)] (X @ replicate (avail s) (m_fd b, pic_bytes)) w t) s"
    unfolding handlePuzzle_GetPic_def wp_simps by (rule wp_mono) simp
next
  fix as :: "(sendres list \<times> int) list"
  assume a: "X = [] \<and> m_fd b \<noteq> 0 \<and> 0 < avail s \<and> (\<forall>(rs, err) \<in> set as. (\<forall>r \<in> set rs. \<not> hard r) \<and> 7 \<le> accepted rs)"
  then have o: "own U 0 [(p, b)] [] w s" "avail s = Suc (avail s - 1)" using assms(1) by simp_all
  obtain u where u: "pic_round p s = Inr (True, u)" "own U 0 [(p, b)] [(m_fd b, pic_bytes)] w u" "avail u = avail s - 1"
    using own_pic_round [OF o] by auto
  have "wp (pic_loop (map send_meanwhile as) p) (\<lambda>running t. running \<and> avail t = avail u
     \<and> own U 0 [(p, b)] [(m_fd b, pic_bytes)] w t) u"
    by (rule pic_loop_goes_on [OF _ _ u(2)]) (use a in auto)
  then show "wp (GetPic_among (ret () # map send_meanwhile as) e p) (\<lambda>running t. running \<and> Suc (avail t) = avail s
         \<and> own U 0 [(p, b)] [(m_fd b, pic_bytes)] w t) s"
    using u(1,3) a assms(2) by (auto simp: GetPic_among_def pic_loop_Cons wp_def bnd_def sq_def ret_def split: sum.splits)
qed

lemma GetPic_drains_pool_witness:
  "wp (handlePuzzle_GetPic \<lparr>db_query = (\<lambda>_ _. None), time_now = 0, can_open_picture = True, swap_right_first = False\<rparr> 10)
     (\<lambda>_ t. avail t = 0 \<and> sent t = replicate 5 (7, pic_bytes)) (srv0 [] (pkt 7 (msg 8 CT_Puzzle_GetPic [])))
   \<and> wp (GetPic_among (ret () # map send_meanwhile (replicate 1000 ([SendErr EAGAIN, Sent 9], 0)))
       \<lparr>db_query = (\<lambda>_ _. None), time_now = 0, can_open_picture = True, swap_right_first = False\<rparr> 10)
     (\<lambda>running t. running) (srv0 [] (pkt 7 (msg 8 CT_Puzzle_GetPic [])))"
proof -
  let ?b = "pkt 7 (msg 8 CT_Puzzle_GetPic [])"
  let ?e = "\<lparr>db_query = (\<lambda>_ _. None), time_now = 0, can_open_picture = True, swap_right_first = False\<rparr>"
  have "own bufs0 5 [(10, ?b)] [] (world (srv0 [] ?b)) (srv0 [] ?b)"
    by (rule srv0_own) (simp_all add: srv0_def)
  then have o: "own bufs0 0 [(10, ?b)] [] (world (srv0 [] ?b)) (srv0 [] ?b)" by (rule own_mono) simp
  have "can_open_picture ?e" by simp
  note all = GetPic_drains_pool [OF o this]
  have av: "avail (srv0 [] ?b) = 5" by (simp add: avail_def srv0_def)
  have good: "\<forall>(rs, err) \<in> set (replicate 1000 ([SendErr EAGAIN, Sent 9], 0 :: int)). (\<forall>r \<in> set rs. \<not> hard r) \<and> 7 \<le> accepted rs"
    by (auto simp: hard_def transient_def)
  show ?thesis
  proof
    show "wp (handlePuzzle_GetPic ?e 10) (\<lambda>_ t. avail t = 0 \<and> sent t = replicate 5 (7, pic_bytes)) (srv0 [] ?b)"
      using all [THEN conjunct1] by (rule wp_mono) (auto simp: av dest!: own_sent)
    have "m_fd ?b = 7" by simp
    then show "wp (GetPic_among (ret () # map send_meanwhile (replicate 1000 ([SendErr EAGAIN, Sent 9], 0))) ?e 10)
       (\<lambda>running t. running) (srv0 [] ?b)"
      using all [THEN conjunct2, rule_format, of "replicate 1000 ([SendErr EAGAIN, Sent 9], 0)"] good av
      by (auto elim: wp_mono)
  qed
qed

section \<open>The timers\<close>

text \<open>Programs that fail from every state.\<close>

definition bad :: "('s, 'a) prog \<Rightarrow> bool" where
  "bad m \<longleftrightarrow> (\<forall>s. \<exists>e. m s = Inl e)"

lemma bad_bnd: "(\<And>x. bad (f x)) \<Longrightarrow> bad (bnd m f)"
  by (auto simp: bad_def bnd_def split: sum.split)

lemma bad_first: "bad m \<Longrightarrow> bad (bnd m f)"
  unfolding bad_def bnd_def by (metis old.sum.simps(5))

lemma bad_if: "bad m \<Longrightarrow> bad n \<Longrightarrow> bad (if c then m else n)"
  by simp

lemma bad_upd_NULL: "bad (upd_puzzle NULL f)"
  by (simp add: bad_def upd_puzzle_def deref_def bnd_def)

lemma bad_sq: "bad n \<Longrightarrow> bad (sq m n)"
  by (auto simp: sq_def intro: bad_bnd)

lemma puzzle_lines_null: "(k, NULL) \<in> set m \<Longrightarrow> bad (puzzle_lines now rp m acc)"
proof (induction m arbitrary: acc)
  case (Cons x m)
  obtain j z where x: "x = (j, z)" by (cases x)
  show ?case
  proof (cases "z = NULL")
    case True
    then show ?thesis
      unfolding x puzzle_lines.simps sq_def by (simp only: bad_first bad_upd_NULL)
  next
    case False
    then have "(k, NULL) \<in> set m" using Cons.prems x by auto
    then have rest: "bad (puzzle_lines now rp m acc')" for acc' by (rule Cons.IH)
    show ?thesis
      unfolding x puzzle_lines.simps Let_def
      by (intro bad_sq bad_bnd bad_if rest)
  qed
qed simp

text \<open>Ending the puzzle for a connection that has no timer puts a \<open>NULL\<close> timer into the room's map: whatever
  happens to everything else in between, as long as that entry is in the map, the end of the
  whole game runs into a fault.\<close>

theorem end_puzzle_poisons:
  assumes "smap_find (rooms s) rid = Some r" "smap_inv (rooms s)" "smap_find (m_puzzle_map r) fd = None"
    and "smap_inv (m_puzzle_map r)"
  shows "\<exists>t r'. CRoom_end_puzzle_by_fd now (Some rid) fd s = Inr ((), t) \<and> smap_find (rooms t) rid = Some r' \<and>
     smap_find (m_puzzle_map r') fd = Some NULL \<and>
     (\<forall>u r2. smap_find (rooms u) rid = Some r2 \<longrightarrow> smap_find (m_puzzle_map r2) fd = Some NULL \<longrightarrow>
        (\<exists>e. CRoom_puzzle_end later (Some rid) u = Inl e))"
proof -
  let ?r = "r\<lparr>m_puzzle_map := smap_insert fd NULL (m_puzzle_map r)\<rparr>"
  have f: "smap_find (smap_insert fd NULL (m_puzzle_map r)) fd = Some NULL"
    using assms(3,4) by (simp add: find_smap_insert)
  have "CRoom_end_puzzle_by_fd now (Some rid) fd s = Inr ((), set_room rid ?r s)"
    using assms(1) f
    by (simp add: CRoom_end_puzzle_by_fd_def sq_def bnd_def upd_room_def deref_room_def modify_def set_room_def
        find_smap_set ret_def)
  moreover have "smap_find (rooms (set_room rid ?r s)) rid = Some ?r"
    by (simp add: set_room_def find_smap_set)
  moreover have "\<exists>e. CRoom_puzzle_end later (Some rid) u = Inl e"
    if "smap_find (rooms u) rid = Some r2" "smap_find (m_puzzle_map r2) fd = Some NULL" for u r2
  proof -
    have "bad (puzzle_lines later (Some rid) (m_puzzle_map r2) [])"
      using smap_find_in [OF that(2)] by (rule puzzle_lines_null)
    then obtain e where "puzzle_lines later (Some rid) (m_puzzle_map r2) [] u = Inl e" by (auto simp: bad_def)
    then show ?thesis
      using that(1) by (simp add: CRoom_puzzle_end_def bnd_def deref_room_def)
  qed
  ultimately show ?thesis using f by fastforce
qed

lemma end_puzzle_poisons_witness:
  "\<exists>t. CRoom_end_puzzle_by_fd 5 (Some 1) 6 (srv0 [(1, room0 5 6 [])] blank) = Inr ((), t) \<and>
     (\<exists>e. CRoom_puzzle_end 9 (Some 1) t = Inl e)"
proof -
  have "m_puzzle_map (room0 5 6 []) = []" by (simp add: room0_def CRoom_new_def)
  then show ?thesis
    using end_puzzle_poisons [of "srv0 [(1, room0 5 6 [])] blank" 1 "room0 5 6 []" 6 5 9] by fastforce
qed

end
