(* ===== verification/AutoProto.thy ===== *)
theory AutoProto
  imports Prelude "HOL-Library.Sublist"
begin

text \<open>
  \<open>autoproto/autoprotocol.cc\<close>: the generator that adds a protocol described in an XML file to
  \<open>protocol.h\<close>, the handlers, \<open>MSGHANDLE\<close> and the \<open>Makefile\<close>.  The state is the file system, a
  map from names to contents; the working directory and \<open>handler/\<close> are writable and the disk does
  not fill up.  The XML document is the tree of elements that TinyXML hands out, or none
  when the file cannot be read.  A line loop that never reaches the end of its file is the fault
  \<open>Endless\<close>: the loops are \<open>partial_function (option)\<close>, whose \<open>None\<close> is the loop that does
  not return.
\<close>

type_synonym files = "string \<rightharpoonup> string"
type_synonym 'a io = "(files, 'a) prog"

section \<open>Reading a file line by line\<close>

definition newline :: char where "newline = CHR 0x0A"

text \<open>A C string ends at its first null character.\<close>

definition c_str :: "string \<Rightarrow> string" where
  "c_str s = takeWhile (\<lambda>c. c \<noteq> CHR 0x00) s"

record ifstream =
  unread :: string
  eofbit :: bool
  failbit :: bool

definition open_in :: "files \<Rightarrow> string \<Rightarrow> ifstream" where
  "open_in fs f = (case fs f of
     None \<Rightarrow> \<lparr>unread = [], eofbit = False, failbit = True\<rparr>
   | Some t \<Rightarrow> \<lparr>unread = t, eofbit = False, failbit = False\<rparr>)"

text \<open>
  \<open>getline (buffer, 1024)\<close>: a stream that is not good gives an empty string and fails; a line of more
  than 1023 characters fills the buffer and fails; the end of the file without a character fails.
\<close>

definition first_line :: "string \<Rightarrow> string" where
  "first_line s = takeWhile (\<lambda>c. c \<noteq> newline) s"

definition getline :: "ifstream \<Rightarrow> string \<times> ifstream" where
  "getline s =
     (if eofbit s \<or> failbit s then ([], s\<lparr>failbit := True\<rparr>)
      else let w = first_line (unread s) in
        if 1023 < length w then (take 1023 w, s\<lparr>unread := drop 1023 (unread s), failbit := True\<rparr>)
        else if w = unread s then (w, s\<lparr>unread := [], eofbit := True, failbit := (w = [])\<rparr>)
        else (w, s\<lparr>unread := drop (Suc (length w)) (unread s)\<rparr>))"

definition returns :: "'a option \<Rightarrow> ('s, 'a) prog" where
  "returns x = (case x of None \<Rightarrow> fail Endless | Some y \<Rightarrow> ret y)"

partial_function (option) checkcontent_loop :: "string \<Rightarrow> ifstream \<Rightarrow> bool option" where
  "checkcontent_loop content s =
     (if eofbit s then Some False
      else let (buffer, s') = getline s in
        if sublist (c_str content) (c_str buffer) then Some True else checkcontent_loop content s')"

definition checkcontent :: "string \<Rightarrow> string \<Rightarrow> bool io" where
  "checkcontent sFile content =
     bnd (gets (\<lambda>fs. open_in fs sFile)) (\<lambda>ifs. returns (checkcontent_loop content ifs))"

section \<open>Rewriting a file\<close>

text \<open>The pieces written for one line, and the flag that stops further insertions.\<close>

definition rewrite_line :: "string \<Rightarrow> string \<Rightarrow> bool \<Rightarrow> bool \<Rightarrow> bool \<Rightarrow> string \<Rightarrow> string \<times> bool" where
  "rewrite_line sFlag content iscontinue seek Flagcontinue line =
     (let hit = sublist (c_str sFlag) line \<and> Flagcontinue;
          added = (if hit then content @ [newline] else []);
          Flagcontinue' = (if hit \<and> \<not> iscontinue then False else Flagcontinue)
      in (if seek then line @ [newline] @ added else added @ line @ [newline], Flagcontinue'))"

partial_function (option) replace_loop ::
  "string \<Rightarrow> string \<Rightarrow> bool \<Rightarrow> bool \<Rightarrow> bool \<Rightarrow> ifstream \<Rightarrow> string \<Rightarrow> string option" where
  "replace_loop sFlag content iscontinue seek Flagcontinue s out =
     (if eofbit s then Some out
      else let (buffer, s') = getline s;
               (txt, Flagcontinue') = rewrite_line sFlag content iscontinue seek Flagcontinue (c_str buffer)
           in replace_loop sFlag content iscontinue seek Flagcontinue' s' (out @ txt))"

text \<open>The temporary file is opened for appending: what an earlier run left in it stays.\<close>

definition contents :: "files \<Rightarrow> string \<Rightarrow> string" where
  "contents fs f = (case fs f of None \<Rightarrow> [] | Some t \<Rightarrow> t)"

definition append_file :: "string \<Rightarrow> string \<Rightarrow> unit io" where
  "append_file f t = modify (\<lambda>fs. fs(f \<mapsto> contents fs f @ t))"

definition shell_rm :: "string \<Rightarrow> unit io" where
  "shell_rm f = modify (\<lambda>fs. fs(f := None))"

definition shell_mv :: "string \<Rightarrow> string \<Rightarrow> unit io" where
  "shell_mv f g = modify (\<lambda>fs. case fs f of None \<Rightarrow> fs | Some t \<Rightarrow> fs(f := None, g \<mapsto> t))"

definition tmp_name :: "string \<Rightarrow> string" where
  "tmp_name sFile = ''.'' @ sFile @ ''.tmp''"

definition replace :: "string \<Rightarrow> string \<Rightarrow> string \<Rightarrow> string \<Rightarrow> bool \<Rightarrow> bool \<Rightarrow> bool io" where
  "replace sFile sFlag content chkcontent iscontinue seek =
     bnd (checkcontent sFile chkcontent) (\<lambda>found.
       if found then ret False else
       bnd (gets (\<lambda>fs. open_in fs sFile)) (\<lambda>ifs.
       bnd (returns (replace_loop sFlag content iscontinue seek True ifs [])) (\<lambda>out.
       sq (append_file (tmp_name sFile) out)
      (sq (shell_rm sFile)
      (sq (shell_mv (tmp_name sFile) sFile)
          (ret True))))))"

section \<open>The description of the protocols\<close>

record CEnum =
  en_name :: string
  en_number :: string
  en_note :: string

record CMember =
  mem_name :: string
  mem_type :: string
  mem_typen :: string
  mem_size :: string
  mem_note :: string
  vec_enum :: "CEnum list"

record CStructure =
  str_name :: string
  ishas_cons :: string
  ishas_op :: string
  str_note :: string
  vec_member :: "CMember list"

record CProtocol =
  pro_name :: string
  pro_number :: string
  pro_handler :: string
  return_protocol :: string
  pro_file :: string
  pro_note :: string
  pro_structure :: CStructure

datatype xml = Element (attributes: "(string \<times> string) list") (children: "xml list")

definition CEnum_new :: CEnum where
  "CEnum_new = \<lparr>en_name = [], en_number = [], en_note = []\<rparr>"

definition CMember_new :: CMember where
  "CMember_new = \<lparr>mem_name = [], mem_type = [], mem_typen = [], mem_size = [], mem_note = [], vec_enum = []\<rparr>"

definition CStructure_new :: CStructure where
  "CStructure_new = \<lparr>str_name = [], ishas_cons = [], ishas_op = [], str_note = [], vec_member = []\<rparr>"

definition CProtocol_new :: CProtocol where
  "CProtocol_new = \<lparr>pro_name = [], pro_number = [], pro_handler = [], return_protocol = [],
     pro_file = [], pro_note = [], pro_structure = CStructure_new\<rparr>"

definition protocol_attr :: "string \<times> string \<Rightarrow> CProtocol \<Rightarrow> CProtocol" where
  "protocol_attr a cpl = (let (n, v) = a in
     if n = ''name'' then cpl\<lparr>pro_name := v\<rparr>
     else if n = ''number'' then cpl\<lparr>pro_number := v\<rparr>
     else if n = ''handler'' then cpl\<lparr>pro_handler := v\<rparr>
     else if n = ''return_protocol'' then cpl\<lparr>return_protocol := v\<rparr>
     else if n = ''file'' then cpl\<lparr>pro_file := v\<rparr>
     else if n = ''note'' then cpl\<lparr>pro_note := v\<rparr>
     else cpl)"

definition structure_attr :: "string \<times> string \<Rightarrow> CStructure \<Rightarrow> CStructure" where
  "structure_attr a st = (let (n, v) = a in
     if n = ''name'' then st\<lparr>str_name := v\<rparr>
     else if n = ''constructor'' then st\<lparr>ishas_cons := v\<rparr>
     else if n = ''operator'' then st\<lparr>ishas_op := v\<rparr>
     else if n = ''note'' then st\<lparr>str_note := v\<rparr>
     else st)"

definition enumeration_attr :: "string \<times> string \<Rightarrow> CEnum \<Rightarrow> CEnum" where
  "enumeration_attr a cem = (let (n, v) = a in
     if n = ''name'' then cem\<lparr>en_name := v\<rparr>
     else if n = ''number'' then cem\<lparr>en_number := v\<rparr>
     else if n = ''note'' then cem\<lparr>en_note := v\<rparr>
     else cem)"

definition load_enum :: "xml \<Rightarrow> CEnum" where
  "load_enum e = fold enumeration_attr (attributes e) CEnum_new"

text \<open>
  The children of a member are read once for every attribute whose \<^emph>\<open>value\<close> is \<open>enum\<close>, whatever
  the attribute's name.
\<close>

definition member_attr :: "xml list \<Rightarrow> string \<times> string \<Rightarrow> CMember \<Rightarrow> CMember" where
  "member_attr enumerations a cmr = (let (n, v) = a;
       cmr' = (if n = ''name'' then cmr\<lparr>mem_name := v\<rparr>
               else if n = ''type'' then cmr\<lparr>mem_type := v\<rparr>
               else if n = ''typename'' then cmr\<lparr>mem_typen := v\<rparr>
               else if n = ''note'' then cmr\<lparr>mem_note := v\<rparr>
               else if n = ''size'' then cmr\<lparr>mem_size := v\<rparr>
               else cmr)
     in if v = ''enum'' then cmr'\<lparr>vec_enum := vec_enum cmr' @ map load_enum enumerations\<rparr> else cmr')"

definition load_member :: "xml \<Rightarrow> CMember" where
  "load_member m = fold (member_attr (children m)) (attributes m) CMember_new"

text \<open>Several structures of a protocol are merged: the names are overwritten, the members appended.\<close>

definition load_structure :: "xml \<Rightarrow> CStructure \<Rightarrow> CStructure" where
  "load_structure e st = (let st' = fold structure_attr (attributes e) st in
     st'\<lparr>vec_member := vec_member st' @ map load_member (children e)\<rparr>)"

definition load_protocol :: "xml \<Rightarrow> CProtocol" where
  "load_protocol e = (let cpl = fold protocol_attr (attributes e) CProtocol_new in
     cpl\<lparr>pro_structure := fold load_structure (children e) (pro_structure cpl)\<rparr>)"

text \<open>Without a root element the first call on it dereferences \<open>NULL\<close>.\<close>

definition LoadXml :: "CProtocol list \<Rightarrow> xml option \<Rightarrow> (bool \<times> CProtocol list) io" where
  "LoadXml vProtocol doc = (case doc of
     None \<Rightarrow> fail NullDeref
   | Some rpc \<Rightarrow> ret (True, vProtocol @ map load_protocol (children rpc)))"

text \<open>All vectors are cleared, the outermost last.\<close>

definition cleanNodes :: "CProtocol list \<Rightarrow> CProtocol list" where
  "cleanNodes vProtocol = []"

section \<open>Generated text\<close>

definition tab :: char where "tab = CHR 0x09"
definition quote :: char where "quote = CHR 0x22"
definition line_of :: "string \<Rightarrow> string" where "line_of s = s @ [newline]"

definition TAB1 :: string where "TAB1 = replicate 4 CHR 0x20"
definition TAB2 :: string where "TAB2 = replicate 8 CHR 0x20"
definition TAB3 :: string where "TAB3 = replicate 12 CHR 0x20"
definition SPACE1 :: string where "SPACE1 = '' ''"

text \<open>\<open>s.replace (0, 1, r)\<close> and \<open>s.substr (1)\<close>; the second throws on an empty string, and nothing catches it.\<close>

definition replace_first :: "string \<Rightarrow> string \<Rightarrow> string" where
  "replace_first r s = r @ drop 1 s"

definition substr1 :: "string \<Rightarrow> ('s, string) prog" where
  "substr1 s = sq (check (s \<noteq> []) Aborted) (ret (drop 1 s))"

definition protocol_line :: "string \<Rightarrow> string \<Rightarrow> string \<Rightarrow> string" where
  "protocol_line sName sNumber sNote =
     (if sNumber = ''auto'' then tab # sName @ '', //'' @ sNote
      else tab # sName @ ''='' @ sNumber @ '', //'' @ sNote)"

definition autoBuildProtocol :: "string \<Rightarrow> string \<Rightarrow> bool \<Rightarrow> string \<Rightarrow> bool io" where
  "autoBuildProtocol sName sNumber retp sNote =
     (let content = protocol_line sName sNumber sNote;
          content2 = (if retp then tab # replace_first ''S'' sName @ '','' else content) in
      sq (replace ''protocol.h'' ''};'' content content False False)
     (sq (replace ''protocol.h'' ''};'' content2 content2 False False)
         (ret True)))"

definition handler_prologue :: string where
  "handler_prologue =
     line_of (''#include '' @ [quote] @ ''HandleMessage.h'' @ [quote]) @
     line_of (''#include '' @ [quote] @ ''protocol.h'' @ [quote]) @
     line_of (''#include '' @ [quote] @ ''Buf.h'' @ [quote]) @ [newline]"

definition handler_head :: "string \<Rightarrow> string" where
  "handler_head sHandler = ''void CHandleMessage::'' @ sHandler @ ''(Buf* p)''"

definition handler_stub :: "string \<Rightarrow> string" where
  "handler_stub sHandler = newline # line_of (handler_head sHandler) @ line_of ''{'' @
     line_of ''    //TODO:'' @ line_of ''}''"

definition handler_file :: "string \<Rightarrow> string \<Rightarrow> string" where
  "handler_file sFile sHandler =
     (if sFile = ''auto'' then ''handler/'' @ sHandler @ ''.cpp'' else ''handler/'' @ sFile)"

definition msghandle_line :: "string \<Rightarrow> string \<Rightarrow> string" where
  "msghandle_line pName sHandler = ''    MSGNAME ('' @ pName @ '', '' @ sHandler @ '');''"

text \<open>Opening for appending creates the file; the length decides about the includes.\<close>

definition autoBuildHandler :: "string \<Rightarrow> string \<Rightarrow> string \<Rightarrow> bool io" where
  "autoBuildHandler pName sFile sHandler =
     (let cppfile = handler_file sFile sHandler in
      sq (append_file cppfile [])
     (bnd (gets (\<lambda>fs. length (contents fs cppfile))) (\<lambda>len.
      sq (if len = 0 then append_file cppfile handler_prologue else ret ())
     (bnd (checkcontent cppfile (handler_head sHandler)) (\<lambda>found.
      sq (if found then ret () else append_file cppfile (handler_stub sHandler))
     (bnd (checkcontent ''handler/MSGHANDLE'' (msghandle_line pName sHandler)) (\<lambda>found2.
      sq (if found2 then ret ()
          else append_file ''handler/MSGHANDLE'' (line_of (msghandle_line pName sHandler)))
         (ret True))))))))"

text \<open>The parameters of the constructor, its initialisers and the copies of its arrays.\<close>

fun cons_params :: "CMember list \<Rightarrow> string \<Rightarrow> ('s, string) prog" where
  "cons_params [] tmpstr = ret tmpstr"
| "cons_params (itm # ms) tmpstr = bnd (substr1 (mem_name itm)) (\<lambda>n.
     cons_params ms (tmpstr
       @ (if mem_type itm = ''enum'' then mem_type itm @ SPACE1 @ mem_typen itm
          else if mem_type itm = ''char'' then mem_type itm @ ''*''
          else mem_type itm)
       @ SPACE1 @ n @ (if ms = [] then [] else '', '')))"

fun cons_inits :: "CMember list \<Rightarrow> string \<Rightarrow> string \<Rightarrow> ('s, string \<times> string) prog" where
  "cons_inits [] tmpstr charstr = ret (tmpstr, charstr)"
| "cons_inits (itm # ms) tmpstr charstr = bnd (substr1 (mem_name itm)) (\<lambda>n.
     if mem_type itm = ''char'' then
       cons_inits ms tmpstr (charstr @ TAB2 @ ''memcpy ('' @ mem_name itm @ '', '' @ n @ '', ''
         @ mem_size itm @ '');'' @ [newline])
     else cons_inits ms (tmpstr @ mem_name itm @ ''('' @ n @ '')'' @ (if ms = [] then [] else '', '')) charstr)"

text \<open>
  The function is declared \<open>bool\<close> and returns nothing; the caller does not look at the
  result, so only the text it appends is modelled.
\<close>

definition autoBuildCons :: "string \<Rightarrow> string \<Rightarrow> CMember list \<Rightarrow> ('s, string) prog" where
  "autoBuildCons members structure_name ms =
     bnd (cons_params ms (TAB1 @ structure_name @ ''('')) (\<lambda>tmpstr.
     bnd (cons_inits ms (tmpstr @ '')'' @ [newline] @ TAB2 @ '':'') []) (\<lambda>(tmpstr', charstr).
     ret (members @ tmpstr' @ [newline] @ TAB1 @ ''{'' @ [newline] @ charstr @ [newline] @ TAB1 @ ''}'' @ [newline])))"

definition set_method :: "string \<Rightarrow> string \<Rightarrow> string \<Rightarrow> ('s, string) prog" where
  "set_method member_name ty arg_ty = bnd (substr1 member_name) (\<lambda>n.
     ret (TAB1 @ ''void '' @ replace_first ''set'' member_name @ '' ('' @ arg_ty @ '' '' @ n @ '')'' @ [newline] @ TAB1
       @ ''{'' @ [newline] @ TAB2 @ member_name @ ''='' @ n @ '';'' @ [newline] @ TAB1 @ ''};'' @ [newline]))"

definition get_body :: "string \<Rightarrow> string" where
  "get_body member_name = [newline] @ TAB1 @ ''{'' @ [newline] @ TAB2 @ ''return('' @ member_name @ '');''
     @ [newline] @ TAB1 @ ''};'' @ [newline]"

definition autoBuildMethod :: "string \<Rightarrow> string \<Rightarrow> string \<Rightarrow> string \<Rightarrow> ('s, string) prog" where
  "autoBuildMethod members member_name member_type member_typen =
     (if member_type = ''enum'' then
        bnd (set_method member_name member_type (''enum '' @ member_typen)) (\<lambda>s.
        ret (members @ s @ TAB1 @ member_type @ '' '' @ member_typen @ '' '' @ replace_first ''get'' member_name
          @ ''(void)'' @ get_body member_name))
      else if member_type = ''char'' then ret members
      else bnd (set_method member_name member_type member_type) (\<lambda>s.
        ret (members @ s @ TAB1 @ member_type @ '' '' @ replace_first ''get'' member_name
          @ '' (void)'' @ get_body member_name)))"

fun build_methods :: "CMember list \<Rightarrow> string \<Rightarrow> ('s, string) prog" where
  "build_methods [] members = ret members"
| "build_methods (itm # ms) members =
     bnd (autoBuildMethod members (mem_name itm) (mem_type itm) (mem_typen itm)) (build_methods ms)"

definition comment_of :: "string \<Rightarrow> string" where
  "comment_of note = ''; //'' @ note @ [newline]"

fun enum_lines :: "CEnum list \<Rightarrow> string \<Rightarrow> string" where
  "enum_lines [] enums = enums"
| "enum_lines (ite # es) enums = enum_lines es (enums @ TAB1 @ en_name ite
     @ (if en_number ite = ''auto'' then [] else ''='' @ en_number ite) @ '', //'' @ en_note ite @ [newline])"

text \<open>The fields of the structure and the declaration of the enumeration of its last \<open>enum\<close> field.\<close>

fun build_members :: "CMember list \<Rightarrow> string \<Rightarrow> string \<Rightarrow> string \<Rightarrow> string \<times> string \<times> string" where
  "build_members [] members enums enumscontent = (members, enums, enumscontent)"
| "build_members (itm # ms) members enums enumscontent =
     (if mem_type itm = ''enum'' then
        build_members ms
          (members @ TAB1 @ mem_type itm @ SPACE1 @ mem_typen itm @ SPACE1 @ mem_name itm @ comment_of (mem_note itm))
          (enum_lines (vec_enum itm)
             (newline # ''//'' @ mem_note itm @ [newline] @ ''enum '' @ mem_typen itm @ '' {'' @ [newline]))
          (''enum '' @ mem_typen itm @ '' {'')
      else if mem_type itm = ''char'' then
        build_members ms
          (members @ TAB1 @ mem_type itm @ SPACE1 @ mem_name itm @ ''['' @ mem_size itm @ '']'' @ comment_of (mem_note itm))
          enums enumscontent
      else
        build_members ms
          (members @ TAB1 @ mem_type itm @ SPACE1 @ mem_name itm @ comment_of (mem_note itm))
          enums enumscontent)"

definition structure_head :: "CStructure \<Rightarrow> string" where
  "structure_head st = newline # ''//'' @ str_note st @ [newline] @ ''struct '' @ str_name st @ '' {'' @ [newline]
     @ (if ishas_cons st = ''Y'' \<or> ishas_op st = ''Y'' then ''private:'' @ [newline] else [])"

definition build_structure :: "CStructure \<Rightarrow> ('s, string \<times> string \<times> string) prog" where
  "build_structure st =
     (let (members, enums, enumscontent) = build_members (vec_member st) (structure_head st) [] [] in
      bnd (if ishas_cons st = ''Y''
           then autoBuildCons (members @ ''public:'' @ [newline]) (str_name st) (vec_member st)
           else ret members) (\<lambda>members2.
      bnd (if ishas_op st = ''Y'' then build_methods (vec_member st) (members2 @ ''public:'' @ [newline])
           else ret members2) (\<lambda>members3.
      ret (members3 @ ''};'' @ [newline], enums @ ''};'' @ [newline], enumscontent))))"

text \<open>\<open>tmpFile.replace (tmpFile.size () - 4, 4, "")\<close> throws when the name has fewer than four characters.\<close>

definition object_line :: "string \<Rightarrow> string \<Rightarrow> string" where
  "object_line file handler = TAB3 @ ''handler/''
     @ (if file = ''auto'' then handler else take (length file - 4) file) @ ''.o '' @ [CHR 0x5C]"

definition build_one :: "CProtocol \<Rightarrow> unit io" where
  "build_one it =
     sq (check (4 \<le> length (pro_file it)) Aborted)
    (sq (autoBuildProtocol (pro_name it) (pro_number it) (return_protocol it = ''Y'') (pro_note it))
    (sq (autoBuildHandler (pro_name it) (pro_file it) (pro_handler it))
    (let content = object_line (pro_file it) (pro_handler it) in
     sq (replace ''Makefile'' ''virtual.o'' content content False True)
    (bnd (build_structure (pro_structure it)) (\<lambda>(members, enums, enumscontent).
     sq (replace ''protocol.h'' ''// structs'' members (''struct '' @ str_name (pro_structure it) @ '' {'') False True)
    (sq (replace ''protocol.h'' ''// enums'' enums enumscontent False True)
        (ret ())))))))"

text \<open>An earlier version of the step for the \<open>Makefile\<close>, not called any more: it does not look whether the
  line is there and inserts it after every mention of \<open>virtual.o\<close>.\<close>

definition autoBuildMakefile :: "string \<Rightarrow> bool io" where
  "autoBuildMakefile sFile =
     bnd (gets (\<lambda>fs. open_in fs ''Makefile'')) (\<lambda>ifs.
     bnd (returns (replace_loop ''virtual.o'' (TAB3 @ ''handler/'' @ sFile @ ''.o '' @ [CHR 0x5C]) True True True ifs []))
       (\<lambda>out.
     sq (append_file ''.Makefile.tmp'' out)
    (sq (shell_rm ''Makefile'')
    (sq (shell_mv ''.Makefile.tmp'' ''Makefile'')
        (ret True)))))"

text \<open>What a debug build prints of the description.\<close>

definition dump_enum :: "CEnum \<Rightarrow> string" where
  "dump_enum e = [newline, tab, tab, tab] @ ''enum.name='' @ en_name e @ '' number='' @ en_number e @ '' note='' @ en_note e"

definition dump_member :: "CMember \<Rightarrow> string" where
  "dump_member m = [newline, tab, tab] @ ''member.name='' @ mem_name m @ '' type='' @ mem_type m
     @ '' typename='' @ mem_typen m @ '' size='' @ mem_size m @ '' note='' @ mem_note m
     @ (if mem_type m = ''enum'' then concat (map dump_enum (vec_enum m)) else [])"

definition dump_protocol :: "CProtocol \<Rightarrow> string" where
  "dump_protocol p = newline # ''name='' @ pro_name p @ '' number='' @ pro_number p
     @ '' handle='' @ pro_handler p @ '' return_protocol='' @ return_protocol p
     @ '' file='' @ pro_file p @ '' note='' @ pro_note p
     @ [newline, tab] @ ''structure.name='' @ str_name (pro_structure p) @ '' ishas_cons='' @ ishas_cons (pro_structure p)
     @ '' ishas_op='' @ ishas_op (pro_structure p) @ '' note='' @ str_note (pro_structure p)
     @ concat (map dump_member (vec_member (pro_structure p)))"

definition dumpNodes :: "CProtocol list \<Rightarrow> string" where
  "dumpNodes vProtocol = concat (map dump_protocol vProtocol) @ [newline]"

definition autoBuild :: "CProtocol list \<Rightarrow> bool io" where
  "autoBuild vProtocol = sq (for_each vProtocol build_one) (ret True)"

text \<open>\<open>doc\<close> is the document that TinyXML reads from the named file; more than one argument is a usage error.\<close>

definition main :: "string list \<Rightarrow> (string \<Rightarrow> xml option) \<Rightarrow> int io" where
  "main argv doc =
     (if 2 < length argv then ret 1
      else bnd (LoadXml [] (doc (if length argv = 2 then argv ! 1 else ''./rpc.xml''))) (\<lambda>(ok, vProtocol).
        if \<not> ok then ret 1 else
        sq (replace ''protocol.h'' ''};'' ''// structs'' ''// structs'' False True)
       (sq (replace ''protocol.h'' ''};'' ''// enums'' ''// enums'' False True)
       (sq (replace ''protocol.h'' ''#pragma pack(1)'' ''#include <string.h>'' ''#include <string.h>'' False False)
       (sq (autoBuild vProtocol)
           (let _ = cleanNodes vProtocol in ret 0))))))"

end
