(* ===== verification/TinyXml.thy ===== *)
theory TinyXml
  imports AutoProto
begin

text \<open>
  \<open>autoproto/tinyxmlparser.cpp\<close>, \<open>tinyxml.cpp\<close> and the inline parts of \<open>tinyxml.h\<close>: the XML parser and
  printer of the generator, built without \<open>TIXML_USE_STL\<close> and with its assertions.  A
  \<open>const char*\<close> into the text is the part of the text from there to the terminator, and \<open>None\<close> is \<open>NULL\<close>; the
  empty rest is a pointer to the terminator.  Reading behind the terminator is the fault \<open>OutOfBounds\<close>,
  a failed assertion is \<open>Aborted\<close>, a loop that is never left is \<open>Endless\<close>.  The state is the document: its nodes, the
  first error with its place, and the position up to which rows and columns have been counted.  The
  rows and columns that every node stores are not kept: nothing reads them.
\<close>

type_synonym ptr = "string option"

datatype TiXmlEncoding = TIXML_ENCODING_UNKNOWN | TIXML_ENCODING_UTF8 | TIXML_ENCODING_LEGACY

datatype xml_error =
    TIXML_NO_ERROR
  | TIXML_ERROR
  | TIXML_ERROR_OPENING_FILE
  | TIXML_ERROR_PARSING_ELEMENT
  | TIXML_ERROR_FAILED_TO_READ_ELEMENT_NAME
  | TIXML_ERROR_READING_ELEMENT_VALUE
  | TIXML_ERROR_READING_ATTRIBUTES
  | TIXML_ERROR_PARSING_EMPTY
  | TIXML_ERROR_READING_END_TAG
  | TIXML_ERROR_PARSING_UNKNOWN
  | TIXML_ERROR_PARSING_COMMENT
  | TIXML_ERROR_PARSING_DECLARATION
  | TIXML_ERROR_DOCUMENT_EMPTY
  | TIXML_ERROR_EMBEDDED_NULL
  | TIXML_ERROR_PARSING_CDATA
  | TIXML_ERROR_DOCUMENT_TOP_ONLY

text \<open>
  The nodes of the tree.  An element has a name, its attributes in the order in which they were added, and its
  children; a text knows whether it came as a \<open>CDATA\<close> section.
\<close>

datatype xnode =
    XElement string "(string \<times> string) list" "xnode list"
  | XText string bool
  | XComment string
  | XDeclaration string string string
  | XUnknown string

record TiXmlCursor =
  row :: int
  col :: int

record TiXmlDocument =
  doc_nodes :: "xnode list"
  useMicrosoftBOM :: bool
  tabsize :: int
  errorId :: xml_error
  errorLocation :: TiXmlCursor
  cursor :: TiXmlCursor
  stamp :: string

type_synonym 'a xp = "(TiXmlDocument, 'a) prog"

definition no_cursor :: TiXmlCursor where
  "no_cursor = \<lparr>row = -1, col = -1\<rparr>"

definition TiXmlDocument_new :: TiXmlDocument where
  "TiXmlDocument_new = \<lparr>doc_nodes = [], useMicrosoftBOM = False, tabsize = 4, errorId = TIXML_NO_ERROR,
     errorLocation = \<lparr>row = 0, col = 0\<rparr>, cursor = no_cursor, stamp = []\<rparr>"

definition Error :: "TiXmlDocument \<Rightarrow> bool" where
  "Error d = (errorId d \<noteq> TIXML_NO_ERROR)"

definition ClearError :: "unit xp" where
  "ClearError = modify (\<lambda>d. d\<lparr>errorId := TIXML_NO_ERROR, errorLocation := \<lparr>row = 0, col = 0\<rparr>\<rparr>)"

section \<open>Characters\<close>

definition byte_of :: "char \<Rightarrow> nat" where
  "byte_of c = of_char c"

definition is_upper :: "char \<Rightarrow> bool" where
  "is_upper c = (65 \<le> byte_of c \<and> byte_of c \<le> 90)"

definition isalpha :: "char \<Rightarrow> bool" where
  "isalpha c = (is_upper c \<or> (97 \<le> byte_of c \<and> byte_of c \<le> 122))"

definition isdigit :: "char \<Rightarrow> bool" where
  "isdigit c = (48 \<le> byte_of c \<and> byte_of c \<le> 57)"

definition IsAlpha :: "char \<Rightarrow> bool" where
  "IsAlpha c = (if byte_of c < 127 then isalpha c else True)"

definition IsAlphaNum :: "char \<Rightarrow> bool" where
  "IsAlphaNum c = (if byte_of c < 127 then isalpha c \<or> isdigit c else True)"

definition IsWhiteSpace :: "char \<Rightarrow> bool" where
  "IsWhiteSpace c = ((9 \<le> byte_of c \<and> byte_of c \<le> 13) \<or> byte_of c = 32)"

text \<open>\<open>tolower\<close> in the C locale; bytes from \<open>0x80\<close> on are negative as \<open>char\<close> and stay as they are.\<close>

definition ToLower :: "char \<Rightarrow> char" where
  "ToLower c = (if is_upper c then char_of (byte_of c + 32) else c)"

text \<open>The number of bytes of a character from its first one; 1 for bytes that cannot start one.\<close>

definition utf8ByteTable :: "char \<Rightarrow> nat" where
  "utf8ByteTable c = (let b = byte_of c in
     if b < 0xC2 then 1 else if b < 0xE0 then 2 else if b < 0xF0 then 3 else if b < 0xF5 then 4 else 1)"

definition entity :: "(string \<times> char) list" where
  "entity = [(''&amp;'', CHR ''&''), (''&lt;'', CHR ''<''), (''&gt;'', CHR ''>''),
     (''&quot;'', CHR 0x22), (''&apos;'', CHR 0x27)]"

definition char_of_u64 :: "u64 \<Rightarrow> char" where
  "char_of_u64 w = char_of (unat w)"

definition utf8_tail :: "u64 \<Rightarrow> char" where
  "utf8_tail w = char_of_u64 (and (or w 0x80) 0xBF)"

definition ConvertUTF32ToUTF8 :: "u64 \<Rightarrow> string" where
  "ConvertUTF32ToUTF8 w =
     (if w < 0x80 then [char_of_u64 w]
      else if w < 0x800 then [char_of_u64 (or (drop_bit 6 w) 0xC0), utf8_tail w]
      else if w < 0x10000 then
        [char_of_u64 (or (drop_bit 12 w) 0xE0), utf8_tail (drop_bit 6 w), utf8_tail w]
      else if w < 0x200000 then
        [char_of_u64 (or (drop_bit 18 w) 0xF0), utf8_tail (drop_bit 12 w), utf8_tail (drop_bit 6 w), utf8_tail w]
      else [])"

section \<open>Reading from the text\<close>

text \<open>\<open>p && *p\<close>: the pointer is not \<open>NULL\<close> and not at the terminator.\<close>

definition live :: "ptr \<Rightarrow> bool" where
  "live p = (p \<noteq> None \<and> p \<noteq> Some [])"

text \<open>The byte order mark and the two non-characters that are skipped as if they were white space.\<close>

definition lead_bytes :: "string \<Rightarrow> bool" where
  "lead_bytes p = (take 3 p = [CHR 0xEF, CHR 0xBB, CHR 0xBF])"

definition skipped_mark :: "string \<Rightarrow> bool" where
  "skipped_mark p = (lead_bytes p \<or> take 3 p = [CHR 0xEF, CHR 0xBF, CHR 0xBE]
     \<or> take 3 p = [CHR 0xEF, CHR 0xBF, CHR 0xBF])"

fun skip_white :: "TiXmlEncoding \<Rightarrow> string \<Rightarrow> string" where
  "skip_white e [] = []"
| "skip_white e (c # p) =
     (if e = TIXML_ENCODING_UTF8 \<and> skipped_mark (c # p) then skip_white e (drop 2 p)
      else if IsWhiteSpace c then skip_white e p
      else c # p)"

definition SkipWhiteSpace :: "TiXmlEncoding \<Rightarrow> ptr \<Rightarrow> ptr" where
  "SkipWhiteSpace e p = (if live p then Some (skip_white e (the p)) else None)"

definition name_char :: "char \<Rightarrow> bool" where
  "name_char c = (IsAlphaNum c \<or> c \<in> set ''_-.:'')"

definition name_start :: "char \<Rightarrow> bool" where
  "name_start c = (IsAlpha c \<or> c = CHR ''_'')"

definition ReadName :: "string \<Rightarrow> ptr \<times> string" where
  "ReadName p = (if p \<noteq> [] \<and> name_start (hd p) then (Some (dropWhile name_char p), takeWhile name_char p)
     else (None, []))"

text \<open>
  The digits of a character reference, read from the last one to the \<open>x\<close> or \<open>#\<close> in front: the weight of a
  digit is a 32-bit number, the sum a 64-bit one, and both wrap around.
\<close>

definition hex_value :: "char \<Rightarrow> u32 option" where
  "hex_value c =
     (if isdigit c then Some (of_nat (byte_of c - 48))
      else if 97 \<le> byte_of c \<and> byte_of c \<le> 102 then Some (of_nat (byte_of c - 97 + 10))
      else if 65 \<le> byte_of c \<and> byte_of c \<le> 70 then Some (of_nat (byte_of c - 65 + 10))
      else None)"

fun hex_digits :: "string \<Rightarrow> u32 \<Rightarrow> u64 \<Rightarrow> u64 option" where
  "hex_digits [] weight ucs = Some ucs"
| "hex_digits (c # q) weight ucs =
     (if c = CHR ''x'' then Some ucs
      else case hex_value c of
          None \<Rightarrow> None
        | Some d \<Rightarrow> hex_digits q (weight * 16) (ucs + ucast (weight * d)))"

fun dec_digits :: "string \<Rightarrow> u32 \<Rightarrow> u64 \<Rightarrow> u64 option" where
  "dec_digits [] weight ucs = Some ucs"
| "dec_digits (c # q) weight ucs =
     (if c = CHR ''#'' then Some ucs
      else if isdigit c then dec_digits q (weight * 10) (ucs + ucast (weight * of_nat (byte_of c - 48)))
      else None)"

definition ucs_bytes :: "TiXmlEncoding \<Rightarrow> u64 \<Rightarrow> string" where
  "ucs_bytes e ucs = (if e = TIXML_ENCODING_UTF8 then ConvertUTF32ToUTF8 ucs else [char_of_u64 ucs])"

text \<open>What \<open>strchr (q, ';')\<close> finds: the text in front of the semicolon and the text behind it.\<close>

definition semicolon :: "string \<Rightarrow> (string \<times> string) option" where
  "semicolon q = (if CHR '';'' \<in> set q
     then Some (takeWhile (\<lambda>c. c \<noteq> CHR '';'') q, tl (dropWhile (\<lambda>c. c \<noteq> CHR '';'') q)) else None)"

definition numeric_entity :: "TiXmlEncoding \<Rightarrow> string \<Rightarrow> ptr \<times> string" where
  "numeric_entity e p =
     (let hex = (p ! 2 = CHR ''x'') in
      case semicolon (drop (if hex then 3 else 2) p) of
        None \<Rightarrow> (None, [])
      | Some (ds, q) \<Rightarrow>
          (case (if hex then hex_digits (rev ds) 1 0 else dec_digits (rev ds) 1 0) of
             None \<Rightarrow> (None, [])
           | Some ucs \<Rightarrow> (Some q, ucs_bytes e ucs)))"

text \<open>An ampersand that starts no entity is dropped.\<close>

definition GetEntity :: "TiXmlEncoding \<Rightarrow> string \<Rightarrow> ptr \<times> string" where
  "GetEntity e p =
     (if 2 < length p \<and> p ! 1 = CHR ''#'' then numeric_entity e p
      else case List.find (\<lambda>(s, c). prefix s p) entity of
          Some (s, c) \<Rightarrow> (Some (drop (length s) p), [c])
        | None \<Rightarrow> (Some (tl p), []))"

definition GetChar :: "TiXmlEncoding \<Rightarrow> string \<Rightarrow> fault + ptr \<times> string" where
  "GetChar e p =
     (let n = (if e = TIXML_ENCODING_UTF8 then utf8ByteTable (hd p) else 1) in
      if n = 1 then (if hd p = CHR ''&'' then Inr (GetEntity e p) else Inr (Some (tl p), [hd p]))
      else if length p < n then Inl OutOfBounds
      else Inr (Some (drop n p), take n p))"

text \<open>Does the text start with the tag?  The text must not be at its end (\<open>assert (0)\<close>).\<close>

definition starts :: "string \<Rightarrow> string \<Rightarrow> bool \<Rightarrow> bool" where
  "starts p tag ignoreCase =
     (if ignoreCase then prefix (map ToLower tag) (map ToLower p) else prefix tag p)"

definition StringEqual :: "ptr \<Rightarrow> string \<Rightarrow> bool \<Rightarrow> ('s, bool) prog" where
  "StringEqual p tag ignoreCase = sq (check (live p) Aborted) (ret (starts (the p) tag ignoreCase))"

definition condenseWhiteSpace :: bool where
  "condenseWhiteSpace = True"

text \<open>What \<open>GetChar\<close> leaves is shorter than what it was given, so the loops below end.\<close>

lemma semicolon_length: "semicolon q = Some (ds, r) \<Longrightarrow> length r < length q"
  using dropWhile_eq_Cons_conv [of "\<lambda>c. c \<noteq> CHR '';''" q] length_dropWhile_le [of "\<lambda>c. c \<noteq> CHR '';''" q]
  by (cases "dropWhile (\<lambda>c. c \<noteq> CHR '';'') q") (auto simp: semicolon_def split: if_splits)

lemma GetEntity_length: "p \<noteq> [] \<Longrightarrow> GetEntity e p = (Some q, v) \<Longrightarrow> length q < length p"
  by (fastforce simp: GetEntity_def numeric_entity_def Let_def entity_def find_Some_iff dest: semicolon_length
      split: if_splits option.splits prod.splits)

lemma utf8ByteTable_pos: "0 < utf8ByteTable c"
  by (simp add: utf8ByteTable_def Let_def)

lemma GetChar_length: "p \<noteq> [] \<Longrightarrow> GetChar e p = Inr (Some q, v) \<Longrightarrow> length q < length p"
  using utf8ByteTable_pos [of "hd p"]
  by (auto simp: GetChar_def Let_def dest: GetEntity_length split: if_splits)

text \<open>The two loops of \<open>ReadText\<close>: all characters kept, or white space condensed.\<close>

function read_keep :: "TiXmlEncoding \<Rightarrow> string \<Rightarrow> bool \<Rightarrow> string \<Rightarrow> string \<Rightarrow> fault + ptr \<times> string" where
  "read_keep e endTag ci p text =
     (if p = [] \<or> starts p endTag ci then Inr (Some p, text)
      else case GetChar e p of
          Inl f \<Rightarrow> Inl f
        | Inr (None, v) \<Rightarrow> Inr (None, text @ v)
        | Inr (Some q, v) \<Rightarrow> read_keep e endTag ci q (text @ v))"
  by pat_completeness auto
termination
  by (relation "measure (\<lambda>(e, endTag, ci, p, text). length p)") (auto dest: GetChar_length)

function read_condense :: "TiXmlEncoding \<Rightarrow> string \<Rightarrow> bool \<Rightarrow> string \<Rightarrow> bool \<Rightarrow> string \<Rightarrow> fault + ptr \<times> string" where
  "read_condense e endTag ci p whitespace text =
     (if p = [] \<or> starts p endTag ci then Inr (Some p, text)
      else if IsWhiteSpace (hd p) then read_condense e endTag ci (tl p) True text
      else let text' = (if whitespace then text @ '' '' else text) in
        case GetChar e p of
          Inl f \<Rightarrow> Inl f
        | Inr (None, v) \<Rightarrow> Inr (None, text' @ v)
        | Inr (Some q, v) \<Rightarrow> read_condense e endTag ci q False (text' @ v))"
  by pat_completeness auto
termination
  by (relation "measure (\<lambda>(e, endTag, ci, p, whitespace, text). length p)") (auto dest: GetChar_length)

declare read_keep.simps [simp del] read_condense.simps [simp del]

definition from_ptr :: "(string \<Rightarrow> fault + ptr \<times> string) \<Rightarrow> ptr \<Rightarrow> fault + ptr \<times> string" where
  "from_ptr f p = (case p of None \<Rightarrow> Inr (None, []) | Some q \<Rightarrow> f q)"

text \<open>The end tag is skipped; if nothing follows it, the result is \<open>NULL\<close>.\<close>

definition ReadText :: "TiXmlEncoding \<Rightarrow> ptr \<Rightarrow> bool \<Rightarrow> string \<Rightarrow> bool \<Rightarrow> fault + ptr \<times> string" where
  "ReadText e p trimWhiteSpace endTag ci =
     (case (if \<not> trimWhiteSpace \<or> \<not> condenseWhiteSpace then from_ptr (\<lambda>q. read_keep e endTag ci q []) p
            else from_ptr (\<lambda>q. read_condense e endTag ci q False []) (SkipWhiteSpace e p)) of
        Inl f \<Rightarrow> Inl f
      | Inr (q, text) \<Rightarrow>
          let r = (if live q then Some (drop (length endTag) (the q)) else q)
          in Inr (if live r then r else None, text))"

definition raises :: "fault + 'a \<Rightarrow> ('s, 'a) prog" where
  "raises x = (case x of Inl f \<Rightarrow> fail f | Inr y \<Rightarrow> ret y)"

section \<open>Places and errors\<close>

text \<open>
  \<open>Stamp\<close> counts rows and columns from the last position up to \<open>now\<close>; a position is in front of another one
  when more text follows it.  In UTF-8 a byte \<open>0xEF\<close> that is not followed by two more bytes is never
  left: nothing advances \<open>p\<close>, and the loop runs forever.
\<close>

definition skip_if :: "char \<Rightarrow> string \<Rightarrow> string" where
  "skip_if c p = (if p \<noteq> [] \<and> hd p = c then tl p else p)"

lemma skip_if_length [simp, termination_simp]: "length (skip_if c p) \<le> length p"
  by (simp add: skip_if_def)

lemma skip_if_size [termination_simp]: "size_list f (skip_if c p) \<le> size_list f p"
  by (cases p) (simp_all add: skip_if_def)

definition stamp_step :: "TiXmlEncoding \<Rightarrow> int \<Rightarrow> string \<Rightarrow> int \<Rightarrow> int \<Rightarrow> string \<times> int \<times> int" where
  "stamp_step e ts p r c =
     (let b = hd p; q = tl p in
      if b = CHR 0x0D then (skip_if CHR 0x0A q, r + 1, 0)
      else if b = CHR 0x0A then (skip_if CHR 0x0D q, r + 1, 0)
      else if b = CHR 0x09 then (q, r, (c div ts + 1) * ts)
      else if b = CHR 0xEF \<and> e = TIXML_ENCODING_UTF8 then
        (if 2 \<le> length q then (drop 2 q, r, if skipped_mark p then c else c + 1) else (p, r, c))
      else if e = TIXML_ENCODING_UTF8 then (drop (utf8ByteTable b) p, r, c + 1)
      else (q, r, c + 1))"

partial_function (option) stamp_loop ::
  "TiXmlEncoding \<Rightarrow> int \<Rightarrow> string \<Rightarrow> string \<Rightarrow> int \<Rightarrow> int \<Rightarrow> (string \<times> int \<times> int) option" where
  "stamp_loop e ts now p r c =
     (if length now < length p
      then let (q, r', c') = stamp_step e ts p r c in stamp_loop e ts now q r' c'
      else Some (p, r, c))"

declare stamp_loop.simps [code]

definition Stamp :: "TiXmlEncoding \<Rightarrow> ptr \<Rightarrow> unit xp" where
  "Stamp e now =
     sq (check (now \<noteq> None) Aborted)
    (bnd (gets (\<lambda>d. d)) (\<lambda>d.
     if tabsize d < 1 then ret ()
     else bnd (returns (stamp_loop e (tabsize d) (the now) (stamp d) (row (cursor d)) (col (cursor d))))
       (\<lambda>(q, r, c). modify (\<lambda>d. d\<lparr>cursor := \<lparr>row = r, col = c\<rparr>, stamp := q\<rparr>))))"

text \<open>Only the first error is kept.\<close>

definition SetError :: "xml_error \<Rightarrow> ptr \<Rightarrow> TiXmlEncoding \<Rightarrow> unit xp" where
  "SetError err pError e =
     bnd (gets Error) (\<lambda>already.
     if already then ret ()
     else sq (modify (\<lambda>d. d\<lparr>errorId := err, errorLocation := no_cursor\<rparr>))
         (if pError = None then ret ()
          else sq (Stamp e pError) (modify (\<lambda>d. d\<lparr>errorLocation := cursor d\<rparr>))))"

definition fails_with :: "xml_error \<Rightarrow> ptr \<Rightarrow> TiXmlEncoding \<Rightarrow> 'a \<Rightarrow> 'a xp" where
  "fails_with err pError e x = sq (SetError err pError e) (ret x)"

section \<open>The leaves of the tree\<close>

text \<open>
  \<open>TiXmlAttribute::Parse\<close>: the rest, the name and the value.  The attributes of a declaration have no
  document (\<open>doc\<close> is false), so that their errors are not reported.
\<close>

definition attribute_error :: "bool \<Rightarrow> ptr \<Rightarrow> TiXmlEncoding \<Rightarrow> string \<Rightarrow> string \<Rightarrow> (ptr \<times> string \<times> string) xp" where
  "attribute_error doc pErr e nm v =
     (if doc then fails_with TIXML_ERROR_READING_ATTRIBUTES pErr e (None, nm, v) else ret (None, nm, v))"

fun unquoted_value :: "string \<Rightarrow> string \<Rightarrow> string \<times> string" where
  "unquoted_value [] v = ([], v)"
| "unquoted_value (c # p) v =
     (if IsWhiteSpace c \<or> c = CHR ''/'' \<or> c = CHR ''>'' \<or> c = CHR 0x27 \<or> c = quote then (c # p, v)
      else unquoted_value p (v @ [c]))"

definition attribute_value :: "bool \<Rightarrow> TiXmlEncoding \<Rightarrow> string \<Rightarrow> string \<Rightarrow> (ptr \<times> string \<times> string) xp" where
  "attribute_value doc e nm p =
     (if hd p = CHR 0x27 \<or> hd p = quote then
        bnd (raises (ReadText e (Some (tl p)) False [hd p] False)) (\<lambda>(q, v). ret (q, nm, v))
      else let (q, v) = unquoted_value p [] in
        if q \<noteq> [] \<and> (hd q = CHR 0x27 \<or> hd q = quote) then attribute_error doc (Some q) e nm v
        else ret (Some q, nm, v))"

definition Attribute_Parse :: "bool \<Rightarrow> TiXmlEncoding \<Rightarrow> ptr \<Rightarrow> (ptr \<times> string \<times> string) xp" where
  "Attribute_Parse doc e p0 =
     (let p = SkipWhiteSpace e p0 in
      if \<not> live p then ret (None, [], [])
      else sq (Stamp e p)
       (let (p1, nm) = ReadName (the p) in
        if \<not> live p1 then attribute_error doc p e nm []
        else let p2 = SkipWhiteSpace e p1 in
          if \<not> live p2 \<or> hd (the p2) \<noteq> CHR ''='' then attribute_error doc p2 e nm []
          else let p3 = SkipWhiteSpace e (Some (tl (the p2))) in
            if \<not> live p3 then attribute_error doc p3 e nm []
            else attribute_value doc e nm (the p3)))"

text \<open>\<open>TiXmlNode::Identify\<close>: which node starts here, or none.\<close>

datatype node_kind = KElement | KCData | KComment | KDeclaration | KUnknown

definition Identify :: "TiXmlEncoding \<Rightarrow> ptr \<Rightarrow> node_kind option" where
  "Identify e p0 =
     (let p = SkipWhiteSpace e p0 in
      if \<not> live p \<or> hd (the p) \<noteq> CHR ''<'' then None
      else let s = the p in
        if starts s ''<?xml'' True then Some KDeclaration
        else if starts s ''<!--'' False then Some KComment
        else if starts s ''<![CDATA['' False then Some KCData
        else if starts s ''<!'' False then Some KUnknown
        else if 1 < length s \<and> name_start (s ! 1) then Some KElement
        else Some KUnknown)"

definition Unknown_Parse :: "TiXmlEncoding \<Rightarrow> ptr \<Rightarrow> (ptr \<times> xnode) xp" where
  "Unknown_Parse e p0 =
     (let p = SkipWhiteSpace e p0 in
      sq (Stamp e p)
      (if \<not> live p \<or> hd (the p) \<noteq> CHR ''<'' then
         fails_with TIXML_ERROR_PARSING_UNKNOWN p e (None, XUnknown [])
       else let s = tl (the p); v = takeWhile (\<lambda>c. c \<noteq> CHR ''>'') s; q = dropWhile (\<lambda>c. c \<noteq> CHR ''>'') s
         in ret (Some (if q = [] then q else tl q), XUnknown v)))"

text \<open>The text up to the tag, as comments and \<open>CDATA\<close> sections read it: no entities, all white space.\<close>

fun read_until :: "string \<Rightarrow> string \<Rightarrow> string \<Rightarrow> string \<times> string" where
  "read_until endTag [] v = ([], v)"
| "read_until endTag (c # p) v =
     (if starts (c # p) endTag False then (c # p, v) else read_until endTag p (v @ [c]))"

definition Comment_Parse :: "TiXmlEncoding \<Rightarrow> ptr \<Rightarrow> (ptr \<times> xnode) xp" where
  "Comment_Parse e p0 =
     (let p = SkipWhiteSpace e p0 in
      sq (Stamp e p)
     (bnd (StringEqual p ''<!--'' False) (\<lambda>is_comment.
      if \<not> is_comment then fails_with TIXML_ERROR_PARSING_COMMENT p e (None, XComment [])
      else let (q, v) = read_until ''-->'' (drop 4 (the p)) [] in
        ret (Some (if q = [] then q else drop 3 q), XComment v))))"

definition Text_Parse :: "bool \<Rightarrow> TiXmlEncoding \<Rightarrow> ptr \<Rightarrow> (ptr \<times> xnode) xp" where
  "Text_Parse cdata e p =
     sq (Stamp e p)
    (bnd (if cdata then ret True else StringEqual p ''<![CDATA['' False) (\<lambda>is_cdata.
     if is_cdata then
       bnd (StringEqual p ''<![CDATA['' False) (\<lambda>opened.
       if \<not> opened then fails_with TIXML_ERROR_PARSING_CDATA p e (None, XText [] True)
       else let (q, v) = read_until '']]>'' (drop 9 (the p)) [] in
         bnd (raises (ReadText e (Some q) False '']]>'' False)) (\<lambda>(r, dummy). ret (r, XText v True)))
     else bnd (raises (ReadText e p True ''<'' False)) (\<lambda>(q, v).
       ret (if live q then Some (CHR ''<'' # the q) else None, XText v False))))"

text \<open>
  A declaration: attributes that start with one of the three names are read, anything else is read over up to
  white space or the end of the tag.  The loop has as much fuel as there is text.
\<close>

definition over_it :: "string \<Rightarrow> string" where
  "over_it p = dropWhile (\<lambda>c. c \<noteq> CHR ''>'' \<and> \<not> IsWhiteSpace c) p"

fun declaration_loop :: "nat \<Rightarrow> TiXmlEncoding \<Rightarrow> ptr \<Rightarrow> string \<Rightarrow> string \<Rightarrow> string \<Rightarrow> (ptr \<times> xnode) xp" where
  "declaration_loop 0 e p version encoding standalone = fail Endless"
| "declaration_loop (Suc n) e p version encoding standalone =
     (if \<not> live p then ret (None, XDeclaration version encoding standalone)
      else if hd (the p) = CHR ''>'' then ret (Some (tl (the p)), XDeclaration version encoding standalone)
      else let q = SkipWhiteSpace e p in
        bnd (StringEqual q ''version'' True) (\<lambda>is_version.
        if is_version then bnd (Attribute_Parse False e q) (\<lambda>(r, nm, v).
          declaration_loop n e r (c_str v) encoding standalone)
        else bnd (StringEqual q ''encoding'' True) (\<lambda>is_encoding.
        if is_encoding then bnd (Attribute_Parse False e q) (\<lambda>(r, nm, v).
          declaration_loop n e r version (c_str v) standalone)
        else bnd (StringEqual q ''standalone'' True) (\<lambda>is_standalone.
        if is_standalone then bnd (Attribute_Parse False e q) (\<lambda>(r, nm, v).
          declaration_loop n e r version encoding (c_str v))
        else declaration_loop n e (Some (over_it (the q))) version encoding standalone))))"

definition Declaration_Parse :: "TiXmlEncoding \<Rightarrow> ptr \<Rightarrow> (ptr \<times> xnode) xp" where
  "Declaration_Parse e p0 =
     (let p = SkipWhiteSpace e p0 in
      if \<not> live p \<or> \<not> starts (the p) ''<?xml'' True then
        fails_with TIXML_ERROR_PARSING_DECLARATION None e (None, XDeclaration [] [] [])
      else sq (Stamp e p)
        (declaration_loop (length (the p)) e (Some (drop 5 (the p))) [] [] []))"

definition Blank :: "string \<Rightarrow> bool" where
  "Blank v = list_all IsWhiteSpace v"

section \<open>Elements\<close>

text \<open>\<open>TiXmlAttributeSet\<close>: the circular list in the order of insertion, without its sentinel.\<close>

definition Find :: "(string \<times> string) list \<Rightarrow> string \<Rightarrow> (string \<times> string) option" where
  "Find as nm = List.find (\<lambda>(n, v). c_str n = c_str nm) as"

definition Add :: "(string \<times> string) list \<Rightarrow> string \<times> string \<Rightarrow> (string \<times> string) list" where
  "Add as a = as @ [a]"

text \<open>
  Behind the \<open>>\<close> of a start tag: the content, read by \<open>rv\<close>, and the end tag, compared by its beginning.
\<close>

definition element_content :: "(ptr \<Rightarrow> (ptr \<times> xnode list) xp) \<Rightarrow> TiXmlEncoding \<Rightarrow> string \<Rightarrow> (string \<times> string) list
    \<Rightarrow> string \<Rightarrow> (ptr \<times> xnode) xp" where
  "element_content rv e nm as s =
     bnd (rv (Some s)) (\<lambda>(p, kids).
     let node = XElement nm as kids; endTag = ''</'' @ nm in
     if \<not> live p then fails_with TIXML_ERROR_READING_END_TAG p e (None, node)
     else bnd (StringEqual p endTag False) (\<lambda>closed.
       if closed then
         let q = SkipWhiteSpace e (Some (drop (length endTag) (the p))) in
         if live q \<and> hd (the q) = CHR ''>'' then ret (Some (tl (the q)), node)
         else fails_with TIXML_ERROR_READING_END_TAG q e (None, node)
       else fails_with TIXML_ERROR_READING_END_TAG p e (None, node)))"

text \<open>
  The loop over the attributes, the empty tag and the end of the start tag.  A second attribute of the same name
  is an error.
\<close>

fun element_loop :: "nat \<Rightarrow> (ptr \<Rightarrow> (ptr \<times> xnode list) xp) \<Rightarrow> TiXmlEncoding \<Rightarrow> string \<Rightarrow> (string \<times> string) list
    \<Rightarrow> ptr \<Rightarrow> (ptr \<times> xnode) xp" where
  "element_loop 0 rv e nm as p0 = fail Endless"
| "element_loop (Suc n) rv e nm as p0 =
     (let p = SkipWhiteSpace e p0; node = XElement nm as [] in
      if \<not> live p then fails_with TIXML_ERROR_READING_ATTRIBUTES p0 e (None, node)
      else if hd (the p) = CHR ''/'' then
        let s = tl (the p) in
        if s = [] \<or> hd s \<noteq> CHR ''>'' then fails_with TIXML_ERROR_PARSING_EMPTY (Some s) e (None, node)
        else ret (Some (tl s), node)
      else if hd (the p) = CHR ''>'' then element_content rv e nm as (tl (the p))
      else bnd (Attribute_Parse True e p) (\<lambda>(q, an, av).
        if \<not> live q then fails_with TIXML_ERROR_PARSING_ELEMENT p e (None, node)
        else if Find as an \<noteq> None then fails_with TIXML_ERROR_PARSING_ELEMENT p e (None, node)
        else element_loop n rv e nm (Add as (an, av)) q))"

definition Element_Parse :: "(ptr \<Rightarrow> (ptr \<times> xnode list) xp) \<Rightarrow> TiXmlEncoding \<Rightarrow> ptr \<Rightarrow> (ptr \<times> xnode) xp" where
  "Element_Parse rv e p0 =
     (let p = SkipWhiteSpace e p0; none = (None, XElement [] [] []) in
      if \<not> live p then fails_with TIXML_ERROR_PARSING_ELEMENT None e none
      else sq (Stamp e p)
       (if hd (the p) \<noteq> CHR ''<'' then fails_with TIXML_ERROR_PARSING_ELEMENT p e none
        else let p1 = SkipWhiteSpace e (Some (tl (the p))) in
          sq (check (p1 \<noteq> None) Aborted)
         (let (p2, nm) = ReadName (the p1) in
          if \<not> live p2 then fails_with TIXML_ERROR_FAILED_TO_READ_ELEMENT_NAME p1 e (None, XElement nm [] [])
          else element_loop (length (the p2)) rv e nm [] p2)))"

text \<open>
  \<open>TiXmlElement::ReadValue\<close> and the virtual \<open>Parse\<close> of the nodes.  A text that is blank is dropped; other nodes
  are linked even when their \<open>Parse\<close> fails.  The first argument bounds the recursion.
\<close>

fun ReadValue :: "nat \<Rightarrow> TiXmlEncoding \<Rightarrow> xnode list \<Rightarrow> ptr \<Rightarrow> (ptr \<times> xnode list) xp"
  and Node_Parse :: "nat \<Rightarrow> TiXmlEncoding \<Rightarrow> node_kind \<Rightarrow> ptr \<Rightarrow> (ptr \<times> xnode) xp" where
  "ReadValue 0 e kids p0 = fail Endless"
| "ReadValue (Suc n) e kids p0 =
     (let p = SkipWhiteSpace e p0 in
      if p = None then fails_with TIXML_ERROR_READING_ELEMENT_VALUE None e (None, kids)
      else if p = Some [] then ret (p, kids)
      else if hd (the p) \<noteq> CHR ''<'' then
        bnd (Text_Parse False e (if condenseWhiteSpace then p else p0)) (\<lambda>(q, node).
        ReadValue n e (case node of XText v c \<Rightarrow> if Blank v then kids else kids @ [node] | _ \<Rightarrow> kids) q)
      else bnd (StringEqual p ''</'' False) (\<lambda>closing.
        if closing then ret (p, kids)
        else case Identify e p of
            None \<Rightarrow> ret (None, kids)
          | Some k \<Rightarrow> bnd (Node_Parse n e k p) (\<lambda>(q, node). ReadValue n e (kids @ [node]) q)))"
| "Node_Parse 0 e k p = fail Endless"
| "Node_Parse (Suc n) e k p =
     (case k of
        KElement \<Rightarrow> Element_Parse (ReadValue n e []) e p
      | KCData \<Rightarrow> Text_Parse True e p
      | KComment \<Rightarrow> Comment_Parse e p
      | KDeclaration \<Rightarrow> Declaration_Parse e p
      | KUnknown \<Rightarrow> Unknown_Parse e p)"

section \<open>Documents\<close>

definition LinkEndChild :: "xnode \<Rightarrow> unit xp" where
  "LinkEndChild node = modify (\<lambda>d. d\<lparr>doc_nodes := doc_nodes d @ [node]\<rparr>)"

text \<open>A declaration settles an encoding that is not known yet.\<close>

definition declared_encoding :: "string \<Rightarrow> TiXmlEncoding" where
  "declared_encoding enc =
     (if enc = [] \<or> starts enc ''UTF-8'' True \<or> starts enc ''UTF8'' True
      then TIXML_ENCODING_UTF8 else TIXML_ENCODING_LEGACY)"

definition next_encoding :: "TiXmlEncoding \<Rightarrow> xnode \<Rightarrow> TiXmlEncoding" where
  "next_encoding e node =
     (case node of XDeclaration version encoding standalone \<Rightarrow>
        if e = TIXML_ENCODING_UNKNOWN then declared_encoding (c_str encoding) else e
      | _ \<Rightarrow> e)"

fun document_loop :: "nat \<Rightarrow> TiXmlEncoding \<Rightarrow> ptr \<Rightarrow> (TiXmlEncoding \<times> ptr) xp" where
  "document_loop 0 e p = fail Endless"
| "document_loop (Suc n) e p =
     (if \<not> live p then ret (e, p)
      else case Identify e p of
          None \<Rightarrow> ret (e, p)
        | Some k \<Rightarrow> bnd (Node_Parse (Suc (2 * length (the p))) e k p) (\<lambda>(q, node).
            sq (LinkEndChild node)
            (let e' = next_encoding e node in document_loop n e' (SkipWhiteSpace e' q))))"

text \<open>\<open>TiXmlDocument::Parse\<close> without data of an earlier parse.\<close>

definition Document_Parse :: "ptr \<Rightarrow> TiXmlEncoding \<Rightarrow> ptr xp" where
  "Document_Parse p e0 =
     sq ClearError
     (if \<not> live p then fails_with TIXML_ERROR_DOCUMENT_EMPTY None TIXML_ENCODING_UNKNOWN None
      else sq (modify (\<lambda>d. d\<lparr>stamp := the p, cursor := \<lparr>row = 0, col = 0\<rparr>\<rparr>))
       (let bom = (e0 = TIXML_ENCODING_UNKNOWN \<and> lead_bytes (the p)); e = (if bom then TIXML_ENCODING_UTF8 else e0);
            q = SkipWhiteSpace e p
        in sq (modify (\<lambda>d. if bom then d\<lparr>useMicrosoftBOM := True\<rparr> else d))
          (if q = None then fails_with TIXML_ERROR_DOCUMENT_EMPTY None TIXML_ENCODING_UNKNOWN None
           else bnd (document_loop (length (the p) + 1) e q) (\<lambda>(e', r).
             bnd (gets doc_nodes) (\<lambda>nodes.
             if nodes = [] then fails_with TIXML_ERROR_DOCUMENT_EMPTY None e' None else ret r)))))"

text \<open>
  \<open>TiXmlDocument::LoadFile\<close>: the file is read as a whole, up to its first null character, and carriage returns
  become newlines, alone or together with the newline behind them.
\<close>

fun normalize_newlines :: "string \<Rightarrow> string" where
  "normalize_newlines [] = []"
| "normalize_newlines (c # p) =
     (if c = CHR 0x0D then CHR 0x0A # normalize_newlines (skip_if CHR 0x0A p)
      else c # normalize_newlines p)"

definition LoadFile :: "files \<Rightarrow> string \<Rightarrow> TiXmlEncoding \<Rightarrow> bool xp" where
  "LoadFile fs filename encoding =
     (case fs filename of
        None \<Rightarrow> fails_with TIXML_ERROR_OPENING_FILE None TIXML_ENCODING_UNKNOWN False
      | Some file \<Rightarrow>
          sq (modify (\<lambda>d. d\<lparr>doc_nodes := []\<rparr>))
          (if file = [] then fails_with TIXML_ERROR_DOCUMENT_EMPTY None TIXML_ENCODING_UNKNOWN False
           else sq (Document_Parse (Some (normalize_newlines (c_str file))) encoding)
                   (gets (\<lambda>d. \<not> Error d))))"

section \<open>Printing\<close>

text \<open>
  \<open>EncodeString\<close>: a hexadecimal character reference is copied up to its semicolon, or up to the last character.
\<close>

fun pass_through :: "string \<Rightarrow> string \<times> string" where
  "pass_through (c # d # s) =
     (if d = CHR '';'' then ([c], d # s) else let (u, v) = pass_through (d # s) in (c # u, v))"
| "pass_through s = ([], s)"

lemma pass_through_length: "length (snd (pass_through s)) \<le> length s"
  by (induction s rule: pass_through.induct) (auto split: prod.split)

lemma pass_through_less [termination_simp]: "(u, v) = pass_through (c # s) \<Longrightarrow> s \<noteq> [] \<Longrightarrow> length v < Suc (length s)"
  using pass_through_length [of s] by (cases s) (auto split: if_splits prod.splits)

definition hex_digit :: "nat \<Rightarrow> char" where
  "hex_digit n = char_of (if n < 10 then 48 + n else 55 + n)"

definition hex_reference :: "char \<Rightarrow> string" where
  "hex_reference c = ''&#x'' @ [hex_digit (byte_of c div 16), hex_digit (byte_of c mod 16)] @ '';''"

definition encode_char :: "char \<Rightarrow> string" where
  "encode_char c =
     (if c = CHR ''&'' then ''&amp;'' else if c = CHR ''<'' then ''&lt;'' else if c = CHR ''>'' then ''&gt;''
      else if c = CHR 0x22 then ''&quot;'' else if c = CHR 0x27 then ''&apos;''
      else if byte_of c < 32 then hex_reference c else [c])"

function EncodeString :: "string \<Rightarrow> string" where
  "EncodeString [] = []"
| "EncodeString (c # s) =
     (if c = CHR ''&'' \<and> take 2 s = ''#x'' then let (u, v) = pass_through (c # s) in u @ EncodeString v
      else encode_char c @ EncodeString s)"
  by pat_completeness auto
termination
  by (relation "measure length") (auto intro!: pass_through_less)

definition indent :: "nat \<Rightarrow> string" where
  "indent depth = concat (replicate depth ''    '')"

definition Attribute_Print :: "string \<times> string \<Rightarrow> string" where
  "Attribute_Print a = (let (nm, v) = a; q = (if quote \<in> set (c_str v) then CHR 0x27 else quote) in
     c_str (EncodeString nm) @ ''='' @ [q] @ c_str (EncodeString v) @ [q])"

text \<open>The attributes from the first one on; \<open>Next\<close> takes one without name and value for the sentinel.\<close>

definition attribute_walk :: "(string \<times> string) list \<Rightarrow> (string \<times> string) list" where
  "attribute_walk as = (case as of [] \<Rightarrow> [] | a # bs \<Rightarrow> a # takeWhile (\<lambda>(n, v). \<not> (v = [] \<and> n = [])) bs)"

definition Text_Print :: "nat \<Rightarrow> string \<Rightarrow> bool \<Rightarrow> string" where
  "Text_Print depth v cdata =
     (if cdata then newline # indent depth @ ''<![CDATA['' @ c_str v @ '']]>'' @ [newline]
      else c_str (EncodeString v))"

definition Comment_Print :: "nat \<Rightarrow> string \<Rightarrow> string" where
  "Comment_Print depth v = indent depth @ ''<!--'' @ c_str v @ ''-->''"

definition Unknown_Print :: "nat \<Rightarrow> string \<Rightarrow> string" where
  "Unknown_Print depth v = indent depth @ ''<'' @ c_str v @ ''>''"

definition declaration_field :: "string \<Rightarrow> string \<Rightarrow> string" where
  "declaration_field nm v = (if v = [] then [] else nm @ ''='' @ [quote] @ c_str v @ [quote] @ '' '')"

definition Declaration_Print :: "string \<Rightarrow> string \<Rightarrow> string \<Rightarrow> string" where
  "Declaration_Print version encoding standalone = ''<?xml '' @ declaration_field ''version'' version
     @ declaration_field ''encoding'' encoding @ declaration_field ''standalone'' standalone @ ''?>''"

definition is_text :: "xnode \<Rightarrow> bool" where
  "is_text node = (case node of XText v cdata \<Rightarrow> True | _ \<Rightarrow> False)"

fun Node_Print :: "nat \<Rightarrow> xnode \<Rightarrow> string" where
  "Node_Print depth (XElement nm as kids) =
     indent depth @ ''<'' @ c_str nm @ concat (map (\<lambda>a. '' '' @ Attribute_Print a) (attribute_walk as)) @
     (case kids of
        [] \<Rightarrow> '' />''
      | [XText v cdata] \<Rightarrow> ''>'' @ Text_Print (Suc depth) v cdata @ ''</'' @ c_str nm @ ''>''
      | _ \<Rightarrow> ''>'' @ concat (map (\<lambda>k. (if is_text k then [] else [newline]) @ Node_Print (Suc depth) k) kids)
             @ [newline] @ indent depth @ ''</'' @ c_str nm @ ''>'')"
| "Node_Print depth (XText v cdata) = Text_Print depth v cdata"
| "Node_Print depth (XComment v) = Comment_Print depth v"
| "Node_Print depth (XDeclaration version encoding standalone) = Declaration_Print version encoding standalone"
| "Node_Print depth (XUnknown v) = Unknown_Print depth v"

definition Document_Print :: "xnode list \<Rightarrow> string" where
  "Document_Print nodes = concat (map (\<lambda>node. Node_Print 0 node @ [newline]) nodes)"

text \<open>\<open>TiXmlDocument::SaveFile\<close>; the file can be opened and the disk does not fill up.\<close>

definition SaveFile :: "TiXmlDocument \<Rightarrow> string \<Rightarrow> files \<Rightarrow> files" where
  "SaveFile d filename fs = fs(filename \<mapsto>
     (if useMicrosoftBOM d then [CHR 0xEF, CHR 0xBB, CHR 0xBF] else []) @ Document_Print (doc_nodes d))"

section \<open>The tree as the generator walks it\<close>

text \<open>
  \<open>RootElement\<close>, \<open>FirstChildElement\<close> and \<open>NextSiblingElement\<close> visit the elements among the children and nothing else.
\<close>

definition is_element :: "xnode \<Rightarrow> bool" where
  "is_element node = (case node of XElement nm as kids \<Rightarrow> True | _ \<Rightarrow> False)"

fun tree_of :: "xnode \<Rightarrow> xml" where
  "tree_of (XElement nm as kids) =
     Element (map (\<lambda>(n, v). (c_str n, c_str v)) (attribute_walk as)) (map tree_of (filter is_element kids))"
| "tree_of node = Element [] []"

definition RootElement :: "xnode list \<Rightarrow> xml option" where
  "RootElement nodes = map_option tree_of (List.find is_element nodes)"

text \<open>\<open>LoadXml\<close> with the document it makes: the result of \<open>LoadFile\<close> is not looked at.\<close>

definition LoadXml_file :: "CProtocol list \<Rightarrow> string \<Rightarrow> (bool \<times> CProtocol list) io" where
  "LoadXml_file vProtocol fName = (\<lambda>fs.
     case LoadFile fs (c_str fName) TIXML_ENCODING_UNKNOWN TiXmlDocument_new of
       Inl f \<Rightarrow> Inl f
     | Inr (loaded, doc) \<Rightarrow> LoadXml vProtocol (RootElement (doc_nodes doc)) fs)"

end
