(* ===== verification/AutoProto_Spec.thy ===== *)
theory AutoProto_Spec
  imports AutoProto
begin

text \<open>
  What the generator does to the files: the line loops against a plain split into lines, the place
  of an insertion, running the generator again, and the inputs on which it never returns.
\<close>

section \<open>Lines\<close>

function split_lines :: "string \<Rightarrow> string list" where
  "split_lines s = (let w = first_line s in
     if w = s then [s] else w # split_lines (drop (Suc (length w)) s))"
  by pat_completeness auto
termination
proof (relation "measure length")
  fix s :: string and w
  assume "w = first_line s" "w \<noteq> s"
  then have "s \<noteq> []" by (auto simp: first_line_def)
  then show "(drop (Suc (length w)) s, s) \<in> measure length" by (cases s) simp_all
qed simp

declare split_lines.simps [simp del]

definition file_short :: "string \<Rightarrow> bool" where
  "file_short t \<longleftrightarrow> (\<forall>l \<in> set (split_lines t). length l \<le> 1023)"

text \<open>What the loop sees of the lines: up to the first 1023 characters of the first long one.\<close>

fun seen :: "string list \<Rightarrow> string list" where
  "seen [] = []"
| "seen (l # ls) = (if 1023 < length l then [take 1023 l] else l # seen ls)"

abbreviation good :: "string \<Rightarrow> ifstream" where
  "good t \<equiv> \<lparr>unread = t, eofbit = False, failbit = False\<rparr>"

lemma getline_long: "1023 < length (first_line t) \<Longrightarrow>
    getline (good t) = (take 1023 (first_line t), \<lparr>unread = drop 1023 t, eofbit = False, failbit = True\<rparr>)"
  by (simp add: getline_def Let_def)

lemma getline_last: "first_line t = t \<Longrightarrow> length t \<le> 1023 \<Longrightarrow>
    getline (good t) = (t, \<lparr>unread = [], eofbit = True, failbit = (t = [])\<rparr>)"
  by (simp add: getline_def Let_def)

lemma getline_line: "first_line t \<noteq> t \<Longrightarrow> length (first_line t) \<le> 1023 \<Longrightarrow>
    getline (good t) = (first_line t, good (drop (Suc (length (first_line t))) t))"
  by (simp add: getline_def Let_def)

text \<open>A stream that has failed before its end stays as it is: the loop over it does not return.\<close>

definition stuck :: "ifstream \<Rightarrow> bool" where
  "stuck s \<longleftrightarrow> failbit s \<and> \<not> eofbit s"

lemma getline_stuck: "stuck s \<Longrightarrow> fst (getline s) = [] \<and> stuck (snd (getline s))"
  by (simp add: getline_def stuck_def)

lemma check_stuck_empty: "stuck s \<Longrightarrow> c_str c = [] \<Longrightarrow> checkcontent_loop c s = Some True"
  by (subst checkcontent_loop.simps) (simp add: stuck_def split_beta)

lemma check_stuck_aux: "checkcontent_loop c s = Some b \<Longrightarrow> stuck s \<longrightarrow> c_str c = []"
proof (rule checkcontent_loop.raw_induct [where P = "\<lambda>c s b. stuck s \<longrightarrow> c_str c = []"])
  fix f :: "string \<Rightarrow> ifstream \<Rightarrow> bool option" and content s b
  assume "\<And>s b y. f s b = Some y \<Longrightarrow> stuck b \<longrightarrow> c_str s = []"
    and "(if eofbit s then Some False
      else let (buffer, s') = getline s
        in if sublist (c_str content) (c_str buffer) then Some True else f content s') = Some b"
  then show "stuck s \<longrightarrow> c_str content = []"
    using getline_stuck [of s] by (auto simp: stuck_def c_str_def split_beta split: if_splits)
qed simp

lemma check_stuck: "stuck s \<Longrightarrow> c_str c \<noteq> [] \<Longrightarrow> checkcontent_loop c s = None"
  using check_stuck_aux [of c s] by (cases "checkcontent_loop c s") auto

lemma replace_stuck_aux: "replace_loop flag content ic seek go s out = Some r \<Longrightarrow> \<not> stuck s"
proof (rule replace_loop.raw_induct [where P = "\<lambda>flag content ic seek go s out r. \<not> stuck s"])
  fix f :: "string \<Rightarrow> string \<Rightarrow> bool \<Rightarrow> bool \<Rightarrow> bool \<Rightarrow> ifstream \<Rightarrow> string \<Rightarrow> string option"
    and flag content ic seek go s out r
  assume ih: "\<And>flag content ic seek go s out r. f flag content ic seek go s out = Some r \<Longrightarrow> \<not> stuck s"
    and body: "(if eofbit s then Some out
      else let (buffer, s') = getline s;
               (txt, go') = rewrite_line flag content ic seek go (c_str buffer)
           in f flag content ic seek go' s' (out @ txt)) = Some r"
  show "\<not> stuck s"
    using body getline_stuck [of s] ih by (auto simp: stuck_def split_beta split: if_splits)
qed simp

lemma replace_stuck: "stuck s \<Longrightarrow> replace_loop flag content ic seek go s out = None"
  using replace_stuck_aux [of flag content ic seek go s out]
  by (cases "replace_loop flag content ic seek go s out") auto

section \<open>The search loop\<close>

lemma first_line_in: "first_line t \<in> set (split_lines t)"
  by (subst split_lines.simps) (simp add: Let_def)

lemma split_lines_last: "first_line t = t \<Longrightarrow> split_lines t = [t]"
  by (subst split_lines.simps) simp

lemma split_lines_more: "first_line t \<noteq> t \<Longrightarrow>
    split_lines t = first_line t # split_lines (drop (Suc (length (first_line t))) t)"
  by (subst split_lines.simps) (simp add: Let_def)

lemma checkcontent_loop_lines:
  "checkcontent_loop c (good t) =
     (if \<exists>l \<in> set (seen (split_lines t)). sublist (c_str c) (c_str l) then Some True
      else if file_short t then Some False else None)"
proof (induction t rule: split_lines.induct)
  case (1 t)
  let ?w = "first_line t"
  have nonempty: "c_str c \<noteq> []" if "\<not> sublist (c_str c) l" for l
    using that by auto
  consider (long) "1023 < length ?w" | (last) "length ?w \<le> 1023" "?w = t" | (more) "length ?w \<le> 1023" "?w \<noteq> t"
    by linarith
  then show ?case
  proof cases
    case long
    have "seen (split_lines t) = [take 1023 ?w]"
      using long by (subst split_lines.simps) (simp add: Let_def)
    moreover have "\<not> file_short t"
      using long first_line_in [of t] by (auto simp: file_short_def not_le)
    moreover note long_lines = calculation
    have "checkcontent_loop c \<lparr>unread = drop 1023 t, eofbit = False, failbit = True\<rparr> = None"
      if "\<not> sublist (c_str c) (c_str (take 1023 ?w))"
      by (rule check_stuck) (use nonempty [OF that] in \<open>simp_all add: stuck_def\<close>)
    then show ?thesis
      by (subst checkcontent_loop.simps) (simp add: getline_long [OF long] long_lines)
  next
    case last
    note split_lines_last [OF last(2)]
    then show ?thesis
      using last by (subst checkcontent_loop.simps)
        (simp add: getline_last file_short_def, subst checkcontent_loop.simps, simp)
  next
    case more
    note split_lines_more [OF more(2)]
    then show ?thesis
      using more 1 [OF refl more(2)] by (subst checkcontent_loop.simps)
        (auto simp: getline_line file_short_def)
  qed
qed

section \<open>The rewriting loop\<close>

fun rewritten :: "string \<Rightarrow> string \<Rightarrow> bool \<Rightarrow> bool \<Rightarrow> bool \<Rightarrow> string list \<Rightarrow> string" where
  "rewritten flag content ic seek go [] = []"
| "rewritten flag content ic seek go (l # ls) =
     (let (txt, go') = rewrite_line flag content ic seek go (c_str l)
      in txt @ rewritten flag content ic seek go' ls)"

lemma replace_loop_lines:
  "replace_loop flag content ic seek go (good t) out =
     (if file_short t then Some (out @ rewritten flag content ic seek go (split_lines t)) else None)"
proof (induction t arbitrary: go out rule: split_lines.induct)
  case (1 t)
  let ?w = "first_line t"
  consider (long) "1023 < length ?w" | (last) "length ?w \<le> 1023" "?w = t" | (more) "length ?w \<le> 1023" "?w \<noteq> t"
    by linarith
  then show ?case
  proof cases
    case long
    then have "\<not> file_short t" using first_line_in [of t] by (auto simp: file_short_def not_le)
    then show ?thesis
      by (subst replace_loop.simps) (simp add: getline_long [OF long] replace_stuck stuck_def split_beta)
  next
    case last
    note split_lines_last [OF last(2)]
    then show ?thesis
      using last by (subst replace_loop.simps)
        (simp add: getline_last file_short_def split_beta, subst replace_loop.simps, simp)
  next
    case more
    note split_lines_more [OF more(2)]
    then show ?thesis
      using more 1 [OF refl more(2)] by (subst replace_loop.simps)
        (auto simp: getline_line file_short_def split_beta)
  qed
qed

text \<open>Inserting once, after or before the first line in which the mark is found.\<close>

definition insert_once :: "string \<Rightarrow> string \<Rightarrow> bool \<Rightarrow> string list \<Rightarrow> string list" where
  "insert_once flag content seek ls =
     (let before = takeWhile (\<lambda>l. \<not> sublist flag l) ls; rest = drop (length before) ls in
      if rest = [] then ls
      else before @ (if seek then [hd rest, content] else [content, hd rest]) @ tl rest)"

definition join_lines :: "string list \<Rightarrow> string" where
  "join_lines ls = concat (map line_of ls)"

lemma first_line_split: "first_line t \<noteq> t \<Longrightarrow> t = first_line t @ newline # drop (Suc (length (first_line t))) t"
  unfolding first_line_def by (induction t) auto

lemma join_split: "join_lines (split_lines t) = t @ [newline]"
proof (induction t rule: split_lines.induct)
  case (1 t)
  show ?case
  proof (cases "first_line t = t")
    case True
    then show ?thesis by (simp add: split_lines_last join_lines_def line_of_def)
  next
    case False
    have "t = first_line t @ newline # drop (Suc (length (first_line t))) t"
      using False by (rule first_line_split)
    then show ?thesis
      using False 1 [OF refl False]
      by (simp add: split_lines_more join_lines_def line_of_def)
  qed
qed

lemma rewritten_off: "(\<And>l. l \<in> set ls \<Longrightarrow> c_str l = l) \<Longrightarrow> rewritten flag content ic seek False ls = join_lines ls"
  by (induction ls) (simp_all add: rewrite_line_def join_lines_def line_of_def)

lemma insert_once_Cons: "insert_once flag content seek (l # ls) =
    (if sublist flag l then (if seek then [l, content] else [content, l]) @ ls
     else l # insert_once flag content seek ls)"
  by (simp add: insert_once_def Let_def)

lemma rewritten_once:
  assumes "\<And>l. l \<in> set ls \<Longrightarrow> c_str l = l" "c_str flag = flag"
  shows "rewritten flag content False seek True ls = join_lines (insert_once flag content seek ls)"
  using assms(1)
proof (induction ls)
  case Nil
  then show ?case by (simp add: join_lines_def insert_once_def)
next
  case (Cons l ls)
  have off: "rewritten flag content False sk False ls = join_lines ls" for sk
    by (rule rewritten_off) (simp add: Cons.prems)
  show ?case
    using Cons assms(2) off by (simp add: insert_once_Cons rewrite_line_def join_lines_def line_of_def)
qed

section \<open>Searching and inserting\<close>

definition found_in :: "string \<Rightarrow> string list \<Rightarrow> bool" where
  "found_in c ls \<longleftrightarrow> (\<exists>l \<in> set ls. sublist (c_str c) (c_str l))"

definition check_ends :: "files \<Rightarrow> string \<Rightarrow> string \<Rightarrow> bool" where
  "check_ends fs f c \<longleftrightarrow> c_str c = [] \<or> (\<exists>t. fs f = Some t \<and> (file_short t \<or> found_in c (seen (split_lines t))))"

lemma seen_nonempty: "ls \<noteq> [] \<Longrightarrow> seen ls \<noteq> []"
  by (cases ls) auto

lemma split_nonempty: "split_lines t \<noteq> []"
  by (subst split_lines.simps) (simp add: Let_def)

lemma found_empty: "c_str c = [] \<Longrightarrow> found_in c (seen (split_lines t))"
  using seen_nonempty [OF split_nonempty [of t]] by (auto simp: found_in_def neq_Nil_conv)

lemma checkcontent_run:
  "checkcontent f c fs =
     (if c_str c = [] \<or> (\<exists>t. fs f = Some t \<and> found_in c (seen (split_lines t))) then Inr (True, fs)
      else if check_ends fs f c then Inr (False, fs) else Inl Endless)"
proof (cases "fs f")
  case None
  have "stuck (open_in fs f)" using None by (simp add: open_in_def stuck_def)
  then show ?thesis
    using None by (simp add: checkcontent_def bnd_def gets_def returns_def check_ends_def fail_def ret_def
        check_stuck check_stuck_empty)
next
  case (Some t)
  then show ?thesis
    using found_empty [of c t] checkcontent_loop_lines [of c t]
    by (auto simp: checkcontent_def bnd_def gets_def returns_def check_ends_def fail_def ret_def open_in_def
        found_in_def)
qed

definition plain :: "string \<Rightarrow> bool" where
  "plain t \<longleftrightarrow> file_short t \<and> CHR 0x00 \<notin> set t"

lemma c_str_plain: "CHR 0x00 \<notin> set s \<Longrightarrow> c_str s = s"
  by (auto simp: c_str_def takeWhile_eq_all_conv)

lemma seen_short: "\<forall>l \<in> set ls. length l \<le> 1023 \<Longrightarrow> seen ls = ls"
  by (induction ls) auto

lemma lines_chars: "l \<in> set (split_lines t) \<Longrightarrow> set l \<subseteq> set t - {newline}"
proof (induction t rule: split_lines.induct)
  case (1 t)
  have w: "set (first_line t) \<subseteq> set t - {newline}"
    by (auto simp: first_line_def dest: set_takeWhileD)
  show ?case
  proof (cases "first_line t = t")
    case True
    then show ?thesis using 1 w by (simp add: split_lines_last)
  next
    case False
    show ?thesis
      using 1 w False by (auto simp: split_lines_more [OF False] dest!: in_set_dropD)
  qed
qed

lemma plain_lines: "plain t \<Longrightarrow> l \<in> set (split_lines t) \<Longrightarrow> c_str l = l"
  using lines_chars by (fastforce simp: plain_def intro: c_str_plain)

lemma plain_seen: "plain t \<Longrightarrow> seen (split_lines t) = split_lines t"
  by (rule seen_short) (simp add: plain_def file_short_def)

definition has_line :: "string \<Rightarrow> string \<Rightarrow> bool" where
  "has_line c t \<longleftrightarrow> (\<exists>l \<in> set (split_lines t). sublist c l)"

lemma checkcontent_plain:
  assumes "fs f = Some t" "plain t" "c_str c = c"
  shows "checkcontent f c fs = Inr (has_line c t, fs)"
  using assms found_empty [of c t] plain_lines [OF assms(2)]
  by (auto simp: checkcontent_run check_ends_def found_in_def has_line_def plain_seen)
    (auto simp: plain_def)

lemma replace_found: "checkcontent f chk fs = Inr (True, fs) \<Longrightarrow> replace f flag content chk ic seek fs = Inr (False, fs)"
  by (simp add: replace_def run_simps)

lemma tmp_name_other: "tmp_name f \<noteq> f"
  by (metis append_Cons append_Nil length_append less_add_Suc1 less_irrefl list.size(4) tmp_name_def
      add.commute add_Suc_right length_Cons not_add_less1 trans_less_add2)

lemma replace_absent:
  assumes "checkcontent f chk fs = Inr (False, fs)" "fs f = Some t" "file_short t"
  shows "replace f flag content chk ic seek fs =
    Inr (True, fs(tmp_name f := None, f \<mapsto> contents fs (tmp_name f) @ rewritten flag content ic seek True (split_lines t)))"
  using assms tmp_name_other [of f] replace_loop_lines [of flag content ic seek True t "[]"]
  by (auto simp: replace_def bnd_def sq_def gets_def returns_def open_in_def ret_def append_file_def modify_def
      shell_rm_def shell_mv_def fun_eq_iff)

section \<open>Inserting a line, and again\<close>

definition one_line :: "string \<Rightarrow> bool" where
  "one_line c \<longleftrightarrow> newline \<notin> set c \<and> CHR 0x00 \<notin> set c \<and> length c \<le> 1023"

lemma first_line_append: "newline \<notin> set l \<Longrightarrow> first_line (l @ newline # r) = l"
  by (simp add: first_line_def takeWhile_append)

lemma split_join: "\<forall>l \<in> set ls. newline \<notin> set l \<Longrightarrow> split_lines (join_lines ls) = ls @ [[]]"
proof (induction ls)
  case Nil
  show ?case by (simp add: join_lines_def split_lines_last first_line_def)
next
  case (Cons l ls)
  have "join_lines (l # ls) = l @ newline # join_lines ls" by (simp add: join_lines_def line_of_def)
  moreover have "first_line (l @ newline # join_lines ls) = l"
    using Cons.prems by (simp add: first_line_append)
  ultimately show ?case
    using Cons by (simp add: split_lines_more)
qed

lemma set_insert_once: "set (insert_once flag content seek ls) =
    set ls \<union> (if \<exists>l \<in> set ls. sublist flag l then {content} else {})"
  by (induction ls) (auto simp: insert_once_Cons, simp_all add: insert_once_def)

lemma subseq_insert_once: "subseq ls (insert_once flag content seek ls)"
proof (induction ls)
  case (Cons l ls)
  then show ?case by (auto simp: insert_once_Cons)
qed simp

lemma insert_once_plain:
  fixes flag :: string and seek :: bool
  assumes t: "plain t" and c: "one_line content"
  defines "t' \<equiv> join_lines (insert_once flag content seek (split_lines t))"
  shows "plain t'" "has_line x t \<Longrightarrow> has_line x t'" "has_line flag t \<Longrightarrow> has_line content t'"
    "subseq (split_lines t) (split_lines t')"
proof -
  have free: "\<forall>l \<in> set (insert_once flag content seek (split_lines t)). newline \<notin> set l"
    using lines_chars c by (fastforce simp: set_insert_once one_line_def split: if_splits)
  have lines: "split_lines t' = insert_once flag content seek (split_lines t) @ [[]]"
    using split_join [OF free] by (simp add: t'_def)
  have "CHR 0x00 \<notin> set l" if "l \<in> set (insert_once flag content seek (split_lines t))" for l
    using that lines_chars [of l t] t c
    by (auto simp: set_insert_once one_line_def plain_def split: if_splits)
  then have nul: "CHR 0x00 \<notin> set t'"
    by (auto simp: t'_def join_lines_def line_of_def newline_def)
  show "plain t'"
    using t c nul by (auto simp: plain_def file_short_def lines set_insert_once one_line_def split: if_splits)
  show "has_line x t \<Longrightarrow> has_line x t'" "has_line flag t \<Longrightarrow> has_line content t'"
    by (auto simp: has_line_def lines set_insert_once)
  show "subseq (split_lines t) (split_lines t')"
    unfolding lines by (rule subseq_rev_drop_many [OF subseq_insert_once])
qed

lemma replace_plain:
  assumes "fs f = Some t" "plain t" "fs (tmp_name f) = None" "c_str flag = flag" "c_str chk = chk"
  shows "replace f flag content chk False seek fs =
    (if has_line chk t then Inr (False, fs)
     else Inr (True, fs(f \<mapsto> join_lines (insert_once flag content seek (split_lines t)))))"
proof (cases "has_line chk t")
  case True
  then show ?thesis
    using assms by (simp add: replace_found checkcontent_plain)
next
  case False
  have "fs(tmp_name f := None) = fs" using assms(3) by auto
  moreover have "rewritten flag content False seek True (split_lines t) =
      join_lines (insert_once flag content seek (split_lines t))"
    using assms(2,4) plain_lines by (intro rewritten_once) auto
  ultimately show ?thesis
    using assms False by (simp add: replace_absent checkcontent_plain contents_def plain_def)
qed

text \<open>One line added under its own text: the state of a file that already has the mark.\<close>

lemma add_line:
  assumes "fs f = Some t" "plain t" "fs (tmp_name f) = None" "one_line c" "has_line flag t" "c_str flag = flag"
  shows "\<exists>b t'. replace f flag c c False seek fs = Inr (b, fs(f \<mapsto> t')) \<and> plain t' \<and> has_line c t' \<and>
    (\<forall>x. has_line x t \<longrightarrow> has_line x t') \<and> subseq (split_lines t) (split_lines t')"
proof -
  have "c_str c = c" using assms(4) by (simp add: one_line_def c_str_plain)
  then show ?thesis
    using assms insert_once_plain [OF assms(2,4), where flag = flag and seek = seek]
    by (cases "has_line c t") (auto simp: replace_plain intro: exI [of _ t] map_upd_triv [symmetric])
qed

lemma add_line_again:
  assumes "fs f = Some t" "plain t" "fs (tmp_name f) = None" "one_line c" "has_line c t"
    "c_str flag = flag"
  shows "replace f flag c c False seek fs = Inr (False, fs)"
  using assms by (simp add: replace_plain one_line_def c_str_plain)

section \<open>Properties\<close>

text \<open>C27: The generator's search for a text in a file returns exactly when the text is empty, or the
  file exists and either has no line of more than 1023 characters or shows the text before the end
  of the first 1023 characters of its first long line.  When it returns, it says whether a line
  that it has seen contains the text.  On a missing file, or past a long line, it never
  returns.\<close>

theorem checkcontent_result:
  "checkcontent f c fs =
     (if c_str c = [] \<or> (\<exists>t. fs f = Some t \<and> found_in c (seen (split_lines t))) then Inr (True, fs)
      else if \<exists>t. fs f = Some t \<and> file_short t then Inr (False, fs) else Inl Endless)"
  unfolding checkcontent_run check_ends_def by auto

text \<open>The rewriting of a file ends whenever the search before it ends: it then leaves a result in
  the file, and nothing else of the file system is different afterwards than the file and the temporary
  file.\<close>

theorem replace_ends:
  "(\<exists>b fs'. replace f flag content chk ic seek fs = Inr (b, fs') \<and>
      (\<forall>g. g \<noteq> f \<and> g \<noteq> tmp_name f \<longrightarrow> fs' g = fs g)) \<longleftrightarrow> check_ends fs f chk"
proof (cases "checkcontent f chk fs")
  case (Inl e)
  then show ?thesis
    by (auto simp: replace_def run_simps checkcontent_run split: if_splits)
next
  case (Inr p)
  then have ends: "check_ends fs f chk" and fs: "snd p = fs"
    by (auto simp: checkcontent_run check_ends_def split: if_splits)
  show ?thesis
  proof (cases "fst p")
    case True
    then have "checkcontent f chk fs = Inr (True, fs)" using Inr fs by (cases p) simp
    then show ?thesis using ends replace_found by fastforce
  next
    case False
    then have no: "checkcontent f chk fs = Inr (False, fs)" using Inr fs by (cases p) simp
    then obtain t where "fs f = Some t" "file_short t"
      by (auto simp: checkcontent_run check_ends_def split: if_splits)
    then show ?thesis using ends replace_absent [OF no, of t flag content ic seek] by auto
  qed
qed

text \<open>C23: In a file with lines of at most 1023 characters and no null character, and without a left-over
  temporary file, a text that is not there yet is inserted exactly once, after (or before) the first
  line that contains the mark; every other line stays, and one empty line is added at the end.\<close>

theorem replace_inserts:
  assumes "fs f = Some t" "plain t" "fs (tmp_name f) = None" "c_str flag = flag" "c_str chk = chk"
    and "\<not> has_line chk t" "split_lines t = before @ l # after" "sublist flag l" "\<forall>l \<in> set before. \<not> sublist flag l"
  shows "replace f flag content chk False seek fs =
    Inr (True, fs(f \<mapsto> join_lines (before @ (if seek then [l, content] else [content, l]) @ after)))"
proof -
  have "insert_once flag content seek (split_lines t) = before @ (if seek then [l, content] else [content, l]) @ after"
    using assms(7-9) by (simp add: insert_once_def Let_def takeWhile_append2)
  then show ?thesis
    using assms by (simp add: replace_plain)
qed

theorem replace_inserts_witness:
  "replace ''Makefile'' ''virtual.o'' ''x.o'' ''x.o'' False True [''Makefile'' \<mapsto> ''a'' @ newline # ''virtual.o'']
     = Inr (True, [''Makefile'' \<mapsto> ''a'' @ newline # ''virtual.o'' @ newline # ''x.o'' @ [newline]])"
proof -
  let ?t = "''a'' @ newline # ''virtual.o''" and ?fs = "[''Makefile'' \<mapsto> ''a'' @ newline # ''virtual.o'']"
  have split: "split_lines ?t = [''a''] @ ''virtual.o'' # []"
    by (simp add: split_lines_more split_lines_last first_line_def newline_def)
  have "plain ?t" "\<not> has_line ''x.o'' ?t"
    unfolding plain_def file_short_def has_line_def split by (simp_all add: newline_def sublist_code)
  then have "replace ''Makefile'' ''virtual.o'' ''x.o'' ''x.o'' False True ?fs =
    Inr (True, ?fs(''Makefile'' \<mapsto> join_lines ([''a''] @ (if True then [''virtual.o'', ''x.o''] else [''x.o'', ''virtual.o'']) @ [])))"
    by (intro replace_inserts [OF _ _ _ _ _ _ split]) (simp_all add: tmp_name_def c_str_def sublist_code)
  then show ?thesis by (simp add: join_lines_def line_of_def)
qed

text \<open>C26: A protocol is added to a \<open>protocol.h\<close> with lines of at most 1023 characters, no null character and the text \<open>};\<close> in
  one of its lines, when no temporary file is left over and the text of the opcode (with the note behind it) has no newline and
  no null character and fits into such a line, and so, when an answer is asked for, has the opcode of the answer.  Then the
  opcode, and the one of the answer when it is asked for, are each in a line of the file, all lines that it had are still
  there in their order, and generating the same protocol a second time leaves all files as they are.\<close>

theorem autoBuildProtocol_twice:
  assumes h: "fs ''protocol.h'' = Some t" "plain t" "fs (tmp_name ''protocol.h'') = None" "has_line ''};'' t"
    and lines: "one_line (protocol_line name number note)" "retp \<Longrightarrow> one_line (tab # replace_first ''S'' name @ '','')"
  shows "\<exists>fs' t'. autoBuildProtocol name number retp note fs = Inr (True, fs') \<and>
     autoBuildProtocol name number retp note fs' = Inr (True, fs') \<and>
     fs' = fs(''protocol.h'' \<mapsto> t') \<and> has_line (protocol_line name number note) t' \<and>
     (retp \<longrightarrow> has_line (tab # replace_first ''S'' name @ '','') t') \<and> subseq (split_lines t) (split_lines t')"
proof -
  define c1 c2 where "c1 = protocol_line name number note"
    and "c2 = (if retp then tab # replace_first ''S'' name @ '','' else c1)"
  have c: "one_line c1" "one_line c2" using lines by (simp_all add: c1_def c2_def)
  have flag: "c_str ''};'' = ''};''" by (simp add: c_str_def)
  note run = autoBuildProtocol_def Let_def c1_def [symmetric] c2_def [symmetric] sq_def bnd_def ret_def
  obtain b1 t1 where r1: "replace ''protocol.h'' ''};'' c1 c1 False False fs = Inr (b1, fs(''protocol.h'' \<mapsto> t1))"
    and t1: "plain t1" "has_line c1 t1" "\<forall>x. has_line x t \<longrightarrow> has_line x t1" "subseq (split_lines t) (split_lines t1)"
    using add_line [OF h(1,2,3) c(1) h(4) flag] by blast
  have tmp: "(fs(''protocol.h'' \<mapsto> u)) (tmp_name ''protocol.h'') = None" for u
    using h(3) tmp_name_other by simp
  obtain b2 t2 where r2: "replace ''protocol.h'' ''};'' c2 c2 False False (fs(''protocol.h'' \<mapsto> t1)) =
      Inr (b2, fs(''protocol.h'' \<mapsto> t2))"
    and t2: "plain t2" "has_line c2 t2" "\<forall>x. has_line x t1 \<longrightarrow> has_line x t2" "subseq (split_lines t1) (split_lines t2)"
    using add_line [of "fs(''protocol.h'' \<mapsto> t1)" "''protocol.h''" t1 c2 "''};''" False] t1 tmp c(2) h(4) flag
    by auto
  have again: "replace ''protocol.h'' ''};'' c c False False (fs(''protocol.h'' \<mapsto> t2)) = Inr (False, fs(''protocol.h'' \<mapsto> t2))"
    if "c = c1 \<or> c = c2" for c
    using that c t1 t2 tmp flag add_line_again [of "fs(''protocol.h'' \<mapsto> t2)" "''protocol.h''" t2 c "''};''" False] by auto
  have "autoBuildProtocol name number retp note fs = Inr (True, fs(''protocol.h'' \<mapsto> t2))"
    by (simp add: run r1 r2)
  moreover have "autoBuildProtocol name number retp note (fs(''protocol.h'' \<mapsto> t2)) = Inr (True, fs(''protocol.h'' \<mapsto> t2))"
    by (simp add: run again)
  moreover have "subseq (split_lines t) (split_lines t2)" using t1(4) t2(4) by (rule subseq_order.trans)
  ultimately show ?thesis
    using t1 t2 by (auto simp: c1_def c2_def)
qed

theorem autoBuildProtocol_twice_witness:
  "\<exists>fs' t'. autoBuildProtocol ''CT_X'' ''auto'' True ''x'' [''protocol.h'' \<mapsto> ''};''] = Inr (True, fs') \<and>
     autoBuildProtocol ''CT_X'' ''auto'' True ''x'' fs' = Inr (True, fs') \<and>
     fs' = [''protocol.h'' \<mapsto> t'] \<and> has_line (tab # ''CT_X, //x'') t' \<and> has_line (tab # ''ST_X,'') t'"
proof -
  have split: "split_lines ''};'' = [''};'']"
    by (simp add: split_lines_last first_line_def newline_def)
  have "plain ''};''" "has_line ''};'' ''};''"
    unfolding plain_def file_short_def has_line_def split by simp_all
  moreover have "one_line (protocol_line ''CT_X'' ''auto'' ''x'')" "one_line (tab # replace_first ''S'' ''CT_X'' @ '','')"
    by (simp_all add: one_line_def protocol_line_def replace_first_def tab_def newline_def)
  ultimately have "\<exists>fs' t'. autoBuildProtocol ''CT_X'' ''auto'' True ''x'' [''protocol.h'' \<mapsto> ''};''] = Inr (True, fs') \<and>
     autoBuildProtocol ''CT_X'' ''auto'' True ''x'' fs' = Inr (True, fs') \<and>
     fs' = [''protocol.h'' \<mapsto> ''};''](''protocol.h'' \<mapsto> t') \<and> has_line (protocol_line ''CT_X'' ''auto'' ''x'') t' \<and>
     (True \<longrightarrow> has_line (tab # replace_first ''S'' ''CT_X'' @ '','') t') \<and> subseq (split_lines ''};'') (split_lines t')"
    by (intro autoBuildProtocol_twice) (simp_all add: tmp_name_def)
  then show ?thesis by (auto simp: protocol_line_def replace_first_def)
qed

text \<open>Adding a handler while the file \<open>handler/MSGHANDLE\<close> does not exist never returns: the search in
  it waits for the end of a file that was never opened.\<close>

theorem handler_without_MSGHANDLE:
  assumes "fs ''handler/MSGHANDLE'' = None" "handler_file sFile sHandler \<noteq> ''handler/MSGHANDLE''"
  shows "autoBuildHandler pName sFile sHandler fs = Inl Endless"
proof -
  define cpp where "cpp = handler_file sFile sHandler"
  define head where "head = handler_head sHandler"
  have neq: "cpp \<noteq> ''handler/MSGHANDLE''" using assms(2) by (simp add: cpp_def)
  have missing: "checkcontent ''handler/MSGHANDLE'' (msghandle_line pName sHandler) fs' = Inl Endless"
    if "fs' ''handler/MSGHANDLE'' = None" for fs'
    using that by (simp add: checkcontent_run check_ends_def msghandle_line_def c_str_def)
  have search: "checkcontent cpp head fs' = Inr (True, fs') \<or> checkcontent cpp head fs' = Inr (False, fs') \<or>
      checkcontent cpp head fs' = Inl Endless" for fs'
    by (auto simp: checkcontent_run)
  show ?thesis
    unfolding autoBuildHandler_def Let_def cpp_def [symmetric] head_def [symmetric]
      append_file_def modify_def bnd_def sq_def gets_def ret_def
    using search [of "fs(cpp \<mapsto> contents fs cpp @ [])"] neq assms(1)
      search [of "fs(cpp \<mapsto> handler_prologue)"]
    by (auto simp: missing contents_def)
qed

theorem handler_without_MSGHANDLE_witness:
  "autoBuildHandler ''CT_X'' ''auto'' ''x'' Map.empty = Inl Endless"
  by (rule handler_without_MSGHANDLE) (simp_all add: handler_file_def)

section \<open>The XML description\<close>

definition enum_xml :: "CEnum \<Rightarrow> xml" where
  "enum_xml e = Element [(''name'', en_name e), (''number'', en_number e), (''note'', en_note e)] []"

definition member_xml :: "CMember \<Rightarrow> xml" where
  "member_xml m = Element [(''name'', mem_name m), (''type'', mem_type m), (''typename'', mem_typen m),
     (''size'', mem_size m), (''note'', mem_note m)] (map enum_xml (vec_enum m))"

definition structure_xml :: "CStructure \<Rightarrow> xml" where
  "structure_xml st = Element [(''name'', str_name st), (''constructor'', ishas_cons st), (''operator'', ishas_op st),
     (''note'', str_note st)] (map member_xml (vec_member st))"

definition protocol_xml :: "CProtocol \<Rightarrow> xml" where
  "protocol_xml p = Element [(''name'', pro_name p), (''number'', pro_number p), (''handler'', pro_handler p),
     (''return_protocol'', return_protocol p), (''file'', pro_file p), (''note'', pro_note p)]
     [structure_xml (pro_structure p)]"

definition wf_member :: "CMember \<Rightarrow> bool" where
  "wf_member m \<longleftrightarrow> (mem_type m = ''enum'' \<or> vec_enum m = []) \<and>
     ''enum'' \<notin> {mem_name m, mem_typen m, mem_size m, mem_note m}"

lemma load_enum_xml: "load_enum (enum_xml e) = e"
  by (cases e) (simp add: load_enum_def enum_xml_def enumeration_attr_def CEnum_new_def)

lemma member_attr_plain: "v \<noteq> ''enum'' \<Longrightarrow> member_attr es (n, v) cmr =
    (if n = ''name'' then cmr\<lparr>mem_name := v\<rparr> else if n = ''type'' then cmr\<lparr>mem_type := v\<rparr>
     else if n = ''typename'' then cmr\<lparr>mem_typen := v\<rparr> else if n = ''note'' then cmr\<lparr>mem_note := v\<rparr>
     else if n = ''size'' then cmr\<lparr>mem_size := v\<rparr> else cmr)"
  by (simp add: member_attr_def)

lemma member_attr_type: "member_attr (map enum_xml es) (''type'', v) (cmr\<lparr>vec_enum := []\<rparr>) =
    (if v = ''enum'' then cmr\<lparr>mem_type := v, vec_enum := es\<rparr> else cmr\<lparr>mem_type := v, vec_enum := []\<rparr>)"
  by (simp add: member_attr_def Let_def o_def load_enum_xml)

lemma load_member_xml:
  assumes "wf_member m"
  shows "load_member (member_xml m) = m"
proof -
  have neq: "mem_name m \<noteq> ''enum''" "mem_typen m \<noteq> ''enum''" "mem_size m \<noteq> ''enum''" "mem_note m \<noteq> ''enum''"
    using assms by (auto simp: wf_member_def)
  have "member_attr (map enum_xml (vec_enum m)) (''type'', mem_type m) (CMember_new\<lparr>mem_name := mem_name m\<rparr>)
      = CMember_new\<lparr>mem_name := mem_name m, mem_type := mem_type m, vec_enum := vec_enum m\<rparr>"
    using assms member_attr_type [of "vec_enum m" "mem_type m" "CMember_new\<lparr>mem_name := mem_name m\<rparr>"]
    by (auto simp: CMember_new_def wf_member_def)
  then have "load_member (member_xml m) = CMember_new\<lparr>mem_name := mem_name m, mem_type := mem_type m,
      vec_enum := vec_enum m, mem_typen := mem_typen m, mem_size := mem_size m, mem_note := mem_note m\<rparr>"
    by (simp add: load_member_def member_xml_def member_attr_plain neq)
  then show ?thesis by (cases m) (simp add: CMember_new_def)
qed

lemma load_structure_xml: "\<forall>m \<in> set (vec_member st). wf_member m \<Longrightarrow>
    load_structure (structure_xml st) CStructure_new = st"
  by (cases st) (simp add: load_structure_def structure_xml_def structure_attr_def CStructure_new_def
      map_idI load_member_xml o_def)

text \<open>Loading the XML form of a list of protocols gives back exactly these protocols, when enumerations
  are attached to members of type \<open>enum\<close> only and no other attribute of a member has the value \<open>enum\<close>.\<close>

theorem LoadXml_roundtrip:
  assumes "\<forall>p \<in> set ps. \<forall>m \<in> set (vec_member (pro_structure p)). wf_member m"
  shows "LoadXml [] (Some (Element [] (map protocol_xml ps))) fs = Inr ((True, ps), fs)"
proof -
  have "load_protocol (protocol_xml p) = p" if "\<forall>m \<in> set (vec_member (pro_structure p)). wf_member m" for p
    using that load_structure_xml [of "pro_structure p"]
    by (cases p) (simp add: load_protocol_def protocol_xml_def protocol_attr_def CProtocol_new_def)
  then have "map load_protocol (map protocol_xml ps) = ps"
    using assms by (simp add: map_idI o_def)
  then show ?thesis by (simp add: LoadXml_def ret_def)
qed

definition login_member :: CMember where
  "login_member = \<lparr>mem_name = ''m_type'', mem_type = ''enum'', mem_typen = ''eLogin'', mem_size = [], mem_note = ''x'',
     vec_enum = [\<lparr>en_name = ''eTEACHER'', en_number = ''auto'', en_note = []\<rparr>]\<rparr>"

theorem LoadXml_roundtrip_witness:
  "LoadXml [] (Some (Element [] [protocol_xml (CProtocol_new\<lparr>pro_name := ''CT_X'',
       pro_structure := CStructure_new\<lparr>vec_member := [login_member]\<rparr>\<rparr>)])) Map.empty =
     Inr ((True, [CProtocol_new\<lparr>pro_name := ''CT_X'', pro_structure := CStructure_new\<lparr>vec_member := [login_member]\<rparr>\<rparr>]),
       Map.empty)"
  using LoadXml_roundtrip [of "[CProtocol_new\<lparr>pro_name := ''CT_X'',
     pro_structure := CStructure_new\<lparr>vec_member := [login_member]\<rparr>\<rparr>]" Map.empty]
  by (simp add: wf_member_def login_member_def)

text \<open>Of several \<open>enum\<close> members of a structure only the declaration of the last one is generated, whatever
  the members before it are.\<close>

theorem last_enum_only:
  assumes "mem_type m = ''enum''" "\<forall>x \<in> set ms2. mem_type x \<noteq> ''enum''"
  shows "snd (build_members (ms @ m # ms2) members enums content) =
    (enum_lines (vec_enum m) (newline # ''//'' @ mem_note m @ [newline] @ ''enum '' @ mem_typen m @ '' {'' @ [newline]),
     ''enum '' @ mem_typen m @ '' {'')"
proof -
  have tail: "snd (build_members ms2 me e c) = (e, c)" for me e c
    using assms(2) by (induction ms2 arbitrary: me) auto
  show ?thesis
    by (induction ms arbitrary: members enums content) (simp_all add: assms(1) tail)
qed

theorem last_enum_only_witness:
  "snd (build_members [login_member\<lparr>vec_enum := []\<rparr>, login_member] [] [] []) =
    (enum_lines (vec_enum login_member) (newline # ''//x'' @ [newline] @ ''enum eLogin {'' @ [newline]), ''enum eLogin {'')"
  using last_enum_only [of login_member "[]" "[login_member\<lparr>vec_enum := []\<rparr>]" "[]" "[]" "[]"]
  by (simp add: login_member_def)

end
