(* ===== verification/TinyXml_Spec.thy ===== *)
theory TinyXml_Spec
  imports TinyXml AutoProto_Spec
begin

text \<open>
  The XML parser of the generator.  The parser ends on every text, unless it counts columns over a byte \<open>0xEF\<close> of a
  UTF-8 text that is cut off behind it; a document that is printed is parsed back; the generator
  gets from a saved file the protocols that were put into it; and the inputs on which the parser stops the program.
\<close>

section \<open>The parser ends\<close>

text \<open>\<open>ends m Q s\<close>: the run does not stay in a loop, and \<open>Q\<close> holds of what it returns, if it returns.\<close>

definition ends :: "('s, 'a) prog \<Rightarrow> ('a \<Rightarrow> 's \<Rightarrow> bool) \<Rightarrow> 's \<Rightarrow> bool" where
  "ends m Q s = (case m s of Inl f \<Rightarrow> f \<noteq> Endless | Inr (x, t) \<Rightarrow> Q x t)"

named_theorems ends_simps \<open>equations of \<open>ends\<close>\<close>

lemma ends_ret [ends_simps]: "ends (ret x) Q s = Q x s"
  by (simp add: ends_def ret_def)

lemma ends_fail [ends_simps]: "ends (fail f) Q s = (f \<noteq> Endless)"
  by (simp add: ends_def fail_def)

lemma ends_bnd [ends_simps]: "ends (bnd m f) Q s = ends m (\<lambda>x. ends (f x) Q) s"
  by (auto simp: ends_def bnd_def split: sum.splits prod.splits)

lemma ends_sq [ends_simps]: "ends (sq m n) Q s = ends m (\<lambda>_. ends n Q) s"
  by (simp add: sq_def ends_bnd)

lemma ends_gets [ends_simps]: "ends (gets f) Q s = Q (f s) s"
  by (simp add: ends_def gets_def)

lemma ends_modify [ends_simps]: "ends (modify f) Q s = Q () (f s)"
  by (simp add: ends_def modify_def)

lemma ends_check [ends_simps]: "ends (check b f) Q s = (if b then Q () s else f \<noteq> Endless)"
  by (simp add: check_def ends_ret ends_fail)

lemma ends_raises [ends_simps]: "ends (raises x) Q s = (case x of Inl f \<Rightarrow> f \<noteq> Endless | Inr y \<Rightarrow> Q y s)"
  by (simp add: raises_def ends_ret ends_fail split: sum.split)

lemma ends_StringEqual [ends_simps]:
  "ends (StringEqual p tag ci) Q s = (live p \<longrightarrow> Q (starts (the p) tag ci) s)"
  by (simp add: StringEqual_def ends_simps)

lemma ends_mono: "ends m Q s \<Longrightarrow> (\<And>x t. Q x t \<Longrightarrow> R x t) \<Longrightarrow> ends m R s"
  by (auto simp: ends_def split: sum.splits)

text \<open>Where the columns can be counted to the end: neither of the last two bytes is \<open>0xEF\<close>.\<close>

definition no_cut_mark :: "string \<Rightarrow> bool" where
  "no_cut_mark s = (CHR 0xEF \<notin> set (drop (length s - 2) s))"

lemma no_cut_mark_drop: "no_cut_mark s \<Longrightarrow> no_cut_mark (drop k s)"
proof -
  have "length s - 2 \<le> length s - k - 2 + k" by arith
  then show "no_cut_mark s \<Longrightarrow> no_cut_mark (drop k s)"
    using set_drop_subset_set_drop [of "length s - 2" "length s - k - 2 + k" s]
    by (auto simp: no_cut_mark_def)
qed

lemma stamp_step_cases:
  assumes "p \<noteq> []" "no_cut_mark p"
  shows "\<exists>k r' c'. stamp_step e ts p r c = (drop (Suc k) p, r', c')"
proof -
  obtain b q where p: "p = b # q" using assms(1) by (cases p) auto
  have skip: "\<exists>k. skip_if x q = drop k q" for x
    by (cases q) (auto simp: skip_if_def intro: exI [of _ 0] exI [of _ 1])
  obtain n where "utf8ByteTable b = Suc n" using utf8ByteTable_pos [of b] by (cases "utf8ByteTable b") auto
  moreover have "2 \<le> length q" if "b = CHR 0xEF"
  proof (rule ccontr)
    assume "\<not> 2 \<le> length q"
    then have "length p - 2 = 0" by (simp add: p)
    then show False using assms(2) that by (simp add: no_cut_mark_def p)
  qed
  ultimately show ?thesis
    using skip [of "CHR 0x0A"] skip [of "CHR 0x0D"]
    by (auto simp: stamp_step_def Let_def p intro: exI [of _ 0] exI [of _ 2])
qed

lemma stamp_loop_ends:
  "no_cut_mark p \<Longrightarrow> \<exists>k r' c'. stamp_loop e ts now p r c = Some (drop k p, r', c')"
proof (induction "length p" arbitrary: p r c rule: less_induct)
  case less
  show ?case
  proof (cases "length now < length p")
    case True
    then have "p \<noteq> []" by auto
    then obtain k r' c' where step: "stamp_step e ts p r c = (drop (Suc k) p, r', c')"
      using stamp_step_cases less.prems by blast
    obtain j r2 c2 where "stamp_loop e ts now (drop (Suc k) p) r' c' = Some (drop j (drop (Suc k) p), r2, c2)"
      using less.hyps [of "drop (Suc k) p"] no_cut_mark_drop [OF less.prems] \<open>p \<noteq> []\<close> by fastforce
    then show ?thesis using True step by (subst stamp_loop.simps) auto
  next
    case False
    then show ?thesis by (subst stamp_loop.simps) (auto intro: exI [of _ 0])
  qed
qed

definition countable_text :: "TiXmlDocument \<Rightarrow> bool" where
  "countable_text d = no_cut_mark (stamp d)"

lemma countable_simps [simp]:
  "countable_text (d\<lparr>errorId := x\<rparr>) = countable_text d"
  "countable_text (d\<lparr>errorLocation := l\<rparr>) = countable_text d"
  "countable_text (d\<lparr>doc_nodes := ns\<rparr>) = countable_text d"
  "countable_text (d\<lparr>useMicrosoftBOM := b\<rparr>) = countable_text d"
  "countable_text (d\<lparr>cursor := c\<rparr>) = countable_text d"
  "countable_text (d\<lparr>stamp := q\<rparr>) = no_cut_mark q"
  by (simp_all add: countable_text_def)

lemma ends_Stamp: "countable_text d \<Longrightarrow> (\<And>t. countable_text t \<Longrightarrow> Q () t) \<Longrightarrow> ends (Stamp e p) Q d"
  using stamp_loop_ends [of "stamp d" e "tabsize d" "the p" "row (cursor d)" "col (cursor d)"]
  by (auto simp: Stamp_def ends_simps returns_def countable_text_def no_cut_mark_drop split: option.split)

lemma ends_SetError: "countable_text d \<Longrightarrow> (\<And>t. countable_text t \<Longrightarrow> Q () t) \<Longrightarrow> ends (SetError err p e) Q d"
  by (auto simp: SetError_def ends_simps intro!: ends_Stamp)

lemma ends_fails_with: "countable_text d \<Longrightarrow> (\<And>t. countable_text t \<Longrightarrow> Q x t) \<Longrightarrow> ends (fails_with err p e x) Q d"
  by (simp add: fails_with_def ends_simps ends_SetError)

text \<open>How much text is left behind a pointer; every parser leaves less than it was given.\<close>

definition left :: "ptr \<Rightarrow> nat" where
  "left p = (case p of None \<Rightarrow> 0 | Some q \<Rightarrow> length q)"

lemma left_simps [simp]: "left None = 0" "left (Some q) = length q"
  by (simp_all add: left_def)

lemma live_simps [simp]: "\<not> live None" "live (Some q) = (q \<noteq> [])"
  by (simp_all add: live_def)

lemma live_left: "live p = (0 < left p)"
  by (cases p) simp_all

lemma live_length: "live p \<Longrightarrow> length (the p) = left p"
  by (cases p) simp_all

lemma live_the: "live p \<Longrightarrow> the p \<noteq> []"
  by (cases p) simp_all

lemma skip_white_length: "length (skip_white e p) \<le> length p"
  by (induction e p rule: skip_white.induct) (auto intro: le_SucI order_trans)

lemma left_SkipWhiteSpace: "left (SkipWhiteSpace e p) \<le> left p"
  by (cases p) (simp_all add: SkipWhiteSpace_def skip_white_length)

lemma ReadName_left: "ReadName p = (q, nm) \<Longrightarrow> live q \<Longrightarrow> left q < length p"
  by (cases p) (auto simp: ReadName_def name_start_def name_char_def IsAlpha_def IsAlphaNum_def
      length_dropWhile_le le_imp_less_Suc split: if_splits)

text \<open>One round of the two loops of \<open>ReadText\<close>.\<close>

lemma read_keep_end: "p = [] \<or> starts p endTag ci \<Longrightarrow> read_keep e endTag ci p text = Inr (Some p, text)"
  by (subst read_keep.simps) simp

lemma read_keep_char:
  assumes "p \<noteq> []" "\<not> starts p endTag ci"
  shows "read_keep e endTag ci p text = (case GetChar e p of Inl f \<Rightarrow> Inl f | Inr (None, v) \<Rightarrow> Inr (None, text @ v)
     | Inr (Some q, v) \<Rightarrow> read_keep e endTag ci q (text @ v))"
  using assms by (subst read_keep.simps) simp

lemma read_condense_end: "p = [] \<or> starts p endTag ci \<Longrightarrow> read_condense e endTag ci p w text = Inr (Some p, text)"
  by (subst read_condense.simps) simp

lemma read_condense_white: "\<not> starts (c # p) endTag ci \<Longrightarrow> IsWhiteSpace c \<Longrightarrow>
    read_condense e endTag ci (c # p) w text = read_condense e endTag ci p True text"
  by (subst read_condense.simps) simp

lemma read_condense_char:
  assumes "p \<noteq> []" "\<not> starts p endTag ci" "\<not> IsWhiteSpace (hd p)" "text' = (if w then text @ '' '' else text)"
  shows "read_condense e endTag ci p w text =
    (case GetChar e p of Inl f \<Rightarrow> Inl f | Inr (None, v) \<Rightarrow> Inr (None, text' @ v)
     | Inr (Some q, v) \<Rightarrow> read_condense e endTag ci q False (text' @ v))"
  unfolding assms(4) using assms(1-3) by (subst read_condense.simps) (simp add: Let_def)

lemma GetChar_cases:
  obtains (fault) "GetChar e p = Inl OutOfBounds"
  | (null) v where "GetChar e p = Inr (None, v)"
  | (char) q v where "GetChar e p = Inr (Some q, v)" "p \<noteq> [] \<longrightarrow> length q < length p"
proof (cases "GetChar e p")
  case (Inl f)
  then show ?thesis using fault by (auto simp: GetChar_def Let_def split: if_splits)
next
  case (Inr r)
  then show ?thesis using null char GetChar_length by (cases r; cases "fst r") fastforce+
qed

lemma read_keep_left: "read_keep e endTag ci p text = Inr (q, v) \<Longrightarrow> left q \<le> length p"
proof (induction "length p" arbitrary: p "text" rule: less_induct)
  case less
  show ?case
  proof (cases "p = [] \<or> starts p endTag ci")
    case True
    then show ?thesis using less.prems by (auto simp: read_keep_end)
  next
    case False
    then show ?thesis
      using less.prems by (cases e p rule: GetChar_cases) (auto simp: read_keep_char dest: less.hyps [rotated])
  qed
qed

lemma read_keep_fault: "read_keep e endTag ci p text = Inl f \<Longrightarrow> f = OutOfBounds"
proof (induction "length p" arbitrary: p "text" rule: less_induct)
  case less
  show ?case
  proof (cases "p = [] \<or> starts p endTag ci")
    case True
    then show ?thesis using less.prems by (auto simp: read_keep_end)
  next
    case False
    then show ?thesis
      using less.prems by (cases e p rule: GetChar_cases) (auto simp: read_keep_char dest: less.hyps [rotated])
  qed
qed

lemma read_condense_left: "read_condense e endTag ci p w text = Inr (q, v) \<Longrightarrow>
    left q \<le> length p \<and> (p \<noteq> [] \<and> \<not> starts p endTag ci \<longrightarrow> left q < length p)"
proof (induction "length p" arbitrary: p w "text" rule: less_induct)
  case less
  show ?case
  proof (cases "p = [] \<or> starts p endTag ci")
    case True
    then show ?thesis using less.prems by (auto simp: read_condense_end)
  next
    case False
    show ?thesis
    proof (cases "IsWhiteSpace (hd p)")
      case True
      then show ?thesis
        using False less.prems by (cases p) (auto simp: read_condense_white dest: less.hyps [rotated])
    next
      case no_white: False
      then show ?thesis
        using False less.prems
        by (cases e p rule: GetChar_cases) (auto simp: read_condense_char [OF _ _ _ refl] dest: less.hyps [rotated])
    qed
  qed
qed

lemma read_condense_fault: "read_condense e endTag ci p w text = Inl f \<Longrightarrow> f = OutOfBounds"
proof (induction "length p" arbitrary: p w "text" rule: less_induct)
  case less
  show ?case
  proof (cases "p = [] \<or> starts p endTag ci")
    case True
    then show ?thesis using less.prems by (auto simp: read_condense_end)
  next
    case False
    show ?thesis
    proof (cases "IsWhiteSpace (hd p)")
      case True
      then show ?thesis
        using False less.prems by (cases p) (auto simp: read_condense_white dest: less.hyps [rotated])
    next
      case no_white: False
      then show ?thesis
        using False less.prems
        by (cases e p rule: GetChar_cases) (auto simp: read_condense_char [OF _ _ _ refl] dest: less.hyps [rotated])
    qed
  qed
qed

lemma ReadText_fault: "ReadText e p w endTag ci = Inl f \<Longrightarrow> f \<noteq> Endless"
  by (auto simp: ReadText_def from_ptr_def Let_def dest: read_keep_fault read_condense_fault
      split: sum.splits option.splits if_splits prod.splits)

lemma ReadText_not_Endless [simp]: "ReadText e p w endTag ci \<noteq> Inl Endless"
  using ReadText_fault by blast

lemma ReadText_left: "ReadText e p w endTag ci = Inr (q, v) \<Longrightarrow> left q \<le> left p"
  using left_SkipWhiteSpace [of e p]
  by (fastforce simp: ReadText_def from_ptr_def Let_def left_def dest: read_keep_left read_condense_left
      split: sum.splits option.splits if_splits prod.splits)

text \<open>\<open>parses m p\<close>: the parser \<open>m\<close> does not loop, and leaves less text than \<open>p\<close> has.\<close>

definition parses :: "(ptr \<times> 'a) xp \<Rightarrow> ptr \<Rightarrow> TiXmlDocument \<Rightarrow> bool" where
  "parses m p d = ends m (\<lambda>(q, x) t. countable_text t \<and> left q < left p) d"

lemma parses_fails_with: "countable_text d \<Longrightarrow> live p \<Longrightarrow> parses (fails_with err pErr e (None, x)) p d"
  by (simp add: parses_def ends_fails_with live_left)

lemma parses_ret: "countable_text d \<Longrightarrow> left q < left p \<Longrightarrow> parses (ret (q, x)) p d"
  by (simp add: parses_def ends_ret)

lemma parses_less: "parses m p d \<Longrightarrow> left p \<le> left p' \<Longrightarrow> parses m p' d"
  by (auto simp: parses_def elim!: ends_mono)

lemma attribute_error_parses: "countable_text d \<Longrightarrow> live p \<Longrightarrow> parses (attribute_error doc pErr e nm v) p d"
  by (simp add: attribute_error_def parses_fails_with parses_ret live_left)

lemma unquoted_value_length: "unquoted_value p v = (q, w) \<Longrightarrow> length q \<le> length p"
  by (induction p v rule: unquoted_value.induct) (auto split: if_splits intro: le_SucI)

lemma attribute_value_parses:
  assumes "countable_text d" "p \<noteq> []" "length p < left p0"
  shows "parses (attribute_value doc e nm p) p0 d"
proof (cases "hd p = CHR 0x27 \<or> hd p = quote")
  case True
  have "left q < left p0" if "ReadText e (Some (tl p)) False [hd p] False = Inr (q, v)" for q v
    using ReadText_left [OF that] assms(2,3) by (cases p) auto
  then show ?thesis
    using True assms(1)
    by (auto simp: attribute_value_def parses_def ends_simps split: sum.split dest: ReadText_fault)
next
  case False
  obtain q w where uq: "unquoted_value p [] = (q, w)" by (cases "unquoted_value p []")
  have "left (Some q) < left p0" using unquoted_value_length [OF uq] assms(3) by simp
  moreover have "live p0" using assms(3) by (simp add: live_left)
  ultimately show ?thesis
    unfolding attribute_value_def if_not_P [OF False] uq prod.case Let_def
    by (simp add: assms(1) attribute_error_parses parses_ret)
qed

lemma parses_Stamp: "countable_text d \<Longrightarrow> (\<And>t. countable_text t \<Longrightarrow> parses m p t) \<Longrightarrow> parses (sq (Stamp e q) m) p d"
  by (simp add: parses_def ends_simps ends_Stamp)

lemma parses_check: "(b \<Longrightarrow> parses m p d) \<Longrightarrow> parses (sq (check b Aborted) m) p d"
  by (simp add: parses_def ends_simps)

lemma parses_StringEqual:
  "(live p \<Longrightarrow> parses (f (starts (the p) tag ci)) p0 d) \<Longrightarrow> parses (bnd (StringEqual p tag ci) f) p0 d"
  by (simp add: parses_def ends_simps)

lemma Attribute_Parse_parses:
  assumes "countable_text d" "live p0"
  shows "parses (Attribute_Parse doc e p0) p0 d"
proof -
  define p where "p = SkipWhiteSpace e p0"
  obtain p1 nm where name: "ReadName (the p) = (p1, nm)" by (cases "ReadName (the p)")
  define p2 where "p2 = SkipWhiteSpace e p1"
  define p3 where "p3 = SkipWhiteSpace e (Some (tl (the p2)))"
  have l: "left p \<le> left p0" "left p2 \<le> left p1" "left p3 \<le> length (tl (the p2))"
    unfolding p_def p2_def p3_def by (metis left_SkipWhiteSpace left_simps(2))+
  have l1: "left p1 < left p0" if "live p1" "live p"
    using ReadName_left [OF name that(1)] that(2) l(1) by (cases p) auto
  have "length (the p3) < left p0" if "live p1" "live p" "live p2" "live p3"
    using l l1 that by (cases p2; cases p3) auto
  then show ?thesis
    unfolding Attribute_Parse_def Let_def p_def [symmetric] name prod.case p2_def [symmetric] p3_def [symmetric]
    using assms
    by (auto intro!: parses_Stamp parses_ret attribute_error_parses attribute_value_parses
        simp: live_left [symmetric] live_the)
qed

lemma Unknown_Parse_parses:
  assumes "countable_text d" "live p0"
  shows "parses (Unknown_Parse e p0) p0 d"
proof -
  define p where "p = SkipWhiteSpace e p0"
  have l: "left p \<le> left p0" by (simp add: p_def left_SkipWhiteSpace)
  define q where "q = dropWhile (\<lambda>c. c \<noteq> CHR ''>'') (tl (the p))"
  have "length (tl (the p)) < left p0" if "live p" using that l by (cases p; cases "the p") auto
  moreover have "length q \<le> length (tl (the p))" unfolding q_def by (rule length_dropWhile_le)
  ultimately have "length q < left p0" if "live p" using that by fastforce
  then show ?thesis
    unfolding Unknown_Parse_def Let_def p_def [symmetric] q_def [symmetric]
    using assms by (intro parses_Stamp) (auto simp: live_left [symmetric] intro!: parses_fails_with parses_ret)
qed

lemma read_until_length: "read_until endTag p v = (q, w) \<Longrightarrow> length q \<le> length p"
  by (induction endTag p v rule: read_until.induct) (auto split: if_splits intro: le_SucI)

lemma starts_live: "starts p tag False \<Longrightarrow> length tag \<le> length p"
  by (simp add: starts_def prefix_length_le)

lemma Comment_Parse_parses:
  assumes "countable_text d" "live p0"
  shows "parses (Comment_Parse e p0) p0 d"
proof -
  define p where "p = SkipWhiteSpace e p0"
  obtain q v where ru: "read_until ''-->'' (drop 4 (the p)) [] = (q, v)" by (cases "read_until ''-->'' (drop 4 (the p)) []")
  have "left (Some (if q = [] then q else drop 3 q)) < left p0" if "starts (the p) ''<!--'' False" "live p"
    using starts_live [OF that(1)] that(2) left_SkipWhiteSpace [of e p0] read_until_length [OF ru]
    by (cases p) (auto simp: p_def)
  then show ?thesis
    unfolding Comment_Parse_def Let_def p_def [symmetric] ru prod.case
    using assms by (intro parses_Stamp parses_StringEqual) (auto intro: parses_fails_with parses_ret simp del: left_simps)
qed

lemma skip_white_cases: "skip_white e p = p \<or> length (skip_white e p) < length p"
proof (cases p)
  case (Cons c q)
  then show ?thesis
    using skip_white_length [of e "drop 2 q"] skip_white_length [of e q] by (auto simp: not_less le_imp_less_Suc)
qed simp

lemma starts_single: "p \<noteq> [] \<Longrightarrow> starts p [c] False = (hd p = c)"
  by (cases p) (auto simp: starts_def)

lemma ReadText_plain_left:
  assumes "ReadText e p True ''<'' False = Inr (q, v)" "live p" "hd (the p) \<noteq> CHR ''<''" "live q"
  shows "Suc (left q) < left p"
proof -
  obtain s where p: "p = Some s" "s \<noteq> []" using assms(2) by (cases p) auto
  obtain r where r: "read_condense e ''<'' False (skip_white e s) False [] = Inr (r, v)" "live r" "q = Some (tl (the r))"
    using assms(1,4) p
    by (auto simp: ReadText_def condenseWhiteSpace_def SkipWhiteSpace_def from_ptr_def Let_def drop_Suc
        split: sum.splits if_splits)
  have "left r < length s"
    using read_condense_left [OF r(1)] skip_white_cases [of e s] assms(3) p by (auto simp: starts_single)
  then show ?thesis using r(2,3) p by (cases r) auto
qed

lemma parses_raises:
  assumes "\<And>f. x = Inl f \<Longrightarrow> f \<noteq> Endless" "\<And>y. x = Inr y \<Longrightarrow> parses (g y) p d"
  shows "parses (bnd (raises x) g) p d"
  using assms by (simp add: parses_def ends_simps split: sum.split)

lemma Text_Parse_cdata_parses:
  assumes "countable_text d" "live p"
  shows "parses (Text_Parse True e p) p d"
proof -
  obtain q v where ru: "read_until '']]>'' (drop 9 (the p)) [] = (q, v)" by (cases "read_until '']]>'' (drop 9 (the p)) []")
  have "left r < left p" if "starts (the p) ''<![CDATA['' False" "ReadText e (Some q) False '']]>'' False = Inr (r, w)" for r w
    using starts_live [OF that(1)] ReadText_left [OF that(2)] read_until_length [OF ru] assms(2) by (cases p) auto
  then have "parses (case y of (r, dummy) \<Rightarrow> ret (r, XText v True)) p t"
    if "countable_text t" "starts (the p) ''<![CDATA['' False" "ReadText e (Some q) False '']]>'' False = Inr y" for y t
    using that by (cases y) (simp add: parses_ret)
  then show ?thesis
    unfolding Text_Parse_def ru prod.case
    using assms by (intro parses_Stamp) (auto simp: parses_def ends_simps intro!: ends_fails_with
        split: sum.split dest: ReadText_fault simp: live_left)
qed

lemma Text_Parse_plain_parses:
  assumes "countable_text d" "live p" "hd (the p) \<noteq> CHR ''<''"
  shows "parses (Text_Parse False e p) p d"
proof -
  have "\<not> starts (the p) ''<![CDATA['' False"
    using assms(2,3) by (cases p; cases "the p") (auto simp: starts_def)
  then show ?thesis
    using assms ReadText_plain_left [OF _ assms(2,3)]
    by (auto simp: Text_Parse_def parses_def ends_simps live_length live_left [symmetric] split: sum.split
        intro!: ends_Stamp)
qed

lemma over_it_length: "length (over_it p) \<le> length p"
  by (simp add: over_it_def length_dropWhile_le)

lemma over_it_less: "p \<noteq> [] \<Longrightarrow> hd p \<noteq> CHR ''>'' \<Longrightarrow> \<not> IsWhiteSpace (hd p) \<Longrightarrow> length (over_it p) < length p"
  by (cases p) (simp_all add: over_it_def length_dropWhile_le le_imp_less_Suc)

lemma skip_white_hd: "skip_white e p \<noteq> [] \<Longrightarrow> \<not> IsWhiteSpace (hd (skip_white e p))"
  by (induction e p rule: skip_white.induct) auto

lemma parses_bnd:
  assumes "parses m p d" "\<And>q x t. countable_text t \<Longrightarrow> left q < left p \<Longrightarrow> parses (g (q, x)) p0 t"
  shows "parses (bnd m g) p0 d"
  using assms by (auto simp: parses_def ends_simps elim!: ends_mono)

text \<open>An unfinished declaration is read over once more in each round, or the tag ends in the next one.\<close>

lemma declaration_loop_parses:
  "countable_text d \<Longrightarrow> left p < n \<Longrightarrow> live p \<Longrightarrow> parses (declaration_loop n e p version encoding standalone) p d"
proof (induction n arbitrary: d p version encoding standalone)
  case (Suc n)
  define q where "q = SkipWhiteSpace e p"
  have q: "left q \<le> left p" by (simp add: q_def left_SkipWhiteSpace)
  have next_round: "parses (declaration_loop n e r ver enc sta) p t"
    if "countable_text t" "left r < left p" for r t ver enc sta
  proof (cases "live r")
    case True
    then show ?thesis using Suc.IH [of t r] that Suc.prems by (intro parses_less [of _ r t p]) auto
  next
    case False
    then show ?thesis using that Suc.prems by (cases n) (auto simp: live_left [symmetric] intro: parses_ret)
  qed
  have attr: "parses (bnd (Attribute_Parse False e q) (\<lambda>(r, nm, v). g r v)) p d"
    if "live q" "\<And>r v t. countable_text t \<Longrightarrow> left r < left p \<Longrightarrow> parses (g r v) p t" for g
    using that q by (intro parses_bnd [OF Attribute_Parse_parses]) (auto simp: Suc.prems)
  have "left (Some (over_it (the q))) < left p" if "live q" "hd (the p) \<noteq> CHR ''>''"
  proof -
    obtain s where p: "p = Some s" "s \<noteq> []" using Suc.prems(3) by (cases p) auto
    have "\<not> IsWhiteSpace (hd (the q))"
      using that(1) p skip_white_hd by (auto simp: q_def SkipWhiteSpace_def)
    moreover have "the q = s \<or> length (the q) < length s"
      using skip_white_cases [of e s] p by (simp add: q_def SkipWhiteSpace_def)
    ultimately show ?thesis
      using that p over_it_less [of s] over_it_length [of "the q"] by fastforce
  qed
  then show ?case
    unfolding declaration_loop.simps Let_def q_def [symmetric] using Suc.prems
    by (auto intro!: parses_StringEqual attr next_round parses_ret simp del: left_simps(2))
      (simp add: live_length [symmetric] live_the)
qed simp

lemma Declaration_Parse_parses:
  assumes "countable_text d" "live p0"
  shows "parses (Declaration_Parse e p0) p0 d"
proof -
  define p where "p = SkipWhiteSpace e p0"
  have l: "left p \<le> left p0" by (simp add: p_def left_SkipWhiteSpace)
  have "parses (declaration_loop (length (the p)) e (Some (drop 5 (the p))) [] [] []) p0 t"
    if "countable_text t" "live p" "starts (the p) ''<?xml'' True" for t
  proof -
    have "length (map ToLower ''<?xml'') \<le> length (map ToLower (the p))"
      using that(3) unfolding starts_def if_True by (rule prefix_length_le)
    then have len: "5 \<le> left p" using that(2) by (simp add: live_length)
    show ?thesis
    proof (cases "drop 5 (the p) = []")
      case True
      have "length (the p) = left p" using that(2) by (rule live_length)
      then obtain m where "length (the p) = Suc m" using len not0_implies_Suc [of "left p"] by auto
      then show ?thesis using True that assms(2) by (auto simp: live_left intro!: parses_ret)
    next
      case False
      then show ?thesis using that len l
        by (intro parses_less [OF declaration_loop_parses]) (auto simp: live_length)
    qed
  qed
  then show ?thesis
    unfolding Declaration_Parse_def Let_def p_def [symmetric]
    using assms by (auto intro!: parses_Stamp parses_fails_with)
qed

text \<open>The reader of an element's content is a parameter here: it must not loop and not leave more text.\<close>

definition reads :: "(ptr \<Rightarrow> (ptr \<times> 'a) xp) \<Rightarrow> nat \<Rightarrow> bool" where
  "reads rv n = (\<forall>p d. countable_text d \<longrightarrow> left p < n \<longrightarrow> ends (rv p) (\<lambda>(q, x) t. countable_text t \<and> left q \<le> left p) d)"

lemma parses_reads:
  assumes "reads rv n" "countable_text d" "left p < n"
    and "\<And>q x t. countable_text t \<Longrightarrow> left q \<le> left p \<Longrightarrow> parses (g (q, x)) p0 t"
  shows "parses (bnd (rv p) g) p0 d"
proof -
  have "ends (rv p) (\<lambda>(q, x) t. countable_text t \<and> left q \<le> left p) d"
    using assms(1-3) by (simp add: reads_def)
  then show ?thesis
    unfolding parses_def ends_bnd by (rule ends_mono) (use assms(4) in \<open>auto simp: parses_def\<close>)
qed

lemma element_content_parses:
  assumes "reads rv (left p0)" "countable_text d" "length s < left p0"
  shows "parses (element_content rv e nm as s) p0 d"
  unfolding element_content_def
proof (rule parses_reads [OF assms(1,2)])
  show "left (Some s) < left p0" using assms(3) by simp
  fix q and kids :: "xnode list" and t
  assume t: "countable_text t" and "left q \<le> left (Some s)"
  then have q: "left q < left p0" using assms(3) by simp
  define r where "r = SkipWhiteSpace e (Some (drop (length (''</'' @ nm)) (the q)))"
  have "left r < left p0" if "live q"
    using left_SkipWhiteSpace [of e "Some (drop (length (''</'' @ nm)) (the q))"] q that
    by (simp add: r_def live_length)
  then have "length (tl (the r)) < left p0" if "live q" "live r" using that by (simp add: live_length)
  then show "parses (case (q, kids) of (p, kids) \<Rightarrow>
      let node = XElement nm as kids; endTag = ''</'' @ nm in
      if \<not> live p then fails_with TIXML_ERROR_READING_END_TAG p e (None, node)
      else bnd (StringEqual p endTag False) (\<lambda>closed.
        if closed then
          let q = SkipWhiteSpace e (Some (drop (length endTag) (the p))) in
          if live q \<and> hd (the q) = CHR ''>'' then ret (Some (tl (the q)), node)
          else fails_with TIXML_ERROR_READING_END_TAG q e (None, node)
        else fails_with TIXML_ERROR_READING_END_TAG p e (None, node))) p0 t"
    unfolding prod.case Let_def r_def [symmetric] using t q
    by (auto simp: live_left intro!: parses_fails_with parses_StringEqual parses_ret)
qed

lemma element_loop_parses:
  "countable_text d \<Longrightarrow> live p0 \<Longrightarrow> left p0 \<le> n \<Longrightarrow> reads rv (left p0) \<Longrightarrow>
     parses (element_loop n rv e nm as p0) p0 d"
proof (induction n arbitrary: d p0 as)
  case (Suc n)
  define p where "p = SkipWhiteSpace e p0"
  have p: "left p \<le> left p0" by (simp add: p_def left_SkipWhiteSpace)
  have "parses (element_loop n rv e nm (Add as a) q) p0 t"
    if "countable_text t" "live q" "left q < left p" for q a t
  proof (rule parses_less)
    have "reads rv (left q)" using Suc.prems(4) p that(3) by (auto simp: reads_def)
    then show "parses (element_loop n rv e nm (Add as a) q) q t" using Suc.IH that p Suc.prems by simp
  qed (use that p in simp)
  moreover have "length (tl (the p)) < left p0" "length (tl (tl (the p))) < left p0" if "live p"
    using that p by (simp_all add: live_length [symmetric] live_left [symmetric]) (auto simp: live_length live_left)
  ultimately show ?case
    unfolding element_loop.simps Let_def p_def [symmetric] using Suc.prems
    by (auto intro!: parses_fails_with parses_ret element_content_parses parses_bnd [OF Attribute_Parse_parses])
qed (simp add: live_left)

lemma Element_Parse_parses:
  assumes "reads rv (left p0)" "countable_text d" "live p0"
  shows "parses (Element_Parse rv e p0) p0 d"
proof -
  define p where "p = SkipWhiteSpace e p0"
  define p1 where "p1 = SkipWhiteSpace e (Some (tl (the p)))"
  obtain p2 nm where name: "ReadName (the p1) = (p2, nm)" by (cases "ReadName (the p1)")
  have l: "left p \<le> left p0" "left p1 \<le> length (tl (the p))"
    unfolding p_def p1_def by (metis left_SkipWhiteSpace left_simps(2))+
  have l2: "left p2 \<le> left p0" if "live p" "p1 \<noteq> None" "live p2"
    using ReadName_left [OF name that(3)] that l by (cases p; cases p1) auto
  have "parses (element_loop (length (the p2)) rv e nm [] p2) p0 t"
    if "countable_text t" "live p" "p1 \<noteq> None" "live p2" for t
  proof (rule parses_less [OF element_loop_parses])
    show "reads rv (left p2)" using assms(1) l2 that by (auto simp: reads_def)
  qed (use that l2 in \<open>auto simp: live_length\<close>)
  then show ?thesis
    unfolding Element_Parse_def Let_def p_def [symmetric] p1_def [symmetric] name prod.case
    using assms by (auto intro!: parses_Stamp parses_check parses_fails_with)
qed

text \<open>The fuel of the content is enough if it is more than twice the length of the text.\<close>

lemma tree_parses:
  "countable_text d \<Longrightarrow> 2 * left p + 2 \<le> n \<Longrightarrow>
     ends (ReadValue n e kids p) (\<lambda>(q, x) t. countable_text t \<and> left q \<le> left p) d"
  "countable_text d \<Longrightarrow> live p \<Longrightarrow> 2 * left p + 1 \<le> n \<Longrightarrow> parses (Node_Parse n e k p) p d"
proof (induction n arbitrary: d p k kids)
  case (Suc n)
  {
    case 1
    define q where "q = SkipWhiteSpace e p"
    have q: "left q \<le> left p" by (simp add: q_def left_SkipWhiteSpace)
    have again: "ends (ReadValue n e ks r) (\<lambda>(q, x) t. countable_text t \<and> left q \<le> left p) t"
      if "countable_text t" "left r < left q" for ks r t
      by (rule ends_mono [OF Suc.IH(1)]) (use that q 1 in auto)
    have "ends (bnd (Text_Parse False e (if condenseWhiteSpace then q else p)) (\<lambda>(r, node). ReadValue n e (g node) r))
        (\<lambda>(q, x) t. countable_text t \<and> left q \<le> left p) d"
      if "live q" "hd (the q) \<noteq> CHR ''<''" for g
    proof -
      have "parses (Text_Parse False e q) q d" using 1 that by (intro Text_Parse_plain_parses) auto
      then show ?thesis
        by (auto simp: ends_simps condenseWhiteSpace_def parses_def elim!: ends_mono intro!: again)
    qed
    moreover have "ends (bnd (Node_Parse n e k q) (\<lambda>(r, node). ReadValue n e (kids @ [node]) r))
        (\<lambda>(q, x) t. countable_text t \<and> left q \<le> left p) d" if "live q" for k
    proof -
      have "parses (Node_Parse n e k q) q d" using 1 that q by (intro Suc.IH(2)) auto
      then show ?thesis by (auto simp: ends_simps parses_def elim!: ends_mono intro!: again)
    qed
    ultimately show ?case
      unfolding ReadValue.simps Let_def q_def [symmetric] using 1 q
      by (auto simp: ends_simps live_def intro!: ends_fails_with split: option.split)
  next
    case 2
    have "reads (ReadValue n e []) (left p)"
      unfolding reads_def using Suc.IH(1) 2 by auto
    then show ?case using 2
      by (auto simp: Element_Parse_parses Text_Parse_cdata_parses Comment_Parse_parses Declaration_Parse_parses
          Unknown_Parse_parses split: node_kind.split)
  }
qed simp_all

lemma ends_SkipWhiteSpace_less: "left q < n \<Longrightarrow> left (SkipWhiteSpace e q) < n"
  using left_SkipWhiteSpace [of e q] by simp

lemma document_loop_ends:
  "countable_text d \<Longrightarrow> left p < n \<Longrightarrow> ends (document_loop n e p) (\<lambda>_. countable_text) d"
proof (induction n arbitrary: d e p)
  case (Suc n)
  have "ends (bnd (Node_Parse (Suc (2 * length (the p))) e k p) (\<lambda>(q, node). sq (LinkEndChild node)
      (let e' = next_encoding e node in document_loop n e' (SkipWhiteSpace e' q)))) (\<lambda>_. countable_text) d"
    if "live p" for k
  proof -
    have "parses (Node_Parse (Suc (2 * length (the p))) e k p) p d"
      using Suc.prems(1) that by (rule tree_parses(2)) (simp add: live_length that)
    then show ?thesis using Suc.prems(2)
      by (auto simp: ends_simps parses_def LinkEndChild_def Let_def elim!: ends_mono
          intro!: Suc.IH ends_SkipWhiteSpace_less)
  qed
  then show ?case
    using Suc.prems(1) by (simp add: ends_simps split: option.split)
qed simp

lemma ends_clear: "ends (fails_with err None e x) Q d \<longleftrightarrow>
    Q x (if Error d then d else d\<lparr>errorId := err, errorLocation := no_cursor\<rparr>)"
  by (simp add: fails_with_def SetError_def ends_simps)

lemma Document_Parse_ends:
  assumes "no_cut_mark s"
  shows "ends (Document_Parse (Some s) e) (\<lambda>_ _. True) d"
proof -
  have "ends (document_loop (Suc (length s)) e' (SkipWhiteSpace e' (Some s)))
      (\<lambda>x. ends (case x of (e', r) \<Rightarrow> bnd (gets doc_nodes) (\<lambda>nodes.
         if nodes = [] then fails_with TIXML_ERROR_DOCUMENT_EMPTY None e' None else ret r)) (\<lambda>_ _. True)) t"
    if "countable_text t" for e' t
    by (rule ends_mono [OF document_loop_ends])
      (use that left_SkipWhiteSpace [of e' "Some s"] in \<open>auto simp: ends_simps ends_clear\<close>)
  then show ?thesis
    using assms by (simp add: Document_Parse_def ends_simps ends_clear ClearError_def Let_def del: document_loop.simps)
qed

text \<open>C25: The parser comes back from every file, whatever it contains, unless one of the last two bytes that it
  sees is \<open>0xEF\<close>: it loads the file, reports an error, or stops with a fault, but never stays in a loop.\<close>

theorem LoadFile_terminates:
  assumes "\<And>file. fs filename = Some file \<Longrightarrow> no_cut_mark (normalize_newlines (c_str file))"
  shows "LoadFile fs filename e d \<noteq> Inl Endless"
proof -
  have "ends (LoadFile fs filename e) (\<lambda>_ _. True) d"
    using assms Document_Parse_ends
    by (auto simp: LoadFile_def ends_simps ends_clear split: option.split intro!: ends_mono [OF Document_Parse_ends])
  then show ?thesis by (auto simp: ends_def)
qed

theorem LoadFile_terminates_witness:
  "LoadFile [''f'' \<mapsto> ''<a b='' @ [CHR 0x0D] @ ''<!-- c''] ''f'' TIXML_ENCODING_UNKNOWN TiXmlDocument_new \<noteq> Inl Endless"
  by (rule LoadFile_terminates) (auto simp: c_str_def skip_if_def no_cut_mark_def)

end
