(* ===== verification/TinyXml_Tokens.thy ===== *)
theory TinyXml_Tokens
  imports TinyXml_Spec
begin

text \<open>
  What is printed of characters, attributes and leaves of the tree is parsed back.  \<open>yields m x\<close> says that the
  parser \<open>m\<close> returns \<open>x\<close>, reports no error and changes nothing but the place up to which rows and columns are counted;
  its rules follow the code of the parser.  \<open>node_ok\<close> says which trees can be printed without loss.
\<close>

section \<open>Characters that survive\<close>

definition char_length :: "TiXmlEncoding \<Rightarrow> char \<Rightarrow> nat" where
  "char_length e c = (if e = TIXML_ENCODING_UTF8 then utf8ByteTable c else 1)"

text \<open>
  In a UTF-8 document the bytes must form whole characters, and none of them may be one that the parser skips; in
  another encoding every text will do.
\<close>

function valid :: "TiXmlEncoding \<Rightarrow> string \<Rightarrow> bool" where
  "valid e [] = True"
| "valid e (c # s) = (let n = char_length e c - 1 in
     n \<le> length s \<and> list_all (\<lambda>b. 128 \<le> byte_of b) (take n s)
     \<and> \<not> (e = TIXML_ENCODING_UTF8 \<and> skipped_mark (c # s)) \<and> valid e (drop n s))"
  by pat_completeness auto
termination
  by (relation "measure (\<lambda>(e, s). length s)") auto

lemma valid_other: "e \<noteq> TIXML_ENCODING_UTF8 \<Longrightarrow> valid e s"
  by (induction s) (simp_all add: char_length_def)

definition encode :: "string \<Rightarrow> string" where
  "encode s = concat (map encode_char s)"

lemma encode_simps [simp]: "encode [] = []" "encode (c # s) = encode_char c @ encode s" "encode (s @ t) = encode s @ encode t"
  by (simp_all add: encode_def)

lemma encode_high: "list_all (\<lambda>b. 128 \<le> byte_of b) s \<Longrightarrow> encode s = s"
  by (induction s) (auto simp: encode_char_def byte_of_def)

lemma EncodeString_encode: "\<not> sublist ''&#x'' s \<Longrightarrow> EncodeString s = encode s"
proof (induction s)
  case (Cons c s)
  have "\<not> (c = CHR ''&'' \<and> take 2 s = ''#x'')"
  proof
    assume "c = CHR ''&'' \<and> take 2 s = ''#x''"
    then have "c # s = ''&#x'' @ drop 2 s" by (metis append_Cons append_Nil append_take_drop_id)
    then show False using Cons.prems by (metis sublist_append_rightI)
  qed
  moreover have "\<not> sublist ''&#x'' s" using Cons.prems by (auto intro: sublist_order.order_trans simp: sublist_Cons_right)
  ultimately show ?case using Cons.IH by auto
qed simp

lemma byte_of_char_of: "byte_of (char_of n) = n mod 256"
  by (simp add: byte_of_def)

lemma byte_of_hex_digit: "n < 16 \<Longrightarrow> byte_of (hex_digit n) = (if n < 10 then 48 + n else 55 + n)"
  by (simp add: hex_digit_def byte_of_char_of)

lemma hex_value_digit: "n < 16 \<Longrightarrow> hex_value (hex_digit n) = Some (of_nat n)"
  by (auto simp: hex_value_def isdigit_def byte_of_hex_digit)

lemma hex_digit_neq: "n < 16 \<Longrightarrow> hex_digit n \<noteq> CHR ''x''" "n < 16 \<Longrightarrow> hex_digit n \<noteq> CHR '';''"
  by (auto dest!: arg_cong [where f = byte_of] simp: byte_of_hex_digit) (auto simp: byte_of_def split: if_splits)

lemma char_of_byte_of [simp]: "char_of (byte_of c) = c"
  by (simp add: byte_of_def)

lemma byte_32: "byte_of c = 32 \<longleftrightarrow> c = CHR 0x20"
  using of_char_eq_iff [of c "CHR 0x20", where 'a = nat] by (simp add: byte_of_def)

lemma hex_digits_low:
  assumes "b < 32"
  shows "hex_digits [hex_digit (b mod 16), hex_digit (b div 16)] 1 0 = Some (of_nat b)"
proof -
  have "b mod 16 < 16" "b div 16 < 2" using assms by auto
  then have "b div 16 = 0 \<or> b div 16 = 1" by auto
  moreover have "ucast (of_nat n :: u32) = (of_nat n :: u64)" if "n < 16" for n
    using that by (simp add: unsigned_of_nat take_bit_nat_eq_self)
  ultimately show ?thesis
  proof (elim disjE)
    assume "b div 16 = 0"
    then have "b < 16" by auto
    then show ?thesis by (simp add: hex_digit_neq hex_value_digit unsigned_of_nat take_bit_nat_eq_self)
  next
    assume h: "b div 16 = 1"
    then have b: "of_nat b = (16 + of_nat (b mod 16) :: u64)"
      by (metis add.commute mult_1 div_mult_mod_eq of_nat_add of_nat_numeral)
    have "b mod 16 < 2 ^ 32" by (rule less_trans [of _ 16]) simp_all
    then show ?thesis using h by (simp add: hex_digit_neq hex_value_digit b unsigned_of_nat take_bit_nat_eq_self)
  qed
qed
lemma GetEntity_hex:
  assumes "byte_of c < 32"
  shows "GetEntity e (hex_reference c @ r) = (Some r, [c])"
proof -
  have lt: "byte_of c div 16 < 16" "byte_of c mod 16 < 16" using assms by auto
  have "(of_nat (byte_of c) :: u64) < 0x80"
    using assms by (simp add: word_less_nat_alt unat_of_nat take_bit_nat_eq_self)
  moreover have "char_of_u64 (of_nat (byte_of c)) = c"
    using assms by (simp add: char_of_u64_def unat_of_nat take_bit_nat_eq_self)
  ultimately have "ucs_bytes e (of_nat (byte_of c)) = [c]"
    by (simp add: ucs_bytes_def ConvertUTF32ToUTF8_def)
  moreover obtain a b where "hex_digit (byte_of c div 16) = a" "hex_digit (byte_of c mod 16) = b" by simp
  ultimately show ?thesis
    using hex_digits_low [OF assms] hex_digit_neq(2) [OF lt(1)] hex_digit_neq(2) [OF lt(2)]
    by (simp add: GetEntity_def hex_reference_def numeric_entity_def Let_def semicolon_def del: hex_digits.simps)
qed

lemma GetChar_amp: "GetChar e (CHR ''&'' # x) = Inr (GetEntity e (CHR ''&'' # x))"
  by (simp add: GetChar_def Let_def utf8ByteTable_def byte_of_def)

lemma GetChar_encode:
  assumes "char_length e c = 1"
  shows "GetChar e (encode_char c @ r) = Inr (Some r, [c])"
proof (cases "byte_of c < 32")
  case True
  then have "encode_char c = hex_reference c" by (auto simp: encode_char_def byte_of_def)
  moreover obtain x where "hex_reference c @ r = CHR ''&'' # x" by (simp add: hex_reference_def)
  ultimately show ?thesis using GetEntity_hex [OF True, of e r] by (simp add: GetChar_amp)
next
  case False
  have "utf8ByteTable (CHR ''&'') = 1" by (simp add: utf8ByteTable_def byte_of_def)
  moreover have "e = TIXML_ENCODING_UTF8 \<Longrightarrow> utf8ByteTable c = 1" using assms by (simp add: char_length_def)
  ultimately show ?thesis
    using False by (simp add: GetChar_def encode_char_def Let_def GetEntity_def entity_def)
qed

text \<open>The first whole character of a text, and the rest.\<close>

definition first_char :: "TiXmlEncoding \<Rightarrow> string \<Rightarrow> string" where
  "first_char e s = take (char_length e (hd s)) s"

definition other_chars :: "TiXmlEncoding \<Rightarrow> string \<Rightarrow> string" where
  "other_chars e s = drop (char_length e (hd s)) s"

lemma char_length_Suc: "char_length e c = Suc (char_length e c - 1)"
  using utf8ByteTable_pos [of c] by (simp add: char_length_def)

lemma first_other: "first_char e s @ other_chars e s = s"
  by (simp add: first_char_def other_chars_def)

lemma other_chars_length: "s \<noteq> [] \<Longrightarrow> length (other_chars e s) < length s"
  using char_length_Suc [of e "hd s"] by (cases s) (simp_all add: other_chars_def)

lemma valid_other_chars: "valid e s \<Longrightarrow> s \<noteq> [] \<Longrightarrow> valid e (other_chars e s)"
  by (cases s) (auto simp: other_chars_def Let_def drop_Cons' )

lemma valid_first_char:
  assumes "valid e s" "s \<noteq> []"
  obtains c where "first_char e s = [c]" "char_length e c = 1" "hd s = c"
  | "list_all (\<lambda>b. 128 \<le> byte_of b) (first_char e s)" "e = TIXML_ENCODING_UTF8"
    "length (first_char e s) = utf8ByteTable (hd s)" "utf8ByteTable (hd s) \<noteq> 1"
proof (cases s)
  case (Cons c t)
  show ?thesis
  proof (cases "char_length e c = 1")
    case True
    then show ?thesis using that(1) [of c] Cons by (simp add: first_char_def)
  next
    case False
    then obtain k where k: "char_length e c = Suc k" "e = TIXML_ENCODING_UTF8" "utf8ByteTable c = Suc k" "k \<noteq> 0"
      using char_length_Suc [of e c] by (auto simp: char_length_def split: if_splits)
    then have "128 \<le> byte_of c" by (auto simp: utf8ByteTable_def Let_def split: if_splits)
    then show ?thesis using that(2) assms(1) k Cons by (simp add: first_char_def Let_def)
  qed
qed (use assms in simp)

lemma encode_first_other: "encode (first_char e s) @ encode (other_chars e s) = encode s"
  by (metis encode_simps(3) first_other)

lemma GetChar_first:
  assumes "valid e s" "s \<noteq> []"
  shows "GetChar e (encode (first_char e s) @ r) = Inr (Some r, first_char e s)"
  using assms
proof (cases rule: valid_first_char)
  case (1 c)
  then show ?thesis by (simp add: GetChar_encode)
next
  case 2
  then have "first_char e s \<noteq> []" using utf8ByteTable_pos [of "hd s"] by auto
  then have "hd (first_char e s @ r) = hd s" using first_other [of e s] by (metis hd_append2)
  then show ?thesis using 2 by (simp add: encode_high GetChar_def Let_def)
qed

text \<open>
  \<open>copies e f q P\<close>: the image of a text under \<open>f\<close> is a sequence of pieces that \<open>GetChar\<close> reads as the characters of
  the text, and no piece starts with the end mark \<open>q\<close>.
\<close>

definition copies :: "TiXmlEncoding \<Rightarrow> (string \<Rightarrow> string) \<Rightarrow> char \<Rightarrow> (string \<Rightarrow> bool) \<Rightarrow> bool" where
  "copies e f q P = (f [] = [] \<and> (\<forall>s. valid e s \<longrightarrow> s \<noteq> [] \<longrightarrow> P s \<longrightarrow> P (other_chars e s) \<and>
     (\<exists>src. src \<noteq> [] \<and> hd src \<noteq> q \<and> f s = src @ f (other_chars e s)
       \<and> (\<forall>r. GetChar e (src @ r) = Inr (Some r, first_char e s)))))"

lemma read_keep_copies:
  assumes "copies e f q P"
  shows "valid e v \<Longrightarrow> P v \<Longrightarrow> read_keep e [q] False (f v @ q # r) acc = Inr (Some (q # r), acc @ v)"
proof (induction "length v" arbitrary: v acc rule: less_induct)
  case less
  show ?case
  proof (cases "v = []")
    case True
    then show ?thesis using assms by (simp add: copies_def read_keep_end starts_single)
  next
    case False
    then obtain src where src: "src \<noteq> []" "hd src \<noteq> q" "f v = src @ f (other_chars e v)"
        "\<And>r. GetChar e (src @ r) = Inr (Some r, first_char e v)" "P (other_chars e v)"
      using assms less.prems by (auto simp: copies_def)
    have "\<not> starts (f v @ q # r) [q] False" using src(1-3) by (simp add: starts_single)
    then have "read_keep e [q] False (f v @ q # r) acc
        = read_keep e [q] False (f (other_chars e v) @ q # r) (acc @ first_char e v)"
      using src by (simp add: read_keep_char)
    also have "\<dots> = Inr (Some (q # r), (acc @ first_char e v) @ other_chars e v)"
      using less.hyps [OF other_chars_length [OF False]] valid_other_chars [OF less.prems(1) False] src(5) by simp
    finally show ?thesis by (simp add: first_other)
  qed
qed

lemma encode_first_hd:
  assumes "valid e s" "s \<noteq> []"
  shows "encode (first_char e s) \<noteq> [] \<and> (hd (encode (first_char e s)) = CHR ''&''
    \<or> 32 \<le> byte_of (hd s) \<and> hd s \<notin> {CHR ''<'', CHR ''>'', CHR 0x22, CHR 0x27} \<and> hd (encode (first_char e s)) = hd s)"
  using assms
proof (cases rule: valid_first_char)
  case (1 c)
  then show ?thesis by (auto simp: encode_char_def hex_reference_def)
next
  case 2
  then obtain b t where bt: "first_char e s = b # t" using utf8ByteTable_pos [of "hd s"] by (cases "first_char e s") auto
  moreover have "b = hd s" using bt first_other [of e s] by (metis append_Cons list.sel(1))
  moreover have "encode (first_char e s) = first_char e s" using 2(1) by (rule encode_high)
  ultimately show ?thesis using 2(1) by (auto simp: byte_of_def)
qed

lemma copies_encode: "q = CHR 0x22 \<or> q = CHR 0x27 \<Longrightarrow> copies e encode q (\<lambda>_. True)"
  unfolding copies_def
  using encode_first_hd [of e] GetChar_first [of e] encode_first_other [of e]
  by (fastforce intro: exI [of _ "encode (first_char e s)" for s])

lemma copies_raw: "copies e (\<lambda>s. s) q (\<lambda>s. q \<notin> set s \<and> CHR ''&'' \<notin> set s)"
  unfolding copies_def
proof (intro conjI allI impI refl)
  fix s assume s: "valid e s" "s \<noteq> []" "q \<notin> set s \<and> CHR ''&'' \<notin> set s"
  then show "q \<notin> set (other_chars e s)" "CHR ''&'' \<notin> set (other_chars e s)"
    by (auto simp: other_chars_def dest: in_set_dropD)
  have "first_char e s \<noteq> []" using s(2) char_length_Suc [of e "hd s"] by (cases s) (simp_all add: first_char_def)
  moreover have "hd (first_char e s) = hd s" using calculation first_other [of e s] by (metis hd_append2)
  moreover have "GetChar e (first_char e s @ r) = Inr (Some r, first_char e s)" for r
    using s(1,2)
  proof (cases rule: valid_first_char)
    case (1 c)
    moreover have "c \<noteq> CHR ''&''" using 1 s by (cases s) auto
    ultimately show ?thesis by (simp add: GetChar_def Let_def char_length_def split: if_splits)
  next
    case 2
    then show ?thesis
      using calculation by (simp add: GetChar_def Let_def)
  qed
  ultimately show "\<exists>src. src \<noteq> [] \<and> hd src \<noteq> q \<and> s = src @ other_chars e s \<and>
      (\<forall>r. GetChar e (src @ r) = Inr (Some r, first_char e s))"
    using s by (intro exI [of _ "first_char e s"]) (auto simp: first_other)
qed

text \<open>
  Printed text comes back from the condensing loop if it has no spaces at its ends and no two of them in a row;
  other white space is printed as a character reference and is no white space any more.
\<close>

fun condensed :: "bool \<Rightarrow> string \<Rightarrow> bool" where
  "condensed w [] = True"
| "condensed w (c # s) = (if c = CHR 0x20 then \<not> w \<and> s \<noteq> [] \<and> condensed True s else condensed False s)"

lemma condensed_high: "list_all (\<lambda>b. 128 \<le> byte_of b) s \<Longrightarrow> s \<noteq> [] \<Longrightarrow> condensed w (s @ t) = condensed False t"
proof (induction s arbitrary: w)
  case (Cons c s)
  then show ?case by (cases "s = []") (auto simp: byte_of_def)
qed simp

definition white :: "string \<Rightarrow> bool" where
  "white w = (set w \<subseteq> {CHR 0x20, CHR 0x0A})"

lemma white_simps [simp]: "white []" "white (c # w) = (c \<in> {CHR 0x20, CHR 0x0A} \<and> white w)" "white (v @ w) = (white v \<and> white w)"
  by (auto simp: white_def)

lemma white_is_white: "white (c # w) \<Longrightarrow> IsWhiteSpace c"
  by (auto simp: IsWhiteSpace_def byte_of_def)

lemma read_condense_tail:
  "white w \<Longrightarrow> read_condense e ''<'' False (w @ CHR ''<'' # r) b acc = Inr (Some (CHR ''<'' # r), acc)"
proof (induction w arbitrary: b)
  case Nil
  then show ?case by (simp add: read_condense_end starts_single)
next
  case (Cons c w)
  then have "\<not> starts (c # w @ CHR ''<'' # r) ''<'' False" by (auto simp: starts_single)
  then show ?case using Cons white_is_white [OF Cons.prems] by (simp add: read_condense_white)
qed

lemma read_condense_encode:
  "valid e t \<Longrightarrow> condensed b t \<Longrightarrow> white w \<Longrightarrow>
     read_condense e ''<'' False (encode t @ w @ CHR ''<'' # r) b acc
       = Inr (Some (CHR ''<'' # r), acc @ (if b \<and> t \<noteq> [] then '' '' else []) @ t)"
proof (induction "length t" arbitrary: t b acc rule: less_induct)
  case less
  show ?case
  proof (cases "t = []")
    case True
    then show ?thesis using less.prems by (simp add: read_condense_tail)
  next
    case False
    note first = encode_first_hd [OF less.prems(1) False] encode_first_other [of e t]
    let ?text = "encode t @ w @ CHR ''<'' # r"
    have hd: "?text \<noteq> []" "hd ?text = hd (encode (first_char e t))" using first(1) by (simp_all add: first(2) [symmetric])
    then have no_end: "\<not> starts ?text ''<'' False" using first(1) by (auto simp: starts_single)
    show ?thesis
    proof (cases "hd t = CHR 0x20")
      case True
      then obtain s where t: "t = CHR 0x20 # s" using False by (cases t) auto
      then have enc: "encode t = CHR 0x20 # encode s" by (simp add: encode_char_def byte_of_def)
      have "valid e s" using less.prems(1) t by (auto simp: char_length_def utf8ByteTable_def byte_of_def Let_def)
      then have "read_condense e ''<'' False (encode s @ w @ CHR ''<'' # r) True acc
          = Inr (Some (CHR ''<'' # r), acc @ '' '' @ s)"
        using less.hyps [of s True acc] less.prems(2,3) t by simp
      moreover have "read_condense e ''<'' False (CHR 0x20 # encode s @ w @ CHR ''<'' # r) b acc
          = read_condense e ''<'' False (encode s @ w @ CHR ''<'' # r) True acc"
        by (rule read_condense_white) (simp_all add: starts_single IsWhiteSpace_def byte_of_def)
      moreover have "\<not> b" using less.prems(2) t by simp
      ultimately show ?thesis by (simp add: enc) (simp add: t)
    next
      case no_space: False
      have "\<not> IsWhiteSpace (hd (encode (first_char e t)))"
        using first(1) no_space by (auto simp: IsWhiteSpace_def byte_32) (simp_all add: byte_of_def)
      moreover have "GetChar e ?text = Inr (Some (encode (other_chars e t) @ w @ CHR ''<'' # r), first_char e t)"
        using GetChar_first [OF less.prems(1) False] first(2) by (metis append.assoc)
      ultimately have "read_condense e ''<'' False ?text b acc
          = read_condense e ''<'' False (encode (other_chars e t) @ w @ CHR ''<'' # r) False
              ((if b then acc @ '' '' else acc) @ first_char e t)"
        using read_condense_char [OF hd(1) no_end _ refl, of e b acc] hd(2) by simp
      also have "\<dots> = Inr (Some (CHR ''<'' # r), ((if b then acc @ '' '' else acc) @ first_char e t) @ other_chars e t)"
      proof -
        have "condensed False (other_chars e t)"
          using less.prems(1) False
        proof (cases rule: valid_first_char)
          case (1 c)
          then show ?thesis using less.prems(2) False no_space by (cases t) (auto simp: other_chars_def)
        next
          case 2
          then have "first_char e t \<noteq> []" using utf8ByteTable_pos [of "hd t"] by auto
          then show ?thesis using condensed_high [OF 2(1)] first_other [of e t] less.prems(2) by metis
        qed
        then show ?thesis
          using less.hyps [OF other_chars_length [OF False]] valid_other_chars [OF less.prems(1) False] less.prems(3) by simp
      qed
      finally show ?thesis using False by (simp add: first_other)
    qed
  qed
qed

section \<open>Parsers that return a value\<close>

text \<open>Nothing but the place has changed.\<close>

definition quiet :: "TiXmlDocument \<Rightarrow> TiXmlDocument \<Rightarrow> bool" where
  "quiet d t = (t = d\<lparr>cursor := cursor t, stamp := stamp t\<rparr>)"

lemma quiet_refl [simp]: "quiet d d"
  by (simp add: quiet_def)

lemma quiet_fields: "quiet d t \<Longrightarrow> doc_nodes t = doc_nodes d \<and> useMicrosoftBOM t = useMicrosoftBOM d
    \<and> errorId t = errorId d \<and> tabsize t = tabsize d \<and> errorLocation t = errorLocation d"
  by (cases d; cases t) (simp add: quiet_def)

lemma quiet_trans: "quiet d t \<Longrightarrow> quiet t u \<Longrightarrow> quiet d u"
  by (cases d; cases t; cases u) (simp add: quiet_def)

definition yields :: "'a xp \<Rightarrow> 'a \<Rightarrow> bool" where
  "yields m x = (\<forall>d. countable_text d \<longrightarrow> (\<exists>t. m d = Inr (x, t) \<and> countable_text t \<and> quiet d t))"

lemma yieldsD: "yields m x \<Longrightarrow> countable_text d \<Longrightarrow> \<exists>t. m d = Inr (x, t) \<and> countable_text t \<and> quiet d t"
  by (simp add: yields_def)

lemma yields_ret: "x = y \<Longrightarrow> yields (ret x) y"
  by (simp add: yields_def ret_def)

lemma yields_bnd: "yields m x \<Longrightarrow> yields (f x) y \<Longrightarrow> yields (bnd m f) y"
  unfolding yields_def bnd_def by (metis (no_types, lifting) old.prod.case quiet_trans sum.case(2))

lemma yields_sq: "yields m x \<Longrightarrow> yields n y \<Longrightarrow> yields (sq m n) y"
  unfolding sq_def by (rule yields_bnd)

lemma yields_check: "b \<Longrightarrow> yields (check b f) ()"
  by (simp add: check_def yields_ret)

lemma yields_raises: "x = Inr y \<Longrightarrow> yields (raises x) y"
  by (simp add: raises_def yields_ret)

lemma yields_StringEqual: "live p \<Longrightarrow> starts (the p) tag ci = b \<Longrightarrow> yields (StringEqual p tag ci) b"
  by (simp add: StringEqual_def yields_sq [OF yields_check] yields_ret)

lemma yields_bnd_StringEqual: "live p \<Longrightarrow> yields (f (starts (the p) tag ci)) x \<Longrightarrow> yields (bnd (StringEqual p tag ci) f) x"
  by (rule yields_bnd [OF yields_StringEqual]) simp_all

lemma yields_Stamp: "p \<noteq> None \<Longrightarrow> yields (Stamp e p) ()"
proof -
  assume p: "p \<noteq> None"
  have "\<exists>t. Stamp e p d = Inr ((), t) \<and> countable_text t \<and> quiet d t" if "countable_text d" for d
  proof -
    have "no_cut_mark (stamp d)" using that by (simp add: countable_text_def)
    then obtain k r c where "stamp_loop e (tabsize d) (the p) (stamp d) (row (cursor d)) (col (cursor d))
        = Some (drop k (stamp d), r, c)"
      using stamp_loop_ends by blast
    moreover have "no_cut_mark (drop k (stamp d))" using that by (simp add: countable_text_def no_cut_mark_drop)
    ultimately show ?thesis
      using p that by (auto simp: Stamp_def run_simps bnd_def sq_def returns_def quiet_def)
  qed
  then show "yields (Stamp e p) ()" by (simp add: yields_def)
qed

section \<open>Names and attributes\<close>

definition solid :: "TiXmlEncoding \<Rightarrow> string \<Rightarrow> bool" where
  "solid e p = (p \<noteq> [] \<and> \<not> IsWhiteSpace (hd p) \<and> \<not> (e = TIXML_ENCODING_UTF8 \<and> skipped_mark p))"

lemma skip_white_solid: "solid e p \<Longrightarrow> skip_white e p = p"
  by (cases p) (auto simp: solid_def)

lemma SkipWhiteSpace_white: "white w \<Longrightarrow> solid e p \<Longrightarrow> SkipWhiteSpace e (Some (w @ p)) = Some p"
proof (induction w)
  case Nil
  then show ?case by (auto simp: SkipWhiteSpace_def skip_white_solid solid_def)
next
  case (Cons c w)
  have "\<not> skipped_mark (c # w @ p)" using Cons.prems(1) by (auto simp: skipped_mark_def lead_bytes_def)
  then show ?case
    using Cons white_is_white [OF Cons.prems(1)] by (auto simp: SkipWhiteSpace_def solid_def split: if_splits)
qed

lemmas SkipWhiteSpace_solid = SkipWhiteSpace_white [of "[]", simplified]

lemma solid_ascii: "c \<noteq> CHR 0xEF \<Longrightarrow> \<not> IsWhiteSpace c \<Longrightarrow> solid e (c # s)"
  by (simp add: solid_def skipped_mark_def lead_bytes_def)

lemma solid_marks [simp]:
  "solid e (CHR ''<'' # s)" "solid e (CHR ''>'' # s)" "solid e (CHR ''/'' # s)" "solid e (CHR ''='' # s)"
  "solid e (CHR ''?'' # s)" "solid e (CHR 0x22 # s)" "solid e (CHR 0x27 # s)"
  by (rule solid_ascii; simp add: IsWhiteSpace_def byte_of_def)+

definition name_ok :: "TiXmlEncoding \<Rightarrow> string \<Rightarrow> bool" where
  "name_ok e n = (n \<noteq> [] \<and> name_start (hd n) \<and> list_all name_char n
     \<and> \<not> (e = TIXML_ENCODING_UTF8 \<and> skipped_mark n))"

lemma name_start_char: "name_start c \<Longrightarrow> \<not> IsWhiteSpace c"
  by (auto simp: name_start_def IsAlpha_def isalpha_def is_upper_def IsWhiteSpace_def byte_of_def split: if_splits)

lemma skipped_mark_ascii: "byte_of c < 128 \<Longrightarrow> skipped_mark (n @ c # s) \<Longrightarrow> skipped_mark n"
  by (cases n; cases "tl n"; cases "tl (tl n)") (auto simp: skipped_mark_def lead_bytes_def byte_of_def)

lemma solid_name: "name_ok e n \<Longrightarrow> byte_of c < 128 \<Longrightarrow> solid e (n @ c # s)"
  using name_start_char [of "hd n"] skipped_mark_ascii [of c n s] by (auto simp: name_ok_def solid_def)

lemma ReadName_name: "name_ok e n \<Longrightarrow> \<not> name_char c \<Longrightarrow> ReadName (n @ c # s) = (Some (c # s), n)"
  by (auto simp: ReadName_def name_ok_def list_all_iff takeWhile_append2 dropWhile_append2)

lemma name_char_ascii: "byte_of c < 128 \<Longrightarrow> name_char c \<Longrightarrow>
    isalpha c \<or> isdigit c \<or> c \<in> set ''_-.:'' \<or> byte_of c = 127"
  by (auto simp: name_char_def IsAlphaNum_def split: if_splits)

lemma not_name_char [simp]:
  "\<not> name_char (CHR ''='')" "\<not> name_char (CHR 0x20)" "\<not> name_char (CHR ''>'')" "\<not> name_char (CHR ''/'')"
  by (simp_all add: name_char_def IsAlphaNum_def isalpha_def is_upper_def isdigit_def byte_of_def)

lemma not_name_char_entity [simp]:
  "\<not> name_char (CHR ''&'')" "\<not> name_char (CHR ''<'')" "\<not> name_char (CHR 0x22)" "\<not> name_char (CHR 0x27)"
  by (simp_all add: name_char_def IsAlphaNum_def isalpha_def is_upper_def isdigit_def byte_of_def)

lemma name_char_byte: "name_char c \<Longrightarrow> 32 \<le> byte_of c"
  by (auto simp: name_char_def IsAlphaNum_def isalpha_def is_upper_def isdigit_def split: if_splits)
    (simp_all add: byte_of_def)

lemma encode_name_char: "name_char c \<Longrightarrow> encode_char c = [c] \<and> c \<noteq> CHR ''&'' \<and> c \<noteq> CHR 0x00"
  using name_char_byte [of c] unfolding encode_char_def by (auto simp: byte_of_def)

lemma EncodeString_name: "list_all name_char n \<Longrightarrow> EncodeString n = n"
  by (induction n) (simp_all add: encode_name_char)

lemma c_str_id: "CHR 0x00 \<notin> set s \<Longrightarrow> c_str s = s"
  by (auto simp: c_str_def takeWhile_eq_all_conv)

lemma c_str_name: "name_ok e n \<Longrightarrow> c_str n = n"
  using encode_name_char by (intro c_str_id) (auto simp: name_ok_def list_all_iff)

lemma encode_printable: "c \<in> set (encode v) \<Longrightarrow> 32 \<le> byte_of c"
proof (induction v)
  case (Cons a v)
  have "32 \<le> byte_of c" if "c \<in> set (encode_char a)"
  proof (cases "byte_of a < 32")
    case True
    then have "byte_of a div 16 < 16" by simp
    then show ?thesis
      using that byte_of_hex_digit [of "byte_of a div 16"] byte_of_hex_digit [of "byte_of a mod 16"]
      by (auto simp: encode_char_def hex_reference_def byte_of_def split: if_splits)
  next
    case False
    then show ?thesis using that by (auto simp: encode_char_def byte_of_def split: if_splits)
  qed
  then show ?case using Cons by auto
qed simp

lemma printable_no_control: "\<forall>c \<in> set s. 32 \<le> byte_of c \<Longrightarrow> CHR 0x00 \<notin> set s \<and> CHR 0x0D \<notin> set s"
  by (auto simp: byte_of_def)

lemma c_str_encode: "c_str (encode v) = encode v"
  using printable_no_control [of "encode v"] encode_printable by (blast intro: c_str_id)

definition value_ok :: "TiXmlEncoding \<Rightarrow> string \<Rightarrow> bool" where
  "value_ok e v = (valid e v \<and> \<not> sublist ''&#x'' v)"

lemma Attribute_Parse_text:
  assumes "white w" "name_ok e n" "q = CHR 0x22 \<or> q = CHR 0x27" "copies e f q P" "valid e v" "P v" "s \<noteq> []"
  shows "yields (Attribute_Parse doc e (Some (w @ n @ CHR ''='' # q # f v @ q # s))) (Some s, n, v)"
proof -
  let ?r = "CHR ''='' # q # f v @ q # s"
  have skip: "SkipWhiteSpace e (Some (w @ n @ ?r)) = Some (n @ ?r)"
    using assms(1) solid_name [OF assms(2)] by (simp add: SkipWhiteSpace_white byte_of_def)
  have val: "SkipWhiteSpace e (Some (q # f v @ q # s)) = Some (q # f v @ q # s)"
    using assms(3) by (auto simp: SkipWhiteSpace_solid)
  have "ReadText e (Some (f v @ q # s)) False [q] False = Inr (Some s, v)"
    using read_keep_copies [OF assms(4-6), of s "[]"] assms(7) by (simp add: ReadText_def from_ptr_def)
  then have "yields (attribute_value doc e n (q # f v @ q # s)) (Some s, n, v)"
    using assms(3) by (auto simp: attribute_value_def quote_def intro!: yields_bnd [OF yields_raises] yields_ret)
  then show ?thesis
    using assms(2) ReadName_name [OF assms(2), of "CHR ''=''"]
    by (auto simp: Attribute_Parse_def Let_def skip val SkipWhiteSpace_solid intro!: yields_sq [OF yields_Stamp])
qed

lemma Attribute_Print_text:
  assumes "name_ok e n" "value_ok e v"
  obtains q where "q = CHR 0x22 \<or> q = CHR 0x27" "Attribute_Print (n, v) = n @ CHR ''='' # q # encode v @ [q]"
proof -
  have "EncodeString n = n" using assms(1) by (simp add: name_ok_def EncodeString_name)
  moreover have "EncodeString v = encode v" using assms(2) by (simp add: value_ok_def EncodeString_encode)
  ultimately show ?thesis
    using that [of "if quote \<in> set (c_str v) then CHR 0x27 else quote"] c_str_name [OF assms(1)] c_str_encode [of v]
    by (simp add: Attribute_Print_def Let_def quote_def)
qed

lemma Attribute_Parse_printed:
  assumes "white w" "name_ok e n" "value_ok e v" "s \<noteq> []"
  shows "yields (Attribute_Parse doc e (Some (w @ Attribute_Print (n, v) @ s))) (Some s, n, v)"
  using assms(2,3)
proof (rule Attribute_Print_text)
  fix q assume q: "q = CHR 0x22 \<or> q = CHR 0x27" "Attribute_Print (n, v) = n @ CHR ''='' # q # encode v @ [q]"
  show ?thesis
    using Attribute_Parse_text [OF assms(1,2) q(1) copies_encode [OF q(1)], of v s doc] assms(3,4) q(2)
    by (simp add: value_ok_def)
qed

text \<open>Its first character, for the loop that looks for more attributes.\<close>

lemma Attribute_Print_hd:
  assumes "name_ok e n" "value_ok e v"
  shows "solid e (Attribute_Print (n, v) @ s) \<and> hd (Attribute_Print (n, v) @ s) \<notin> {CHR ''/'', CHR ''>''}"
  using assms
proof (rule Attribute_Print_text)
  fix q assume q: "Attribute_Print (n, v) = n @ CHR ''='' # q # encode v @ [q]"
  have "name_start (hd n)" "n \<noteq> []" using assms(1) by (auto simp: name_ok_def)
  moreover have "\<not> name_start (CHR ''/'')" "\<not> name_start (CHR ''>'')"
    by (simp_all add: name_start_def IsAlpha_def isalpha_def is_upper_def byte_of_def)
  ultimately show ?thesis using solid_name [OF assms(1), of "CHR ''=''"] q by (auto simp: byte_of_def)
qed

definition attributes_ok :: "TiXmlEncoding \<Rightarrow> (string \<times> string) list \<Rightarrow> bool" where
  "attributes_ok e as = (distinct (map fst as) \<and> list_all (\<lambda>(n, v). name_ok e n \<and> value_ok e v) as)"

lemma Find_None: "\<forall>a \<in> set as. name_ok e (fst a) \<Longrightarrow> name_ok e n \<Longrightarrow> n \<notin> fst ` set as \<Longrightarrow> Find as n = None"
  by (auto simp: Find_def find_None_iff c_str_name) (metis c_str_name fst_conv image_eqI)

lemma element_loop_attributes:
  "attributes_ok e (done @ as) \<Longrightarrow> length as \<le> n \<Longrightarrow> s \<noteq> [] \<Longrightarrow>
     yields (element_loop (n - length as) rv e nm (done @ as) (Some s)) x \<Longrightarrow>
     yields (element_loop n rv e nm done (Some (concat (map (\<lambda>a. '' '' @ Attribute_Print a) as) @ s))) x"
proof (induction as arbitrary: "done" n)
  case (Cons a as)
  obtain an v where a: "a = (an, v)" by (cases a)
  obtain m where n: "n = Suc m" using Cons.prems(2) by (cases n) auto
  have ok: "name_ok e an" "value_ok e v" using Cons.prems(1) by (auto simp: a attributes_ok_def)
  define r where "r = concat (map (\<lambda>a. '' '' @ Attribute_Print a) as) @ s"
  define t where "t = Attribute_Print (an, v) @ r"
  have r: "r \<noteq> []" using Cons.prems(3) by (simp add: r_def)
  have t: "solid e t" "t \<noteq> []" "hd t \<noteq> CHR ''/''" "hd t \<noteq> CHR ''>''"
    using Attribute_Print_hd [OF ok, of r] by (auto simp: t_def solid_def)
  have skip: "SkipWhiteSpace e (Some (CHR 0x20 # t)) = Some t"
    using SkipWhiteSpace_white [of "'' ''" e t] t(1) by simp
  have "yields (Attribute_Parse True e (Some t)) (Some r, an, v)"
    using Attribute_Parse_printed [of "[]", OF _ ok r] by (simp add: t_def)
  moreover have "Find done an = None"
    using Cons.prems(1) ok(1) by (intro Find_None [of _ e]) (auto simp: attributes_ok_def a list_all_iff)
  moreover have "yields (element_loop m rv e nm (done @ [(an, v)]) (Some r)) x"
    using Cons.IH [of "done @ [(an, v)]" m] Cons.prems n by (simp add: a r_def)
  ultimately have "yields (element_loop (Suc m) rv e nm done (Some (CHR 0x20 # t))) x"
    using r t by (auto simp: skip Add_def Let_def intro!: yields_bnd)
  then show ?case by (simp add: n a t_def r_def)
qed simp

section \<open>Trees that survive\<close>

definition raw_ok :: "string \<Rightarrow> bool" where
  "raw_ok v = (CHR 0x00 \<notin> set v \<and> CHR 0x0D \<notin> set v)"

text \<open>The end tag is not found before the end.\<close>

fun clean :: "string \<Rightarrow> string \<Rightarrow> bool" where
  "clean endTag [] = True"
| "clean endTag (c # v) = (\<not> prefix endTag (c # v @ endTag) \<and> clean endTag v)"

definition text_ok :: "TiXmlEncoding \<Rightarrow> string \<Rightarrow> bool" where
  "text_ok e v = (value_ok e v \<and> condensed True v \<and> \<not> Blank v)"

definition field_ok :: "TiXmlEncoding \<Rightarrow> string \<Rightarrow> bool" where
  "field_ok e v = (valid e v \<and> quote \<notin> set v \<and> CHR ''&'' \<notin> set v \<and> raw_ok v)"

definition unknown_ok :: "string \<Rightarrow> bool" where
  "unknown_ok v = (let t = CHR ''<'' # v in raw_ok v \<and> CHR ''>'' \<notin> set v \<and> \<not> starts t ''<?xml'' True \<and> \<not> starts t ''<!--'' False
     \<and> \<not> starts t ''<![CDATA['' False \<and> \<not> starts t ''</'' False
     \<and> (starts t ''<!'' False \<or> v = [] \<or> \<not> name_start (hd v)))"

definition plain_text :: "xnode \<Rightarrow> bool" where
  "plain_text node = (case node of XText v cdata \<Rightarrow> \<not> cdata | _ \<Rightarrow> False)"

text \<open>Two texts next to each other would be read as one.\<close>

fun apart :: "xnode list \<Rightarrow> bool" where
  "apart (k # l # ks) = (\<not> (plain_text k \<and> plain_text l) \<and> apart (l # ks))"
| "apart ks = True"

fun node_ok :: "TiXmlEncoding \<Rightarrow> xnode \<Rightarrow> bool" where
  "node_ok e (XElement nm as kids) =
     (name_ok e nm \<and> attributes_ok e as \<and> apart kids \<and> list_all (node_ok e) kids)"
| "node_ok e (XText v cdata) = (if cdata then raw_ok v \<and> clean '']]>'' v else text_ok e v)"
| "node_ok e (XComment v) = (raw_ok v \<and> clean ''-->'' v)"
| "node_ok e (XDeclaration version encoding standalone) =
     (field_ok e version \<and> field_ok e encoding \<and> field_ok e standalone)"
| "node_ok e (XUnknown v) = unknown_ok v"

text \<open>
  \<open>reparses\<close>: the printed node is white space, a tag, and white space; the tag is recognised and parsed to the
  node, whatever follows it.
\<close>

definition reparses :: "TiXmlEncoding \<Rightarrow> string \<Rightarrow> xnode \<Rightarrow> bool" where
  "reparses e txt node = (\<exists>pad body tail kind. white pad \<and> white tail \<and> txt = pad @ (CHR ''<'' # body) @ tail
     \<and> body \<noteq> [] \<and> hd body \<noteq> CHR ''/'' \<and> (\<forall>s. s \<noteq> [] \<longrightarrow> Identify e (Some (CHR ''<'' # body @ s)) = Some kind
       \<and> (\<forall>n. 2 * length (CHR ''<'' # body @ s) + 1 \<le> n \<longrightarrow>
            yields (Node_Parse n e kind (Some (CHR ''<'' # body @ s))) (Some s, node))))"

lemma white_indent [simp]: "white (indent d)"
  by (induction d) (simp_all add: indent_def)

lemma read_until_clean:
  "clean endTag v \<Longrightarrow> endTag \<noteq> [] \<Longrightarrow> read_until endTag (v @ endTag @ r) acc = (endTag @ r, acc @ v)"
proof (induction v arbitrary: acc)
  case Nil
  then obtain a l where al: "endTag @ r = a # l" by (cases "endTag @ r") auto
  then have "prefix endTag (a # l)" by (metis prefixI)
  then show ?case by (simp add: al starts_def)
next
  case (Cons c v)
  have "\<not> prefix endTag (c # v @ endTag @ r)"
  proof
    assume "prefix endTag (c # v @ endTag @ r)"
    moreover have "prefix (c # v @ endTag) (c # v @ endTag @ r)" by simp
    ultimately have "prefix endTag (c # v @ endTag)" by (rule prefix_length_prefix) simp
    then show False using Cons.prems(1) by simp
  qed
  then show ?case using Cons by (simp add: starts_def)
qed

lemma starts_lower [simp]: "starts (c # s) (d # t) True = (ToLower d = ToLower c \<and> starts s t True)" "starts s [] True"
  by (auto simp: starts_def)

lemma starts_same [simp]: "starts (c # s) (d # t) False = (d = c \<and> starts s t False)" "starts s [] False" "\<not> starts [] (d # t) ci"
  by (auto simp: starts_def)

lemma ToLower_simps [simp]:
  "ToLower (CHR ''<'') = CHR ''<''" "ToLower (CHR ''?'') = CHR ''?''" "ToLower (CHR ''!'') = CHR ''!''"
  by (simp_all add: ToLower_def is_upper_def byte_of_def)

lemma reparses_comment:
  assumes "raw_ok v" "clean ''-->'' v"
  shows "reparses e (Comment_Print depth v) (XComment v)"
proof -
  have "yields (Node_Parse n e KComment (Some (''<!--'' @ v @ ''-->'' @ s))) (Some s, XComment v)"
    if "2 * length (''<!--'' @ v @ ''-->'' @ s) + 1 \<le> n" for n s
    using that read_until_clean [OF assms(2), of s "[]"]
    by (cases n) (auto simp: Comment_Parse_def Let_def SkipWhiteSpace_solid intro!: yields_sq [OF yields_Stamp]
        yields_bnd_StringEqual yields_ret)
  then show ?thesis
    using assms(1) c_str_id [of v] unfolding reparses_def
    by (intro exI [of _ "indent depth"] exI [of _ "''!--'' @ v @ ''-->''"] exI [of _ "[]"] exI [of _ KComment])
      (simp add: Comment_Print_def raw_ok_def Identify_def Let_def SkipWhiteSpace_solid)
qed

lemma reparses_cdata:
  assumes "raw_ok v" "clean '']]>'' v"
  shows "reparses e (Text_Print depth v True) (XText v True)"
proof -
  have "yields (Node_Parse n e KCData (Some (''<![CDATA['' @ v @ '']]>'' @ s))) (Some s, XText v True)"
    if "2 * length (''<![CDATA['' @ v @ '']]>'' @ s) + 1 \<le> n" "s \<noteq> []" for n s
  proof -
    have "starts ('']]>'' @ s) '']]>'' False" by simp
    then have "read_keep e '']]>'' False ('']]>'' @ s) [] = Inr (Some ('']]>'' @ s), [])"
      by (simp add: read_keep_end)
    then have "ReadText e (Some ('']]>'' @ s)) False '']]>'' False = Inr (Some s, [])"
      using that(2) by (simp add: ReadText_def from_ptr_def)
    then show ?thesis
      using that read_until_clean [OF assms(2), of s "[]"]
      by (cases n) (auto simp: Text_Parse_def intro!: yields_sq [OF yields_Stamp] yields_bnd_StringEqual
          yields_bnd [OF yields_ret] yields_bnd [OF yields_raises] yields_ret)
  qed
  then show ?thesis
    using assms(1) c_str_id [of v] unfolding reparses_def
    by (intro exI [of _ "newline # indent depth"] exI [of _ "''![CDATA['' @ v @ '']]>''"] exI [of _ "[newline]"] exI [of _ KCData])
      (simp add: Text_Print_def raw_ok_def Identify_def Let_def SkipWhiteSpace_solid newline_def)
qed

lemma prefix_before: "prefix tag (xs @ c # s) \<Longrightarrow> c \<notin> set tag \<Longrightarrow> prefix tag xs"
  by (auto simp: prefix_append) (metis list.set_intros(1) prefix_Cons)

lemma stop_at: "c \<notin> set v \<Longrightarrow> takeWhile (\<lambda>x. x \<noteq> c) (v @ c # s) = v \<and> dropWhile (\<lambda>x. x \<noteq> c) (v @ c # s) = c # s"
  by (induction v) auto

lemma reparses_unknown:
  assumes "unknown_ok v"
  shows "reparses e (Unknown_Print depth v) (XUnknown v)"
proof -
  have v: "CHR ''>'' \<notin> set v" "raw_ok v" using assms by (simp_all add: unknown_ok_def Let_def)
  have "yields (Node_Parse n e KUnknown (Some (''<'' @ v @ ''>'' @ s))) (Some s, XUnknown v)"
    if "2 * length (''<'' @ v @ ''>'' @ s) + 1 \<le> n" for n s
    using that v(1) by (cases n) (auto simp: Unknown_Parse_def Let_def SkipWhiteSpace_solid stop_at
        intro!: yields_sq [OF yields_Stamp] yields_ret)
  moreover have "Identify e (Some (''<'' @ v @ ''>'' @ s)) = Some KUnknown" for s
  proof -
    have long: "starts (v @ CHR ''>'' # s) tag False \<Longrightarrow> CHR ''>'' \<notin> set tag \<Longrightarrow> starts v tag False" for tag
      using prefix_before by (fastforce simp: starts_def)
    have "\<not> starts (v @ CHR ''>'' # s) ''?xml'' True"
    proof
      assume "starts (v @ CHR ''>'' # s) ''?xml'' True"
      then have "prefix (map ToLower ''?xml'') (map ToLower v @ ToLower (CHR ''>'') # map ToLower s)"
        by (simp add: starts_def)
      then have "prefix (map ToLower ''?xml'') (map ToLower v)"
        by (rule prefix_before) (simp add: ToLower_def is_upper_def byte_of_def)
      then show False using assms by (simp add: unknown_ok_def Let_def starts_def)
    qed
    moreover have "1 < length (''<'' @ v @ ''>'' @ s) \<and> name_start ((''<'' @ v @ ''>'' @ s) ! 1) \<Longrightarrow>
        v \<noteq> [] \<and> name_start (hd v)"
      by (cases v) (simp_all add: name_start_def IsAlpha_def isalpha_def is_upper_def byte_of_def)
    moreover have "starts v ''!'' False \<Longrightarrow> starts (v @ CHR ''>'' # s) ''!'' False" by (cases v) auto
    ultimately show ?thesis
      using assms long [of "''!--''"] long [of "''![CDATA[''"]
      by (auto simp: Identify_def Let_def SkipWhiteSpace_solid unknown_ok_def)
  qed
  moreover have "hd (v @ ''>'') \<noteq> CHR ''/''" using assms by (cases v) (auto simp: unknown_ok_def Let_def)
  ultimately show ?thesis
    using v(2) c_str_id [of v] unfolding reparses_def
    by (intro exI [of _ "indent depth"] exI [of _ "v @ ''>''"] exI [of _ "[]"] exI [of _ KUnknown])
      (simp add: Unknown_Print_def raw_ok_def)
qed

text \<open>A declaration: its fields are read one by one, each up to the blank behind it.\<close>

lemma ToLower_low: "97 \<le> byte_of c \<Longrightarrow> ToLower c = c"
  by (simp add: ToLower_def is_upper_def)

lemma ToLower_letters [simp]:
  "ToLower (CHR ''v'') = CHR ''v''" "ToLower (CHR ''e'') = CHR ''e''" "ToLower (CHR ''s'') = CHR ''s''"
  "ToLower (CHR ''x'') = CHR ''x''" "ToLower (CHR ''m'') = CHR ''m''" "ToLower (CHR ''l'') = CHR ''l''"
  by (simp_all add: ToLower_low byte_of_def)

lemma name_ok_field: "name_ok e ''version''" "name_ok e ''encoding''" "name_ok e ''standalone''"
  by (simp_all add: name_ok_def name_start_def name_char_def IsAlpha_def IsAlphaNum_def isalpha_def is_upper_def
      skipped_mark_def lead_bytes_def byte_of_def)

lemma declaration_attribute:
  assumes "name_ok e nm" "field_ok e v" "v \<noteq> []"
  shows "yields (Attribute_Parse False e (Some (declaration_field nm v @ X))) (Some (CHR 0x20 # X), nm, v)"
  using Attribute_Parse_text [of "[]" e nm quote "\<lambda>s. s" _ v "CHR 0x20 # X" False, OF _ assms(1) _ copies_raw] assms c_str_id [of v]
  by (simp add: declaration_field_def field_ok_def raw_ok_def quote_def)

lemma declaration_skip:
  assumes "name_ok e nm" "v \<noteq> []"
  shows "SkipWhiteSpace e (Some (CHR 0x20 # declaration_field nm v @ X)) = Some (declaration_field nm v @ X)"
  using SkipWhiteSpace_white [of "'' ''" e "declaration_field nm v @ X"] assms(2) solid_name [OF assms(1), of "CHR ''=''"]
  by (simp add: declaration_field_def byte_of_def)

lemma declaration_end:
  assumes "2 \<le> m"
  shows "yields (declaration_loop m e (Some ('' ?>'' @ s)) ve en st) (Some s, XDeclaration ve en st)"
proof -
  obtain k where m: "m = Suc (Suc k)" using assms by (metis add_2_eq_Suc le_Suc_ex)
  have "SkipWhiteSpace e (Some ('' ?>'' @ s)) = Some (''?>'' @ s)" using SkipWhiteSpace_white [of "'' ''" e "''?>'' @ s"] by simp
  moreover have "over_it (''?>'' @ s) = ''>'' @ s"
    by (simp add: over_it_def IsWhiteSpace_def byte_of_def)
  moreover have "\<not> starts (''?>'' @ s) ''version'' True" "\<not> starts (''?>'' @ s) ''encoding'' True"
      "\<not> starts (''?>'' @ s) ''standalone'' True"
    by simp_all
  ultimately show ?thesis
    by (auto simp: m Let_def intro!: yields_bnd_StringEqual yields_ret)
qed

lemma declaration_fields:
  assumes "field_ok e ve" "field_ok e en" "field_ok e st" "5 \<le> m"
  shows "yields (declaration_loop m e (Some (CHR 0x20 # declaration_field ''version'' ve @ declaration_field ''encoding'' en
    @ declaration_field ''standalone'' st @ ''?>'' @ s)) [] [] []) (Some s, XDeclaration ve en st)"
proof -
  have c: "c_str ve = ve" "c_str en = en" "c_str st = st" using assms c_str_id by (auto simp: field_ok_def raw_ok_def)
  have st: "yields (declaration_loop k e (Some (CHR 0x20 # declaration_field ''standalone'' st @ ''?>'' @ s)) ve en [])
      (Some s, XDeclaration ve en st)" if "3 \<le> k" for k
  proof (cases "st = []")
    case True
    then show ?thesis using declaration_end [of k e s ve en "[]"] that by (simp add: declaration_field_def)
  next
    case False
    from that obtain j where k: "k = Suc j" by (cases k) auto
    have "starts (declaration_field ''standalone'' st @ ''?>'' @ s) ''standalone'' True"
        "\<not> starts (declaration_field ''standalone'' st @ ''?>'' @ s) ''version'' True"
        "\<not> starts (declaration_field ''standalone'' st @ ''?>'' @ s) ''encoding'' True"
      using False by (simp_all add: declaration_field_def)
    then show ?thesis
      using False that k declaration_end [of j e s ve en st]
      by (auto simp: Let_def declaration_skip [OF name_ok_field(3)] c declaration_field_def [of _ "[]"]
          intro!: yields_bnd_StringEqual yields_bnd [OF declaration_attribute [OF name_ok_field(3) assms(3)]])
  qed
  have en: "yields (declaration_loop k e (Some (CHR 0x20 # declaration_field ''encoding'' en
        @ declaration_field ''standalone'' st @ ''?>'' @ s)) ve [] []) (Some s, XDeclaration ve en st)" if "4 \<le> k" for k
  proof (cases "en = []")
    case True
    then show ?thesis using st [of k] that by (simp add: declaration_field_def [of _ "[]"])
  next
    case False
    from that obtain j where k: "k = Suc j" by (cases k) auto
    let ?Y = "declaration_field ''encoding'' en @ declaration_field ''standalone'' st @ ''?>'' @ s"
    have "starts ?Y ''encoding'' True" "\<not> starts ?Y ''version'' True" "?Y \<noteq> []"
      using False by (simp_all add: declaration_field_def [of _ en])
    then show ?thesis
      using that k st [of j]
      by (auto simp: Let_def declaration_skip [OF name_ok_field(2) False] c
          intro!: yields_bnd_StringEqual yields_bnd [OF declaration_attribute [OF name_ok_field(2) assms(2) False]])
  qed
  show ?thesis
  proof (cases "ve = []")
    case True
    then show ?thesis using en [of m] assms(4) by (simp add: declaration_field_def [of _ "[]"])
  next
    case False
    from assms(4) obtain j where m: "m = Suc j" by (cases m) auto
    let ?Y = "declaration_field ''version'' ve @ declaration_field ''encoding'' en @ declaration_field ''standalone'' st @ ''?>'' @ s"
    have "starts ?Y ''version'' True" "?Y \<noteq> []"
      using False by (simp_all add: declaration_field_def [of _ ve])
    then show ?thesis
      using assms(4) m en [of j]
      by (auto simp: Let_def declaration_skip [OF name_ok_field(1) False] c
          intro!: yields_bnd_StringEqual yields_bnd [OF declaration_attribute [OF name_ok_field(1) assms(1) False]])
  qed
qed

lemma reparses_declaration:
  assumes "field_ok e ve" "field_ok e en" "field_ok e st"
  shows "reparses e (Declaration_Print ve en st) (XDeclaration ve en st)"
proof -
  let ?b = "''?xml '' @ declaration_field ''version'' ve @ declaration_field ''encoding'' en
     @ declaration_field ''standalone'' st @ ''?>''"
  have "yields (Node_Parse n e KDeclaration (Some (CHR ''<'' # ?b @ s))) (Some s, XDeclaration ve en st)"
    if "2 * length (CHR ''<'' # ?b @ s) + 1 \<le> n" for n s
  proof -
    have "yields (declaration_loop (length (CHR ''<'' # ?b @ s)) e (Some (CHR 0x20 # declaration_field ''version'' ve
        @ declaration_field ''encoding'' en @ declaration_field ''standalone'' st @ ''?>'' @ s)) [] [] [])
        (Some s, XDeclaration ve en st)"
      using assms by (intro declaration_fields) simp_all
    then show ?thesis
      using that by (cases n) (auto simp: Declaration_Parse_def Let_def SkipWhiteSpace_solid
          intro!: yields_sq [OF yields_Stamp] simp del: declaration_loop.simps)
  qed
  then show ?thesis
    unfolding reparses_def
    by (intro exI [of _ "[]"] exI [of _ ?b] exI [of _ KDeclaration])
      (simp add: Declaration_Print_def Identify_def Let_def SkipWhiteSpace_solid)
qed

end
