(* ===== verification/TinyXml_Roundtrip.thy ===== *)
theory TinyXml_Roundtrip
  imports TinyXml_Tokens
begin

text \<open>
  A document that was printed is parsed back: first elements with their children, by induction on the tree, then the
  nodes of a document, where a declaration settles the encoding of what follows it, and last the file that is saved
  and loaded again.
\<close>

section \<open>Elements that survive\<close>

text \<open>A text among the children, up to the next tag.\<close>

lemma solid_text:
  assumes "text_ok e v"
  shows "solid e (encode v @ r) \<and> hd (encode v @ r) \<noteq> CHR ''<''"
proof -
  have v: "valid e v" "v \<noteq> []" "condensed True v" using assms by (auto simp: text_ok_def value_ok_def Blank_def)
  then have blank: "hd v \<noteq> CHR 0x20" by (cases v) auto
  note first = encode_first_hd [OF v(1,2)]
  have enc: "encode v @ r = encode (first_char e v) @ encode (other_chars e v) @ r"
    using encode_first_other [of e v] by (metis append.assoc)
  then have hd: "hd (encode v @ r) = hd (encode (first_char e v))" "encode v @ r \<noteq> []" using first by auto
  have "\<not> skipped_mark (encode v @ r)" if utf8: "e = TIXML_ENCODING_UTF8"
  proof
    assume mark: "skipped_mark (encode v @ r)"
    then have "hd (encode v @ r) = CHR 0xEF"
      by (cases "encode v @ r") (auto simp: skipped_mark_def lead_bytes_def)
    then have ef: "hd v = CHR 0xEF" using first hd by auto
    then have len: "char_length e (hd v) = 3" using utf8 by (simp add: char_length_def utf8ByteTable_def byte_of_def)
    show False using v(1,2)
    proof (cases rule: valid_first_char)
      case 1
      then show ?thesis using len by simp
    next
      case 2
      then have "take 3 (encode v @ r) = take 3 v"
        using enc len encode_high [OF 2(1)] ef utf8 by (simp add: first_char_def char_length_def)
      then have "skipped_mark v" using mark by (simp add: skipped_mark_def lead_bytes_def)
      then show ?thesis using v utf8 by (cases v) (auto simp: Let_def)
    qed
  qed
  moreover have "\<not> IsWhiteSpace (hd (encode v @ r))"
    using first hd blank by (auto simp: IsWhiteSpace_def byte_32; simp add: byte_of_def)
  ultimately show ?thesis using first hd by (auto simp: solid_def)
qed

lemma Text_Parse_text:
  assumes "text_ok e v" "white w" "r \<noteq> []"
  shows "yields (Text_Parse False e (Some (encode v @ w @ CHR ''<'' # r))) (Some (CHR ''<'' # r), XText v False)"
proof -
  let ?t = "encode v @ w @ CHR ''<'' # r"
  note s = solid_text [OF assms(1), of "w @ CHR ''<'' # r"]
  have "valid e v" "condensed True v" "v \<noteq> []" using assms(1) by (auto simp: text_ok_def value_ok_def Blank_def)
  then have "condensed False v" by (cases v) auto
  then have "read_condense e ''<'' False ?t False [] = Inr (Some (CHR ''<'' # r), v)"
    using read_condense_encode [OF \<open>valid e v\<close> _ assms(2), of False r "[]"] by simp
  then have "ReadText e (Some ?t) True ''<'' False = Inr (Some r, v)"
    using s assms(3) by (simp add: ReadText_def condenseWhiteSpace_def from_ptr_def SkipWhiteSpace_solid)
  moreover have "\<not> starts ?t ''<![CDATA['' False"
    using s unfolding solid_def by (cases ?t) auto
  ultimately show ?thesis
    using assms(3) by (auto simp: Text_Parse_def intro!: yields_sq [OF yields_Stamp] yields_bnd_StringEqual
        yields_bnd [OF yields_raises] yields_ret)
qed

text \<open>The children one after the other, as \<open>TiXmlElement::Print\<close> writes them.\<close>

definition content :: "nat \<Rightarrow> xnode list \<Rightarrow> string" where
  "content depth kids = concat (map (\<lambda>k. (if is_text k then [] else [newline]) @ Node_Print depth k) kids)"

definition kid_ok :: "TiXmlEncoding \<Rightarrow> nat \<Rightarrow> xnode \<Rightarrow> bool" where
  "kid_ok e depth k = (case k of XText v False \<Rightarrow> text_ok e v | _ \<Rightarrow> reparses e (Node_Print depth k) k)"

text \<open>What follows a text is a tag, after white space.\<close>

lemma content_tag:
  assumes "\<forall>k \<in> set kids. kid_ok e depth k" "white w" "kids \<noteq> [] \<Longrightarrow> \<not> plain_text (hd kids)"
  shows "\<exists>u r. white u \<and> r \<noteq> [] \<and> content depth kids @ w @ ''</'' @ s = u @ CHR ''<'' # r"
proof (cases kids)
  case Nil
  then show ?thesis using assms(2) by (intro exI [of _ w] exI [of _ "CHR ''/'' # s"]) (simp add: content_def)
next
  case (Cons k ks)
  then have "reparses e (Node_Print depth k) k"
    using assms(1,3) by (cases k) (auto simp: kid_ok_def plain_text_def split: bool.splits)
  then obtain pad body tail where "white pad" "Node_Print depth k = pad @ (CHR ''<'' # body) @ tail" "body \<noteq> []"
    by (auto simp: reparses_def)
  then show ?thesis
    by (intro exI [of _ "(if is_text k then [] else [newline]) @ pad"]
        exI [of _ "body @ tail @ content depth ks @ w @ ''</'' @ s"])
      (simp add: Cons content_def newline_def)
qed

lemma ReadValue_white: "white w \<Longrightarrow> solid e p \<Longrightarrow> ReadValue n e kids (Some (w @ p)) = ReadValue n e kids (Some p)"
  by (cases n) (simp_all add: SkipWhiteSpace_white SkipWhiteSpace_solid condenseWhiteSpace_def Let_def)

lemma ReadValue_kids:
  assumes "\<forall>k \<in> set kids. kid_ok e depth k" "apart kids" "white w" "white w'"
    and "2 * length (w @ content depth kids @ w' @ ''</'' @ s) + 2 \<le> n"
  shows "yields (ReadValue n e acc (Some (w @ content depth kids @ w' @ ''</'' @ s))) (Some (''</'' @ s), acc @ kids)"
  using assms(1-3,5)
proof (induction kids arbitrary: w acc n)
  case Nil
  then have "SkipWhiteSpace e (Some (w @ w' @ ''</'' @ s)) = Some (''</'' @ s)"
    using SkipWhiteSpace_white [of "w @ w'" e "''</'' @ s"] assms(4) by simp
  then show ?case
    using Nil.prems(4) by (cases n) (auto simp: content_def Let_def intro!: yields_bnd_StringEqual yields_ret)
next
  case (Cons k ks)
  obtain m where n: "n = Suc m" using Cons.prems(4) by (cases n) auto
  have ks: "\<forall>k \<in> set ks. kid_ok e depth k" "apart ks" using Cons.prems(1,2) by (auto, cases ks) auto
  let ?rest = "content depth ks @ w' @ ''</'' @ s"
  show ?case
  proof (cases "plain_text k")
    case True
    then obtain v where k: "k = XText v False" by (cases k) (auto simp: plain_text_def)
    have ok: "text_ok e v" using Cons.prems(1) by (simp add: k kid_ok_def)
    have "ks \<noteq> [] \<Longrightarrow> \<not> plain_text (hd ks)" using Cons.prems(2) True by (cases ks) auto
    then obtain u r where r: "white u" "r \<noteq> []" "?rest = u @ CHR ''<'' # r"
      using content_tag [OF ks(1) assms(4), of s] by blast
    have printed: "content depth (k # ks) @ w' @ ''</'' @ s = encode v @ u @ CHR ''<'' # r"
      using ok c_str_encode [of v] r(3)
      by (simp add: content_def k is_text_def Text_Print_def text_ok_def value_ok_def EncodeString_encode)
    note sol = solid_text [OF ok, of "u @ CHR ''<'' # r"]
    have "encode v \<noteq> []" using ok by (cases v) (auto simp: text_ok_def Blank_def encode_char_def hex_reference_def)
    moreover have "length (content depth (k # ks) @ w' @ ''</'' @ s) = length (encode v) + length ?rest"
      unfolding printed r(3) by simp
    ultimately have "2 * length ?rest + 2 \<le> m" using Cons.prems(4) n by (cases "encode v") auto
    then have "yields (ReadValue m e (acc @ [k]) (Some ?rest)) (Some (''</'' @ s), (acc @ [k]) @ ks)"
      using Cons.IH [of "[]" m "acc @ [k]"] ks by simp
    then have "yields (ReadValue m e (acc @ [k]) (Some (CHR ''<'' # r))) (Some (''</'' @ s), acc @ k # ks)"
      using ReadValue_white [of u e "CHR ''<'' # r"] r by simp
    moreover have "\<not> Blank v" using ok by (simp add: text_ok_def)
    ultimately show ?thesis
      unfolding printed n using sol Cons.prems(3)
      by (auto simp: Let_def SkipWhiteSpace_white condenseWhiteSpace_def k solid_def
          intro!: yields_bnd [OF Text_Parse_text [OF ok r(1,2)]])
  next
    case False
    then have "reparses e (Node_Print depth k) k"
      using Cons.prems(1) by (cases k) (auto simp: kid_ok_def plain_text_def split: bool.splits)
    then obtain pad body tail kind where k: "white pad" "white tail" "Node_Print depth k = pad @ (CHR ''<'' # body) @ tail"
        "body \<noteq> []" "hd body \<noteq> CHR ''/''"
        and parse: "\<And>s. s \<noteq> [] \<Longrightarrow> Identify e (Some (CHR ''<'' # body @ s)) = Some kind"
        "\<And>s n. s \<noteq> [] \<Longrightarrow> 2 * length (CHR ''<'' # body @ s) + 1 \<le> n \<Longrightarrow>
            yields (Node_Parse n e kind (Some (CHR ''<'' # body @ s))) (Some s, k)"
      unfolding reparses_def by blast
    let ?S = "tail @ ?rest"
    have S: "?S \<noteq> []" by simp
    define u where "u = w @ (if is_text k then [] else [newline]) @ pad"
    have u: "white u" using Cons.prems(3) k(1) by (simp add: u_def newline_def)
    have printed: "w @ content depth (k # ks) @ w' @ ''</'' @ s = u @ CHR ''<'' # body @ ?S"
      by (simp add: content_def u_def k(3))
    have len: "2 * length (u @ CHR ''<'' # body @ ?S) + 2 \<le> n"
      using Cons.prems(4) unfolding printed by simp
    have "yields (ReadValue m e (acc @ [k]) (Some ?S)) (Some (''</'' @ s), (acc @ [k]) @ ks)"
      using Cons.IH [of tail m "acc @ [k]"] ks k(2) len n by simp
    moreover have node: "yields (Node_Parse m e kind (Some (CHR ''<'' # body @ ?S))) (Some ?S, k)"
      using len n by (intro parse(2) [OF S]) simp
    moreover have "\<not> starts (CHR ''<'' # body @ ?S) ''</'' False"
      using k(4,5) by (cases body) auto
    ultimately show ?thesis
      unfolding printed n using u parse(1) [OF S]
      by (auto simp: Let_def SkipWhiteSpace_white intro!: yields_bnd_StringEqual yields_bnd [OF node [simplified]])
  qed
qed

lemma attribute_walk_ok: "attributes_ok e as \<Longrightarrow> attribute_walk as = as"
  by (cases as) (auto simp: attribute_walk_def attributes_ok_def name_ok_def list_all_iff takeWhile_eq_all_conv)

text \<open>The tag of an element and what comes behind its attributes.\<close>

lemma Element_Parse_printed:
  assumes "name_ok e nm" "attributes_ok e as"
    and "\<And>n. 0 < n \<Longrightarrow> yields (element_loop n rv e nm as (Some rest)) x"
    and "rest = c # rest'" "c = CHR 0x20 \<or> c = CHR ''>''"
  shows "yields (Element_Parse rv e (Some (CHR ''<'' # nm @ concat (map (\<lambda>a. '' '' @ Attribute_Print a) as) @ rest))) x"
proof -
  let ?attrs = "concat (map (\<lambda>a. '' '' @ Attribute_Print a) as)"
  have len: "length as \<le> length ?attrs" by (induction as) simp_all
  obtain d t where d: "?attrs @ rest = d # t" "d = CHR 0x20 \<or> d = CHR ''>''"
    using assms(4,5) by (cases as) auto
  have name: "ReadName (nm @ ?attrs @ rest) = (Some (?attrs @ rest), nm)"
    using d ReadName_name [OF assms(1), of d t] by auto
  have skip: "SkipWhiteSpace e (Some (nm @ ?attrs @ rest)) = Some (nm @ ?attrs @ rest)"
    using d solid_name [OF assms(1), of d t] by (auto simp: SkipWhiteSpace_solid byte_of_def)
  have "yields (element_loop (length (?attrs @ rest)) rv e nm [] (Some (?attrs @ rest))) x"
    using len assms(2-4) by (intro element_loop_attributes) auto
  then show ?thesis
    using name skip assms(4) unfolding Element_Parse_def Let_def
    by (auto simp: SkipWhiteSpace_solid intro!: yields_sq [OF yields_Stamp] yields_sq [OF yields_check])
qed

lemma element_empty: "0 < n \<Longrightarrow> yields (element_loop n rv e nm as (Some ('' />'' @ s))) (Some s, XElement nm as [])"
  using SkipWhiteSpace_white [of "'' ''" e "''/>'' @ s"]
  by (cases n) (auto simp: Let_def intro!: yields_ret)

lemma element_filled:
  assumes "yields (rv (Some (body @ ''</'' @ nm @ ''>'' @ s))) (Some (''</'' @ nm @ ''>'' @ s), kids)" "0 < n"
  shows "yields (element_loop n rv e nm as (Some (''>'' @ body @ ''</'' @ nm @ ''>'' @ s))) (Some s, XElement nm as kids)"
proof -
  have "starts (''</'' @ nm @ ''>'' @ s) (''</'' @ nm) False" by (simp add: starts_def)
  then have "yields (element_content rv e nm as (body @ ''</'' @ nm @ ''>'' @ s)) (Some s, XElement nm as kids)"
    unfolding element_content_def
    by (auto simp: Let_def SkipWhiteSpace_solid intro!: yields_bnd [OF assms(1) [simplified]] yields_bnd_StringEqual yields_ret)
  then show ?thesis using assms(2) by (cases n) (auto simp: Let_def SkipWhiteSpace_solid)
qed

text \<open>How an element with children is printed.\<close>

lemma Node_Print_filled:
  assumes "kids \<noteq> []" "name_ok e nm" "attributes_ok e as"
  obtains w where "white w" "Node_Print depth (XElement nm as kids) = indent depth @ CHR ''<'' # nm
     @ concat (map (\<lambda>a. '' '' @ Attribute_Print a) as) @ ''>'' @ content (Suc depth) kids @ w @ ''</'' @ nm @ ''>''"
proof (cases "\<exists>v cdata. kids = [XText v cdata]")
  case True
  then show ?thesis
    using that [of "[]"] c_str_name [OF assms(2)] attribute_walk_ok [OF assms(3)] by (auto simp: content_def is_text_def)
next
  case False
  then have "(case kids of [] \<Rightarrow> a | [XText v cdata] \<Rightarrow> f v cdata | _ \<Rightarrow> b) = b" for a b :: string and f
    using assms(1) by (auto split: list.split xnode.split)
  then show ?thesis
    using that [of "newline # indent depth"] c_str_name [OF assms(2)] attribute_walk_ok [OF assms(3)]
    by (simp add: content_def newline_def)
qed

lemma name_start_no_mark: "name_start c \<Longrightarrow> CHR ''?'' \<noteq> ToLower c \<and> CHR ''!'' \<noteq> c"
proof -
  assume c: "name_start c"
  have "\<not> name_start (CHR ''?'')" "\<not> name_start (CHR ''!'')"
    by (simp_all add: name_start_def IsAlpha_def isalpha_def is_upper_def byte_of_def)
  moreover have "byte_of (ToLower c) \<noteq> byte_of (CHR ''?'')" if "is_upper c"
    using that by (simp add: ToLower_def is_upper_def byte_of_char_of) (simp add: byte_of_def)
  ultimately show ?thesis using c by (auto simp: ToLower_def split: if_splits)
qed

lemma Identify_element: "name_ok e nm \<Longrightarrow> Identify e (Some (CHR ''<'' # nm @ s)) = Some KElement"
proof -
  assume "name_ok e nm"
  then obtain c n where c: "nm = c # n" "name_start c" by (cases nm) (auto simp: name_ok_def)
  then show ?thesis using name_start_no_mark [OF c(2)] by (simp add: Identify_def Let_def SkipWhiteSpace_solid c)
qed

lemma reparses_element:
  assumes "name_ok e nm" "attributes_ok e as" "apart kids" "\<forall>k \<in> set kids. kid_ok e (Suc depth) k"
  shows "reparses e (Node_Print depth (XElement nm as kids)) (XElement nm as kids)"
proof -
  let ?attrs = "concat (map (\<lambda>a. '' '' @ Attribute_Print a) as)"
  obtain w where w: "white w" and printed: "Node_Print depth (XElement nm as kids) = indent depth @ CHR ''<'' # nm @ ?attrs
      @ (if kids = [] then '' />'' else ''>'' @ content (Suc depth) kids @ w @ ''</'' @ nm @ ''>'')"
  proof (cases "kids = []")
    case True
    then show ?thesis using that [of "[]"] c_str_name [OF assms(1)] attribute_walk_ok [OF assms(2)] by simp
  next
    case False
    then show ?thesis using Node_Print_filled [OF _ assms(1,2), of kids depth] that by auto
  qed
  define tail where "tail = (if kids = [] then '' />'' else ''>'' @ content (Suc depth) kids @ w @ ''</'' @ nm @ ''>'')"
  have "yields (Node_Parse n e KElement (Some (CHR ''<'' # (nm @ ?attrs @ tail) @ s))) (Some s, XElement nm as kids)"
    if enough: "2 * length (CHR ''<'' # (nm @ ?attrs @ tail) @ s) + 1 \<le> n" for n s
  proof -
    from enough obtain m where n: "n = Suc m" by (cases n) auto
    have loop: "yields (element_loop k (ReadValue m e []) e nm as (Some (tail @ s))) (Some s, XElement nm as kids)"
      if "0 < k" for k
    proof (cases "kids = []")
      case True
      then show ?thesis using element_empty [OF that] by (simp add: tail_def)
    next
      case False
      have "yields (ReadValue m e [] (Some ((content (Suc depth) kids @ w) @ ''</'' @ nm @ ''>'' @ s)))
          (Some (''</'' @ nm @ ''>'' @ s), kids)"
        using ReadValue_kids [OF assms(4,3), of "[]" w "nm @ ''>'' @ s" m "[]"] w enough n False by (simp add: tail_def)
      then show ?thesis using element_filled [OF _ that] False by (fastforce simp: tail_def)
    qed
    obtain c rest' where "tail @ s = c # rest'" "c = CHR 0x20 \<or> c = CHR ''>''" by (cases "kids = []") (auto simp: tail_def)
    then show ?thesis
      using Element_Parse_printed [OF assms(1,2) loop] n by simp
  qed
  moreover have "Identify e (Some (CHR ''<'' # (nm @ ?attrs @ tail) @ s)) = Some KElement" for s
    using Identify_element [OF assms(1), of "?attrs @ tail @ s"] by simp
  moreover have "hd nm \<noteq> CHR ''/''" "nm \<noteq> []"
    using assms(1) not_name_char(4) by (auto simp: name_ok_def neq_Nil_conv)
  ultimately show ?thesis
    unfolding reparses_def printed tail_def [symmetric]
    by (intro exI [of _ "indent depth"] exI [of _ "nm @ ?attrs @ tail"] exI [of _ "[]"] exI [of _ KElement]) simp
qed

lemma node_reparses: "node_ok e k \<Longrightarrow> kid_ok e depth k"
proof (induction k arbitrary: depth)
  case (XElement nm as kids)
  then have "\<forall>k \<in> set kids. kid_ok e (Suc depth) k" by (auto simp: list_all_iff)
  then show ?case using XElement.prems reparses_element [of e nm as kids depth] by (simp add: kid_ok_def del: Node_Print.simps)
next
  case (XText v cdata)
  then show ?case by (simp add: kid_ok_def reparses_cdata split: bool.split)
qed (simp_all add: kid_ok_def reparses_comment reparses_declaration reparses_unknown)

section \<open>Documents that survive\<close>

fun nodes_ok :: "TiXmlEncoding \<Rightarrow> xnode list \<Rightarrow> bool" where
  "nodes_ok e [] = True"
| "nodes_ok e (k # ks) = (node_ok e k \<and> \<not> plain_text k \<and> nodes_ok (next_encoding e k) ks)"

definition document_encoding :: "bool \<Rightarrow> TiXmlEncoding" where
  "document_encoding bom = (if bom then TIXML_ENCODING_UTF8 else TIXML_ENCODING_UNKNOWN)"

lemma Document_Print_simps [simp]:
  "Document_Print [] = []" "Document_Print (k # ks) = Node_Print 0 k @ newline # Document_Print ks"
  by (simp_all add: Document_Print_def)

lemma nodes_ok_reparses: "nodes_ok e (k # ks) \<Longrightarrow> reparses e (Node_Print 0 k) k"
  using node_reparses [of e k 0] by (cases k) (auto simp: kid_ok_def plain_text_def split: bool.splits)

lemma skip_white_white: "white w \<Longrightarrow> skip_white e w = []"
proof (induction w)
  case (Cons c w)
  then have "\<not> skipped_mark (c # w)" by (auto simp: skipped_mark_def lead_bytes_def)
  then show ?case using Cons white_is_white [of c w] by auto
qed simp

text \<open>The places move, the nodes are added.\<close>

lemma document_loop_printed:
  "nodes_ok e ks \<Longrightarrow> white w \<Longrightarrow> length (w @ Document_Print ks) < n \<Longrightarrow> countable_text d \<Longrightarrow>
     \<exists>t r. document_loop n e (SkipWhiteSpace e (Some (w @ Document_Print ks))) d = Inr (r, t)
       \<and> doc_nodes t = doc_nodes d @ ks \<and> useMicrosoftBOM t = useMicrosoftBOM d \<and> errorId t = errorId d"
proof (induction ks arbitrary: e w n d)
  case Nil
  have "\<not> live (SkipWhiteSpace e (Some w))"
    using Nil.prems(2) by (simp add: SkipWhiteSpace_def skip_white_white)
  then show ?case using Nil.prems(3) by (cases n) (simp_all add: ret_def)
next
  case (Cons k ks)
  obtain m where n: "n = Suc m" using Cons.prems(3) by (cases n) auto
  obtain pad body tail kind where k: "white pad" "white tail" "Node_Print 0 k = pad @ (CHR ''<'' # body) @ tail"
      and parse: "\<And>s. s \<noteq> [] \<Longrightarrow> Identify e (Some (CHR ''<'' # body @ s)) = Some kind"
      "\<And>s n. s \<noteq> [] \<Longrightarrow> 2 * length (CHR ''<'' # body @ s) + 1 \<le> n \<Longrightarrow>
            yields (Node_Parse n e kind (Some (CHR ''<'' # body @ s))) (Some s, k)"
    using nodes_ok_reparses [OF Cons.prems(1)] unfolding reparses_def by blast
  let ?S = "tail @ newline # Document_Print ks"
  let ?p = "CHR ''<'' # body @ ?S"
  have skip: "SkipWhiteSpace e (Some (w @ Document_Print (k # ks))) = Some ?p"
    using SkipWhiteSpace_white [of "w @ pad" e ?p] Cons.prems(2) k(1,3) by simp
  obtain t where t: "Node_Parse (Suc (2 * length ?p)) e kind (Some ?p) d = Inr ((Some ?S, k), t)"
      "countable_text t" "quiet d t"
    using yieldsD [OF parse(2) [of ?S "Suc (2 * length ?p)"] Cons.prems(4)] by auto
  define t' where "t' = t\<lparr>doc_nodes := doc_nodes t @ [k]\<rparr>"
  have "length ((tail @ [newline]) @ Document_Print ks) < m"
    using Cons.prems(3) n k(3) by simp
  then obtain u r where u: "document_loop m (next_encoding e k) (SkipWhiteSpace (next_encoding e k) (Some ?S)) t' = Inr (r, u)"
      "doc_nodes u = doc_nodes t' @ ks" "useMicrosoftBOM u = useMicrosoftBOM t'" "errorId u = errorId t'"
    using Cons.IH [of "next_encoding e k" "tail @ [newline]" m t'] Cons.prems(1) k(2) t(2)
    by (auto simp: newline_def t'_def)
  have "document_loop n e (Some ?p) d = Inr (r, u)"
    using parse(1) [of ?S] t(1) u(1) by (simp add: n bnd_def sq_def LinkEndChild_def modify_def t'_def Let_def)
  then show ?case
    using u quiet_fields [OF t(3)] unfolding skip by (auto simp: t'_def)
qed

text \<open>A printed document has no null character and no carriage return, so that the file is what the parser sees.\<close>

lemma raw_ok_simps [simp]:
  "raw_ok []" "raw_ok (c # s) = (c \<noteq> CHR 0x00 \<and> c \<noteq> CHR 0x0D \<and> raw_ok s)" "raw_ok (s @ t) = (raw_ok s \<and> raw_ok t)"
  "raw_ok (concat ss) = (\<forall>s \<in> set ss. raw_ok s)"
  by (auto simp: raw_ok_def)

lemma raw_ok_encode [simp]: "raw_ok (encode v)"
  unfolding raw_ok_def using encode_printable printable_no_control by blast

lemma raw_ok_name: "name_ok e n \<Longrightarrow> raw_ok n"
  using name_char_byte printable_no_control [of n] by (auto simp: raw_ok_def name_ok_def list_all_iff)

lemma raw_ok_indent [simp]: "raw_ok (indent d)"
  by (simp add: indent_def)

lemma raw_ok_c_str: "raw_ok v \<Longrightarrow> raw_ok (c_str v)"
  using c_str_id [of v] by (simp add: raw_ok_def)

lemma raw_ok_attribute: "name_ok e n \<Longrightarrow> value_ok e v \<Longrightarrow> raw_ok (Attribute_Print (n, v))"
proof -
  assume ok: "name_ok e n" "value_ok e v"
  then show "raw_ok (Attribute_Print (n, v))"
    by (rule Attribute_Print_text) (use raw_ok_name [OF ok(1)] in auto)
qed

lemma raw_ok_field: "raw_ok nm \<Longrightarrow> field_ok e v \<Longrightarrow> raw_ok (declaration_field nm v)"
  by (simp add: declaration_field_def field_ok_def quote_def raw_ok_c_str)

lemma raw_ok_node: "node_ok e k \<Longrightarrow> raw_ok (Node_Print depth k)"
proof (induction k arbitrary: depth)
  case (XElement nm as kids)
  have attrs: "\<forall>a \<in> set as. raw_ok (Attribute_Print a)"
    using XElement.prems raw_ok_attribute by (fastforce simp: attributes_ok_def list_all_iff)
  have name: "name_ok e nm" "raw_ok nm" using XElement.prems raw_ok_name by auto
  have kids: "\<forall>k \<in> set kids. raw_ok (Node_Print (Suc depth) k)"
    using XElement by (auto simp: list_all_iff)
  show ?case
  proof (cases "kids = []")
    case True
    then show ?thesis
      using attrs name attribute_walk_ok [of e as] XElement.prems c_str_name [OF name(1)] by simp
  next
    case False
    obtain w where w: "white w" "Node_Print depth (XElement nm as kids) = indent depth @ CHR ''<'' # nm
       @ concat (map (\<lambda>a. '' '' @ Attribute_Print a) as) @ ''>'' @ content (Suc depth) kids @ w @ ''</'' @ nm @ ''>''"
      using Node_Print_filled [OF False name(1), of as depth] XElement.prems by auto
    moreover have "raw_ok w" using w(1) by (auto simp: white_def raw_ok_def)
    ultimately show ?thesis using attrs name kids by (auto simp: content_def newline_def)
  qed
next
  case (XText v cdata)
  then show ?case
    by (auto simp: Text_Print_def newline_def text_ok_def value_ok_def EncodeString_encode c_str_encode raw_ok_c_str
        split: if_splits)
qed (auto simp: Comment_Print_def Unknown_Print_def Declaration_Print_def raw_ok_c_str unknown_ok_def Let_def
    intro!: raw_ok_field)

lemma raw_ok_document: "nodes_ok e ks \<Longrightarrow> raw_ok (Document_Print ks)"
  by (induction ks arbitrary: e) (auto simp: newline_def raw_ok_node)

lemma normalize_raw: "raw_ok s \<Longrightarrow> normalize_newlines s = s"
  by (induction s) auto

text \<open>It ends with the end of a tag and a newline.\<close>

lemma Node_Print_last: "\<not> plain_text k \<Longrightarrow> Node_Print d k \<noteq> [] \<and> last (Node_Print d k) \<in> {CHR ''>'', newline}"
  by (cases k) (auto simp: Text_Print_def Comment_Print_def Unknown_Print_def Declaration_Print_def plain_text_def
      split: list.split xnode.split)

lemma no_cut_mark_append: "no_cut_mark (s @ [b, c]) = (b \<noteq> CHR 0xEF \<and> c \<noteq> CHR 0xEF)"
  by (auto simp: no_cut_mark_def)

lemma no_cut_mark_document: "nodes_ok e ks \<Longrightarrow> ks \<noteq> [] \<Longrightarrow> no_cut_mark (p @ Document_Print ks)"
proof (induction ks arbitrary: e p)
  case (Cons k ks)
  show ?case
  proof (cases "ks = []")
    case True
    have k: "Node_Print 0 k \<noteq> []" "last (Node_Print 0 k) \<in> {CHR ''>'', newline}"
      using Node_Print_last [of k 0] Cons.prems(1) by auto
    have "p @ Document_Print (k # ks) = (p @ butlast (Node_Print 0 k)) @ [last (Node_Print 0 k), newline]"
      using k(1) True by simp
    moreover have "last (Node_Print 0 k) \<noteq> CHR 0xEF" "newline \<noteq> CHR 0xEF" using k(2) by (auto simp: newline_def)
    ultimately show ?thesis by (simp only: no_cut_mark_append simp_thms)
  next
    case False
    then show ?thesis using Cons.IH [of "next_encoding e k" "p @ Node_Print 0 k @ [newline]"] Cons.prems by simp
  qed
qed simp

lemma reparses_head: "reparses e txt k \<Longrightarrow> \<exists>c r. txt = c # r \<and> c \<noteq> CHR 0xEF"
proof -
  assume "reparses e txt k"
  then obtain pad body tail where "white pad" "txt = pad @ (CHR ''<'' # body) @ tail"
    unfolding reparses_def by blast
  then show ?thesis by (cases pad) auto
qed

definition lead :: "bool \<Rightarrow> string" where
  "lead bom = (if bom then [CHR 0xEF, CHR 0xBB, CHR 0xBF] else [])"

definition parse_start :: "string \<Rightarrow> bool \<Rightarrow> TiXmlDocument \<Rightarrow> TiXmlDocument" where
  "parse_start s bom d = d\<lparr>errorId := TIXML_NO_ERROR, errorLocation := \<lparr>row = 0, col = 0\<rparr>,
     useMicrosoftBOM := (useMicrosoftBOM d \<or> bom), cursor := \<lparr>row = 0, col = 0\<rparr>, stamp := s\<rparr>"

lemma Document_Parse_run:
  assumes "s \<noteq> []" "lead_bytes s = bom" "SkipWhiteSpace (document_encoding bom) (Some s) = q" "q \<noteq> None"
    and "document_loop (Suc (length s)) (document_encoding bom) q (parse_start s bom d) = Inr ((e', r), t)"
    and "doc_nodes t \<noteq> []"
  shows "Document_Parse (Some s) TIXML_ENCODING_UNKNOWN d = Inr (r, t)"
  using assms
  by (cases d; cases bom)
    (auto simp: Document_Parse_def run_simps sq_def bnd_def ClearError_def Let_def parse_start_def
      document_encoding_def simp del: document_loop.simps)

lemma Document_Parse_printed:
  assumes "nodes_ok (document_encoding bom) ks" "ks \<noteq> []" "doc_nodes d = []" "\<not> useMicrosoftBOM d"
  shows "\<exists>r t. Document_Parse (Some (lead bom @ Document_Print ks)) TIXML_ENCODING_UNKNOWN d = Inr (r, t)
     \<and> doc_nodes t = ks \<and> useMicrosoftBOM t = bom \<and> errorId t = TIXML_NO_ERROR"
proof -
  let ?doc = "Document_Print ks" and ?e = "document_encoding bom"
  define s where "s = lead bom @ ?doc"
  define q where "q = SkipWhiteSpace ?e (Some ?doc)"
  obtain k ks' where ks: "ks = k # ks'" using assms(2) by (cases ks) auto
  obtain c r where doc: "?doc = c # r" "c \<noteq> CHR 0xEF"
    using reparses_head [OF nodes_ok_reparses [of ?e k ks']] assms(1) unfolding ks by auto
  have skip: "SkipWhiteSpace ?e (Some s) = q"
    unfolding s_def q_def doc(1)
    by (simp add: lead_def document_encoding_def SkipWhiteSpace_def skipped_mark_def lead_bytes_def del: skip_white.simps)
      (simp add: skipped_mark_def lead_bytes_def)
  have s: "s \<noteq> []" "lead_bytes s = bom"
    using doc(2) unfolding s_def doc(1) by (simp_all add: lead_def lead_bytes_def)
  have q: "q \<noteq> None" by (simp add: q_def doc(1) SkipWhiteSpace_def)
  have "countable_text (parse_start s bom d)"
    using no_cut_mark_document [OF assms(1,2)] by (simp add: parse_start_def s_def)
  then obtain t r where t: "document_loop (Suc (length s)) ?e q (parse_start s bom d) = Inr (r, t)"
      "doc_nodes t = ks" "useMicrosoftBOM t = bom" "errorId t = TIXML_NO_ERROR"
    using document_loop_printed [OF assms(1), of "[]" "Suc (length s)" "parse_start s bom d"] assms(3,4)
    by (auto simp: q_def s_def parse_start_def simp del: document_loop.simps)
  obtain e' p' where r: "r = (e', p')" by (cases r)
  have "Document_Parse (Some s) TIXML_ENCODING_UNKNOWN d = Inr (p', t)"
    using s skip q t(1,2) assms(2) unfolding r by (intro Document_Parse_run) simp_all
  then show ?thesis using t s_def by auto
qed

lemma saved_file_loads:
  assumes "doc_nodes d \<noteq> []" "nodes_ok (document_encoding (useMicrosoftBOM d)) (doc_nodes d)"
  shows "\<exists>t. LoadFile (SaveFile d filename fs) filename TIXML_ENCODING_UNKNOWN TiXmlDocument_new = Inr (True, t)
    \<and> doc_nodes t = doc_nodes d \<and> useMicrosoftBOM t = useMicrosoftBOM d \<and> errorId t = TIXML_NO_ERROR"
proof -
  let ?file = "lead (useMicrosoftBOM d) @ Document_Print (doc_nodes d)"
  have "SaveFile d filename fs filename = Some ?file" by (simp add: SaveFile_def lead_def)
  moreover have raw: "raw_ok ?file" using raw_ok_document [OF assms(2)] by (simp add: lead_def)
  then have "c_str ?file = ?file" "normalize_newlines ?file = ?file"
    using c_str_id [of ?file] normalize_raw [of ?file] by (simp_all add: raw_ok_def)
  moreover have "?file \<noteq> []" using assms(1) by (cases "doc_nodes d") simp_all
  moreover obtain r t where "Document_Parse (Some ?file) TIXML_ENCODING_UNKNOWN (TiXmlDocument_new\<lparr>doc_nodes := []\<rparr>)
      = Inr (r, t)" "doc_nodes t = doc_nodes d" "useMicrosoftBOM t = useMicrosoftBOM d" "errorId t = TIXML_NO_ERROR"
    using Document_Parse_printed [OF assms(2,1), of "TiXmlDocument_new\<lparr>doc_nodes := []\<rparr>"]
    by (auto simp: TiXmlDocument_new_def)
  ultimately show ?thesis
    by (auto simp: LoadFile_def run_simps sq_def bnd_def Error_def)
qed

text \<open>C7: A document that is saved and loaded again is the same document, with the same byte order mark and without
  an error, if the texts in it can be printed without loss (\<open>nodes_ok\<close>).\<close>

theorem SaveFile_LoadFile:
  assumes "doc_nodes d \<noteq> []" "nodes_ok (document_encoding (useMicrosoftBOM d)) (doc_nodes d)"
  shows "\<exists>t. LoadFile (SaveFile d filename fs) filename TIXML_ENCODING_UNKNOWN TiXmlDocument_new = Inr (True, t)
    \<and> doc_nodes t = doc_nodes d \<and> useMicrosoftBOM t = useMicrosoftBOM d \<and> errorId t = TIXML_NO_ERROR"
  using assms by (rule saved_file_loads)

definition sample_document :: TiXmlDocument where
  "sample_document = TiXmlDocument_new\<lparr>doc_nodes := [XComment '' c '', XElement ''a'' [(''x'', ''1 < 2'')]
     [XText ''b & c'' False, XElement ''d'' [] []]]\<rparr>"

theorem SaveFile_LoadFile_witness:
  "\<exists>t. LoadFile (SaveFile sample_document ''f'' Map.empty) ''f'' TIXML_ENCODING_UNKNOWN TiXmlDocument_new = Inr (True, t)
    \<and> doc_nodes t = doc_nodes sample_document \<and> useMicrosoftBOM t = useMicrosoftBOM sample_document
    \<and> errorId t = TIXML_NO_ERROR"
proof (rule SaveFile_LoadFile)
  show "doc_nodes sample_document \<noteq> []" by (simp add: sample_document_def)
  show "nodes_ok (document_encoding (useMicrosoftBOM sample_document)) (doc_nodes sample_document)"
    by (simp add: sample_document_def TiXmlDocument_new_def document_encoding_def next_encoding_def plain_text_def raw_ok_def
        attributes_ok_def value_ok_def text_ok_def valid_other sublist_Cons_right Blank_def IsWhiteSpace_def byte_of_def
        name_ok_def name_start_def name_char_def IsAlpha_def IsAlphaNum_def isalpha_def is_upper_def del: valid.simps)
qed

section \<open>The protocols in a file\<close>

text \<open>
  The tree of the generator as a document: the names of the elements are given by their depth, and the generator
  does not look at them.
\<close>

fun tagged :: "string list \<Rightarrow> xml \<Rightarrow> xnode" where
  "tagged ts (Element as kids) = XElement (hd ts) as (map (tagged (tl ts)) kids)"

definition protocol_tags :: "string list" where
  "protocol_tags = [''rpc'', ''Protocol'', ''Structure'', ''Member'', ''Enumeration'']"

definition protocol_document :: "CProtocol list \<Rightarrow> TiXmlDocument" where
  "protocol_document ps = TiXmlDocument_new\<lparr>doc_nodes := [tagged protocol_tags (Element [] (map protocol_xml ps))]\<rparr>"

definition printable :: "string \<Rightarrow> bool" where
  "printable v = (\<not> sublist ''&#x'' v \<and> CHR 0x00 \<notin> set v)"

fun xml_values :: "xml \<Rightarrow> string list" where
  "xml_values (Element as kids) = map snd as @ concat (map xml_values kids)"

text \<open>Names are attribute names of the generator, values are printable, and the tree is not deeper than the tags.\<close>

fun printable_tree :: "string list \<Rightarrow> xml \<Rightarrow> bool" where
  "printable_tree ts (Element as kids) = (ts \<noteq> [] \<and> name_ok TIXML_ENCODING_UNKNOWN (hd ts) \<and> distinct (map fst as)
     \<and> list_all (\<lambda>(n, v). name_ok TIXML_ENCODING_UNKNOWN n \<and> printable v) as \<and> list_all (printable_tree (tl ts)) kids)"

lemma is_element_tagged [simp]: "is_element (tagged ts x)" "\<not> plain_text (tagged ts x)"
  by (cases x; simp add: is_element_def plain_text_def)+

lemma apart_tagged: "apart (map (tagged ts) kids)"
  by (induction kids rule: induct_list012) simp_all

lemma tagged_ok: "printable_tree ts x \<Longrightarrow> node_ok TIXML_ENCODING_UNKNOWN (tagged ts x)"
proof (induction x arbitrary: ts)
  case (Element as kids)
  then show ?case
    by (auto simp: attributes_ok_def value_ok_def printable_def valid_other apart_tagged list_all_iff)
qed

lemma tree_of_tagged: "printable_tree ts x \<Longrightarrow> tree_of (tagged ts x) = x"
proof (induction x arbitrary: ts)
  case (Element as kids)
  have "attribute_walk as = as"
    using Element.prems by (intro attribute_walk_ok [of TIXML_ENCODING_UNKNOWN])
      (auto simp: attributes_ok_def value_ok_def printable_def valid_other list_all_iff)
  moreover have "map (\<lambda>(n, v). (c_str n, c_str v)) as = as"
    using Element.prems c_str_name c_str_id by (intro map_idI) (fastforce simp: list_all_iff printable_def)
  moreover have "map tree_of (filter is_element (map (tagged (tl ts)) kids)) = kids"
    using Element by (auto simp: filter_map o_def list_all_iff intro!: map_idI)
  ultimately show ?case by simp
qed

lemma name_ok_protocol [simp]:
  "name_ok e ''name''" "name_ok e ''number''" "name_ok e ''handler''" "name_ok e ''return_protocol''" "name_ok e ''file''"
  "name_ok e ''note''" "name_ok e ''constructor''" "name_ok e ''operator''" "name_ok e ''type''" "name_ok e ''typename''"
  "name_ok e ''size''" "name_ok e ''rpc''" "name_ok e ''Protocol''" "name_ok e ''Structure''" "name_ok e ''Member''"
  "name_ok e ''Enumeration''"
  by (simp_all add: name_ok_def name_start_def name_char_def IsAlpha_def IsAlphaNum_def isalpha_def is_upper_def
      skipped_mark_def lead_bytes_def byte_of_def)

lemma printable_protocol:
  assumes "\<forall>v \<in> set (xml_values (protocol_xml p)). printable v"
  shows "printable_tree (tl protocol_tags) (protocol_xml p)"
  using assms
  by (auto simp: protocol_tags_def protocol_xml_def structure_xml_def member_xml_def enum_xml_def list_all_iff)

text \<open>C5: Protocols that are saved as an XML file are loaded by the generator exactly as they were: whatever
  text stands in their attributes, if it does not contain \<open>&#x\<close> or a null character, if enumerations are attached
  to members of type \<open>enum\<close> only and if no other attribute of a member is \<open>enum\<close>.\<close>

theorem LoadXml_saved:
  assumes "\<forall>p \<in> set ps. \<forall>v \<in> set (xml_values (protocol_xml p)). printable v"
    and "\<forall>p \<in> set ps. \<forall>m \<in> set (vec_member (pro_structure p)). wf_member m"
  shows "LoadXml_file [] fName (SaveFile (protocol_document ps) (c_str fName) fs)
    = Inr ((True, ps), SaveFile (protocol_document ps) (c_str fName) fs)"
proof -
  let ?tree = "Element [] (map protocol_xml ps)"
  have tree: "printable_tree protocol_tags ?tree"
    using assms(1) printable_protocol by (auto simp: list_all_iff protocol_tags_def)
  then have "nodes_ok TIXML_ENCODING_UNKNOWN (doc_nodes (protocol_document ps))"
    using tagged_ok [OF tree] is_element_tagged(2) [of protocol_tags ?tree]
    by (simp add: protocol_document_def del: tagged.simps is_element_tagged)
  then obtain t where t: "LoadFile (SaveFile (protocol_document ps) (c_str fName) fs) (c_str fName)
      TIXML_ENCODING_UNKNOWN TiXmlDocument_new = Inr (True, t)" "doc_nodes t = doc_nodes (protocol_document ps)"
    using saved_file_loads [of "protocol_document ps" "c_str fName" fs]
    by (auto simp: document_encoding_def protocol_document_def TiXmlDocument_new_def)
  have "RootElement (doc_nodes t) = Some ?tree"
    using tree_of_tagged [OF tree] is_element_tagged(1) [of protocol_tags ?tree]
    by (simp add: t(2) protocol_document_def RootElement_def del: tagged.simps tree_of.simps is_element_tagged)
  then show ?thesis using LoadXml_roundtrip [OF assms(2)] by (simp add: LoadXml_file_def t(1))
qed

theorem LoadXml_saved_witness:
  "let ps = [CProtocol_new\<lparr>pro_name := ''CT_<X>'', pro_structure := CStructure_new\<lparr>vec_member := [login_member]\<rparr>\<rparr>];
     fs = SaveFile (protocol_document ps) ''f'' Map.empty in LoadXml_file [] ''f'' fs = Inr ((True, ps), fs)"
proof -
  let ?ps = "[CProtocol_new\<lparr>pro_name := ''CT_<X>'', pro_structure := CStructure_new\<lparr>vec_member := [login_member]\<rparr>\<rparr>]"
  have "\<forall>p \<in> set ?ps. \<forall>v \<in> set (xml_values (protocol_xml p)). printable v"
    by (simp add: protocol_xml_def structure_xml_def member_xml_def enum_xml_def login_member_def CProtocol_new_def
        CStructure_new_def printable_def sublist_Cons_right)
  moreover have "\<forall>p \<in> set ?ps. \<forall>m \<in> set (vec_member (pro_structure p)). wf_member m"
    by (simp add: wf_member_def login_member_def)
  ultimately show ?thesis
    using LoadXml_saved [of ?ps "''f''" Map.empty] by (simp add: Let_def c_str_def)
qed

end
