(* ===== verification/TinyXml_Errors.thy ===== *)
theory TinyXml_Errors
  imports TinyXml_Roundtrip
begin

text \<open>
  What the parser does with text that is not a document: a file that is cut off is reported, but the generator
  goes on with the part that it got; a declaration that is cut off stops the program; and a byte \<open>0xEF\<close> in the wrong
  place keeps it busy forever.
\<close>

section \<open>Runs that fail\<close>

text \<open>\<open>faults m f\<close>: the run stops with a fault; \<open>reports m x\<close>: it returns and an error is recorded.\<close>

definition faults :: "'a xp \<Rightarrow> fault \<Rightarrow> bool" where
  "faults m f = (\<forall>d. countable_text d \<longrightarrow> m d = Inl f)"

definition reports :: "'a xp \<Rightarrow> 'a \<Rightarrow> bool" where
  "reports m x = (\<forall>d. countable_text d \<longrightarrow> (\<exists>t. m d = Inr (x, t) \<and> countable_text t \<and> Error t
     \<and> doc_nodes t = doc_nodes d))"

lemma faults_bnd: "faults m f \<Longrightarrow> faults (bnd m g) f"
  by (simp add: faults_def bnd_def)

lemma faults_after: "yields m x \<Longrightarrow> faults (g x) f \<Longrightarrow> faults (bnd m g) f"
  unfolding faults_def yields_def bnd_def by (metis (no_types, lifting) old.prod.case sum.case(2))

lemma faults_after_sq: "yields m x \<Longrightarrow> faults n f \<Longrightarrow> faults (sq m n) f"
  unfolding sq_def by (rule faults_after)

lemma faults_raises: "x = Inl f \<Longrightarrow> faults (bnd (raises x) g) f"
  by (simp add: faults_def bnd_def raises_def fail_def)

lemma faults_StringEqual: "\<not> live p \<Longrightarrow> faults (bnd (StringEqual p tag ci) g) Aborted"
  by (simp add: faults_def bnd_def StringEqual_def sq_def check_def fail_def)

lemma reports_after:
  assumes "yields m x" "reports (g x) y"
  shows "reports (bnd m g) y"
  unfolding reports_def
proof (intro allI impI)
  fix d assume "countable_text d"
  then obtain t where t: "m d = Inr (x, t)" "countable_text t" "quiet d t"
    using yieldsD [OF assms(1)] by blast
  then obtain u where "g x t = Inr (y, u)" "countable_text u" "Error u" "doc_nodes u = doc_nodes t"
    using assms(2) unfolding reports_def by blast
  then show "\<exists>u. bnd m g d = Inr (y, u) \<and> countable_text u \<and> Error u \<and> doc_nodes u = doc_nodes d"
    using t quiet_fields [OF t(3)] by (simp add: bnd_def)
qed

lemma reports_after_sq: "yields m x \<Longrightarrow> reports n y \<Longrightarrow> reports (sq m n) y"
  unfolding sq_def by (rule reports_after)

text \<open>An error that is set is recorded, and an error that was recorded stays.\<close>

lemma SetError_reports:
  assumes "countable_text d" "err \<noteq> TIXML_NO_ERROR"
  shows "\<exists>t. SetError err p e d = Inr ((), t) \<and> countable_text t \<and> Error t \<and> doc_nodes t = doc_nodes d"
proof (cases "Error d \<or> p = None")
  case True
  then show ?thesis using assms by (auto simp: SetError_def run_simps bnd_def sq_def Error_def)
next
  case False
  let ?d = "d\<lparr>errorId := err, errorLocation := no_cursor\<rparr>"
  obtain t where "Stamp e p ?d = Inr ((), t)" "countable_text t" "quiet ?d t"
    using yieldsD [OF yields_Stamp, of p ?d e] False assms(1) by auto
  then show ?thesis
    using False assms quiet_fields [of ?d t] by (auto simp: SetError_def run_simps bnd_def sq_def Error_def)
qed

lemma reports_fails_with: "err \<noteq> TIXML_NO_ERROR \<Longrightarrow> reports (fails_with err p e x) x"
  using SetError_reports [of _ err p e] by (fastforce simp: reports_def fails_with_def sq_def bnd_def ret_def)

section \<open>A file that is cut off\<close>

text \<open>The children of an element up to the end of the text: they are all there, and nothing is left.\<close>

lemma ReadValue_open:
  assumes "\<forall>k \<in> set kids. reparses e (Node_Print depth k) k" "white w"
    and "2 * length (w @ content depth kids @ [newline]) + 2 \<le> n"
  shows "yields (ReadValue n e acc (Some (w @ content depth kids @ [newline]))) (Some [], acc @ kids)"
  using assms
proof (induction kids arbitrary: w acc n)
  case Nil
  then have "SkipWhiteSpace e (Some (w @ [newline])) = Some []"
    by (simp add: SkipWhiteSpace_def skip_white_white newline_def)
  then show ?case
    using Nil.prems(3) by (cases n) (auto simp: content_def Let_def intro!: yields_ret)
next
  case (Cons k ks)
  obtain m where n: "n = Suc m" using Cons.prems(3) by (cases n) auto
  obtain pad body tail kind where k: "white pad" "white tail" "Node_Print depth k = pad @ (CHR ''<'' # body) @ tail"
      "body \<noteq> []" "hd body \<noteq> CHR ''/''"
      and parse: "\<And>s. s \<noteq> [] \<Longrightarrow> Identify e (Some (CHR ''<'' # body @ s)) = Some kind"
      "\<And>s n. s \<noteq> [] \<Longrightarrow> 2 * length (CHR ''<'' # body @ s) + 1 \<le> n \<Longrightarrow>
          yields (Node_Parse n e kind (Some (CHR ''<'' # body @ s))) (Some s, k)"
    using Cons.prems(1) [THEN bspec, of k] unfolding reparses_def by (simp only: list.set_intros) blast
  let ?S = "tail @ content depth ks @ [newline]"
  have S: "?S \<noteq> []" by simp
  define u where "u = w @ (if is_text k then [] else [newline]) @ pad"
  have u: "white u" using Cons.prems(2) k(1) by (simp add: u_def newline_def)
  have printed: "w @ content depth (k # ks) @ [newline] = u @ CHR ''<'' # body @ ?S"
    by (simp add: content_def u_def k(3))
  have len: "2 * length (u @ CHR ''<'' # body @ ?S) + 2 \<le> n"
    using Cons.prems(3) unfolding printed by simp
  have rest: "yields (ReadValue m e (acc @ [k]) (Some ?S)) (Some [], acc @ k # ks)"
    using Cons.IH [of tail m "acc @ [k]"] Cons.prems(1) k(2) len n by simp
  have node: "yields (Node_Parse m e kind (Some (CHR ''<'' # body @ ?S))) (Some ?S, k)"
    using len n by (intro parse(2) [OF S]) simp
  have "\<not> starts (CHR ''<'' # body @ ?S) ''</'' False"
    using k(4,5) by (cases body) auto
  then show ?case
    unfolding printed n using u parse(1) [OF S] rest
    by (auto simp: Let_def SkipWhiteSpace_white intro!: yields_bnd_StringEqual yields_bnd [OF node [simplified]])
qed

text \<open>The end tag is missed, and the element is kept with its children.\<close>

lemma start_tag:
  assumes "name_ok e nm"
  shows "ReadName (nm @ CHR ''>'' # body) = (Some (CHR ''>'' # body), nm)"
    "SkipWhiteSpace e (Some (nm @ CHR ''>'' # body)) = Some (nm @ CHR ''>'' # body)"
  using ReadName_name [OF assms, of "CHR ''>''" body] solid_name [OF assms, of "CHR ''>''" body]
  by (simp_all add: SkipWhiteSpace_solid byte_of_def)

lemma Element_Parse_open:
  assumes "yields (rv (Some body)) (Some [], kids)" "name_ok e nm"
  shows "reports (Element_Parse rv e (Some (CHR ''<'' # nm @ CHR ''>'' # body))) (None, XElement nm [] kids)"
proof -
  have "reports (element_content rv e nm [] body) (None, XElement nm [] kids)"
    unfolding element_content_def by (rule reports_after [OF assms(1)]) (simp add: Let_def reports_fails_with)
  then show ?thesis
    using start_tag [OF assms(2), of body] unfolding Element_Parse_def Let_def
    by (auto simp: SkipWhiteSpace_solid Let_def intro!: reports_after_sq [OF yields_Stamp] reports_after_sq [OF yields_check])
qed

lemma Element_Parse_faults:
  assumes "faults (rv (Some body)) f" "name_ok e nm"
  shows "faults (Element_Parse rv e (Some (CHR ''<'' # nm @ CHR ''>'' # body))) f"
proof -
  have "faults (element_content rv e nm [] body) f"
    unfolding element_content_def by (rule faults_bnd [OF assms(1)])
  then show ?thesis
    using start_tag [OF assms(2), of body] unfolding Element_Parse_def Let_def
    by (auto simp: SkipWhiteSpace_solid Let_def intro!: faults_after_sq [OF yields_Stamp] faults_after_sq [OF yields_check])
qed

lemma no_cut_mark_content:
  "\<forall>k \<in> set ks. is_element k \<Longrightarrow> p \<noteq> [] \<Longrightarrow> last p \<noteq> CHR 0xEF \<Longrightarrow> no_cut_mark (p @ content depth ks @ [newline])"
proof (induction ks arbitrary: p)
  case Nil
  have "p @ content depth [] @ [newline] = butlast p @ [last p, newline]"
    using Nil.prems(2) by (simp add: content_def)
  then show ?case using Nil.prems(3) by (simp only: no_cut_mark_append) (simp add: newline_def)
next
  case (Cons k ks)
  have k: "is_element k" using Cons.prems(1) by simp
  then have "\<not> plain_text k" "\<not> is_text k" by (auto simp: is_element_def plain_text_def is_text_def split: xnode.splits)
  moreover from this have "Node_Print depth k \<noteq> []" "last (Node_Print depth k) \<noteq> CHR 0xEF"
    using Node_Print_last [of k depth] by (auto simp: newline_def)
  ultimately show ?case
    using Cons.IH [of "p @ newline # Node_Print depth k"] Cons.prems(1) by (simp add: content_def)
qed

text \<open>A file that breaks off between the children of its root element.\<close>

definition cut_file :: "string \<Rightarrow> xnode list \<Rightarrow> string" where
  "cut_file nm kids = CHR ''<'' # nm @ CHR ''>'' # content 1 kids @ [newline]"

lemma cut_file_prefix:
  assumes "name_ok e nm" "\<forall>k \<in> set (ks @ ls). is_element k" "ks @ ls \<noteq> []"
  shows "strict_prefix (cut_file nm ks) (Document_Print [XElement nm [] (ks @ ls)])"
proof -
  have "(case ks @ ls of [] \<Rightarrow> a | [XText v cdata] \<Rightarrow> f v cdata | _ \<Rightarrow> b) = b" for a b :: string and f
  proof -
    have "ks @ ls \<noteq> [XText v cdata]" for v cdata
      using assms(2) by (auto simp: is_element_def dest!: bspec [where x = "XText v cdata"] simp del: set_append)
    then show ?thesis using assms(3) by (cases "ks @ ls") (auto split: list.split xnode.split)
  qed
  then have all: "Document_Print [XElement nm [] (ks @ ls)] = CHR ''<'' # nm @ CHR ''>'' # content 1 (ks @ ls)
      @ newline # ''</'' @ nm @ ''>'' @ [newline]"
    using c_str_name [OF assms(1)] by (simp add: indent_def attribute_walk_def content_def)
  show ?thesis
  proof (cases ls)
    case Nil
    then show ?thesis unfolding all by (simp add: cut_file_def strict_prefix_def)
  next
    case (Cons l ls')
    then have "content 1 (ks @ ls) = content 1 ks @ newline # Node_Print 1 l @ content 1 ls'"
      using assms(2) by (auto simp: content_def is_element_def is_text_def split: xnode.splits)
    then show ?thesis unfolding all by (simp add: cut_file_def strict_prefix_def)
  qed
qed

lemma cut_file_loads:
  assumes "name_ok TIXML_ENCODING_UNKNOWN nm"
    and "\<forall>k \<in> set kids. is_element k \<and> node_ok TIXML_ENCODING_UNKNOWN k" "fs filename = Some (cut_file nm kids)"
  shows "\<exists>t. LoadFile fs filename TIXML_ENCODING_UNKNOWN TiXmlDocument_new = Inr (False, t)
    \<and> doc_nodes t = [XElement nm [] kids]"
proof -
  let ?e = TIXML_ENCODING_UNKNOWN and ?body = "content 1 kids @ [newline]"
  let ?file = "CHR ''<'' # nm @ CHR ''>'' # ?body" and ?node = "XElement nm [] kids"
  have raw: "raw_ok ?file"
    using assms(2) raw_ok_name [OF assms(1)] raw_ok_node by (auto simp: content_def newline_def)
  then have whole: "c_str ?file = ?file" "normalize_newlines ?file = ?file"
    using c_str_id [of ?file] normalize_raw [of ?file] by (simp_all only: raw_ok_def simp_thms)
  define d where "d = parse_start ?file False (TiXmlDocument_new\<lparr>doc_nodes := []\<rparr>)"
  have count: "countable_text d"
    using no_cut_mark_content [of kids "CHR ''<'' # nm @ ''>''" 1] assms(2) by (simp add: d_def parse_start_def)
  have "reparses ?e (Node_Print 1 k) k" if "k \<in> set kids" for k
    using node_reparses [of ?e k 1] assms(2) that by (cases k) (auto simp: kid_ok_def is_element_def)
  then have "yields (ReadValue (2 * length ?file) ?e [] (Some ?body)) (Some [], kids)"
    using ReadValue_open [of kids ?e 1 "[]" "2 * length ?file" "[]"] by simp
  then have "reports (Node_Parse (Suc (2 * length ?file)) ?e KElement (Some ?file)) (None, ?node)"
    using Element_Parse_open [OF _ assms(1)] by simp
  then obtain t where t: "Node_Parse (Suc (2 * length ?file)) ?e KElement (Some ?file) d = Inr ((None, ?node), t)"
      "Error t" "doc_nodes t = doc_nodes d"
    using count unfolding reports_def by blast
  have "doc_nodes d = []" by (simp add: d_def parse_start_def)
  moreover have "Identify ?e (Some ?file) = Some KElement" by (rule Identify_element [OF assms(1)])
  ultimately have "document_loop (Suc (length ?file)) ?e (Some ?file) d = Inr ((?e, None), t\<lparr>doc_nodes := [?node]\<rparr>)"
    using t by (simp add: bnd_def sq_def LinkEndChild_def modify_def next_encoding_def SkipWhiteSpace_def ret_def
        del: Node_Parse.simps)
  moreover have "?e = document_encoding False" by (simp add: document_encoding_def)
  ultimately have "Document_Parse (Some ?file) ?e (TiXmlDocument_new\<lparr>doc_nodes := []\<rparr>)
      = Inr (None, t\<lparr>doc_nodes := [?node]\<rparr>)"
    unfolding d_def by (intro Document_Parse_run [where bom = False])
      (simp_all add: lead_bytes_def SkipWhiteSpace_solid del: document_loop.simps)
  then show ?thesis
    using assms(3) t(2) whole unfolding cut_file_def
    by (auto simp: LoadFile_def run_simps sq_def bnd_def Error_def)
qed

text \<open>C35: The generator does not notice that a file is incomplete.  Of every saved list of protocols there is
  a file that breaks off behind the first of them, which \<open>LoadFile\<close> reports as an error, and from which
  \<open>LoadXml\<close> returns true with the protocols that are left.\<close>

theorem LoadXml_truncated:
  assumes "\<forall>p \<in> set ps. \<forall>v \<in> set (xml_values (protocol_xml p)). printable v"
    and "\<forall>p \<in> set ps. \<forall>m \<in> set (vec_member (pro_structure p)). wf_member m"
    and "ps @ qs \<noteq> []"
  shows "\<exists>file. strict_prefix file (Document_Print (doc_nodes (protocol_document (ps @ qs)))) \<and>
    (\<forall>fs. fs (c_str fName) = Some file \<longrightarrow>
      (\<exists>t. LoadFile fs (c_str fName) TIXML_ENCODING_UNKNOWN TiXmlDocument_new = Inr (False, t)) \<and>
      LoadXml_file [] fName fs = Inr ((True, ps), fs))"
proof -
  let ?kids = "\<lambda>ps. map (tagged (tl protocol_tags)) (map protocol_xml ps)"
  have ok: "name_ok TIXML_ENCODING_UNKNOWN ''rpc''" by simp
  have kids: "\<forall>k \<in> set (?kids ps). is_element k \<and> node_ok TIXML_ENCODING_UNKNOWN k"
    using assms(1) printable_protocol tagged_ok by auto
  have "map tree_of (filter is_element (?kids ps)) = map protocol_xml ps"
    using assms(1) printable_protocol tree_of_tagged by (auto simp: filter_map o_def)
  then have root: "RootElement [XElement ''rpc'' [] (?kids ps)] = Some (Element [] (map protocol_xml ps))"
    by (simp add: RootElement_def is_element_def attribute_walk_def)
  have doc: "doc_nodes (protocol_document (ps @ qs)) = [XElement ''rpc'' [] (?kids ps @ ?kids qs)]"
    by (simp add: protocol_document_def protocol_tags_def)
  have "strict_prefix (cut_file ''rpc'' (?kids ps)) (Document_Print (doc_nodes (protocol_document (ps @ qs))))"
    unfolding doc by (rule cut_file_prefix [OF ok]) (use assms(3) in auto)
  moreover have "(\<exists>t. LoadFile fs (c_str fName) TIXML_ENCODING_UNKNOWN TiXmlDocument_new = Inr (False, t)) \<and>
      LoadXml_file [] fName fs = Inr ((True, ps), fs)" if "fs (c_str fName) = Some (cut_file ''rpc'' (?kids ps))" for fs
    using cut_file_loads [where fs = fs, OF ok kids that] root LoadXml_roundtrip [OF assms(2)] by (auto simp: LoadXml_file_def)
  ultimately show ?thesis by blast
qed

theorem LoadXml_truncated_witness:
  "\<exists>file. strict_prefix file (Document_Print (doc_nodes (protocol_document [CProtocol_new\<lparr>pro_name := ''CT_X''\<rparr>,
      CProtocol_new\<lparr>pro_name := ''ST_X''\<rparr>]))) \<and>
    (\<exists>t. LoadFile [''f'' \<mapsto> file] ''f'' TIXML_ENCODING_UNKNOWN TiXmlDocument_new = Inr (False, t)) \<and>
    LoadXml_file [] ''f'' [''f'' \<mapsto> file] = Inr ((True, [CProtocol_new\<lparr>pro_name := ''CT_X''\<rparr>]), [''f'' \<mapsto> file])"
proof -
  let ?ps = "[CProtocol_new\<lparr>pro_name := ''CT_X''\<rparr>]" and ?qs = "[CProtocol_new\<lparr>pro_name := ''ST_X''\<rparr>]"
  have f: "c_str ''f'' = ''f''" by (simp add: c_str_def)
  have "\<forall>p \<in> set ?ps. \<forall>v \<in> set (xml_values (protocol_xml p)). printable v"
    by (simp add: protocol_xml_def structure_xml_def CProtocol_new_def CStructure_new_def printable_def sublist_Cons_right)
  moreover have "\<forall>p \<in> set ?ps. \<forall>m \<in> set (vec_member (pro_structure p)). wf_member m"
    by (simp add: CProtocol_new_def CStructure_new_def)
  ultimately obtain cut where "strict_prefix cut (Document_Print (doc_nodes (protocol_document (?ps @ ?qs))))"
      and "\<And>fs. fs (c_str ''f'') = Some cut \<Longrightarrow>
        (\<exists>t. LoadFile fs (c_str ''f'') TIXML_ENCODING_UNKNOWN TiXmlDocument_new = Inr (False, t)) \<and>
        LoadXml_file [] ''f'' fs = Inr ((True, ?ps), fs)"
    using LoadXml_truncated [of ?ps ?qs "''f''"] by blast
  from this(1) this(2) [of "[''f'' \<mapsto> cut]"] show ?thesis
    unfolding f append.simps by (intro exI [of _ cut]) simp
qed

section \<open>Texts that stop the program\<close>

text \<open>Only white space is left of a declaration: \<open>StringEqual\<close> is called at the end of the text.\<close>

lemma declaration_blank:
  assumes "0 < n" "white w" "w \<noteq> []"
  shows "faults (declaration_loop n e (Some w) version encoding standalone) Aborted"
proof -
  have "hd w \<noteq> CHR ''>''" using assms(2,3) by (cases w) auto
  then show ?thesis
    using assms by (cases n) (auto simp: SkipWhiteSpace_def skip_white_white Let_def intro!: faults_StringEqual)
qed

lemma faults_bnd_StringEqual: "live p \<Longrightarrow> faults (f (starts (the p) tag ci)) x \<Longrightarrow> faults (bnd (StringEqual p tag ci) f) x"
  by (rule faults_after [OF yields_StringEqual]) simp_all

text \<open>The fields that are there are read, and the blank behind the last one is left.\<close>

abbreviation declaration_text :: "string \<Rightarrow> string \<Rightarrow> string \<Rightarrow> string" where
  "declaration_text ve en st \<equiv>
     declaration_field ''version'' ve @ declaration_field ''encoding'' en @ declaration_field ''standalone'' st"

lemma declaration_open:
  assumes "field_ok e ve" "field_ok e en" "field_ok e st" "4 \<le> n"
  shows "faults (declaration_loop n e (Some (CHR 0x20 # declaration_text ve en st)) [] [] []) Aborted"
proof -
  have st: "faults (declaration_loop k e (Some (CHR 0x20 # declaration_field ''standalone'' st)) vs es []) Aborted" if "2 \<le> k" for k vs es
  proof (cases "st = []")
    case True
    then show ?thesis using declaration_blank [of k "'' ''"] that by (simp add: declaration_field_def)
  next
    case False
    from that obtain j where k: "k = Suc j" "0 < j" by (cases k) auto
    have "starts (declaration_field ''standalone'' st) ''standalone'' True"
        "\<not> starts (declaration_field ''standalone'' st) ''version'' True"
        "\<not> starts (declaration_field ''standalone'' st) ''encoding'' True" "declaration_field ''standalone'' st \<noteq> []"
      using False by (simp_all add: declaration_field_def)
    then show ?thesis
      using k declaration_blank [OF k(2), of "'' ''"] declaration_skip [OF name_ok_field(3) False, of e "[]"]
        declaration_attribute [OF name_ok_field(3) assms(3) False, of "[]"]
      by (auto simp: Let_def intro!: faults_bnd_StringEqual elim!: faults_after)
  qed
  have en: "faults (declaration_loop k e (Some (CHR 0x20 # declaration_field ''encoding'' en
      @ declaration_field ''standalone'' st)) vs [] []) Aborted" if "3 \<le> k" for k vs
  proof (cases "en = []")
    case True
    then show ?thesis using st [of k] that by (simp add: declaration_field_def [of _ "[]"])
  next
    case False
    from that obtain j where k: "k = Suc j" by (cases k) auto
    let ?Y = "declaration_field ''encoding'' en @ declaration_field ''standalone'' st"
    have "starts ?Y ''encoding'' True" "\<not> starts ?Y ''version'' True" "?Y \<noteq> []"
      using False by (simp_all add: declaration_field_def [of _ en])
    then show ?thesis
      using that k st [of j]
      by (auto simp: Let_def declaration_skip [OF name_ok_field(2) False]
          intro!: faults_bnd_StringEqual faults_after [OF declaration_attribute [OF name_ok_field(2) assms(2) False]])
  qed
  show ?thesis
  proof (cases "ve = []")
    case True
    then show ?thesis using en [of n] assms(4) by (simp add: declaration_field_def [of _ "[]"])
  next
    case False
    from assms(4) obtain j where n: "n = Suc j" by (cases n) auto
    have "starts (declaration_text ve en st) ''version'' True" "declaration_text ve en st \<noteq> []"
      using False by (simp_all add: declaration_field_def [of _ ve])
    then show ?thesis
      using assms(4) n en [of j]
      by (auto simp: Let_def declaration_skip [OF name_ok_field(1) False]
          intro!: faults_bnd_StringEqual faults_after [OF declaration_attribute [OF name_ok_field(1) assms(1) False]])
  qed
qed

lemma no_cut_mark_tail: "2 \<le> length s \<Longrightarrow> CHR 0xEF \<notin> set s \<Longrightarrow> no_cut_mark (p @ s)"
  by (auto simp: no_cut_mark_def dest: in_set_dropD)

lemma declaration_text_ends:
  obtains q c where "lead False @ ''<?xml '' @ declaration_text ve en st = q @ [c, CHR 0x20]" "c = CHR ''l'' \<or> c = quote"
proof -
  have "declaration_field nm v = [] \<or> (\<exists>q. declaration_field nm v = q @ [quote, CHR 0x20])" for nm v
    by (simp add: declaration_field_def)
  then consider "declaration_field ''standalone'' st = []" "declaration_field ''encoding'' en = []" "declaration_field ''version'' ve = []"
    | q where "declaration_field ''standalone'' st = []" "declaration_field ''encoding'' en = []" "declaration_field ''version'' ve = q @ [quote, CHR 0x20]"
    | q where "declaration_field ''standalone'' st = []" "declaration_field ''encoding'' en = q @ [quote, CHR 0x20]"
    | q where "declaration_field ''standalone'' st = q @ [quote, CHR 0x20]"
    by metis
  then show thesis
  proof cases
    case 1
    then show ?thesis using that [of "''<?xm''" "CHR ''l''"] by (simp add: lead_def)
  next
    case (2 q)
    then show ?thesis using that [of "''<?xml '' @ q" quote] by (simp add: lead_def)
  next
    case (3 q)
    then show ?thesis using that [of "''<?xml '' @ declaration_field ''version'' ve @ q" quote] by (simp add: lead_def)
  next
    case (4 q)
    then show ?thesis
      using that [of "''<?xml '' @ declaration_field ''version'' ve @ declaration_field ''encoding'' en @ q" quote]
      by (simp add: lead_def)
  qed
qed

text \<open>A fault in the first node is one of the generator.\<close>

lemma LoadXml_faults:
  assumes "fs (c_str fName) = Some (lead bom @ s)" "raw_ok s" "no_cut_mark (lead bom @ s)" "s = CHR ''<'' # r"
    and "Identify (document_encoding bom) (Some s) = Some k"
    and "\<And>n. faults (Node_Parse (Suc (Suc n)) (document_encoding bom) k (Some s)) f"
  shows "LoadXml_file vProtocol fName fs = Inl f"
proof -
  let ?e = "document_encoding bom" and ?p = "lead bom @ s"
  have raw: "raw_ok ?p" using assms(2) by (simp add: lead_def)
  then have whole: "c_str ?p = ?p" "normalize_newlines ?p = ?p"
    using c_str_id [of ?p] normalize_raw [of ?p] by (simp_all only: raw_ok_def simp_thms)
  have skip: "SkipWhiteSpace ?e (Some ?p) = Some s"
    unfolding assms(4)
    by (simp add: lead_def document_encoding_def SkipWhiteSpace_def skipped_mark_def lead_bytes_def del: skip_white.simps)
      (simp add: skipped_mark_def lead_bytes_def IsWhiteSpace_def byte_of_def)
  have bom: "lead_bytes ?p = bom" "?p \<noteq> []" unfolding assms(4) by (simp_all add: lead_def lead_bytes_def)
  have "document_loop (Suc n) ?e (Some s) d = Inl f" if "countable_text d" for n d
    using assms(4-6) that by (simp add: faults_def bnd_def del: Node_Parse.simps)
  then have "Document_Parse (Some ?p) TIXML_ENCODING_UNKNOWN d = Inl f" for d
    using skip bom assms(3) by (cases bom) (simp_all add: Document_Parse_def run_simps sq_def bnd_def ClearError_def
        Let_def document_encoding_def del: document_loop.simps)
  then show ?thesis
    using assms(1) whole bom(2) by (auto simp: LoadXml_file_def LoadFile_def run_simps sq_def bnd_def)
qed

text \<open>C39: A file that consists of the beginning of an XML declaration as it is printed, \<open><?xml\<close> with any of the fields
  version, encoding and standalone in this order, whose values can stand between quotes as they are (\<open>field_ok\<close>), and breaks off directly behind a blank, the one behind \<open><?xml\<close> or the one behind the
  last field, aborts the program: \<open>SkipWhiteSpace\<close> reaches the end of the text, and \<open>assert (0)\<close> of
  \<open>StringEqual\<close> fails instead of the error \<open>TIXML_ERROR_PARSING_DECLARATION\<close>.\<close>

theorem declaration_cut_off:
  assumes "field_ok TIXML_ENCODING_UNKNOWN ve" "field_ok TIXML_ENCODING_UNKNOWN en" "field_ok TIXML_ENCODING_UNKNOWN st"
    and "fs (c_str fName) = Some (''<?xml '' @ declaration_field ''version'' ve
      @ declaration_field ''encoding'' en @ declaration_field ''standalone'' st)"
  shows "LoadXml_file vProtocol fName fs = Inl Aborted"
proof (rule LoadXml_faults [where bom = False and k = KDeclaration])
  let ?p = "''<?xml '' @ declaration_text ve en st"
  show "fs (c_str fName) = Some (lead False @ ?p)" using assms(4) by (simp add: lead_def)
  show "raw_ok ?p" using assms(1-3) raw_ok_field by simp
  show "?p = CHR ''<'' # ''?xml '' @ declaration_text ve en st" by simp
  obtain q c where q: "lead False @ ?p = q @ [c, CHR 0x20]" "c = CHR ''l'' \<or> c = quote"
    by (rule declaration_text_ends)
  then have "CHR 0xEF \<notin> set [c, CHR 0x20]" by (auto simp: quote_def)
  then show "no_cut_mark (lead False @ ?p)" unfolding q(1) by (intro no_cut_mark_tail) simp_all
  show "faults (Node_Parse (Suc (Suc n)) (document_encoding False) KDeclaration (Some ?p)) Aborted" for n
    using declaration_open [OF assms(1-3)]
    by (auto simp: Declaration_Parse_def Let_def SkipWhiteSpace_solid document_encoding_def
        intro!: faults_after_sq [OF yields_Stamp] simp del: declaration_loop.simps)
  show "Identify (document_encoding False) (Some ?p) = Some KDeclaration"
    by (simp add: Identify_def Let_def SkipWhiteSpace_solid)
qed

theorem declaration_cut_off_witness:
  "LoadXml_file [] ''f'' [''f'' \<mapsto> ''<?xml version='' @ [quote] @ ''1.0'' @ [quote, CHR 0x20]] = Inl Aborted"
proof (rule declaration_cut_off)
  show "field_ok TIXML_ENCODING_UNKNOWN ''1.0''" "field_ok TIXML_ENCODING_UNKNOWN []" "field_ok TIXML_ENCODING_UNKNOWN []"
    by (simp_all add: field_ok_def valid_other quote_def raw_ok_def del: valid.simps)
  show "[''f'' \<mapsto> ''<?xml version='' @ [quote] @ ''1.0'' @ [quote, CHR 0x20]] (c_str ''f'')
      = Some (''<?xml '' @ declaration_field ''version'' ''1.0'' @ declaration_field ''encoding'' []
         @ declaration_field ''standalone'' [])"
    by (simp add: declaration_field_def c_str_def)
qed

text \<open>A character of which the text has only the beginning.\<close>

lemma GetChar_cut: "length s < utf8ByteTable (hd s) \<Longrightarrow> s \<noteq> [] \<Longrightarrow> GetChar TIXML_ENCODING_UTF8 s = Inl OutOfBounds"
  by (cases s) (auto simp: GetChar_def Let_def)

lemma cut_character_solid:
  assumes "length s < utf8ByteTable (hd s)" "s \<noteq> []" "CHR 0xEF \<notin> set s"
  shows "solid e s" "hd s \<noteq> CHR ''<''"
proof -
  have "utf8ByteTable (hd s) \<noteq> 1" using assms(1,2) by (cases s) auto
  then have "0xC2 \<le> byte_of (hd s)" by (auto simp: utf8ByteTable_def Let_def split: if_splits)
  then have "\<not> IsWhiteSpace (hd s)" "byte_of (hd s) \<noteq> byte_of (CHR ''<'')"
    by (simp_all add: IsWhiteSpace_def) (simp add: byte_of_def)
  then show "solid e s" "hd s \<noteq> CHR ''<''"
    using assms(2,3) solid_ascii [of "hd s" e "tl s"] by (cases s; auto)+
qed

lemma Text_Parse_cut:
  assumes "length s < utf8ByteTable (hd s)" "s \<noteq> []" "CHR 0xEF \<notin> set s"
  shows "faults (Text_Parse False TIXML_ENCODING_UTF8 (Some s)) OutOfBounds"
proof -
  note s = cut_character_solid [OF assms]
  then have no: "\<not> starts s (CHR ''<'' # t) False" for t using assms(2) by (cases s) auto
  moreover have "\<not> IsWhiteSpace (hd s)" using s(1) by (simp add: solid_def)
  ultimately have "ReadText TIXML_ENCODING_UTF8 (Some s) True ''<'' False = Inl OutOfBounds"
    using assms(2) GetChar_cut [OF assms(1,2)] s(1)
    by (simp add: ReadText_def condenseWhiteSpace_def from_ptr_def SkipWhiteSpace_solid read_condense_char [OF _ _ _ refl])
  moreover have "yields (StringEqual (Some s) ''<![CDATA['' False) False"
    by (rule yields_StringEqual) (use no assms(2) in simp_all)
  ultimately show ?thesis
    unfolding Text_Parse_def
    by (simp, intro faults_after_sq [OF yields_Stamp] faults_after [where x = False]) (simp_all add: faults_raises)
qed

text \<open>A UTF-8 file that ends in the middle of a character is read beyond its end: \<open>GetChar\<close> moves on by the
  length that the first byte promises.\<close>

theorem character_cut_off:
  assumes "name_ok TIXML_ENCODING_UTF8 nm" "length s < utf8ByteTable (hd s)" "s \<noteq> []" "raw_ok s" "CHR 0xEF \<notin> set s"
    and "fs (c_str fName) = Some (lead True @ ''<'' @ nm @ ''>'' @ s)"
  shows "LoadXml_file vProtocol fName fs = Inl OutOfBounds"
proof (rule LoadXml_faults [where bom = True and k = KElement and r = "nm @ ''>'' @ s"])
  let ?e = TIXML_ENCODING_UTF8 and ?p = "''<'' @ nm @ ''>'' @ s"
  show "fs (c_str fName) = Some (lead True @ ?p)" by (rule assms(6))
  show "raw_ok ?p" using raw_ok_name [OF assms(1)] assms(4) by simp
  show "?p = CHR ''<'' # nm @ ''>'' @ s" by simp
  show "no_cut_mark (lead True @ ?p)"
    using no_cut_mark_tail [of "CHR ''>'' # s" "lead True @ ''<'' @ nm"] assms(3,5) by (cases s) auto
  show "Identify (document_encoding True) (Some ?p) = Some KElement"
    using Identify_element [OF assms(1), of "''>'' @ s"] by (simp add: document_encoding_def)
  show "faults (Node_Parse (Suc (Suc n)) (document_encoding True) KElement (Some ?p)) OutOfBounds" for n
  proof -
    note cut = Text_Parse_cut [OF assms(2,3,5)] and solid = cut_character_solid [OF assms(2,3,5)]
    have "faults (ReadValue (Suc n) TIXML_ENCODING_UTF8 [] (Some s)) OutOfBounds" for n
      using solid assms(3) by (simp add: SkipWhiteSpace_solid Let_def condenseWhiteSpace_def faults_bnd [OF cut])
    then show ?thesis
      using Element_Parse_faults [OF _ assms(1)] by (simp add: document_encoding_def del: ReadValue.simps)
  qed
qed

theorem character_cut_off_witness:
  "LoadXml_file [] ''f'' [''f'' \<mapsto> [CHR 0xEF, CHR 0xBB, CHR 0xBF] @ ''<a>'' @ [CHR 0xE4]] = Inl OutOfBounds"
proof (rule character_cut_off)
  show "name_ok TIXML_ENCODING_UTF8 ''a''"
    by (simp add: name_ok_def name_start_def name_char_def IsAlpha_def IsAlphaNum_def isalpha_def is_upper_def
        skipped_mark_def lead_bytes_def byte_of_def)
  show "length [CHR 0xE4] < utf8ByteTable (hd [CHR 0xE4])" by (simp add: utf8ByteTable_def byte_of_def)
  show "[''f'' \<mapsto> [CHR 0xEF, CHR 0xBB, CHR 0xBF] @ ''<a>'' @ [CHR 0xE4]] (c_str ''f'')
      = Some (lead True @ ''<'' @ ''a'' @ ''>'' @ [CHR 0xE4])"
    by (simp add: lead_def c_str_def)
qed simp_all

section \<open>Texts that are never left\<close>

lemma stamp_loop_stuck:
  assumes "length now < length p" "length p < 3" "hd p = CHR 0xEF"
  shows "stamp_loop TIXML_ENCODING_UTF8 ts now p r c = None"
proof (rule ccontr)
  assume "stamp_loop TIXML_ENCODING_UTF8 ts now p r c \<noteq> None"
  then obtain x where "stamp_loop TIXML_ENCODING_UTF8 ts now p r c = Some x" by auto
  then have "\<not> (length now < length p \<and> length p < 3 \<and> hd p = CHR 0xEF \<and> TIXML_ENCODING_UTF8 = TIXML_ENCODING_UTF8)"
  proof (rule stamp_loop.raw_induct [where P = "\<lambda>e ts now p r c x.
      \<not> (length now < length p \<and> length p < 3 \<and> hd p = CHR 0xEF \<and> e = TIXML_ENCODING_UTF8)", rotated])
    fix f e ts now p r c x
    assume IH: "\<And>e ts now p r c x. f e ts now p r c = Some x \<Longrightarrow>
        \<not> (length now < length p \<and> length p < 3 \<and> hd p = CHR 0xEF \<and> e = TIXML_ENCODING_UTF8)"
      and eq: "(if length now < length p then let (q, r', c') = stamp_step e ts p r c in f e ts now q r' c'
                else Some (p, r, c)) = Some x"
    show "\<not> (length now < length p \<and> length p < 3 \<and> hd p = CHR 0xEF \<and> e = TIXML_ENCODING_UTF8)"
    proof
      assume a: "length now < length p \<and> length p < 3 \<and> hd p = CHR 0xEF \<and> e = TIXML_ENCODING_UTF8"
      then have "stamp_step e ts p r c = (p, r, c)" by (auto simp: stamp_step_def Let_def)
      then show False using eq IH a by (metis (no_types, lifting) old.prod.case)
    qed
  qed
  then show False using assms by simp
qed

text \<open>When places are counted over a byte \<open>0xEF\<close> of a UTF-8 text that has fewer than two more bytes
  behind it, \<open>Stamp\<close> does not return.\<close>

theorem Stamp_never_returns:
  assumes "stamp d = CHR 0xEF # q" "length q < 2" "length now \<le> length q" "1 \<le> tabsize d"
  shows "Stamp TIXML_ENCODING_UTF8 (Some now) d = Inl Endless"
  using assms stamp_loop_stuck [of now "CHR 0xEF # q"]
  by (simp add: Stamp_def run_simps sq_def bnd_def returns_def)

lemma stamp_loop_done: "\<not> length now < length p \<Longrightarrow> stamp_loop e ts now p r c = Some (p, r, c)"
  by (subst stamp_loop.simps) simp

lemma stamp_loop_more: "length now < length p \<Longrightarrow> stamp_step e ts p r c = (q, r', c') \<Longrightarrow>
    stamp_loop e ts now p r c = stamp_loop e ts now q r' c'"
  by (subst stamp_loop.simps) simp

lemmas run_all = run_simps bnd_def sq_def fails_with_def SetError_def Stamp_def returns_def

definition endless_file :: string where
  "endless_file = [CHR 0xEF, CHR 0xBB, CHR 0xBF] @ ''<a '' @ [CHR 0xEF, CHR ''>'']"

theorem Stamp_never_returns_witness:
  "LoadFile [''f'' \<mapsto> endless_file] ''f'' TIXML_ENCODING_UNKNOWN TiXmlDocument_new = Inl Endless"
proof -
  let ?e = TIXML_ENCODING_UTF8 and ?p = "''<a '' @ [CHR 0xEF, CHR ''>'']" and ?q = "[CHR 0xEF, CHR ''>'']"
  define d where "d = parse_start endless_file True (TiXmlDocument_new\<lparr>doc_nodes := []\<rparr>)"
  define d1 where "d1 = d\<lparr>stamp := ?p\<rparr>"
  define d2 where "d2 = d\<lparr>stamp := ?q, cursor := \<lparr>row = 0, col = 3\<rparr>\<rparr>"
  note c = byte_of_def skipped_mark_def lead_bytes_def IsWhiteSpace_def
  have "stamp_loop ?e 4 ?p endless_file 0 0 = Some (?p, 0, 0)"
    by (simp add: endless_file_def stamp_loop_done stamp_loop_more [where q = ?p and r' = 0 and c' = 0]
        stamp_step_def c)
  then have s1: "Stamp ?e (Some ?p) d = Inr ((), d1)"
    by (simp add: run_all d1_def d_def parse_start_def TiXmlDocument_new_def)
  have "stamp_loop ?e 4 ?q ?p 0 0 = stamp_loop ?e 4 ?q (drop 1 ?p) 0 1"
    by (rule stamp_loop_more) (simp_all add: stamp_step_def utf8ByteTable_def byte_of_def)
  also have "\<dots> = stamp_loop ?e 4 ?q (drop 2 ?p) 0 2"
    by (rule stamp_loop_more) (simp_all add: stamp_step_def utf8ByteTable_def byte_of_def)
  also have "\<dots> = stamp_loop ?e 4 ?q ?q 0 3"
    by (rule stamp_loop_more) (simp_all add: stamp_step_def utf8ByteTable_def byte_of_def)
  finally have s2: "Stamp ?e (Some ?q) d1 = Inr ((), d2)"
    by (simp add: run_all d1_def d2_def d_def parse_start_def TiXmlDocument_new_def stamp_loop_done)
  have "stamp d2 = CHR 0xEF # ''>''" "1 \<le> tabsize d2" "\<not> Error d2"
    by (simp_all add: d2_def d_def parse_start_def TiXmlDocument_new_def Error_def)
  then have s3: "fails_with err (Some ''>'') ?e x d2 = Inl Endless" for err and x :: "ptr \<times> string \<times> string"
    using Stamp_never_returns [of "d2\<lparr>errorId := err, errorLocation := no_cursor\<rparr>" "''>''" "''>''"]
    by (simp add: fails_with_def SetError_def run_simps sq_def bnd_def)
  have name: "ReadName ?q = (Some ''>'', [CHR 0xEF])" "ReadName (tl ?p) = (Some ('' '' @ ?q), ''a'')"
    by (simp_all add: ReadName_def name_start_def name_char_def IsAlpha_def IsAlphaNum_def isalpha_def isdigit_def
        is_upper_def c)
  have skip: "SkipWhiteSpace ?e (Some ?q) = Some ?q" "SkipWhiteSpace ?e (Some ('' '' @ ?q)) = Some ?q"
      "SkipWhiteSpace ?e (Some ''>'') = Some ''>''" "SkipWhiteSpace ?e (Some (tl ?p)) = Some (tl ?p)"
      "SkipWhiteSpace ?e (Some ?p) = Some ?p" "SkipWhiteSpace ?e (Some endless_file) = Some ?p"
    by (simp_all add: SkipWhiteSpace_def endless_file_def c)
  have "Attribute_Parse True ?e (Some ?q) d1 = Inl Endless"
    using skip(1,3) name(1) by (simp add: Attribute_Parse_def Let_def s2 s3 sq_def bnd_def attribute_error_def)
  then have el: "Element_Parse rv ?e (Some ?p) d = Inl Endless" for rv
    using skip name s1 by (simp add: Element_Parse_def Let_def sq_def bnd_def run_simps)
  have "Node_Parse (Suc n) ?e KElement (Some ?p) d = Inl Endless" for n
    by (simp only: Node_Parse.simps node_kind.case el)
  moreover have "Identify ?e (Some ?p) = Some KElement"
    using skip(5) by (simp add: Identify_def Let_def name_start_def IsAlpha_def isalpha_def byte_of_def
        ToLower_def is_upper_def)
  ultimately have "document_loop (Suc n) ?e (Some ?p) d = Inl Endless" for n
    by (simp add: bnd_def del: Node_Parse.simps mult_Suc_right)
  moreover have "c_str endless_file = endless_file" "normalize_newlines endless_file = endless_file"
      "lead_bytes endless_file" "endless_file \<noteq> []"
    by (simp_all add: endless_file_def c_str_def lead_bytes_def)
  moreover have "d = TiXmlDocument_new\<lparr>doc_nodes := [], errorId := TIXML_NO_ERROR, errorLocation := \<lparr>row = 0, col = 0\<rparr>,
      stamp := endless_file, cursor := \<lparr>row = 0, col = 0\<rparr>, useMicrosoftBOM := True\<rparr>"
    by (simp add: d_def parse_start_def TiXmlDocument_new_def)
  ultimately show ?thesis
    using skip(6)
    by (simp add: LoadFile_def Document_Parse_def run_simps sq_def bnd_def ClearError_def Let_def del: document_loop.simps)
qed

end
