(* ===== verification/TinyXml_Dom.thy ===== *)
theory TinyXml_Dom
  imports TinyXml
begin

text \<open>
  The part of \<open>autoproto/tinyxml.cpp\<close> that works on a finished tree.  The nodes are objects on a heap that point to their
  parent, their first and last child and their neighbours; \<open>None\<close> is \<open>NULL\<close>, an access through it is
  \<open>NullDeref\<close>, one to a deleted node is \<open>DanglingPtr\<close>, and an assertion that fails is \<open>Aborted\<close>.  \<open>new\<close> always succeeds.
\<close>

datatype node_data =
    DDocument xml_error bool
  | DElement "(string \<times> string) list"
  | DComment
  | DUnknown
  | DText bool
  | DDeclaration string string string

record dom_node =
  node_data :: node_data
  node_value :: string
  n_parent :: "nat option"
  n_first :: "nat option"
  n_last :: "nat option"
  n_prev :: "nat option"
  n_next :: "nat option"

record dom =
  d_heap :: "nat \<Rightarrow> dom_node option"
  d_fresh :: nat

type_synonym 'a dp = "(dom, 'a) prog"

definition fetch :: "nat \<Rightarrow> dom_node dp" where
  "fetch a = bnd (gets (\<lambda>s. d_heap s a)) (\<lambda>x. case x of None \<Rightarrow> fail DanglingPtr | Some n \<Rightarrow> ret n)"

definition set_node :: "nat \<Rightarrow> (dom_node \<Rightarrow> dom_node) \<Rightarrow> unit dp" where
  "set_node a f = bnd (fetch a) (\<lambda>n. modify (\<lambda>s. s\<lparr>d_heap := (d_heap s)(a \<mapsto> f n)\<rparr>))"

definition free_node :: "nat \<Rightarrow> unit dp" where
  "free_node a = bnd (fetch a) (\<lambda>n. modify (\<lambda>s. s\<lparr>d_heap := (d_heap s)(a := None)\<rparr>))"

definition TiXmlNode_new :: "node_data \<Rightarrow> string \<Rightarrow> nat dp" where
  "TiXmlNode_new d v = bnd (gets d_fresh) (\<lambda>a.
     sq (modify (\<lambda>s. s\<lparr>d_heap := (d_heap s)(a \<mapsto> \<lparr>node_data = d, node_value = v, n_parent = None, n_first = None,
           n_last = None, n_prev = None, n_next = None\<rparr>), d_fresh := Suc a\<rparr>))
        (ret a))"

definition is_document :: "dom_node \<Rightarrow> bool" where
  "is_document n = (case node_data n of DDocument err bom \<Rightarrow> True | _ \<Rightarrow> False)"

section \<open>Attributes\<close>

text \<open>\<open>Add\<close> tests for a double before the new attribute gets its name, so that it asks for the empty one.\<close>

definition FindOrCreate :: "(string \<times> string) list \<Rightarrow> string \<Rightarrow> fault + (string \<times> string) list" where
  "FindOrCreate as nm =
     (if Find as nm \<noteq> None then Inr as
      else if Find as [] \<noteq> None then Inl Aborted
      else Inr (Add as (nm, [])))"

text \<open>\<open>SetValue\<close> of the attribute that \<open>Find\<close> delivers, the first one with the name.\<close>

fun set_value :: "(string \<times> string) list \<Rightarrow> string \<Rightarrow> string \<Rightarrow> (string \<times> string) list" where
  "set_value [] nm v = []"
| "set_value ((n, w) # as) nm v = (if c_str n = c_str nm then (n, v) # as else (n, w) # set_value as nm v)"

definition SetAttribute :: "(string \<times> string) list \<Rightarrow> string \<Rightarrow> string \<Rightarrow> fault + (string \<times> string) list" where
  "SetAttribute as nm v =
     (case FindOrCreate as (c_str nm) of Inl f \<Rightarrow> Inl f | Inr bs \<Rightarrow> Inr (set_value bs nm (c_str v)))"

definition Attribute :: "(string \<times> string) list \<Rightarrow> string \<Rightarrow> string option" where
  "Attribute as nm = map_option (\<lambda>a. c_str (snd a)) (Find as nm)"

fun remove_first :: "(string \<times> string) list \<Rightarrow> string \<Rightarrow> (string \<times> string) list" where
  "remove_first [] nm = []"
| "remove_first ((n, w) # as) nm = (if c_str n = c_str nm then as else (n, w) # remove_first as nm)"

definition RemoveAttribute :: "(string \<times> string) list \<Rightarrow> string \<Rightarrow> (string \<times> string) list" where
  "RemoveAttribute as nm = (if Find as nm = None then as else remove_first as nm)"

text \<open>The attributes in \<open>TiXmlElement::CopyTo\<close>.\<close>

fun copy_attributes :: "(string \<times> string) list \<Rightarrow> (string \<times> string) list \<Rightarrow> fault + (string \<times> string) list" where
  "copy_attributes bs [] = Inr bs"
| "copy_attributes bs ((n, v) # as) =
     (case SetAttribute bs (c_str n) (c_str v) of Inl f \<Rightarrow> Inl f | Inr cs \<Rightarrow> copy_attributes cs as)"

section \<open>The tree\<close>

partial_function (option) get_document :: "(nat \<Rightarrow> dom_node option) \<Rightarrow> nat option \<Rightarrow> (fault + nat option) option" where
  "get_document h p =
     (case p of None \<Rightarrow> Some (Inr None)
      | Some a \<Rightarrow> (case h a of None \<Rightarrow> Some (Inl DanglingPtr)
          | Some n \<Rightarrow> if is_document n then Some (Inr (Some a)) else get_document h (n_parent n)))"

declare get_document.simps [code]

definition GetDocument :: "nat \<Rightarrow> nat option dp" where
  "GetDocument a = bnd (gets d_heap) (\<lambda>h. bnd (returns (get_document h (Some a))) raises)"

definition top_only :: "nat \<Rightarrow> unit dp" where
  "top_only this = bnd (GetDocument this) (\<lambda>d.
     case d of None \<Rightarrow> ret ()
     | Some a \<Rightarrow> set_node a (\<lambda>n. case node_data n of
           DDocument err bom \<Rightarrow> if err = TIXML_NO_ERROR then n\<lparr>node_data := DDocument TIXML_ERROR_DOCUMENT_TOP_ONLY bom\<rparr> else n
         | _ \<Rightarrow> n))"

text \<open>The destructor deletes the children, each after its successor has been read.  The first argument is fuel.\<close>

fun delete_node :: "nat \<Rightarrow> nat \<Rightarrow> unit dp" and delete_kids :: "nat \<Rightarrow> nat option \<Rightarrow> unit dp" where
  "delete_node 0 a = fail Endless"
| "delete_node (Suc n) a = bnd (fetch a) (\<lambda>x. sq (delete_kids n (n_first x)) (free_node a))"
| "delete_kids 0 p = fail Endless"
| "delete_kids (Suc n) p = (case p of None \<Rightarrow> ret ()
     | Some k \<Rightarrow> bnd (fetch k) (\<lambda>x. sq (delete_node n k) (delete_kids n (n_next x))))"

definition TiXmlNode_Clear :: "nat \<Rightarrow> nat \<Rightarrow> unit dp" where
  "TiXmlNode_Clear n this = bnd (fetch this) (\<lambda>x. sq (delete_kids n (n_first x))
     (set_node this (\<lambda>x. x\<lparr>n_first := None, n_last := None\<rparr>)))"

definition Node_LinkEndChild :: "nat \<Rightarrow> nat \<Rightarrow> nat \<Rightarrow> nat option dp" where
  "Node_LinkEndChild n this node =
     bnd (fetch node) (\<lambda>x.
     sq (check (n_parent x = None \<or> n_parent x = Some this) Aborted)
    (bnd (GetDocument node) (\<lambda>d.
     sq (if d = None then ret () else bnd (GetDocument this) (\<lambda>e. check (d = e) Aborted))
    (if is_document x then sq (delete_node n node) (sq (top_only this) (ret None))
     else bnd (fetch this) (\<lambda>t.
       sq (set_node node (\<lambda>x. x\<lparr>n_parent := Some this, n_prev := n_last t, n_next := None\<rparr>))
      (sq (case n_last t of
             Some l \<Rightarrow> set_node l (\<lambda>x. x\<lparr>n_next := Some node\<rparr>)
           | None \<Rightarrow> set_node this (\<lambda>x. x\<lparr>n_first := Some node\<rparr>))
      (sq (set_node this (\<lambda>x. x\<lparr>n_last := Some node\<rparr>)) (ret (Some node)))))))))"

text \<open>\<open>Clone\<close>: an element is copied with its attributes and children, a document with its children, others alone.\<close>

fun Clone :: "nat \<Rightarrow> nat \<Rightarrow> nat dp" and clone_kids :: "nat \<Rightarrow> nat \<Rightarrow> nat option \<Rightarrow> unit dp" where
  "Clone 0 a = fail Endless"
| "Clone (Suc n) a = bnd (fetch a) (\<lambda>x.
     bnd (case node_data x of
            DElement as \<Rightarrow> bnd (raises (copy_attributes [] (attribute_walk as))) (\<lambda>bs. ret (DElement bs))
          | d \<Rightarrow> ret d) (\<lambda>d.
     bnd (TiXmlNode_new d (c_str (node_value x))) (\<lambda>c.
     sq (case d of DElement as \<Rightarrow> clone_kids n c (n_first x) | DDocument err bom \<Rightarrow> clone_kids n c (n_first x) | _ \<Rightarrow> ret ())
       (ret c))))"
| "clone_kids 0 c p = fail Endless"
| "clone_kids (Suc n) c p = (case p of None \<Rightarrow> ret ()
     | Some k \<Rightarrow> bnd (Clone n k) (\<lambda>k'. sq (Node_LinkEndChild n c k')
         (bnd (fetch k) (\<lambda>x. clone_kids n c (n_next x)))))"

definition InsertEndChild :: "nat \<Rightarrow> nat \<Rightarrow> nat \<Rightarrow> nat option dp" where
  "InsertEndChild n this addThis = bnd (fetch addThis) (\<lambda>x.
     if is_document x then sq (top_only this) (ret None)
     else bnd (Clone n addThis) (Node_LinkEndChild n this))"

text \<open>The links of a copy that has been made, in front of a child and behind it.\<close>

definition link_before :: "nat \<Rightarrow> nat \<Rightarrow> nat \<Rightarrow> nat option dp" where
  "link_before this b node = bnd (fetch b) (\<lambda>x.
     sq (set_node node (\<lambda>y. y\<lparr>n_parent := Some this, n_next := Some b, n_prev := n_prev x\<rparr>))
    (sq (case n_prev x of
           Some p \<Rightarrow> set_node p (\<lambda>y. y\<lparr>n_next := Some node\<rparr>)
         | None \<Rightarrow> bnd (fetch this) (\<lambda>t. sq (check (n_first t = Some b) Aborted)
             (set_node this (\<lambda>t. t\<lparr>n_first := Some node\<rparr>))))
    (sq (set_node b (\<lambda>x. x\<lparr>n_prev := Some node\<rparr>)) (ret (Some node)))))"

definition link_after :: "nat \<Rightarrow> nat \<Rightarrow> nat \<Rightarrow> nat option dp" where
  "link_after this b node = bnd (fetch b) (\<lambda>x.
     sq (set_node node (\<lambda>y. y\<lparr>n_parent := Some this, n_prev := Some b, n_next := n_next x\<rparr>))
    (sq (case n_next x of
           Some p \<Rightarrow> set_node p (\<lambda>y. y\<lparr>n_prev := Some node\<rparr>)
         | None \<Rightarrow> bnd (fetch this) (\<lambda>t. sq (check (n_last t = Some b) Aborted)
             (set_node this (\<lambda>t. t\<lparr>n_last := Some node\<rparr>))))
    (sq (set_node b (\<lambda>x. x\<lparr>n_next := Some node\<rparr>)) (ret (Some node)))))"

text \<open>The tests in front: the place must be a child of \<open>this\<close>, and a document is never a child.\<close>

definition insert_at :: "(nat \<Rightarrow> nat option dp) \<Rightarrow> nat \<Rightarrow> nat \<Rightarrow> nat option \<Rightarrow> nat \<Rightarrow> nat option dp" where
  "insert_at link n this place addThis = (case place of None \<Rightarrow> ret None | Some b \<Rightarrow>
     bnd (fetch b) (\<lambda>x.
     if n_parent x \<noteq> Some this then ret None
     else bnd (fetch addThis) (\<lambda>y.
       if is_document y then sq (top_only this) (ret None)
       else bnd (Clone n addThis) link)))"

definition InsertBeforeChild :: "nat \<Rightarrow> nat \<Rightarrow> nat option \<Rightarrow> nat \<Rightarrow> nat option dp" where
  "InsertBeforeChild n this beforeThis = insert_at (link_before this (the beforeThis)) n this beforeThis"

definition InsertAfterChild :: "nat \<Rightarrow> nat \<Rightarrow> nat option \<Rightarrow> nat \<Rightarrow> nat option dp" where
  "InsertAfterChild n this afterThis = insert_at (link_after this (the afterThis)) n this afterThis"

text \<open>The neighbours of a node, or the ends of the parent's list, are set to a node; shared by the next two functions.\<close>

definition relink :: "nat \<Rightarrow> dom_node \<Rightarrow> nat option \<Rightarrow> nat option \<Rightarrow> unit dp" where
  "relink this x before behind =
     sq (case n_next x of
           Some q \<Rightarrow> set_node q (\<lambda>y. y\<lparr>n_prev := before\<rparr>)
         | None \<Rightarrow> set_node this (\<lambda>t. t\<lparr>n_last := before\<rparr>))
        (case n_prev x of
           Some p \<Rightarrow> set_node p (\<lambda>y. y\<lparr>n_next := behind\<rparr>)
         | None \<Rightarrow> set_node this (\<lambda>t. t\<lparr>n_first := behind\<rparr>))"

definition link_instead :: "nat \<Rightarrow> nat \<Rightarrow> nat \<Rightarrow> nat \<Rightarrow> nat option dp" where
  "link_instead n this b node = bnd (fetch b) (\<lambda>x.
     sq (set_node node (\<lambda>y. y\<lparr>n_next := n_next x, n_prev := n_prev x\<rparr>))
    (sq (relink this x (Some node) (Some node))
    (sq (delete_node n b)
    (sq (set_node node (\<lambda>y. y\<lparr>n_parent := Some this\<rparr>)) (ret (Some node))))))"

definition ReplaceChild :: "nat \<Rightarrow> nat \<Rightarrow> nat option \<Rightarrow> nat \<Rightarrow> nat option dp" where
  "ReplaceChild n this replaceThis = insert_at (link_instead n this (the replaceThis)) n this replaceThis"

definition RemoveChild :: "nat \<Rightarrow> nat \<Rightarrow> nat option \<Rightarrow> bool dp" where
  "RemoveChild n this removeThis = (case removeThis of None \<Rightarrow> ret False | Some b \<Rightarrow>
     bnd (fetch b) (\<lambda>x.
     sq (check (n_parent x = Some this) Aborted)
    (sq (relink this x (n_prev x) (n_next x))
    (sq (delete_node n b) (ret True)))))"

end
