(* ===== verification/TinyXml_Dom_Spec.thy ===== *)
theory TinyXml_Dom_Spec
  imports TinyXml_Dom
begin

text \<open>
  The linked nodes represent a tree, and the functions that edit it do to the list of children what their names say:
  the other nodes stay as they are, copies are complete, and no deleted node is left in the tree.
\<close>

section \<open>Trees on the heap\<close>

text \<open>A tree with the addresses of its nodes.\<close>

datatype dtree = DNode (root: nat) (content: "node_data \<times> string") (kids: "dtree list")

fun addrs :: "dtree \<Rightarrow> nat list" where
  "addrs (DNode a x ts) = a # concat (map addrs ts)"

definition all_addrs :: "dtree list \<Rightarrow> nat list" where
  "all_addrs ts = concat (map addrs ts)"

lemma all_addrs_simps [simp]:
  "all_addrs [] = []" "all_addrs (t # ts) = addrs t @ all_addrs ts" "all_addrs (ts @ us) = all_addrs ts @ all_addrs us"
  by (simp_all add: all_addrs_def)

lemma addrs_DNode [simp]: "addrs (DNode a x ts) = a # all_addrs ts"
  by (simp add: all_addrs_def)

declare addrs.simps [simp del]

lemma root_addrs [simp]: "root t \<in> set (addrs t)"
  by (cases t) simp

fun first_or :: "dtree list \<Rightarrow> nat option \<Rightarrow> nat option" where
  "first_or [] p = p"
| "first_or (t # ts) p = Some (root t)"

fun last_or :: "nat option \<Rightarrow> dtree list \<Rightarrow> nat option" where
  "last_or p [] = p"
| "last_or p (t # ts) = last_or (Some (root t)) ts"

lemma first_or_append [simp]: "first_or (ts @ us) p = first_or ts (first_or us p)"
  by (cases ts) simp_all

lemma last_or_append [simp]: "last_or p (ts @ us) = last_or (last_or p ts) us"
  by (induction ts arbitrary: p) simp_all

lemma last_or_snoc: "ts \<noteq> [] \<Longrightarrow> last_or p ts = Some (root (last ts))"
  by (induction ts arbitrary: p) auto

definition node_of :: "node_data \<times> string \<Rightarrow> nat option \<Rightarrow> nat option \<Rightarrow> nat option \<Rightarrow> dtree list \<Rightarrow> dom_node" where
  "node_of x par pr nx ts = \<lparr>node_data = fst x, node_value = snd x, n_parent = par, n_first = first_or ts None,
     n_last = last_or None ts, n_prev = pr, n_next = nx\<rparr>"

lemma node_of_sel [simp]:
  "node_data (node_of x par pr nx ts) = fst x" "node_value (node_of x par pr nx ts) = snd x"
  "n_parent (node_of x par pr nx ts) = par" "n_first (node_of x par pr nx ts) = first_or ts None"
  "n_last (node_of x par pr nx ts) = last_or None ts" "n_prev (node_of x par pr nx ts) = pr"
  "n_next (node_of x par pr nx ts) = nx"
  "(node_of x par pr nx ts)\<lparr>n_parent := q\<rparr> = node_of x q pr nx ts"
  "(node_of x par pr nx ts)\<lparr>n_prev := q\<rparr> = node_of x par q nx ts"
  "(node_of x par pr nx ts)\<lparr>n_next := q\<rparr> = node_of x par pr q ts"
  by (simp_all add: node_of_def)

fun holds :: "(nat \<Rightarrow> dom_node option) \<Rightarrow> nat option \<Rightarrow> nat option \<Rightarrow> nat option \<Rightarrow> dtree \<Rightarrow> bool"
  and holds_kids :: "(nat \<Rightarrow> dom_node option) \<Rightarrow> nat \<Rightarrow> nat option \<Rightarrow> dtree list \<Rightarrow> nat option \<Rightarrow> bool" where
  "holds h par pr nx (DNode a x ts) = (h a = Some (node_of x par pr nx ts) \<and> holds_kids h a None ts None)"
| "holds_kids h a pr [] nx = True"
| "holds_kids h a pr (t # ts) nx = (holds h (Some a) pr (first_or ts nx) t \<and> holds_kids h a (Some (root t)) ts nx)"

lemma holds_kids_append: "holds_kids h a pr (ts @ us) nx =
    (holds_kids h a pr ts (first_or us nx) \<and> holds_kids h a (last_or pr ts) us nx)"
  by (induction ts arbitrary: pr) auto

lemma holds_root: "holds h par pr nx t \<Longrightarrow> h (root t) = Some (node_of (content t) par pr nx (kids t))"
  by (cases t) simp

text \<open>A tree depends on its own nodes only; the links of its root can be changed alone.\<close>

lemma holds_frame:
  "\<forall>b \<in> set (addrs t). h' b = h b \<Longrightarrow> holds h par pr nx t \<Longrightarrow> holds h' par pr nx t"
  "\<forall>b \<in> set (all_addrs ts). h' b = h b \<Longrightarrow> holds_kids h a pr ts nx \<Longrightarrow> holds_kids h' a pr ts nx"
  by (induction h par pr nx t and h a pr ts nx rule: holds_holds_kids.induct) auto

lemma holds_relink:
  assumes "holds h par pr nx t" "distinct (addrs t)"
  shows "holds (h(root t \<mapsto> node_of (content t) par' pr' nx' (kids t))) par' pr' nx' t"
proof (cases t)
  case (DNode a x ts)
  then show ?thesis using assms holds_frame(2) [of ts "h(a \<mapsto> node_of x par' pr' nx' ts)" h a None None] by auto
qed

lemma holds_kids_next:
  assumes "holds_kids h a pr (ts @ [t]) nx" "distinct (all_addrs (ts @ [t]))" "h (root t) = Some n"
  shows "holds_kids (h(root t \<mapsto> n\<lparr>n_next := nx'\<rparr>)) a pr (ts @ [t]) nx'"
proof -
  have "root t \<notin> set (all_addrs ts)" using assms(2) root_addrs [of t] by (auto simp: disjoint_iff)
  then show ?thesis
    using assms holds_relink [of h "Some a" "last_or pr ts" nx t "Some a" "last_or pr ts" nx'] holds_root
      holds_frame(2) [of ts "h(root t \<mapsto> n\<lparr>n_next := nx'\<rparr>)" h a pr "Some (root t)"]
    by (fastforce simp: holds_kids_append)
qed

lemma holds_kids_prev:
  assumes "holds_kids h a pr (t # ts) nx" "distinct (all_addrs (t # ts))" "h (root t) = Some n"
  shows "holds_kids (h(root t \<mapsto> n\<lparr>n_prev := pr'\<rparr>)) a pr' (t # ts) nx"
proof -
  have "root t \<notin> set (all_addrs ts)" using assms(2) root_addrs [of t] by (auto simp: disjoint_iff)
  then show ?thesis
    using assms holds_relink [of h "Some a" pr "first_or ts nx" t "Some a" pr' "first_or ts nx"] holds_root
      holds_frame(2) [of ts "h(root t \<mapsto> n\<lparr>n_prev := pr'\<rparr>)" h a "Some (root t)" nx]
    by fastforce
qed

section \<open>The primitive accesses\<close>

lemma wp_fetch [wp_simps]: "wp (fetch a) Q s = (\<exists>n. d_heap s a = Some n \<and> Q n s)"
  by (auto simp: fetch_def wp_simps split: option.split)

lemma wp_set_node [wp_simps]:
  "wp (set_node a f) Q s = (\<exists>n. d_heap s a = Some n \<and> Q () (s\<lparr>d_heap := (d_heap s)(a \<mapsto> f n)\<rparr>))"
  by (auto simp: set_node_def wp_simps)

lemma wp_free_node [wp_simps]:
  "wp (free_node a) Q s = (\<exists>n. d_heap s a = Some n \<and> Q () (s\<lparr>d_heap := (d_heap s)(a := None)\<rparr>))"
  by (auto simp: free_node_def wp_simps)

lemma wp_new [wp_simps]: "wp (TiXmlNode_new d v) Q s =
    Q (d_fresh s) (s\<lparr>d_heap := (d_heap s)(d_fresh s \<mapsto> node_of (d, v) None None None []), d_fresh := Suc (d_fresh s)\<rparr>)"
  by (simp add: TiXmlNode_new_def wp_simps node_of_def)

section \<open>Deleting\<close>

definition without :: "nat list \<Rightarrow> dom \<Rightarrow> dom" where
  "without as s = s\<lparr>d_heap := (\<lambda>b. if b \<in> set as then None else d_heap s b)\<rparr>"

lemma without_simps [simp]: "d_fresh (without as s) = d_fresh s"
  "d_heap (without as s) b = (if b \<in> set as then None else d_heap s b)" "without [] s = s"
  "without as (without bs s) = without (bs @ as) s"
  by (auto simp: without_def intro!: dom.equality)

lemma free_last: "s\<lparr>d_heap := (d_heap (without as s))(a := None)\<rparr> = without (a # as) s"
  "(without as s)\<lparr>d_heap := (d_heap (without as s))(a := None)\<rparr> = without (a # as) s"
  by (auto simp: without_def intro!: dom.equality)

lemma addrs_length: "0 < length (addrs t)"
  by (cases t) simp

lemma deletes:
  "holds (d_heap s) par pr nx t \<Longrightarrow> distinct (addrs t) \<Longrightarrow> 2 * length (addrs t) \<le> n \<Longrightarrow>
     wp (delete_node n (root t)) (\<lambda>_ s'. s' = without (addrs t) s) s"
  "holds_kids (d_heap s) a pr ts None \<Longrightarrow> distinct (all_addrs ts) \<Longrightarrow> 2 * length (all_addrs ts) < n \<Longrightarrow>
     wp (delete_kids n (first_or ts None)) (\<lambda>_ s'. s' = without (all_addrs ts) s) s"
proof (induction n arbitrary: s t ts par pr nx a)
  case (Suc n)
  {
    case 1
    obtain a x us where t: "t = DNode a x us" by (cases t)
    have "wp (delete_kids n (first_or us None)) (\<lambda>_ s'. s' = without (all_addrs us) s) s"
      using 1 by (intro Suc.IH(2)) (auto simp: t)
    then have "wp (delete_kids n (first_or us None)) (\<lambda>_. wp (free_node a) (\<lambda>_ s'. s' = without (addrs t) s)) s"
      by (rule wp_mono) (use 1 in \<open>auto simp: t wp_simps free_last\<close>)
    then show ?case using 1 by (simp add: t wp_simps)
  next
    case 2
    show ?case
    proof (cases ts)
      case Nil
      then show ?thesis by (simp add: wp_simps)
    next
      case (Cons u us)
      have "wp (delete_node n (root u)) (\<lambda>_ s'. s' = without (addrs u) s) s"
        using 2 addrs_length [of u] by (intro Suc.IH(1)) (auto simp: Cons)
      then have "wp (delete_node n (root u)) (\<lambda>_. wp (delete_kids n (first_or us None))
          (\<lambda>_ s'. s' = without (all_addrs ts) s)) s"
      proof (rule wp_mono)
        fix r s' assume s': "s' = without (addrs u) s"
        have "holds_kids (d_heap s') a (Some (root u)) us None"
          by (rule holds_frame(2) [of us "d_heap s'" "d_heap s"]) (use 2 in \<open>auto simp: Cons s'\<close>)
        then have "wp (delete_kids n (first_or us None)) (\<lambda>_ s''. s'' = without (all_addrs us) s') s'"
          using 2 addrs_length [of u] by (intro Suc.IH(2)) (auto simp: Cons simp del: length_greater_0_conv)
        then show "wp (delete_kids n (first_or us None)) (\<lambda>_ s''. s'' = without (all_addrs ts) s) s'"
          by (rule wp_mono) (simp add: s' Cons)
      qed
      then show ?thesis using 2 holds_root by (fastforce simp: Cons wp_simps)
    qed
  }
qed (use addrs_length in auto)

section \<open>Linking\<close>

text \<open>
  The two branches that every function has: the last child in front of a place gets a new successor, or the parent a new
  first child; and the first child behind it a new predecessor, or the parent a new last child.
\<close>

lemma link_front:
  assumes "holds_kids (d_heap s) a None ts nx" "distinct (a # all_addrs ts)" "d_heap s a = Some m"
    and "\<And>s'. d_fresh s' = d_fresh s \<Longrightarrow> d_heap s' a = Some (if ts = [] then m\<lparr>n_first := v\<rparr> else m) \<Longrightarrow>
      holds_kids (d_heap s') a None ts v \<Longrightarrow> (\<forall>b. b \<noteq> a \<longrightarrow> b \<notin> set (all_addrs ts) \<longrightarrow> d_heap s' b = d_heap s b) \<Longrightarrow> Q () s'"
  shows "wp (case last_or None ts of Some l \<Rightarrow> set_node l (\<lambda>x. x\<lparr>n_next := v\<rparr>)
     | None \<Rightarrow> set_node a (\<lambda>t. t\<lparr>n_first := v\<rparr>)) Q s"
proof (cases ts rule: rev_cases)
  case Nil
  then show ?thesis using assms(3) by (auto simp: wp_simps intro!: assms(4))
next
  case (snoc vs l)
  have l: "d_heap s (root l) = Some (node_of (content l) (Some a) (last_or None vs) nx (kids l))"
    using assms(1) holds_root by (auto simp: snoc holds_kids_append)
  have "a \<noteq> root l" "root l \<in> set (all_addrs ts)" using assms(2) root_addrs [of l] by (auto simp: snoc)
  then have "Q () (s\<lparr>d_heap := (d_heap s)(root l \<mapsto> (node_of (content l) (Some a) (last_or None vs) nx (kids l))\<lparr>n_next := v\<rparr>)\<rparr>)"
    using assms(1-3) l holds_kids_next [of "d_heap s" a None vs l nx, OF _ _ l, of v]
    by (intro assms(4)) (auto simp: snoc)
  then show ?thesis using l by (simp add: snoc wp_simps)
qed

lemma link_back:
  assumes "holds_kids (d_heap s) a pr ts None" "distinct (a # all_addrs ts)" "d_heap s a = Some m"
    and "\<And>s'. d_fresh s' = d_fresh s \<Longrightarrow> d_heap s' a = Some (if ts = [] then m\<lparr>n_last := v\<rparr> else m) \<Longrightarrow>
      holds_kids (d_heap s') a v ts None \<Longrightarrow> (\<forall>b. b \<noteq> a \<longrightarrow> b \<notin> set (all_addrs ts) \<longrightarrow> d_heap s' b = d_heap s b) \<Longrightarrow> Q () s'"
  shows "wp (case first_or ts None of Some q \<Rightarrow> set_node q (\<lambda>y. y\<lparr>n_prev := v\<rparr>)
     | None \<Rightarrow> set_node a (\<lambda>t. t\<lparr>n_last := v\<rparr>)) Q s"
proof (cases ts)
  case Nil
  then show ?thesis using assms(3) by (auto simp: wp_simps intro!: assms(4))
next
  case (Cons u us)
  have u: "d_heap s (root u) = Some (node_of (content u) (Some a) pr (first_or us None) (kids u))"
    using assms(1) holds_root by (auto simp: Cons)
  have "a \<noteq> root u" "root u \<in> set (all_addrs ts)" using assms(2) root_addrs [of u] by (auto simp: Cons)
  then have "Q () (s\<lparr>d_heap := (d_heap s)(root u \<mapsto> (node_of (content u) (Some a) pr (first_or us None) (kids u))\<lparr>n_prev := v\<rparr>)\<rparr>)"
    using assms(1-3) u holds_kids_prev [of "d_heap s" a pr u us None, OF _ _ u, of v]
    by (intro assms(4)) (auto simp: Cons)
  then show ?thesis using u by (simp add: Cons wp_simps)
qed

definition is_doc :: "dtree \<Rightarrow> bool" where
  "is_doc t = (case fst (content t) of DDocument err bom \<Rightarrow> True | _ \<Rightarrow> False)"

lemma is_document_node [simp]: "is_document (node_of (content t) par pr nx ts) = is_doc t"
  by (simp add: is_document_def is_doc_def)

lemma GetDocument_single:
  "d_heap s a = Some n \<Longrightarrow> n_parent n = None \<Longrightarrow> \<not> is_document n \<Longrightarrow> wp (GetDocument a) Q s = Q None s"
  by (simp add: GetDocument_def wp_simps returns_def raises_def get_document.simps [of _ "Some a"] get_document.simps [of _ None])

lemma link_end:
  assumes "holds (d_heap s) par pr nx (DNode a x ts)" "holds (d_heap s) None q1 q2 u" "\<not> is_doc u"
    and "distinct (addrs (DNode a x ts) @ addrs u)"
  shows "wp (Node_LinkEndChild n a (root u)) (\<lambda>r s'. r = Some (root u) \<and> d_fresh s' = d_fresh s
     \<and> holds (d_heap s') par pr nx (DNode a x (ts @ [u]))
     \<and> (\<forall>b. b \<notin> set (addrs (DNode a x ts) @ addrs u) \<longrightarrow> d_heap s' b = d_heap s b)) s"
proof -
  let ?h = "d_heap s"
  have u: "?h (root u) = Some (node_of (content u) None q1 q2 (kids u))" using assms(2) by (rule holds_root)
  have a: "?h a = Some (node_of x par pr nx ts)" "holds_kids ?h a None ts None" using assms(1) by simp_all
  have ne: "a \<noteq> root u" "root u \<notin> set (all_addrs ts)" "a \<notin> set (addrs u)" "set (all_addrs ts) \<inter> set (addrs u) = {}"
    using assms(4) root_addrs [of u] by (auto simp: disjoint_iff)
  define s1 where "s1 = s\<lparr>d_heap := ?h(root u \<mapsto> node_of (content u) (Some a) (last_or None ts) None (kids u))\<rparr>"
  have u1: "holds (d_heap s1) (Some a) (last_or None ts) None u"
    using holds_relink [OF assms(2)] assms(4) by (simp add: s1_def)
  have k1: "holds_kids (d_heap s1) a None ts None"
    by (rule holds_frame(2) [of ts _ ?h]) (use a(2) ne(2) in \<open>auto simp: s1_def\<close>)
  have "wp (case last_or None ts of Some l \<Rightarrow> set_node l (\<lambda>x. x\<lparr>n_next := Some (root u)\<rparr>)
      | None \<Rightarrow> set_node a (\<lambda>t. t\<lparr>n_first := Some (root u)\<rparr>))
     (\<lambda>_. wp (sq (set_node a (\<lambda>t. t\<lparr>n_last := Some (root u)\<rparr>)) (ret (Some (root u))))
       (\<lambda>r s'. r = Some (root u) \<and> d_fresh s' = d_fresh s \<and> holds (d_heap s') par pr nx (DNode a x (ts @ [u]))
        \<and> (\<forall>b. b \<notin> set (addrs (DNode a x ts) @ addrs u) \<longrightarrow> d_heap s' b = ?h b))) s1"
  proof (rule link_front [OF k1])
    show "distinct (a # all_addrs ts)" using assms(4) by simp
    show "d_heap s1 a = Some (node_of x par pr nx ts)" using a(1) ne(1) by (simp add: s1_def)
    fix s2 :: dom assume s2: "d_fresh s2 = d_fresh s1"
      "d_heap s2 a = Some (if ts = [] then (node_of x par pr nx ts)\<lparr>n_first := Some (root u)\<rparr> else node_of x par pr nx ts)"
      "holds_kids (d_heap s2) a None ts (Some (root u))"
      "\<forall>b. b \<noteq> a \<longrightarrow> b \<notin> set (all_addrs ts) \<longrightarrow> d_heap s2 b = d_heap s1 b"
    define m where "m = node_of x par pr nx (ts @ [u])"
    define h3 where "h3 = (d_heap s2)(a \<mapsto> m)"
    have "holds_kids h3 a None ts (Some (root u))"
      by (rule holds_frame(2) [of ts _ "d_heap s2"]) (use s2(3) assms(4) in \<open>auto simp: h3_def\<close>)
    moreover have "holds h3 (Some a) (last_or None ts) None u"
      by (rule holds_frame(1) [of u _ "d_heap s1"]) (use u1 ne s2(4) in \<open>auto simp: h3_def disjoint_iff\<close>)
    ultimately have "holds h3 par pr nx (DNode a x (ts @ [u]))" by (simp add: holds_kids_append h3_def m_def)
    moreover have "the (d_heap s2 a)\<lparr>n_last := Some (root u)\<rparr> = m"
      using s2(2) by (cases ts) (simp_all add: m_def node_of_def)
    moreover have "\<forall>b. b \<notin> set (addrs (DNode a x ts) @ addrs u) \<longrightarrow> h3 b = ?h b"
      using s2(4) root_addrs [of u] by (auto simp: h3_def s1_def)
    ultimately show "wp (sq (set_node a (\<lambda>t. t\<lparr>n_last := Some (root u)\<rparr>)) (ret (Some (root u))))
       (\<lambda>r s'. r = Some (root u) \<and> d_fresh s' = d_fresh s \<and> holds (d_heap s') par pr nx (DNode a x (ts @ [u]))
        \<and> (\<forall>b. b \<notin> set (addrs (DNode a x ts) @ addrs u) \<longrightarrow> d_heap s' b = ?h b)) s2"
      using s2(1,2) by (simp add: wp_simps h3_def s1_def split: if_splits)
  qed
  then show ?thesis
    using u a(1) ne(1) assms(3) by (simp add: Node_LinkEndChild_def wp_simps GetDocument_single s1_def del: wp_case_option)
qed

section \<open>Attributes as a map\<close>

text \<open>Names that are C strings, not empty and not twice in the list, as the parser makes them.\<close>

definition attrs_ok :: "(string \<times> string) list \<Rightarrow> bool" where
  "attrs_ok as = (distinct (map fst as) \<and> list_all (\<lambda>(n, v). n \<noteq> [] \<and> CHR 0x00 \<notin> set n \<and> CHR 0x00 \<notin> set v) as)"

lemma c_str_same: "CHR 0x00 \<notin> set s \<Longrightarrow> c_str s = s"
  by (auto simp: c_str_def takeWhile_eq_all_conv)

lemma c_str_empty [simp]: "c_str [] = []"
  by (simp add: c_str_def)

lemma Find_absent: "\<forall>a \<in> set as. c_str (fst a) \<noteq> c_str nm \<Longrightarrow> Find as nm = None"
  by (auto simp: Find_def find_None_iff)

lemma set_value_last: "\<forall>a \<in> set as. c_str (fst a) \<noteq> c_str nm \<Longrightarrow> c_str n = c_str nm \<Longrightarrow>
    set_value (as @ [(n, w)]) nm v = as @ [(n, v)]"
  by (induction as) auto

lemma SetAttribute_new:
  assumes "attrs_ok (as @ (n, v) # bs)"
  shows "SetAttribute as n v = Inr (as @ [(n, v)])"
proof -
  have n: "c_str n = n" "c_str v = v" "n \<noteq> []" using assms c_str_same by (auto simp: attrs_ok_def)
  have "c_str (fst a) = fst a \<and> fst a \<noteq> [] \<and> fst a \<noteq> n" if "a \<in> set as" for a
  proof -
    obtain m w where a: "a = (m, w)" by (cases a)
    have "m \<noteq> [] \<and> CHR 0x00 \<notin> set m" using assms that by (auto simp: a attrs_ok_def list_all_iff)
    moreover have "n \<notin> fst ` set as" "m \<in> fst ` set as" using assms that by (auto simp: a attrs_ok_def rev_image_eqI)
    ultimately show ?thesis using c_str_same [of m] by (auto simp: a)
  qed
  then have "\<forall>a \<in> set as. c_str (fst a) \<noteq> c_str n" "\<forall>a \<in> set as. c_str (fst a) \<noteq> c_str []"
    by (simp_all add: n(1))
  then show ?thesis
    using n by (simp add: SetAttribute_def FindOrCreate_def Find_absent Add_def set_value_last)
qed

lemma copy_attributes_same: "attrs_ok (bs @ as) \<Longrightarrow> copy_attributes bs as = Inr (bs @ as)"
proof (induction as arbitrary: bs)
  case (Cons a as)
  obtain n v where a: "a = (n, v)" by (cases a)
  have "c_str n = n" "c_str v = v" using Cons.prems c_str_same by (auto simp: a attrs_ok_def)
  then show ?case
    using SetAttribute_new [of bs n v as] Cons.prems Cons.IH [of "bs @ [(n, v)]"] by (simp add: a)
qed simp

lemma attribute_walk_same: "attrs_ok as \<Longrightarrow> attribute_walk as = as"
  by (cases as) (auto simp: attribute_walk_def attrs_ok_def list_all_iff takeWhile_eq_all_conv)

text \<open>On such lists the functions on attributes are those of a map; names and values are C strings.\<close>

lemma attrs_ok_Cons: "attrs_ok ((n, w) # as) =
    (n \<noteq> [] \<and> CHR 0x00 \<notin> set n \<and> CHR 0x00 \<notin> set w \<and> n \<notin> fst ` set as \<and> attrs_ok as)"
  by (auto simp: attrs_ok_def)

lemma Attribute_Nil [simp]: "Attribute [] m = None"
  by (simp add: Attribute_def Find_def)

lemma Attribute_Cons: "Attribute ((n, w) # as) m = (if c_str n = c_str m then Some (c_str w) else Attribute as m)"
  by (simp add: Attribute_def Find_def)

lemma Attribute_map_of: "attrs_ok as \<Longrightarrow> CHR 0x00 \<notin> set m \<Longrightarrow> Attribute as m = map_of as m"
  by (induction as) (auto simp: attrs_ok_Cons Attribute_Cons c_str_same)

lemma set_value_map: "attrs_ok as \<Longrightarrow> CHR 0x00 \<notin> set n \<Longrightarrow> CHR 0x00 \<notin> set v \<Longrightarrow> n \<in> fst ` set as \<Longrightarrow>
    map_of (set_value as n v) = (map_of as)(n \<mapsto> v) \<and> map fst (set_value as n v) = map fst as \<and> attrs_ok (set_value as n v)"
proof (induction as)
  case (Cons a as)
  obtain m w where a: "a = (m, w)" by (cases a)
  have "fst ` set (set_value as n v) = fst ` set as" if "n \<in> fst ` set as"
    using Cons that by (auto simp: a attrs_ok_Cons simp flip: set_map)
  then show ?case using Cons by (fastforce simp: a attrs_ok_Cons c_str_same fun_eq_iff simp flip: set_map)
qed simp

lemma SetAttribute_map:
  assumes "attrs_ok as" "n \<noteq> []" "CHR 0x00 \<notin> set n" "CHR 0x00 \<notin> set v"
  shows "\<exists>bs. SetAttribute as n v = Inr bs \<and> attrs_ok bs \<and> map_of bs = (map_of as)(n \<mapsto> v)"
proof (cases "n \<in> fst ` set as")
  case True
  have "Find as (c_str n) \<noteq> None"
    using True Attribute_map_of [OF assms(1,3)] assms(3) map_of_eq_None_iff [of as n] by (auto simp: Attribute_def c_str_same)
  then show ?thesis
    using set_value_map [OF assms(1,3,4) True] assms(3,4) by (simp add: SetAttribute_def FindOrCreate_def c_str_same)
next
  case False
  have "attrs_ok (as @ [(n, v)])" using assms False by (auto simp: attrs_ok_def)
  moreover have "map_of (as @ [(n, v)]) = (map_of as)(n \<mapsto> v)"
    using False map_of_eq_None_iff [of as n] by (auto simp: fun_eq_iff map_add_def split: option.split)
  ultimately show ?thesis using SetAttribute_new [of as n v "[]"] by simp
qed

lemma RemoveAttribute_map:
  assumes "attrs_ok as" "CHR 0x00 \<notin> set n"
  shows "attrs_ok (RemoveAttribute as n) \<and> map_of (RemoveAttribute as n) = (map_of as)(n := None)"
proof -
  have "attrs_ok (remove_first as n) \<and> map_of (remove_first as n) = (map_of as)(n := None)
     \<and> set (remove_first as n) \<subseteq> set as"
    using assms
  proof (induction as)
    case (Cons a as)
    obtain m w where a: "a = (m, w)" by (cases a)
    show ?case using Cons by (auto simp: a attrs_ok_Cons c_str_same fun_upd_twist map_of_eq_None_iff fun_upd_idem)
  qed (simp add: attrs_ok_def)
  moreover have "(map_of as)(n := None) = map_of as" if "Find as n = None"
    using that Attribute_map_of [OF assms] by (auto simp: Attribute_def fun_upd_idem)
  ultimately show ?thesis using assms(1) by (simp add: RemoveAttribute_def)
qed

section \<open>Copying\<close>

fun erase :: "dtree \<Rightarrow> dtree" where
  "erase (DNode a x ts) = DNode 0 x (map erase ts)"

lemma erase_content: "erase t = erase u \<Longrightarrow> content t = content u"
  by (cases t; cases u) simp

text \<open>What a copy reproduces: no null characters, no document inside the tree, children of elements only.\<close>

fun copyable :: "dtree \<Rightarrow> bool" where
  "copyable (DNode a (d, v) ts) = (CHR 0x00 \<notin> set v
     \<and> (case d of DElement as \<Rightarrow> attrs_ok as | DDocument err bom \<Rightarrow> False | _ \<Rightarrow> ts = []) \<and> list_all copyable ts)"

lemma copyable_not_doc: "copyable t \<Longrightarrow> \<not> is_doc t"
  by (cases t) (auto simp: is_doc_def split: node_data.splits)

definition fresh :: "dom \<Rightarrow> bool" where
  "fresh s = (\<forall>b \<ge> d_fresh s. d_heap s b = None)"

lemma holds_allocated:
  "holds h par pr nx t \<Longrightarrow> b \<in> set (addrs t) \<Longrightarrow> h b \<noteq> None"
  "holds_kids h a pr ts nx \<Longrightarrow> b \<in> set (all_addrs ts) \<Longrightarrow> h b \<noteq> None"
  by (induction h par pr nx t and h a pr ts nx rule: holds_holds_kids.induct) auto

lemma holds_below: "holds (d_heap s) par pr nx t \<Longrightarrow> fresh s \<Longrightarrow> b \<in> set (addrs t) \<Longrightarrow> b < d_fresh s"
  using holds_allocated(1) [of "d_heap s" par pr nx t b] unfolding fresh_def by (metis not_less)

definition copied :: "dom \<Rightarrow> dtree \<Rightarrow> nat \<Rightarrow> dom \<Rightarrow> bool" where
  "copied s w c s' = (\<exists>t. c = root t \<and> holds (d_heap s') None None None t \<and> erase t = erase w \<and> distinct (addrs t)
     \<and> set (addrs t) \<subseteq> {d_fresh s..<d_fresh s'} \<and> (\<forall>b < d_fresh s. d_heap s' b = d_heap s b)
     \<and> d_fresh s \<le> d_fresh s' \<and> fresh s')"

definition copying :: "nat \<Rightarrow> dom \<Rightarrow> nat \<Rightarrow> node_data \<times> string \<Rightarrow> dtree list \<Rightarrow> bool" where
  "copying lo s c x ts = (holds (d_heap s) None None None (DNode c x ts) \<and> distinct (addrs (DNode c x ts))
     \<and> set (addrs (DNode c x ts)) \<subseteq> {lo..<d_fresh s} \<and> fresh s)"

lemma wp_funs: "wp (ret x) Q = Q x" "wp (bnd m f) R = wp m (\<lambda>x. wp (f x) R)" "wp (sq k l) R = wp k (\<lambda>_. wp l R)"
  by (simp_all add: fun_eq_iff wp_simps)

lemma clones:
  "holds (d_heap s) par pr nx w \<Longrightarrow> copyable w \<Longrightarrow> fresh s \<Longrightarrow> 2 * length (addrs w) \<le> n \<Longrightarrow>
     wp (Clone n (root w)) (copied s w) s"
  "holds_kids (d_heap s) a pr ws None \<Longrightarrow> list_all copyable ws \<Longrightarrow> copying lo s c x ts \<Longrightarrow>
     set (all_addrs ws) \<subseteq> {..<lo} \<Longrightarrow> 2 * length (all_addrs ws) < n \<Longrightarrow>
     wp (clone_kids n c (first_or ws None)) (\<lambda>_ s'. \<exists>us. copying lo s' c x (ts @ us) \<and> map erase us = map erase ws
       \<and> (\<forall>b < lo. d_heap s' b = d_heap s b) \<and> d_fresh s \<le> d_fresh s') s"
proof (induction n arbitrary: s w ws ts par pr nx a c lo x)
  case (Suc n)
  {
    case 1
    obtain b d v us where w: "w = DNode b (d, v) us" by (cases w) (metis prod.exhaust)
    have v: "c_str v = v" "list_all copyable us" using 1 c_str_same by (auto simp: w)
    let ?c = "d_fresh s"
    define s1 where "s1 = s\<lparr>d_heap := (d_heap s)(?c \<mapsto> node_of (d, v) None None None []), d_fresh := Suc ?c\<rparr>"
    have b: "d_heap s b = Some (node_of (d, v) par pr nx us)" using 1 by (simp add: w)
    have old: "\<forall>a \<in> set (addrs w). a < ?c" using 1 holds_below by blast
    have c1: "copying ?c s1 ?c (d, v) []" using 1 by (auto simp: copying_def s1_def fresh_def)
    have k1: "holds_kids (d_heap s1) b None us None"
      by (rule holds_frame(2) [of us _ "d_heap s"]) (use 1 old in \<open>auto simp: w s1_def\<close>)
    have finish: "copied s w ?c s2" if "copying ?c s2 ?c (d, v) ts" "map erase ts = map erase us"
        "\<forall>b < ?c. d_heap s2 b = d_heap s1 b" "d_fresh s1 \<le> d_fresh s2" for s2 ts
      unfolding copied_def by (rule exI [of _ "DNode ?c (d, v) ts"])
        (use that in \<open>auto simp: w copying_def s1_def simp del: holds.simps\<close>)
    show ?case
    proof (cases d)
      case (DElement as)
      have "copy_attributes [] (attribute_walk as) = Inr as"
        using 1 copy_attributes_same [of "[]" as] attribute_walk_same by (simp add: w DElement)
      moreover have "wp (clone_kids n ?c (first_or us None)) (\<lambda>_. copied s w ?c) s1"
      proof (rule wp_mono [OF Suc.IH(2) [OF k1 v(2) c1]])
        show "set (all_addrs us) \<subseteq> {..<?c}" using old by (auto simp: w)
        show "2 * length (all_addrs us) < n" using 1 by (simp add: w)
      qed (use finish in auto)
      ultimately show ?thesis
        using b by (simp add: w DElement wp_simps raises_def wp_funs v(1) s1_def)
    qed (use 1 finish [OF c1] b v in \<open>simp_all add: w wp_simps s1_def\<close>)
  next
    case 2
    show ?case
    proof (cases ws)
      case Nil
      then show ?thesis using 2 by (auto simp: wp_simps intro!: exI [of _ "[]"])
    next
      case (Cons w ws')
      have w: "holds (d_heap s) (Some a) pr (first_or ws' None) w" "holds_kids (d_heap s) a (Some (root w)) ws' None"
        and cw: "copyable w" "list_all copyable ws'" and lo: "\<forall>b \<in> set (addrs w) \<union> set (all_addrs ws'). b < lo"
        and c: "holds (d_heap s) None None None (DNode c x ts)" "distinct (addrs (DNode c x ts))" "fresh s"
          "set (addrs (DNode c x ts)) \<subseteq> {lo..<d_fresh s}"
        using 2 by (auto simp: Cons copying_def)
      have "wp (Clone n (root w)) (copied s w) s"
        using w(1) cw(1) c(3) by (rule Suc.IH(1)) (use 2 addrs_length [of w] in \<open>auto simp: Cons\<close>)
      then have "wp (Clone n (root w)) (\<lambda>k' s1. wp (Node_LinkEndChild n c k') (\<lambda>_ s2. wp (fetch (root w)) (\<lambda>y.
          wp (clone_kids n c (n_next y)) (\<lambda>_ s'. \<exists>us. copying lo s' c x (ts @ us) \<and> map erase us = map erase ws
           \<and> (\<forall>b < lo. d_heap s' b = d_heap s b) \<and> d_fresh s \<le> d_fresh s')) s2) s1) s"
      proof (rule wp_mono)
        fix k' and s1 :: dom assume "copied s w k' s1"
        then obtain t where t: "k' = root t" "holds (d_heap s1) None None None t" "erase t = erase w" "distinct (addrs t)"
            "set (addrs t) \<subseteq> {d_fresh s..<d_fresh s1}" "\<forall>b < d_fresh s. d_heap s1 b = d_heap s b"
            "d_fresh s \<le> d_fresh s1" "fresh s1"
          by (auto simp: copied_def)
        have c1: "holds (d_heap s1) None None None (DNode c x ts)"
          by (rule holds_frame(1) [of "DNode c x ts" _ "d_heap s"]) (use c t in \<open>auto simp: subset_iff simp del: holds.simps\<close>)
        have doc: "\<not> is_doc t" using copyable_not_doc [OF cw(1)] erase_content [OF t(3)] by (simp add: is_doc_def)
        have dist: "distinct (addrs (DNode c x ts) @ addrs t)"
          using c(2,4) t(4,5) by (fastforce simp: subset_iff)
        show "wp (Node_LinkEndChild n c k') (\<lambda>_ s2. wp (fetch (root w)) (\<lambda>y.
          wp (clone_kids n c (n_next y)) (\<lambda>_ s'. \<exists>us. copying lo s' c x (ts @ us) \<and> map erase us = map erase ws
           \<and> (\<forall>b < lo. d_heap s' b = d_heap s b) \<and> d_fresh s \<le> d_fresh s')) s2) s1"
          unfolding t(1)
        proof (rule wp_mono [OF link_end [OF c1 t(2) doc dist]])
          fix r and s2 :: dom assume "r = Some (root t) \<and> d_fresh s2 = d_fresh s1 \<and> holds (d_heap s2) None None None (DNode c x (ts @ [t]))
            \<and> (\<forall>b. b \<notin> set (addrs (DNode c x ts) @ addrs t) \<longrightarrow> d_heap s2 b = d_heap s1 b)"
          then have s2: "d_fresh s2 = d_fresh s1" "holds (d_heap s2) None None None (DNode c x (ts @ [t]))"
              "\<forall>b. b \<notin> set (addrs (DNode c x ts) @ addrs t) \<longrightarrow> d_heap s2 b = d_heap s1 b" by auto
          have "lo \<le> d_fresh s" using c(4) by simp
          have low: "\<forall>b < lo. d_heap s2 b = d_heap s b"
          proof (intro allI impI)
            fix b assume "b < lo"
            then have "b \<notin> set (addrs (DNode c x ts) @ addrs t)" "b < d_fresh s"
              using c(4) t(5) \<open>lo \<le> d_fresh s\<close> by (auto simp del: addrs_DNode)
            then show "d_heap s2 b = d_heap s b" using s2(3) t(6) by simp
          qed
          have "fresh s2"
            unfolding fresh_def
          proof (intro allI impI)
            fix b assume "d_fresh s2 \<le> b"
            then have "b \<notin> set (addrs (DNode c x ts) @ addrs t)" "d_fresh s1 \<le> b"
              using c(4) t(5,7) s2(1) by (auto simp del: addrs_DNode)
            then show "d_heap s2 b = None" using s2(3) t(8) by (simp add: fresh_def)
          qed
          then have next_copy: "copying lo s2 c x (ts @ [t])"
            unfolding copying_def using s2(1,2) dist c(4) t(5,7) \<open>lo \<le> d_fresh s\<close>
            by (auto simp: subset_iff simp del: holds.simps)
          have w2: "d_heap s2 (root w) = Some (node_of (content w) (Some a) pr (first_or ws' None) (kids w))"
            using low lo holds_root [OF w(1)] by simp
          have k2: "holds_kids (d_heap s2) a (Some (root w)) ws' None"
            by (rule holds_frame(2) [of ws' _ "d_heap s"]) (use w(2) low lo in auto)
          have "wp (clone_kids n c (first_or ws' None)) (\<lambda>_ s'. \<exists>us. copying lo s' c x ((ts @ [t]) @ us)
              \<and> map erase us = map erase ws' \<and> (\<forall>b < lo. d_heap s' b = d_heap s2 b) \<and> d_fresh s2 \<le> d_fresh s') s2"
            using k2 cw(2) next_copy by (rule Suc.IH(2))
              (use 2 lo addrs_length [of w] in \<open>auto simp: Cons simp del: length_greater_0_conv\<close>)
          then have "wp (clone_kids n c (first_or ws' None)) (\<lambda>_ s'. \<exists>us. copying lo s' c x (ts @ us)
              \<and> map erase us = map erase ws \<and> (\<forall>b < lo. d_heap s' b = d_heap s b) \<and> d_fresh s \<le> d_fresh s') s2"
            by (rule wp_mono) (use low s2(1) t(3,7) in \<open>force simp: Cons\<close>)
          then show "wp (fetch (root w)) (\<lambda>y. wp (clone_kids n c (n_next y)) (\<lambda>_ s'. \<exists>us. copying lo s' c x (ts @ us)
           \<and> map erase us = map erase ws \<and> (\<forall>b < lo. d_heap s' b = d_heap s b) \<and> d_fresh s \<le> d_fresh s')) s2"
            using w2 by (simp add: wp_simps)
        qed
      qed
      then show ?thesis by (simp add: Cons wp_funs)
    qed
  }
qed (use addrs_length in auto)

section \<open>Editing\<close>

lemma relinks:
  assumes "holds_kids (d_heap s) a None ts nx1" "holds_kids (d_heap s) a pr1 us None"
    and "d_heap s a = Some (node_of x par pr nx (ts @ t # us))" "distinct (a # all_addrs (ts @ us))"
    and "first_or (ts @ mid @ us) None = first_or ts behind" "last_or None (ts @ mid @ us) = last_or before us"
    and "\<And>s'. d_fresh s' = d_fresh s \<Longrightarrow> d_heap s' a = Some (node_of x par pr nx (ts @ mid @ us)) \<Longrightarrow>
      holds_kids (d_heap s') a None ts behind \<Longrightarrow> holds_kids (d_heap s') a before us None \<Longrightarrow>
      (\<forall>b. b \<noteq> a \<longrightarrow> b \<notin> set (all_addrs (ts @ us)) \<longrightarrow> d_heap s' b = d_heap s b) \<Longrightarrow> Q () s'"
  shows "wp (relink a (node_of y par1 (last_or None ts) (first_or us None) ks) before behind) Q s"
proof -
  let ?m = "node_of x par pr nx (ts @ t # us)"
  have "wp (case first_or us None of Some q \<Rightarrow> set_node q (\<lambda>y. y\<lparr>n_prev := before\<rparr>)
       | None \<Rightarrow> set_node a (\<lambda>t. t\<lparr>n_last := before\<rparr>))
     (\<lambda>_. wp (case last_or None ts of Some p \<Rightarrow> set_node p (\<lambda>y. y\<lparr>n_next := behind\<rparr>)
       | None \<Rightarrow> set_node a (\<lambda>t. t\<lparr>n_first := behind\<rparr>)) Q) s"
  proof (rule link_back [OF assms(2) _ assms(3)])
    show "distinct (a # all_addrs us)" using assms(4) by simp
    fix s1 :: dom
    let ?m1 = "if us = [] then ?m\<lparr>n_last := before\<rparr> else ?m"
    assume s1: "d_fresh s1 = d_fresh s" "d_heap s1 a = Some ?m1" "holds_kids (d_heap s1) a before us None"
      "\<forall>b. b \<noteq> a \<longrightarrow> b \<notin> set (all_addrs us) \<longrightarrow> d_heap s1 b = d_heap s b"
    have ts: "holds_kids (d_heap s1) a None ts nx1"
      by (rule holds_frame(2) [of ts _ "d_heap s"]) (use assms(1,4) s1(4) in \<open>auto simp: disjoint_iff\<close>)
    show "wp (case last_or None ts of Some p \<Rightarrow> set_node p (\<lambda>y. y\<lparr>n_next := behind\<rparr>)
       | None \<Rightarrow> set_node a (\<lambda>t. t\<lparr>n_first := behind\<rparr>)) Q s1"
    proof (rule link_front [OF ts _ s1(2)])
      show "distinct (a # all_addrs ts)" using assms(4) by simp
      fix s2 :: dom
      assume s2: "d_fresh s2 = d_fresh s1" "d_heap s2 a = Some (if ts = [] then ?m1\<lparr>n_first := behind\<rparr> else ?m1)"
        "holds_kids (d_heap s2) a None ts behind"
        "\<forall>b. b \<noteq> a \<longrightarrow> b \<notin> set (all_addrs ts) \<longrightarrow> d_heap s2 b = d_heap s1 b"
      show "Q () s2"
      proof (rule assms(7))
        show "holds_kids (d_heap s2) a before us None"
          by (rule holds_frame(2) [of us _ "d_heap s1"]) (use s1(3) assms(4) s2(4) in \<open>auto simp: disjoint_iff\<close>)
        show "d_heap s2 a = Some (node_of x par pr nx (ts @ mid @ us))"
          using s2(2) assms(5,6) by (cases ts; cases us rule: rev_cases) (auto simp: node_of_def)
      qed (use s1 s2 in auto)
    qed
  qed
  then show ?thesis by (simp add: relink_def wp_funs)
qed

text \<open>
  What an edit of the children of a node leaves: a tree with the children that \<open>P\<close> describes, no node of the old children
  that is not in the new ones, and everything else as it was.
\<close>

definition edited :: "dom \<Rightarrow> nat option \<Rightarrow> nat option \<Rightarrow> nat option \<Rightarrow> nat \<Rightarrow> node_data \<times> string \<Rightarrow> dtree list
    \<Rightarrow> (dtree list \<Rightarrow> bool) \<Rightarrow> dom \<Rightarrow> bool" where
  "edited s par pr nx a x old P s' = (\<exists>ks. P ks \<and> holds (d_heap s') par pr nx (DNode a x ks)
     \<and> distinct (addrs (DNode a x ks)) \<and> fresh s' \<and> d_fresh s \<le> d_fresh s'
     \<and> (\<forall>b < d_fresh s. b \<notin> set (addrs (DNode a x old)) \<longrightarrow> d_heap s' b = d_heap s b)
     \<and> (\<forall>b \<in> set (all_addrs old) - set (all_addrs ks). d_heap s' b = None))"

lemma fresh_later: "fresh s \<Longrightarrow> d_fresh s \<le> d_fresh s' \<Longrightarrow>
    (\<And>b. d_fresh s' \<le> b \<Longrightarrow> d_heap s' b = d_heap s b \<or> d_heap s' b = None) \<Longrightarrow> fresh s'"
  unfolding fresh_def by (metis order_trans)

lemma removes:
  assumes "holds (d_heap s) par pr nx (DNode a x (ts @ t # us))" "distinct (addrs (DNode a x (ts @ t # us)))" "fresh s"
    and "2 * length (addrs t) \<le> n"
  shows "wp (RemoveChild n a (Some (root t))) (\<lambda>r s'. r = True
     \<and> edited s par pr nx a x (ts @ t # us) (\<lambda>ks. ks = ts @ us) s') s"
proof -
  have h: "d_heap s a = Some (node_of x par pr nx (ts @ t # us))" "holds_kids (d_heap s) a None ts (Some (root t))"
    "holds (d_heap s) (Some a) (last_or None ts) (first_or us None) t" "holds_kids (d_heap s) a (Some (root t)) us None"
    using assms(1) by (auto simp: holds_kids_append)
  have d: "distinct (a # all_addrs (ts @ us))" "distinct (addrs t)" "a \<notin> set (addrs t)"
    "set (addrs t) \<inter> set (all_addrs (ts @ us)) = {}"
    using assms(2) by auto
  let ?y = "node_of (content t) (Some a) (last_or None ts) (first_or us None) (kids t)"
  have "wp (relink a ?y (last_or None ts) (first_or us None))
     (\<lambda>_. wp (delete_node n (root t)) (\<lambda>_ s'. edited s par pr nx a x (ts @ t # us) (\<lambda>ks. ks = ts @ us) s')) s"
  proof (rule relinks [where mid = "[]", OF h(2,4,1) d(1)])
    fix s1 :: dom
    assume s1: "d_fresh s1 = d_fresh s" "d_heap s1 a = Some (node_of x par pr nx (ts @ [] @ us))"
      "holds_kids (d_heap s1) a None ts (first_or us None)" "holds_kids (d_heap s1) a (last_or None ts) us None"
      "\<forall>b. b \<noteq> a \<longrightarrow> b \<notin> set (all_addrs (ts @ us)) \<longrightarrow> d_heap s1 b = d_heap s b"
    have t1: "holds (d_heap s1) (Some a) (last_or None ts) (first_or us None) t"
      by (rule holds_frame(1) [of t _ "d_heap s"]) (use h(3) d s1(5) in \<open>auto simp: disjoint_iff\<close>)
    show "wp (delete_node n (root t)) (\<lambda>_ s'. edited s par pr nx a x (ts @ t # us) (\<lambda>ks. ks = ts @ us) s') s1"
    proof (rule wp_mono [OF deletes(1) [OF t1 d(2) assms(4)]])
      fix r s2 assume s2: "s2 = without (addrs t) s1"
      have "holds (d_heap s2) par pr nx (DNode a x (ts @ us))"
        by (rule holds_frame(1) [of "DNode a x (ts @ us)" _ "d_heap s1"])
          (use s1 d in \<open>auto simp: s2 holds_kids_append disjoint_iff\<close>)
      moreover have "fresh s2"
      proof (rule fresh_later [OF assms(3)])
        show "d_fresh s \<le> d_fresh s2" by (simp add: s1(1) s2)
        fix b assume "d_fresh s2 \<le> b"
        then have "b \<notin> set (addrs (DNode a x (ts @ t # us)))"
          using holds_below [OF assms(1,3), of b] s1(1) by (auto simp: s2 simp del: addrs_DNode)
        then show "d_heap s2 b = d_heap s b \<or> d_heap s2 b = None" using s1(5) by (simp add: s2)
      qed
      ultimately show "edited s par pr nx a x (ts @ t # us) (\<lambda>ks. ks = ts @ us) s2"
        unfolding edited_def using s1(1,5) d(1) by (auto simp: s2 simp del: holds.simps)
    qed
  qed simp_all
  then show ?thesis
    using holds_root [OF h(3)] by (simp add: RemoveChild_def wp_funs wp_simps)
qed

text \<open>
  The functions that add a node make a copy of it next to the tree, and then link the copy: \<open>linked\<close> is what the second
  step has to do.
\<close>

definition linked :: "dom \<Rightarrow> nat option \<Rightarrow> nat option \<Rightarrow> nat option \<Rightarrow> nat \<Rightarrow> node_data \<times> string \<Rightarrow> dtree list
    \<Rightarrow> dtree \<Rightarrow> dtree list \<Rightarrow> nat option \<Rightarrow> dom \<Rightarrow> bool" where
  "linked s par pr nx a x ks c ks' r s' = (r = Some (root c) \<and> d_fresh s' = d_fresh s
     \<and> holds (d_heap s') par pr nx (DNode a x ks') \<and> (\<forall>b \<in> set (all_addrs ks) - set (all_addrs ks'). d_heap s' b = None)
     \<and> (\<forall>b. b \<notin> set (addrs (DNode a x ks) @ addrs c) \<longrightarrow> d_heap s' b = d_heap s b))"

lemma copied_and_linked:
  assumes "holds (d_heap s) par pr nx (DNode a x ks)" "distinct (addrs (DNode a x ks))" "fresh s"
    and "holds (d_heap s) p q r w" "copyable w" "2 * length (addrs w) \<le> n"
    and "\<And>s1 c. holds (d_heap s1) par pr nx (DNode a x ks) \<Longrightarrow> holds (d_heap s1) None None None c \<Longrightarrow> \<not> is_doc c \<Longrightarrow>
      distinct (addrs (DNode a x ks) @ addrs c) \<Longrightarrow> wp (g (root c)) (linked s1 par pr nx a x ks c (new c)) s1"
    and "\<And>c. set (all_addrs (new c)) \<subseteq> set (all_addrs ks) \<union> set (addrs c)"
    and "\<And>c. distinct (addrs (DNode a x ks) @ addrs c) \<Longrightarrow> distinct (all_addrs (new c))"
  shows "wp (bnd (Clone n (root w)) g) (\<lambda>res. edited s par pr nx a x ks
     (\<lambda>ks'. \<exists>c. res = Some (root c) \<and> erase c = erase w \<and> ks' = new c)) s"
proof -
  have "wp (Clone n (root w)) (copied s w) s" by (rule clones(1) [OF assms(4,5,3,6)])
  then have "wp (Clone n (root w)) (\<lambda>k. wp (g k) (\<lambda>res. edited s par pr nx a x ks
     (\<lambda>ks'. \<exists>c. res = Some (root c) \<and> erase c = erase w \<and> ks' = new c))) s"
  proof (rule wp_mono)
    fix k s1 assume "copied s w k s1"
    then obtain c where c: "k = root c" "holds (d_heap s1) None None None c" "erase c = erase w" "distinct (addrs c)"
        "set (addrs c) \<subseteq> {d_fresh s..<d_fresh s1}" "\<forall>b < d_fresh s. d_heap s1 b = d_heap s b"
        "d_fresh s \<le> d_fresh s1" "fresh s1"
      by (auto simp: copied_def)
    have below: "\<forall>b \<in> set (addrs (DNode a x ks)). b < d_fresh s" using holds_below [OF assms(1,3)] by blast
    have tree: "holds (d_heap s1) par pr nx (DNode a x ks)"
      by (rule holds_frame(1) [of "DNode a x ks" _ "d_heap s"]) (use assms(1) below c(6) in auto)
    have doc: "\<not> is_doc c" using copyable_not_doc [OF assms(5)] erase_content [OF c(3)] by (simp add: is_doc_def)
    have dist: "distinct (addrs (DNode a x ks) @ addrs c)" using assms(2) c(4,5) below by (fastforce simp del: addrs_DNode)
    show "wp (g k) (\<lambda>res. edited s par pr nx a x ks
       (\<lambda>ks'. \<exists>c. res = Some (root c) \<and> erase c = erase w \<and> ks' = new c)) s1"
      unfolding c(1)
    proof (rule wp_mono [OF assms(7) [OF tree c(2) doc dist]])
      fix res s2 assume s2: "linked s1 par pr nx a x ks c (new c) res s2"
      have "fresh s2"
      proof (rule fresh_later [OF c(8)])
        fix b assume "d_fresh s2 \<le> b"
        then have "b \<notin> set (addrs (DNode a x ks) @ addrs c)"
          using s2 below c(5,7) by (force simp: linked_def simp del: addrs_DNode)
        then show "d_heap s2 b = d_heap s1 b \<or> d_heap s2 b = None" using s2 by (simp add: linked_def)
      qed (use s2 in \<open>simp add: linked_def\<close>)
      moreover have "d_heap s2 b = d_heap s b" if "b < d_fresh s" "b \<notin> set (addrs (DNode a x ks))" for b
        using that s2 c(5,6) by (fastforce simp: linked_def simp del: addrs_DNode)
      moreover have "a \<notin> set (all_addrs (new c))" using assms(8) [of c] dist by auto
      ultimately show "edited s par pr nx a x ks (\<lambda>ks'. \<exists>c. res = Some (root c) \<and> erase c = erase w \<and> ks' = new c) s2"
        unfolding edited_def using s2 c(3,7) assms(9) [OF dist]
        by (intro exI [of _ "new c"]) (auto simp: linked_def simp del: holds.simps)
    qed
  qed
  then show ?thesis by (simp add: wp_funs)
qed

lemma inserts_end:
  assumes "holds (d_heap s) par pr nx (DNode a x ks)" "distinct (addrs (DNode a x ks))" "fresh s"
    and "holds (d_heap s) p q r w" "copyable w" "2 * length (addrs w) \<le> n"
  shows "wp (InsertEndChild n a (root w)) (\<lambda>res. edited s par pr nx a x ks
     (\<lambda>ks'. \<exists>c. res = Some (root c) \<and> erase c = erase w \<and> ks' = ks @ [c])) s"
proof -
  have "wp (bnd (Clone n (root w)) (Node_LinkEndChild n a)) (\<lambda>res. edited s par pr nx a x ks
     (\<lambda>ks'. \<exists>c. res = Some (root c) \<and> erase c = erase w \<and> ks' = ks @ [c])) s"
    by (rule copied_and_linked [OF assms])
      (rule wp_mono [OF link_end], auto simp: linked_def simp del: holds.simps)
  then show ?thesis
    using holds_root [OF assms(4)] copyable_not_doc [OF assms(5)] by (simp add: InsertEndChild_def wp_funs wp_simps)
qed

text \<open>The children on both sides of a child, and the child, on the heap, and a copy beside them.\<close>

lemma roots_apart: "set (addrs t) \<inter> set (addrs c) = {} \<Longrightarrow> root c \<noteq> root t"
  by (metis IntI empty_iff root_addrs)

lemma holds_split:
  assumes "holds h par pr nx (DNode a x (ts @ t # us))"
  shows "h a = Some (node_of x par pr nx (ts @ t # us))" "holds_kids h a None ts (Some (root t))"
    "holds h (Some a) (last_or None ts) (first_or us None) t" "holds_kids h a (Some (root t)) us None"
    "h (root t) = Some (node_of (content t) (Some a) (last_or None ts) (first_or us None) (kids t))"
  using assms holds_root by (auto simp: holds_kids_append)

lemma apart_split:
  assumes "distinct (addrs (DNode a x (ts @ t # us)) @ addrs c)"
  shows "distinct (addrs t)" "distinct (addrs c)" "distinct (a # all_addrs (ts @ us))"
    "a \<notin> set (addrs t) \<union> set (addrs c)" "set (all_addrs ts) \<inter> set (all_addrs us) = {}"
    "set (addrs t) \<inter> set (addrs c) = {}" "root c \<noteq> root t" "root c \<noteq> a" "root t \<noteq> a"
    "(set (addrs t) \<union> set (addrs c)) \<inter> set (all_addrs (ts @ us)) = {}"
    "root t \<notin> set (all_addrs (ts @ us)) \<union> set (addrs c)" "root c \<notin> set (all_addrs (ts @ us)) \<union> set (addrs t)"
proof -
  show *: "(set (addrs t) \<union> set (addrs c)) \<inter> set (all_addrs (ts @ us)) = {}" "set (addrs t) \<inter> set (addrs c) = {}"
    "a \<notin> set (addrs t) \<union> set (addrs c)"
    using assms by auto
  then show "root c \<noteq> root t" using roots_apart by simp
  show "root t \<notin> set (all_addrs (ts @ us)) \<union> set (addrs c)" "root c \<notin> set (all_addrs (ts @ us)) \<union> set (addrs t)"
    "root c \<noteq> a" "root t \<noteq> a"
    using * root_addrs [of t] root_addrs [of c] by (blast, blast, blast, blast)
qed (use assms in auto)

lemma links_before:
  assumes "holds (d_heap s) par pr nx (DNode a x (ts @ t # us))" "holds (d_heap s) None None None c"
    and "distinct (addrs (DNode a x (ts @ t # us)) @ addrs c)"
  shows "wp (link_before a (root t) (root c)) (linked s par pr nx a x (ts @ t # us) c (ts @ c # t # us)) s"
    (is "wp _ ?Q s")
proof -
  note h = holds_split [OF assms(1)] and d = apart_split [OF assms(3)]
  let ?m = "node_of x par pr nx (ts @ t # us)"
  define s1 where "s1 = s\<lparr>d_heap := (d_heap s)(root c \<mapsto> node_of (content c) (Some a) (last_or None ts) (Some (root t)) (kids c))\<rparr>"
  have c1: "holds (d_heap s1) (Some a) (last_or None ts) (Some (root t)) c"
    using holds_relink [OF assms(2) d(2)] by (simp add: s1_def)
  have ts1: "holds_kids (d_heap s1) a None ts (Some (root t))"
    by (rule holds_frame(2) [of ts _ "d_heap s"]) (use h(2) d in \<open>auto simp: s1_def\<close>)
  have a1: "d_heap s1 a = Some ?m" using h(1) d(8) by (simp add: s1_def)
  have "wp (case last_or None ts of Some l \<Rightarrow> set_node l (\<lambda>x. x\<lparr>n_next := Some (root c)\<rparr>)
     | None \<Rightarrow> set_node a (\<lambda>t. t\<lparr>n_first := Some (root c)\<rparr>))
    (\<lambda>_. wp (set_node (root t) (\<lambda>x. x\<lparr>n_prev := Some (root c)\<rparr>)) (\<lambda>_. ?Q (Some (root c)))) s1"
  proof (rule link_front [OF ts1 _ a1])
    show "distinct (a # all_addrs ts)" using d(3) by simp
    fix s2 :: dom
    assume s2: "d_fresh s2 = d_fresh s1" "d_heap s2 a = Some (if ts = [] then ?m\<lparr>n_first := Some (root c)\<rparr> else ?m)"
      "holds_kids (d_heap s2) a None ts (Some (root c))"
      "\<forall>b. b \<noteq> a \<longrightarrow> b \<notin> set (all_addrs ts) \<longrightarrow> d_heap s2 b = d_heap s1 b"
    have t2: "d_heap s2 (root t) = Some (node_of (content t) (Some a) (last_or None ts) (first_or us None) (kids t))"
      using s2(4) h(5) d(7,9,11) by (simp add: s1_def)
    define h3 where "h3 = (d_heap s2)(root t \<mapsto> node_of (content t) (Some a) (Some (root c)) (first_or us None) (kids t))"
    have "holds (d_heap s2) (Some a) (last_or None ts) (first_or us None) t"
      by (rule holds_frame(1) [of t _ "d_heap s"]) (use h(3) s2(4) d in \<open>auto simp: s1_def disjoint_iff\<close>)
    then have "holds h3 (Some a) (Some (root c)) (first_or us None) t" using holds_relink d(1) by (simp add: h3_def)
    moreover have "holds_kids h3 a None ts (Some (root c))"
      by (rule holds_frame(2) [of ts _ "d_heap s2"]) (use s2(3) d in \<open>auto simp: h3_def\<close>)
    moreover have "holds_kids h3 a (Some (root t)) us None"
      by (rule holds_frame(2) [of us _ "d_heap s"]) (use h(4) s2(4) d(3,5,9,11,12) in \<open>auto simp: h3_def s1_def disjoint_iff\<close>)
    moreover have "holds h3 (Some a) (last_or None ts) (Some (root t)) c"
      by (rule holds_frame(1) [of c _ "d_heap s1"]) (use c1 s2(4) d in \<open>auto simp: h3_def disjoint_iff\<close>)
    moreover have "h3 a = Some (node_of x par pr nx (ts @ c # t # us))"
      using s2(2) d(9) by (cases ts) (auto simp: h3_def node_of_def)
    ultimately have "holds h3 par pr nx (DNode a x (ts @ c # t # us))" by (simp add: holds_kids_append)
    then show "wp (set_node (root t) (\<lambda>x. x\<lparr>n_prev := Some (root c)\<rparr>)) (\<lambda>_. ?Q (Some (root c))) s2"
      using t2 s2(1,4) root_addrs [of c] root_addrs [of t]
      by (auto simp: wp_simps linked_def h3_def s1_def simp del: holds.simps)
  qed
  moreover have "wp (case last_or None ts of Some p \<Rightarrow> set_node p (\<lambda>y. y\<lparr>n_next := Some (root c)\<rparr>)
           | None \<Rightarrow> bnd (fetch a) (\<lambda>t'. sq (check (n_first t' = Some (root t)) Aborted)
               (set_node a (\<lambda>t. t\<lparr>n_first := Some (root c)\<rparr>)))) R s1 =
      wp (case last_or None ts of Some l \<Rightarrow> set_node l (\<lambda>x. x\<lparr>n_next := Some (root c)\<rparr>)
     | None \<Rightarrow> set_node a (\<lambda>t. t\<lparr>n_first := Some (root c)\<rparr>)) R s1" for R
    using a1 by (cases ts rule: rev_cases) (simp_all add: wp_simps)
  ultimately show ?thesis
    using h(5) holds_root [OF assms(2)] d(7) by (simp add: link_before_def wp_funs wp_simps s1_def del: wp_case_option)
qed

lemma links_after:
  assumes "holds (d_heap s) par pr nx (DNode a x (ts @ t # us))" "holds (d_heap s) None None None c"
    and "distinct (addrs (DNode a x (ts @ t # us)) @ addrs c)"
  shows "wp (link_after a (root t) (root c)) (linked s par pr nx a x (ts @ t # us) c (ts @ t # c # us)) s"
    (is "wp _ ?Q s")
proof -
  note h = holds_split [OF assms(1)] and d = apart_split [OF assms(3)]
  let ?m = "node_of x par pr nx (ts @ t # us)"
  define s1 where "s1 = s\<lparr>d_heap := (d_heap s)(root c \<mapsto> node_of (content c) (Some a) (Some (root t)) (first_or us None) (kids c))\<rparr>"
  have c1: "holds (d_heap s1) (Some a) (Some (root t)) (first_or us None) c"
    using holds_relink [OF assms(2) d(2)] by (simp add: s1_def)
  have us1: "holds_kids (d_heap s1) a (Some (root t)) us None"
    by (rule holds_frame(2) [of us _ "d_heap s"]) (use h(4) d in \<open>auto simp: s1_def\<close>)
  have a1: "d_heap s1 a = Some ?m" using h(1) d(8) by (simp add: s1_def)
  have "wp (case first_or us None of Some l \<Rightarrow> set_node l (\<lambda>x. x\<lparr>n_prev := Some (root c)\<rparr>)
     | None \<Rightarrow> set_node a (\<lambda>t. t\<lparr>n_last := Some (root c)\<rparr>))
    (\<lambda>_. wp (set_node (root t) (\<lambda>x. x\<lparr>n_next := Some (root c)\<rparr>)) (\<lambda>_. ?Q (Some (root c)))) s1"
  proof (rule link_back [OF us1 _ a1])
    show "distinct (a # all_addrs us)" using d(3) by simp
    fix s2 :: dom
    assume s2: "d_fresh s2 = d_fresh s1" "d_heap s2 a = Some (if us = [] then ?m\<lparr>n_last := Some (root c)\<rparr> else ?m)"
      "holds_kids (d_heap s2) a (Some (root c)) us None"
      "\<forall>b. b \<noteq> a \<longrightarrow> b \<notin> set (all_addrs us) \<longrightarrow> d_heap s2 b = d_heap s1 b"
    have t2: "d_heap s2 (root t) = Some (node_of (content t) (Some a) (last_or None ts) (first_or us None) (kids t))"
      using s2(4) h(5) d(7,9,11) by (simp add: s1_def)
    define h3 where "h3 = (d_heap s2)(root t \<mapsto> node_of (content t) (Some a) (last_or None ts) (Some (root c)) (kids t))"
    have "holds (d_heap s2) (Some a) (last_or None ts) (first_or us None) t"
      by (rule holds_frame(1) [of t _ "d_heap s"]) (use h(3) s2(4) d in \<open>auto simp: s1_def disjoint_iff\<close>)
    then have "holds h3 (Some a) (last_or None ts) (Some (root c)) t" using holds_relink d(1) by (simp add: h3_def)
    moreover have "holds_kids h3 a (Some (root c)) us None"
      by (rule holds_frame(2) [of us _ "d_heap s2"]) (use s2(3) d in \<open>auto simp: h3_def\<close>)
    moreover have "holds_kids h3 a None ts (Some (root t))"
      by (rule holds_frame(2) [of ts _ "d_heap s"]) (use h(2) s2(4) d(3,5,9,11,12) in \<open>auto simp: h3_def s1_def disjoint_iff\<close>)
    moreover have "holds h3 (Some a) (Some (root t)) (first_or us None) c"
      by (rule holds_frame(1) [of c _ "d_heap s1"]) (use c1 s2(4) d in \<open>auto simp: h3_def disjoint_iff\<close>)
    moreover have "h3 a = Some (node_of x par pr nx (ts @ t # c # us))"
      using s2(2) d(9) by (cases us rule: rev_cases) (auto simp: h3_def node_of_def)
    ultimately have "holds h3 par pr nx (DNode a x (ts @ t # c # us))" by (simp add: holds_kids_append)
    then show "wp (set_node (root t) (\<lambda>x. x\<lparr>n_next := Some (root c)\<rparr>)) (\<lambda>_. ?Q (Some (root c))) s2"
      using t2 s2(1,4) root_addrs [of c] root_addrs [of t]
      by (auto simp: wp_simps linked_def h3_def s1_def simp del: holds.simps)
  qed
  moreover have "wp (case first_or us None of Some p \<Rightarrow> set_node p (\<lambda>y. y\<lparr>n_prev := Some (root c)\<rparr>)
           | None \<Rightarrow> bnd (fetch a) (\<lambda>t'. sq (check (n_last t' = Some (root t)) Aborted)
               (set_node a (\<lambda>t. t\<lparr>n_last := Some (root c)\<rparr>)))) R s1 =
      wp (case first_or us None of Some l \<Rightarrow> set_node l (\<lambda>x. x\<lparr>n_prev := Some (root c)\<rparr>)
     | None \<Rightarrow> set_node a (\<lambda>t. t\<lparr>n_last := Some (root c)\<rparr>)) R s1" for R
    using a1 by (cases us) (simp_all add: wp_simps)
  ultimately show ?thesis
    using h(5) holds_root [OF assms(2)] d(7) by (simp add: link_after_def wp_funs wp_simps s1_def del: wp_case_option)
qed

lemma links_instead:
  assumes "holds (d_heap s) par pr nx (DNode a x (ts @ t # us))" "holds (d_heap s) None None None c"
    and "distinct (addrs (DNode a x (ts @ t # us)) @ addrs c)" "2 * length (addrs t) \<le> n"
  shows "wp (link_instead n a (root t) (root c)) (linked s par pr nx a x (ts @ t # us) c (ts @ c # us)) s"
    (is "wp _ ?Q s")
proof -
  note h = holds_split [OF assms(1)] and d = apart_split [OF assms(3)]
  let ?y = "node_of (content t) (Some a) (last_or None ts) (first_or us None) (kids t)"
  define s1 where "s1 = s\<lparr>d_heap := (d_heap s)(root c \<mapsto> node_of (content c) None (last_or None ts) (first_or us None) (kids c))\<rparr>"
  have c1: "holds (d_heap s1) None (last_or None ts) (first_or us None) c"
    using holds_relink [OF assms(2) d(2)] by (simp add: s1_def)
  have ts1: "holds_kids (d_heap s1) a None ts (Some (root t))"
    by (rule holds_frame(2) [of ts _ "d_heap s"]) (use h(2) d in \<open>auto simp: s1_def\<close>)
  have us1: "holds_kids (d_heap s1) a (Some (root t)) us None"
    by (rule holds_frame(2) [of us _ "d_heap s"]) (use h(4) d in \<open>auto simp: s1_def\<close>)
  have t1: "holds (d_heap s1) (Some a) (last_or None ts) (first_or us None) t"
    by (rule holds_frame(1) [of t _ "d_heap s"]) (use h(3) d in \<open>auto simp: s1_def\<close>)
  have a1: "d_heap s1 a = Some (node_of x par pr nx (ts @ t # us))" using h(1) d(8) by (simp add: s1_def)
  have "wp (relink a ?y (Some (root c)) (Some (root c))) (\<lambda>_. wp (delete_node n (root t))
     (\<lambda>_. wp (set_node (root c) (\<lambda>y. y\<lparr>n_parent := Some a\<rparr>)) (\<lambda>_. ?Q (Some (root c))))) s1"
  proof (rule relinks [where mid = "[c]", OF ts1 us1 a1 d(3)])
    fix s2 :: dom
    assume s2: "d_fresh s2 = d_fresh s1" "d_heap s2 a = Some (node_of x par pr nx (ts @ [c] @ us))"
      "holds_kids (d_heap s2) a None ts (Some (root c))" "holds_kids (d_heap s2) a (Some (root c)) us None"
      "\<forall>b. b \<noteq> a \<longrightarrow> b \<notin> set (all_addrs (ts @ us)) \<longrightarrow> d_heap s2 b = d_heap s1 b"
    have t2: "holds (d_heap s2) (Some a) (last_or None ts) (first_or us None) t"
      by (rule holds_frame(1) [of t _ "d_heap s1"]) (use t1 s2(5) d in \<open>auto simp: disjoint_iff\<close>)
    have c2: "holds (d_heap s2) None (last_or None ts) (first_or us None) c"
      by (rule holds_frame(1) [of c _ "d_heap s1"]) (use c1 s2(5) d in \<open>auto simp: disjoint_iff\<close>)
    show "wp (delete_node n (root t)) (\<lambda>_. wp (set_node (root c) (\<lambda>y. y\<lparr>n_parent := Some a\<rparr>)) (\<lambda>_. ?Q (Some (root c)))) s2"
    proof (rule wp_mono [OF deletes(1) [OF t2 d(1) assms(4)]])
      fix r s3 assume s3: "s3 = without (addrs t) s2"
      have c3: "holds (d_heap s3) None (last_or None ts) (first_or us None) c"
        by (rule holds_frame(1) [of c _ "d_heap s2"]) (use c2 d in \<open>auto simp: s3 disjoint_iff\<close>)
      define h4 where "h4 = (d_heap s3)(root c \<mapsto> node_of (content c) (Some a) (last_or None ts) (first_or us None) (kids c))"
      have "holds h4 (Some a) (last_or None ts) (first_or us None) c" using holds_relink [OF c3 d(2)] by (simp add: h4_def)
      moreover have "holds_kids h4 a None ts (Some (root c))"
        by (rule holds_frame(2) [of ts _ "d_heap s2"]) (use s2(3) d in \<open>auto simp: h4_def s3 disjoint_iff\<close>)
      moreover have "holds_kids h4 a (Some (root c)) us None"
        by (rule holds_frame(2) [of us _ "d_heap s2"]) (use s2(4) d in \<open>auto simp: h4_def s3 disjoint_iff\<close>)
      moreover have "h4 a = Some (node_of x par pr nx (ts @ c # us))" using s2(2) d(4,8) by (simp add: h4_def s3)
      ultimately have "holds h4 par pr nx (DNode a x (ts @ c # us))" by (simp add: holds_kids_append)
      then show "wp (set_node (root c) (\<lambda>y. y\<lparr>n_parent := Some a\<rparr>)) (\<lambda>_. ?Q (Some (root c))) s3"
        using holds_root [OF c3] s2(1,5) root_addrs [of c] d(6)
        by (auto simp: wp_simps linked_def h4_def s3 s1_def simp del: holds.simps)
    qed
  qed simp_all
  then show ?thesis
    using h(5) holds_root [OF assms(2)] d(7) by (simp add: link_instead_def wp_funs wp_simps s1_def)
qed

lemma inserts_at:
  assumes "holds (d_heap s) par pr nx (DNode a x (ts @ t # us))" "holds (d_heap s) p q r w" "copyable w"
    and "wp (bnd (Clone n (root w)) link) Q s"
  shows "wp (insert_at link n a (Some (root t)) (root w)) Q s"
  using assms(4) holds_split(5) [OF assms(1)] holds_root [OF assms(2)] copyable_not_doc [OF assms(3)]
  by (simp add: insert_at_def wp_funs wp_simps)

lemma clears:
  assumes "holds (d_heap s) par pr nx (DNode a x ks)" "distinct (addrs (DNode a x ks))" "fresh s"
    and "2 * length (all_addrs ks) < n"
  shows "wp (TiXmlNode_Clear n a) (\<lambda>_. edited s par pr nx a x ks (\<lambda>ks'. ks' = [])) s"
proof -
  have a: "d_heap s a = Some (node_of x par pr nx ks)" "holds_kids (d_heap s) a None ks None" using assms(1) by simp_all
  have "wp (delete_kids n (first_or ks None)) (\<lambda>_. wp (set_node a (\<lambda>x. x\<lparr>n_first := None, n_last := None\<rparr>))
     (\<lambda>_. edited s par pr nx a x ks (\<lambda>ks'. ks' = []))) s"
  proof (rule wp_mono [OF deletes(2) [OF a(2) _ assms(4)]])
    show "distinct (all_addrs ks)" using assms(2) by simp
    fix r s1 assume s1: "s1 = without (all_addrs ks) s"
    let ?s2 = "s1\<lparr>d_heap := (d_heap s1)(a \<mapsto> (node_of x par pr nx ks)\<lparr>n_first := None, n_last := None\<rparr>)\<rparr>"
    have "fresh ?s2"
      by (rule fresh_later [OF assms(3)]) (use holds_below [OF assms(1,3), of a] in \<open>auto simp: s1\<close>)
    then have "edited s par pr nx a x ks (\<lambda>ks'. ks' = []) ?s2"
      using assms(2) by (auto simp: edited_def s1 node_of_def)
    then show "wp (set_node a (\<lambda>x. x\<lparr>n_first := None, n_last := None\<rparr>)) (\<lambda>_. edited s par pr nx a x ks (\<lambda>ks'. ks' = [])) s1"
      using a(1) assms(2) by (simp add: wp_simps s1)
  qed
  then show ?thesis using a(1) by (simp add: TiXmlNode_Clear_def wp_funs wp_simps)
qed

lemma inserts_before:
  assumes "holds (d_heap s) par pr nx (DNode a x (ts @ t # us))" "distinct (addrs (DNode a x (ts @ t # us)))" "fresh s"
    and "holds (d_heap s) p q r w" "copyable w" "2 * length (addrs w) \<le> n"
  shows "wp (InsertBeforeChild n a (Some (root t)) (root w)) (\<lambda>res. edited s par pr nx a x (ts @ t # us)
     (\<lambda>ks. \<exists>c. res = Some (root c) \<and> erase c = erase w \<and> ks = ts @ c # t # us)) s"
  unfolding InsertBeforeChild_def
  by (rule inserts_at [OF assms(1,4,5)], rule copied_and_linked [OF assms])
    (auto simp del: holds.simps addrs_DNode intro: links_before, auto)

lemma inserts_after:
  assumes "holds (d_heap s) par pr nx (DNode a x (ts @ t # us))" "distinct (addrs (DNode a x (ts @ t # us)))" "fresh s"
    and "holds (d_heap s) p q r w" "copyable w" "2 * length (addrs w) \<le> n"
  shows "wp (InsertAfterChild n a (Some (root t)) (root w)) (\<lambda>res. edited s par pr nx a x (ts @ t # us)
     (\<lambda>ks. \<exists>c. res = Some (root c) \<and> erase c = erase w \<and> ks = ts @ t # c # us)) s"
  unfolding InsertAfterChild_def
  by (rule inserts_at [OF assms(1,4,5)], rule copied_and_linked [OF assms])
    (auto simp del: holds.simps addrs_DNode intro: links_after, auto)

lemma replaces:
  assumes "holds (d_heap s) par pr nx (DNode a x (ts @ t # us))" "distinct (addrs (DNode a x (ts @ t # us)))" "fresh s"
    and "holds (d_heap s) p q r w" "copyable w" "2 * length (addrs w) \<le> n" "2 * length (addrs t) \<le> n"
  shows "wp (ReplaceChild n a (Some (root t)) (root w)) (\<lambda>res. edited s par pr nx a x (ts @ t # us)
     (\<lambda>ks. \<exists>c. res = Some (root c) \<and> erase c = erase w \<and> ks = ts @ c # us)) s"
  unfolding ReplaceChild_def
  by (rule inserts_at [OF assms(1,4,5)], rule copied_and_linked [OF assms(1-6)])
    (auto simp del: holds.simps addrs_DNode intro: links_instead [OF _ _ _ assms(7)], auto)

text \<open>C24: 
  The functions that edit a tree of nodes do what their names say to the list of children.  Let a node of the tree have
  the children \<open>ts\<close>, \<open>t\<close> and \<open>us\<close>, and \<open>w\<close> be any copyable tree, possibly part of the same one.  With fuel of twice the nodes they return:
  the functions that add a node add a complete copy of \<open>w\<close> at the end, in front of \<open>t\<close>, behind it or instead of it;
  \<open>RemoveChild\<close> takes \<open>t\<close> away, \<open>Clear\<close> everything.  Afterwards all links of the tree agree again, what is not in the tree any
  more has been deleted, and no other node has changed.
\<close>

theorem dom_edits:
  assumes "holds (d_heap s) par pr nx (DNode a x (ts @ t # us))" "distinct (addrs (DNode a x (ts @ t # us)))" "fresh s"
    and "holds (d_heap s) p q r w" "copyable w" "2 * length (addrs w) \<le> n" "2 * length (all_addrs (ts @ t # us)) < n"
  shows "wp (InsertEndChild n a (root w)) (\<lambda>res. edited s par pr nx a x (ts @ t # us)
       (\<lambda>ks. \<exists>c. res = Some (root c) \<and> erase c = erase w \<and> ks = ts @ t # us @ [c])) s
     \<and> wp (InsertBeforeChild n a (Some (root t)) (root w)) (\<lambda>res. edited s par pr nx a x (ts @ t # us)
       (\<lambda>ks. \<exists>c. res = Some (root c) \<and> erase c = erase w \<and> ks = ts @ c # t # us)) s
     \<and> wp (InsertAfterChild n a (Some (root t)) (root w)) (\<lambda>res. edited s par pr nx a x (ts @ t # us)
       (\<lambda>ks. \<exists>c. res = Some (root c) \<and> erase c = erase w \<and> ks = ts @ t # c # us)) s
     \<and> wp (ReplaceChild n a (Some (root t)) (root w)) (\<lambda>res. edited s par pr nx a x (ts @ t # us)
       (\<lambda>ks. \<exists>c. res = Some (root c) \<and> erase c = erase w \<and> ks = ts @ c # us)) s
     \<and> wp (RemoveChild n a (Some (root t))) (\<lambda>res. edited s par pr nx a x (ts @ t # us) (\<lambda>ks. res = True \<and> ks = ts @ us)) s
     \<and> wp (TiXmlNode_Clear n a) (\<lambda>_. edited s par pr nx a x (ts @ t # us) (\<lambda>ks. ks = [])) s"
proof (intro conjI)
  have t: "2 * length (addrs t) \<le> n" using assms(7) by simp
  show "wp (InsertEndChild n a (root w)) (\<lambda>res. edited s par pr nx a x (ts @ t # us)
       (\<lambda>ks. \<exists>c. res = Some (root c) \<and> erase c = erase w \<and> ks = ts @ t # us @ [c])) s"
    using inserts_end [OF assms(1-6)] by simp
  show "wp (ReplaceChild n a (Some (root t)) (root w)) (\<lambda>res. edited s par pr nx a x (ts @ t # us)
       (\<lambda>ks. \<exists>c. res = Some (root c) \<and> erase c = erase w \<and> ks = ts @ c # us)) s"
    by (rule replaces [OF assms(1-6) t])
  show "wp (RemoveChild n a (Some (root t))) (\<lambda>res. edited s par pr nx a x (ts @ t # us) (\<lambda>ks. res = True \<and> ks = ts @ us)) s"
    by (rule wp_mono [OF removes [OF assms(1-3) t]]) simp
qed (rule inserts_before [OF assms(1-6)] inserts_after [OF assms(1-6)] clears [OF assms(1-3,7)])+

text \<open>An element with two comments, of which the second is to be copied.\<close>

definition small_dom :: dom where
  "small_dom = \<lparr>d_heap = (\<lambda>b. None)(
     0 \<mapsto> node_of (DElement [(''n'', ''1'')], ''e'') None None None [DNode 1 (DComment, ''a'') [], DNode 2 (DComment, ''b'') []],
     1 \<mapsto> node_of (DComment, ''a'') (Some 0) None (Some 2) [], 2 \<mapsto> node_of (DComment, ''b'') (Some 0) (Some 1) None []),
     d_fresh = 3\<rparr>"

theorem dom_edits_witness:
  "wp (InsertBeforeChild 9 0 (Some 1) 2) (\<lambda>res. edited small_dom None None None 0 (DElement [(''n'', ''1'')], ''e'')
       [DNode 1 (DComment, ''a'') [], DNode 2 (DComment, ''b'') []]
       (\<lambda>ks. \<exists>c. res = Some (root c) \<and> erase c = DNode 0 (DComment, ''b'') []
         \<and> ks = [c, DNode 1 (DComment, ''a'') [], DNode 2 (DComment, ''b'') []])) small_dom"
  using dom_edits [of small_dom None None None 0 "(DElement [(''n'', ''1'')], ''e'')" "[]" "DNode 1 (DComment, ''a'') []"
      "[DNode 2 (DComment, ''b'') []]" "Some 0" "Some 1" None "DNode 2 (DComment, ''b'') []" 9]
  by (simp add: small_dom_def fresh_def)

end
