(* ===== verification/Mongo.thy ===== *)
theory Mongo
  imports Objects
begin

text \<open>
  \<open>mongodb.cc\<close>: the store with its pool of connections, \<open>std::map<DBClientConnection*, bool>\<close> (the
  flag says that the connection is in use), and the semaphore that counts the free ones.
  The driver is the record \<open>mongo_env\<close>: whether a connection can be opened, and how each call ends, which may
  be different every time (the first argument counts the calls).  Its documentation lets every call throw and \<open>query\<close> return
  no cursor.  Nothing here catches: a request returns what it has stored through its reference parameter and its
  return value, \<open>None\<close> when an exception leaves it.  The lock \<open>m_lock\<close> is a guard and always given back;
  \<open>m_db_mutex\<close> is locked and unlocked by hand and never initialised, so that what it holds at first is whatever the memory
  holds.  The commands handed to the driver are kept in \<open>sent_cmds\<close>.  Waiting for a
  semaphore that is zero or a mutex that is locked is \<open>Blocked\<close>; using the end of the map as a connection is \<open>DanglingPtr\<close>.
\<close>

definition MSUCCESS :: int where "MSUCCESS = 0"
definition INTERR :: int where "INTERR = 1"
definition FAILURE :: int where "FAILURE = 2"
definition CONN_NUMBER :: int where "CONN_NUMBER = 10"

type_synonym query = "string \<times> string"
type_synonym kvmap = "string \<rightharpoonup> string"

datatype mongo_cmd =
    EnsureIndex string string
  | Update string query "(string \<times> string) list"
  | Remove string query

datatype cursor_reply =
    QueryThrows
  | NoCursor
  | Cursor "(string \<Rightarrow> string) list" bool     \<comment> \<open>the documents, and whether reading on throws after them\<close>

record mongo_env =
  conn_ok :: "ptr \<Rightarrow> bool"
  ensureIndex :: "nat \<Rightarrow> string \<Rightarrow> string \<Rightarrow> unit option"
  findOne :: "nat \<Rightarrow> string \<Rightarrow> query \<Rightarrow> string list \<Rightarrow> (string \<Rightarrow> string) option"
  find_all :: "nat \<Rightarrow> string \<Rightarrow> string list \<Rightarrow> cursor_reply"
  update :: "nat \<Rightarrow> string \<Rightarrow> query \<Rightarrow> (string \<times> string) list \<Rightarrow> unit option"
  getLastError :: "nat \<Rightarrow> string option"
  remove :: "nat \<Rightarrow> string \<Rightarrow> query \<Rightarrow> unit option"

record mongo =
  m_doc_db :: string
  wr_timeout :: int
  m_sem :: nat
  connlst :: "(ptr, bool) smap"
  m_db_mutex :: bool
  sent_cmds :: "mongo_cmd list"
  calls :: nat

type_synonym 'a mact = "(mongo, 'a) prog"

section \<open>Construction\<close>

text \<open>\<open>alloc i\<close> is the address of the \<open>i\<close>-th new connection, \<open>junk\<close> whether the mutex that nobody initialises looks locked.\<close>

definition Mongodb_new :: "(nat \<Rightarrow> ptr) \<Rightarrow> bool \<Rightarrow> int \<Rightarrow> mongo" where
  "Mongodb_new alloc junk number =
     (let n1 = (if number < 0 then 1 else number); n2 = (if 20 < n1 then 20 else n1) in
      \<lparr>m_doc_db = ''localhost.unix'', wr_timeout = 3, m_sem = 0,
       connlst = fold (\<lambda>i. smap_set (alloc i) False) [0..<nat n2] [], m_db_mutex = junk,
       sent_cmds = [], calls = 0\<rparr>)"

definition Mongodb_set_wr_timeout :: "int \<Rightarrow> int mact" where
  "Mongodb_set_wr_timeout t = sq (modify (wr_timeout_update (\<lambda>_. t))) (ret MSUCCESS)"

text \<open>A connection that fails is marked as used, and counted all the same.\<close>

definition Mongodb_connect :: "mongo_env \<Rightarrow> int mact" where
  "Mongodb_connect e =
     sq (modify (\<lambda>m. m\<lparr>connlst := map (\<lambda>(c, b). (c, if conn_ok e c then b else True)) (connlst m),
                        m_sem := m_sem m + length (connlst m)\<rparr>))
        (ret MSUCCESS)"

definition Mongodb_setdb :: "string \<Rightarrow> string \<Rightarrow> int mact" where
  "Mongodb_setdb database collection =
     (if database = [] \<or> collection = [] then ret FAILURE
      else sq (modify (m_doc_db_update (\<lambda>_. database @ ''.'' @ collection))) (ret MSUCCESS))"

section \<open>The connections\<close>

definition sem_wait :: "unit mact" where
  "sem_wait = bnd (gets m_sem) (\<lambda>n. sq (check (0 < n) Blocked) (modify (m_sem_update (\<lambda>_. n - 1))))"

definition sem_post :: "unit mact" where
  "sem_post = modify (m_sem_update Suc)"

text \<open>The first connection that is not in use; \<open>None\<close> is \<open>end ()\<close>.\<close>

fun first_free :: "(ptr, bool) smap \<Rightarrow> ptr option" where
  "first_free [] = None"
| "first_free ((c, b) # m) = (if b then first_free m else Some c)"

definition take_conn :: "ptr option mact" where
  "take_conn = bnd (gets (first_free \<circ> connlst)) (\<lambda>it.
     sq (case it of None \<Rightarrow> ret () | Some c \<Rightarrow> modify (connlst_update (smap_set c True)))
        (ret it))"

definition use_conn :: "ptr option \<Rightarrow> ptr mact" where
  "use_conn it = (case it of None \<Rightarrow> fail DanglingPtr | Some c \<Rightarrow> ret c)"

definition give_conn :: "ptr option \<Rightarrow> unit mact" where
  "give_conn it = bnd (use_conn it) (\<lambda>c. modify (connlst_update (smap_set c False)))"

text \<open>A call of the driver.\<close>

definition call :: "(nat \<Rightarrow> 'a) \<Rightarrow> 'a mact" where
  "call f = bnd (gets calls) (\<lambda>i. sq (modify (calls_update Suc)) (ret (f i)))"

definition send_cmd :: "mongo_cmd \<Rightarrow> unit mact" where
  "send_cmd c = modify (sent_cmds_update (\<lambda>cs. cs @ [c]))"

text \<open>What every request does around its own work.  An exception leaves the connection marked as used and the semaphore
  one lower.\<close>

definition with_conn :: "(ptr option \<Rightarrow> ('a \<times> int option) mact) \<Rightarrow> ('a \<times> int option) mact" where
  "with_conn body =
     sq sem_wait (bnd take_conn (\<lambda>it. bnd (body it) (\<lambda>(x, r).
       case r of None \<Rightarrow> ret (x, None) | Some n \<Rightarrow> sq (give_conn it) (sq sem_post (ret (x, Some n))))))"

definition lock_db :: "unit mact" where
  "lock_db = bnd (gets m_db_mutex) (\<lambda>locked. sq (check (\<not> locked) Blocked) (modify (m_db_mutex_update (\<lambda>_. True))))"

definition unlock_db :: "unit mact" where
  "unlock_db = modify (m_db_mutex_update (\<lambda>_. False))"

section \<open>Requests\<close>

definition Mongodb_setindex :: "mongo_env \<Rightarrow> string \<Rightarrow> (unit \<times> int option) mact" where
  "Mongodb_setindex e key =
     (if key = [] then ret ((), Some FAILURE) else
      with_conn (\<lambda>it. bnd (use_conn it) (\<lambda>c. bnd (gets m_doc_db) (\<lambda>ns.
        sq (send_cmd (EnsureIndex ns (''{'' @ key @ '':1}'')))
       (bnd (call (\<lambda>i. ensureIndex e i ns (''{'' @ key @ '':1}''))) (\<lambda>r.
        ret ((), map_option (\<lambda>_. MSUCCESS) r)))))))"

text \<open>\<open>temp[k] = p.getStringField (k)\<close> for every field, in the order given.\<close>

definition read_fields :: "string list \<Rightarrow> (string \<Rightarrow> string) \<Rightarrow> kvmap" where
  "read_fields ins p = fold (\<lambda>k temp. temp(k \<mapsto> p k)) ins Map.empty"

text \<open>The first component is what has been assigned to \<open>out\<close>, if anything.\<close>

definition Mongodb_get :: "mongo_env \<Rightarrow> string list \<Rightarrow> string \<Rightarrow> string \<Rightarrow> (kvmap option \<times> int option) mact" where
  "Mongodb_get e ins key v =
     (if key = [] \<or> v = [] \<or> ins = [] then ret (None, Some FAILURE) else
      with_conn (\<lambda>it. bnd (use_conn it) (\<lambda>c. bnd (gets m_doc_db) (\<lambda>ns.
        bnd (call (\<lambda>i. findOne e i ns (key, v) ins)) (\<lambda>r.
        ret (map_option (read_fields ins) r, map_option (\<lambda>_. MSUCCESS) r))))))"

fun gets_loop :: "mongo_env \<Rightarrow> string \<Rightarrow> string list \<Rightarrow> string \<Rightarrow> ptr option \<Rightarrow> string list
    \<Rightarrow> (string \<rightharpoonup> kvmap) \<Rightarrow> ((string \<rightharpoonup> kvmap) \<times> int option) mact" where
  "gets_loop e ns ins key it [] rout = ret (rout, Some MSUCCESS)"
| "gets_loop e ns ins key it (v # vs) rout = bnd (use_conn it) (\<lambda>c.
     bnd (call (\<lambda>i. findOne e i ns (key, v) (key # ins))) (\<lambda>r. case r of
       None \<Rightarrow> ret (rout, None)
     | Some ob \<Rightarrow> gets_loop e ns ins key it vs (rout(ob key \<mapsto> read_fields ins ob))))"

definition Mongodb_gets ::
  "mongo_env \<Rightarrow> (string \<rightharpoonup> kvmap) \<Rightarrow> string list \<Rightarrow> string list \<Rightarrow> string \<Rightarrow> ((string \<rightharpoonup> kvmap) \<times> int option) mact" where
  "Mongodb_gets e rout ins vs key =
     (if key = [] then ret (rout, Some FAILURE) else
      with_conn (\<lambda>it. bnd (gets m_doc_db) (\<lambda>ns. gets_loop e ns ins key it vs rout)))"

text \<open>The cursor loop of the two dumps, with the mutex around it; \<open>store\<close> is its body.  An exception leaves the mutex locked.\<close>

definition dump :: "mongo_env \<Rightarrow> string list \<Rightarrow> ((string \<Rightarrow> string) \<Rightarrow> 'r \<Rightarrow> 'r) \<Rightarrow> 'r \<Rightarrow> ptr option \<Rightarrow> ('r \<times> int option) mact" where
  "dump e fs store rout it =
     sq lock_db
    (bnd (use_conn it) (\<lambda>c. bnd (gets m_doc_db) (\<lambda>ns.
     bnd (call (\<lambda>i. find_all e i ns fs)) (\<lambda>cursor. case cursor of
       QueryThrows \<Rightarrow> ret (rout, None)
     | NoCursor \<Rightarrow> fail NullDeref
     | Cursor obs throws \<Rightarrow>
         if throws then ret (fold store obs rout, None)
         else sq unlock_db (ret (fold store obs rout, Some MSUCCESS))))))"

definition Mongodb_dumpkey :: "mongo_env \<Rightarrow> kvmap \<Rightarrow> string \<Rightarrow> string \<Rightarrow> (kvmap \<times> int option) mact" where
  "Mongodb_dumpkey e rout key val =
     (if key = [] then ret (rout, Some FAILURE) else
      with_conn (dump e (key # (if val = [] then [] else [val])) (\<lambda>ob r. r(ob key \<mapsto> ob val)) rout))"

definition Mongodb_dumpvals ::
  "mongo_env \<Rightarrow> (string \<rightharpoonup> kvmap) \<Rightarrow> string list \<Rightarrow> string \<Rightarrow> ((string \<rightharpoonup> kvmap) \<times> int option) mact" where
  "Mongodb_dumpvals e rout ins key =
     (if key = [] then ret (rout, Some FAILURE) else
      with_conn (dump e (key # ins) (\<lambda>ob r. r(ob key \<mapsto> read_fields ins ob)) rout))"

text \<open>The update wraps the fields under an empty name.  The message of the server decides the result.\<close>

definition update_checked :: "mongo_env \<Rightarrow> string \<Rightarrow> query \<Rightarrow> (string \<times> string) list \<Rightarrow> string option mact" where
  "update_checked e ns q kvs =
     sq (send_cmd (Update ns q kvs))
    (bnd (call (\<lambda>i. update e i ns q kvs)) (\<lambda>r. case r of None \<Rightarrow> ret None | Some u \<Rightarrow> call (getLastError e)))"

definition Mongodb_set :: "mongo_env \<Rightarrow> (string \<times> string) list \<Rightarrow> string \<Rightarrow> string \<Rightarrow> (unit \<times> int option) mact" where
  "Mongodb_set e kvs key v =
     (if kvs = [] \<or> key = [] \<or> v = [] then ret ((), Some FAILURE) else
      with_conn (\<lambda>it. bnd (use_conn it) (\<lambda>c. bnd (gets m_doc_db) (\<lambda>ns.
        bnd (update_checked e ns (key, v) kvs) (\<lambda>r.
        ret ((), map_option (\<lambda>errmsg. if errmsg \<noteq> [] then INTERR else MSUCCESS) r))))))"

fun sets_loop :: "mongo_env \<Rightarrow> string \<Rightarrow> string \<Rightarrow> ptr option \<Rightarrow> (string \<times> (string \<times> string) list) list \<Rightarrow> int
    \<Rightarrow> (unit \<times> int option) mact" where
  "sets_loop e ns key it [] result = ret ((), Some result)"
| "sets_loop e ns key it ((v, kvs) # rs) result = bnd (use_conn it) (\<lambda>c.
     bnd (update_checked e ns (key, v) kvs) (\<lambda>r. case r of
       None \<Rightarrow> ret ((), None)
     | Some errmsg \<Rightarrow> sets_loop e ns key it rs (if errmsg \<noteq> [] then INTERR else result)))"

definition Mongodb_sets :: "mongo_env \<Rightarrow> (string \<times> (string \<times> string) list) list \<Rightarrow> string \<Rightarrow> (unit \<times> int option) mact" where
  "Mongodb_sets e rs key =
     (if rs = [] \<or> key = [] then ret ((), Some FAILURE) else
      with_conn (\<lambda>it. bnd (gets m_doc_db) (\<lambda>ns. sets_loop e ns key it rs MSUCCESS)))"

definition Mongodb_remove :: "mongo_env \<Rightarrow> string \<Rightarrow> string \<Rightarrow> (unit \<times> int option) mact" where
  "Mongodb_remove e key v =
     (if key = [] \<or> v = [] then ret ((), Some FAILURE) else
      with_conn (\<lambda>it. bnd (use_conn it) (\<lambda>c. bnd (gets m_doc_db) (\<lambda>ns.
        sq (send_cmd (Remove ns (key, v)))
       (bnd (call (\<lambda>i. remove e i ns (key, v))) (\<lambda>r. ret ((), map_option (\<lambda>_. MSUCCESS) r)))))))"

section \<open>What a request does to the pool\<close>

definition free :: "mongo \<Rightarrow> nat" where
  "free m = length (filter (Not \<circ> snd) (connlst m))"

definition pool_ok :: "mongo \<Rightarrow> bool" where
  "pool_ok m \<longleftrightarrow> smap_inv (connlst m) \<and> m_sem m = free m"

text \<open>The driver throws nothing and has a cursor for every query.\<close>

definition driver_fine :: "mongo_env \<Rightarrow> bool" where
  "driver_fine e \<longleftrightarrow> (\<forall>i ns k. ensureIndex e i ns k \<noteq> None) \<and> (\<forall>i ns q f. findOne e i ns q f \<noteq> None)
     \<and> (\<forall>i ns q f. update e i ns q f \<noteq> None) \<and> (\<forall>i. getLastError e i \<noteq> None) \<and> (\<forall>i ns q. remove e i ns q \<noteq> None)
     \<and> (\<forall>i ns f. \<exists>obs. find_all e i ns f = Cursor obs False)"

lemma driver_fineD:
  assumes "driver_fine e"
  shows "\<exists>u. ensureIndex e i ns k = Some u" "\<exists>ob. findOne e i ns q f = Some ob" "\<exists>u. update e i ns q kvs = Some u"
    "\<exists>err. getLastError e i = Some err" "\<exists>u. remove e i ns q = Some u" "\<exists>obs. find_all e i ns f = Cursor obs False"
  using assms unfolding driver_fine_def by (metis option.exhaust)+

text \<open>
  The contract of a request, which uses the mutex when \<open>dumps\<close>, and whose driver is \<open>fine\<close> or not.  When it returns, the pool
  is as it was; when an exception leaves it, one connection is lost, and the mutex is locked for good if it was used.  It
  waits for ever only when all connections are lost or it needs the locked mutex, and its only fault is the missing cursor.
\<close>

definition kept :: "bool \<Rightarrow> bool \<Rightarrow> mongo \<Rightarrow> int option \<Rightarrow> mongo \<Rightarrow> bool" where
  "kept fine dumps m r m' \<longleftrightarrow> map fst (connlst m') = map fst (connlst m) \<and> pool_ok m'
     \<and> m_sem m = (if r = None then Suc (m_sem m') else m_sem m') \<and> (r \<noteq> None \<longrightarrow> connlst m' = connlst m)
     \<and> m_db_mutex m' = (m_db_mutex m \<or> dumps \<and> r = None) \<and> (fine \<longrightarrow> r \<noteq> None)"

definition stuck :: "bool \<Rightarrow> bool \<Rightarrow> mongo \<Rightarrow> fault \<Rightarrow> bool" where
  "stuck fine dumps m f \<longleftrightarrow> f = Blocked \<and> (m_sem m = 0 \<or> dumps \<and> m_db_mutex m) \<or> f = NullDeref \<and> dumps \<and> \<not> fine"

definition obeys :: "bool \<Rightarrow> bool \<Rightarrow> ('a \<times> int option) mact \<Rightarrow> mongo \<Rightarrow> bool" where
  "obeys fine dumps req m = (case req m of Inl f \<Rightarrow> stuck fine dumps m f | Inr ((x, r), m') \<Rightarrow> kept fine dumps m r m')"

locale request =
  fixes req :: "('a \<times> int option) mact" and fine dumps :: bool
  assumes law: "pool_ok m \<Longrightarrow> obeys fine dumps req m"
begin

text \<open>A request with a fine driver returns as long as there is a connection and the mutex is free.\<close>

lemma returns: "pool_ok m \<Longrightarrow> 0 < m_sem m \<Longrightarrow> fine \<Longrightarrow> \<not> m_db_mutex m \<Longrightarrow> \<exists>x n m'. req m = Inr ((x, Some n), m') \<and> connlst m' = connlst m"
  using law [of m] by (auto simp: obeys_def stuck_def kept_def split: sum.splits prod.splits)

text \<open>Its value is ignored, whether it threw is kept.\<close>

definition threw :: "bool mact" where
  "threw = bnd req (\<lambda>(x, r). ret (r = None))"

lemma threw_run: "pool_ok m \<Longrightarrow> case threw m of Inl f \<Rightarrow> stuck fine dumps m f
    | Inr (b, m') \<Rightarrow> \<exists>r. b = (r = None) \<and> kept fine dumps m r m'"
  using law [of m] by (auto simp: threw_def obeys_def bnd_def ret_def split: sum.splits prod.splits)

end

lemma first_free_find: "smap_inv m \<Longrightarrow> first_free m = Some c \<Longrightarrow> smap_find m c = Some False"
  by (induction m rule: first_free.induct) (fastforce split: if_splits dest: smap_find_in)+

lemma smap_set_back: "smap_inv m \<Longrightarrow> smap_find m k = Some v \<Longrightarrow> smap_set k v (smap_set k w m) = m"
  by (induction k w m rule: smap_set.induct) (auto split: if_splits dest!: smap_find_in)

lemma smap_set_keys: "smap_inv m \<Longrightarrow> smap_find m k \<noteq> None \<Longrightarrow> map fst (smap_set k v m) = map fst m"
  by (induction k v m rule: smap_set.induct) (auto split: if_splits dest!: smap_find_in)

lemma smap_set_used: "smap_inv m \<Longrightarrow> smap_find m k = Some False \<Longrightarrow>
    length (filter (Not \<circ> snd) m) = Suc (length (filter (Not \<circ> snd) (smap_set k True m)))"
  by (induction k True m rule: smap_set.induct) (auto split: if_splits dest!: smap_find_in)

lemma first_free_some: "first_free m = None \<longleftrightarrow> filter (Not \<circ> snd) m = []"
  by (induction m rule: first_free.induct) auto

text \<open>How the work inside \<open>with_conn\<close> may end that was begun in \<open>m\<close>.\<close>

fun worked :: "bool \<Rightarrow> bool \<Rightarrow> mongo \<Rightarrow> fault + ('a \<times> int option) \<times> mongo \<Rightarrow> bool" where
  "worked fine dumps m (Inl f) = (dumps \<and> (f = Blocked \<and> m_db_mutex m \<or> f = NullDeref \<and> \<not> fine))"
| "worked fine dumps m (Inr ((x, r), m')) = (connlst m' = connlst m \<and> m_sem m' = m_sem m
     \<and> m_db_mutex m' = (m_db_mutex m \<or> dumps \<and> r = None) \<and> (fine \<longrightarrow> r \<noteq> None))"

lemma connlst_set: "connlst_update f m = m\<lparr>connlst := f (connlst m)\<rparr>"
  by (cases m) simp

lemma obeys_with_conn:
  assumes "pool_ok m" "\<And>c m. worked fine dumps m (body (Some c) m)"
  shows "obeys fine dumps (with_conn body) m"
proof (cases "m_sem m = 0")
  case True
  then show ?thesis
    by (simp add: obeys_def with_conn_def sem_wait_def stuck_def bnd_def sq_def gets_def check_def fail_def)
next
  case False
  then have "first_free (connlst m) \<noteq> None" using assms(1) by (auto simp: pool_ok_def free_def first_free_some)
  then obtain c where c: "first_free (connlst m) = Some c" by blast
  have inv: "smap_inv (connlst m)" "smap_find (connlst m) c = Some False"
    using assms(1) first_free_find [OF _ c] by (auto simp: pool_ok_def)
  define m1 where "m1 = m\<lparr>m_sem := m_sem m - 1, connlst := smap_set c True (connlst m)\<rparr>"
  have take: "take_conn (m\<lparr>m_sem := m_sem m - Suc 0\<rparr>) = Inr (Some c, m1)"
    using c by (simp add: take_conn_def m1_def bnd_def sq_def gets_def modify_def ret_def connlst_set [of "smap_set c True"])
  have wait: "sem_wait m = Inr ((), m\<lparr>m_sem := m_sem m - Suc 0\<rparr>)"
    using False by (simp add: sem_wait_def run_simps bnd_def sq_def gets_def modify_def check_def ret_def)
  have m1: "free m = Suc (free m1)" "map fst (connlst m1) = map fst (connlst m)" "smap_inv (connlst m1)"
    "smap_set c False (connlst m1) = connlst m" "m_sem m = Suc (m_sem m1)" "m_db_mutex m1 = m_db_mutex m"
    using smap_set_used [OF inv] smap_set_keys [OF inv(1), of c True] smap_set_back [OF inv, of True] inv False
    by (simp_all add: free_def m1_def)
  have ok: "m_sem m = free m" using assms(1) by (simp add: pool_ok_def)
  have w: "worked fine dumps m1 (body (Some c) m1)" by (rule assms(2))
  show ?thesis
  proof (cases "body (Some c) m1")
    case (Inl f)
    then have "with_conn body m = Inl f" by (simp add: with_conn_def wait take bnd_def sq_def)
    then show ?thesis using w m1(6) by (auto simp: obeys_def Inl stuck_def)
  next
    case (Inr z)
    obtain x r m2 where z: "z = ((x, r), m2)" by (cases z) auto
    have m2: "connlst m2 = connlst m1" "m_sem m2 = m_sem m1" "m_db_mutex m2 = (m_db_mutex m \<or> dumps \<and> r = None)"
      "fine \<longrightarrow> r \<noteq> None"
      using w by (simp_all add: Inr z m1(6))
    show ?thesis
    proof (cases r)
      case None
      then have "with_conn body m = Inr ((x, None), m2)" by (simp add: with_conn_def wait take bnd_def sq_def Inr z ret_def)
      moreover have "kept fine dumps m None m2" using m1 m2 ok None by (simp add: kept_def pool_ok_def free_def)
      ultimately show ?thesis by (simp add: obeys_def)
    next
      case (Some k)
      have give: "give_conn (Some c) m2 = Inr ((), m2\<lparr>connlst := connlst m\<rparr>)"
        using m1(4) m2(1) by (simp add: give_conn_def use_conn_def bnd_def ret_def modify_def connlst_set [of "smap_set c False"])
      have post: "sem_post (m2\<lparr>connlst := connlst m\<rparr>) = Inr ((), m2\<lparr>connlst := connlst m, m_sem := m_sem m\<rparr>)"
        unfolding m1(5) m2(2) [symmetric] by (cases m2) (simp add: sem_post_def modify_def)
      have "with_conn body m = Inr ((x, Some k), m2\<lparr>connlst := connlst m, m_sem := m_sem m\<rparr>)"
        by (simp add: with_conn_def wait take bnd_def sq_def Inr z Some give post ret_def)
      moreover have "kept fine dumps m (Some k) (m2\<lparr>connlst := connlst m, m_sem := m_sem m\<rparr>)"
        using m2 ok inv(1) by (simp add: kept_def pool_ok_def free_def Some)
      ultimately show ?thesis by (simp add: obeys_def)
    qed
  qed
qed

lemmas request_simps = use_conn_def send_cmd_def call_def update_checked_def bnd_def sq_def gets_def modify_def ret_def

definition same_pool :: "mongo \<Rightarrow> mongo \<Rightarrow> bool" where
  "same_pool m m' \<longleftrightarrow> connlst m' = connlst m \<and> m_sem m' = m_sem m \<and> m_db_mutex m' = m_db_mutex m"

lemma same_pool_simps [simp]: "same_pool m m" "same_pool m (calls_update f m') = same_pool m m'"
  "same_pool m (sent_cmds_update g m') = same_pool m m'"
  by (simp_all add: same_pool_def)

lemma worked_ret: "same_pool m m' \<Longrightarrow> (fine \<Longrightarrow> r \<noteq> None) \<Longrightarrow> worked fine False m (Inr ((x, r), m'))"
  by (auto simp: same_pool_def)

lemma worked_gets_loop: "same_pool m0 m \<Longrightarrow> worked (driver_fine e) False m0 (gets_loop e ns ins key (Some c) vs rout m)"
proof (induction vs arbitrary: rout m)
  case (Cons v vs)
  show ?case
  proof (cases "findOne e (calls m) ns (key, v) (key # ins)")
    case None
    then have "\<not> driver_fine e" by (metis driver_fineD(2) option.distinct(1))
    then show ?thesis using None Cons.prems by (simp add: request_simps same_pool_def)
  next
    case (Some ob)
    have "worked (driver_fine e) False m0 (gets_loop e ns ins key (Some c) vs (rout(ob key \<mapsto> read_fields ins ob)) (calls_update Suc m))"
      using Cons.prems by (intro Cons.IH) simp
    then show ?thesis using Some by (simp add: request_simps)
  qed
qed (simp add: ret_def same_pool_def)

lemma update_checked_run: "\<exists>m' r. update_checked e ns q kvs m = Inr (r, m') \<and> same_pool m m' \<and> (driver_fine e \<longrightarrow> r \<noteq> None)"
proof (cases "update e (calls m) ns q kvs")
  case None
  then have "\<not> driver_fine e" by (metis driver_fineD(3) option.distinct(1))
  then show ?thesis using None by (auto simp: request_simps)
next
  case (Some u)
  then show ?thesis using driver_fineD(4) [of e "Suc (calls m)"] by (auto simp: request_simps)
qed

lemma worked_sets_loop: "same_pool m0 m \<Longrightarrow> worked (driver_fine e) False m0 (sets_loop e ns key (Some c) rs n m)"
proof (induction rs arbitrary: n m)
  case (Cons p rs)
  obtain v kvs where p: "p = (v, kvs)" by (cases p)
  obtain m' r where u: "update_checked e ns (key, v) kvs m = Inr (r, m')" "same_pool m m'" "driver_fine e \<longrightarrow> r \<noteq> None"
    using update_checked_run by blast
  have s: "same_pool m0 m'" using Cons.prems u(2) by (simp add: same_pool_def)
  show ?case
  proof (cases r)
    case None
    then show ?thesis using u s by (simp add: p use_conn_def bnd_def ret_def same_pool_def)
  next
    case (Some err)
    then show ?thesis
      using u(1) Cons.IH [OF s, of "if err \<noteq> [] then INTERR else n"] by (simp add: p use_conn_def bnd_def ret_def del: worked.simps)
  qed
qed (simp add: ret_def same_pool_def)

lemma worked_dump: "worked (driver_fine e) True m (dump e fs store rout (Some c) m)"
proof (cases "m_db_mutex m")
  case True
  then show ?thesis by (simp add: dump_def lock_db_def check_def fail_def request_simps)
next
  case False
  let ?m = "m\<lparr>m_db_mutex := True\<rparr>"
  show ?thesis
  proof (cases "find_all e (calls m) (m_doc_db m) fs")
    case QueryThrows
    then have "\<not> driver_fine e" by (metis driver_fineD(6) cursor_reply.distinct(3))
    then show ?thesis using QueryThrows False by (simp add: dump_def lock_db_def check_def request_simps)
  next
    case NoCursor
    then have "\<not> driver_fine e" by (metis driver_fineD(6) cursor_reply.distinct(5))
    then show ?thesis using NoCursor False by (simp add: dump_def lock_db_def check_def request_simps fail_def)
  next
    case (Cursor obs throws)
    then have "throws \<Longrightarrow> \<not> driver_fine e" by (metis driver_fineD(6) cursor_reply.inject)
    then show ?thesis using Cursor False by (cases throws) (simp_all add: dump_def lock_db_def unlock_db_def check_def request_simps)
  qed
qed

lemma obeys_ret: "pool_ok m \<Longrightarrow> obeys fine dumps (ret (x, Some n)) m"
  by (simp add: obeys_def ret_def kept_def)

lemma obeys_if: "pool_ok m \<Longrightarrow> (\<And>c m. worked fine dumps m (body (Some c) m)) \<Longrightarrow>
    obeys fine dumps (if b then ret (x, Some n) else with_conn body) m"
  by (simp add: obeys_ret obeys_with_conn)

interpretation mongo_setindex: request "Mongodb_setindex e key" "driver_fine e" False
  unfolding Mongodb_setindex_def
  by unfold_locales (erule obeys_if, use driver_fineD(1) in \<open>fastforce simp: request_simps\<close>)

interpretation mongo_get: request "Mongodb_get e ins key v" "driver_fine e" False
  unfolding Mongodb_get_def
  by unfold_locales (erule obeys_if, use driver_fineD(2) in \<open>fastforce simp: request_simps\<close>)

interpretation mongo_gets: request "Mongodb_gets e rout ins vs key" "driver_fine e" False
  unfolding Mongodb_gets_def
  by unfold_locales (erule obeys_if, simp add: bnd_def gets_def worked_gets_loop)

interpretation mongo_dumpkey: request "Mongodb_dumpkey e krout key val" "driver_fine e" True
  unfolding Mongodb_dumpkey_def
  by unfold_locales (erule obeys_if, rule worked_dump)

interpretation mongo_dumpvals: request "Mongodb_dumpvals e rout ins key" "driver_fine e" True
  unfolding Mongodb_dumpvals_def
  by unfold_locales (erule obeys_if, rule worked_dump)

interpretation mongo_set: request "Mongodb_set e kvs key v" "driver_fine e" False
proof
  have "worked (driver_fine e) False m (bnd (use_conn (Some c)) (\<lambda>c. bnd (gets m_doc_db) (\<lambda>ns.
      bnd (update_checked e ns (key, v) kvs) (\<lambda>r. ret ((), map_option (\<lambda>errmsg. if errmsg \<noteq> [] then INTERR else MSUCCESS) r)))) m)" for c m
    using update_checked_run [of e "m_doc_db m" "(key, v)" kvs m]
    by (auto simp: bnd_def gets_def use_conn_def ret_def same_pool_def)
  then show "obeys (driver_fine e) False (Mongodb_set e kvs key v) m" if "pool_ok m" for m
    unfolding Mongodb_set_def using that by (intro obeys_if)
qed

interpretation mongo_sets: request "Mongodb_sets e rs key" "driver_fine e" False
  unfolding Mongodb_sets_def
  by unfold_locales (erule obeys_if, simp add: bnd_def gets_def worked_sets_loop)

interpretation mongo_remove: request "Mongodb_remove e key v" "driver_fine e" False
  unfolding Mongodb_remove_def
  by unfold_locales (erule obeys_if, use driver_fineD(5) in \<open>fastforce simp: request_simps\<close>)

section \<open>Sessions\<close>

datatype mongo_req =
    Setindex string
  | Get "string list" string string
  | Gets "string list" "string list" string
  | Dumpkey string string
  | Dumpvals "string list" string
  | Set "(string \<times> string) list" string string
  | Sets "(string \<times> (string \<times> string) list) list" string
  | Del string string

definition is_dump :: "mongo_req \<Rightarrow> bool" where
  "is_dump r = (case r of Dumpkey key val \<Rightarrow> True | Dumpvals ins key \<Rightarrow> True | _ \<Rightarrow> False)"

text \<open>A request of a caller that catches exceptions and goes on; the value says whether there was one.\<close>

fun run_request :: "mongo_env \<Rightarrow> mongo_req \<Rightarrow> bool mact" where
  "run_request e (Setindex key) = bnd (Mongodb_setindex e key) (\<lambda>(x, r). ret (r = None))"
| "run_request e (Get ins key v) = bnd (Mongodb_get e ins key v) (\<lambda>(x, r). ret (r = None))"
| "run_request e (Gets ins vs key) = bnd (Mongodb_gets e Map.empty ins vs key) (\<lambda>(x, r). ret (r = None))"
| "run_request e (Dumpkey key val) = bnd (Mongodb_dumpkey e Map.empty key val) (\<lambda>(x, r). ret (r = None))"
| "run_request e (Dumpvals ins key) = bnd (Mongodb_dumpvals e Map.empty ins key) (\<lambda>(x, r). ret (r = None))"
| "run_request e (Set kvs key v) = bnd (Mongodb_set e kvs key v) (\<lambda>(x, r). ret (r = None))"
| "run_request e (Sets rs key) = bnd (Mongodb_sets e rs key) (\<lambda>(x, r). ret (r = None))"
| "run_request e (Del key v) = bnd (Mongodb_remove e key v) (\<lambda>(x, r). ret (r = None))"

fun run_session :: "mongo_env \<Rightarrow> mongo_req list \<Rightarrow> bool list mact" where
  "run_session e [] = ret []"
| "run_session e (r # rs) = bnd (run_request e r) (\<lambda>b. bnd (run_session e rs) (\<lambda>bs. ret (b # bs)))"

lemma run_request_law:
  assumes "pool_ok m"
  shows "case run_request e r m of Inl f \<Rightarrow> stuck (driver_fine e) (is_dump r) m f
    | Inr (b, m') \<Rightarrow> \<exists>x. b = (x = None) \<and> kept (driver_fine e) (is_dump r) m x m'"
proof (cases r)
  case (Setindex key)
  show ?thesis
    unfolding Setindex run_request.simps is_dump_def mongo_req.case
    by (rule mongo_setindex.threw_run [OF assms, unfolded mongo_setindex.threw_def])
next
  case (Get ins key v)
  show ?thesis
    unfolding Get run_request.simps is_dump_def mongo_req.case
    by (rule mongo_get.threw_run [OF assms, unfolded mongo_get.threw_def])
next
  case (Gets ins vs key)
  show ?thesis
    unfolding Gets run_request.simps is_dump_def mongo_req.case
    by (rule mongo_gets.threw_run [OF assms, unfolded mongo_gets.threw_def])
next
  case (Dumpkey key val)
  show ?thesis
    unfolding Dumpkey run_request.simps is_dump_def mongo_req.case
    by (rule mongo_dumpkey.threw_run [OF assms, unfolded mongo_dumpkey.threw_def])
next
  case (Dumpvals ins key)
  show ?thesis
    unfolding Dumpvals run_request.simps is_dump_def mongo_req.case
    by (rule mongo_dumpvals.threw_run [OF assms, unfolded mongo_dumpvals.threw_def])
next
  case (Set kvs key v)
  show ?thesis
    unfolding Set run_request.simps is_dump_def mongo_req.case
    by (rule mongo_set.threw_run [OF assms, unfolded mongo_set.threw_def])
next
  case (Sets rs key)
  show ?thesis
    unfolding Sets run_request.simps is_dump_def mongo_req.case
    by (rule mongo_sets.threw_run [OF assms, unfolded mongo_sets.threw_def])
next
  case (Del key v)
  show ?thesis
    unfolding Del run_request.simps is_dump_def mongo_req.case
    by (rule mongo_remove.threw_run [OF assms, unfolded mongo_remove.threw_def])
qed

text \<open>The state after a part of a session: \<open>thrown\<close> says which requests have thrown.\<close>

definition pool_after :: "mongo \<Rightarrow> mongo_req list \<Rightarrow> bool list \<Rightarrow> mongo \<Rightarrow> bool" where
  "pool_after m0 rs thrown m \<longleftrightarrow> length thrown = length rs \<and> map fst (connlst m) = map fst (connlst m0)
     \<and> m_sem m = length (filter (Not \<circ> snd) (connlst m)) \<and> m_sem m + length (filter id thrown) = m_sem m0
     \<and> m_db_mutex m = (m_db_mutex m0 \<or> (\<exists>(r, b) \<in> set (zip rs thrown). is_dump r \<and> b))"

lemma run_session_law:
  assumes "pool_ok m0"
  shows "case run_session e rs m0 of
     Inr (thrown, m) \<Rightarrow> pool_after m0 rs thrown m \<and> (driver_fine e \<longrightarrow> filter id thrown = [] \<and> connlst m = connlst m0)
   | Inl f \<Rightarrow> \<exists>rs1 r rs2 thrown m. rs = rs1 @ r # rs2 \<and> run_session e rs1 m0 = Inr (thrown, m) \<and> pool_after m0 rs1 thrown m
       \<and> stuck (driver_fine e) (is_dump r) m f \<and> (driver_fine e \<longrightarrow> filter id thrown = [])"
  using assms
proof (induction rs arbitrary: m0)
  case Nil
  then show ?case by (simp add: ret_def pool_after_def pool_ok_def free_def)
next
  case (Cons r rs)
  note law = run_request_law [OF Cons.prems, of e r]
  show ?case
  proof (cases "run_request e r m0")
    case (Inl f)
    then have "run_session e (r # rs) m0 = Inl f" by (simp add: bnd_def)
    moreover have "\<exists>rs1 r' rs2 thrown m. r # rs = rs1 @ r' # rs2 \<and> run_session e rs1 m0 = Inr (thrown, m) \<and> pool_after m0 rs1 thrown m
       \<and> stuck (driver_fine e) (is_dump r') m f \<and> (driver_fine e \<longrightarrow> filter id thrown = [])"
      using law Inl Cons.prems
      by (intro exI [of _ "[]"] exI [of _ r] exI [of _ rs] exI [of _ "[]"] exI [of _ m0])
        (simp add: ret_def pool_after_def pool_ok_def free_def)
    ultimately show ?thesis by simp
  next
    case (Inr z)
    then obtain b m1 where z: "run_request e r m0 = Inr (b, m1)" by (cases z) auto
    then obtain x where k: "b = (x = None)" "kept (driver_fine e) (is_dump r) m0 x m1" using law by auto
    have ok: "pool_ok m1" using k(2) by (simp add: kept_def)
    have after: "pool_after m0 (r # us) (b # thrown) m" if "pool_after m1 us thrown m" for us thrown m
      using that k by (auto simp: pool_after_def kept_def)
    have fine: "driver_fine e \<Longrightarrow> \<not> b \<and> connlst m1 = connlst m0" using k by (auto simp: kept_def)
    show ?thesis
    proof (cases "run_session e rs m1")
      case (Inr y)
      obtain bs m where y: "y = (bs, m)" by (cases y)
      then show ?thesis using Cons.IH [OF ok] Inr z after fine by (auto simp: bnd_def ret_def)
    next
      case (Inl f)
      then obtain rs1 r' rs2 bs m where *: "rs = rs1 @ r' # rs2" "run_session e rs1 m1 = Inr (bs, m)" "pool_after m1 rs1 bs m"
         "stuck (driver_fine e) (is_dump r') m f" "driver_fine e \<longrightarrow> filter id bs = []"
        using Cons.IH [OF ok] by auto
      have "run_session e (r # rs) m0 = Inl f" using Inl z by (simp add: bnd_def)
      moreover have "run_session e (r # rs1) m0 = Inr (b # bs, m)" using *(2) z by (simp add: bnd_def ret_def)
      ultimately show ?thesis
        using * after [OF *(3)] fine
        by simp (intro exI [of _ "r # rs1"] exI [of _ r'] exI [of _ rs2] exI [of _ "b # bs"] exI [of _ m], simp)
    qed
  qed
qed

lemma new_conns: "smap_inv (connlst (Mongodb_new alloc junk n))" "\<forall>b \<in> snd ` set (connlst (Mongodb_new alloc junk n)). \<not> b"
proof -
  have vals: "snd ` set (smap_set k v m) \<subseteq> insert v (snd ` set m)" for k :: ptr and v :: bool and m
    by (induction k v m rule: smap_set.induct) auto
  have "smap_inv (fold (\<lambda>i. smap_set (alloc i) False) xs m) \<and>
      (\<forall>b \<in> snd ` set (fold (\<lambda>i. smap_set (alloc i) False) xs m). \<not> b)"
    if "smap_inv m" "\<forall>b \<in> snd ` set m. \<not> b" for xs and m :: "(ptr, bool) smap"
    using that
  proof (induction xs arbitrary: m)
    case (Cons x xs)
    from vals [of "alloc x" False m] Cons.prems(2) have "\<forall>b \<in> snd ` set (smap_set (alloc x) False m). \<not> b" by auto
    then show ?case using Cons.IH [of "smap_set (alloc x) False m"] Cons.prems(1) by simp
  qed simp
  from this [of "[]"] show "smap_inv (connlst (Mongodb_new alloc junk n))"
    "\<forall>b \<in> snd ` set (connlst (Mongodb_new alloc junk n)). \<not> b"
    by (simp_all add: Mongodb_new_def Let_def)
qed

lemma new_conns_nonempty: "n \<noteq> 0 \<Longrightarrow> connlst (Mongodb_new alloc junk n) \<noteq> []"
proof -
  have ne: "fold (\<lambda>i. smap_set (alloc i) False) xs m \<noteq> []" if "m \<noteq> [] \<or> xs \<noteq> []" for xs and m :: "(ptr, bool) smap"
    using that
  proof (induction xs arbitrary: m)
    case (Cons x xs)
    have "smap_set (alloc x) False m \<noteq> []" by (cases m) (auto split: if_splits)
    then show ?case using Cons.IH by simp
  qed simp
  assume "n \<noteq> 0"
  then show ?thesis by (auto simp: Mongodb_new_def Let_def intro!: ne)
qed

lemma first_free_all: "\<forall>b \<in> snd ` set m. \<not> b \<Longrightarrow> first_free m = None \<longleftrightarrow> m = []"
  by (induction m rule: first_free.induct) auto

lemma first_free_none: "\<forall>b \<in> snd ` set m. b \<Longrightarrow> first_free m = None"
  by (induction m rule: first_free.induct) auto

text \<open>C28: After the store was created with some connections and all of them could be opened, consider any
  sequence of requests of a caller that catches what the driver throws.  A request that throws costs a connection, which stays
  marked as used, and one count of the semaphore; all other requests give back what they took: the semaphore always counts the
  free connections, which are those the store was created with less one for every exception.  A session that does not
  run to its end waits for ever, because all connections have been lost or because a dump needs the
  mutex that is never initialised and that an exception in an earlier dump leaves locked; or it follows the missing cursor of a failed query.
  With a driver that never fails, and a mutex that happens to be free, every session ends, with all connections as they were.\<close>

theorem mongo_session:
  fixes alloc :: "nat \<Rightarrow> ptr" and junk :: bool
  assumes "n \<noteq> 0" "\<forall>c. conn_ok e c"
  defines "m0 \<equiv> Mongodb_new alloc junk n"
  shows "(case sq (Mongodb_connect e) (run_session e rs) m0 of
      Inr (thrown, m) \<Rightarrow> pool_after (m0\<lparr>m_sem := length (connlst m0)\<rparr>) rs thrown m
    | Inl f \<Rightarrow> \<exists>rs1 r rs2 thrown m. rs = rs1 @ r # rs2 \<and> sq (Mongodb_connect e) (run_session e rs1) m0 = Inr (thrown, m)
        \<and> pool_after (m0\<lparr>m_sem := length (connlst m0)\<rparr>) rs1 thrown m
        \<and> (f = Blocked \<and> (length (filter id thrown) = length (connlst m0) \<or> is_dump r \<and> m_db_mutex m) \<or> f = NullDeref \<and> is_dump r))
    \<and> (driver_fine e \<and> \<not> junk \<longrightarrow> wp (sq (Mongodb_connect e) (run_session e rs)) (\<lambda>thrown m. filter id thrown = []
        \<and> connlst m = connlst m0 \<and> m_sem m = length (connlst m) \<and> (\<forall>b \<in> snd ` set (connlst m). \<not> b)) m0)"
proof -
  let ?m = "m0\<lparr>m_sem := length (connlst m0)\<rparr>"
  have "map (\<lambda>(c, b). (c, if conn_ok e c then b else True)) (connlst m0) = connlst m0"
    using assms(2) by (simp add: map_idI split_beta)
  moreover have "m_sem m0 = 0" by (simp add: m0_def Mongodb_new_def Let_def)
  ultimately have run: "sq (Mongodb_connect e) (run_session e us) m0 = run_session e us ?m" for us
    by (simp add: Mongodb_connect_def sq_def bnd_def modify_def ret_def)
  have all: "filter (Not \<circ> snd) (connlst m0) = connlst m0"
    using new_conns(2) [of alloc junk n] by (auto simp: m0_def intro: filter_True)
  have ok: "pool_ok ?m" using new_conns(1) [of alloc junk n] all by (simp add: pool_ok_def free_def m0_def)
  have free: "\<forall>b \<in> snd ` set (connlst m0). \<not> b" using new_conns(2) [of alloc junk n] by (simp add: m0_def)
  have nz: "0 < length (connlst m0)" using new_conns_nonempty [OF assms(1), of alloc junk] by (simp add: m0_def)
  have mutex: "m_db_mutex ?m = junk" by (simp add: m0_def Mongodb_new_def Let_def)
  note law = run_session_law [OF ok, where e = e and rs = rs]
  show ?thesis
  proof (cases "run_session e rs ?m")
    case (Inr y)
    then obtain thrown m where y: "run_session e rs ?m = Inr (thrown, m)" by (cases y) auto
    have "pool_after ?m rs thrown m" "driver_fine e \<Longrightarrow> filter id thrown = [] \<and> connlst m = connlst m0"
      using law by (simp_all add: y)
    moreover have "sq (Mongodb_connect e) (run_session e rs) m0 = Inr (thrown, m)" by (simp add: run y)
    ultimately show ?thesis using free by (simp add: wp_def pool_after_def)
  next
    case (Inl f)
    then obtain rs1 r rs2 thrown m where *: "rs = rs1 @ r # rs2" "run_session e rs1 ?m = Inr (thrown, m)" "pool_after ?m rs1 thrown m"
       "stuck (driver_fine e) (is_dump r) m f" "driver_fine e \<longrightarrow> filter id thrown = []"
      using law by auto
    have "\<not> (driver_fine e \<and> \<not> junk)"
    proof
      assume fine: "driver_fine e \<and> \<not> junk"
      then have none: "\<not> b" if "b \<in> set thrown" for b using *(5) that by (auto simp: filter_empty_conv)
      have "\<not> m_db_mutex m" using *(3) fine mutex none by (auto simp: pool_after_def dest: set_zip_rightD)
      then show False using *(3-5) fine nz by (auto simp: stuck_def pool_after_def)
    qed
    moreover have "f = Blocked \<and> (length (filter id thrown) = length (connlst m0) \<or> is_dump r \<and> m_db_mutex m) \<or> f = NullDeref \<and> is_dump r"
      using *(3,4) by (auto simp: stuck_def pool_after_def)
    moreover have "sq (Mongodb_connect e) (run_session e rs1) m0 = Inr (thrown, m)"
      "sq (Mongodb_connect e) (run_session e rs) m0 = Inl f" by (simp_all only: run *(2) Inl)
    ultimately show ?thesis using *(1,3) by (simp only: sum.case) blast
  qed
qed

text \<open>A server whose first answer is an exception.\<close>

definition sample_mongo :: mongo_env where
  "sample_mongo = \<lparr>conn_ok = (\<lambda>_. True), ensureIndex = (\<lambda>_ _ _. Some ()), findOne = (\<lambda>i _ _ _. if i = 0 then None else Some (\<lambda>_. [])),
     find_all = (\<lambda>_ _ _. Cursor [] False), update = (\<lambda>_ _ _ _. Some ()), getLastError = (\<lambda>_. Some []), remove = (\<lambda>_ _ _. Some ())\<rparr>"

theorem mongo_session_witness:
  "\<exists>m. sq (Mongodb_connect sample_mongo) (run_session sample_mongo [Get [''a''] ''k'' ''v'', Dumpkey ''k'' [], Get [''a''] ''k'' ''v''])
      (Mongodb_new Suc False 2) = Inr ([True, False, False], m) \<and> m_sem m = 1 \<and> length (filter (Not \<circ> snd) (connlst m)) = 1"
proof -
  let ?rs = "[Get [''a''] ''k'' ''v'', Dumpkey ''k'' [], Get [''a''] ''k'' ''v'']"
  have new: "Mongodb_new Suc False 2 = \<lparr>m_doc_db = ''localhost.unix'', wr_timeout = 3, m_sem = 0,
      connlst = [(1, False), (2, False)], m_db_mutex = False, sent_cmds = [], calls = 0\<rparr>"
    by (simp add: Mongodb_new_def Let_def numeral_2_eq_2)
  obtain m where run: "sq (Mongodb_connect sample_mongo) (run_session sample_mongo ?rs) (Mongodb_new Suc False 2) = Inr ([True, False, False], m)"
    by (simp add: new sample_mongo_def Mongodb_connect_def Mongodb_get_def Mongodb_dumpkey_def with_conn_def sem_wait_def take_conn_def
        use_conn_def give_conn_def sem_post_def dump_def lock_db_def unlock_db_def call_def sq_def bnd_def gets_def modify_def
        check_def ret_def)
  have "pool_after ((Mongodb_new Suc False 2)\<lparr>m_sem := length (connlst (Mongodb_new Suc False 2))\<rparr>) ?rs [True, False, False] m"
    using mongo_session [where n = 2 and e = sample_mongo and alloc = Suc and junk = False and rs = ?rs] run by (simp add: sample_mongo_def)
  then show ?thesis using run by (auto simp: pool_after_def new)
qed

text \<open>When no connection could be opened, \<open>connect\<close> still reports success and counts all of them as
  free: the next request passes the semaphore, finds no connection and uses the end of the map.\<close>

theorem mongo_connect_failed:
  assumes "n \<noteq> 0" "\<forall>c. \<not> conn_ok e c" "ins \<noteq> []" "key \<noteq> []" "v \<noteq> []"
  shows "\<exists>m. Mongodb_connect e (Mongodb_new alloc junk n) = Inr (MSUCCESS, m) \<and> 0 < m_sem m \<and>
    Mongodb_get e ins key v m = Inl DanglingPtr"
proof -
  let ?c = "connlst (Mongodb_new alloc junk n)"
  have none: "first_free (map (\<lambda>(c, b). (c, if conn_ok e c then b else True)) ?c) = None"
    using assms(2) by (simp add: first_free_some filter_empty_conv split_beta)
  show ?thesis
    using assms(3-5) new_conns_nonempty [OF assms(1), of alloc]
    by (simp add: Mongodb_connect_def Mongodb_get_def with_conn_def sem_wait_def take_conn_def use_conn_def
        bnd_def sq_def modify_def gets_def ret_def check_def fail_def none o_def)
qed

end
