(* ===== verification/ThreadPool.thy ===== *)
theory ThreadPool
  imports Buffers
begin

text \<open>
  \<open>ThreadPool.cpp\<close>: worker threads that take tasks from one queue.  The state holds the members of
  the class and, for every thread, where it is in \<open>ThreadPool::thread\<close>; \<open>deleted\<close> records the
  tasks that were released (\<open>autorelease\<close> is never switched off).  Each operation is one atomic
  access to the shared state; what the threads do between them interleaves freely.
\<close>

type_synonym tid = nat
type_synonym tptr = nat

text \<open>\<open>Loop\<close> is the test of \<open>state_\<close>, \<open>Polling\<close> the \<open>dequeue\<close>, \<open>Taken\<close> before and \<open>Finished\<close> after
  the work, \<open>Leaving\<close> after the loop.\<close>

datatype tpc = Absent | Loop | Polling | Taken tptr | Working tptr | Finished tptr | Releasing tptr | Leaving | Exited

record tpool =
  m_threads :: "tid list"
  TaskQueue :: "tptr list"
  pool_state :: int
  m_free :: int
  pc :: "tid \<Rightarrow> tpc"
  deleted :: "tptr list"

definition ThreadPool_new :: tpool where
  "ThreadPool_new = \<lparr>m_threads = [], TaskQueue = [], pool_state = 0, m_free = 0, pc = (\<lambda>_. Absent), deleted = []\<rparr>"

section \<open>Operations\<close>

text \<open>\<open>start\<close> runs before anybody else uses the pool: the ids come from \<open>pthread_create\<close>.\<close>

definition create_thread :: "tid \<Rightarrow> tpool \<Rightarrow> tpool" where
  "create_thread t s = s\<lparr>m_threads := m_threads s @ [t], pc := (pc s)(t := Loop)\<rparr>"

definition ThreadPool_start :: "tid list \<Rightarrow> tpool \<Rightarrow> tpool" where
  "ThreadPool_start tids s = fold create_thread tids (s\<lparr>pool_state := 1\<rparr>)"

definition push_task :: "tptr \<Rightarrow> tpool \<Rightarrow> tpool" where
  "push_task p s = s\<lparr>TaskQueue := QueueT_enqueue p (TaskQueue s)\<rparr>"

definition getcount :: "tpool \<Rightarrow> nat" where
  "getcount s = length (m_threads s)"

text \<open>\<open>stop\<close> clears the flag and then waits until the list of threads is empty.\<close>

definition stop_flag :: "tpool \<Rightarrow> tpool" where
  "stop_flag s = s\<lparr>pool_state := 0\<rparr>"

definition stop_returns :: "tpool \<Rightarrow> bool" where
  "stop_returns s \<longleftrightarrow> getcount s = 0"

text \<open>\<open>kill\<close> signals every thread, whose handler ends it wherever it is.\<close>

definition kill_thread :: "tid \<Rightarrow> tpool \<Rightarrow> tpool" where
  "kill_thread t s = s\<lparr>m_threads := tl (m_threads s), pc := (pc s)(t := Exited)\<rparr>"

definition ThreadPool_kill :: "tpool \<Rightarrow> tpool" where
  "ThreadPool_kill s = fold kill_thread (m_threads s) s"

section \<open>The worker\<close>

text \<open>The steps of one thread; \<open>answer\<close> says whether \<open>dequeue\<close> delivers or times out.\<close>

definition thread_test :: "tid \<Rightarrow> tpool \<Rightarrow> tpool" where
  "thread_test t s = s\<lparr>pc := (pc s)(t := (if pool_state s \<noteq> 0 then Polling else Leaving))\<rparr>"

definition thread_timeout :: "tid \<Rightarrow> tpool \<Rightarrow> tpool" where
  "thread_timeout t s = s\<lparr>pc := (pc s)(t := Loop)\<rparr>"

definition thread_dequeue :: "tid \<Rightarrow> tpool \<Rightarrow> tpool" where
  "thread_dequeue t s = (case QueueT_dequeue (TaskQueue s) of
     None \<Rightarrow> s
   | Some (x, q) \<Rightarrow> s\<lparr>TaskQueue := q, pc := (pc s)(t := (if x = 0 then Loop else Taken x))\<rparr>)"

definition thread_begin :: "tid \<Rightarrow> tptr \<Rightarrow> tpool \<Rightarrow> tpool" where
  "thread_begin t x s = s\<lparr>m_free := m_free s + 1, pc := (pc s)(t := Working x)\<rparr>"

definition thread_work :: "tid \<Rightarrow> tptr \<Rightarrow> tpool \<Rightarrow> tpool" where
  "thread_work t x s = s\<lparr>pc := (pc s)(t := Finished x)\<rparr>"

definition thread_end :: "tid \<Rightarrow> tptr \<Rightarrow> tpool \<Rightarrow> tpool" where
  "thread_end t x s = s\<lparr>m_free := m_free s - 1, pc := (pc s)(t := Releasing x)\<rparr>"

definition thread_release :: "tid \<Rightarrow> tptr \<Rightarrow> tpool \<Rightarrow> tpool" where
  "thread_release t x s = s\<lparr>deleted := deleted s @ [x], pc := (pc s)(t := Loop)\<rparr>"

definition thread_exit :: "tid \<Rightarrow> tpool \<Rightarrow> tpool" where
  "thread_exit t s = s\<lparr>m_threads := filter (\<lambda>u. u \<noteq> t) (m_threads s), pc := (pc s)(t := Exited)\<rparr>"

text \<open>A step is labelled with the task it pushes, if it pushes one.\<close>

inductive tp_step :: "tpool \<Rightarrow> tptr option \<Rightarrow> tpool \<Rightarrow> bool" where
  push: "tp_step s (Some p) (push_task p s)"
| stop: "tp_step s None (stop_flag s)"
| test: "pc s t = Loop \<Longrightarrow> tp_step s None (thread_test t s)"
| timeout: "pc s t = Polling \<Longrightarrow> tp_step s None (thread_timeout t s)"
| dequeue: "pc s t = Polling \<Longrightarrow> TaskQueue s \<noteq> [] \<Longrightarrow> tp_step s None (thread_dequeue t s)"
| begin_work: "pc s t = Taken x \<Longrightarrow> tp_step s None (thread_begin t x s)"
| work: "pc s t = Working x \<Longrightarrow> tp_step s None (thread_work t x s)"
| end_work: "pc s t = Finished x \<Longrightarrow> tp_step s None (thread_end t x s)"
| release: "pc s t = Releasing x \<Longrightarrow> tp_step s None (thread_release t x s)"
| leave: "pc s t = Leaving \<Longrightarrow> tp_step s None (thread_exit t s)"

text \<open>The states reached from \<open>s0\<close>, with the tasks pushed on the way.\<close>

inductive tp_run :: "tpool \<Rightarrow> tpool \<Rightarrow> tptr list \<Rightarrow> bool" for s0 where
  init: "tp_run s0 s0 []"
| step: "tp_run s0 s ps \<Longrightarrow> tp_step s e s' \<Longrightarrow> tp_run s0 s' (ps @ (case e of None \<Rightarrow> [] | Some p \<Rightarrow> [p]))"

section \<open>Invariant\<close>

text \<open>The task in the hands of a thread, and whether the thread counts in \<open>free_\<close>.\<close>

fun held_task :: "tpc \<Rightarrow> tptr multiset" where
  "held_task (Taken x) = {#x#}"
| "held_task (Working x) = {#x#}"
| "held_task (Finished x) = {#x#}"
| "held_task (Releasing x) = {#x#}"
| "held_task _ = {#}"

fun busy :: "tpc \<Rightarrow> int" where
  "busy (Working x) = 1"
| "busy (Finished x) = 1"
| "busy _ = 0"

definition tasks_of :: "tptr list \<Rightarrow> tptr multiset" where
  "tasks_of ps = mset (filter (\<lambda>p. p \<noteq> 0) ps)"

definition tp_inv :: "tid set \<Rightarrow> tpool \<Rightarrow> tptr list \<Rightarrow> bool" where
  "tp_inv T s ps \<longleftrightarrow>
     (\<forall>t. pc s t \<noteq> Absent \<longrightarrow> t \<in> T) \<and>
     distinct (m_threads s) \<and> set (m_threads s) = {t. pc s t \<noteq> Absent \<and> pc s t \<noteq> Exited} \<and>
     m_free s = (\<Sum>t\<in>T. busy (pc s t)) \<and>
     tasks_of ps = tasks_of (TaskQueue s) + (\<Sum>t\<in>T. held_task (pc s t)) + mset (deleted s)"

lemma sum_upd:
  fixes f :: "'b \<Rightarrow> 'c :: comm_monoid_add"
  assumes "finite T" "t \<in> T"
  shows "(\<Sum>x\<in>T. f ((g(t := v)) x)) + f (g t) = (\<Sum>x\<in>T. f (g x)) + f v"
proof -
  have "(\<Sum>x\<in>T - {t}. f ((g(t := v)) x)) = (\<Sum>x\<in>T - {t}. f (g x))" by (rule sum.cong) auto
  then show ?thesis
    using sum.remove [OF assms, of "\<lambda>x. f ((g(t := v)) x)"] sum.remove [OF assms, of "\<lambda>x. f (g x)"]
    by (simp add: ac_simps)
qed

lemma tp_inv_move:
  assumes "tp_inv T s ps" "finite T" "pc s t \<noteq> Absent" "pc s t \<noteq> Exited" "v \<noteq> Absent"
    and "pc s' = (pc s)(t := v)" "m_threads s' = (if v = Exited then filter (\<lambda>u. u \<noteq> t) (m_threads s) else m_threads s)"
    and "m_free s' - busy v = m_free s - busy (pc s t)"
    and "tasks_of (TaskQueue s') + held_task v + mset (deleted s') =
      tasks_of (TaskQueue s) + held_task (pc s t) + mset (deleted s)"
  shows "tp_inv T s' ps"
proof -
  have t: "t \<in> T" using assms(1,3) by (simp add: tp_inv_def)
  have b: "(\<Sum>x\<in>T. busy (pc s' x)) + busy (pc s t) = (\<Sum>x\<in>T. busy (pc s x)) + busy v"
    unfolding assms(6) by (rule sum_upd [OF assms(2) t])
  have h: "(\<Sum>x\<in>T. held_task (pc s' x)) + held_task (pc s t) = (\<Sum>x\<in>T. held_task (pc s x)) + held_task v"
    unfolding assms(6) by (rule sum_upd [OF assms(2) t])
  have "m_free s' = (\<Sum>x\<in>T. busy (pc s' x))"
    using b assms(1,8) by (simp add: tp_inv_def)
  moreover have "tasks_of ps = tasks_of (TaskQueue s') + (\<Sum>t\<in>T. held_task (pc s' t)) + mset (deleted s')"
  proof -
    let ?h = "held_task (pc s t) + held_task v"
    have "tasks_of (TaskQueue s') + (\<Sum>t\<in>T. held_task (pc s' t)) + mset (deleted s') + ?h =
      (tasks_of (TaskQueue s') + held_task v + mset (deleted s')) + ((\<Sum>t\<in>T. held_task (pc s' t)) + held_task (pc s t))"
      by (simp add: ac_simps)
    also have "\<dots> = (tasks_of (TaskQueue s) + held_task (pc s t) + mset (deleted s)) +
      ((\<Sum>t\<in>T. held_task (pc s t)) + held_task v)" by (simp only: h assms(9))
    also have "\<dots> = tasks_of ps + ?h"
      using assms(1) by (simp add: tp_inv_def ac_simps)
    finally show ?thesis by (metis add_right_cancel)
  qed
  moreover have "distinct (m_threads s')" "set (m_threads s') = {u. pc s' u \<noteq> Absent \<and> pc s' u \<noteq> Exited}"
    using assms(1,3-7) by (auto simp: tp_inv_def)
  moreover have "\<forall>u. pc s' u \<noteq> Absent \<longrightarrow> u \<in> T"
    using assms(1,6) t by (auto simp: tp_inv_def)
  ultimately show ?thesis unfolding tp_inv_def by blast
qed

lemma tp_inv_push: "tp_inv T s ps \<Longrightarrow> tp_inv T (push_task p s) (ps @ [p])"
  by (auto simp: tp_inv_def push_task_def qt.items_enq tasks_of_def)

lemma tp_inv_stop: "tp_inv T s ps \<Longrightarrow> tp_inv T (stop_flag s) ps"
  by (simp add: tp_inv_def stop_flag_def)

lemma tp_inv_step:
  assumes "tp_inv T s ps" "finite T" "tp_step s e s'"
  shows "tp_inv T s' (ps @ (case e of None \<Rightarrow> [] | Some p \<Rightarrow> [p]))"
  using assms(3)
proof cases
  case (dequeue t)
  then obtain x q where "TaskQueue s = x # q" by (cases "TaskQueue s") auto
  with dequeue have "tp_inv T s' ps"
    by (intro tp_inv_move [OF assms(1,2), of t "if x = 0 then Loop else Taken x"])
      (auto simp: thread_dequeue_def QueueT_dequeue_def tasks_of_def)
  with dequeue show ?thesis by simp
next
  case (test t)
  then have "tp_inv T s' ps"
    by (intro tp_inv_move [OF assms(1,2), of t "if pool_state s \<noteq> 0 then Polling else Leaving"]) (auto simp: thread_test_def)
  with test show ?thesis by simp
next
  case (timeout t)
  then have "tp_inv T s' ps"
    by (intro tp_inv_move [OF assms(1,2), of t Loop]) (auto simp: thread_timeout_def)
  with timeout show ?thesis by simp
next
  case (begin_work t x)
  then have "tp_inv T s' ps"
    by (intro tp_inv_move [OF assms(1,2), of t "Working x"]) (auto simp: thread_begin_def)
  with begin_work show ?thesis by simp
next
  case (work t x)
  then have "tp_inv T s' ps"
    by (intro tp_inv_move [OF assms(1,2), of t "Finished x"]) (auto simp: thread_work_def)
  with work show ?thesis by simp
next
  case (end_work t x)
  then have "tp_inv T s' ps"
    by (intro tp_inv_move [OF assms(1,2), of t "Releasing x"]) (auto simp: thread_end_def)
  with end_work show ?thesis by simp
next
  case (release t x)
  then have "tp_inv T s' ps"
    by (intro tp_inv_move [OF assms(1,2), of t Loop]) (auto simp: thread_release_def)
  with release show ?thesis by simp
next
  case (leave t)
  then have "tp_inv T s' ps"
    by (intro tp_inv_move [OF assms(1,2), of t Exited]) (auto simp: thread_exit_def)
  with leave show ?thesis by simp
qed (use assms(1) in \<open>simp_all add: tp_inv_push tp_inv_stop\<close>)

lemma tp_inv_run: "tp_run s0 s ps \<Longrightarrow> tp_inv T s0 [] \<Longrightarrow> finite T \<Longrightarrow> tp_inv T s ps"
  by (induction rule: tp_run.induct) (auto dest: tp_inv_step)

lemma start_state:
  "distinct tids \<Longrightarrow> ThreadPool_start tids ThreadPool_new =
     ThreadPool_new\<lparr>pool_state := 1, m_threads := tids, pc := (\<lambda>t. if t \<in> set tids then Loop else Absent)\<rparr>"
proof -
  have "fold create_thread tids s = s\<lparr>m_threads := m_threads s @ tids, pc := (\<lambda>t. if t \<in> set tids then Loop else pc s t)\<rparr>" for s
    by (induction tids arbitrary: s) (auto simp: create_thread_def fun_eq_iff)
  then show ?thesis by (simp add: ThreadPool_start_def ThreadPool_new_def fun_eq_iff)
qed

lemma tp_inv_start: "distinct tids \<Longrightarrow> tp_inv (set tids) (ThreadPool_start tids ThreadPool_new) []"
  unfolding tp_inv_def start_state by (auto simp: start_state ThreadPool_new_def tasks_of_def)

text \<open>C22: The thread pool loses no task and runs none twice: after any interleaving of its threads with pushes and
  a stop, every task that was pushed is in exactly one place: still queued, in the hands of one
  thread, or released; the list of threads holds exactly the live ones, without duplicates, and \<open>free_\<close>
  counts the threads that are \<^emph>\<open>working\<close>.\<close>

theorem thread_pool_tasks:
  assumes "tp_run (ThreadPool_start tids ThreadPool_new) s ps" "distinct tids"
  shows "tasks_of ps = tasks_of (TaskQueue s) + (\<Sum>t\<in>set tids. held_task (pc s t)) + mset (deleted s) \<and>
    m_free s = (\<Sum>t\<in>set tids. busy (pc s t)) \<and>
    distinct (m_threads s) \<and> set (m_threads s) = {t. pc s t \<noteq> Absent \<and> pc s t \<noteq> Exited}"
  using tp_inv_run [OF assms(1) tp_inv_start [OF assms(2)]] by (simp add: tp_inv_def)

text \<open>One worker takes the only task.\<close>

lemma thread_pool_tasks_witness:
  "\<exists>s :: tpool. pc s 7 = Taken 9 \<and> tasks_of [9] = tasks_of (TaskQueue s) + (\<Sum>t\<in>set [7]. held_task (pc s t)) + mset (deleted s)"
proof -
  define s0 where "s0 = ThreadPool_start [7] ThreadPool_new"
  have s0: "pool_state s0 = 1" "TaskQueue s0 = []" "pc s0 7 = Loop"
    by (simp_all add: s0_def start_state) (simp_all add: ThreadPool_new_def)
  let ?s1 = "push_task 9 s0"
  let ?s2 = "thread_test 7 ?s1"
  let ?s3 = "thread_dequeue 7 ?s2"
  have "tp_run s0 s0 []" by (rule tp_run.init)
  then have "tp_run s0 ?s1 [9]" using tp_run.step [OF _ tp_step.push, of s0 s0 "[]" 9] by simp
  then have "tp_run s0 ?s2 [9]"
    using tp_run.step [OF _ tp_step.test [of ?s1 7], of s0 "[9]"] s0 by (simp add: push_task_def)
  then have run: "tp_run s0 ?s3 [9]"
    using tp_run.step [OF _ tp_step.dequeue [of ?s2 7], of s0 "[9]"] s0
    by (simp add: push_task_def thread_test_def QueueT_enqueue_def)
  have "pc ?s3 7 = Taken 9"
    using s0 by (simp add: push_task_def thread_test_def thread_dequeue_def QueueT_enqueue_def QueueT_dequeue_def)
  moreover have "tasks_of [9] = tasks_of (TaskQueue ?s3) + (\<Sum>t\<in>set [7]. held_task (pc ?s3 t)) + mset (deleted ?s3)"
    unfolding s0_def by (rule thread_pool_tasks [OF run [unfolded s0_def], THEN conjunct1]) simp
  ultimately show ?thesis by blast
qed

text \<open>A task whose work never returns keeps its thread in the list, so \<open>stop\<close> cannot return.\<close>

lemma working_blocks_stop:
  assumes "tp_run (ThreadPool_start tids ThreadPool_new) s ps" "distinct tids" "pc s t = Working x"
  shows "\<not> stop_returns s"
proof -
  have "t \<in> set (m_threads s)"
    using tp_inv_run [OF assms(1) tp_inv_start [OF assms(2)]] assms(3) by (simp add: tp_inv_def)
  then show ?thesis by (auto simp: stop_returns_def getcount_def)
qed

end
