(* ===== verification/Startup.thy ===== *)
theory Startup
  imports ThreadPool Auth
begin

text \<open>
  Starting the server: \<open>Config.cpp\<close>, the connection of \<open>database.cpp\<close>, the cache of
  \<open>memcached.cpp\<close>, and \<open>ProcessManager.cpp\<close> with its lock file and command line.  Everything
  outside the program (the Lua file, the kernel's answers, also to \<open>Confirm\<close> of \<open>Auth\<close>, and MySQL) is the record
  \<open>host\<close>; what the process does is kept as a list of \<open>event\<close>s.
\<close>

text \<open>The singletons are created at their first use.\<close>

definition singleton :: "'a \<Rightarrow> 'a option \<Rightarrow> 'a \<times> 'a option" where
  "singleton new p = (case p of None \<Rightarrow> (new, Some new) | Some x \<Rightarrow> (x, Some x))"

section \<open>Configuration\<close>

text \<open>\<open>lua_tostring\<close> gives \<open>NULL\<close> for what is neither a string nor a number.\<close>

record lua =
  loadfile_ok :: bool
  pcall_ok :: bool
  lua_tostring :: "string \<Rightarrow> string option"
  lua_tointeger :: "string \<Rightarrow> int"

record Config =
  db_host :: string
  db_username :: string
  db_password :: string
  db_database :: string
  server_ip :: string
  username :: string
  passwd :: string
  server_port :: int
  school_id :: int
  game_count :: int

text \<open>The integers of a new object are whatever the memory holds.\<close>

definition Config_new :: "int \<Rightarrow> int \<Rightarrow> int \<Rightarrow> Config" where
  "Config_new g0 g1 g2 = \<lparr>db_host = [], db_username = [], db_password = [], db_database = [], server_ip = [],
     username = [], passwd = [], server_port = g0, school_id = g1, game_count = g2\<rparr>"

definition Config_instance :: "int \<Rightarrow> int \<Rightarrow> int \<Rightarrow> Config option \<Rightarrow> Config \<times> Config option" where
  "Config_instance g0 g1 g2 = singleton (Config_new g0 g1 g2)"

definition to_int32 :: "int \<Rightarrow> int" where
  "to_int32 n = sint (word_of_int n :: 32 word)"

text \<open>Assigning \<open>NULL\<close> to a \<open>std::string\<close> ends the program.\<close>

definition set_string :: "lua \<Rightarrow> string \<Rightarrow> (string \<Rightarrow> Config \<Rightarrow> Config) \<Rightarrow> (Config, unit) prog" where
  "set_string l name upd = (case lua_tostring l name of None \<Rightarrow> fail NullDeref | Some v \<Rightarrow> modify (upd v))"

definition set_int :: "lua \<Rightarrow> string \<Rightarrow> (int \<Rightarrow> Config \<Rightarrow> Config) \<Rightarrow> (Config, unit) prog" where
  "set_int l name upd = modify (upd (to_int32 (lua_tointeger l name)))"

definition readconfig :: "lua \<Rightarrow> (Config, unit) prog" where
  "readconfig l =
     (if \<not> loadfile_ok l then ret () else
      if \<not> pcall_ok l then ret () else
      sq (set_string l ''db_host'' (\<lambda>v. db_host_update (\<lambda>_. v)))
     (sq (set_string l ''db_username'' (\<lambda>v. db_username_update (\<lambda>_. v)))
     (sq (set_string l ''db_password'' (\<lambda>v. db_password_update (\<lambda>_. v)))
     (sq (set_string l ''db_database'' (\<lambda>v. db_database_update (\<lambda>_. v)))
     (sq (set_string l ''server_ip'' (\<lambda>v. server_ip_update (\<lambda>_. v)))
     (sq (set_string l ''username'' (\<lambda>v. username_update (\<lambda>_. v)))
     (sq (set_string l ''password'' (\<lambda>v. passwd_update (\<lambda>_. v)))
     (sq (set_int l ''server_port'' (\<lambda>v. server_port_update (\<lambda>_. v)))
     (sq (set_int l ''school_id'' (\<lambda>v. school_id_update (\<lambda>_. v)))
         (set_int l ''game_count'' (\<lambda>v. game_count_update (\<lambda>_. v))))))))))))"

section \<open>Database connection\<close>

record 'c DataBase =
  m_pConn :: "'c option"
  m_host :: string
  m_user_name :: string
  m_password :: string
  m_database :: string

definition DataBase_new :: "'c DataBase" where
  "DataBase_new = \<lparr>m_pConn = None, m_host = [], m_user_name = [], m_password = [], m_database = []\<rparr>"

definition DataBase_instance :: "'c DataBase option \<Rightarrow> 'c DataBase \<times> 'c DataBase option" where
  "DataBase_instance = singleton DataBase_new"

text \<open>\<open>connect\<close> and \<open>setSchema\<close> throw or succeed; both exceptions are caught.\<close>

definition DataBase_Init ::
  "(string \<Rightarrow> string \<Rightarrow> string \<Rightarrow> 'c option) \<Rightarrow> ('c \<Rightarrow> string \<Rightarrow> bool) \<Rightarrow> string \<Rightarrow> string \<Rightarrow> string \<Rightarrow> string
     \<Rightarrow> 'c DataBase \<Rightarrow> bool \<times> 'c DataBase" where
  "DataBase_Init driver_connect set_schema host user pw db d =
     (let d1 = d\<lparr>m_host := host, m_user_name := user, m_password := pw, m_database := db\<rparr>;
          conn = (case driver_connect host user pw of None \<Rightarrow> None
                  | Some c \<Rightarrow> if set_schema c db then Some c else None)
      in (conn \<noteq> None, d1\<lparr>m_pConn := conn\<rparr>))"

text \<open>Using a connection that was never made dereferences \<open>NULL\<close>; a statement that cannot be made is \<open>NULL\<close>.\<close>

definition DataBase_getStatement :: "('c \<Rightarrow> 'st option) \<Rightarrow> 'c DataBase \<Rightarrow> fault + 'st option" where
  "DataBase_getStatement create d = (case m_pConn d of None \<Rightarrow> Inl NullDeref | Some c \<Rightarrow> Inr (create c))"

definition DataBase_preStatement :: "('c \<Rightarrow> string \<Rightarrow> 'st) \<Rightarrow> string \<Rightarrow> 'c DataBase \<Rightarrow> fault + 'st" where
  "DataBase_preStatement prepare q d = (case m_pConn d of None \<Rightarrow> Inl NullDeref | Some c \<Rightarrow> Inr (prepare c q))"

section \<open>Cache\<close>

text \<open>The four operations on keys and values that may be \<open>NULL\<close>; \<open>cset\<close> and \<open>cget\<close> are the client library.
  Deleting and updating are not implemented and report success.\<close>

definition op_insert :: "('m \<Rightarrow> string \<Rightarrow> string \<Rightarrow> int \<Rightarrow> bool \<times> 'm) \<Rightarrow> string option \<Rightarrow> string option \<Rightarrow> int \<Rightarrow> 'm \<Rightarrow> bool \<times> 'm" where
  "op_insert cset key v expir m = (case (key, v) of (Some k, Some x) \<Rightarrow> cset m k x expir | _ \<Rightarrow> (False, m))"

definition op_select :: "('m \<Rightarrow> string \<Rightarrow> string option) \<Rightarrow> string option \<Rightarrow> 'm \<Rightarrow> string option" where
  "op_select cget key m = (case key of None \<Rightarrow> None | Some k \<Rightarrow> cget m k)"

definition op_delete :: "string option \<Rightarrow> 'm \<Rightarrow> bool \<times> 'm" where
  "op_delete key m = (key \<noteq> None, m)"

definition op_update :: "string option \<Rightarrow> string option \<Rightarrow> int \<Rightarrow> 'm \<Rightarrow> bool \<times> 'm" where
  "op_update key v expir m = (key \<noteq> None \<and> v \<noteq> None, m)"

text \<open>The set-up: the server list is pushed (\<open>push\<close>) when the singleton is created, and its result is ignored.\<close>

definition Memcached_init :: "('m \<Rightarrow> bool \<times> 'm) \<Rightarrow> 'm \<Rightarrow> bool \<times> 'm" where
  "Memcached_init push m = (let (ok, m') = push m in if \<not> ok then (False, m') else (True, m'))"

definition Memcached_instance :: "('m \<Rightarrow> bool \<times> 'm) \<Rightarrow> 'm \<Rightarrow> 'm option \<Rightarrow> 'm \<times> 'm option" where
  "Memcached_instance push new p = (case p of
     None \<Rightarrow> let (ok, m) = Memcached_init push new in (m, Some m) | Some m \<Rightarrow> (m, Some m))"

section \<open>The process\<close>

datatype lock_mode = LOCK_WAIT | LOCK_NOWAIT | UNLOCK
datatype main_task = EvloopTask string int | RecvTask | SendTask | AuthTask

datatype event =
    Printed string
  | WrotePid
  | ClosedLock
  | Forked
  | LogsReady
  | SentTerm
  | PoolStarted
  | RoomsReady
  | HandlersReady
  | Pushed main_task

text \<open>How \<open>process_logic\<close> ends: it returns a value, or calls \<open>exit\<close>, or is killed, or is in the main loop of
  \<open>run\<close>, which never ends.\<close>

datatype outcome = Exit int | Exited int | Killed | Serving

record host =
  option_of :: "char option"      \<comment> \<open>\<open>getopt\<close>, \<open>None\<close> for -1\<close>
  open_fd :: int
  flock_ok :: "lock_mode \<Rightarrow> bool"
  ftruncate_ok :: bool
  write_ok :: bool
  mkdir_ok :: bool
  kill_ok :: bool
  lua_file :: lua
  confirming :: confirm_host
  db_init :: "string \<Rightarrow> string \<Rightarrow> string \<Rightarrow> string \<Rightarrow> bool"

record ProcessManager =
  m_lockfd :: int
  config :: Config
  events :: "event list"

type_synonym 'a pm = "(ProcessManager, 'a) prog"

definition event :: "event \<Rightarrow> unit pm" where
  "event ev = modify (events_update (\<lambda>es. es @ [ev]))"

definition on_config :: "(Config, unit) prog \<Rightarrow> unit pm" where
  "on_config m = (\<lambda>s. case m (config s) of Inl e \<Rightarrow> Inl e | Inr (_, c) \<Rightarrow> Inr ((), s\<lparr>config := c\<rparr>))"

definition lock :: "host \<Rightarrow> lock_mode \<Rightarrow> bool pm" where
  "lock h mode =
     bnd (gets m_lockfd) (\<lambda>fd0.
     sq (if fd0 = 0 then modify (m_lockfd_update (\<lambda>_. open_fd h)) else ret ())
    (bnd (gets m_lockfd) (\<lambda>fd.
     if fd < 0 then ret False
     else if \<not> flock_ok h mode then ret False
     else if mode = UNLOCK then sq (event ClosedLock) (ret True)
     else if ftruncate_ok h then
       sq (event (if write_ok h then WrotePid else Printed ''write pid file error!'')) (ret True)
     else sq (event (Printed ''write pid file error!'')) (fail Aborted))))"

text \<open>The tasks are pushed in this order after the five workers were started; the receiving task only once.\<close>

definition run_server :: "host \<Rightarrow> outcome pm" where
  "run_server h =
     sq (event (Printed ''server running...''))
    (sq (event PoolStarted)
    (bnd (gets config) (\<lambda>c.
     sq (event RoomsReady)
    (sq (event HandlersReady)
    (sq (event (Pushed (EvloopTask (server_ip c) (server_port c))))
    (sq (event (Pushed RecvTask))
    (sq (event (Pushed SendTask))
    (sq (event (Pushed AuthTask))
        (ret Serving)))))))))"

text \<open>The bytes of a configured string.\<close>

definition to_bytes :: "string \<Rightarrow> cstring" where
  "to_bytes = map of_char"

definition confirmed :: "host \<Rightarrow> Config \<Rightarrow> fault + confirmation" where
  "confirmed h c = Confirm_run (confirming h) (to_bytes (username c)) (to_bytes (passwd c))"

definition start_daemon :: "host \<Rightarrow> outcome pm" where
  "start_daemon h = bnd (lock h LOCK_NOWAIT) (\<lambda>ok.
     if \<not> ok then sq (event (Printed ''Server already running!'')) (ret (Exit 0)) else
     sq (check (mkdir_ok h) Aborted)
    (sq (event LogsReady)
    (sq (on_config (readconfig (lua_file h)))
    (bnd (gets config) (\<lambda>c.
     case confirmed h c of Inl f \<Rightarrow> fail f | Inr NoAnswer \<Rightarrow> ret (Exited (- 1)) | Inr ReceiveFailed \<Rightarrow> fail Aborted
     | Inr (Answer ok) \<Rightarrow>
     sq (event (Printed (if ok then ''auth success'' else ''authorize failed'')))
    (if \<not> db_init h (db_host c) (db_username c) (db_password c) (db_database c)
     then sq (event (Printed ''[ERROR] -- Database: Please check database configure file'')) (ret (Exit 0))
     else run_server h))))))"

definition stop_daemon :: "host \<Rightarrow> outcome pm" where
  "stop_daemon h = bnd (lock h LOCK_NOWAIT) (\<lambda>ok.
     sq (if ok then bnd (lock h UNLOCK) (\<lambda>_. event (Printed ''No process!''))
         else sq (event (Printed ''Find process! stopping...'')) (sq (check (kill_ok h) Aborted) (event SentTerm)))
    (sq (event (Printed ''stop'')) (ret (Exit 0))))"

definition process_logic :: "host \<Rightarrow> outcome pm" where
  "process_logic h = (case option_of h of
     None \<Rightarrow> sq (event (Printed ''argv error'')) (ret (Exit (- 1)))
   | Some c \<Rightarrow>
       if c = CHR ''s'' then sq (event Forked) (ret (Exit 0))
       else if c = CHR ''d'' then start_daemon h
       else if c = CHR ''u'' then stop_daemon h
       else if c = CHR ''v'' then sq (event (Printed ''compiled at'')) (ret (Exit 0))
       else ret (Exit 0))"

text \<open>The handler of \<open>SIGTERM\<close>, which \<open>-u\<close> sends to the running server: nothing is cleaned up.\<close>

definition sig_term :: "outcome pm" where
  "sig_term = sq (event (Printed ''get exit signal'')) (ret Killed)"

text \<open>\<open>main\<close> ignores what \<open>process_logic\<close> returns.\<close>

definition main_program :: "host \<Rightarrow> outcome pm" where
  "main_program h = bnd (process_logic h) (\<lambda>r. case r of Exit n \<Rightarrow> ret (Exit 0) | _ \<Rightarrow> ret r)"

definition ProcessManager_new :: "Config \<Rightarrow> ProcessManager" where
  "ProcessManager_new c = \<lparr>m_lockfd = 0, config = c, events = []\<rparr>"

section \<open>Properties\<close>

definition pushed :: "ProcessManager \<Rightarrow> main_task list" where
  "pushed s = concat (map (\<lambda>ev. case ev of Pushed t \<Rightarrow> [t] | _ \<Rightarrow> []) (events s))"

definition complete :: "lua \<Rightarrow> bool" where
  "complete l \<longleftrightarrow> loadfile_ok l \<and> pcall_ok l \<and>
     (\<forall>x \<in> {''db_host'', ''db_username'', ''db_password'', ''db_database'', ''server_ip'', ''username'', ''password''}.
        lua_tostring l x \<noteq> None)"

definition the_string :: "lua \<Rightarrow> string \<Rightarrow> string" where
  "the_string l x = (case lua_tostring l x of None \<Rightarrow> [] | Some v \<Rightarrow> v)"

definition config_of :: "lua \<Rightarrow> Config" where
  "config_of l = \<lparr>db_host = the_string l ''db_host'', db_username = the_string l ''db_username'',
     db_password = the_string l ''db_password'', db_database = the_string l ''db_database'',
     server_ip = the_string l ''server_ip'', username = the_string l ''username'', passwd = the_string l ''password'',
     server_port = to_int32 (lua_tointeger l ''server_port''), school_id = to_int32 (lua_tointeger l ''school_id''),
     game_count = to_int32 (lua_tointeger l ''game_count'')\<rparr>"

lemma readconfig_complete: "complete l \<Longrightarrow> readconfig l c = Inr ((), config_of l)"
  by (auto simp: complete_def readconfig_def set_string_def set_int_def config_of_def the_string_def
      sq_def bnd_def modify_def)

text \<open>A configuration file that does not load leaves the configuration empty, and nobody is told.\<close>

lemma readconfig_not_loaded: "\<not> loadfile_ok l \<or> \<not> pcall_ok l \<Longrightarrow> readconfig l c = Inr ((), c)"
  by (auto simp: readconfig_def ret_def)

lemmas startup_simps = process_logic_def start_daemon_def lock_def run_server_def on_config_def event_def
  sq_def bnd_def gets_def modify_def ret_def check_def fail_def

lemma start_daemon_serves:
  assumes "option_of h = Some CHR ''d''" "0 < open_fd h" "flock_ok h LOCK_NOWAIT" "ftruncate_ok h" "mkdir_ok h"
    and "complete (lua_file h)" "c = config_of (lua_file h)" "confirmed h c = Inr (Answer ok)"
    and "db_init h (db_host c) (db_username c) (db_password c) (db_database c)"
  shows "wp (process_logic h) (\<lambda>r s. r = Serving \<and> config s = c \<and>
     pushed s = [EvloopTask (server_ip c) (server_port c), RecvTask, SendTask, AuthTask] \<and>
     Printed (if ok then ''auth success'' else ''authorize failed'') \<in> set (events s)) (ProcessManager_new c0)"
  using assms by (simp add: wp_def startup_simps ProcessManager_new_def readconfig_complete pushed_def)

lemma start_daemon_faults:
  assumes "option_of h = Some CHR ''d''" "0 < open_fd h" "flock_ok h LOCK_NOWAIT" "ftruncate_ok h" "mkdir_ok h"
    and "complete (lua_file h)" "c = config_of (lua_file h)"
    and "confirmed h c = Inl f"
  shows "main_program h (ProcessManager_new d) = Inl f"
  using assms by (simp add: main_program_def startup_simps ProcessManager_new_def readconfig_complete)

lemma start_daemon_aborts:
  assumes "option_of h = Some CHR ''d''" "0 < open_fd h" "flock_ok h LOCK_NOWAIT" "ftruncate_ok h" "mkdir_ok h"
    and "complete (lua_file h)" "c = config_of (lua_file h)"
    and "confirmed h c = Inr ReceiveFailed"
  shows "main_program h (ProcessManager_new d) = Inl Aborted"
  using assms by (simp add: main_program_def startup_simps ProcessManager_new_def readconfig_complete)

lemma start_daemon_exits:
  assumes "option_of h = Some CHR ''d''" "0 < open_fd h" "flock_ok h LOCK_NOWAIT" "ftruncate_ok h" "mkdir_ok h"
    and "complete (lua_file h)" "c = config_of (lua_file h)"
    and "confirmed h c = Inr NoAnswer"
  shows "wp (main_program h) (\<lambda>r s. r = Exited (- 1) \<and> pushed s = []) (ProcessManager_new d)"
  using assms by (simp add: main_program_def wp_def startup_simps ProcessManager_new_def readconfig_complete pushed_def)

text \<open>C40: The answer of the authorization server does not decide whether the server starts.  Run with \<open>-d\<close> on a
  free lock, with a complete configuration and a reachable database, the program serves whenever it gets an
  answer, with the address and port of the configuration, and its four tasks are pushed in
  this order, even when the answer is a refusal.  Without a connection or an answer in time it exits with code -1 and
  pushes none; when receiving fails an assertion ends it; as long as the kernel does not come back it waits.  And when the
  connection stands but the configured user name or password has fewer than 63 characters, it reads past the
  end of that string before it asks.\<close>

theorem serves_without_authorization:
  assumes "option_of h = Some CHR ''d''" "0 < open_fd h" "flock_ok h LOCK_NOWAIT" "ftruncate_ok h" "mkdir_ok h"
    and "complete (lua_file h)" "c = config_of (lua_file h)"
    and "db_init h (db_host c) (db_username c) (db_password c) (db_database c)"
  shows "(case Confirm_run (confirming h) (to_bytes (username c)) (to_bytes (passwd c)) of
       Inr (Answer ok) \<Rightarrow> wp (main_program h) (\<lambda>r s. r = Serving \<and> config s = c \<and>
         pushed s = [EvloopTask (server_ip c) (server_port c), RecvTask, SendTask, AuthTask] \<and>
         Printed (if ok then ''auth success'' else ''authorize failed'') \<in> set (events s)) (ProcessManager_new c0)
     | Inr NoAnswer \<Rightarrow> wp (main_program h) (\<lambda>r s. r = Exited (- 1) \<and> pushed s = []) (ProcessManager_new c0)
     | Inr ReceiveFailed \<Rightarrow> main_program h (ProcessManager_new c0) = Inl Aborted
     | Inl f \<Rightarrow> main_program h (ProcessManager_new c0) = Inl f)
   \<and> (cf_socket (confirming h) \<and> cf_connect (confirming h) \<and> (length (username c) < 63 \<or> length (passwd c) < 63)
       \<longrightarrow> main_program h (ProcessManager_new c0) = Inl OutOfBounds)"
proof -
  note stops = start_daemon_faults [OF assms(1-7), where d = c0] start_daemon_aborts [OF assms(1-7), where d = c0]
    start_daemon_exits [OF assms(1-7), where d = c0]
  have serves: "wp (main_program h) (\<lambda>r s. r = Serving \<and> config s = c \<and>
         pushed s = [EvloopTask (server_ip c) (server_port c), RecvTask, SendTask, AuthTask] \<and>
         Printed (if ok then ''auth success'' else ''authorize failed'') \<in> set (events s)) (ProcessManager_new c0)"
    if "confirmed h c = Inr (Answer ok)" for ok
    using start_daemon_serves [OF assms(1-7) that assms(8), of c0]
    unfolding main_program_def wp_bnd by (rule wp_mono) (simp add: wp_ret)
  have "confirmed h c = Inl OutOfBounds"
    if "cf_socket (confirming h)" "cf_connect (confirming h)" "length (username c) < 63 \<or> length (passwd c) < 63"
  proof -
    have "confirm_buf (to_bytes (username c)) (to_bytes (passwd c)) = Inl OutOfBounds"
      using that(3) by (simp add: confirm_overread to_bytes_def)
    then show ?thesis using that(1,2) by (simp add: confirmed_def Confirm_run_def Confirm_new_def)
  qed
  then show ?thesis
    using serves stops unfolding confirmed_def [symmetric] by (auto split: sum.split confirmation.split)
qed

text \<open>A host whose kernel takes the request in one piece; the server answers with a flag.  The name and the password have
  64 characters.\<close>

definition sample_host :: "u32 \<Rightarrow> host" where
  "sample_host flag = \<lparr>option_of = Some CHR ''d'', open_fd = 3, flock_ok = (\<lambda>_. True), ftruncate_ok = True, write_ok = True,
     mkdir_ok = True, kill_ok = True,
     lua_file = \<lparr>loadfile_ok = True, pcall_ok = True, lua_tostring = (\<lambda>_. Some (replicate 64 CHR ''x'')), lua_tointeger = (\<lambda>_. 9999)\<rparr>,
     confirming = \<lparr>cf_socket = True, cf_connect = True, cf_sends = [Sent 200], cf_errno = 0, cf_start = 0,
       cf_recvs = [(Data (le32 flag), 1)]\<rparr>,
     db_init = (\<lambda>_ _ _ _. True)\<rparr>"

lemma sample_confirm: "Confirm_run (confirming (sample_host flag)) (replicate 64 c) (replicate 64 d) = Inr (Answer (flag = 1))"
proof -
  have "get32 (copy_list (\<lambda>_. 0) 0 (le32 flag)) 0 = flag" "le32 flag \<noteq> []"
    by (simp add: copy_list_le32 get32_put32) (simp add: le32_def)
  then show ?thesis
    by (simp add: sample_host_def Confirm_run_def Confirm_new_def confirm_buf_def confirm_field_def AUTH_FIELD_def
        Confirm_confirm_def Confirm_send_data_def Let_def)
qed

lemma serves_without_authorization_witness:
  "wp (main_program (sample_host 0)) (\<lambda>r s. r = Serving \<and> Printed ''authorize failed'' \<in> set (events s) \<and>
     length (pushed s) = 4) (ProcessManager_new (Config_new 0 0 0))"
proof -
  have c: "to_bytes (username (config_of (lua_file (sample_host 0)))) = replicate 64 (of_char CHR ''x'')"
    "to_bytes (passwd (config_of (lua_file (sample_host 0)))) = replicate 64 (of_char CHR ''x'')"
    by (simp_all add: config_of_def the_string_def sample_host_def to_bytes_def)
  have "complete (lua_file (sample_host 0))" by (simp add: sample_host_def complete_def)
  from serves_without_authorization [OF _ _ _ _ _ this refl, of "Config_new 0 0 0", THEN conjunct1, unfolded c sample_confirm]
  have "wp (main_program (sample_host 0)) (\<lambda>r s. r = Serving \<and> config s = config_of (lua_file (sample_host 0)) \<and>
      pushed s = [EvloopTask (server_ip (config_of (lua_file (sample_host 0)))) (server_port (config_of (lua_file (sample_host 0)))),
        RecvTask, SendTask, AuthTask] \<and> Printed ''authorize failed'' \<in> set (events s)) (ProcessManager_new (Config_new 0 0 0))"
    by (simp add: sample_host_def)
  then show ?thesis by (rule wp_mono) simp
qed

text \<open>Only one server at a time: when another process holds the lock file, \<open>-d\<close> exits without starting a
  thread, reading the configuration or pushing a task.\<close>

theorem second_server_exits:
  assumes "option_of h = Some CHR ''d''" "\<not> flock_ok h LOCK_NOWAIT"
  shows "wp (process_logic h) (\<lambda>r s. r = Exit 0 \<and> events s = [Printed ''Server already running!''] \<and> config s = c0)
     (ProcessManager_new c0)"
  using assms by (simp add: wp_def startup_simps ProcessManager_new_def)

lemma second_server_exits_witness:
  "wp (process_logic ((sample_host 0)\<lparr>flock_ok := (\<lambda>_. False)\<rparr>))
     (\<lambda>r s. r = Exit 0 \<and> events s = [Printed ''Server already running!''] \<and> config s = Config_new 0 0 0)
     (ProcessManager_new (Config_new 0 0 0))"
  by (rule second_server_exits) (simp_all add: sample_host_def)

end
