(* ===== verification/Locks.thy ===== *)
theory Locks
  imports Buffers
begin

text \<open>
  \<open>Mutex.h\<close>, and the methods of \<open>AtomicT.h\<close> and \<open>PoolT.h\<close> as sequences of single accesses between
  the constructor and the destructor of a \<open>MutexLockGuard\<close>.  The threads interleave access by
  access.  The theorem of the locale \<open>guarded\<close> is that every completed call has the result, and
  the object the contents, that the atomic operations of \<open>Buffers\<close> give in the order in which the
  calls end: the atomic operations are a correct abstraction of the locked ones.
\<close>

section \<open>The mutex\<close>

text \<open>A mutex is free or held by a thread; locking a mutex that is held waits (\<open>None\<close>).\<close>

type_synonym mutex = "nat option"

definition MutexLock_new :: mutex where
  "MutexLock_new = None"

definition MutexLock_lock :: "nat \<Rightarrow> mutex \<Rightarrow> mutex option" where
  "MutexLock_lock t m = (case m of None \<Rightarrow> Some (Some t) | Some u \<Rightarrow> None)"

definition MutexLock_unlock :: "mutex \<Rightarrow> mutex" where
  "MutexLock_unlock m = None"

lemma MutexLock_lock_Some: "MutexLock_lock t m = Some m' \<longleftrightarrow> m = None \<and> m' = Some t"
  by (auto simp: MutexLock_lock_def split: option.splits)

section \<open>The condition variable\<close>

text \<open>The threads that wait, each with the time at which it gives up.  \<open>wait\<close> gives the mutex back while the thread
  sleeps; a thread that has been woken locks it again with \<open>MutexLock_lock\<close> before it goes on.  Which waiter a
  signal wakes is the kernel's choice \<open>i\<close>.\<close>

type_synonym cond = "(nat \<times> int option) list"

definition Condition_new :: cond where
  "Condition_new = []"

definition Condition_wait :: "nat \<Rightarrow> cond \<times> mutex \<Rightarrow> cond \<times> mutex" where
  "Condition_wait t = (\<lambda>(c, m). (c @ [(t, None)], MutexLock_unlock m))"

text \<open>The second argument is the time of the call, the third how long to wait.\<close>

definition Condition_timedwait :: "nat \<Rightarrow> int \<Rightarrow> int \<Rightarrow> cond \<times> mutex \<Rightarrow> cond \<times> mutex" where
  "Condition_timedwait t now dt = (\<lambda>(c, m). (c @ [(t, Some (now + dt))], MutexLock_unlock m))"

definition Condition_notify :: "nat \<Rightarrow> cond \<Rightarrow> cond" where
  "Condition_notify i c = (let k = i mod length c in take k c @ drop (Suc k) c)"

definition Condition_notifyall :: "cond \<Rightarrow> cond" where
  "Condition_notifyall c = []"

lemma Condition_notify_one: "c \<noteq> [] \<Longrightarrow> \<exists>w. mset c = add_mset w (mset (Condition_notify i c))"
proof -
  assume "c \<noteq> []"
  then have k: "i mod length c < length c" by simp
  then have "mset c = add_mset (c ! (i mod length c)) (mset (Condition_notify i c))"
    using arg_cong [OF id_take_nth_drop [OF k], of mset] by (simp add: Condition_notify_def Let_def)
  then show ?thesis by blast
qed

lemma Condition_notify_none: "Condition_notify i Condition_new = Condition_new"
  by (simp add: Condition_notify_def Condition_new_def)

text \<open>While a thread waits, another can take the mutex.\<close>

lemma Condition_wait_unlocks:
  "MutexLock_lock u (snd (Condition_wait t (c, m))) = Some (Some u)"
  "MutexLock_lock u (snd (Condition_timedwait t now dt (c, m))) = Some (Some u)"
  by (simp_all add: Condition_wait_def Condition_timedwait_def MutexLock_unlock_def MutexLock_lock_def)

section \<open>Threads\<close>

text \<open>One access of a method: it reads and writes the object and the thread's local variables.\<close>

type_synonym ('o, 'l) access = "'o \<times> 'l \<Rightarrow> 'o \<times> 'l"

datatype ('m, 'o, 'l) tpos =
    Outside
  | Locking 'm
  | Inside 'm "('o, 'l) access list" 'l

record ('m, 'o, 'l) locked =
  obj :: 'o
  holder :: mutex
  pos :: "nat \<Rightarrow> ('m, 'o, 'l) tpos"
  calls :: "('m \<times> 'l) list"    \<comment> \<open>the completed calls with their results\<close>

definition locked_new :: "'o \<Rightarrow> ('m, 'o, 'l) locked" where
  "locked_new x = \<lparr>obj = x, holder = MutexLock_new, pos = (\<lambda>_. Outside), calls = []\<rparr>"

text \<open>\<open>body m\<close> are the accesses of method \<open>m\<close> and \<open>l0\<close> the local variables at its start.  The guard's
  constructor locks, its destructor unlocks after the result has been computed.\<close>

inductive lk_step :: "('m \<Rightarrow> ('o, 'l) access list) \<Rightarrow> 'l \<Rightarrow> ('m, 'o, 'l) locked \<Rightarrow> ('m, 'o, 'l) locked \<Rightarrow> bool"
  for body l0 where
  call: "pos s t = Outside \<Longrightarrow> lk_step body l0 s (s\<lparr>pos := (pos s)(t := Locking m)\<rparr>)"
| lock: "pos s t = Locking m \<Longrightarrow> MutexLock_lock t (holder s) = Some h \<Longrightarrow>
    lk_step body l0 s (s\<lparr>holder := h, pos := (pos s)(t := Inside m (body m) l0)\<rparr>)"
| access: "pos s t = Inside m (f # fs) l \<Longrightarrow> f (obj s, l) = (x, l') \<Longrightarrow>
    lk_step body l0 s (s\<lparr>obj := x, pos := (pos s)(t := Inside m fs l')\<rparr>)"
| unlock: "pos s t = Inside m [] l \<Longrightarrow>
    lk_step body l0 s (s\<lparr>holder := MutexLock_unlock (holder s), pos := (pos s)(t := Outside), calls := calls s @ [(m, l)]\<rparr>)"

inductive lk_run :: "('m \<Rightarrow> ('o, 'l) access list) \<Rightarrow> 'l \<Rightarrow> 'o \<Rightarrow> ('m, 'o, 'l) locked \<Rightarrow> bool" for body l0 x where
  start: "lk_run body l0 x (locked_new x)"
| step: "lk_run body l0 x s \<Longrightarrow> lk_step body l0 s s' \<Longrightarrow> lk_run body l0 x s'"

definition run_body :: "('o, 'l) access list \<Rightarrow> 'o \<times> 'l \<Rightarrow> 'o \<times> 'l" where
  "run_body fs = fold (\<lambda>f. f) fs"

lemma run_body_simps [simp]: "run_body [] c = c" "run_body (f # fs) c = run_body fs (f c)"
  by (simp_all add: run_body_def)

text \<open>The sequence of calls, executed atomically one after the other, has these results and ends in \<open>y\<close>.\<close>

fun sequential :: "('m \<Rightarrow> 'o \<Rightarrow> 'r \<times> 'o) \<Rightarrow> 'o \<Rightarrow> ('m \<times> 'r) list \<Rightarrow> 'o \<Rightarrow> bool" where
  "sequential atomic x [] y \<longleftrightarrow> x = y"
| "sequential atomic x ((m, r) # cs) y \<longleftrightarrow> (case atomic m x of (r', x') \<Rightarrow> r' = r \<and> sequential atomic x' cs y)"

lemma sequential_append:
  "sequential atomic x (cs @ [(m, r)]) z \<longleftrightarrow> (\<exists>y. sequential atomic x cs y \<and> atomic m y = (r, z))"
  by (induction cs arbitrary: x) (auto split: prod.splits)

definition results :: "('l \<Rightarrow> 'r) \<Rightarrow> ('m \<times> 'l) list \<Rightarrow> ('m \<times> 'r) list" where
  "results res = map (\<lambda>(m, l). (m, res l))"

lemma results_simps [simp]: "results res [] = []" "results res (cs @ [(m, l)]) = results res cs @ [(m, res l)]"
  by (simp_all add: results_def)

section \<open>The contract of a guarded object\<close>

locale guarded =
  fixes body :: "'m \<Rightarrow> ('o, 'l) access list"
    and l0 :: 'l
    and res :: "'l \<Rightarrow> 'r"
    and atomic :: "'m \<Rightarrow> 'o \<Rightarrow> 'r \<times> 'o"
  assumes body_atomic: "run_body (body m) (x, l0) = (y, l) \<Longrightarrow> atomic m x = (res l, y)"
begin

definition lk_inv :: "'o \<Rightarrow> ('m, 'o, 'l) locked \<Rightarrow> bool" where
  "lk_inv x0 s \<longleftrightarrow> (\<forall>t m fs l. pos s t = Inside m fs l \<longrightarrow> holder s = Some t) \<and>
     (case holder s of
        None \<Rightarrow> sequential atomic x0 (results res (calls s)) (obj s)
      | Some t \<Rightarrow> \<exists>m fs l y. pos s t = Inside m fs l \<and> sequential atomic x0 (results res (calls s)) y \<and>
          run_body fs (obj s, l) = run_body (body m) (y, l0))"

lemma lk_inv_step:
  assumes "lk_step body l0 s s'" "lk_inv x0 s"
  shows "lk_inv x0 s'"
  using assms
proof (cases rule: lk_step.cases)
  case (unlock t m l)
  then have h: "holder s = Some t" using assms(2) by (auto simp: lk_inv_def)
  then obtain y where y: "sequential atomic x0 (results res (calls s)) y" "(obj s, l) = run_body (body m) (y, l0)"
    using assms(2) unlock by (auto simp: lk_inv_def)
  then have "atomic m y = (res l, obj s)" using body_atomic [of m y "obj s" l] by simp
  with y(1) have "sequential atomic x0 (results res (calls s) @ [(m, res l)]) (obj s)"
    by (auto simp: sequential_append)
  then show ?thesis using unlock h assms(2) by (auto simp: lk_inv_def MutexLock_unlock_def)
next
  case (access t m f fs l x l')
  then have h: "holder s = Some t" using assms(2) by (auto simp: lk_inv_def)
  then obtain y where "sequential atomic x0 (results res (calls s)) y"
    "run_body (f # fs) (obj s, l) = run_body (body m) (y, l0)"
    using assms(2) access by (auto simp: lk_inv_def)
  then show ?thesis using access h assms(2) by (auto simp: lk_inv_def)
qed (auto simp: lk_inv_def MutexLock_lock_Some split: option.splits if_splits)

lemma lk_inv_run: "lk_run body l0 x0 s \<Longrightarrow> lk_inv x0 s"
proof (induction rule: lk_run.induct)
  case start
  then show ?case by (simp add: lk_inv_def locked_new_def MutexLock_new_def)
next
  case (step s s')
  then show ?case by (blast intro: lk_inv_step)
qed

lemma inside_holder: "lk_run body l0 x0 s \<Longrightarrow> pos s t = Inside m fs l \<Longrightarrow> holder s = Some t"
  using lk_inv_run [of x0 s] by (simp add: lk_inv_def)

text \<open>At most one thread is inside a method.\<close>

lemma exclusion: "lk_run body l0 x0 s \<Longrightarrow> pos s t = Inside m fs l \<Longrightarrow> pos s u = Inside m' fs' l' \<Longrightarrow> t = u"
  using inside_holder [of x0 s t] inside_holder [of x0 s u] by fastforce

text \<open>Whenever nobody is inside, the history is that of the atomic operations.\<close>

lemma linearizable:
  "lk_run body l0 x0 s \<Longrightarrow> holder s = None \<Longrightarrow> sequential atomic x0 (results res (calls s)) (obj s)"
  using lk_inv_run [of x0 s] by (simp add: lk_inv_def)

lemma linearizable_calls:
  "lk_run body l0 x0 s \<Longrightarrow> \<exists>y. sequential atomic x0 (results res (calls s)) y"
  using lk_inv_run [of x0 s] by (auto simp: lk_inv_def split: option.splits)

end

section \<open>The counter\<close>

text \<open>The methods of \<open>AtomicT.h\<close>.  The local variables are a copy of \<open>m_value\<close> and the result.\<close>

datatype counter_call = Value | Add u32 | Sub u32 | PreInc | PostInc | PreDec | PostDec | Assign u32
  | Eq u32 | Ne u32 | Gt u32 | Ge u32 | Lt u32 | Le u32

datatype counter_result = IntRes u32 | BoolRes bool | SelfRef

record counter_local =
  tmp :: u32
  ans :: counter_result

definition read_value :: "(u32, counter_local) access" where
  "read_value = (\<lambda>(v, l). (v, l\<lparr>tmp := v\<rparr>))"

definition write_value :: "(u32 \<Rightarrow> u32) \<Rightarrow> (u32, counter_local) access" where
  "write_value f = (\<lambda>(v, l). (f (tmp l), l))"

definition result_of :: "(u32 \<Rightarrow> counter_result) \<Rightarrow> (u32, counter_local) access" where
  "result_of f = (\<lambda>(v, l). (v, l\<lparr>ans := f (tmp l)\<rparr>))"

text \<open>\<open>++m_value\<close> and the like read the value, write the new one and read it again; \<open>std::swap\<close> reads the old value
  and writes the new one.\<close>

definition modify_read :: "(u32 \<Rightarrow> u32) \<Rightarrow> (u32, counter_local) access list" where
  "modify_read f = [read_value, write_value f, read_value, result_of IntRes]"

definition read_modify :: "(u32 \<Rightarrow> u32) \<Rightarrow> (u32, counter_local) access list" where
  "read_modify f = [read_value, result_of IntRes, write_value f]"

definition compare_value :: "(u32 \<Rightarrow> bool) \<Rightarrow> (u32, counter_local) access list" where
  "compare_value f = [read_value, result_of (\<lambda>v. BoolRes (f v))]"

fun AtomicT_body :: "counter_call \<Rightarrow> (u32, counter_local) access list" where
  "AtomicT_body Value = [read_value, result_of IntRes]"
| "AtomicT_body (Add a) = modify_read (\<lambda>v. v + a)"
| "AtomicT_body (Sub a) = modify_read (\<lambda>v. v - a)"
| "AtomicT_body PreInc = modify_read (\<lambda>v. v + 1)"
| "AtomicT_body PostInc = read_modify (\<lambda>v. v + 1)"
| "AtomicT_body PreDec = modify_read (\<lambda>v. v - 1)"
| "AtomicT_body PostDec = read_modify (\<lambda>v. v - 1)"
| "AtomicT_body (Assign a) = [read_value, write_value (\<lambda>v. a), result_of (\<lambda>v. SelfRef)]"
| "AtomicT_body (Eq a) = compare_value (\<lambda>v. v = a)"
| "AtomicT_body (Ne a) = compare_value (\<lambda>v. v \<noteq> a)"
| "AtomicT_body (Gt a) = compare_value (\<lambda>v. sint v > sint a)"
| "AtomicT_body (Ge a) = compare_value (\<lambda>v. sint v \<ge> sint a)"
| "AtomicT_body (Lt a) = compare_value (\<lambda>v. sint v < sint a)"
| "AtomicT_body (Le a) = compare_value (\<lambda>v. sint v \<le> sint a)"

definition counter_local0 :: counter_local where
  "counter_local0 = \<lparr>tmp = 0, ans = SelfRef\<rparr>"

text \<open>The abstract object: the operations of \<open>Buffers\<close>.\<close>

definition int_result :: "u32 \<times> u32 \<Rightarrow> counter_result \<times> u32" where
  "int_result p = (IntRes (fst p), snd p)"

fun AtomicT_atomic :: "counter_call \<Rightarrow> u32 \<Rightarrow> counter_result \<times> u32" where
  "AtomicT_atomic Value v = int_result (AtomicT_value v)"
| "AtomicT_atomic (Add a) v = int_result (AtomicT_add a v)"
| "AtomicT_atomic (Sub a) v = int_result (AtomicT_sub a v)"
| "AtomicT_atomic PreInc v = int_result (AtomicT_preinc v)"
| "AtomicT_atomic PostInc v = int_result (AtomicT_postinc v)"
| "AtomicT_atomic PreDec v = int_result (AtomicT_predec v)"
| "AtomicT_atomic PostDec v = int_result (AtomicT_postdec v)"
| "AtomicT_atomic (Assign a) v = (SelfRef, AtomicT_assign a v)"
| "AtomicT_atomic (Eq a) v = (BoolRes (AtomicT_eq a v), v)"
| "AtomicT_atomic (Ne a) v = (BoolRes (AtomicT_ne a v), v)"
| "AtomicT_atomic (Gt a) v = (BoolRes (AtomicT_gt a v), v)"
| "AtomicT_atomic (Ge a) v = (BoolRes (AtomicT_ge a v), v)"
| "AtomicT_atomic (Lt a) v = (BoolRes (AtomicT_lt a v), v)"
| "AtomicT_atomic (Le a) v = (BoolRes (AtomicT_le a v), v)"

lemmas counter_access_defs = read_value_def write_value_def result_of_def modify_read_def read_modify_def
  compare_value_def counter_local0_def int_result_def

interpretation at: guarded AtomicT_body counter_local0 ans AtomicT_atomic
proof
  show "run_body (AtomicT_body m) (x, counter_local0) = (y, l) \<Longrightarrow> AtomicT_atomic m x = (ans l, y)" for m x y l
    by (cases m) (auto simp: counter_access_defs AtomicT_defs AtomicT_compare_defs)
qed

section \<open>The pool\<close>

datatype 'a pool_call = Malloc | Free 'a | Used

record 'a pool_local =
  found_empty :: bool
  front :: "'a option"
  number :: int

definition pool_local0 :: "'a pool_local" where
  "pool_local0 = \<lparr>found_empty = False, front = None, number = 0\<rparr>"

definition pool_test :: "('a pool, 'a pool_local) access" where
  "pool_test = (\<lambda>(p, l). (p, l\<lparr>found_empty := (pool_queue p = [])\<rparr>))"

definition pool_front :: "('a pool, 'a pool_local) access" where
  "pool_front = (\<lambda>(p, l). if found_empty l then (p, l) else (p, l\<lparr>front := Some (hd (pool_queue p))\<rparr>))"

definition pool_pop :: "('a pool, 'a pool_local) access" where
  "pool_pop = (\<lambda>(p, l). if found_empty l then (p, l) else (p\<lparr>pool_queue := tl (pool_queue p)\<rparr>, l))"

definition pool_push :: "'a \<Rightarrow> ('a pool, 'a pool_local) access" where
  "pool_push i = (\<lambda>(p, l). (p\<lparr>pool_queue := pool_queue p @ [i]\<rparr>, l))"

definition pool_count :: "('a pool, 'a pool_local) access" where
  "pool_count = (\<lambda>(p, l). (p, l\<lparr>number := PoolT_used p\<rparr>))"

fun PoolT_body :: "'a pool_call \<Rightarrow> ('a pool, 'a pool_local) access list" where
  "PoolT_body Malloc = [pool_test, pool_front, pool_pop]"
| "PoolT_body (Free i) = [pool_push i]"
| "PoolT_body Used = [pool_count]"

fun PoolT_atomic :: "'a pool_call \<Rightarrow> 'a pool \<Rightarrow> ('a option \<times> int) \<times> 'a pool" where
  "PoolT_atomic Malloc p = (case PoolT_malloc p of None \<Rightarrow> ((None, 0), p) | Some (x, q) \<Rightarrow> ((Some x, 0), q))"
| "PoolT_atomic (Free i) p = ((None, 0), PoolT_free i p)"
| "PoolT_atomic Used p = ((None, PoolT_used p), p)"

definition pool_res :: "'a pool_local \<Rightarrow> 'a option \<times> int" where
  "pool_res l = (front l, number l)"

lemmas pool_access_defs = pool_test_def pool_front_def pool_pop_def pool_push_def pool_count_def
  pool_local0_def pool_res_def

interpretation po: guarded PoolT_body pool_local0 pool_res PoolT_atomic
proof
  show "run_body (PoolT_body m) (x, pool_local0) = (y, l) \<Longrightarrow> PoolT_atomic m x = (pool_res l, y)" for m and x y :: "'a pool" and l
    by (cases m) (auto simp: pool_access_defs PoolT_malloc_def PoolT_free_def neq_Nil_conv split: list.splits if_splits)
qed

section \<open>What the threads observe\<close>

text \<open>C20: \<open>AtomicT\<close> refines the atomic counter: however the threads that use it interleave, access by access, each of
  them has had the result, and the counter has the value, that the atomic operations give when they are
  executed one after the other in the order in which the calls have ended.\<close>

theorem counter_refines:
  assumes "lk_run AtomicT_body counter_local0 v0 s" "holder s = None"
  shows "sequential AtomicT_atomic v0 (results ans (calls s)) (obj s)"
  using assms by (rule at.linearizable)

text \<open>The same for the pool: what has been handed out and what has been given back.\<close>

definition handed_out :: "('a pool_call \<times> 'a option \<times> int) list \<Rightarrow> 'a multiset" where
  "handed_out cs = mset (concat (map (\<lambda>(m, r, n). case r of None \<Rightarrow> [] | Some x \<Rightarrow> [x]) cs))"

definition given_back :: "('a pool_call \<times> 'a option \<times> int) list \<Rightarrow> 'a multiset" where
  "given_back cs = mset (concat (map (\<lambda>(m, r, n). case m of Free i \<Rightarrow> [i] | _ \<Rightarrow> []) cs))"

lemma histories_Cons: "handed_out (c # cs) = handed_out [c] + handed_out cs" "given_back (c # cs) = given_back [c] + given_back cs"
  by (simp_all add: handed_out_def given_back_def)

lemma pool_history_one:
  "PoolT_atomic m p = ((r, n), q) \<Longrightarrow>
     mset (pool_queue q) + handed_out [(m, r, n)] = mset (pool_queue p) + given_back [(m, r, n)]"
  by (cases m) (auto simp: handed_out_def given_back_def PoolT_malloc_def PoolT_free_def split: list.splits)

lemma pool_history:
  "sequential PoolT_atomic p cs q \<Longrightarrow> mset (pool_queue q) + handed_out cs = mset (pool_queue p) + given_back cs"
proof (induction cs arbitrary: p)
  case Nil
  then show ?case by (simp add: handed_out_def given_back_def)
next
  case (Cons c cs)
  obtain m r n where c: "c = (m, r, n)" by (cases c)
  obtain p' where p': "PoolT_atomic m p = ((r, n), p')" "sequential PoolT_atomic p' cs q"
    using Cons.prems c by (auto split: prod.splits)
  have "mset (pool_queue q) + handed_out (c # cs) = (mset (pool_queue q) + handed_out cs) + handed_out [c]"
    unfolding histories_Cons(1) [of c cs] by (simp only: ac_simps)
  also have "\<dots> = (mset (pool_queue p') + handed_out [c]) + given_back cs"
    unfolding Cons.IH [OF p'(2)] by (simp only: ac_simps)
  also have "\<dots> = mset (pool_queue p) + given_back (c # cs)"
    unfolding c pool_history_one [OF p'(1)] histories_Cons(2) [of "(m, r, n)" cs] by (simp only: ac_simps)
  finally show ?case .
qed

lemma sequential_prefix: "sequential atomic x (as @ bs) y \<Longrightarrow> \<exists>z. sequential atomic x as z"
  by (induction atomic x as y rule: sequential.induct) (auto split: prod.splits)

lemma histories_append: "handed_out (xs @ ys) = handed_out xs + handed_out ys" "given_back (xs @ ys) = given_back xs + given_back ys"
  by (simp_all add: handed_out_def given_back_def)

text \<open>The discipline of the callers: an object is given back only while it is out, that is when it has been handed out
  more often than it has been given back.  A double free breaks it.\<close>

definition frees_owned :: "('a pool_call \<times> 'a option \<times> int) list \<Rightarrow> bool" where
  "frees_owned h \<longleftrightarrow> (\<forall>k < length h. case fst (h ! k) of
     Free x \<Rightarrow> count (given_back (take k h)) x < count (handed_out (take k h)) x
   | _ \<Rightarrow> True)"

lemma frees_ownedD:
  "frees_owned h \<Longrightarrow> k < length h \<Longrightarrow> fst (h ! k) = Free x \<Longrightarrow>
     count (given_back (take k h)) x < count (handed_out (take k h)) x"
  by (auto simp: frees_owned_def)

lemma frees_owned_prefix: "frees_owned (xs @ ys) \<Longrightarrow> frees_owned xs"
proof -
  assume a: "frees_owned (xs @ ys)"
  have "count (given_back (take k xs)) x < count (handed_out (take k xs)) x" if "k < length xs" "fst (xs ! k) = Free x" for k x
    using frees_ownedD [OF a, of k x] that by (simp add: nth_append)
  then show ?thesis by (auto simp: frees_owned_def split: pool_call.split)
qed

lemma frees_owned_le: "frees_owned h \<Longrightarrow> count (given_back h) x \<le> count (handed_out h) x"
proof (induction h rule: rev_induct)
  case Nil
  then show ?case by (simp add: given_back_def)
next
  case (snoc c h)
  obtain m r n where c: "c = (m, r, n)" by (cases c)
  have IH: "count (given_back h) x \<le> count (handed_out h) x"
    by (rule snoc.IH [OF frees_owned_prefix [OF snoc.prems]])
  have "m = Free y \<Longrightarrow> count (given_back h) y < count (handed_out h) y" for y
    using frees_ownedD [OF snoc.prems, of "length h" y] by (simp add: c)
  with IH show ?case
    by (cases m) (auto simp: histories_append given_back_def [of "[_]"] c Suc_le_eq intro: trans_le_add1 trans_less_add1)
qed

lemma pool_history_free_between:
  assumes "sequential PoolT_atomic (PoolT_new ps) (xs @ [(Malloc, Some x, n)] @ ys @ [(Malloc, Some x, n')] @ zs) q"
    and "distinct ps" "frees_owned (xs @ [(Malloc, Some x, n)] @ ys @ [(Malloc, Some x, n')] @ zs)"
  shows "\<exists>r. (Free x, r) \<in> set ys"
proof -
  let ?h = "xs @ [(Malloc, Some x, n)] @ ys @ [(Malloc, Some x, n')]"
  obtain z where "sequential PoolT_atomic (PoolT_new ps) ?h z"
    using sequential_prefix [of PoolT_atomic _ ?h zs q] assms(1) by auto
  then have "mset (pool_queue z) + handed_out ?h = mset ps + given_back ?h"
    using pool_history by (fastforce simp: PoolT_new_def)
  then have "count (handed_out ?h) x \<le> count (mset ps) x + count (given_back ?h) x"
    by (metis count_union le_add2)
  moreover have "count (mset ps) x \<le> 1" using assms(2) by (simp add: distinct_count_atmost_1)
  moreover have "count (given_back xs) x \<le> count (handed_out xs) x"
    using frees_owned_le [OF frees_owned_prefix [OF assms(3)]] .
  ultimately have "count (given_back ys) x \<noteq> 0"
    unfolding histories_append by (simp add: handed_out_def [of "[_]"] given_back_def [of "[_]"] del: count_eq_zero_iff)
  then have "x \<in># given_back ys" by simp
  then show ?thesis by (auto simp: given_back_def split: pool_call.splits)
qed

text \<open>C21: The pool with its threads: in every interleaving, whenever no thread is inside \<open>malloc\<close>, \<open>free\<close> or \<open>used\<close>,
  the objects in the pool together with those that have been handed out are exactly those it was
  created with together with those given back, so no object is lost.  When it was created with different objects and no object is
  given back that is not out (the pool does not look: after a double free it hands the same object out
  twice), then no object is handed out twice without having been given back in between.\<close>

theorem pool_threads_conserve:
  assumes "lk_run PoolT_body pool_local0 (PoolT_new ps) s" "holder s = None"
  defines "h \<equiv> results pool_res (calls s)"
  shows "mset (pool_queue (obj s)) + handed_out h = mset ps + given_back h
    \<and> (distinct ps \<and> frees_owned h \<longrightarrow>
        (\<forall>xs x n ys n' zs. h = xs @ [(Malloc, Some x, n)] @ ys @ [(Malloc, Some x, n')] @ zs \<longrightarrow> (\<exists>r. (Free x, r) \<in> set ys)))"
proof -
  have seq: "sequential PoolT_atomic (PoolT_new ps) h (obj s)"
    unfolding h_def by (rule po.linearizable [OF assms(1,2)])
  have "mset (pool_queue (obj s)) + handed_out h = mset ps + given_back h"
    using pool_history [OF seq] by (simp add: PoolT_new_def)
  moreover have "\<exists>r. (Free x, r) \<in> set ys"
    if "distinct ps" "frees_owned h" "h = xs @ [(Malloc, Some x, n)] @ ys @ [(Malloc, Some x, n')] @ zs" for xs x n ys n' zs
    using pool_history_free_between [OF seq [unfolded that(3)] that(1) that(2) [unfolded that(3)]] .
  ultimately show ?thesis by blast
qed

text \<open>A run of two threads: the second waits for the lock while the first is inside.\<close>

definition two_threads :: "'o \<Rightarrow> mutex \<Rightarrow> ('m, 'o, 'l) tpos \<Rightarrow> ('m, 'o, 'l) tpos \<Rightarrow> ('m \<times> 'l) list \<Rightarrow> ('m, 'o, 'l) locked" where
  "two_threads x h a b cs = \<lparr>obj = x, holder = h, pos = (\<lambda>t. if t = 0 then a else if t = 1 then b else Outside), calls = cs\<rparr>"

lemma lk_run_to: "lk_run body l0 x s \<Longrightarrow> lk_step body l0 s r \<Longrightarrow> r = s' \<Longrightarrow> lk_run body l0 x s'"
  by (blast intro: lk_run.step)

lemma two_threads_locked_new: "two_threads x None Outside Outside [] = locked_new x"
  by (auto simp: two_threads_def locked_new_def MutexLock_new_def fun_eq_iff)

lemma two_threads_new: "lk_run body l0 x (two_threads x None Outside Outside [])"
  unfolding two_threads_locked_new by (rule lk_run.start)

lemma first_call: "lk_run body l0 x (two_threads y h Outside b cs) \<Longrightarrow> lk_run body l0 x (two_threads y h (Locking m) b cs)"
  by (erule lk_run_to [OF _ lk_step.call [of _ 0 _ _ m]]) (auto simp: two_threads_def)

lemma second_call: "lk_run body l0 x (two_threads y h a Outside cs) \<Longrightarrow> lk_run body l0 x (two_threads y h a (Locking m) cs)"
  by (erule lk_run_to [OF _ lk_step.call [of _ 1 _ _ m]]) (auto simp: two_threads_def)

lemma first_lock: "lk_run body l0 x (two_threads y None (Locking m) b cs) \<Longrightarrow>
    lk_run body l0 x (two_threads y (Some 0) (Inside m (body m) l0) b cs)"
  by (erule lk_run_to [OF _ lk_step.lock [of _ 0 m "Some 0"]]) (auto simp: two_threads_def MutexLock_lock_def)

lemma first_access: "lk_run body l0 x (two_threads y h (Inside m (f # fs) l) b cs) \<Longrightarrow>
    lk_run body l0 x (two_threads (fst (f (y, l))) h (Inside m fs (snd (f (y, l)))) b cs)"
  by (erule lk_run_to [OF _ lk_step.access [of _ 0 m f fs l "fst (f (y, l))" "snd (f (y, l))"]]) (auto simp: two_threads_def)

lemma first_unlock: "lk_run body l0 x (two_threads y h (Inside m [] l) b cs) \<Longrightarrow>
    lk_run body l0 x (two_threads y None Outside b (cs @ [(m, l)]))"
  by (erule lk_run_to [OF _ lk_step.unlock [of _ 0 m l]]) (auto simp: two_threads_def MutexLock_unlock_def)

lemma counter_refines_witness:
  "\<exists>s. lk_run AtomicT_body counter_local0 5 s \<and> pos s 1 = Locking PreInc \<and>
     results ans (calls s) = [(PostInc, IntRes 5)] \<and> sequential AtomicT_atomic 5 [(PostInc, IntRes 5)] (obj s)"
proof -
  note first_lock [OF first_call [OF two_threads_new], of AtomicT_body counter_local0 5 PostInc, THEN second_call, of PreInc]
  then have "lk_run AtomicT_body counter_local0 5 (two_threads 5 (Some 0)
      (Inside PostInc [read_value, result_of IntRes, write_value (\<lambda>v. v + 1)] counter_local0) (Locking PreInc) [])"
    by (simp add: read_modify_def)
  from first_unlock [OF first_access [OF first_access [OF first_access [OF this]]]]
  have r: "lk_run AtomicT_body counter_local0 5
      (two_threads 6 None Outside (Locking PreInc) [(PostInc, \<lparr>tmp = 5, ans = IntRes 5\<rparr>)])"
    by (simp add: counter_access_defs)
  show ?thesis
    using counter_refines [OF r] r
    by (intro exI [of _ "two_threads 6 None Outside (Locking PreInc) [(PostInc, \<lparr>tmp = 5, ans = IntRes 5\<rparr>)]"])
      (simp add: two_threads_def results_def)
qed

lemma pool_threads_conserve_witness:
  "\<exists>s :: (nat pool_call, nat pool, nat pool_local) locked.
     lk_run PoolT_body pool_local0 (PoolT_new [7]) s \<and>
     results pool_res (calls s) = [(Malloc, Some 7, 0), (Free 7, None, 0), (Malloc, Some 7, 0)] \<and>
     mset (pool_queue (obj s)) + {#7, 7#} = {#7, 7#} \<and> (\<exists>r. (Free 7 :: nat pool_call, r) \<in> {(Free 7, None :: nat option, 0 :: int)})"
proof -
  let ?p = "PoolT_new [7 :: nat]" and ?full = "\<lparr>pool_queue = [7 :: nat], pool_size = 1\<rparr>"
    and ?empty = "\<lparr>pool_queue = [] :: nat list, pool_size = 1\<rparr>"
    and ?got = "(Malloc, pool_local0\<lparr>front := Some 7\<rparr>)" and ?gave = "(Free 7, pool_local0)"
  have malloc: "lk_run PoolT_body pool_local0 ?p (two_threads ?empty None Outside Outside (cs @ [?got]))"
    if "lk_run PoolT_body pool_local0 ?p (two_threads ?full None Outside Outside cs)" for cs
  proof -
    note first_lock [OF first_call [OF that], of Malloc]
    then have "lk_run PoolT_body pool_local0 ?p
        (two_threads ?full (Some 0) (Inside Malloc [pool_test, pool_front, pool_pop] pool_local0) Outside cs)"
      by simp
    from first_unlock [OF first_access [OF first_access [OF first_access [OF this]]]] show ?thesis
      by (simp add: pool_access_defs)
  qed
  have free: "lk_run PoolT_body pool_local0 ?p (two_threads ?full None Outside Outside (cs @ [?gave]))"
    if "lk_run PoolT_body pool_local0 ?p (two_threads ?empty None Outside Outside cs)" for cs
  proof -
    note first_lock [OF first_call [OF that], of "Free 7"]
    then have "lk_run PoolT_body pool_local0 ?p
        (two_threads ?empty (Some 0) (Inside (Free 7) [pool_push 7] pool_local0) Outside cs)"
      by simp
    from first_unlock [OF first_access [OF this]] show ?thesis by (simp add: pool_access_defs)
  qed
  have "lk_run PoolT_body pool_local0 ?p (two_threads ?full None Outside Outside [])"
    using two_threads_new [of PoolT_body pool_local0 ?p] by (simp add: PoolT_new_def)
  from malloc [OF free [OF malloc [OF this]]]
  have r: "lk_run PoolT_body pool_local0 ?p (two_threads ?empty None Outside Outside [?got, ?gave, ?got])" (is "lk_run _ _ _ ?s")
    by simp
  let ?h = "[(Malloc, Some 7, 0), (Free 7, None, 0), (Malloc, Some 7, 0)] :: (nat pool_call \<times> nat option \<times> int) list"
  have h: "results pool_res (calls ?s) = ?h"
    by (simp add: two_threads_def results_def pool_access_defs)
  have "frees_owned ?h"
    by (auto simp: frees_owned_def less_Suc_eq numeral_3_eq_3 handed_out_def given_back_def)
  moreover have hold: "holder ?s = None" by (simp add: two_threads_def)
  note conserve = pool_threads_conserve [OF r hold, unfolded h]
  ultimately have "\<exists>r. (Free 7, r) \<in> set [(Free 7 :: nat pool_call, None :: nat option, 0 :: int)]"
    by (intro conserve [THEN conjunct2, THEN mp, rule_format, of "[]" 7 0 _ 0 "[]"]) simp_all
  with conserve [THEN conjunct1] have "mset (pool_queue (obj ?s)) + handed_out ?h = mset [7] + given_back ?h
      \<and> (\<exists>r. (Free 7, r) \<in> set [(Free 7 :: nat pool_call, None :: nat option, 0 :: int)])" ..
  then show ?thesis
    using r h by (intro exI [of _ ?s]) (simp add: two_threads_def handed_out_def given_back_def)
qed

end
