(* ===== verification/Spec2Isabelle.thy ===== *)
theory Spec2Isabelle
  imports System_Spec Sql_Spec Auth_Spec Queue_Steps House_Spec Student_Login_Spec Puzzle_Spec TinyXml_Errors TinyXml_Dom_Spec Mongo Startup Locks
begin

text \<open>
  A model of ecServer, a server for electronic class rooms: teachers, students and whiteboards hold
  TCP connections to it and exchange packets through it.

  \<^bold>\<open>The program.\<close>  \<open>main\<close> hands the command line to \<open>ProcessManager\<close>, which reads the
  configuration, starts five worker threads (\<open>ThreadPool\<close>) and gives them four endless tasks.  The
  event loop (\<open>Evloop.cpp\<close>) accepts connections and reads whole packets into buffers of 5120 bytes
  from a pool (\<open>PoolT.h\<close>, \<open>Buf.h\<close>) into the receive queue (\<open>QueueT.h\<close>).  \<open>RecvTask\<close> takes them out, looks
  the packet type up in the table of \<open>handler/MSGHANDLE\<close> and runs the handler, which answers the
  sender, passes the packet on to the teacher, the whiteboard or the students of the sender's
  room (\<open>content/\<close>), or changes the state of a game, by putting buffers into the send queue.
  \<open>SendTask\<close> writes them to the connections.  \<open>AuthTask\<close> and \<open>confirm.hpp\<close> talk to the authorization
  service of \<open>auth/\<close>.  \<open>autoproto/\<close> is the generator that adds new packet types to the sources.

  \<^bold>\<open>Foundations.\<close>  \<open>Prelude\<close> has programs over an explicit state that return a value or stop with a
  fault, and their total weakest precondition \<open>wp\<close>: every property stated with \<open>wp\<close> says that the code
  returns; the liberal \<open>wlp\<close>, which an invariant needs, speaks of the runs that do return.  \<open>Std_Map\<close> is \<open>std::map\<close> as a sorted association list (locale \<open>ordered_map\<close>), \<open>Bytes\<close> the
  memory of a buffer with its little-endian accesses, \<open>Protocol\<close> the packet types and packed structures of
  \<open>protocol.h\<close>.  A \<open>32\<close>- or \<open>64\<close>-bit integer is a \<open>word\<close>; an \<open>int\<close> that only names a descriptor is \<open>int\<close>.

  \<^bold>\<open>State.\<close>  \<open>Buffers\<close> models \<open>Buf\<close>, \<open>QueueT\<close>, \<open>PoolT\<close> and \<open>AtomicT\<close> with the contracts \<open>fifo\<close> and
  \<open>allocator\<close>; \<open>Objects\<close> the classes of \<open>content/\<close>.  \<open>Server_State\<close> puts them into one record \<open>srv\<close>: a
  heap of buffers, students, nodes, groups and puzzles by address, the rooms, the pool and the two
  queues, with the primitive accesses; using a null or deleted pointer, or a byte outside a buffer,
  is a fault.  \<open>env\<close> holds what is outside: the answers of the database, the clock.
  A call of the Mongo driver may throw: a request returns \<open>None\<close> for the exception that leaves it, and what unwinding
  does not undo stays undone.
  \<open>Delivery\<close> defines the assertion \<open>own\<close>, with which most delivery properties are stated: which buffers the
  running code holds, which bytes wait to be sent to which descriptor, how many buffers are free,
  that each buffer is in exactly one place, and that everything else is unchanged.

  \<^bold>\<open>Components.\<close>  One theory per source file or group of files:
  \<^item> \<open>DataTool\<close>, \<open>MakeHouse\<close>, \<open>Room\<close>: \<open>content/DataTool.cpp\<close>, \<open>makehouse.cpp\<close>, \<open>room.cpp\<close> and
    \<open>roommanager.cpp\<close>
  \<^item> \<open>Messaging\<close>: \<open>handler/HandleMessage.cpp\<close>, the forwarders and the database answers
  \<^item> \<open>HandleClassRoom\<close>, \<open>HandleForward\<close> (cartoon, exercise, sprite), \<open>HandleBuildHouse\<close> (with
    \<open>handler/task/BHSyncTask.cpp\<close>), \<open>HandlePuzzle\<close>, \<open>HandleRainbowValley\<close>, \<open>Login\<close>: the handlers;
    \<open>Sql\<close>: \<open>SQL.h\<close>, the queries they make
  \<^item> \<open>Task\<close>: \<open>task.h\<close> with the table \<open>PROTOCOLS\<close>; \<open>Sock\<close>: \<open>Sock.c\<close> and \<open>SendTask.cpp\<close>; \<open>Evloop\<close>; \<open>Dispatch\<close>:
    \<open>handler/MSGHANDLE\<close> and \<open>RecvTask.cpp\<close>; \<open>Queue_Steps\<close>: the queue with its waiting threads;
    \<open>Locks\<close>: \<open>Mutex.h\<close> with the methods of \<open>AtomicT.h\<close> and \<open>PoolT.h\<close> as single accesses under the lock
  \<^item> \<open>ThreadPool\<close>; \<open>Startup\<close>: \<open>Config.cpp\<close>, \<open>database.cpp\<close>, \<open>memcached.cpp\<close>, \<open>ProcessManager.cpp\<close> (with the
    confirmation of \<open>Auth\<close>); \<open>Mongo\<close>:
    \<open>mongodb.cc\<close>; \<open>Auth\<close>: \<open>auth/\<close>, \<open>confirm.hpp\<close> and \<open>AuthTask.cpp\<close>
  \<^item> \<open>AutoProto\<close>: \<open>autoproto/autoprotocol.cc\<close>; \<open>TinyXml\<close>: the XML parser and printer that it uses,
    \<open>autoproto/tinyxmlparser.cpp\<close>, \<open>tinyxml.cpp\<close> and the inline functions of \<open>tinyxml.h\<close>, from the bytes of the
    file to the element tree; \<open>TinyXml_Dom\<close>: the functions of \<open>tinyxml.cpp\<close> that change a tree, with the nodes as linked
    objects on a heap

  \<^bold>\<open>Properties.\<close>
  \<^item> Delivery (\<open>Messaging_Spec\<close>, \<open>House_Spec\<close>, \<open>Room_Spec\<close>, \<open>Dispatch_Spec\<close>): who gets which bytes, in which
    order, with every buffer accounted for; who is refused.  \<open>Dispatch_Spec\<close> composes the receiving
    thread, the handler and the sending thread; \<open>Relay_Spec\<close> adds the event loop and shows that the three
    together implement an abstract relay, from the pieces on one wire to the pieces on the other.
  \<^item> Well-formedness (\<open>Typing\<close>, \<open>Typing_Spec\<close>): \<open>wt\<close> says that queued pointers are buffers, maps are sorted, rooms
    and houses refer to existing objects only; every primitive step, component, handler and thread round
    keeps it, so it holds of every state the running server reaches.  The rounds of the threads are atomic
    here: the source locks the queues and the pool (\<open>Locks\<close>), but not the rooms.  \<open>System_Spec\<close> runs the
    table of clients and the server's state together, and shows a client that keeps a place after it has gone.
  \<^item> Transport (\<open>Net_Spec\<close>): a packet is received and sent completely however the kernel cuts it up; the
    table of clients; the calls that overflow a buffer or never come back.
  \<^item> Data (\<open>DataTool\<close>, \<open>House_Spec\<close>): packing and unpacking of a picture with its float arithmetic, the
    stacking order of a house, the packet that describes it.
  \<^item> Concurrency (\<open>Locks\<close>, \<open>Queue_Steps\<close>, \<open>ThreadPool\<close>): the locked methods refine the atomic ones (locale
    \<open>guarded\<close>), invariants over all interleavings, a wakeup that is lost while the other consumer is busy; what holds of the pool
    when callers give back only what is out (\<open>frees_owned\<close>).
  \<^item> Start-up, log-in and stores (\<open>Startup\<close>, \<open>Login_Spec\<close>, \<open>Student_Login_Spec\<close>, \<open>Auth_Spec\<close>, \<open>Mongo\<close>), the
    values bound to the queries (\<open>Sql_Spec\<close>), the puzzle (\<open>Puzzle_Spec\<close>) and the
    generator (\<open>AutoProto_Spec\<close>).
  \<^item> The XML parser (\<open>TinyXml_Spec\<close>, \<open>TinyXml_Tokens\<close>, \<open>TinyXml_Roundtrip\<close>, \<open>TinyXml_Errors\<close>): it ends
    on every text (\<open>ends\<close>, \<open>parses\<close>, \<open>reads\<close>), with the one exception of a byte \<open>0xEF\<close> that is cut off; a document
    that is printed is parsed back (\<open>yields\<close> for one parser, \<open>reparses\<close> for one node), and with it the protocols
    of the generator; what becomes of texts that break off (\<open>reports\<close>, \<open>faults\<close>).
  \<^item> The tree as a data structure (\<open>TinyXml_Dom_Spec\<close>): \<open>holds\<close> says that the linked nodes represent a tree; copying,
    inserting, replacing, removing and clearing refine the operations on lists of children (\<open>edited\<close>).

  \<^bold>\<open>Bounds and loops.\<close>  A loop around a system call runs over the list of the kernel's answers; a list that
  runs out is a loop that still waits (\<open>Blocked\<close>, or \<open>None\<close>).  The endless picture loop of the puzzle
  is watched for as many rounds as a list has entries, each entry being what the other threads do before the round, and the result says
  whether the loop is still running; the handler alone has one round more than there are free buffers, which is proved to be
  enough, and with the sending thread between the rounds the loop goes on for ever.  The line loops of
  the generator are \<open>partial_function (option)\<close>: \<open>None\<close> is a loop that never ends, and
  \<open>checkcontent_result\<close> says exactly when that happens.  The XML parser recurses with a fuel of twice the
  length of the text, and its loops with one of the length; running out of it is the fault \<open>Endless\<close>, and
  \<open>LoadFile_terminates\<close> shows that it never does.  Copying and deleting a tree
  have a fuel of twice the number of its nodes.  The loop that counts rows and columns is a \<open>partial_function\<close>
  again, because it does not end on every text.

  \<^bold>\<open>Not modelled.\<close>  libev, sockets, signals, \<open>fork\<close>, logging and printing; the MySQL, Mongo, memcached and
  Lua libraries, whose answers are parameters; of
  TinyXML the string class, the places and user data stored in the nodes, the searches by name, the
  numeric queries and setters, the visitors, handles and stream operators, none of which the generator calls; code that the build flags leave out;
  \<open>TcpWrapper\<close>, the vendored headers and the test programs.
\<close>

end
